(* ===== verification/Prelude.thy ===== *)
theory Prelude
  imports Main "HOL-Library.Word"
begin

text \<open>
  Shared vocabulary of the development: the C integer types the sources use, the error
  codes of \<^verbatim>\<open>errno.h\<close> (Linux numbering) and of \<^verbatim>\<open>posixipc_result.h\<close>, the collections
  of rewrite rules the component theories add to, and the facts about words, lists and
  alignment arithmetic that several components rest on.
\<close>

unbundle bit_operations_syntax

section \<open>Types and error codes\<close>

type_synonym u8 = "8 word"
type_synonym u16 = "16 word"
type_synonym u32 = "32 word"
type_synonym u64 = "64 word"

text \<open>A C \<^verbatim>\<open>int\<close> used as a status code: 0 is success, an errno value otherwise.\<close>

type_synonym rc = int

abbreviation (input) EPERM :: rc where "EPERM \<equiv> 1"
abbreviation (input) ENOENT :: rc where "ENOENT \<equiv> 2"
abbreviation (input) EINTR :: rc where "EINTR \<equiv> 4"
abbreviation (input) EIO :: rc where "EIO \<equiv> 5"
abbreviation (input) EBADF :: rc where "EBADF \<equiv> 9"
abbreviation (input) EAGAIN :: rc where "EAGAIN \<equiv> 11"
abbreviation (input) ENOMEM :: rc where "ENOMEM \<equiv> 12"
abbreviation (input) EACCES :: rc where "EACCES \<equiv> 13"
abbreviation (input) EBUSY :: rc where "EBUSY \<equiv> 16"
abbreviation (input) EEXIST :: rc where "EEXIST \<equiv> 17"
abbreviation (input) EINVAL :: rc where "EINVAL \<equiv> 22"
abbreviation (input) EDEADLK :: rc where "EDEADLK \<equiv> 35"
abbreviation (input) ENAMETOOLONG :: rc where "ENAMETOOLONG \<equiv> 36"
abbreviation (input) ENOSYS :: rc where "ENOSYS \<equiv> 38"
abbreviation (input) EOVERFLOW :: rc where "EOVERFLOW \<equiv> 75"
abbreviation (input) ENOTSUP :: rc where "ENOTSUP \<equiv> 95"
abbreviation (input) ETIMEDOUT :: rc where "ETIMEDOUT \<equiv> 110"
abbreviation (input) EOWNERDEAD :: rc where "EOWNERDEAD \<equiv> 130"
abbreviation (input) ENOTRECOVERABLE :: rc where "ENOTRECOVERABLE \<equiv> 131"

abbreviation (input) POSIXIPC_ERROR_LAYOUT_MISMATCH :: rc where "POSIXIPC_ERROR_LAYOUT_MISMATCH \<equiv> 5000"
abbreviation (input) POSIXIPC_ERROR_NOT_READY :: rc where "POSIXIPC_ERROR_NOT_READY \<equiv> 5001"
abbreviation (input) POSIXIPC_ERROR_BROKEN :: rc where "POSIXIPC_ERROR_BROKEN \<equiv> 5002"
abbreviation (input) POSIXIPC_ERROR_INTERRUPTED :: rc where "POSIXIPC_ERROR_INTERRUPTED \<equiv> 5003"
abbreviation (input) POSIXIPC_BARRIER_SERIAL :: rc where "POSIXIPC_BARRIER_SERIAL \<equiv> 5004"

abbreviation (input) UINT32_MAX :: u32 where "UINT32_MAX \<equiv> 0xffffffff"

section \<open>Collections\<close>

named_theorems word_nat \<open>moves comparisons and arithmetic on words to natural numbers\<close>
named_theorems io_simps \<open>unfolds one call to the environment\<close>
named_theorems ring_simps \<open>the ring buffer's accessors after each of its stores\<close>

section \<open>Words\<close>

lemmas word_cmp_nat [word_nat] = word_le_nat_alt word_less_nat_alt word_unat_eq_iff

lemma unat_u32_less: "unat (x :: u32) < 4294967296"
  using unsigned_less [of x] by simp

lemma unat_u16_less: "unat (x :: u16) < 65536"
  using unsigned_less [of x, where ?'a = nat] by simp

lemma unat_ucast_16_32 [simp]: "unat (ucast (x :: u16) :: u32) = unat x"
proof -
  have "unat x < 2 ^ 32" by (rule less_trans [OF unat_u16_less]) simp
  then show ?thesis by (simp only: unsigned_ucast_eq) (simp add: take_bit_nat_eq_self)
qed

lemma unat_ucast_8_32: "unat (ucast (x :: u8) :: u32) = unat x"
proof -
  have "unat x < 2 ^ 8" using unsigned_less [of x, where ?'a = nat] by simp
  then have "unat x < 2 ^ 32" by (rule less_trans) simp
  then show ?thesis by (simp only: unsigned_ucast_eq) (simp add: take_bit_nat_eq_self)
qed

lemma unat_add_no_wrap: "unat (x :: u32) + unat y < 2 ^ 32 \<Longrightarrow> unat (x + y) = unat x + unat y"
  using unat_add_lem [of x y] by simp

lemma unat_mult_no_wrap: "unat (x :: u32) * unat y < 2 ^ 32 \<Longrightarrow> unat (x * y) = unat x * unat y"
  using unat_mult_lem [of x y] by simp

text \<open>The overflow tests of the sources, \<^verbatim>\<open>a > UINT32_MAX - b\<close> and \<^verbatim>\<open>a > UINT32_MAX / b\<close>.\<close>

lemma gt_max_minus_iff: "(UINT32_MAX - b < a) = (2 ^ 32 \<le> unat a + unat (b :: u32))"
proof -
  have "unat (UINT32_MAX - b) = 4294967295 - unat b"
    by (subst unat_sub) (simp_all add: word_le_nat_alt less_Suc_eq_le [symmetric] unat_u32_less)
  moreover have "unat b \<le> 4294967295" using unat_u32_less [of b] by linarith
  ultimately show ?thesis unfolding word_less_nat_alt by auto
qed

lemma gt_max_div_iff:
  "b \<noteq> 0 \<Longrightarrow> (UINT32_MAX div b < a) = (2 ^ 32 \<le> unat a * unat (b :: u32))"
proof -
  assume "b \<noteq> 0"
  then have b: "0 < unat b" by (simp add: unat_gt_0)
  have "unat (UINT32_MAX div b) = 4294967295 div unat b"
    by (simp add: unat_div)
  then have "(UINT32_MAX div b < a) = (4294967295 div unat b < unat a)"
    by (simp add: word_less_nat_alt)
  also have "\<dots> = (4294967295 < unat a * unat b)"
    using b by (simp add: div_less_iff_less_mult)
  finally show ?thesis by auto
qed

lemma unat_word_of_nat_small [simp]: "n < 4294967296 \<Longrightarrow> unat (word_of_nat n :: u32) = n"
  by (simp add: unat_of_nat)

section \<open>Powers of two and rounding up\<close>

text \<open>
  The test \<^verbatim>\<open>(align & (align - 1)) == 0\<close> of the sources recognises powers of two.
\<close>

lemma and_pred_eq_0_pow2: "0 < (a :: nat) \<Longrightarrow> and a (a - 1) = 0 \<Longrightarrow> \<exists>k. a = 2 ^ k"
proof (induction a rule: less_induct)
  case (less a)
  show ?case
  proof (cases "even a")
    case True
    then obtain b where b: "a = 2 * b" by auto
    with less.prems have b0: "0 < b" by simp
    then have odd: "a - 1 = 1 + 2 * (b - 1)" using b by simp
    have "and a (a - 1) = and (2 * b) (1 + 2 * (b - 1))"
      unfolding odd by (simp only: b)
    also have "\<dots> = 2 * and b (b - 1)"
      by (subst and_rec) simp
    finally have "and a (a - 1) = 2 * and b (b - 1)" .
    with less.prems have "and b (b - 1) = 0" by simp
    with less.IH [of b] b0 b obtain k where "b = 2 ^ k" by auto
    then have "a = 2 ^ Suc k" using b by simp
    then show ?thesis by blast
  next
    case False
    then obtain b where b: "a = 1 + 2 * b" by (metis oddE add.commute)
    then have "and a (a - 1) = and (1 + 2 * b) (2 * b)" by simp
    also have "\<dots> = 2 * and b b" by (subst and_rec) simp
    finally have "and a (a - 1) = 2 * b" by simp
    with less.prems have "b = 0" by simp
    then show ?thesis using b by (intro exI [of _ 0]) simp
  qed
qed

lemma word_pow2_test:
  assumes "a \<noteq> 0" and "(a :: u32) AND (a - 1) = 0"
  shows "\<exists>k < 32. unat a = 2 ^ k"
proof -
  have "and (unat a) (unat a - 1) = unat (a AND (a - 1))"
    using assms(1) by (simp add: unsigned_and_eq unat_minus_one)
  with assms(2) have "and (unat a) (unat a - 1) = 0" by simp
  with assms(1) obtain k where k: "unat a = 2 ^ k"
    using and_pred_eq_0_pow2 [of "unat a"] by (auto simp: unat_gt_0)
  have "(2::nat) ^ k < 2 ^ 32"
    using unat_u32_less [of a] k by simp
  then have "k < 32" by (simp only: power_strict_increasing_iff)
  with k show ?thesis by blast
qed

text \<open>Rounding up to a multiple, on natural numbers: what every \<^verbatim>\<open>align_up\<close> computes.\<close>

definition ceil_to :: "nat \<Rightarrow> nat \<Rightarrow> nat" where
  "ceil_to a v = (v + (a - 1)) div a * a"

lemma ceil_to_ge: "0 < a \<Longrightarrow> v \<le> ceil_to a v"
proof -
  assume a: "0 < a"
  have "(v + (a - 1)) div a * a + (v + (a - 1)) mod a = v + (a - 1)" by simp
  moreover have "(v + (a - 1)) mod a \<le> a - 1" using a by (simp add: less_Suc_eq_le [symmetric])
  ultimately show ?thesis unfolding ceil_to_def by linarith
qed

lemma ceil_to_dvd [simp]: "a dvd ceil_to a v"
  by (simp add: ceil_to_def)

lemma ceil_to_less: "0 < a \<Longrightarrow> ceil_to a v < v + a"
proof -
  assume a: "0 < a"
  have "(v + (a - 1)) div a * a \<le> v + (a - 1)" by (rule div_times_less_eq_dividend)
  with a show ?thesis unfolding ceil_to_def by linarith
qed

lemma ceil_to_multiple: "0 < a \<Longrightarrow> a dvd v \<Longrightarrow> ceil_to a v = v"
proof -
  assume a: "0 < a" and "a dvd v"
  then obtain k where v: "v = k * a" by (auto elim!: dvdE)
  have "(k * a + (a - 1)) div a = k" using a by (subst div_mult_self3) simp_all
  then show ?thesis by (simp add: ceil_to_def v)
qed

lemma ceil_to_mono: "v \<le> w \<Longrightarrow> ceil_to a v \<le> ceil_to a w"
  by (simp add: ceil_to_def div_le_mono)

lemma ceil_to_1 [simp]: "ceil_to (Suc 0) v = v"
  by (simp add: ceil_to_def)

lemma ceil_to_unless_dvd: "0 < a \<Longrightarrow> \<not> a dvd v \<Longrightarrow> ceil_to a v = v + (a - v mod a)"
proof -
  assume a: "0 < a" and nd: "\<not> a dvd v"
  then have r: "0 < v mod a" by (simp add: mod_greater_zero_iff_not_dvd)
  have v: "v = v div a * a + v mod a" by simp
  have "v + (a - 1) = v div a * a + v mod a + (a - 1)" by simp
  also have "\<dots> = (v div a + 1) * a + (v mod a - 1)"
    using r a by (simp add: distrib_right)
  finally have "v + (a - 1) = (v div a + 1) * a + (v mod a - 1)" .
  moreover have "v mod a - 1 < a" using mod_less_divisor [OF a, of v] by linarith
  ultimately have "(v + (a - 1)) div a = v div a + 1"
    using a by (simp only: div_mult_self3) simp
  then have "ceil_to a v = v div a * a + a" by (simp add: ceil_to_def)
  moreover have "v mod a \<le> a" using a by (simp add: less_imp_le)
  ultimately show ?thesis using v by linarith
qed

text \<open>The bit trick \<^verbatim>\<open>(value + mask) & ~mask\<close> rounds up when \<^verbatim>\<open>mask + 1\<close> is a power of two.\<close>

lemma and_not_mask_nat:
  "unat ((x :: u32) AND NOT (mask k)) = unat x div 2 ^ k * 2 ^ k"
proof -
  have "x AND NOT (mask k) = push_bit k (drop_bit k x)"
    by (rule bit_eqI) (auto simp: bit_simps)
  moreover have "push_bit k (drop_bit k x) + take_bit k x = x"
    by (rule bits_ident)
  moreover have "unat (take_bit k x) = unat x mod 2 ^ k"
    by (simp add: unsigned_take_bit_eq take_bit_eq_mod [of k "unat x"])
  ultimately have "unat (x AND NOT (mask k)) = unat x - unat x mod 2 ^ k"
    by (metis add_diff_cancel_right' unat_sub unsigned_take_bit_eq take_bit_nat_less_eq_self
        word_le_nat_alt)
  then show ?thesis by (simp add: minus_mod_eq_div_mult)
qed

lemma unat_align_pow2:
  assumes a: "unat (a :: u32) = 2 ^ k" and fit: "unat v + unat (a - 1) < 2 ^ 32"
  shows "unat ((v + (a - 1)) AND NOT (a - 1)) = ceil_to (unat a) (unat v)"
proof -
  have "a \<noteq> 0" using a by auto
  then have pred: "unat (a - 1) = unat a - 1" by (rule unat_minus_one)
  have "a = word_of_nat (unat a)" by simp
  also have "\<dots> = 2 ^ k" by (simp only: a) simp
  finally have "a = 2 ^ k" .
  then have m: "a - 1 = mask k" by (simp add: mask_eq_exp_minus_1)
  show ?thesis
    unfolding m and_not_mask_nat
    using fit pred a by (simp add: m [symmetric] unat_add_no_wrap ceil_to_def)
qed

lemma pow2_ceil_overflow_iff:
  assumes "unat (a :: u32) = 2 ^ k" and "k < 32"
  shows "(2 ^ 32 \<le> v + (unat a - 1)) = (2 ^ 32 \<le> ceil_to (unat a) v)"
proof
  assume "2 ^ 32 \<le> v + (unat a - 1)"
  then have "(2 ^ 32) div 2 ^ k * 2 ^ k \<le> ceil_to (unat a) v"
    unfolding ceil_to_def assms(1) by (intro mult_right_mono div_le_mono) auto
  moreover have "(2 ^ 32 :: nat) div 2 ^ k * 2 ^ k = 2 ^ 32"
    using assms(2) by (intro dvd_div_mult_self le_imp_power_dvd) simp
  ultimately show "2 ^ 32 \<le> ceil_to (unat a) v" by simp
next
  assume "2 ^ 32 \<le> ceil_to (unat a) v"
  also have "ceil_to (unat a) v < v + unat a"
    using assms(1) by (intro ceil_to_less) simp
  finally show "2 ^ 32 \<le> v + (unat a - 1)" by linarith
qed

text \<open>Bounded quantifiers over small ranges, for evaluating examples.\<close>

lemma all_less_3: "(\<forall>i < 3. P i) = (P 0 \<and> P 1 \<and> P (2 :: nat))"
  by (auto simp: numeral_3_eq_3 numeral_2_eq_2 less_Suc_eq)

end
