(* ===== verification/Config.thy ===== *)
theory Config
  imports Prelude
begin

text \<open>
  The configuration the build writes to \<^verbatim>\<open>posixipc_config.h\<close> (template
  \<^verbatim>\<open>src/src/core/posixipc_config.h.in\<close>) and the C structs the core components share.
  The generated values (cache line, sizes and alignments of the platform's pthread types,
  feature switches) are a parameter of every definition that reads them; what the code
  relies on about them is the predicate \<^verbatim>\<open>config_ok\<close>.
\<close>

section \<open>Build configuration\<close>

record config =
  CACHELINE_BYTES :: u32
  LIBC_FAMILY :: u32
  ABI_TAG_SEED :: u32
  SIZEOF_PTHREAD_MUTEX_T :: u32
  SIZEOF_PTHREAD_RWLOCK_T :: u32
  SIZEOF_PTHREAD_COND_T :: u32
  SIZEOF_PTHREAD_BARRIER_T :: u32
  SIZEOF_PTHREAD_SPINLOCK_T :: u32
  SIZEOF_SEM_T :: u32
  alignof_mutex :: u32
  alignof_rwlock :: u32
  alignof_cond :: u32
  alignof_barrier :: u32
  alignof_spinlock :: u32
  alignof_sem :: u32
  HAVE_PTHREAD_CONDATTR_SETCLOCK :: bool
  HAVE_PTHREAD_BARRIER_WAIT :: bool
  HAVE_PTHREAD_BARRIERATTR_SETPSHARED :: bool
  HAVE_PTHREAD_SPIN_INIT :: bool
  HAVE_PTHREAD_SPIN_TRYLOCK :: bool
  HAVE_SEM_OPEN :: bool
  HAVE_MQ_OPEN :: bool
  HAVE_MEMFD_CREATE :: bool
  HAVE_EVENTFD :: bool
  IS_LINUX :: bool
  LITTLE_ENDIAN :: bool

definition posixipc_abi_tag_seed :: "config \<Rightarrow> u32" where
  "posixipc_abi_tag_seed c = ABI_TAG_SEED c"

text \<open>
  What the code relies on: the cache line is a power of two, alignments are powers of two
  (as C requires of \<^verbatim>\<open>alignof\<close>) that fit the 16-bit directory field, and the sizes of the
  primitives are positive and small.
\<close>

definition pow2_word :: "u32 \<Rightarrow> bool" where
  "pow2_word a \<longleftrightarrow> a \<noteq> 0 \<and> a AND (a - 1) = 0"

definition align_ok :: "u32 \<Rightarrow> bool" where
  "align_ok a \<longleftrightarrow> pow2_word a \<and> a \<le> 32768"

definition size_ok :: "u32 \<Rightarrow> bool" where
  "size_ok s \<longleftrightarrow> 0 < s \<and> s \<le> 65536"

definition config_ok :: "config \<Rightarrow> bool" where
  "config_ok c \<longleftrightarrow>
     align_ok (CACHELINE_BYTES c) \<and>
     align_ok (alignof_mutex c) \<and> align_ok (alignof_rwlock c) \<and> align_ok (alignof_cond c) \<and>
     align_ok (alignof_barrier c) \<and> align_ok (alignof_spinlock c) \<and> align_ok (alignof_sem c) \<and>
     size_ok (SIZEOF_PTHREAD_MUTEX_T c) \<and> size_ok (SIZEOF_PTHREAD_RWLOCK_T c) \<and>
     size_ok (SIZEOF_PTHREAD_COND_T c) \<and> size_ok (SIZEOF_PTHREAD_BARRIER_T c) \<and>
     size_ok (SIZEOF_PTHREAD_SPINLOCK_T c) \<and> size_ok (SIZEOF_SEM_T c)"

text \<open>The values CMake finds with glibc on x86-64; the seed is an arbitrary constant.\<close>

definition glibc_x86_64 :: config where
  "glibc_x86_64 = \<lparr>
     CACHELINE_BYTES = 64, LIBC_FAMILY = 1, ABI_TAG_SEED = 0x12345678,
     SIZEOF_PTHREAD_MUTEX_T = 40, SIZEOF_PTHREAD_RWLOCK_T = 56, SIZEOF_PTHREAD_COND_T = 48,
     SIZEOF_PTHREAD_BARRIER_T = 32, SIZEOF_PTHREAD_SPINLOCK_T = 4, SIZEOF_SEM_T = 32,
     alignof_mutex = 8, alignof_rwlock = 8, alignof_cond = 8,
     alignof_barrier = 8, alignof_spinlock = 4, alignof_sem = 8,
     HAVE_PTHREAD_CONDATTR_SETCLOCK = True, HAVE_PTHREAD_BARRIER_WAIT = True,
     HAVE_PTHREAD_BARRIERATTR_SETPSHARED = True, HAVE_PTHREAD_SPIN_INIT = True,
     HAVE_PTHREAD_SPIN_TRYLOCK = True, HAVE_SEM_OPEN = True, HAVE_MQ_OPEN = True,
     HAVE_MEMFD_CREATE = True, HAVE_EVENTFD = True, IS_LINUX = True, LITTLE_ENDIAN = True\<rparr>"

section \<open>Structs of the shared-memory format\<close>

text \<open>\<^verbatim>\<open>posixipc_slot\<close>: one 16-byte directory record.\<close>

record posixipc_slot =
  s_kind :: u16
  s_align :: u16
  s_offset :: u32
  s_size :: u32
  s_init_flags :: u32

text \<open>\<^verbatim>\<open>posixipc_shm_expect\<close>: the layout a process expects; a NULL \<^verbatim>\<open>slots\<close> pointer is \<^const>\<open>None\<close>.\<close>

record posixipc_shm_expect =
  e_layout_version :: u16
  e_slot_count :: u16
  e_abi_tag :: u32
  e_flags :: u32
  e_total_size :: u32
  e_directory_bytes :: u32
  e_layout_digest :: u32
  e_slots :: "posixipc_slot list option"

text \<open>\<^verbatim>\<open>posixipc_shm_header\<close>: the first 64 bytes of a segment (the reserved words are zero).\<close>

record posixipc_shm_header =
  h_magic :: u32
  h_layout_version :: u16
  h_slot_count :: u16
  h_abi_tag :: u32
  h_flags :: u32
  h_total_size :: u32
  h_directory_bytes :: u32
  h_state :: u32
  h_layout_digest :: u32

abbreviation (input) HEADER_BYTES :: u32 where "HEADER_BYTES \<equiv> 64"
abbreviation (input) LAYOUT_VERSION :: u16 where "LAYOUT_VERSION \<equiv> 1"

abbreviation (input) KIND_BYTES :: u16 where "KIND_BYTES \<equiv> 1"
abbreviation (input) KIND_MUTEX :: u16 where "KIND_MUTEX \<equiv> 2"
abbreviation (input) KIND_ROBUST_MUTEX :: u16 where "KIND_ROBUST_MUTEX \<equiv> 3"
abbreviation (input) KIND_RWLOCK :: u16 where "KIND_RWLOCK \<equiv> 4"
abbreviation (input) KIND_COND :: u16 where "KIND_COND \<equiv> 5"
abbreviation (input) KIND_SEM :: u16 where "KIND_SEM \<equiv> 6"
abbreviation (input) KIND_BARRIER :: u16 where "KIND_BARRIER \<equiv> 7"
abbreviation (input) KIND_SPIN :: u16 where "KIND_SPIN \<equiv> 8"

abbreviation (input) FLAG_ROBUST :: u32 where "FLAG_ROBUST \<equiv> 1"
abbreviation (input) FLAG_PROCESS_SHARED :: u32 where "FLAG_PROCESS_SHARED \<equiv> 2"
abbreviation (input) FLAG_OWNS_STORAGE :: u32 where "FLAG_OWNS_STORAGE \<equiv> 4"
abbreviation (input) FLAG_CLOSED :: u32 where "FLAG_CLOSED \<equiv> 8"
abbreviation (input) FLAG_BOUND :: u32 where "FLAG_BOUND \<equiv> 16"
abbreviation (input) FLAG_PRIORITY_INHERIT :: u32 where "FLAG_PRIORITY_INHERIT \<equiv> 32"
abbreviation (input) FLAG_MONOTONIC :: u32 where "FLAG_MONOTONIC \<equiv> 64"

abbreviation (input) STATE_UNINIT :: u32 where "STATE_UNINIT \<equiv> 0"
abbreviation (input) STATE_INITIALIZING :: u32 where "STATE_INITIALIZING \<equiv> 1"
abbreviation (input) STATE_READY :: u32 where "STATE_READY \<equiv> 2"
abbreviation (input) STATE_BROKEN :: u32 where "STATE_BROKEN \<equiv> 3"

section \<open>Facts about the configuration\<close>

lemma pow2_word_unat: "pow2_word a \<Longrightarrow> \<exists>k < 32. unat a = 2 ^ k"
  by (simp add: pow2_word_def word_pow2_test)

lemma pow2_word_pos: "pow2_word a \<Longrightarrow> 0 < unat a"
  by (simp add: pow2_word_def unat_gt_0)

lemma align_ok_pos: "align_ok a \<Longrightarrow> 0 < unat a"
  by (simp add: align_ok_def pow2_word_pos)

lemma align_ok_le: "align_ok a \<Longrightarrow> unat a \<le> 32768"
  by (simp add: align_ok_def word_le_nat_alt)

lemma size_ok_bounds: "size_ok s \<Longrightarrow> 0 < unat s \<and> unat s \<le> 65536"
  by (simp add: size_ok_def word_le_nat_alt unat_gt_0 word_gt_0)

lemma glibc_x86_64_ok: "config_ok glibc_x86_64"
  by (simp add: glibc_x86_64_def config_ok_def align_ok_def size_ok_def pow2_word_def)

end
