(* ===== verification/Layout.thy ===== *)
theory Layout
  imports Config
begin

text \<open>
  The typed layout of a segment (\<^verbatim>\<open>src/src/core/posixipc_layout.c\<close>): the FNV-1a style digest
  of the slot directory, the ABI tag, sizes and alignments of the slot kinds, and
  \<^verbatim>\<open>posixipc_layout_build\<close>, which assigns each slot its offset. The lemmas show that the
  32-bit arithmetic computes exact sums, that a built layout is aligned, ordered, disjoint
  and inside the segment, that overflow is reported exactly when the segment would not fit
  32 bits, that rebuilding changes nothing, and what the digest distinguishes.
\<close>

section \<open>Digest\<close>

definition feed_u8 :: "u32 \<Rightarrow> u8 \<Rightarrow> u32" where
  "feed_u8 h b = (h XOR ucast b) * 0x01000193"

definition feed_u16_le :: "u32 \<Rightarrow> u16 \<Rightarrow> u32" where
  "feed_u16_le h v =
     (let h = feed_u8 h (ucast (v AND 0xff))
      in feed_u8 h (ucast (drop_bit 8 v AND 0xff)))"

definition feed_u32_le :: "u32 \<Rightarrow> u32 \<Rightarrow> u32" where
  "feed_u32_le h v =
     (let h = feed_u8 h (ucast (v AND 0xff));
          h = feed_u8 h (ucast (drop_bit 8 v AND 0xff));
          h = feed_u8 h (ucast (drop_bit 16 v AND 0xff))
      in feed_u8 h (ucast (drop_bit 24 v AND 0xff)))"

text \<open>The loop body and the loop over the first \<^verbatim>\<open>nslots\<close> directory records.\<close>

definition feed_slot :: "u32 \<Rightarrow> posixipc_slot \<Rightarrow> u32" where
  "feed_slot h s =
     (let h = feed_u16_le h (s_kind s);
          h = feed_u16_le h (s_align s);
          h = feed_u32_le h (s_size s)
      in feed_u32_le h (s_init_flags s))"

definition posixipc_layout_digest ::
    "config \<Rightarrow> u16 \<Rightarrow> u32 \<Rightarrow> posixipc_slot list \<Rightarrow> u16 \<Rightarrow> u32" where
  "posixipc_layout_digest c version tag slots nslots =
     (let h = 0x811C9DC5;
          h = feed_u16_le h version;
          h = feed_u32_le h tag;
          h = feed_u32_le h (CACHELINE_BYTES c);
          h = foldl feed_slot h (take (unat nslots) slots)
      in if h = 0 then 1 else h)"

section \<open>Alignment, ABI tag, kinds\<close>

definition layout_align_up :: "u32 \<Rightarrow> u32 \<Rightarrow> u32" where
  "layout_align_up value al =
     (if al \<le> 1 then value
      else let m = al - 1 in
        if al AND m = 0 then
          (if value > UINT32_MAX - m then 0 else (value + m) AND NOT m)
        else if al \<noteq> 0 \<and> value mod al \<noteq> 0 then
          (let add = al - value mod al in
           if value > UINT32_MAX - add then 0 else value + add)
        else value)"

definition posixipc_abi_tag :: "config \<Rightarrow> u32" where
  "posixipc_abi_tag c =
     (let tag = ABI_TAG_SEED c;
          tag = tag XOR alignof_mutex c * 0x9e3779b1;
          tag = tag XOR alignof_rwlock c * 0x85ebca77;
          tag = tag XOR alignof_cond c * 0xc2b2ae3d;
          tag = tag XOR alignof_sem c * 0x27d4eb2f;
          tag = (if HAVE_PTHREAD_BARRIER_WAIT c then tag XOR alignof_barrier c * 0x165667b1 else tag);
          tag = (if HAVE_PTHREAD_SPIN_INIT c then tag XOR alignof_spinlock c * 0x85ebca6b else tag);
          tag = tag XOR CACHELINE_BYTES c;
          tag = tag XOR push_bit 24 (LIBC_FAMILY c)
      in if tag = 0 then 1 else tag)"

definition posixipc_kind_align :: "config \<Rightarrow> u16 \<Rightarrow> u32" where
  "posixipc_kind_align c k =
     (if k = KIND_MUTEX \<or> k = KIND_ROBUST_MUTEX then alignof_mutex c
      else if k = KIND_RWLOCK then alignof_rwlock c
      else if k = KIND_COND then alignof_cond c
      else if k = KIND_SEM then alignof_sem c
      else if HAVE_PTHREAD_BARRIER_WAIT c \<and> k = KIND_BARRIER then alignof_barrier c
      else if HAVE_PTHREAD_SPIN_INIT c \<and> k = KIND_SPIN then alignof_spinlock c
      else if k = KIND_BYTES then CACHELINE_BYTES c
      else 1)"

definition posixipc_kind_size :: "config \<Rightarrow> u16 \<Rightarrow> u32 \<Rightarrow> u32" where
  "posixipc_kind_size c k requested =
     (let raw =
        (if k = KIND_MUTEX \<or> k = KIND_ROBUST_MUTEX then Some (SIZEOF_PTHREAD_MUTEX_T c)
         else if k = KIND_RWLOCK then Some (SIZEOF_PTHREAD_RWLOCK_T c)
         else if k = KIND_COND then Some (SIZEOF_PTHREAD_COND_T c)
         else if k = KIND_SEM then Some (SIZEOF_SEM_T c)
         else if HAVE_PTHREAD_BARRIER_WAIT c \<and> k = KIND_BARRIER then Some (SIZEOF_PTHREAD_BARRIER_T c)
         else if HAVE_PTHREAD_SPIN_INIT c \<and> k = KIND_SPIN then Some (SIZEOF_PTHREAD_SPINLOCK_T c)
         else if k = KIND_BYTES then Some requested
         else None)
      in case raw of None \<Rightarrow> 0 | Some r \<Rightarrow> layout_align_up r (CACHELINE_BYTES c))"

section \<open>Building a layout\<close>

text \<open>
  One iteration of the loop of \<^verbatim>\<open>posixipc_layout_build\<close>: the error, or the slot as written
  back and the next cursor. The failing iteration may already have written the slot
  (\<^verbatim>\<open>EOVERFLOW\<close> of the size test comes after the three stores).
\<close>

definition layout_step :: "config \<Rightarrow> u32 \<Rightarrow> posixipc_slot \<Rightarrow> rc \<times> posixipc_slot \<times> u32" where
  "layout_step c cursor s =
     (let al = (if s_align s \<noteq> 0 then ucast (s_align s) else posixipc_kind_align c (s_kind s));
          sz = (if s_size s \<noteq> 0 then s_size s else posixipc_kind_size c (s_kind s) 0)
      in if al = 0 \<or> sz = 0 then (EINVAL, s, cursor)
         else let off = layout_align_up cursor al in
           if off = 0 \<and> cursor \<noteq> 0 then (EOVERFLOW, s, cursor)
           else let s' = s\<lparr>s_align := ucast al, s_size := sz, s_offset := off\<rparr> in
             if sz > UINT32_MAX - off then (EOVERFLOW, s', cursor)
             else (0, s', off + sz))"

text \<open>The loop: stops at the first error and leaves the remaining slots as they were.\<close>

fun layout_loop :: "config \<Rightarrow> u32 \<Rightarrow> posixipc_slot list \<Rightarrow> rc \<times> posixipc_slot list \<times> u32" where
  "layout_loop c cursor [] = (0, [], cursor)"
| "layout_loop c cursor (s # ss) =
     (case layout_step c cursor s of (rc, s', cursor') \<Rightarrow>
        if rc \<noteq> 0 then (rc, s' # ss, cursor')
        else case layout_loop c cursor' ss of (rc, ss', cursor'') \<Rightarrow> (rc, s' # ss', cursor''))"

text \<open>
  The result is the status, the slot array as the call leaves it and \<^verbatim>\<open>*out\<close>. A NULL pointer
  is \<^const>\<open>None\<close>; a non-NULL array holds at least \<^verbatim>\<open>nslots\<close> records.
\<close>

definition posixipc_layout_build ::
    "config \<Rightarrow> posixipc_slot list option \<Rightarrow> u16 \<Rightarrow> posixipc_shm_expect option \<Rightarrow>
     rc \<times> posixipc_slot list option \<times> posixipc_shm_expect option" where
  "posixipc_layout_build c slots nslots out =
     (case out of None \<Rightarrow> (EINVAL, slots, out) | Some _ \<Rightarrow>
      if nslots > 0 \<and> slots = None then (EINVAL, slots, out)
      else let dir_bytes = (ucast nslots :: u32) * 16 in
        if nslots \<noteq> 0 \<and> dir_bytes div 16 \<noteq> ucast nslots then (EOVERFLOW, slots, out)
        else let arr = (case slots of None \<Rightarrow> [] | Some xs \<Rightarrow> xs) in
          case layout_loop c (HEADER_BYTES + dir_bytes) (take (unat nslots) arr) of (rc, front, cursor) \<Rightarrow>
            let arr' = front @ drop (unat nslots) arr;
                slots' = (case slots of None \<Rightarrow> None | Some _ \<Rightarrow> Some arr')
            in if rc \<noteq> 0 then (rc, slots', out)
               else if cursor = 0 then (EOVERFLOW, slots', out)
               else (0, slots', Some \<lparr>
                 e_layout_version = LAYOUT_VERSION,
                 e_slot_count = nslots,
                 e_abi_tag = posixipc_abi_tag c,
                 e_flags = 0,
                 e_total_size = cursor,
                 e_directory_bytes = dir_bytes,
                 e_layout_digest =
                   posixipc_layout_digest c LAYOUT_VERSION (posixipc_abi_tag c) arr' nslots,
                 e_slots = slots'\<rparr>))"

section \<open>Rounding up is exact\<close>

text \<open>
  What the users of an \<^verbatim>\<open>align_up\<close> rely on: it rounds up exactly, and returns 0 exactly when
  the rounded value does not fit 32 bits (or the value is 0). Three copies of the routine
  exist in the sources (layout, queue, futex queue); each interprets this interface for
  the alignments it supports.
\<close>

locale aligner =
  fixes align_up :: "u32 \<Rightarrow> u32 \<Rightarrow> u32"
    and supported :: "u32 \<Rightarrow> bool"
  assumes fits: "supported a \<Longrightarrow> ceil_to (unat a) (unat v) < 2 ^ 32 \<Longrightarrow>
                   unat (align_up v a) = ceil_to (unat a) (unat v)"
    and overflow: "supported a \<Longrightarrow> 2 ^ 32 \<le> ceil_to (unat a) (unat v) \<Longrightarrow> align_up v a = 0"
    and pos: "supported a \<Longrightarrow> 0 < unat a"
begin

lemma align_up_ge: "supported a \<Longrightarrow> align_up v a \<noteq> 0 \<Longrightarrow> unat v \<le> unat (align_up v a)"
  using fits overflow pos ceil_to_ge by (metis not_less)

lemma align_up_dvd: "supported a \<Longrightarrow> unat a dvd unat (align_up v a)"
  by (metis ceil_to_dvd dvd_0_right fits not_less overflow unat_0)

lemma align_up_eq_0_iff:
  "supported a \<Longrightarrow> align_up v a = 0 \<longleftrightarrow> v = 0 \<or> 2 ^ 32 \<le> ceil_to (unat a) (unat v)"
proof
  assume s: "supported a" and z: "align_up v a = 0"
  show "v = 0 \<or> 2 ^ 32 \<le> ceil_to (unat a) (unat v)"
  proof (rule disjCI)
    assume "\<not> 2 ^ 32 \<le> ceil_to (unat a) (unat v)"
    then have "ceil_to (unat a) (unat v) = 0" using fits [OF s, of v] z by simp
    then show "v = 0" using ceil_to_ge [OF pos [OF s], of "unat v"] by (simp add: unat_0_iff)
  qed
next
  assume s: "supported a" and d: "v = 0 \<or> 2 ^ 32 \<le> ceil_to (unat a) (unat v)"
  have "ceil_to (unat a) 0 = 0" using pos [OF s] by (simp add: ceil_to_multiple)
  then show "align_up v a = 0"
    using d fits [OF s, of v] overflow [OF s, of v] by (auto simp: word_unat_eq_iff)
qed

lemma align_up_idem: "supported a \<Longrightarrow> align_up v a \<noteq> 0 \<Longrightarrow> align_up (align_up v a) a = align_up v a"
proof -
  assume s: "supported a" and "align_up v a \<noteq> 0"
  have "ceil_to (unat a) (unat (align_up v a)) = unat (align_up v a)"
    using s by (simp add: ceil_to_multiple pos align_up_dvd)
  then show ?thesis using fits [OF s, of "align_up v a"] by (simp add: word_unat_eq_iff unat_u32_less)
qed

end

lemma align_pow2_exact:
  assumes "pow2_word a"
  shows "(UINT32_MAX - (a - 1) < v) = (2 ^ 32 \<le> ceil_to (unat a) (unat v))"
    and "ceil_to (unat a) (unat v) < 2 ^ 32 \<Longrightarrow>
           unat ((v + (a - 1)) AND NOT (a - 1)) = ceil_to (unat a) (unat v)"
proof -
  from pow2_word_unat [OF assms] obtain k where k: "k < 32" "unat a = 2 ^ k" by blast
  have pred: "unat (a - 1) = unat a - 1"
    using assms by (simp add: pow2_word_def unat_minus_one)
  note iff = pow2_ceil_overflow_iff [OF k(2) k(1), of "unat v"]
  show "(UINT32_MAX - (a - 1) < v) = (2 ^ 32 \<le> ceil_to (unat a) (unat v))"
    using gt_max_minus_iff [of "a - 1" v] iff by (simp add: pred)
  show "ceil_to (unat a) (unat v) < 2 ^ 32 \<Longrightarrow>
          unat ((v + (a - 1)) AND NOT (a - 1)) = ceil_to (unat a) (unat v)"
    using iff pred by (intro unat_align_pow2 [OF k(2)]) linarith
qed

lemma layout_align_up_exact:
  assumes "a \<noteq> 0"
  shows "unat (layout_align_up v a) =
           (if ceil_to (unat a) (unat v) < 2 ^ 32 then ceil_to (unat a) (unat v) else 0)"
proof -
  have a0: "0 < unat a" using assms by (simp add: unat_gt_0)
  consider (one) "a \<le> 1" | (pow2) "\<not> a \<le> 1" "pow2_word a" | (dvd) "\<not> a \<le> 1" "\<not> pow2_word a" "v mod a = 0"
    | (nodvd) "\<not> a \<le> 1" "\<not> pow2_word a" "v mod a \<noteq> 0"
    by fastforce
  then show ?thesis
  proof cases
    case one
    then have "unat a \<le> 1" by (simp add: word_le_nat_alt)
    with a0 have "unat a = Suc 0" by simp
    with one show ?thesis by (simp add: layout_align_up_def unat_u32_less)
  next
    case pow2
    note ex = align_pow2_exact [OF pow2(2), of v]
    have "layout_align_up v a =
        (if UINT32_MAX - (a - 1) < v then 0 else (v + (a - 1)) AND NOT (a - 1))"
      using pow2 by (simp add: layout_align_up_def pow2_word_def Let_def)
    then show ?thesis using ex by auto
  next
    case dvd
    then have "unat a dvd unat v" by (metis unat_mod unat_0 mod_eq_0_iff_dvd)
    then have "ceil_to (unat a) (unat v) = unat v" using a0 by (simp add: ceil_to_multiple)
    with dvd assms show ?thesis by (simp add: layout_align_up_def pow2_word_def Let_def unat_u32_less)
  next
    case nodvd
    let ?add = "a - v mod a"
    have m: "unat (v mod a) = unat v mod unat a" by (rule unat_mod)
    have "\<not> unat a dvd unat v" using nodvd(3) m by (auto simp: mod_eq_0_iff_dvd [symmetric] word_unat_eq_iff)
    then have ceil: "ceil_to (unat a) (unat v) = unat v + (unat a - unat v mod unat a)"
      using a0 by (rule ceil_to_unless_dvd [rotated])
    have "unat v mod unat a \<le> unat a" using a0 by (simp add: less_imp_le)
    then have add: "unat ?add = unat a - unat v mod unat a"
      using m by (subst unat_sub) (simp_all add: word_le_nat_alt)
    have "layout_align_up v a = (if UINT32_MAX - ?add < v then 0 else v + ?add)"
      using nodvd assms by (simp add: layout_align_up_def pow2_word_def Let_def)
    then show ?thesis
      using gt_max_minus_iff [of ?add v] add ceil by (auto simp: unat_add_no_wrap)
  qed
qed

interpretation layout_al: aligner layout_align_up "\<lambda>a. a \<noteq> 0"
proof unfold_locales
  fix a v :: u32 assume a: "a \<noteq> 0"
  show "0 < unat a" using a by (simp add: unat_gt_0)
  show "ceil_to (unat a) (unat v) < 2 ^ 32 \<Longrightarrow>
      unat (layout_align_up v a) = ceil_to (unat a) (unat v)"
    using layout_align_up_exact [OF a, of v] by simp
  show "2 ^ 32 \<le> ceil_to (unat a) (unat v) \<Longrightarrow> layout_align_up v a = 0"
    using layout_align_up_exact [OF a, of v] by (simp add: unat_0_iff [symmetric])
qed

section \<open>What a built layout satisfies\<close>

text \<open>
  The specification on natural numbers: the effective alignment and size of a slot, and
  where the cursor stands after placing a list of slots.
\<close>

definition eff_align :: "config \<Rightarrow> posixipc_slot \<Rightarrow> u32" where
  "eff_align c s = (if s_align s \<noteq> 0 then ucast (s_align s) else posixipc_kind_align c (s_kind s))"

definition eff_size :: "config \<Rightarrow> posixipc_slot \<Rightarrow> u32" where
  "eff_size c s = (if s_size s \<noteq> 0 then s_size s else posixipc_kind_size c (s_kind s) 0)"

definition slot_end :: "config \<Rightarrow> nat \<Rightarrow> posixipc_slot \<Rightarrow> nat" where
  "slot_end c cur s = ceil_to (unat (eff_align c s)) cur + unat (eff_size c s)"

definition layout_end :: "config \<Rightarrow> nat \<Rightarrow> posixipc_slot list \<Rightarrow> nat" where
  "layout_end c cur ss = foldl (slot_end c) cur ss"

text \<open>
  The slots lie one after the other from \<open>lo\<close> to \<open>hi\<close>, each at a multiple of its
  (positive) alignment.
\<close>

fun slots_placed :: "nat \<Rightarrow> posixipc_slot list \<Rightarrow> nat \<Rightarrow> bool" where
  "slots_placed lo [] hi = (lo \<le> hi)"
| "slots_placed lo (s # ss) hi =
     (lo \<le> unat (s_offset s) \<and> s_align s \<noteq> 0 \<and> unat (s_align s) dvd unat (s_offset s) \<and>
      s_size s \<noteq> 0 \<and> slots_placed (unat (s_offset s) + unat (s_size s)) ss hi)"

definition slot_valid :: "config \<Rightarrow> posixipc_slot \<Rightarrow> bool" where
  "slot_valid c s \<longleftrightarrow> eff_align c s \<noteq> 0 \<and> eff_size c s \<noteq> 0"

lemma slots_placed_le: "slots_placed lo ss hi \<Longrightarrow> lo \<le> hi"
  by (induction ss arbitrary: lo) force+

lemma slots_placed_nth:
  assumes "slots_placed lo ss hi" and "i < length ss"
  shows "lo \<le> unat (s_offset (ss ! i)) \<and> s_align (ss ! i) \<noteq> 0 \<and>
         unat (s_align (ss ! i)) dvd unat (s_offset (ss ! i)) \<and> s_size (ss ! i) \<noteq> 0 \<and>
         unat (s_offset (ss ! i)) + unat (s_size (ss ! i)) \<le> hi"
  using assms
proof (induction ss arbitrary: lo i)
  case Nil
  then show ?case by simp
next
  case (Cons s ss)
  then show ?case
    using slots_placed_le by (cases i) force+
qed

lemma slots_placed_disjoint:
  assumes "slots_placed lo ss hi" and "i < j" and "j < length ss"
  shows "unat (s_offset (ss ! i)) + unat (s_size (ss ! i)) \<le> unat (s_offset (ss ! j))"
  using assms
proof (induction ss arbitrary: lo i j)
  case Nil
  then show ?case by simp
next
  case (Cons s ss)
  then obtain j' where "j = Suc j'" by (cases j) auto
  with Cons show ?case
    using slots_placed_nth [of _ ss hi j'] by (cases i) auto
qed

lemma kind_align_ok: "config_ok c \<Longrightarrow> 0 < posixipc_kind_align c k \<and> posixipc_kind_align c k \<le> 32768"
  by (auto simp: posixipc_kind_align_def config_ok_def align_ok_def pow2_word_def word_gt_0)

lemma eff_align_u16:
  assumes "config_ok c"
  shows "ucast (ucast (eff_align c s) :: u16) = eff_align c s" and "eff_align c s \<noteq> 0"
proof -
  have "unat (eff_align c s) < 2 ^ 16"
  proof (cases "s_align s = 0")
    case True
    then show ?thesis
      using kind_align_ok [OF assms, of "s_kind s"] by (simp add: eff_align_def word_le_nat_alt)
  next
    case False
    then show ?thesis
      using unat_u16_less [of "s_align s"] by (simp add: eff_align_def)
  qed
  then show "ucast (ucast (eff_align c s) :: u16) = eff_align c s"
    by (simp add: word_unat_eq_iff unsigned_ucast_eq unsigned_take_bit_eq take_bit_nat_eq_self)
  show "eff_align c s \<noteq> 0"
    using kind_align_ok [OF assms, of "s_kind s"]
    by (auto simp: eff_align_def word_unat_eq_iff word_less_nat_alt)
qed

text \<open>One step of the loop against the specification.\<close>

lemma layout_step_cases:
  assumes "config_ok c" and "cursor \<noteq> 0"
  shows "eff_size c s = 0 \<Longrightarrow> layout_step c cursor s = (EINVAL, s, cursor)"
    and "eff_size c s \<noteq> 0 \<Longrightarrow> 2 ^ 32 \<le> slot_end c (unat cursor) s \<Longrightarrow> fst (layout_step c cursor s) = EOVERFLOW"
    and "eff_size c s \<noteq> 0 \<Longrightarrow> slot_end c (unat cursor) s < 2 ^ 32 \<Longrightarrow> \<exists>off.
           unat off = ceil_to (unat (eff_align c s)) (unat cursor) \<and>
           layout_step c cursor s =
             (0, s\<lparr>s_align := ucast (eff_align c s), s_size := eff_size c s, s_offset := off\<rparr>,
              word_of_nat (slot_end c (unat cursor) s))"
proof -
  note nz = eff_align_u16(2) [OF assms(1), of s]
  let ?off = "layout_align_up cursor (eff_align c s)"
  have step: "layout_step c cursor s =
      (if eff_size c s = 0 then (EINVAL, s, cursor)
       else if ?off = 0 then (EOVERFLOW, s, cursor)
       else let s' = s\<lparr>s_align := ucast (eff_align c s), s_size := eff_size c s, s_offset := ?off\<rparr>
            in if eff_size c s > UINT32_MAX - ?off then (EOVERFLOW, s', cursor)
               else (0, s', ?off + eff_size c s))"
    using nz assms(2) by (simp add: layout_step_def Let_def flip: eff_align_def eff_size_def)
  show "eff_size c s = 0 \<Longrightarrow> layout_step c cursor s = (EINVAL, s, cursor)"
    by (simp add: step)
  note off0 = layout_al.align_up_eq_0_iff [OF nz, of cursor]
  show "eff_size c s \<noteq> 0 \<Longrightarrow> 2 ^ 32 \<le> slot_end c (unat cursor) s \<Longrightarrow> fst (layout_step c cursor s) = EOVERFLOW"
  proof (cases "?off = 0")
    case False
    then have "unat ?off = ceil_to (unat (eff_align c s)) (unat cursor)"
      using off0 layout_al.fits [OF nz] by auto
    moreover assume "eff_size c s \<noteq> 0" "2 ^ 32 \<le> slot_end c (unat cursor) s"
    ultimately show ?thesis
      using False gt_max_minus_iff [of ?off "eff_size c s"] by (simp add: step slot_end_def Let_def add.commute)
  qed (simp add: step)
  show "eff_size c s \<noteq> 0 \<Longrightarrow> slot_end c (unat cursor) s < 2 ^ 32 \<Longrightarrow> \<exists>off.
          unat off = ceil_to (unat (eff_align c s)) (unat cursor) \<and>
          layout_step c cursor s =
            (0, s\<lparr>s_align := ucast (eff_align c s), s_size := eff_size c s, s_offset := off\<rparr>,
             word_of_nat (slot_end c (unat cursor) s))"
  proof (rule exI [of _ ?off])
    assume sz: "eff_size c s \<noteq> 0" and e: "slot_end c (unat cursor) s < 2 ^ 32"
    then have fit: "ceil_to (unat (eff_align c s)) (unat cursor) < 2 ^ 32" by (simp add: slot_end_def)
    then have u: "unat ?off = ceil_to (unat (eff_align c s)) (unat cursor)"
      by (rule layout_al.fits [OF nz])
    have "?off \<noteq> 0" using off0 fit assms(2) by auto
    moreover have "\<not> UINT32_MAX - ?off < eff_size c s"
      using gt_max_minus_iff [of ?off "eff_size c s"] e u by (simp add: slot_end_def add.commute)
    moreover have "?off + eff_size c s = word_of_nat (slot_end c (unat cursor) s)"
      using u e by (simp add: word_unat_eq_iff unat_add_no_wrap slot_end_def)
    ultimately show "unat ?off = ceil_to (unat (eff_align c s)) (unat cursor) \<and>
        layout_step c cursor s =
          (0, s\<lparr>s_align := ucast (eff_align c s), s_size := eff_size c s, s_offset := ?off\<rparr>,
           word_of_nat (slot_end c (unat cursor) s))"
      using sz u by (simp add: step Let_def)
  qed
qed

lemma slot_end_ge: "config_ok c \<Longrightarrow> cur \<le> slot_end c cur s"
  using eff_align_u16(2) [of c s] ceil_to_ge [of "unat (eff_align c s)" cur]
  by (simp add: slot_end_def unat_gt_0)

lemma layout_end_simps [simp]:
  "layout_end c cur [] = cur"
  "layout_end c cur (s # ss) = layout_end c (slot_end c cur s) ss"
  by (simp_all add: layout_end_def)

lemma layout_end_ge: "config_ok c \<Longrightarrow> cur \<le> layout_end c cur ss"
proof (induction ss arbitrary: cur)
  case (Cons s ss)
  from Cons.IH [OF Cons.prems, of "slot_end c cur s"] slot_end_ge [OF Cons.prems, of cur s]
  show ?case by simp
qed simp

text \<open>The record fields that a placed slot gets are the effective ones, so they are fixed points.\<close>

definition placed :: "config \<Rightarrow> posixipc_slot \<Rightarrow> u32 \<Rightarrow> posixipc_slot" where
  "placed c s off = s\<lparr>s_align := ucast (eff_align c s), s_size := eff_size c s, s_offset := off\<rparr>"

lemma placed_simps [simp]:
  "s_kind (placed c s off) = s_kind s"
  "s_init_flags (placed c s off) = s_init_flags s"
  "s_offset (placed c s off) = off"
  "s_size (placed c s off) = eff_size c s"
  "s_align (placed c s off) = ucast (eff_align c s)"
  by (simp_all add: placed_def)

lemma placed_eff:
  assumes "config_ok c" and "eff_size c s \<noteq> 0"
  shows "eff_align c (placed c s off) = eff_align c s"
    and "eff_size c (placed c s off) = eff_size c s"
    and "s_align (placed c s off) \<noteq> 0"
    and "unat (s_align (placed c s off)) = unat (eff_align c s)"
proof -
  note u = eff_align_u16 [OF assms(1), of s]
  show n: "s_align (placed c s off) \<noteq> 0" using u by fastforce
  show "eff_align c (placed c s off) = eff_align c s"
    using n u by (simp add: eff_align_def [of c "placed c s off"])
  show "eff_size c (placed c s off) = eff_size c s"
    using assms(2) by (simp add: eff_size_def [of c "placed c s off"])
  have "unat (s_align (placed c s off)) = unat (ucast (s_align (placed c s off)) :: u32)"
    by (rule unat_ucast_16_32 [symmetric])
  then show "unat (s_align (placed c s off)) = unat (eff_align c s)" using u by simp
qed

text \<open>The loop against the specification: exact total, exact overflow, placement, fixed point.\<close>

definition loop_ok ::
    "config \<Rightarrow> u32 \<Rightarrow> posixipc_slot list \<Rightarrow> rc \<times> posixipc_slot list \<times> u32 \<Rightarrow> bool" where
  "loop_ok c cursor ss r \<longleftrightarrow> (case r of (rc, ss', cursor') \<Rightarrow>
     rc = 0 \<and> length ss' = length ss \<and> unat cursor' = layout_end c (unat cursor) ss \<and>
     slots_placed (unat cursor) ss' (unat cursor') \<and>
     map s_kind ss' = map s_kind ss \<and> map s_init_flags ss' = map s_init_flags ss \<and>
     layout_loop c cursor ss' = (0, ss', cursor'))"

lemma layout_loop_fits:
  assumes "config_ok c" and "cursor \<noteq> 0" and "list_all (\<lambda>s. eff_size c s \<noteq> 0) ss"
    and "layout_end c (unat cursor) ss < 2 ^ 32"
  shows "loop_ok c cursor ss (layout_loop c cursor ss)"
  using assms(2-)
proof (induction ss arbitrary: cursor)
  case Nil
  then show ?case by (simp add: loop_ok_def)
next
  case (Cons s ss)
  let ?e = "slot_end c (unat cursor) s"
  have sz: "eff_size c s \<noteq> 0" using Cons.prems by simp
  have e: "?e < 2 ^ 32"
    using Cons.prems(3) layout_end_ge [OF assms(1), of ?e ss] by simp
  obtain off where off: "unat off = ceil_to (unat (eff_align c s)) (unat cursor)"
      and step: "layout_step c cursor s = (0, placed c s off, word_of_nat ?e)"
    using layout_step_cases(3) [OF assms(1) Cons.prems(1) sz e] by (auto simp: placed_def)
  have ne: "(word_of_nat ?e :: u32) \<noteq> 0"
  proof -
    have "0 < ?e" using sz by (simp add: slot_end_def unat_gt_0)
    with e show ?thesis by (simp add: word_unat_eq_iff)
  qed
  have "loop_ok c (word_of_nat ?e) ss (layout_loop c (word_of_nat ?e) ss)"
    using Cons.prems e ne by (intro Cons.IH) simp_all
  moreover have "layout_step c cursor (placed c s off) = (0, placed c s off, word_of_nat ?e)"
  proof -
    have "slot_end c (unat cursor) (placed c s off) = ?e"
      using placed_eff [OF assms(1) sz] by (simp add: slot_end_def)
    moreover have "off' = off" if "unat off' = unat off" for off' using that by (simp add: word_unat_eq_iff)
    moreover obtain off' where "unat off' = ceil_to (unat (eff_align c (placed c s off))) (unat cursor)"
        "layout_step c cursor (placed c s off) = (0, placed c (placed c s off) off',
           word_of_nat (slot_end c (unat cursor) (placed c s off)))"
      using layout_step_cases(3) [OF assms(1) Cons.prems(1), of "placed c s off"]
        placed_eff(2) [OF assms(1) sz, of off] sz e calculation(1) unfolding placed_def [of c "placed c s off"]
      by metis
    moreover have "placed c (placed c s off) off = placed c s off"
      using placed_eff(1,2) [OF assms(1) sz, of off] by (simp add: placed_def [of c "placed c s off"])
    ultimately show ?thesis
      using off placed_eff(1) [OF assms(1) sz, of off] by metis
  qed
  moreover have "unat cursor \<le> unat off"
    unfolding off using eff_align_u16(2) [OF assms(1), of s] by (intro ceil_to_ge) (simp add: unat_gt_0)
  moreover have "unat off + unat (eff_size c s) = ?e" by (simp add: off slot_end_def)
  ultimately show ?case
    using step e sz placed_eff [OF assms(1) sz, of off] off
    by (auto simp: loop_ok_def split: prod.splits)
qed

text \<open>
  The status on every input: the first slot without a size is \<^verbatim>\<open>EINVAL\<close>, the first slot whose
  end does not fit 32 bits is \<^verbatim>\<open>EOVERFLOW\<close>, whichever comes first.
\<close>

fun layout_status :: "config \<Rightarrow> nat \<Rightarrow> posixipc_slot list \<Rightarrow> rc" where
  "layout_status c cur [] = 0"
| "layout_status c cur (s # ss) =
     (if eff_size c s = 0 then EINVAL
      else if 2 ^ 32 \<le> slot_end c cur s then EOVERFLOW
      else layout_status c (slot_end c cur s) ss)"

lemma layout_status_0:
  assumes "config_ok c" and "layout_status c cur ss = 0" and "cur < 2 ^ 32"
  shows "list_all (\<lambda>s. eff_size c s \<noteq> 0) ss" and "layout_end c cur ss < 2 ^ 32"
  using assms(2,3) by (induction ss arbitrary: cur) (auto split: if_splits)

lemma layout_loop_status:
  assumes "config_ok c" and "cursor \<noteq> 0"
  shows "fst (layout_loop c cursor ss) = layout_status c (unat cursor) ss"
  using assms(2)
proof (induction ss arbitrary: cursor)
  case (Cons s ss)
  note cases = layout_step_cases [OF assms(1) Cons.prems, of s]
  let ?e = "slot_end c (unat cursor) s"
  consider "eff_size c s = 0" | "eff_size c s \<noteq> 0" "2 ^ 32 \<le> ?e" | "eff_size c s \<noteq> 0" "?e < 2 ^ 32"
    by linarith
  then show ?case
  proof cases
    case 1
    with cases(1) show ?thesis by simp
  next
    case 2
    with cases(2) show ?thesis by (auto split: prod.splits)
  next
    case 3
    from 3(1) have "0 < ?e" by (simp add: slot_end_def unat_gt_0)
    with 3(2) have "(word_of_nat ?e :: u32) \<noteq> 0" by (simp add: word_unat_eq_iff)
    from Cons.IH [OF this] cases(3) [OF 3] 3 show ?thesis by (auto split: prod.splits)
  qed
qed simp

text \<open>The checks of \<^verbatim>\<open>posixipc_layout_build\<close> around the loop never fail for a 16-bit slot count.\<close>

definition layout_start :: "u16 \<Rightarrow> nat" where
  "layout_start n = 64 + 16 * unat n"

lemma dir_bytes_exact:
  "unat ((ucast (n :: u16) :: u32) * 16) = 16 * unat n"
  "((ucast n :: u32) * 16) div 16 = ucast n"
  "unat (HEADER_BYTES + (ucast n :: u32) * 16) = layout_start n"
proof -
  have n: "unat n < 65536" by (rule unat_u16_less)
  then show d: "unat ((ucast n :: u32) * 16) = 16 * unat n"
    by (subst unat_mult_no_wrap) simp_all
  then show "((ucast n :: u32) * 16) div 16 = ucast n"
    by (simp add: word_unat_eq_iff unat_div)
  show "unat (HEADER_BYTES + (ucast n :: u32) * 16) = layout_start n"
    using n d by (subst unat_add_no_wrap) (simp_all add: layout_start_def)
qed

definition build_expect :: "config \<Rightarrow> posixipc_slot list \<Rightarrow> u16 \<Rightarrow> u32 \<Rightarrow> posixipc_shm_expect" where
  "build_expect c arr nslots cursor = \<lparr>
     e_layout_version = LAYOUT_VERSION, e_slot_count = nslots, e_abi_tag = posixipc_abi_tag c,
     e_flags = 0, e_total_size = cursor, e_directory_bytes = ucast nslots * 16,
     e_layout_digest = posixipc_layout_digest c LAYOUT_VERSION (posixipc_abi_tag c) arr nslots,
     e_slots = Some arr\<rparr>"

lemma layout_start_pos: "HEADER_BYTES + (ucast (n :: u16) :: u32) * 16 \<noteq> 0"
  using dir_bytes_exact(3) [of n] by (auto simp: layout_start_def)

text \<open>A successful build, in terms of the loop's result.\<close>

lemma layout_build_0E:
  assumes c: "config_ok c" and n: "unat n \<le> length arr"
    and st: "layout_status c (layout_start n) (take (unat n) arr) = 0"
  obtains front cursor where
    "posixipc_layout_build c (Some arr) n (Some out0) =
       (0, Some (front @ drop (unat n) arr),
        Some (build_expect c (front @ drop (unat n) arr) n cursor))"
    "layout_loop c (HEADER_BYTES + ucast n * 16) (take (unat n) arr) = (0, front, cursor)"
    "length front = unat n"
    "unat cursor = layout_end c (layout_start n) (take (unat n) arr)"
    "slots_placed (layout_start n) front (unat cursor)"
    "map s_kind front = map s_kind (take (unat n) arr)"
    "map s_init_flags front = map s_init_flags (take (unat n) arr)"
    "layout_loop c (HEADER_BYTES + ucast n * 16) front = (0, front, cursor)"
proof -
  let ?c0 = "HEADER_BYTES + (ucast n :: u32) * 16" and ?ss = "take (unat n) arr"
  have l: "layout_start n < 2 ^ 32" using unat_u16_less [of n] by (simp add: layout_start_def)
  note fits = layout_status_0 [OF c st l]
  have "loop_ok c ?c0 ?ss (layout_loop c ?c0 ?ss)"
    using fits by (intro layout_loop_fits [OF c layout_start_pos]) (simp_all add: dir_bytes_exact)
  then obtain front cursor where r: "layout_loop c ?c0 ?ss = (0, front, cursor)"
    and p: "length front = length ?ss" "unat cursor = layout_end c (layout_start n) ?ss"
      "slots_placed (layout_start n) front (unat cursor)"
      "map s_kind front = map s_kind ?ss" "map s_init_flags front = map s_init_flags ?ss"
      "layout_loop c ?c0 front = (0, front, cursor)"
    by (auto simp: loop_ok_def dir_bytes_exact split: prod.splits)
  have "cursor \<noteq> 0"
    using p(2) layout_end_ge [OF c, of "layout_start n" ?ss] by (auto simp: layout_start_def)
  then have "posixipc_layout_build c (Some arr) n (Some out0) =
       (0, Some (front @ drop (unat n) arr), Some (build_expect c (front @ drop (unat n) arr) n cursor))"
    using r by (simp add: posixipc_layout_build_def Let_def dir_bytes_exact build_expect_def)
  from that [OF this r _ p(2-)] p(1) n show thesis by simp
qed

section \<open>Properties of \<^verbatim>\<open>posixipc_layout_build\<close>\<close>

lemma layout_build_status:
  assumes c: "config_ok c" and n: "unat n \<le> length arr"
  shows "fst (posixipc_layout_build c (Some arr) n (Some out0)) =
           layout_status c (layout_start n) (take (unat n) arr)"
proof (cases "layout_status c (layout_start n) (take (unat n) arr) = 0")
  case True
  with layout_build_0E [OF c n, of out0] show ?thesis by fastforce
next
  case False
  moreover have "fst (layout_loop c (HEADER_BYTES + ucast n * 16) (take (unat n) arr)) =
      layout_status c (layout_start n) (take (unat n) arr)"
    by (simp add: layout_loop_status [OF c layout_start_pos] dir_bytes_exact)
  ultimately show ?thesis
    by (auto simp: posixipc_layout_build_def Let_def dir_bytes_exact split: prod.splits)
qed

lemma layout_build_successE:
  assumes "config_ok c" and "unat n \<le> length arr"
    and "posixipc_layout_build c (Some arr) n (Some out0) = (0, slots', out)"
  obtains front cursor where
    "slots' = Some (front @ drop (unat n) arr)"
    "out = Some (build_expect c (front @ drop (unat n) arr) n cursor)"
    "length front = unat n"
    "unat cursor = layout_end c (layout_start n) (take (unat n) arr)"
    "slots_placed (layout_start n) front (unat cursor)"
    "map s_kind front = map s_kind (take (unat n) arr)"
    "layout_loop c (HEADER_BYTES + ucast n * 16) front = (0, front, cursor)"
proof -
  have st: "layout_status c (layout_start n) (take (unat n) arr) = 0"
    using layout_build_status [OF assms(1,2), of out0] assms(3) by simp
  show thesis
    by (rule layout_build_0E [OF assms(1,2) st, of out0]) (use assms(3) that in auto)
qed

text \<open>
  C3. A layout that \<^verbatim>\<open>posixipc_layout_build\<close> accepts is well placed: every slot keeps its kind,
  starts after the header and the directory at a multiple of its own alignment, ends inside
  the segment, and no two slots overlap (a later slot starts at or after the end of an
  earlier one).
\<close>

theorem layout_build_placement:
  assumes "config_ok c" and "unat n \<le> length arr"
    and "posixipc_layout_build c (Some arr) n (Some out0) = (0, Some arr', Some e)"
    and "i < unat n"
  shows "s_kind (arr' ! i) = s_kind (arr ! i) \<and>
         64 + 16 * unat n \<le> unat (s_offset (arr' ! i)) \<and>
         s_align (arr' ! i) \<noteq> 0 \<and> unat (s_align (arr' ! i)) dvd unat (s_offset (arr' ! i)) \<and>
         s_size (arr' ! i) \<noteq> 0 \<and>
         unat (s_offset (arr' ! i)) + unat (s_size (arr' ! i)) \<le> unat (e_total_size e) \<and>
         (\<forall>j. i < j \<and> j < unat n \<longrightarrow>
            unat (s_offset (arr' ! i)) + unat (s_size (arr' ! i)) \<le> unat (s_offset (arr' ! j)))"
proof -
  obtain front cursor where f: "arr' = front @ drop (unat n) arr"
      "e = build_expect c (front @ drop (unat n) arr) n cursor" "length front = unat n"
      and p: "slots_placed (layout_start n) front (unat cursor)"
      and k: "map s_kind front = map s_kind (take (unat n) arr)"
    by (rule layout_build_successE [OF assms(1,2,3)]) simp
  have nth: "arr' ! j = front ! j" if "j < unat n" for j using f that by (simp add: nth_append)
  have "s_kind (front ! i) = s_kind (arr ! i)"
    using arg_cong [OF k, of "\<lambda>l. l ! i"] assms(2,4) f(3) by simp
  moreover note slots_placed_nth [OF p, of i] slots_placed_disjoint [OF p, of i]
  ultimately show ?thesis
    using assms(4) f(2,3) by (simp add: nth build_expect_def layout_start_def)
qed

definition layout_example :: "posixipc_slot list" where
  "layout_example =
     [\<lparr>s_kind = KIND_ROBUST_MUTEX, s_align = 0, s_offset = 0, s_size = 0, s_init_flags = 3\<rparr>,
      \<lparr>s_kind = KIND_BYTES, s_align = 0, s_offset = 0, s_size = 100, s_init_flags = 0\<rparr>]"

definition layout_example_built :: "posixipc_slot list" where
  "layout_example_built =
     [\<lparr>s_kind = KIND_ROBUST_MUTEX, s_align = 8, s_offset = 96, s_size = 64, s_init_flags = 3\<rparr>,
      \<lparr>s_kind = KIND_BYTES, s_align = 64, s_offset = 192, s_size = 100, s_init_flags = 0\<rparr>]"

definition expect0 :: posixipc_shm_expect where
  "expect0 = \<lparr>e_layout_version = 0, e_slot_count = 0, e_abi_tag = 0, e_flags = 0, e_total_size = 0,
     e_directory_bytes = 0, e_layout_digest = 0, e_slots = None\<rparr>"

lemma layout_example_result:
  "posixipc_layout_build glibc_x86_64 (Some layout_example) 2 (Some expect0) =
     (0, Some layout_example_built, Some (build_expect glibc_x86_64 layout_example_built 2 292))"
  by (simp add: posixipc_layout_build_def layout_example_def layout_example_built_def build_expect_def
      layout_step_def posixipc_kind_align_def posixipc_kind_size_def layout_align_up_def
      glibc_x86_64_def Let_def word_le_nat_alt)

theorem layout_build_placement_witness:
  "s_kind (layout_example_built ! 0) = KIND_ROBUST_MUTEX \<and>
   unat (s_offset (layout_example_built ! 0)) + unat (s_size (layout_example_built ! 0))
     \<le> unat (s_offset (layout_example_built ! 1))"
proof -
  have n: "unat (2 :: u16) \<le> length layout_example" by (simp add: layout_example_def)
  note p = layout_build_placement [OF glibc_x86_64_ok n layout_example_result, of 0]
  have "0 < unat (2 :: u16)" by simp
  from p [OF this] show ?thesis by (simp add: layout_example_def)
qed

text \<open>
  C32. On every array \<^verbatim>\<open>posixipc_layout_build\<close> returns the status of the specification on
  natural numbers: \<^verbatim>\<open>EINVAL\<close> at the first slot without a size, \<^verbatim>\<open>EOVERFLOW\<close> at the first slot
  whose end does not fit 32 bits, 0 otherwise; and on success the total size is the exact
  (unwrapped) end of the last slot.
\<close>

theorem layout_build_exact:
  assumes "config_ok c" and "unat n \<le> length arr"
  shows "case posixipc_layout_build c (Some arr) n (Some out0) of (rc, _, out) \<Rightarrow>
           rc = layout_status c (64 + 16 * unat n) (take (unat n) arr) \<and>
           (rc = 0 \<longrightarrow> (\<exists>e. out = Some e \<and>
              unat (e_total_size e) = layout_end c (64 + 16 * unat n) (take (unat n) arr)))"
proof -
  obtain rc slots' out where r: "posixipc_layout_build c (Some arr) n (Some out0) = (rc, slots', out)"
    by (metis prod_cases3)
  have st: "rc = layout_status c (64 + 16 * unat n) (take (unat n) arr)"
    using layout_build_status [OF assms, of out0] r by (simp add: layout_start_def)
  have "\<exists>e. out = Some e \<and> unat (e_total_size e) = layout_end c (64 + 16 * unat n) (take (unat n) arr)"
    if "rc = 0"
    by (rule layout_build_successE [OF assms, of out0 slots' out])
      (use r that in \<open>auto simp: build_expect_def layout_start_def\<close>)
  with r st show ?thesis by simp
qed

theorem layout_build_exact_witness:
  "config_ok glibc_x86_64 \<and> unat (2 :: u16) \<le> length layout_example \<and>
   layout_end glibc_x86_64 96 layout_example = 292"
proof -
  have n: "unat (2 :: u16) \<le> length layout_example" by (simp add: layout_example_def)
  have t: "take 2 layout_example = layout_example" by (simp add: layout_example_def)
  from layout_build_exact [OF glibc_x86_64_ok n, of expect0]
  have "layout_end glibc_x86_64 96 layout_example = 292"
    by (simp add: layout_example_result build_expect_def t)
  with n show ?thesis by (simp add: glibc_x86_64_ok)
qed

text \<open>
  Building an already built layout changes nothing: the same slots, the same expected
  header, the same digest. A process that rebuilds the layout it read compares equal with
  the process that created it.
\<close>

theorem layout_build_idempotent:
  assumes "config_ok c" and "unat n \<le> length arr"
    and "posixipc_layout_build c (Some arr) n (Some out0) = (0, Some arr', Some e)"
  shows "posixipc_layout_build c (Some arr') n (Some out1) = (0, Some arr', Some e)"
proof -
  obtain front cursor where f: "arr' = front @ drop (unat n) arr"
      "e = build_expect c (front @ drop (unat n) arr) n cursor" "length front = unat n"
      "unat cursor = layout_end c (layout_start n) (take (unat n) arr)"
      and l: "layout_loop c (HEADER_BYTES + ucast n * 16) front = (0, front, cursor)"
    by (rule layout_build_successE [OF assms]) simp
  have "cursor \<noteq> 0"
    using f(4) layout_end_ge [OF assms(1), of "layout_start n" "take (unat n) arr"]
    by (auto simp: layout_start_def)
  then show ?thesis
    using f(1,3) l unfolding f(2) build_expect_def
    by (simp add: posixipc_layout_build_def Let_def dir_bytes_exact)
qed

theorem layout_build_idempotent_witness:
  "posixipc_layout_build glibc_x86_64 (Some layout_example_built) 2 (Some expect0) =
     (0, Some layout_example_built, Some (build_expect glibc_x86_64 layout_example_built 2 292))"
proof -
  have "unat (2 :: u16) \<le> length layout_example" by (simp add: layout_example_def)
  from layout_build_idempotent [OF glibc_x86_64_ok this layout_example_result] show ?thesis .
qed

section \<open>What the digest distinguishes\<close>

text \<open>
  The digest is one FNV pass over a byte string. The multiplier is odd, hence invertible
  modulo \<open>2 ^ 32\<close>, so no step loses information about the state before it.
\<close>

definition le16 :: "u16 \<Rightarrow> u8 list" where
  "le16 v = [ucast (v AND 0xff), ucast (drop_bit 8 v AND 0xff)]"

definition le32 :: "u32 \<Rightarrow> u8 list" where
  "le32 v = [ucast (v AND 0xff), ucast (drop_bit 8 v AND 0xff),
             ucast (drop_bit 16 v AND 0xff), ucast (drop_bit 24 v AND 0xff)]"

definition slot_bytes :: "posixipc_slot \<Rightarrow> u8 list" where
  "slot_bytes s = le16 (s_kind s) @ le16 (s_align s) @ le32 (s_size s) @ le32 (s_init_flags s)"

definition digest_bytes :: "config \<Rightarrow> u16 \<Rightarrow> u32 \<Rightarrow> posixipc_slot list \<Rightarrow> u8 list" where
  "digest_bytes c version tag slots =
     le16 version @ le32 tag @ le32 (CACHELINE_BYTES c) @ concat (map slot_bytes slots)"

lemma feed_bytes:
  "feed_u16_le h v = foldl feed_u8 h (le16 v)"
  "feed_u32_le h w = foldl feed_u8 h (le32 w)"
  "feed_slot h s = foldl feed_u8 h (slot_bytes s)"
  by (simp_all add: feed_u16_le_def feed_u32_le_def feed_slot_def slot_bytes_def le16_def le32_def Let_def)

lemma feed_slots_bytes: "foldl feed_slot h ss = foldl feed_u8 h (concat (map slot_bytes ss))"
  by (induction ss arbitrary: h) (simp_all add: feed_bytes(3))

lemma digest_serialized:
  "posixipc_layout_digest c version tag slots n =
     (let h = foldl feed_u8 0x811C9DC5 (digest_bytes c version tag (take (unat n) slots))
      in if h = 0 then 1 else h)"
  by (simp add: posixipc_layout_digest_def digest_bytes_def feed_bytes(1,2) feed_slots_bytes)

lemma fnv_prime_cancel: "(x :: u32) * 0x01000193 = y * 0x01000193 \<Longrightarrow> x = y"
proof -
  assume "x * 0x01000193 = y * 0x01000193"
  then have "x * 0x01000193 * 0x359c449b = y * 0x01000193 * (0x359c449b :: u32)" by (rule arg_cong)
  moreover have "z * 0x01000193 * (0x359c449b :: u32) = z" for z
  proof -
    have "(0x01000193 * 0x359c449b :: u32) = 1" by simp
    then show ?thesis by (simp only: mult.assoc mult_1_right)
  qed
  ultimately show ?thesis by simp
qed

lemma feed_u8_inj_state: "feed_u8 h b = feed_u8 h' b \<Longrightarrow> h = h'"
proof -
  assume "feed_u8 h b = feed_u8 h' b"
  then have "h XOR ucast b = h' XOR ucast b" unfolding feed_u8_def by (rule fnv_prime_cancel)
  then have "(h XOR ucast b) XOR ucast b = (h' XOR ucast b) XOR ucast b" by simp
  then show ?thesis by (simp add: xor.assoc)
qed

lemma feed_u8_inj_byte: "feed_u8 h b = feed_u8 h b' \<Longrightarrow> b = b'"
proof -
  assume "feed_u8 h b = feed_u8 h b'"
  then have "h XOR ucast b = h XOR ucast b'" unfolding feed_u8_def by (rule fnv_prime_cancel)
  then have "h XOR (h XOR ucast b) = h XOR (h XOR ucast b')" by simp
  then have "(ucast b :: u32) = ucast b'" by (simp flip: xor.assoc)
  then have "unat (ucast b :: u32) = unat (ucast b' :: u32)" by simp
  then show ?thesis by (simp add: word_unat_eq_iff unat_ucast_8_32)
qed

lemma feed_bytes_inj_state: "foldl feed_u8 h bs = foldl feed_u8 h' bs \<Longrightarrow> h = h'"
  by (induction bs arbitrary: h h') (auto dest: feed_u8_inj_state)

lemma feed_bytes_one_byte:
  "b \<noteq> b' \<Longrightarrow> foldl feed_u8 h (xs @ b # ys) \<noteq> foldl feed_u8 h (xs @ b' # ys)"
  by (auto dest: feed_bytes_inj_state feed_u8_inj_byte)

text \<open>
  The digest is never 0 (0 marks an absent digest), and it detects every difference of
  one byte: if the serialised directories of two layouts (version, ABI tag, cache line, and
  kind, alignment, size and flags of every slot) differ in exactly one byte, their digests
  differ, the one exception being the value 1 onto which 0 is remapped.
\<close>

theorem layout_digest_detects:
  assumes "digest_bytes c v t (take (unat n) ss) = xs @ b # ys"
    and "digest_bytes c v' t' (take (unat n') ss') = xs @ b' # ys" and "b \<noteq> b'"
  shows "posixipc_layout_digest c v t ss n \<noteq> 0 \<and>
         (posixipc_layout_digest c v t ss n = posixipc_layout_digest c v' t' ss' n' \<longrightarrow>
          posixipc_layout_digest c v t ss n = 1)"
  using feed_bytes_one_byte [OF assms(3), of "0x811C9DC5" xs ys]
  by (auto simp: digest_serialized assms(1,2) Let_def split: if_splits)

theorem layout_digest_detects_witness:
  "posixipc_layout_digest glibc_x86_64 1 7 [] 0 \<noteq> posixipc_layout_digest glibc_x86_64 1 8 [] 0"
proof -
  have "digest_bytes glibc_x86_64 1 7 (take (unat (0 :: u16)) []) = [1, 0] @ 7 # [0, 0, 0, 64, 0, 0, 0]"
    and "digest_bytes glibc_x86_64 1 8 (take (unat (0 :: u16)) []) = [1, 0] @ 8 # [0, 0, 0, 64, 0, 0, 0]"
    by (simp_all add: digest_bytes_def le16_def le32_def glibc_x86_64_def)
  note d = layout_digest_detects [OF this]
  have "posixipc_layout_digest glibc_x86_64 1 7 [] 0 \<noteq> 1"
    by (simp add: posixipc_layout_digest_def feed_u16_le_def feed_u32_le_def feed_u8_def glibc_x86_64_def)
  with d show ?thesis by auto
qed

end
