(* ===== verification/Fifo.thy ===== *)
theory Fifo
  imports Prelude
begin

text \<open>
  The contract of a bounded queue, the interface between the ring buffers of the core and
  the code that uses them: what put and get return, and what they do to the sequence of
  items. The client lemmas (order, no loss, no duplication, capacity over any sequence of
  operations) are proved once from the contract.
\<close>

datatype 'a queue_op = Put 'a | Get

text \<open>
  Runs a sequence of operations; the result is the final state, the accepted items and
  the delivered items, both oldest first.
\<close>

fun run_ops ::
    "('s \<Rightarrow> 'a \<Rightarrow> rc \<times> 's) \<Rightarrow> ('s \<Rightarrow> rc \<times> 's \<times> 'a option) \<Rightarrow> 's \<Rightarrow> 'a queue_op list \<Rightarrow>
     's \<times> 'a list \<times> 'a list" where
  "run_ops put get s [] = (s, [], [])"
| "run_ops put get s (Put x # ops) =
     (case put s x of (rc, s1) \<Rightarrow>
      case run_ops put get s1 ops of (s', acc, del) \<Rightarrow>
        (s', if rc = 0 then x # acc else acc, del))"
| "run_ops put get s (Get # ops) =
     (case get s of (rc, s1, r) \<Rightarrow>
      case run_ops put get s1 ops of (s', acc, del) \<Rightarrow>
        (s', acc, case r of Some x \<Rightarrow> x # del | None \<Rightarrow> del))"

fun puts_ok :: "('a \<Rightarrow> bool) \<Rightarrow> 'a queue_op list \<Rightarrow> bool" where
  "puts_ok ok [] = True"
| "puts_ok ok (Put x # ops) = (ok x \<and> puts_ok ok ops)"
| "puts_ok ok (Get # ops) = puts_ok ok ops"

text \<open>The specification of the same run on a list of at most \<open>cap\<close> items.\<close>

fun spec_ops :: "nat \<Rightarrow> 'a list \<Rightarrow> 'a queue_op list \<Rightarrow> 'a list \<times> 'a list \<times> 'a list" where
  "spec_ops cap xs [] = (xs, [], [])"
| "spec_ops cap xs (Put x # ops) =
     (if length xs < cap
      then (case spec_ops cap (xs @ [x]) ops of (xs', acc, del) \<Rightarrow> (xs', x # acc, del))
      else spec_ops cap xs ops)"
| "spec_ops cap [] (Get # ops) = spec_ops cap [] ops"
| "spec_ops cap (x # xs) (Get # ops) =
     (case spec_ops cap xs ops of (xs', acc, del) \<Rightarrow> (xs', acc, x # del))"

lemma spec_ops_fifo:
  "spec_ops cap xs ops = (xs', acc, del) \<Longrightarrow> length xs \<le> cap \<Longrightarrow>
     xs @ acc = del @ xs' \<and> length xs' \<le> cap"
  by (induction cap xs ops arbitrary: xs' acc del rule: spec_ops.induct)
    (fastforce split: if_splits prod.splits)+

locale bounded_queue =
  fixes inv :: "'s \<Rightarrow> bool"
    and items :: "'s \<Rightarrow> 'a list"
    and cap :: nat
    and item_ok :: "'a \<Rightarrow> bool"
    and put :: "'s \<Rightarrow> 'a \<Rightarrow> rc \<times> 's"
    and get :: "'s \<Rightarrow> rc \<times> 's \<times> 'a option"
  assumes bound: "inv s \<Longrightarrow> length (items s) \<le> cap"
    and put_room: "inv s \<Longrightarrow> item_ok x \<Longrightarrow> length (items s) < cap \<Longrightarrow>
          \<exists>s'. put s x = (0, s') \<and> inv s' \<and> items s' = items s @ [x]"
    and put_full: "inv s \<Longrightarrow> length (items s) = cap \<Longrightarrow> put s x = (EAGAIN, s)"
    and get_some: "inv s \<Longrightarrow> items s = x # xs \<Longrightarrow>
          \<exists>s'. get s = (0, s', Some x) \<and> inv s' \<and> items s' = xs"
    and get_none: "inv s \<Longrightarrow> items s = [] \<Longrightarrow> get s = (EAGAIN, s, None)"
begin

lemma put_keeps:
  assumes "inv s" and "item_ok x" and "put s x = (rc, s')"
  shows "inv s'" and "items s' = (if length (items s) < cap then items s @ [x] else items s)"
    and "rc = (if length (items s) < cap then 0 else EAGAIN)"
  using assms put_room [OF assms(1,2)] put_full [OF assms(1), of x] bound [OF assms(1)]
  by (cases "length (items s) < cap"; force)+

lemma get_keeps:
  assumes "inv s" and "get s = (rc, s', r)"
  shows "inv s'" and "items s' = tl (items s)"
    and "r = (case items s of [] \<Rightarrow> None | x # _ \<Rightarrow> Some x)"
    and "rc = (if items s = [] then EAGAIN else 0)"
  using assms get_some [OF assms(1)] get_none [OF assms(1)] by (cases "items s"; force)+

text \<open>Every run of the implementation is the run of the specification on the items.\<close>

lemma run_refines:
  "inv s \<Longrightarrow> puts_ok item_ok ops \<Longrightarrow>
     (case run_ops put get s ops of (s', acc, del) \<Rightarrow>
        inv s' \<and> spec_ops cap (items s) ops = (items s', acc, del))"
proof (induction ops arbitrary: s)
  case Nil
  then show ?case by simp
next
  case (Cons op ops)
  show ?case
  proof (cases op)
    case (Put x)
    obtain rc s1 where p: "put s x = (rc, s1)" by fastforce
    have ok: "item_ok x" "puts_ok item_ok ops" using Cons.prems Put by simp_all
    note k = put_keeps [OF Cons.prems(1) ok(1) p]
    from Cons.IH [OF k(1) ok(2)] k(2,3) p Put show ?thesis by (auto split: prod.splits if_splits)
  next
    case Get
    obtain rc s1 r where g: "get s = (rc, s1, r)" by (metis prod_cases3)
    note k = get_keeps [OF Cons.prems(1) g]
    have ok: "puts_ok item_ok ops" using Cons.prems Get by simp
    from Cons.IH [OF k(1) ok] k(2,3) g Get show ?thesis
      by (cases "items s") (auto split: prod.splits)
  qed
qed

text \<open>Order, no loss, no duplication, and the capacity.\<close>

lemma run_fifo:
  assumes "inv s" and "puts_ok item_ok ops" and "run_ops put get s ops = (s', acc, del)"
  shows "inv s' \<and> items s @ acc = del @ items s' \<and> length (items s') \<le> cap"
  using run_refines [OF assms(1,2)] spec_ops_fifo [of cap "items s" ops] bound [OF assms(1)] assms(3)
  by auto

text \<open>As many gets as there are items deliver exactly the items and leave the queue empty.\<close>

lemma drain:
  assumes "inv s" and "run_ops put get s (replicate (length (items s)) Get) = (s', acc, del)"
  shows "acc = [] \<and> del = items s \<and> items s' = []"
proof -
  have "spec_ops cap xs (replicate (length xs) Get) = ([], [], xs)" for xs :: "'a list"
    by (induction xs) simp_all
  moreover have "puts_ok item_ok (replicate n Get)" for n by (induction n) simp_all
  ultimately show ?thesis
    using run_refines [OF assms(1), of "replicate (length (items s)) Get"] assms(2) by simp
qed

end

end
