(* ===== verification/Queue.thy ===== *)
theory Queue
  imports Layout Fifo
begin

text \<open>
  The process-shared ring buffer (\<^verbatim>\<open>src/src/core/posixipc_queue.c\<close>). A view holds the pointers
  into the segment; the memory behind them is the control block, the array of slot states
  and the payload bytes. Put and get are sequences of stores, so that a process that dies
  inside one leaves the memory after a prefix of them, which is what
  \<^verbatim>\<open>posixipc_queue_recover\<close> repairs under the robust mutex.
\<close>

section \<open>Sizes\<close>

definition queue_align_up :: "u32 \<Rightarrow> u32 \<Rightarrow> u32" where
  "queue_align_up value al =
     (if al \<le> 1 then value
      else let m = al - 1 in
        if al AND m \<noteq> 0 then 0
        else if value > UINT32_MAX - m then 0
        else (value + m) AND NOT m)"

definition ctrl_bytes :: "config \<Rightarrow> u32" where
  "ctrl_bytes c = (let n = queue_align_up 24 (CACHELINE_BYTES c)
                   in if n = 0 then CACHELINE_BYTES c else n)"

definition state_bytes :: "config \<Rightarrow> u32 \<Rightarrow> u32" where
  "state_bytes c depth =
     (if depth = 0 \<or> depth > UINT32_MAX div 4 then 0
      else queue_align_up (depth * 4) (CACHELINE_BYTES c))"

definition posixipc_queue_bytes_size :: "config \<Rightarrow> u32 \<Rightarrow> u32 \<Rightarrow> u32" where
  "posixipc_queue_bytes_size c depth item_size =
     (if depth < 1 \<or> item_size < 1 then 0
      else let cb = ctrl_bytes c;
               sb = state_bytes c depth;
               stride = queue_align_up item_size (CACHELINE_BYTES c)
        in if cb = 0 \<or> sb = 0 \<or> stride = 0 then 0
           else if depth > UINT32_MAX div stride then 0
           else let payload = depth * stride in
             if cb > UINT32_MAX - sb then 0
             else let total = cb + sb in
               if total > UINT32_MAX - payload then 0
               else total + payload)"

section \<open>View and memory\<close>

text \<open>Pointers are byte addresses; NULL is \<^const>\<open>None\<close>.\<close>

record posixipc_queue_view =
  q_ctrl :: "nat option"
  q_state :: "nat option"
  q_payload :: "nat option"
  q_depth :: u32
  q_item_size :: u32
  q_stride :: u32

record posixipc_queue_ctrl =
  c_head :: u32
  c_tail :: u32
  c_count :: u32
  c_flags :: u32
  c_depth :: u32
  c_item_size :: u32

text \<open>The memory behind a view: what \<^verbatim>\<open>ctrl\<close>, \<^verbatim>\<open>state\<close> and \<^verbatim>\<open>payload\<close> point to.\<close>

record ring =
  r_ctrl :: posixipc_queue_ctrl
  r_state :: "u32 list"
  r_payload :: "u8 list"

abbreviation (input) QUEUE_EMPTY :: u32 where "QUEUE_EMPTY \<equiv> 0"
abbreviation (input) QUEUE_RESERVED_PUT :: u32 where "QUEUE_RESERVED_PUT \<equiv> 1"
abbreviation (input) QUEUE_RESERVED_GET :: u32 where "QUEUE_RESERVED_GET \<equiv> 2"
abbreviation (input) QUEUE_READY :: u32 where "QUEUE_READY \<equiv> 3"

definition posixipc_queue_map ::
    "config \<Rightarrow> nat option \<Rightarrow> u32 \<Rightarrow> u32 \<Rightarrow> u32 \<Rightarrow> posixipc_queue_view option \<Rightarrow>
     rc \<times> posixipc_queue_view option" where
  "posixipc_queue_map c bytes nbytes depth item_size out =
     (case (bytes, out) of
        (Some base, Some _) \<Rightarrow>
          (let need = posixipc_queue_bytes_size c depth item_size
           in if need = 0 \<or> nbytes < need then (EINVAL, out)
              else let cb = ctrl_bytes c;
                       sb = state_bytes c depth;
                       stride = queue_align_up item_size (CACHELINE_BYTES c)
                in (0, Some \<lparr>q_ctrl = Some base, q_state = Some (base + unat cb),
                             q_payload = Some (base + unat cb + unat sb),
                             q_depth = depth, q_item_size = item_size, q_stride = stride\<rparr>))
      | _ \<Rightarrow> (EINVAL, out))"

definition posixipc_queue_init_ctrl ::
    "posixipc_queue_view option \<Rightarrow> ring \<Rightarrow> rc \<times> ring" where
  "posixipc_queue_init_ctrl vp m =
     (case vp of None \<Rightarrow> (EINVAL, m) | Some v \<Rightarrow>
      if q_ctrl v = None \<or> q_state v = None then (EINVAL, m)
      else (0, m\<lparr>r_ctrl := \<lparr>c_head = 0, c_tail = 0, c_count = 0, c_flags = 0,
                            c_depth = q_depth v, c_item_size = q_item_size v\<rparr>,
                 r_state := replicate (unat (q_depth v)) QUEUE_EMPTY @ drop (unat (q_depth v)) (r_state m)\<rparr>))"

section \<open>Stores\<close>

text \<open>The stores of put and get, in the order the code makes them.\<close>

datatype qstore = Set_state u32 u32 | Copy_in u32 "u8 list" | Set_head u32 | Set_tail u32 | Set_count u32

definition copy_at :: "nat \<Rightarrow> 'a list \<Rightarrow> 'a list \<Rightarrow> 'a list" where
  "copy_at i bs mem = take i mem @ bs @ drop (i + length bs) mem"

primrec exec_store :: "posixipc_queue_view \<Rightarrow> ring \<Rightarrow> qstore \<Rightarrow> ring" where
  "exec_store v m (Set_state i st) = m\<lparr>r_state := (r_state m)[unat i := st]\<rparr>"
| "exec_store v m (Copy_in i bs) =
     m\<lparr>r_payload := copy_at (unat i * unat (q_stride v)) bs (r_payload m)\<rparr>"
| "exec_store v m (Set_head x) = m\<lparr>r_ctrl := (r_ctrl m)\<lparr>c_head := x\<rparr>\<rparr>"
| "exec_store v m (Set_tail x) = m\<lparr>r_ctrl := (r_ctrl m)\<lparr>c_tail := x\<rparr>\<rparr>"
| "exec_store v m (Set_count x) = m\<lparr>r_ctrl := (r_ctrl m)\<lparr>c_count := x\<rparr>\<rparr>"

definition exec_stores :: "posixipc_queue_view \<Rightarrow> ring \<Rightarrow> qstore list \<Rightarrow> ring" where
  "exec_stores v m ss = foldl (exec_store v) m ss"

definition slot_data :: "posixipc_queue_view \<Rightarrow> ring \<Rightarrow> nat \<Rightarrow> u8 list" where
  "slot_data v m i = take (unat (q_item_size v)) (drop (i * unat (q_stride v)) (r_payload m))"

definition put_stores :: "posixipc_queue_view \<Rightarrow> ring \<Rightarrow> u8 list \<Rightarrow> qstore list" where
  "put_stores v m data =
     (let idx = c_tail (r_ctrl m)
      in [Set_state idx QUEUE_RESERVED_PUT,
          Copy_in idx (take (unat (q_item_size v)) data),
          Set_state idx QUEUE_READY,
          Set_tail ((idx + 1) mod q_depth v),
          Set_count (c_count (r_ctrl m) + 1)])"

definition get_stores :: "posixipc_queue_view \<Rightarrow> ring \<Rightarrow> qstore list" where
  "get_stores v m =
     (let idx = c_head (r_ctrl m)
      in [Set_state idx QUEUE_RESERVED_GET,
          Set_state idx QUEUE_EMPTY,
          Set_head ((idx + 1) mod q_depth v),
          Set_count (c_count (r_ctrl m) - 1)])"

section \<open>Put, get, size\<close>

text \<open>
  The caller's buffer holds at least \<^verbatim>\<open>item_size\<close> bytes; get overwrites that many of its
  bytes with the slot read between the two state stores.
\<close>

definition posixipc_queue_put ::
    "posixipc_queue_view option \<Rightarrow> ring \<Rightarrow> u8 list option \<Rightarrow> rc \<times> ring" where
  "posixipc_queue_put vp m data =
     (case (vp, data) of
        (Some v, Some bs) \<Rightarrow>
          (if q_ctrl v = None then (EINVAL, m)
           else if c_count (r_ctrl m) \<ge> q_depth v then (EAGAIN, m)
           else if c_tail (r_ctrl m) \<ge> q_depth v then (EINVAL, m)
           else (0, exec_stores v m (put_stores v m bs)))
      | _ \<Rightarrow> (EINVAL, m))"

definition posixipc_queue_get ::
    "posixipc_queue_view option \<Rightarrow> ring \<Rightarrow> u8 list option \<Rightarrow> rc \<times> ring \<times> u8 list option" where
  "posixipc_queue_get vp m data =
     (case (vp, data) of
        (Some v, Some buf) \<Rightarrow>
          (if q_ctrl v = None then (EINVAL, m, data)
           else if c_count (r_ctrl m) = 0 then (EAGAIN, m, data)
           else let idx = c_head (r_ctrl m) in
             if idx \<ge> q_depth v \<or> r_state m ! unat idx \<noteq> QUEUE_READY then (EINVAL, m, data)
             else (0, exec_stores v m (get_stores v m), Some (copy_at 0 (slot_data v m (unat idx)) buf)))
      | _ \<Rightarrow> (EINVAL, m, data))"

definition posixipc_queue_qsize ::
    "posixipc_queue_view option \<Rightarrow> ring \<Rightarrow> u32 option \<Rightarrow> rc \<times> u32 option" where
  "posixipc_queue_qsize vp m out =
     (case (vp, out) of
        (Some v, Some _) \<Rightarrow> if q_ctrl v = None then (EINVAL, out) else (0, Some (c_count (r_ctrl m)))
      | _ \<Rightarrow> (EINVAL, out))"

section \<open>Recovery\<close>

text \<open>One slot of the first loop: its repaired state. READY slots are counted.\<close>

definition recover_state :: "u32 \<Rightarrow> u32" where
  "recover_state st =
     (if st = QUEUE_RESERVED_PUT then QUEUE_EMPTY
      else if st = QUEUE_RESERVED_GET then QUEUE_READY
      else if st = QUEUE_READY then st
      else if st \<noteq> QUEUE_EMPTY then QUEUE_EMPTY
      else st)"

text \<open>The first loop over the states: repaired states and the number of ready slots.\<close>

fun recover_scan :: "u32 \<Rightarrow> u32 list \<Rightarrow> u32 \<times> u32 list" where
  "recover_scan ready [] = (ready, [])"
| "recover_scan ready (st # sts) =
     (let st' = recover_state st;
          ready' = (if st = QUEUE_RESERVED_GET \<or> st = QUEUE_READY then ready + 1 else ready)
      in case recover_scan ready' sts of (r, sts') \<Rightarrow> (r, st' # sts'))"

text \<open>The second loop: the lowest ready index, the old head when there is none.\<close>

fun recover_head :: "u32 \<Rightarrow> u32 \<Rightarrow> u32 list \<Rightarrow> u32" where
  "recover_head head i [] = head"
| "recover_head head i (st # sts) = (if st = QUEUE_READY then i else recover_head head (i + 1) sts)"

definition posixipc_queue_recover :: "posixipc_queue_view option \<Rightarrow> ring \<Rightarrow> rc \<times> ring" where
  "posixipc_queue_recover vp m =
     (case vp of None \<Rightarrow> (EINVAL, m) | Some v \<Rightarrow>
      if q_ctrl v = None \<or> q_state v = None then (EINVAL, m)
      else let d = unat (q_depth v) in
        case recover_scan 0 (take d (r_state m)) of (ready, sts) \<Rightarrow>
          let m1 = m\<lparr>r_state := sts @ drop d (r_state m),
                     r_ctrl := (r_ctrl m)\<lparr>c_count := ready\<rparr>\<rparr>
          in if ready = 0 then (0, m1\<lparr>r_ctrl := (r_ctrl m1)\<lparr>c_head := 0, c_tail := 0\<rparr>\<rparr>)
             else let head = recover_head (c_head (r_ctrl m1)) 0 sts
               in (0, m1\<lparr>r_ctrl := (r_ctrl m1)\<lparr>c_head := head, c_tail := (head + ready) mod q_depth v\<rparr>\<rparr>))"

section \<open>The size is exact\<close>

lemma queue_align_up_pow2:
  assumes a: "pow2_word a"
  shows "unat (queue_align_up v a) =
           (if ceil_to (unat a) (unat v) < 2 ^ 32 then ceil_to (unat a) (unat v) else 0)"
proof (cases "a \<le> 1")
  case True
  then have "unat a \<le> 1" by (simp add: word_le_nat_alt)
  with pow2_word_pos [OF a] have "unat a = Suc 0" by simp
  with True show ?thesis by (simp add: queue_align_up_def unat_u32_less)
next
  case False
  note ex = align_pow2_exact [OF a, of v]
  have "queue_align_up v a =
      (if UINT32_MAX - (a - 1) < v then 0 else (v + (a - 1)) AND NOT (a - 1))"
    using False a by (simp add: queue_align_up_def pow2_word_def Let_def)
  then show ?thesis using ex by auto
qed

interpretation queue_al: aligner queue_align_up pow2_word
proof unfold_locales
  fix a v :: u32 assume a: "pow2_word a"
  show "0 < unat a" using a by (rule pow2_word_pos)
  show "ceil_to (unat a) (unat v) < 2 ^ 32 \<Longrightarrow>
      unat (queue_align_up v a) = ceil_to (unat a) (unat v)"
    using queue_align_up_pow2 [OF a, of v] by simp
  show "2 ^ 32 \<le> ceil_to (unat a) (unat v) \<Longrightarrow> queue_align_up v a = 0"
    using queue_align_up_pow2 [OF a, of v] by (simp add: unat_0_iff [symmetric])
qed

text \<open>The size on natural numbers: control block, states and payload, each in whole cache lines.\<close>

definition queue_size :: "nat \<Rightarrow> nat \<Rightarrow> nat \<Rightarrow> nat" where
  "queue_size cl depth item = ceil_to cl 24 + ceil_to cl (4 * depth) + depth * ceil_to cl item"

lemma config_cacheline:
  assumes "config_ok c"
  shows "pow2_word (CACHELINE_BYTES c)" and "0 < unat (CACHELINE_BYTES c)"
    and "unat (CACHELINE_BYTES c) \<le> 32768"
  using assms align_ok_pos align_ok_le by (auto simp: config_ok_def align_ok_def)

lemma ctrl_bytes_exact:
  assumes "config_ok c"
  shows "unat (ctrl_bytes c) = ceil_to (unat (CACHELINE_BYTES c)) 24"
proof -
  note cl = config_cacheline [OF assms]
  have "ceil_to (unat (CACHELINE_BYTES c)) 24 < 2 ^ 32"
    using ceil_to_less [OF cl(2), of 24] cl(3) by simp
  then have u: "unat (queue_align_up 24 (CACHELINE_BYTES c)) = ceil_to (unat (CACHELINE_BYTES c)) 24"
    using queue_al.fits [OF cl(1), of 24] by simp
  moreover have "queue_align_up 24 (CACHELINE_BYTES c) \<noteq> 0"
    using u ceil_to_ge [OF cl(2), of 24] by auto
  ultimately show ?thesis by (simp add: ctrl_bytes_def Let_def)
qed

lemma state_bytes_exact:
  assumes "config_ok c" and "depth \<noteq> 0"
  shows "unat (state_bytes c depth) =
    (if ceil_to (unat (CACHELINE_BYTES c)) (4 * unat depth) < 2 ^ 32
     then ceil_to (unat (CACHELINE_BYTES c)) (4 * unat depth) else 0)"
proof (cases "UINT32_MAX div 4 < depth")
  case True
  then have "2 ^ 32 \<le> 4 * unat depth" using gt_max_div_iff [of 4 depth] by simp
  with ceil_to_ge [OF config_cacheline(2) [OF assms(1)], of "4 * unat depth"] True
  show ?thesis by (simp add: state_bytes_def)
next
  case False
  then have "unat depth * 4 < 2 ^ 32" using gt_max_div_iff [of 4 depth] by simp
  then have "unat (depth * 4) = 4 * unat depth" using unat_mult_no_wrap [of depth 4] by simp
  with False assms queue_align_up_pow2 [OF config_cacheline(1) [OF assms(1)], of "depth * 4"]
  show ?thesis by (simp add: state_bytes_def)
qed

lemma size_checks_exact:
  fixes cb sb st d :: u32
  assumes "st \<noteq> 0"
  shows "unat (if UINT32_MAX div st < d then 0
         else if UINT32_MAX - sb < cb then 0
         else if UINT32_MAX - d * st < cb + sb then 0 else cb + sb + d * st) =
    (if unat cb + unat sb + unat d * unat st < 2 ^ 32 then unat cb + unat sb + unat d * unat st else 0)"
proof -
  note i1 = gt_max_div_iff [OF assms, of d] and i2 = gt_max_minus_iff [of sb cb]
  consider "2 ^ 32 \<le> unat d * unat st" | "unat d * unat st < 2 ^ 32" "2 ^ 32 \<le> unat cb + unat sb"
    | "unat d * unat st < 2 ^ 32" "unat cb + unat sb < 2 ^ 32" by linarith
  then show ?thesis
  proof cases
    case 1
    then have "\<not> unat cb + unat sb + unat d * unat st < 2 ^ 32" by linarith
    with 1 i1 show ?thesis by simp
  next
    case 2
    then have "\<not> unat cb + unat sb + unat d * unat st < 2 ^ 32" by linarith
    with 2 i2 show ?thesis by simp
  next
    case 3
    then have p: "unat (d * st) = unat d * unat st" "unat (cb + sb) = unat cb + unat sb"
      by (simp_all add: unat_mult_no_wrap unat_add_no_wrap)
    with 3 i1 i2 gt_max_minus_iff [of "d * st" "cb + sb"] unat_add_no_wrap [of "cb + sb" "d * st"]
    show ?thesis by simp
  qed
qed

lemma queue_bytes_size_exact:
  assumes c: "config_ok c"
  shows "unat (posixipc_queue_bytes_size c depth item) =
    (if depth \<noteq> 0 \<and> item \<noteq> 0 \<and> queue_size (unat (CACHELINE_BYTES c)) (unat depth) (unat item) < 2 ^ 32
     then queue_size (unat (CACHELINE_BYTES c)) (unat depth) (unat item) else 0)"
proof (cases "depth = 0 \<or> item = 0")
  case True
  then show ?thesis by (auto simp: posixipc_queue_bytes_size_def)
next
  case False
  let ?cl = "unat (CACHELINE_BYTES c)" and ?cb = "ctrl_bytes c" and ?sb = "state_bytes c depth"
  let ?st = "queue_align_up item (CACHELINE_BYTES c)"
  let ?S = "ceil_to ?cl (4 * unat depth)" and ?T = "ceil_to ?cl (unat item)"
  note cl = config_cacheline [OF c]
  have nz: "\<not> (depth < 1 \<or> item < 1)" "depth \<noteq> 0" using False by (simp_all add: word_less_1)
  note cb = ctrl_bytes_exact [OF c] and sb = state_bytes_exact [OF c nz(2)]
  note st = queue_align_up_pow2 [OF cl(1), of item]
  have cb0: "?cb \<noteq> 0" using cb ceil_to_ge [OF cl(2), of 24] by auto
  have dpos: "0 < unat depth" "0 < unat item" using False by (simp_all add: unat_gt_0)
  have pos: "0 < ?S" "0 < ?T"
    using ceil_to_ge [OF cl(2), of "4 * unat depth"] ceil_to_ge [OF cl(2), of "unat item"] dpos by linarith+
  have size: "queue_size ?cl (unat depth) (unat item) = unat ?cb + ?S + unat depth * ?T"
    by (simp add: queue_size_def cb)
  show ?thesis
  proof (cases "?sb = 0 \<or> ?st = 0")
    case True
    then have "2 ^ 32 \<le> ?S \<or> 2 ^ 32 \<le> ?T" using sb st pos by (auto simp: not_less split: if_splits)
    moreover have "?T \<le> unat depth * ?T" using dpos by simp
    ultimately have "2 ^ 32 \<le> unat ?cb + ?S + unat depth * ?T" by linarith
    with True nz show ?thesis by (auto simp: posixipc_queue_bytes_size_def Let_def size)
  next
    case F: False
    then have e: "unat ?sb = ?S" "unat ?st = ?T" using sb st by (auto simp: unat_0_iff split: if_splits)
    have val: "posixipc_queue_bytes_size c depth item =
        (if UINT32_MAX div ?st < depth then 0
         else if UINT32_MAX - ?sb < ?cb then 0
         else if UINT32_MAX - depth * ?st < ?cb + ?sb then 0 else ?cb + ?sb + depth * ?st)"
      using nz F cb0 by (simp add: posixipc_queue_bytes_size_def Let_def)
    have "?st \<noteq> 0" using F by simp
    from size_checks_exact [OF this, of depth ?sb ?cb, folded val, unfolded e]
    show ?thesis unfolding size using False by simp
  qed
qed

section \<open>Positions in the ring\<close>

text \<open>
  \<open>ring_idx d h k\<close> is the slot of the \<open>k\<close>-th oldest item when the head is \<open>h\<close>;
  \<open>ring_pos d h i\<close> is the age position of slot \<open>i\<close>.
\<close>

definition ring_idx :: "nat \<Rightarrow> nat \<Rightarrow> nat \<Rightarrow> nat" where
  "ring_idx d h k = (h + k) mod d"

definition ring_pos :: "nat \<Rightarrow> nat \<Rightarrow> nat \<Rightarrow> nat" where
  "ring_pos d h i = (if h \<le> i then i - h else i + d - h)"

lemma ring_idx_if: "h < d \<Longrightarrow> k \<le> d \<Longrightarrow> ring_idx d h k = (if h + k < d then h + k else h + k - d)"
  by (auto simp: ring_idx_def mod_if)

lemma ring_idx_less [simp]: "0 < d \<Longrightarrow> ring_idx d h k < d"
  by (simp add: ring_idx_def)

lemma ring_pos_idx: "h < d \<Longrightarrow> k < d \<Longrightarrow> ring_pos d h (ring_idx d h k) = k"
  by (auto simp: ring_idx_if ring_pos_def)

lemma ring_idx_inj: "h < d \<Longrightarrow> k < d \<Longrightarrow> j < d \<Longrightarrow> ring_idx d h k = ring_idx d h j \<Longrightarrow> k = j"
  using ring_pos_idx [of h d k] ring_pos_idx [of h d j] by metis

lemma ring_pos_put:
  "h < d \<Longrightarrow> n < d \<Longrightarrow> i < d \<Longrightarrow> (ring_pos d h i < Suc n) = (ring_pos d h i < n \<or> i = ring_idx d h n)"
  by (auto simp: ring_idx_if ring_pos_def)

lemma ring_pos_get:
  "h < d \<Longrightarrow> 0 < n \<Longrightarrow> n \<le> d \<Longrightarrow> i < d \<Longrightarrow>
     (ring_pos d (ring_idx d h 1) i < n - 1) = (ring_pos d h i < n \<and> i \<noteq> h)"
  by (auto simp: ring_idx_if ring_pos_def)

lemma ring_idx_Suc: "ring_idx d (ring_idx d h 1) k = ring_idx d h (Suc k)"
  by (simp add: ring_idx_def mod_simps)

text \<open>The C expression \<^verbatim>\<open>(idx + 1u) % depth\<close>.\<close>

lemma ring_next:
  fixes idx d :: u32
  assumes "idx < d"
  shows "unat ((idx + 1) mod d) = ring_idx (unat d) (unat idx) 1"
proof -
  have "unat d < 2 ^ 32" using unsigned_less [of d, where ?'a = nat] by simp
  moreover have "unat idx < unat d" using assms by (simp add: word_less_nat_alt)
  ultimately have "unat idx + 1 < 2 ^ 32" by linarith
  then have "unat (idx + 1) = unat idx + 1" using unat_add_no_wrap [of idx 1] by simp
  then show ?thesis by (simp add: unat_mod ring_idx_def)
qed

section \<open>Copies inside the payload\<close>

lemma copy_at_length [simp]: "i + length bs \<le> length mem \<Longrightarrow> length (copy_at i bs mem) = length mem"
  by (simp add: copy_at_def)

lemma copy_at_same: "i + length bs \<le> length mem \<Longrightarrow> take (length bs) (drop i (copy_at i bs mem)) = bs"
  by (simp add: copy_at_def)

lemma copy_at_nth:
  "i + length bs \<le> length mem \<Longrightarrow> j < i \<or> i + length bs \<le> j \<Longrightarrow> j < length mem \<Longrightarrow>
     copy_at i bs mem ! j = mem ! j"
  by (auto simp: copy_at_def nth_append)

lemma copy_at_other:
  assumes "i + length bs \<le> length mem" and "j + n \<le> length mem" and "j + n \<le> i \<or> i + length bs \<le> j"
  shows "take n (drop j (copy_at i bs mem)) = take n (drop j mem)"
  using assms by (intro nth_equalityI) (auto simp: copy_at_nth)

lemma slot_fits:
  assumes "i < d" and "(n :: nat) \<le> s"
  shows "i * s + n \<le> d * s"
proof -
  have "Suc i * s \<le> d * s" using assms(1) by (intro mult_right_mono) simp_all
  with assms(2) show ?thesis by simp
qed

lemma slots_apart:
  assumes "i \<noteq> j" and "(n :: nat) \<le> s"
  shows "j * s + n \<le> i * s \<or> i * s + n \<le> j * s"
proof (cases "j < i")
  case True
  from slot_fits [OF this assms(2)] show ?thesis by simp
next
  case False
  with assms(1) have "i < j" by simp
  from slot_fits [OF this assms(2)] show ?thesis by simp
qed

section \<open>Invariant and abstraction\<close>

definition view_ok :: "posixipc_queue_view \<Rightarrow> bool" where
  "view_ok v \<longleftrightarrow> q_ctrl v \<noteq> None \<and> q_state v \<noteq> None \<and> q_payload v \<noteq> None \<and>
     q_depth v \<noteq> 0 \<and> q_item_size v \<noteq> 0 \<and> q_item_size v \<le> q_stride v"

abbreviation (input) dp :: "posixipc_queue_view \<Rightarrow> nat" where "dp v \<equiv> unat (q_depth v)"
abbreviation (input) hd_of :: "ring \<Rightarrow> nat" where "hd_of m \<equiv> unat (c_head (r_ctrl m))"
abbreviation (input) tl_of :: "ring \<Rightarrow> nat" where "tl_of m \<equiv> unat (c_tail (r_ctrl m))"
abbreviation (input) cnt :: "ring \<Rightarrow> nat" where "cnt m \<equiv> unat (c_count (r_ctrl m))"

definition mem_ok :: "posixipc_queue_view \<Rightarrow> ring \<Rightarrow> bool" where
  "mem_ok v m \<longleftrightarrow> length (r_state m) = dp v \<and> length (r_payload m) = dp v * unat (q_stride v)"

definition window_ok :: "posixipc_queue_view \<Rightarrow> ring \<Rightarrow> bool" where
  "window_ok v m \<longleftrightarrow> (\<forall>i < dp v. r_state m ! i =
     (if ring_pos (dp v) (hd_of m) i < cnt m then QUEUE_READY else QUEUE_EMPTY))"

definition ring_inv :: "posixipc_queue_view \<Rightarrow> ring \<Rightarrow> bool" where
  "ring_inv v m \<longleftrightarrow> view_ok v \<and> mem_ok v m \<and> hd_of m < dp v \<and> cnt m \<le> dp v \<and>
     tl_of m = ring_idx (dp v) (hd_of m) (cnt m) \<and> window_ok v m"

text \<open>The items in the order they will be delivered.\<close>

definition ring_list :: "posixipc_queue_view \<Rightarrow> ring \<Rightarrow> u8 list list" where
  "ring_list v m = map (\<lambda>k. slot_data v m (ring_idx (dp v) (hd_of m) k)) [0..<cnt m]"

lemma length_ring_list [simp]: "length (ring_list v m) = cnt m"
  by (simp add: ring_list_def)

lemma view_ok_dp: "view_ok v \<Longrightarrow> 0 < dp v \<and> unat (q_item_size v) \<le> unat (q_stride v)"
  by (simp add: view_ok_def unat_gt_0 word_le_nat_alt)

section \<open>Init, put and get on the invariant\<close>

lemma queue_init_inv:
  assumes "view_ok v" and "mem_ok v m"
  shows "\<exists>m'. posixipc_queue_init_ctrl (Some v) m = (0, m') \<and> ring_inv v m' \<and> ring_list v m' = []"
  using assms view_ok_dp [OF assms(1)]
  by (auto simp: posixipc_queue_init_ctrl_def ring_inv_def mem_ok_def window_ok_def ring_list_def
      ring_idx_def view_ok_def)

lemma slot_data_length:
  assumes "view_ok v" and "mem_ok v m" and "i < dp v"
  shows "length (slot_data v m i) = unat (q_item_size v)"
  using slot_fits [OF assms(3), of "unat (q_item_size v)" "unat (q_stride v)"] view_ok_dp [OF assms(1)] assms(2)
  by (simp add: slot_data_def mem_ok_def)

text \<open>The memory after the copy of put: the written slot and every other slot.\<close>

lemma slot_data_copy:
  assumes v: "view_ok v" and m: "mem_ok v m" and i: "i < dp v"
    and p: "r_payload m' = copy_at (i * unat (q_stride v)) bs (r_payload m)"
    and l: "length bs = unat (q_item_size v)"
  shows "slot_data v m' i = bs"
    and "j < dp v \<Longrightarrow> j \<noteq> i \<Longrightarrow> slot_data v m' j = slot_data v m j"
    and "length (r_payload m') = length (r_payload m)"
proof -
  note n = conjunct2 [OF view_ok_dp [OF v]]
  have fit: "k < dp v \<Longrightarrow> k * unat (q_stride v) + length bs \<le> length (r_payload m)" for k
    using slot_fits [of k "dp v", OF _ n] m l by (simp add: mem_ok_def)
  show "slot_data v m' i = bs"
    using copy_at_same [OF fit [OF i]] l by (simp add: slot_data_def p)
  show "length (r_payload m') = length (r_payload m)"
    using fit [OF i] by (simp add: p)
  show "slot_data v m' j = slot_data v m j" if "j < dp v" "j \<noteq> i"
    using copy_at_other [OF fit [OF i], of "j * unat (q_stride v)" "unat (q_item_size v)"]
      fit [OF that(1)] slots_apart [OF that(2) n] l by (auto simp: slot_data_def p)
qed

lemma ring_inv_tail: "ring_inv v m \<Longrightarrow> tl_of m < dp v"
  using view_ok_dp by (simp add: ring_inv_def)

lemma put_full: "ring_inv v m \<Longrightarrow> cnt m = dp v \<Longrightarrow> posixipc_queue_put (Some v) m (Some bs) = (EAGAIN, m)"
  by (auto simp: posixipc_queue_put_def ring_inv_def view_ok_def word_le_nat_alt)

lemma put_takes:
  assumes "ring_inv v m" and "cnt m < dp v"
  shows "posixipc_queue_put (Some v) m (Some bs) = (0, exec_stores v m (put_stores v m bs))"
proof -
  have "\<not> q_depth v \<le> c_tail (r_ctrl m)" "\<not> q_depth v \<le> c_count (r_ctrl m)"
    using ring_inv_tail [OF assms(1)] assms(2) by (simp_all add: word_le_nat_alt)
  moreover have "q_ctrl v \<noteq> None" using assms(1) by (simp add: ring_inv_def view_ok_def)
  ultimately show ?thesis by (simp add: posixipc_queue_put_def)
qed

lemma put_stores_result:
  "r_state (exec_stores v m (put_stores v m bs)) = (r_state m)[tl_of m := QUEUE_READY]"
  "r_payload (exec_stores v m (put_stores v m bs)) =
     copy_at (tl_of m * unat (q_stride v)) (take (unat (q_item_size v)) bs) (r_payload m)"
  "c_head (r_ctrl (exec_stores v m (put_stores v m bs))) = c_head (r_ctrl m)"
  "c_tail (r_ctrl (exec_stores v m (put_stores v m bs))) = (c_tail (r_ctrl m) + 1) mod q_depth v"
  "c_count (r_ctrl (exec_stores v m (put_stores v m bs))) = c_count (r_ctrl m) + 1"
  by (simp_all add: exec_stores_def put_stores_def Let_def)

lemma count_plus_1: "cnt m < dp v \<Longrightarrow> unat (c_count (r_ctrl m) + 1) = Suc (cnt m)"
  using unat_add_no_wrap [of "c_count (r_ctrl m)" 1] unat_u32_less [of "q_depth v"] by simp

lemma put_ok:
  assumes inv: "ring_inv v m" and room: "cnt m < dp v" and bs: "unat (q_item_size v) \<le> length bs"
  shows "ring_inv v (exec_stores v m (put_stores v m bs))"
    and "ring_list v (exec_stores v m (put_stores v m bs)) =
           ring_list v m @ [take (unat (q_item_size v)) bs]"
proof -
  let ?m = "exec_stores v m (put_stores v m bs)" and ?d = "dp v" and ?h = "hd_of m"
  note r = put_stores_result [of v m bs]
  have v: "view_ok v" and m: "mem_ok v m" and h: "?h < ?d"
    and t: "tl_of m = ring_idx ?d ?h (cnt m)" and w: "window_ok v m"
    using inv by (simp_all add: ring_inv_def)
  have tl: "tl_of m < ?d" by (rule ring_inv_tail [OF inv])
  have c: "cnt ?m = Suc (cnt m)" using count_plus_1 [OF room] r by simp
  have l: "length (take (unat (q_item_size v)) bs) = unat (q_item_size v)" using bs by simp
  note sd = slot_data_copy [OF v m tl r(2) l]
  have "mem_ok v ?m" using m sd(3) r(1) by (simp add: mem_ok_def)
  moreover have "tl_of ?m = ring_idx ?d ?h (cnt ?m)"
    using tl r(4) ring_next [of "c_tail (r_ctrl m)" "q_depth v"] t c
    by (simp add: word_less_nat_alt ring_idx_def mod_simps)
  moreover have "window_ok v ?m"
    using w m tl unfolding window_ok_def mem_ok_def c
    by (auto simp: r ring_pos_put [OF h room] t nth_list_update)
  ultimately show "ring_inv v ?m" using v h room c r(3) by (simp add: ring_inv_def)
  have "slot_data v ?m (ring_idx ?d ?h k) = slot_data v m (ring_idx ?d ?h k)" if "k < cnt m" for k
    using sd(2) [of "ring_idx ?d ?h k"] ring_idx_inj [OF h, of k "cnt m"] that room t by fastforce
  then show "ring_list v ?m = ring_list v m @ [take (unat (q_item_size v)) bs]"
    using sd(1) t r(3) c by (simp add: ring_list_def)
qed

lemma get_empty: "ring_inv v m \<Longrightarrow> cnt m = 0 \<Longrightarrow> posixipc_queue_get (Some v) m (Some buf) = (EAGAIN, m, Some buf)"
  by (auto simp: posixipc_queue_get_def ring_inv_def view_ok_def unat_0_iff)

lemma get_takes:
  assumes "ring_inv v m" and "0 < cnt m"
  shows "posixipc_queue_get (Some v) m (Some buf) =
    (0, exec_stores v m (get_stores v m), Some (copy_at 0 (slot_data v m (hd_of m)) buf))"
proof -
  have "hd_of m < dp v" "window_ok v m" using assms(1) by (simp_all add: ring_inv_def)
  then have "r_state m ! hd_of m = QUEUE_READY" using assms(2) by (simp add: window_ok_def ring_pos_def)
  with assms show ?thesis
    by (auto simp: posixipc_queue_get_def ring_inv_def view_ok_def word_le_nat_alt Let_def)
qed

lemma get_stores_result:
  "r_state (exec_stores v m (get_stores v m)) = (r_state m)[hd_of m := QUEUE_EMPTY]"
  "r_payload (exec_stores v m (get_stores v m)) = r_payload m"
  "c_head (r_ctrl (exec_stores v m (get_stores v m))) = (c_head (r_ctrl m) + 1) mod q_depth v"
  "c_tail (r_ctrl (exec_stores v m (get_stores v m))) = c_tail (r_ctrl m)"
  "c_count (r_ctrl (exec_stores v m (get_stores v m))) = c_count (r_ctrl m) - 1"
  by (simp_all add: exec_stores_def get_stores_def Let_def)

lemma get_ok:
  assumes inv: "ring_inv v m" and some: "0 < cnt m"
  shows "ring_inv v (exec_stores v m (get_stores v m))"
    and "ring_list v m = slot_data v m (hd_of m) # ring_list v (exec_stores v m (get_stores v m))"
proof -
  let ?m = "exec_stores v m (get_stores v m)" and ?d = "dp v" and ?h = "hd_of m"
  note r = get_stores_result [of v m]
  have v: "view_ok v" and m: "mem_ok v m" and h: "?h < ?d" and le: "cnt m \<le> ?d"
    and t: "tl_of m = ring_idx ?d ?h (cnt m)" and w: "window_ok v m"
    using inv by (simp_all add: ring_inv_def)
  have c: "cnt ?m = cnt m - 1" using some r by (subst r(5), subst unat_minus_one) auto
  have hd: "hd_of ?m = ring_idx ?d ?h 1"
    using h r(3) ring_next [of "c_head (r_ctrl m)" "q_depth v"] by (simp add: word_less_nat_alt)
  have "window_ok v ?m"
    using w m h unfolding window_ok_def mem_ok_def c hd
    by (auto simp: r ring_pos_get [OF h some le, unfolded One_nat_def] nth_list_update)
  moreover have "tl_of ?m = ring_idx ?d (hd_of ?m) (cnt ?m)"
    using t r(4) ring_idx_Suc [of ?d ?h "cnt m - 1"] some unfolding c hd by simp
  ultimately show "ring_inv v ?m"
    using v m h hd le c r(1,2) view_ok_dp [OF v] by (simp add: ring_inv_def mem_ok_def)
  have "[0..<cnt m] = 0 # map Suc [0..<cnt m - 1]"
    using some by (simp add: map_Suc_upt upt_conv_Cons)
  moreover have "ring_idx ?d ?h 0 = ?h" using h by (simp add: ring_idx_def)
  moreover have "slot_data v ?m = slot_data v m" by (rule ext) (simp add: slot_data_def r)
  ultimately show "ring_list v m = slot_data v m ?h # ring_list v ?m"
    unfolding ring_list_def c hd ring_idx_Suc by (simp add: o_def)
qed

section \<open>The ring is a bounded queue\<close>

definition ring_put :: "posixipc_queue_view \<Rightarrow> ring \<Rightarrow> u8 list \<Rightarrow> rc \<times> ring" where
  "ring_put v m x = posixipc_queue_put (Some v) m (Some x)"

text \<open>A get into a zeroed buffer of \<^verbatim>\<open>item_size\<close> bytes; the buffer counts only on success.\<close>

definition ring_get :: "posixipc_queue_view \<Rightarrow> ring \<Rightarrow> rc \<times> ring \<times> u8 list option" where
  "ring_get v m =
     (case posixipc_queue_get (Some v) m (Some (replicate (unat (q_item_size v)) 0)) of
        (rc, m', buf) \<Rightarrow> (rc, m', if rc = 0 then buf else None))"

lemma ring_get_takes:
  assumes "ring_inv v m" and "0 < cnt m"
  shows "ring_get v m = (0, exec_stores v m (get_stores v m), Some (slot_data v m (hd_of m)))"
proof -
  have "length (slot_data v m (hd_of m)) = unat (q_item_size v)"
    using assms(1) by (intro slot_data_length) (simp_all add: ring_inv_def)
  then show ?thesis by (simp add: ring_get_def get_takes [OF assms] copy_at_def)
qed

interpretation rq: bounded_queue "ring_inv v" "ring_list v" "unat (q_depth v)"
    "\<lambda>x. length x = unat (q_item_size v)" "ring_put v" "ring_get v" for v
proof unfold_locales
  fix m x xs
  assume inv: "ring_inv v m"
  then show "length (ring_list v m) \<le> dp v" by (simp add: ring_inv_def)
  show "length x = unat (q_item_size v) \<Longrightarrow> length (ring_list v m) < dp v \<Longrightarrow>
      \<exists>m'. ring_put v m x = (0, m') \<and> ring_inv v m' \<and> ring_list v m' = ring_list v m @ [x]"
    using put_takes [OF inv] put_ok [OF inv] by (simp add: ring_put_def)
  show "length (ring_list v m) = dp v \<Longrightarrow> ring_put v m x = (EAGAIN, m)"
    using put_full [OF inv] by (simp add: ring_put_def)
  show "ring_list v m = x # xs \<Longrightarrow>
      \<exists>m'. ring_get v m = (0, m', Some x) \<and> ring_inv v m' \<and> ring_list v m' = xs"
  proof -
    assume l: "ring_list v m = x # xs"
    then have "0 < cnt m" using length_ring_list [of v m] by simp
    with ring_get_takes [OF inv] get_ok [OF inv] l show ?thesis by simp
  qed
  show "ring_list v m = [] \<Longrightarrow> ring_get v m = (EAGAIN, m, None)"
  proof -
    assume "ring_list v m = []"
    then have "cnt m = 0" using length_ring_list [of v m] by simp
    then show ?thesis using get_empty [OF inv] by (simp add: ring_get_def)
  qed
qed

section \<open>Recovery after a crash\<close>

lemma recover_scan_result:
  "recover_scan r sts =
     (r + word_of_nat (length (filter (\<lambda>st. recover_state st = QUEUE_READY) sts)), map recover_state sts)"
  by (induction r sts rule: recover_scan.induct) (auto simp: recover_state_def Let_def split: prod.splits)

lemma recover_state_cases: "recover_state st = QUEUE_EMPTY \<or> recover_state st = QUEUE_READY"
  by (auto simp: recover_state_def)

lemma recover_state_idem [simp]: "recover_state (recover_state st) = recover_state st"
  by (auto simp: recover_state_def)

lemma recover_head_first:
  assumes "j < length sts" and "sts ! j = QUEUE_READY" and "\<forall>i < j. sts ! i \<noteq> QUEUE_READY"
  shows "recover_head head i0 sts = i0 + word_of_nat j"
  using assms
proof (induction sts arbitrary: i0 j)
  case Nil
  then show ?case by simp
next
  case (Cons st sts)
  show ?case
  proof (cases j)
    case 0
    with Cons.prems show ?thesis by simp
  next
    case (Suc j')
    then have "recover_head head (i0 + 1) sts = (i0 + 1) + word_of_nat j'"
      using Cons.prems by (intro Cons.IH) auto
    moreover have "st \<noteq> QUEUE_READY" using Cons.prems(3) Suc by force
    ultimately show ?thesis using Suc by simp
  qed
qed

definition ready_count :: "posixipc_queue_view \<Rightarrow> ring \<Rightarrow> nat" where
  "ready_count v m =
     length (filter (\<lambda>st. recover_state st = QUEUE_READY) (take (dp v) (r_state m)))"

lemma ready_count_le: "ready_count v m \<le> dp v"
  unfolding ready_count_def by (rule le_trans [OF length_filter_le]) simp

lemma recover_step:
  assumes "view_ok v" and "mem_ok v m"
  shows "posixipc_queue_recover (Some v) m =
    (0, m\<lparr>r_state := map recover_state (r_state m),
          r_ctrl := (r_ctrl m)\<lparr>
            c_count := word_of_nat (ready_count v m),
            c_head := (if ready_count v m = 0 then 0
                       else recover_head (c_head (r_ctrl m)) 0 (map recover_state (r_state m))),
            c_tail := (if ready_count v m = 0 then 0
                       else (recover_head (c_head (r_ctrl m)) 0 (map recover_state (r_state m)) +
                             word_of_nat (ready_count v m)) mod q_depth v)\<rparr>\<rparr>)"
proof -
  have "ready_count v m < 2 ^ 32"
    using ready_count_le [of v m] unat_u32_less [of "q_depth v"] by simp
  then have "(word_of_nat (ready_count v m) = (0 :: u32)) = (ready_count v m = 0)"
    by (simp add: word_unat_eq_iff)
  then show ?thesis
    using assms
    by (auto simp: posixipc_queue_recover_def recover_scan_result view_ok_def mem_ok_def Let_def
        ready_count_def)
qed

text \<open>The number of ready slots when they form one interval.\<close>

lemma filter_interval_length:
  "h + n \<le> length xs \<Longrightarrow> \<forall>i < length xs. P (xs ! i) = (h \<le> i \<and> i < h + n) \<Longrightarrow> length (filter P xs) = n"
proof -
  assume l: "h + n \<le> length xs" and P: "\<forall>i < length xs. P (xs ! i) = (h \<le> i \<and> i < h + n)"
  have "{i. i < length xs \<and> P (xs ! i)} = {h..<h + n}" using l P by auto
  then show ?thesis by (simp add: length_filter_conv_card)
qed

text \<open>
  The heart of recovery: when the slots that survive form an interval that does not wrap
  around, the invariant holds again and the surviving items come out in order.
\<close>

lemma recover_interval:
  assumes v: "view_ok v" and m: "mem_ok v m" and le: "h + n \<le> dp v"
    and st: "\<forall>i < dp v. recover_state (r_state m ! i) = (if h \<le> i \<and> i < h + n then QUEUE_READY else QUEUE_EMPTY)"
  shows "\<exists>m'. posixipc_queue_recover (Some v) m = (0, m') \<and> ring_inv v m' \<and>
           ring_list v m' = map (slot_data v m) [h..<h + n]"
proof -
  let ?d = "dp v" and ?m = "snd (posixipc_queue_recover (Some v) m)"
  have len: "length (r_state m) = ?d" using m by (simp add: mem_ok_def)
  have rdy: "ready_count v m = n"
    unfolding ready_count_def using len le st by (intro filter_interval_length) auto
  have d: "0 < ?d" "?d < 2 ^ 32" using view_ok_dp [OF v] unat_u32_less [of "q_depth v"] by simp_all
  have c: "cnt ?m = n" using le d by (simp add: recover_step [OF v m] rdy)
  have hd: "hd_of ?m = (if n = 0 then 0 else h)"
  proof (cases "n = 0")
    case False
    then have "recover_head (c_head (r_ctrl m)) 0 (map recover_state (r_state m)) = 0 + word_of_nat h"
      using len le st by (intro recover_head_first) auto
    moreover have "h < 2 ^ 32" using le d by simp
    ultimately show ?thesis using False by (simp add: recover_step [OF v m] rdy)
  qed (simp add: recover_step [OF v m] rdy)
  have tl: "tl_of ?m = ring_idx ?d (hd_of ?m) n"
  proof (cases "n = 0")
    case False
    then have "c_tail (r_ctrl ?m) = (c_head (r_ctrl ?m) + word_of_nat n) mod q_depth v"
      by (simp add: recover_step [OF v m] rdy)
    moreover have "unat (c_head (r_ctrl ?m) + word_of_nat n) = h + n"
      using unat_add_no_wrap [of "c_head (r_ctrl ?m)" "word_of_nat n"] hd False le d by simp
    ultimately show ?thesis using hd False by (simp add: unat_mod ring_idx_def)
  qed (simp add: recover_step [OF v m] rdy ring_idx_def)
  have "window_ok v ?m"
    unfolding window_ok_def c hd using st len le by (auto simp: recover_step [OF v m] ring_pos_def)
  then have "ring_inv v ?m"
    using v m c hd tl d le by (auto simp: ring_inv_def mem_ok_def recover_step [OF v m] len)
  moreover have "ring_list v ?m = map (slot_data v m) [h..<h + n]"
  proof (rule nth_equalityI)
    fix k assume "k < length (ring_list v ?m)"
    then have "k < n" by (simp add: c)
    moreover have "slot_data v ?m = slot_data v m" by (rule ext) (simp add: slot_data_def recover_step [OF v m])
    ultimately show "ring_list v ?m ! k = map (slot_data v m) [h..<h + n] ! k"
      using le by (simp add: ring_list_def c hd ring_idx_def)
  qed (simp add: c)
  ultimately show ?thesis by (auto simp: recover_step [OF v m])
qed

text \<open>A process that dies inside put or get leaves the memory after the first \<open>k\<close> stores.\<close>

definition crash_put :: "posixipc_queue_view \<Rightarrow> ring \<Rightarrow> u8 list \<Rightarrow> nat \<Rightarrow> ring" where
  "crash_put v m bs k = exec_stores v m (take k (put_stores v m bs))"

definition crash_get :: "posixipc_queue_view \<Rightarrow> ring \<Rightarrow> nat \<Rightarrow> ring" where
  "crash_get v m k = exec_stores v m (take k (get_stores v m))"

lemma window_linear:
  assumes "ring_inv v m" and "hd_of m + cnt m \<le> dp v" and "i < dp v"
  shows "r_state m ! i = (if hd_of m \<le> i \<and> i < hd_of m + cnt m then QUEUE_READY else QUEUE_EMPTY)"
proof -
  have "r_state m ! i = (if ring_pos (dp v) (hd_of m) i < cnt m then QUEUE_READY else QUEUE_EMPTY)"
    using assms(1,3) by (simp add: ring_inv_def window_ok_def)
  then show ?thesis using assms(2,3) by (auto simp: ring_pos_def)
qed

lemma ring_list_linear:
  assumes "hd_of m + cnt m \<le> dp v"
  shows "ring_list v m = map (slot_data v m) [hd_of m..<hd_of m + cnt m]"
  using assms by (intro nth_equalityI) (auto simp: ring_list_def ring_idx_def)

lemma crash_put_fields:
  "r_state (crash_put v m bs k) =
     (if k = 0 then r_state m
      else (r_state m)[tl_of m := (if k < 3 then QUEUE_RESERVED_PUT else QUEUE_READY)])"
  "r_payload (crash_put v m bs k) =
     (if k < 2 then r_payload m
      else copy_at (tl_of m * unat (q_stride v)) (take (unat (q_item_size v)) bs) (r_payload m))"
proof -
  consider "k = 0" | "k = 1" | "k = 2" | "k = 3" | "k = 4" | "5 \<le> k" by linarith
  then show "r_state (crash_put v m bs k) =
     (if k = 0 then r_state m
      else (r_state m)[tl_of m := (if k < 3 then QUEUE_RESERVED_PUT else QUEUE_READY)])"
    and "r_payload (crash_put v m bs k) =
     (if k < 2 then r_payload m
      else copy_at (tl_of m * unat (q_stride v)) (take (unat (q_item_size v)) bs) (r_payload m))"
    by (cases; simp add: crash_put_def put_stores_def exec_stores_def Let_def take_Cons')+
qed

lemma crash_get_fields:
  "r_state (crash_get v m k) =
     (if k = 0 then r_state m
      else (r_state m)[hd_of m := (if k < 2 then QUEUE_RESERVED_GET else QUEUE_EMPTY)])"
  "r_payload (crash_get v m k) = r_payload m"
proof -
  consider "k = 0" | "k = 1" | "k = 2" | "k = 3" | "4 \<le> k" by linarith
  then show "r_state (crash_get v m k) =
     (if k = 0 then r_state m
      else (r_state m)[hd_of m := (if k < 2 then QUEUE_RESERVED_GET else QUEUE_EMPTY)])"
    and "r_payload (crash_get v m k) = r_payload m"
    by (cases; simp add: crash_get_def get_stores_def exec_stores_def Let_def take_Cons')+
qed

lemma recover_state_simps [simp]:
  "recover_state QUEUE_EMPTY = QUEUE_EMPTY" "recover_state QUEUE_READY = QUEUE_READY"
  "recover_state QUEUE_RESERVED_PUT = QUEUE_EMPTY" "recover_state QUEUE_RESERVED_GET = QUEUE_READY"
  by (simp_all add: recover_state_def)

lemma recover_after_put:
  assumes inv: "ring_inv v m" and lin: "hd_of m + cnt m < dp v" and bs: "length bs = unat (q_item_size v)"
  shows "\<exists>m'. posixipc_queue_recover (Some v) (crash_put v m bs k) = (0, m') \<and> ring_inv v m' \<and>
           ring_list v m' = (if k < 3 then ring_list v m else ring_list v m @ [bs])"
proof -
  let ?m = "crash_put v m bs k" and ?n = "if k < 3 then cnt m else Suc (cnt m)"
  have v: "view_ok v" and m: "mem_ok v m" and t: "tl_of m = hd_of m + cnt m"
    using inv lin by (simp_all add: ring_inv_def ring_idx_def)
  have tl: "tl_of m < dp v" using t lin by simp
  have len: "length (r_state m) = dp v" using m by (simp add: mem_ok_def)
  have sd: "slot_data v ?m j = slot_data v m j" if "j < dp v" "j \<noteq> tl_of m" for j
    using slot_data_copy(2) [OF v m tl _ bs, of ?m j] that bs crash_put_fields(2) [of v m bs k]
    by (cases "k < 2") (simp_all add: slot_data_def)
  have new: "slot_data v ?m (tl_of m) = bs" if "\<not> k < 2"
    using slot_data_copy(1) [OF v m tl _ bs, of ?m] that bs by (simp add: crash_put_fields)
  have pl: "length (r_payload ?m) = length (r_payload m)"
    using slot_data_copy(3) [OF v m tl _ bs, of ?m] bs by (simp add: crash_put_fields)
  have st: "\<forall>i < dp v. recover_state (r_state ?m ! i) =
      (if hd_of m \<le> i \<and> i < hd_of m + ?n then QUEUE_READY else QUEUE_EMPTY)"
    using window_linear [OF inv less_imp_le [OF lin]] len t lin
    by (auto simp: crash_put_fields nth_list_update)
  have "mem_ok v ?m" using m pl by (simp add: mem_ok_def crash_put_fields)
  from recover_interval [OF v this _ st] lin
  have "\<exists>m'. posixipc_queue_recover (Some v) ?m = (0, m') \<and> ring_inv v m' \<and>
      ring_list v m' = map (slot_data v ?m) [hd_of m..<hd_of m + ?n]" by simp
  moreover have "map (slot_data v ?m) [hd_of m..<hd_of m + cnt m] = ring_list v m"
    using sd lin t by (simp add: ring_list_linear)
  moreover have "[hd_of m..<hd_of m + Suc (cnt m)] = [hd_of m..<hd_of m + cnt m] @ [tl_of m]" using t by simp
  ultimately show ?thesis using new by (simp split: if_splits)
qed

lemma recover_after_get:
  assumes inv: "ring_inv v m" and lin: "hd_of m + cnt m \<le> dp v" and some: "0 < cnt m"
  shows "\<exists>m'. posixipc_queue_recover (Some v) (crash_get v m k) = (0, m') \<and> ring_inv v m' \<and>
           ring_list v m' = (if k < 2 then ring_list v m else tl (ring_list v m))"
proof -
  let ?m = "crash_get v m k"
  let ?h = "if k < 2 then hd_of m else Suc (hd_of m)" and ?n = "if k < 2 then cnt m else cnt m - 1"
  have v: "view_ok v" and m: "mem_ok v m" using inv by (simp_all add: ring_inv_def)
  have len: "length (r_state m) = dp v" using m by (simp add: mem_ok_def)
  have st: "\<forall>i < dp v. recover_state (r_state ?m ! i) =
      (if ?h \<le> i \<and> i < ?h + ?n then QUEUE_READY else QUEUE_EMPTY)"
    using window_linear [OF inv lin] len some lin by (auto simp: crash_get_fields nth_list_update)
  have "mem_ok v ?m" using m by (simp add: mem_ok_def crash_get_fields)
  from recover_interval [OF v this _ st] lin some
  have "\<exists>m'. posixipc_queue_recover (Some v) ?m = (0, m') \<and> ring_inv v m' \<and>
      ring_list v m' = map (slot_data v ?m) [?h..<?h + ?n]" by (simp split: if_splits)
  moreover have "slot_data v ?m = slot_data v m" by (rule ext) (simp add: slot_data_def crash_get_fields)
  moreover have "tl [hd_of m..<hd_of m + cnt m] = [Suc (hd_of m)..<hd_of m + cnt m]"
    using some by (simp add: upt_conv_Cons)
  ultimately show ?thesis using lin some by (simp add: ring_list_linear map_tl [symmetric] split: if_splits)
qed

text \<open>What recovery guarantees from any memory, also when a slot state was overwritten with garbage.\<close>

lemma recover_any:
  assumes v: "view_ok v" and m: "mem_ok v m"
  shows "\<exists>m'. posixipc_queue_recover (Some v) m = (0, m') \<and> mem_ok v m' \<and>
    r_payload m' = r_payload m \<and> r_state m' = map recover_state (r_state m) \<and>
    cnt m' = length (filter (\<lambda>st. st = QUEUE_READY) (r_state m')) \<and>
    hd_of m' < dp v \<and> tl_of m' < dp v \<and>
    (0 < cnt m' \<longrightarrow> r_state m' ! hd_of m' = QUEUE_READY)"
proof -
  let ?m = "snd (posixipc_queue_recover (Some v) m)" and ?s = "map recover_state (r_state m)"
  have len: "length (r_state m) = dp v" using m by (simp add: mem_ok_def)
  have d: "0 < dp v" "dp v < 2 ^ 32" using view_ok_dp [OF v] unat_u32_less [of "q_depth v"] by simp_all
  have rc: "ready_count v m = length (filter (\<lambda>st. st = QUEUE_READY) ?s)"
    by (simp add: ready_count_def len filter_map o_def)
  have c: "cnt ?m = ready_count v m"
    using ready_count_le [of v m] d by (simp add: recover_step [OF v m])
  have hd: "hd_of ?m < dp v \<and> ?s ! hd_of ?m = QUEUE_READY" if "0 < ready_count v m"
  proof -
    have "\<exists>j. j < dp v \<and> ?s ! j = QUEUE_READY"
      using that len unfolding rc length_greater_0_conv filter_empty_conv
      by (metis (mono_tags, lifting) in_set_conv_nth length_map)
    then obtain j where j: "j < dp v" "?s ! j = QUEUE_READY" "\<forall>i < j. \<not> (i < dp v \<and> ?s ! i = QUEUE_READY)"
      unfolding exists_least_iff [of "\<lambda>j. j < dp v \<and> ?s ! j = QUEUE_READY"] by blast
    have "recover_head (c_head (r_ctrl m)) 0 ?s = 0 + word_of_nat j"
      using j len by (intro recover_head_first) auto
    then have "hd_of ?m = j" using that j(1) d by (simp add: recover_step [OF v m])
    with j show ?thesis by simp
  qed
  have "hd_of ?m < dp v" using hd d by (cases "ready_count v m = 0") (simp_all add: recover_step [OF v m])
  moreover have "tl_of ?m < dp v"
    using d by (simp add: recover_step [OF v m] unat_mod)
  moreover have "r_state ?m = ?s" "r_payload ?m = r_payload m" by (simp_all add: recover_step [OF v m])
  moreover obtain m' where e: "posixipc_queue_recover (Some v) m = (0, m')" by (simp add: recover_step [OF v m])
  ultimately show ?thesis using hd c rc m unfolding e by (auto simp: mem_ok_def)
qed

section \<open>Properties of the ring\<close>

text \<open>
  \<^verbatim>\<open>posixipc_queue_bytes_size\<close> is exact: it returns the number of bytes the control block,
  the states and the payload take in whole cache lines, and 0 exactly when an argument is
  zero or that number does not fit 32 bits, so no wrapped size is ever returned.
\<close>

theorem queue_bytes_size_correct:
  assumes "config_ok c"
  shows "unat (posixipc_queue_bytes_size c depth item) =
    (if depth \<noteq> 0 \<and> item \<noteq> 0 \<and> queue_size (unat (CACHELINE_BYTES c)) (unat depth) (unat item) < 2 ^ 32
     then queue_size (unat (CACHELINE_BYTES c)) (unat depth) (unat item) else 0)"
  by (rule queue_bytes_size_exact [OF assms])

theorem queue_bytes_size_correct_witness:
  "unat (posixipc_queue_bytes_size glibc_x86_64 8 100) = 64 + 64 + 8 * 128 \<and>
   unat (posixipc_queue_bytes_size glibc_x86_64 0x2000000 100) = 0"
  using queue_bytes_size_correct [OF glibc_x86_64_ok, of 8 100]
    queue_bytes_size_correct [OF glibc_x86_64_ok, of "0x2000000" 100]
  by (simp add: queue_size_def ceil_to_def glibc_x86_64_def)

text \<open>
  C39. A view that \<^verbatim>\<open>posixipc_queue_map\<close> hands out is safe to use: the control block, the state
  array and all \<^verbatim>\<open>depth\<close> payload slots lie one after the other inside the given bytes, each
  slot is large enough for an item, and the regions start at cache-line multiples of the
  base.
\<close>

theorem queue_map_regions:
  assumes "config_ok c" and "posixipc_queue_map c (Some base) nbytes depth item (Some o0) = (0, Some v)"
  shows "view_ok v \<and> q_depth v = depth \<and> q_item_size v = item \<and>
    (\<exists>st pl. q_ctrl v = Some base \<and> q_state v = Some st \<and> q_payload v = Some pl \<and>
       base + 24 \<le> st \<and> st + 4 * unat depth \<le> pl \<and>
       pl + unat depth * unat (q_stride v) \<le> base + unat nbytes \<and>
       unat (CACHELINE_BYTES c) dvd st - base \<and> unat (CACHELINE_BYTES c) dvd pl - base)"
proof -
  let ?cl = "unat (CACHELINE_BYTES c)" and ?need = "posixipc_queue_bytes_size c depth item"
  note cl = config_cacheline [OF assms(1)]
  have need: "?need \<noteq> 0" "\<not> nbytes < ?need"
    and v: "v = \<lparr>q_ctrl = Some base, q_state = Some (base + unat (ctrl_bytes c)),
          q_payload = Some (base + unat (ctrl_bytes c) + unat (state_bytes c depth)),
          q_depth = depth, q_item_size = item, q_stride = queue_align_up item (CACHELINE_BYTES c)\<rparr>"
    using assms(2) by (auto simp: posixipc_queue_map_def Let_def split: if_splits)
  have ex: "depth \<noteq> 0" "item \<noteq> 0" "queue_size ?cl (unat depth) (unat item) < 2 ^ 32"
      "unat ?need = queue_size ?cl (unat depth) (unat item)"
    using queue_bytes_size_exact [OF assms(1), of depth item] need(1) by (auto simp: unat_0_iff split: if_splits)
  have d: "1 \<le> unat depth" using ex(1) unat_gt_0 [of depth] by linarith
  have "1 * ceil_to ?cl (unat item) \<le> unat depth * ceil_to ?cl (unat item)"
    using d by (rule mult_right_mono) simp
  then have "ceil_to ?cl (4 * unat depth) < 2 ^ 32" "ceil_to ?cl (unat item) < 2 ^ 32"
    using ex(3) unfolding queue_size_def by linarith+
  then have st: "unat (state_bytes c depth) = ceil_to ?cl (4 * unat depth)"
      and sr: "unat (queue_align_up item (CACHELINE_BYTES c)) = ceil_to ?cl (unat item)"
    using state_bytes_exact [OF assms(1) ex(1)] queue_al.fits [OF cl(1), of item] ex(3)
    by (simp_all add: queue_size_def)
  have "item \<le> queue_align_up item (CACHELINE_BYTES c)"
    using sr ceil_to_ge [OF cl(2), of "unat item"] by (simp add: word_le_nat_alt)
  then show ?thesis
    using need(2) ex st sr ceil_to_ge [OF cl(2), of 24] ceil_to_ge [OF cl(2), of "4 * unat depth"]
    by (simp add: v view_ok_def ctrl_bytes_exact [OF assms(1)] word_less_nat_alt queue_size_def)
qed

theorem queue_map_regions_witness:
  "\<exists>v. posixipc_queue_map glibc_x86_64 (Some 4096) 512 2 100 (Some v) = (0, Some v) \<and> view_ok v"
proof -
  let ?v = "\<lparr>q_ctrl = Some 4096, q_state = Some 4160, q_payload = Some 4224,
             q_depth = 2, q_item_size = 100, q_stride = 128\<rparr>"
  have "posixipc_queue_map glibc_x86_64 (Some 4096) 512 2 100 (Some ?v) = (0, Some ?v)"
    by (simp add: posixipc_queue_map_def posixipc_queue_bytes_size_def ctrl_bytes_def state_bytes_def
        queue_align_up_def glibc_x86_64_def Let_def word_le_nat_alt)
  with queue_map_regions [OF glibc_x86_64_ok this] show ?thesis by blast
qed

definition demo_view :: posixipc_queue_view where
  "demo_view = \<lparr>q_ctrl = Some 0, q_state = Some 64, q_payload = Some 128,
                q_depth = 3, q_item_size = 1, q_stride = 1\<rparr>"

text \<open>Head 1 and two items, 10 and 20, in slots 1 and 2.\<close>

definition demo_ring :: ring where
  "demo_ring = \<lparr>r_ctrl = \<lparr>c_head = 1, c_tail = 0, c_count = 2, c_flags = 0, c_depth = 3, c_item_size = 1\<rparr>,
                r_state = [0, 3, 3], r_payload = [0, 10, 20]\<rparr>"

lemma demo_ring_inv: "ring_inv demo_view demo_ring"
proof -
  have "window_ok demo_view demo_ring"
    by (simp add: window_ok_def demo_view_def demo_ring_def ring_pos_def all_less_3)
  then show ?thesis
    by (simp add: ring_inv_def view_ok_def mem_ok_def demo_view_def demo_ring_def ring_idx_def)
qed

text \<open>
  C1. First in, first out: for any sequence of puts and gets on a ring that satisfies the
  invariant, the run is the run of a plain list of capacity \<^verbatim>\<open>depth\<close> (a put on a full ring and
  a get on an empty one are refused and change nothing), the items delivered followed by
  those still inside are the items there before followed by those accepted, byte for byte,
  and the invariant holds at the end.
\<close>

theorem queue_fifo:
  assumes "ring_inv v m" and "puts_ok (\<lambda>x. length x = unat (q_item_size v)) ops"
    and "run_ops (ring_put v) (ring_get v) m ops = (m', accepted, delivered)"
  shows "ring_inv v m' \<and> spec_ops (unat (q_depth v)) (ring_list v m) ops = (ring_list v m', accepted, delivered) \<and>
         ring_list v m @ accepted = delivered @ ring_list v m' \<and> length (ring_list v m') \<le> unat (q_depth v)"
  using rq.run_fifo [OF assms] rq.run_refines [OF assms(1,2)] assms(3) by simp

theorem queue_fifo_witness:
  "ring_inv demo_view (fst (run_ops (ring_put demo_view) (ring_get demo_view) demo_ring [Get, Put [30], Put [40]])) \<and>
   fst (spec_ops 3 (ring_list demo_view demo_ring) [Get, Put [30], Put [40]]) = [[20], [30], [40]]"
proof -
  have ok: "puts_ok (\<lambda>x. length x = unat (q_item_size demo_view)) [Get, Put [30], Put [40]]"
    by (simp add: demo_view_def)
  obtain m' acc del where r:
      "run_ops (ring_put demo_view) (ring_get demo_view) demo_ring [Get, Put [30], Put [40]] = (m', acc, del)"
    by (metis prod_cases3)
  have "ring_list demo_view demo_ring = [[10], [20]]"
    by (simp add: ring_list_def demo_view_def demo_ring_def ring_idx_def slot_data_def upt_rec)
  with queue_fifo [OF demo_ring_inv ok r] r show ?thesis by (simp add: demo_view_def)
qed

text \<open>
  Initialising the control block of a mapped view gives an empty ring that satisfies
  the invariant, whatever the bytes held before.
\<close>

theorem queue_init_establishes:
  assumes "view_ok v" and "mem_ok v m"
  shows "\<exists>m'. posixipc_queue_init_ctrl (Some v) m = (0, m') \<and> ring_inv v m' \<and> ring_list v m' = [] \<and>
           c_depth (r_ctrl m') = q_depth v \<and> c_item_size (r_ctrl m') = q_item_size v"
  using queue_init_inv [OF assms] assms by (auto simp: posixipc_queue_init_ctrl_def view_ok_def)

theorem queue_init_establishes_witness:
  "\<exists>m'. posixipc_queue_init_ctrl (Some demo_view) demo_ring = (0, m') \<and> ring_inv demo_view m' \<and>
        ring_list demo_view m' = []"
proof -
  have "view_ok demo_view" "mem_ok demo_view demo_ring"
    using demo_ring_inv by (simp_all add: ring_inv_def)
  from queue_init_establishes [OF this] show ?thesis by blast
qed

text \<open>
  C27. Crash safety of put: if a producer dies after any number of the stores of
  \<^verbatim>\<open>posixipc_queue_put\<close>, and the occupied slots and the new one do not wrap around the end of
  the array, recovery restores the invariant with the item either not there at all or
  completely there (from the store of READY on); no other item is lost or changed.
\<close>

theorem queue_put_crash_safe:
  assumes "ring_inv v m" and "unat (c_head (r_ctrl m)) + unat (c_count (r_ctrl m)) < unat (q_depth v)"
    and "length bs = unat (q_item_size v)"
  shows "\<exists>m'. posixipc_queue_recover (Some v) (crash_put v m bs k) = (0, m') \<and> ring_inv v m' \<and>
           ring_list v m' = (if k < 3 then ring_list v m else ring_list v m @ [bs])"
  by (rule recover_after_put [OF assms])

definition demo_ring0 :: ring where
  "demo_ring0 = \<lparr>r_ctrl = \<lparr>c_head = 0, c_tail = 2, c_count = 2, c_flags = 0, c_depth = 3, c_item_size = 1\<rparr>,
                 r_state = [3, 3, 0], r_payload = [10, 20, 0]\<rparr>"

lemma demo_ring0_inv: "ring_inv demo_view demo_ring0"
  by (simp add: ring_inv_def view_ok_def mem_ok_def window_ok_def all_less_3 demo_view_def demo_ring0_def
      ring_idx_def ring_pos_def)

theorem queue_put_crash_safe_witness:
  "\<exists>m'. posixipc_queue_recover (Some demo_view) (crash_put demo_view demo_ring0 [30] 2) = (0, m') \<and>
        ring_inv demo_view m' \<and> ring_list demo_view m' = ring_list demo_view demo_ring0"
  using queue_put_crash_safe [OF demo_ring0_inv, of "[30]" 2] by (simp add: demo_view_def demo_ring0_def)

text \<open>
  C28. Crash safety of get: if a consumer dies after any number of the stores of
  \<^verbatim>\<open>posixipc_queue_get\<close> and the occupied slots do not wrap around, recovery restores the
  invariant with the item either still at the front or removed; every other item stays.
\<close>

theorem queue_get_crash_safe:
  assumes "ring_inv v m" and "unat (c_head (r_ctrl m)) + unat (c_count (r_ctrl m)) \<le> unat (q_depth v)"
    and "c_count (r_ctrl m) \<noteq> 0"
  shows "\<exists>m'. posixipc_queue_recover (Some v) (crash_get v m k) = (0, m') \<and> ring_inv v m' \<and>
           ring_list v m' = (if k < 2 then ring_list v m else tl (ring_list v m))"
  using assms by (intro recover_after_get) (simp_all add: unat_gt_0)

theorem queue_get_crash_safe_witness:
  "\<exists>m'. posixipc_queue_recover (Some demo_view) (crash_get demo_view demo_ring 1) = (0, m') \<and>
        ring_inv demo_view m' \<and> ring_list demo_view m' = ring_list demo_view demo_ring"
  using queue_get_crash_safe [OF demo_ring_inv, of 1] by (simp add: demo_view_def demo_ring_def)

text \<open>
  Recovery from any memory, garbage states included, succeeds, leaves no reserved or
  unknown state, makes the count the number of ready slots, keeps every payload byte, and
  leaves head and tail inside the array with a ready slot at the head of a non-empty ring,
  so that later accesses stay in bounds and the next get succeeds.
\<close>

theorem queue_recover_bounds:
  assumes "view_ok v" and "mem_ok v m"
  shows "\<exists>m'. posixipc_queue_recover (Some v) m = (0, m') \<and> mem_ok v m' \<and>
    r_payload m' = r_payload m \<and> r_state m' = map recover_state (r_state m) \<and>
    unat (c_count (r_ctrl m')) = length (filter (\<lambda>st. st = QUEUE_READY) (r_state m')) \<and>
    unat (c_head (r_ctrl m')) < unat (q_depth v) \<and> unat (c_tail (r_ctrl m')) < unat (q_depth v) \<and>
    (0 < unat (c_count (r_ctrl m')) \<longrightarrow> r_state m' ! unat (c_head (r_ctrl m')) = QUEUE_READY)"
  by (rule recover_any [OF assms])

theorem queue_recover_bounds_witness:
  "\<exists>m'. posixipc_queue_recover (Some demo_view) (demo_ring\<lparr>r_state := [77, 2, 1]\<rparr>) = (0, m') \<and>
        r_state m' = [0, 3, 0] \<and> c_count (r_ctrl m') = 1"
proof -
  have "view_ok demo_view" "mem_ok demo_view (demo_ring\<lparr>r_state := [77, 2, 1]\<rparr>)"
    by (simp_all add: view_ok_def mem_ok_def demo_view_def demo_ring_def)
  from queue_recover_bounds [OF this] show ?thesis
    by (auto simp: recover_state_def word_unat_eq_iff)
qed

text \<open>Gets from a stretch of ready slots that does not reach the end of the array deliver the slots in order.\<close>

lemma drain_ready:
  assumes "view_ok v" and "mem_ok v m" and "hd_of m + n < dp v" and "n \<le> cnt m"
    and "\<forall>i. hd_of m \<le> i \<and> i < hd_of m + n \<longrightarrow> r_state m ! i = QUEUE_READY"
  shows "\<exists>m2. run_ops (ring_put v) (ring_get v) m (replicate n Get) = (m2, [], map (slot_data v m) [hd_of m..<hd_of m + n]) \<and>
           mem_ok v m2 \<and> hd_of m2 = hd_of m + n \<and> cnt m2 = cnt m - n \<and> r_state m2 ! (hd_of m + n) = r_state m ! (hd_of m + n)"
  using assms
proof (induction n arbitrary: m)
  case (Suc n)
  let ?m = "exec_stores v m (get_stores v m)"
  note r = get_stores_result [of v m]
  have h: "hd_of m < dp v" "r_state m ! hd_of m = QUEUE_READY" "0 < cnt m" using Suc.prems by auto
  have "length (slot_data v m (hd_of m)) = unat (q_item_size v)" using Suc.prems h by (intro slot_data_length)
  then have get: "ring_get v m = (0, ?m, Some (slot_data v m (hd_of m)))"
    using h Suc.prems(1) by (auto simp: ring_get_def posixipc_queue_get_def view_ok_def word_le_nat_alt Let_def copy_at_def)
  have hd: "hd_of ?m = Suc (hd_of m)"
    using h Suc.prems(3) r(3) ring_next [of "c_head (r_ctrl m)" "q_depth v"] by (simp add: word_less_nat_alt ring_idx_def)
  have c: "cnt ?m = cnt m - 1" using h r by (subst r(5), subst unat_minus_one) auto
  have sd: "slot_data v ?m = slot_data v m" by (rule ext) (simp add: slot_data_def r)
  have mo: "mem_ok v ?m" using Suc.prems(2) r by (simp add: mem_ok_def)
  have "\<exists>m2. run_ops (ring_put v) (ring_get v) ?m (replicate n Get) = (m2, [], map (slot_data v ?m) [hd_of ?m..<hd_of ?m + n]) \<and>
      mem_ok v m2 \<and> hd_of m2 = hd_of ?m + n \<and> cnt m2 = cnt ?m - n \<and> r_state m2 ! (hd_of ?m + n) = r_state ?m ! (hd_of ?m + n)"
    using Suc.prems mo hd c r(1) by (intro Suc.IH) (auto simp: nth_list_update mem_ok_def)
  moreover have "map (slot_data v m) [hd_of m..<hd_of m + Suc n] = slot_data v m (hd_of m) # map (slot_data v m) [hd_of ?m..<hd_of ?m + n]"
    unfolding hd by (simp add: upt_conv_Cons del: upt_Suc)
  ultimately show ?case
    using get sd hd c r(1) Suc.prems(2,3) by (auto simp: nth_list_update mem_ok_def simp del: upt_Suc)
qed simp

text \<open>Recovery of a ring with nothing to repair whose items wrap around: the head moves to slot 0 and nothing else changes.\<close>

lemma recover_wrapped:
  assumes inv: "ring_inv v m" and wrap: "dp v < hd_of m + cnt m"
  shows "\<exists>m1. posixipc_queue_recover (Some v) m = (0, m1) \<and> mem_ok v m1 \<and> hd_of m1 = 0 \<and> cnt m1 = cnt m \<and>
           tl_of m1 = cnt m mod dp v \<and> r_state m1 = r_state m \<and> r_payload m1 = r_payload m"
proof -
  have v: "view_ok v" and m: "mem_ok v m" and w: "window_ok v m" and le: "cnt m \<le> dp v" and h: "hd_of m < dp v"
    using inv by (simp_all add: ring_inv_def)
  have len: "length (r_state m) = dp v" using m by (simp add: mem_ok_def)
  have same: "map recover_state (r_state m) = r_state m"
    using w len by (intro nth_equalityI) (auto simp: window_ok_def)
  have "recover_state (r_state m ! i) = QUEUE_READY \<longleftrightarrow> i < hd_of m + cnt m - dp v \<or> hd_of m \<le> i" if "i < dp v" for i
  proof -
    have "r_state m ! i = (if ring_pos (dp v) (hd_of m) i < cnt m then QUEUE_READY else QUEUE_EMPTY)" using w that by (simp add: window_ok_def)
    moreover have "ring_pos (dp v) (hd_of m) i < cnt m \<longleftrightarrow> i < hd_of m + cnt m - dp v \<or> hd_of m \<le> i"
      using wrap le h that by (auto simp: ring_pos_def)
    ultimately show ?thesis by simp
  qed
  then have "{i. i < dp v \<and> recover_state (r_state m ! i) = QUEUE_READY} = {..<hd_of m + cnt m - dp v} \<union> {hd_of m..<dp v}"
    using le h by auto
  moreover have "card ({..<hd_of m + cnt m - dp v} \<union> {hd_of m..<dp v}) = cnt m"
    using le wrap h by (subst card_Un_disjoint) auto
  ultimately have rdy: "ready_count v m = cnt m" using len by (simp add: ready_count_def length_filter_conv_card)
  have "0 < dp v" using h by simp
  then have "r_state m ! 0 = QUEUE_READY" using w wrap h by (auto simp: window_ok_def ring_pos_def)
  then have "recover_head (c_head (r_ctrl m)) 0 (map recover_state (r_state m)) = 0"
    using recover_head_first [of 0 "r_state m" "c_head (r_ctrl m)" 0] len \<open>0 < dp v\<close> same by simp
  then show ?thesis
    using rdy same m wrap h by (auto simp: recover_step [OF v m] mem_ok_def unat_mod)
qed

text \<open>
  C40. The condition on wrapping in the two crash theorems is needed: recovery of any ring whose items wrap around, with nothing to
  repair, breaks it. If the ring is full the items come out rotated, the ones at the start of the array first. If it is not, the invariant is
  lost: the next gets deliver the newest items, those at the start of the array, and then a get fails with \<^verbatim>\<open>EINVAL\<close> while the
  older items, still counted, are not reachable.
\<close>

theorem queue_recover_wrapped_breaks_order:
  assumes "ring_inv v m" and "dp v < hd_of m + cnt m"
  shows "\<exists>m1. posixipc_queue_recover (Some v) m = (0, m1) \<and> c_count (r_ctrl m1) = c_count (r_ctrl m) \<and>
    (if cnt m = dp v then ring_list v m1 = rotate (dp v - hd_of m) (ring_list v m)
     else \<not> ring_inv v m1 \<and>
       (\<exists>m2. run_ops (ring_put v) (ring_get v) m1 (replicate (tl_of m) Get) = (m2, [], drop (dp v - hd_of m) (ring_list v m)) \<and>
          cnt m2 = dp v - hd_of m \<and> ring_get v m2 = (EINVAL, m2, None)))"
proof -
  have v: "view_ok v" and w: "window_ok v m" and le: "cnt m \<le> dp v" and h: "hd_of m < dp v" and t: "tl_of m = ring_idx (dp v) (hd_of m) (cnt m)"
    using assms(1) by (simp_all add: ring_inv_def)
  obtain m1 where m1: "posixipc_queue_recover (Some v) m = (0, m1)" "mem_ok v m1" "hd_of m1 = 0" "cnt m1 = cnt m" "tl_of m1 = cnt m mod dp v"
    "r_state m1 = r_state m" "r_payload m1 = r_payload m" using recover_wrapped [OF assms] by blast
  have sd: "slot_data v m1 = slot_data v m" by (rule ext) (simp add: slot_data_def m1)
  show ?thesis
  proof (cases "cnt m = dp v")
    case True
    have "ring_list v m1 = rotate (dp v - hd_of m) (ring_list v m)"
      using True h by (intro nth_equalityI) (auto simp: nth_rotate ring_list_def m1 sd ring_idx_def mod_simps)
    then show ?thesis using True m1(1,4) by (auto simp: word_unat_eq_iff)
  next
    case False
    have tl: "tl_of m = hd_of m + cnt m - dp v" "tl_of m < hd_of m" using t assms(2) False le h by (simp_all add: ring_idx_if)
    have st: "r_state m ! i = (if i < tl_of m \<or> hd_of m \<le> i then QUEUE_READY else QUEUE_EMPTY)" if "i < dp v" for i
      using w that tl assms(2) le h by (auto simp: window_ok_def ring_pos_def)
    have "\<exists>m2. run_ops (ring_put v) (ring_get v) m1 (replicate (tl_of m) Get) = (m2, [], map (slot_data v m1) [hd_of m1..<hd_of m1 + tl_of m]) \<and>
        mem_ok v m2 \<and> hd_of m2 = hd_of m1 + tl_of m \<and> cnt m2 = cnt m1 - tl_of m \<and> r_state m2 ! (hd_of m1 + tl_of m) = r_state m1 ! (hd_of m1 + tl_of m)"
      using m1 st tl h by (intro drain_ready [OF v]) auto
    then obtain m2 where m2: "run_ops (ring_put v) (ring_get v) m1 (replicate (tl_of m) Get) = (m2, [], map (slot_data v m) [0..<tl_of m])"
      "hd_of m2 = tl_of m" "cnt m2 = cnt m - tl_of m" "r_state m2 ! tl_of m = QUEUE_EMPTY" using m1 sd st tl h by auto
    have "map (slot_data v m) [0..<tl_of m] = drop (dp v - hd_of m) (ring_list v m)"
      using tl h assms(2) by (intro nth_equalityI) (auto simp: ring_list_def ring_idx_def mod_if)
    moreover have "ring_get v m2 = (EINVAL, m2, None)"
      using m2 v h tl assms(2) by (auto simp: ring_get_def posixipc_queue_get_def view_ok_def Let_def unat_0_iff [symmetric])
    moreover have "\<not> ring_inv v m1"
      using st [of "tl_of m"] tl h m1 assms(2) False by (auto simp: ring_inv_def window_ok_def ring_pos_def intro!: exI [of _ "tl_of m"])
    moreover have "cnt m - tl_of m = dp v - hd_of m" using tl h assms(2) by simp
    ultimately show ?thesis using m1(1,4) m2(1,3) False by (auto simp: word_unat_eq_iff)
  qed
qed

text \<open>Oldest item 10 in slot 2, newest item 20 in slot 0.\<close>

definition wrapped_ring :: ring where
  "wrapped_ring = \<lparr>r_ctrl = \<lparr>c_head = 2, c_tail = 1, c_count = 2, c_flags = 0, c_depth = 3, c_item_size = 1\<rparr>,
                   r_state = [3, 0, 3], r_payload = [20, 0, 10]\<rparr>"

theorem queue_recover_wrapped_breaks_order_witness:
  "\<exists>m1 m2. posixipc_queue_recover (Some demo_view) wrapped_ring = (0, m1) \<and> \<not> ring_inv demo_view m1 \<and>
     run_ops (ring_put demo_view) (ring_get demo_view) m1 [Get] = (m2, [], [[20]]) \<and> ring_get demo_view m2 = (EINVAL, m2, None)"
proof -
  have inv: "ring_inv demo_view wrapped_ring"
    by (simp add: ring_inv_def view_ok_def mem_ok_def window_ok_def all_less_3 demo_view_def wrapped_ring_def ring_idx_def ring_pos_def)
  have "ring_list demo_view wrapped_ring = [[10], [20]]"
    by (simp add: ring_list_def demo_view_def wrapped_ring_def ring_idx_def slot_data_def upt_rec)
  then show ?thesis using queue_recover_wrapped_breaks_order [OF inv]
    by (simp add: demo_view_def wrapped_ring_def) blast
qed

end
