(* ===== verification/Sys.thy ===== *)
theory Sys
  imports Complex_Main Config "HOL-Library.State_Monad" "HOL-Library.Monad_Syntax"
begin

text \<open>
  The environment of the core: the kernel, libc and the pthread library are not code of the
  repository, so what they answer is a parameter. Every call the sources make is a value of
  \<^verbatim>\<open>syscall\<close>; the environment is an arbitrary function from the calls made so far (with their
  answers) and the next call to its answer, and a world carries it together with the trace.
  Loads and stores of the shared segment that other processes observe are calls too. The
  code of the core is written in the state monad over worlds.
\<close>

section \<open>Calls\<close>

datatype clockid = CLOCK_REALTIME | CLOCK_MONOTONIC

record timespec =
  tv_sec :: int
  tv_nsec :: int

record posixipc_deadline =
  d_clk :: clockid
  d_ts :: timespec

record stat =
  st_uid :: int
  st_mode :: u32
  st_size :: int

datatype oflag = O_CREAT | O_EXCL | O_RDWR | O_CLOEXEC

type_synonym addr = nat
type_synonym fd = int

datatype pthread_call =
    Mutexattr_init | Mutexattr_settype_errorcheck | Mutexattr_setpshared | Mutexattr_setrobust
  | Mutexattr_setprotocol_inherit | Mutexattr_destroy
  | Mutex_init addr | Mutex_lock addr | Mutex_trylock addr | Mutex_unlock addr
  | Mutex_consistent addr | Mutex_destroy addr | Mutex_clocklock addr clockid timespec
  | Mutex_timedlock addr timespec

datatype rwlock_call =
    Rwlockattr_init | Rwlockattr_setpshared | Rwlockattr_destroy
  | Rwlock_init addr | Rwlock_rdlock addr | Rwlock_wrlock addr | Rwlock_tryrdlock addr
  | Rwlock_trywrlock addr | Rwlock_unlock addr | Rwlock_destroy addr
  | Rwlock_clockrdlock addr clockid timespec | Rwlock_clockwrlock addr clockid timespec
  | Rwlock_timedrdlock addr timespec | Rwlock_timedwrlock addr timespec

datatype cond_call =
    Condattr_init | Condattr_setpshared | Condattr_setclock_monotonic | Condattr_destroy
  | Cond_init addr | Cond_signal addr | Cond_broadcast addr | Cond_wait addr addr
  | Cond_timedwait addr addr timespec | Cond_destroy addr

datatype spin_barrier_call =
    Spin_init addr bool | Spin_trylock addr | Spin_unlock addr | Spin_destroy addr
  | Barrierattr_init | Barrierattr_setpshared | Barrierattr_destroy
  | Barrier_init addr nat | Barrier_wait addr | Barrier_destroy addr | Sched_yield

datatype sem_call =
    Sem_init addr bool nat | Sem_wait addr | Sem_trywait addr | Sem_post addr | Sem_destroy addr
  | Sem_clockwait addr clockid timespec | Sem_timedwait addr timespec
  | Sem_open string "oflag list" "(nat \<times> nat) option" | Sem_close addr | Sem_unlink string

datatype mq_event = Ev_signal int | Ev_thread addr addr

datatype mq_call =
    Mq_open string "oflag list" "(nat \<times> int \<times> int) option" | Mq_close int | Mq_unlink string
  | Mq_send int "u8 list" nat | Mq_timedsend int "u8 list" nat timespec
  | Mq_receive int nat | Mq_timedreceive int nat timespec
  | Mq_notify int "mq_event option" | Mq_getattr int

datatype linux_call =
    Futex_wait_bitset addr bool u32 "timespec option" | Futex_wake addr bool int
  | Eventfd nat int | Write_u64 fd u64 | Read_u64 fd
  | Memfd_create string

datatype mem_call =
    Store_header addr posixipc_shm_header | Store_directory addr "posixipc_slot list"
  | Store_state addr u32 | Load_state addr | Load_total_size addr
  | Load_header addr | Load_directory addr nat
  | Futex_word_add addr u32 | Futex_word_load addr | Futex_word_store addr u32

text \<open>A C \<^verbatim>\<open>double\<close> is a NaN, an infinity (the flag is its sign) or a rational.\<close>

datatype dbl = NaN | Inf bool | Fin rat

text \<open>
  Calls of the bindings into the interpreter. A Python object is opaque to the sources but for
  the test against \<^verbatim>\<open>None\<close>; conversions and callbacks may run Python code, so their results
  come from the environment. A negative answer means NULL or an exception set.
\<close>

datatype pyobj = Py_None | Obj addr

datatype py_call =
    Type_GetModule | Err_Occurred | CheckSignals | SaveThread | RestoreThread
  | IsTrue pyobj | AsDouble pyobj | AsUTF8 string | Callable pyobj | CallOneArg pyobj
  | GetBuffer pyobj | ReleaseBuffer pyobj | FillInfo addr nat
  | PyMem_Malloc nat | PyMem_Free addr | Tp_alloc | Capsule_New | ParseTuple string
  | BytesFromString "u8 list" | LongFrom nat | FloatFromDouble dbl | UnicodeFrom string | TuplePack
  | GetAttr string | BuildValue string | WarnUnclosed | TypeFromSpec string | AddObjectRef string
  | MemoryViewFrom | PyMem_Realloc nat | PyMem_Calloc nat nat | AsULong pyobj | AsLong pyobj | AsULongLong pyobj
  | ImportModule string | CallFunction | CallMethod string | AddIntConstant string int | CFunction_New string | AddObject string
  | CallNoArgs pyobj | GILState_Ensure | GILState_Release
  | ListAppend | ListNew nat | AsSsize pyobj | SequenceSize pyobj | SequenceItem pyobj nat
  | Module_GetState | DictNew | DictSetItem string | AddStringConstant string string | Capsule_GetPointer string

datatype syscall =
    Shm_open string "oflag list" nat | Shm_unlink string
  | Fstat fd | Ftruncate fd int | Mmap nat bool fd | Munmap addr nat | Close fd
  | Geteuid | Nanosleep timespec | Clock_gettime clockid | Malloc nat | Free "addr option" | Dlsym string
  | Mutex pthread_call | Rwlock rwlock_call | Cond cond_call | SpinBarrier spin_barrier_call
  | Sem sem_call | Mq mq_call | Linux linux_call | Mem mem_call | Py py_call

text \<open>
  An answer: the return value (a pointer is \<open>\<ge> 0\<close>, \<^verbatim>\<open>MAP_FAILED\<close>, \<^verbatim>\<open>SEM_FAILED\<close> and a NULL result
  are negative), the value of \<^verbatim>\<open>errno\<close> after the call and the data the call writes.
\<close>

record answer =
  a_ret :: int
  a_errno :: rc
  a_stat :: stat
  a_ts :: timespec
  a_word :: u32
  a_u64 :: u64
  a_hdr :: posixipc_shm_header
  a_dir :: "posixipc_slot list"
  a_bytes :: "u8 list"
  a_dbl :: dbl

type_synonym history = "(syscall \<times> answer) list"

record world =
  env :: "history \<Rightarrow> syscall \<Rightarrow> answer"
  trace :: history

type_synonym 'a io = "(world, 'a) state"

section \<open>One call\<close>

definition answer_to :: "world \<Rightarrow> syscall \<Rightarrow> answer" where
  "answer_to w c = env w (trace w) c"

definition after :: "world \<Rightarrow> syscall \<Rightarrow> world" where
  "after w c = w\<lparr>trace := trace w @ [(c, answer_to w c)]\<rparr>"

definition call :: "syscall \<Rightarrow> answer io" where
  "call c = State (\<lambda>w. (answer_to w c, after w c))"

definition ret :: "'a \<Rightarrow> 'a io" where
  "ret x = State_Monad.return x"

text \<open>A call whose result the code ignores, and a call that returns its own error code.\<close>

definition call_ignore :: "syscall \<Rightarrow> unit io" where
  "call_ignore c = do { _ \<leftarrow> call c; ret () }"

definition call_rc :: "syscall \<Rightarrow> rc io" where
  "call_rc c = do { a \<leftarrow> call c; ret (a_ret a) }"

text \<open>The idiom \<^verbatim>\<open>if (f(...) != 0) return errno; return 0;\<close>.\<close>

definition call_errno :: "syscall \<Rightarrow> rc io" where
  "call_errno c = do { a \<leftarrow> call c; ret (if a_ret a \<noteq> 0 then a_errno a else 0) }"

definition run :: "'a io \<Rightarrow> world \<Rightarrow> 'a \<times> world" where
  "run m w = State_Monad.run_state m w"

lemma run_ret [io_simps]: "run (ret x) w = (x, w)"
  by (simp add: run_def ret_def State_Monad.return_def)

lemma run_call [io_simps]: "run (call c) w = (answer_to w c, after w c)"
  by (simp add: run_def call_def)

lemma run_bind [io_simps]: "run (m \<bind> f) w = (case run m w of (a, w') \<Rightarrow> run (f a) w')"
  by (simp add: run_def State_Monad.bind_def)

lemma run_if [io_simps]: "run (if b then m else m') w = (if b then run m w else run m' w)"
  by simp

lemma run_option [io_simps]:
  "run (case x of None \<Rightarrow> m | Some y \<Rightarrow> f y) w = (case x of None \<Rightarrow> run m w | Some y \<Rightarrow> run (f y) w)"
  by (cases x) simp_all

lemma run_Let [io_simps]: "run (Let x f) w = run (f x) w"
  by simp

lemma run_call_ignore [io_simps]: "run (call_ignore c) w = ((), after w c)"
  by (simp add: call_ignore_def io_simps)

lemma run_call_rc [io_simps]: "run (call_rc c) w = (a_ret (answer_to w c), after w c)"
  by (simp add: call_rc_def io_simps)

lemma run_call_errno [io_simps]:
  "run (call_errno c) w =
     (if a_ret (answer_to w c) \<noteq> 0 then a_errno (answer_to w c) else 0, after w c)"
  by (simp add: call_errno_def io_simps)

lemma env_after [simp]: "env (after w c) = env w"
  by (simp add: after_def)

lemma trace_after [simp]: "trace (after w c) = trace w @ [(c, answer_to w c)]"
  by (simp add: after_def)

section \<open>What calls hold\<close>

text \<open>
  Descriptors and mappings a run holds, as balances over the trace: an open that succeeds
  adds one, a close (whatever it answers: Linux releases the descriptor) takes one away;
  likewise for mappings of a given address and length.
\<close>

primrec fd_delta :: "fd \<Rightarrow> syscall \<Rightarrow> int \<Rightarrow> int" where
  "fd_delta f (Shm_open n fl m) r = (if 0 \<le> r \<and> r = f then 1 else 0)"
| "fd_delta f (Shm_unlink n) r = 0"
| "fd_delta f (Fstat g) r = 0"
| "fd_delta f (Ftruncate g n) r = 0"
| "fd_delta f (Mmap n p g) r = 0"
| "fd_delta f (Munmap a n) r = 0"
| "fd_delta f (Close g) r = (if g = f then - 1 else 0)"
| "fd_delta f Geteuid r = 0"
| "fd_delta f (Nanosleep t) r = 0"
| "fd_delta f (Clock_gettime c) r = 0"
| "fd_delta f (Malloc n) r = 0"
| "fd_delta f (Free a) r = 0"
| "fd_delta f (Dlsym s) r = 0"
| "fd_delta f (Mutex c) r = 0"
| "fd_delta f (Rwlock c) r = 0"
| "fd_delta f (Cond c) r = 0"
| "fd_delta f (SpinBarrier c) r = 0"
| "fd_delta f (Sem c) r = 0"
| "fd_delta f (Mq c) r = 0"
| "fd_delta f (Linux c) r =
     (case c of Eventfd _ _ \<Rightarrow> if 0 \<le> r \<and> r = f then 1 else 0
              | Memfd_create _ \<Rightarrow> if 0 \<le> r \<and> r = f then 1 else 0
              | _ \<Rightarrow> 0)"
| "fd_delta f (Mem c) r = 0"
| "fd_delta f (Py c) r = 0"

definition map_delta :: "addr \<Rightarrow> nat \<Rightarrow> syscall \<Rightarrow> int \<Rightarrow> int" where
  "map_delta a n c r =
     (case c of Mmap n' _ _ \<Rightarrow> if 0 \<le> r \<and> r = int a \<and> n' = n then 1 else 0
              | Munmap a' n' \<Rightarrow> if a' = a \<and> n' = n then - 1 else 0
              | _ \<Rightarrow> 0)"

definition fds :: "world \<Rightarrow> fd \<Rightarrow> int" where
  "fds w f = sum_list (map (\<lambda>(c, a). fd_delta f c (a_ret a)) (trace w))"

definition maps :: "world \<Rightarrow> addr \<Rightarrow> nat \<Rightarrow> int" where
  "maps w p n = sum_list (map (\<lambda>(c, a). map_delta p n c (a_ret a)) (trace w))"

lemma fds_after [simp]: "fds (after w c) f = fds w f + fd_delta f c (a_ret (answer_to w c))"
  by (simp add: fds_def)

lemma maps_after [simp]: "maps (after w c) p n = maps w p n + map_delta p n c (a_ret (answer_to w c))"
  by (simp add: maps_def)

section \<open>What the code relies on\<close>

text \<open>
  Documented behaviour of the environment, used as a named hypothesis where a result depends
  on it: a failing call returns a negative value and leaves a positive \<^verbatim>\<open>errno\<close>, and the
  calls that return only success or failure return 0 or a negative value.
\<close>

fun zero_or_fails :: "syscall \<Rightarrow> bool" where
  "zero_or_fails (Shm_unlink n) = True"
| "zero_or_fails (Fstat f) = True"
| "zero_or_fails (Ftruncate f n) = True"
| "zero_or_fails (Munmap a n) = True"
| "zero_or_fails (Close f) = True"
| "zero_or_fails (Nanosleep t) = True"
| "zero_or_fails (Clock_gettime c) = True"
| "zero_or_fails (Sem (Sem_open n fl m)) = False"
| "zero_or_fails (Sem c) = True"
| "zero_or_fails c = False"

definition errno_set :: "world \<Rightarrow> bool" where
  "errno_set w \<longleftrightarrow> (\<forall>h c. (a_ret (env w h c) < 0 \<longrightarrow> 0 < a_errno (env w h c)) \<and>
                         (zero_or_fails c \<longrightarrow> a_ret (env w h c) \<le> 0))"

lemma errno_setD: "errno_set w \<Longrightarrow> a_ret (answer_to w c) < 0 \<Longrightarrow> 0 < a_errno (answer_to w c)"
  by (simp add: errno_set_def answer_to_def)

lemma errno_set_zeroD:
  "errno_set w \<Longrightarrow> zero_or_fails c \<Longrightarrow> a_ret (answer_to w c) \<noteq> 0 \<Longrightarrow> 0 < a_errno (answer_to w c)"
  unfolding errno_set_def answer_to_def by (metis order_le_less)

lemma errno_set_after [simp]: "errno_set (after w c) = errno_set w"
  by (simp add: errno_set_def)

section \<open>Code that holds nothing\<close>

text \<open>
  A computation is neutral if it leaves the balances of all descriptors and mappings as
  they were, whatever the environment answers. The rules are closed under the monad.
\<close>

definition neutral :: "'a io \<Rightarrow> bool" where
  "neutral m \<longleftrightarrow> (\<forall>w. fds (snd (run m w)) = fds w \<and> maps (snd (run m w)) = maps w \<and> env (snd (run m w)) = env w)"

lemma neutralD:
  assumes "neutral m" and "run m w = (r, w')"
  shows "fds w' = fds w" and "maps w' = maps w" and "env w' = env w"
  using assms unfolding neutral_def by (metis snd_conv)+

lemma neutral_ret: "neutral (ret x)"
  by (simp add: neutral_def io_simps)

lemma neutral_bind: "neutral m \<Longrightarrow> (\<And>x. neutral (f x)) \<Longrightarrow> neutral (m \<bind> f)"
  by (simp add: neutral_def io_simps split: prod.splits) (metis snd_conv)

lemma neutral_if: "neutral m \<Longrightarrow> neutral m' \<Longrightarrow> neutral (if b then m else m')"
  by simp

lemma neutral_let: "neutral (f x) \<Longrightarrow> neutral (Let x f)"
  by simp

lemma neutral_option: "neutral m \<Longrightarrow> (\<And>y. neutral (f y)) \<Longrightarrow> neutral (case x of None \<Rightarrow> m | Some y \<Rightarrow> f y)"
  by (cases x) simp_all

lemma neutral_prod: "(\<And>a b. neutral (f a b)) \<Longrightarrow> neutral (case p of (a, b) \<Rightarrow> f a b)"
  by (cases p) simp

definition holds_nothing :: "syscall \<Rightarrow> bool" where
  "holds_nothing c \<longleftrightarrow> (\<forall>r f. fd_delta f c r = 0) \<and> (\<forall>r a n. map_delta a n c r = 0)"

lemma neutral_call: "holds_nothing c \<Longrightarrow> neutral (call c)"
  by (simp add: neutral_def holds_nothing_def io_simps fun_eq_iff)

lemma neutral_call_ignore: "holds_nothing c \<Longrightarrow> neutral (call_ignore c)"
  by (simp add: neutral_def holds_nothing_def io_simps fun_eq_iff)

lemma holds_nothing_simps [simp]:
  "holds_nothing (Fstat f)" "holds_nothing (Ftruncate f n)" "holds_nothing Geteuid"
  "holds_nothing (Nanosleep t)" "holds_nothing (Clock_gettime c)" "holds_nothing (Malloc k)"
  "holds_nothing (Free a)" "holds_nothing (Dlsym s)" "holds_nothing (Shm_unlink n')"
  "holds_nothing (Mutex mc)" "holds_nothing (Rwlock rc)" "holds_nothing (Cond cc)"
  "holds_nothing (SpinBarrier sc)" "holds_nothing (Sem sm)" "holds_nothing (Mq mq)" "holds_nothing (Mem me)"
  "holds_nothing (Py py)"
  by (simp_all add: holds_nothing_def map_delta_def)

lemmas neutral_rules = neutral_ret neutral_bind neutral_if neutral_let neutral_option neutral_prod
  neutral_call neutral_call_ignore holds_nothing_simps

section \<open>Which calls a computation makes\<close>

text \<open>Every call a computation adds to the trace satisfies \<open>Q\<close>; again closed under the monad.\<close>

definition only :: "(syscall \<Rightarrow> bool) \<Rightarrow> 'a io \<Rightarrow> bool" where
  "only Q m \<longleftrightarrow> (\<forall>w. \<exists>t. trace (snd (run m w)) = trace w @ t \<and> (\<forall>x \<in> set t. Q (fst x)))"

lemma only_ret: "only Q (ret x)"
  by (simp add: only_def io_simps)

lemma only_call: "Q c \<Longrightarrow> only Q (call c)"
  by (simp add: only_def io_simps)

lemma only_call_ignore: "Q c \<Longrightarrow> only Q (call_ignore c)"
  by (simp add: only_def io_simps)

lemma only_bind:
  assumes m: "only Q m" and f: "\<And>x. only Q (f x)"
  shows "only Q (m \<bind> f)"
  unfolding only_def
proof
  fix w
  obtain x w1 where r: "run m w = (x, w1)" by fastforce
  obtain t1 where t1: "trace w1 = trace w @ t1" "\<forall>y \<in> set t1. Q (fst y)" using m r unfolding only_def by (metis snd_conv)
  obtain t2 where t2: "trace (snd (run (f x) w1)) = trace w1 @ t2" "\<forall>y \<in> set t2. Q (fst y)"
    using f [of x] unfolding only_def by blast
  show "\<exists>t. trace (snd (run (m \<bind> f) w)) = trace w @ t \<and> (\<forall>x\<in>set t. Q (fst x))"
    using t1 t2 r by (intro exI [of _ "t1 @ t2"]) (auto simp: run_bind)
qed

lemma only_if: "only Q m \<Longrightarrow> only Q m' \<Longrightarrow> only Q (if b then m else m')"
  by simp

lemma only_let: "only Q (f x) \<Longrightarrow> only Q (Let x f)"
  by simp

lemma only_option: "only Q m \<Longrightarrow> (\<And>y. only Q (f y)) \<Longrightarrow> only Q (case x of None \<Rightarrow> m | Some y \<Rightarrow> f y)"
  by (cases x) simp_all

lemma only_prod: "(\<And>a b. only Q (f a b)) \<Longrightarrow> only Q (case p of (a, b) \<Rightarrow> f a b)"
  by (cases p) simp

lemmas only_rules = only_ret only_bind only_if only_let only_option only_prod only_call only_call_ignore

lemma only_run: "only Q m \<Longrightarrow> run m w = (r, w') \<Longrightarrow> \<exists>t. trace w' = trace w @ t \<and> (\<forall>x \<in> set t. Q (fst x))"
  unfolding only_def by (metis snd_conv)

end
