(* ===== verification/Time.thy ===== *)
theory Time
  imports Sys Complex_Main
begin

text \<open>
  Deadlines (\<^verbatim>\<open>src/src/core/posixipc_time.c\<close>). A C \<^verbatim>\<open>double\<close> is a NaN, an infinity or a rational;
  the rounding of a floating-point product is a parameter, since it depends on the rounding
  mode of the thread. A conversion of a double outside the range of \<^verbatim>\<open>time_t\<close> is undefined in
  C: the model returns \<^const>\<open>None\<close> for it.
\<close>

definition dbl_neg :: "dbl \<Rightarrow> bool" where
  "dbl_neg x = (case x of NaN \<Rightarrow> False | Inf neg \<Rightarrow> neg | Fin q \<Rightarrow> q < 0)"

definition trunc_to_zero :: "rat \<Rightarrow> int" where
  "trunc_to_zero q = (if 0 \<le> q then \<lfloor>q\<rfloor> else \<lceil>q\<rceil>)"

definition to_time_t :: "dbl \<Rightarrow> int option" where
  "to_time_t x = (case x of Fin q \<Rightarrow>
       if - (2 ^ 63) \<le> trunc_to_zero q \<and> trunc_to_zero q < 2 ^ 63 then Some (trunc_to_zero q) else None
     | _ \<Rightarrow> None)"

definition posixipc_now :: "clockid \<Rightarrow> timespec option \<Rightarrow> (rc \<times> timespec option) io" where
  "posixipc_now clk out =
     (case out of None \<Rightarrow> ret (EINVAL, out) | Some _ \<Rightarrow> do {
        a \<leftarrow> call (Clock_gettime clk);
        if a_ret a \<noteq> 0 then ret (a_errno a, out)
        else ret (0, Some (a_ts a)) })"

text \<open>\<open>fl\<close> rounds the exact product; the difference \<^verbatim>\<open>seconds - (double)add\<close> is exact.\<close>

definition add_seconds :: "(rat \<Rightarrow> rat) \<Rightarrow> timespec \<Rightarrow> dbl \<Rightarrow> (rc \<times> timespec) option" where
  "add_seconds fl ts seconds =
     (case to_time_t seconds of None \<Rightarrow> None | Some add0 \<Rightarrow>
      case seconds of Fin q \<Rightarrow>
        (let frac = q - of_int add0;
             frac = (if frac < 0 then 0 else frac);
             nsec = trunc_to_zero (fl (frac * 1000000000));
             add1 = (if add0 > 100000000 then 100000000 else add0);
             ts1 = ts\<lparr>tv_sec := tv_sec ts + add1, tv_nsec := tv_nsec ts + nsec\<rparr>;
             ts2 = (if tv_nsec ts1 \<ge> 1000000000
                    then ts1\<lparr>tv_sec := tv_sec ts1 + 1, tv_nsec := tv_nsec ts1 - 1000000000\<rparr>
                    else ts1)
         in Some (0, ts2))
      | _ \<Rightarrow> None)"

definition posixipc_deadline_from_seconds ::
    "(rat \<Rightarrow> rat) \<Rightarrow> clockid \<Rightarrow> dbl \<Rightarrow> posixipc_deadline option \<Rightarrow>
     (rc \<times> posixipc_deadline option) option io" where
  "posixipc_deadline_from_seconds fl clk seconds out =
     (case out of None \<Rightarrow> ret (Some (EINVAL, out)) | Some d \<Rightarrow>
      if seconds = NaN \<or> dbl_neg seconds then ret (Some (EINVAL, out))
      else do {
        (rc, ts) \<leftarrow> posixipc_now clk (Some (d_ts d));
        if rc \<noteq> 0 then ret (Some (rc, out))
        else ret (case add_seconds fl (the ts) seconds of
                    None \<Rightarrow> None
                  | Some (rc, ts') \<Rightarrow> Some (rc, Some \<lparr>d_clk = clk, d_ts = ts'\<rparr>)) })"

definition posixipc_deadline_min :: "posixipc_deadline \<Rightarrow> posixipc_deadline \<Rightarrow> posixipc_deadline" where
  "posixipc_deadline_min a b =
     (if d_clk a \<noteq> d_clk b then a
      else if tv_sec (d_ts b) < tv_sec (d_ts a) \<or>
              (tv_sec (d_ts b) = tv_sec (d_ts a) \<and> tv_nsec (d_ts b) < tv_nsec (d_ts a)) then b
      else a)"

definition ts_zero :: timespec where
  "ts_zero = \<lparr>tv_sec = 0, tv_nsec = 0\<rparr>"

definition posixipc_deadline_expired :: "posixipc_deadline option \<Rightarrow> bool io" where
  "posixipc_deadline_expired dp =
     (case dp of None \<Rightarrow> ret False | Some d \<Rightarrow> do {
        (rc, now) \<leftarrow> posixipc_now (d_clk d) (Some ts_zero);
        if rc \<noteq> 0 then ret True
        else if tv_sec (the now) > tv_sec (d_ts d) then ret True
        else if tv_sec (the now) < tv_sec (d_ts d) then ret False
        else ret (tv_nsec (the now) \<ge> tv_nsec (d_ts d)) })"

section \<open>Order on time stamps\<close>

text \<open>A normalised time stamp as a number of nanoseconds.\<close>

definition ts_ns :: "timespec \<Rightarrow> int" where
  "ts_ns t = tv_sec t * 1000000000 + tv_nsec t"

definition ts_norm :: "timespec \<Rightarrow> bool" where
  "ts_norm t \<longleftrightarrow> 0 \<le> tv_nsec t \<and> tv_nsec t < 1000000000"

lemma ts_ns_less:
  assumes "ts_norm s" and "ts_norm t"
  shows "(ts_ns s < ts_ns t) = (tv_sec s < tv_sec t \<or> (tv_sec s = tv_sec t \<and> tv_nsec s < tv_nsec t))"
proof -
  have "tv_sec s < tv_sec t \<Longrightarrow> (tv_sec s + 1) * 1000000000 \<le> tv_sec t * 1000000000"
    and "tv_sec t < tv_sec s \<Longrightarrow> (tv_sec t + 1) * 1000000000 \<le> tv_sec s * 1000000000" by simp_all
  then show ?thesis
    using assms unfolding ts_ns_def ts_norm_def by (cases "tv_sec s" "tv_sec t" rule: linorder_cases) auto
qed

lemma run_now [io_simps]:
  "run (posixipc_now clk (Some t)) w =
     ((if a_ret (answer_to w (Clock_gettime clk)) \<noteq> 0
       then (a_errno (answer_to w (Clock_gettime clk)), Some t)
       else (0, Some (a_ts (answer_to w (Clock_gettime clk))))), after w (Clock_gettime clk))"
  by (simp add: posixipc_now_def io_simps)

lemma run_expired_None [io_simps]: "run (posixipc_deadline_expired None) w = (False, w)"
  by (simp add: posixipc_deadline_expired_def io_simps)

lemma run_expired [io_simps]:
  "run (posixipc_deadline_expired (Some d)) w =
     (let a = answer_to w (Clock_gettime (d_clk d)) in
      (if a_ret a \<noteq> 0 \<and> a_errno a \<noteq> 0 then True
       else if a_ret a \<noteq> 0 then tv_sec (d_ts d) < 0 \<or> (tv_sec (d_ts d) = 0 \<and> tv_nsec (d_ts d) \<le> 0)
       else tv_sec (a_ts a) > tv_sec (d_ts d) \<or>
            (tv_sec (a_ts a) = tv_sec (d_ts d) \<and> tv_nsec (a_ts a) \<ge> tv_nsec (d_ts d))),
      after w (Clock_gettime (d_clk d)))"
  by (auto simp: posixipc_deadline_expired_def io_simps ts_zero_def Let_def)

section \<open>Properties\<close>

text \<open>
  What is assumed of the rounding, in every rounding mode: it is monotone and leaves the
  integers up to \<open>2 ^ 53\<close> alone.
\<close>

definition rounding_ok :: "(rat \<Rightarrow> rat) \<Rightarrow> bool" where
  "rounding_ok fl \<longleftrightarrow> mono fl \<and> (\<forall>n :: int. \<bar>n\<bar> \<le> 2 ^ 53 \<longrightarrow> fl (of_int n) = of_int n)"

lemma rounding_range:
  assumes "rounding_ok fl" and "0 \<le> x" and "x < 1"
  shows "0 \<le> trunc_to_zero (fl (x * 1000000000)) \<and> trunc_to_zero (fl (x * 1000000000)) \<le> 1000000000"
proof -
  have m: "mono fl" and e: "\<And>n :: int. \<bar>n\<bar> \<le> 2 ^ 53 \<Longrightarrow> fl (of_int n) = of_int n"
    using assms(1) by (simp_all add: rounding_ok_def)
  have i: "fl (of_int 0) = of_int 0" "fl (of_int 1000000000) = of_int 1000000000"
    by (rule e; simp)+
  have "fl 0 \<le> fl (x * 1000000000)" "fl (x * 1000000000) \<le> fl 1000000000"
    using assms(2,3) by (auto intro!: monoD [OF m])
  then have "0 \<le> fl (x * 1000000000)" "fl (x * 1000000000) \<le> 1000000000" using i by simp_all
  then show ?thesis by (simp add: trunc_to_zero_def floor_le_iff)
qed

lemma add_seconds_finite:
  assumes fl: "rounding_ok fl" and q: "0 \<le> q" "q < 2 ^ 63" and ts: "ts_norm ts"
  shows "\<exists>ts' n. add_seconds fl ts (Fin q) = Some (0, ts') \<and> ts_norm ts' \<and>
           0 \<le> n \<and> n \<le> 1000000000 \<and> ts_ns ts' = ts_ns ts + min \<lfloor>q\<rfloor> 100000000 * 1000000000 + n"
proof -
  let ?n = "trunc_to_zero (fl ((q - of_int \<lfloor>q\<rfloor>) * 1000000000))"
  have f: "0 \<le> \<lfloor>q\<rfloor>" "\<lfloor>q\<rfloor> < 2 ^ 63" using q by (auto simp: floor_less_iff)
  then have t: "to_time_t (Fin q) = Some \<lfloor>q\<rfloor>" using q by (simp add: to_time_t_def trunc_to_zero_def)
  have r: "0 \<le> q - of_int \<lfloor>q\<rfloor>" "q - of_int \<lfloor>q\<rfloor> < 1" by linarith+
  note n = rounding_range [OF fl r]
  have nn: "\<not> q - of_int \<lfloor>q\<rfloor> < 0" using r(1) by linarith
  let ?ts' = "snd (the (add_seconds fl ts (Fin q)))"
  have "add_seconds fl ts (Fin q) = Some (0, ?ts')" by (simp add: add_seconds_def t Let_def)
  moreover have "ts_norm ?ts' \<and> ts_ns ?ts' = ts_ns ts + min \<lfloor>q\<rfloor> 100000000 * 1000000000 + ?n"
    using n ts nn by (auto simp: add_seconds_def t Let_def ts_norm_def ts_ns_def min_def)
  ultimately show ?thesis using n by blast
qed

text \<open>
  A timeout of \<open>q\<close> seconds that fits \<^verbatim>\<open>time_t\<close> gives a deadline on the requested clock that
  is normalised and lies \<open>\<lfloor>q\<rfloor>\<close> seconds (at most 100000000) and a fraction of at most one second
  after the time read; a NaN or negative timeout is refused without reading the clock.
\<close>

theorem deadline_from_seconds_correct:
  assumes "rounding_ok fl" and "a_ret (answer_to w (Clock_gettime clk)) = 0"
    and "ts_norm (a_ts (answer_to w (Clock_gettime clk)))" and "0 \<le> q" and "q < 2 ^ 63"
  shows "\<exists>d n. run (posixipc_deadline_from_seconds fl clk (Fin q) (Some d0)) w =
             (Some (0, Some d), after w (Clock_gettime clk)) \<and>
           d_clk d = clk \<and> ts_norm (d_ts d) \<and> 0 \<le> n \<and> n \<le> 1000000000 \<and>
           ts_ns (d_ts d) = ts_ns (a_ts (answer_to w (Clock_gettime clk))) +
             min \<lfloor>q\<rfloor> 100000000 * 1000000000 + n \<and>
           run (posixipc_deadline_from_seconds fl clk NaN (Some d0)) w = (Some (EINVAL, Some d0), w)"
proof -
  let ?t = "a_ts (answer_to w (Clock_gettime clk))"
  obtain ts' n where a: "add_seconds fl ?t (Fin q) = Some (0, ts')" "ts_norm ts'" "0 \<le> n" "n \<le> 1000000000"
      "ts_ns ts' = ts_ns ?t + min \<lfloor>q\<rfloor> 100000000 * 1000000000 + n"
    using add_seconds_finite [OF assms(1,4,5,3)] by blast
  then have "run (posixipc_deadline_from_seconds fl clk (Fin q) (Some d0)) w =
      (Some (0, Some \<lparr>d_clk = clk, d_ts = ts'\<rparr>), after w (Clock_gettime clk))"
    using assms(2,4) by (simp add: posixipc_deadline_from_seconds_def io_simps dbl_neg_def)
  moreover have "run (posixipc_deadline_from_seconds fl clk NaN (Some d0)) w = (Some (EINVAL, Some d0), w)"
    by (simp add: posixipc_deadline_from_seconds_def io_simps)
  ultimately show ?thesis using a by (intro exI [of _ "\<lparr>d_clk = clk, d_ts = ts'\<rparr>"] exI [of _ n]) simp
qed

definition answer0 :: answer where
  "answer0 = \<lparr>a_ret = 0, a_errno = 0, a_stat = \<lparr>st_uid = 0, st_mode = 0x180, st_size = 0\<rparr>,
     a_ts = \<lparr>tv_sec = 100, tv_nsec = 999999999\<rparr>, a_word = 0, a_u64 = 0,
     a_hdr = \<lparr>h_magic = 0, h_layout_version = 0, h_slot_count = 0, h_abi_tag = 0, h_flags = 0, h_total_size = 0,
              h_directory_bytes = 0, h_state = 0, h_layout_digest = 0\<rparr>,
     a_dir = [], a_bytes = [], a_dbl = Fin 0\<rparr>"

definition calm_world :: world where
  "calm_world = \<lparr>env = \<lambda>h c. answer0, trace = []\<rparr>"

lemma rounding_id: "rounding_ok (\<lambda>x. x)"
  by (simp add: rounding_ok_def mono_def)

theorem deadline_from_seconds_correct_witness:
  "\<exists>d n. run (posixipc_deadline_from_seconds (\<lambda>x. x) CLOCK_MONOTONIC (Fin (3 / 2)) (Some
            \<lparr>d_clk = CLOCK_REALTIME, d_ts = ts_zero\<rparr>)) calm_world =
        (Some (0, Some d), after calm_world (Clock_gettime CLOCK_MONOTONIC)) \<and> ts_norm (d_ts d) \<and>
        ts_ns (d_ts d) = 101999999999 + n \<and> 0 \<le> n \<and> n \<le> 1000000000"
proof -
  have a: "answer_to calm_world c = answer0" for c by (simp add: answer_to_def calm_world_def)
  have f: "\<lfloor>3 / 2 :: rat\<rfloor> = 1" by (simp add: floor_eq_iff)
  have "a_ret (answer_to calm_world (Clock_gettime CLOCK_MONOTONIC)) = 0"
    "ts_norm (a_ts (answer_to calm_world (Clock_gettime CLOCK_MONOTONIC)))"
    by (simp_all add: a answer0_def ts_norm_def)
  from deadline_from_seconds_correct [OF rounding_id this, of "3 / 2" "\<lparr>d_clk = CLOCK_REALTIME, d_ts = ts_zero\<rparr>"]
  show ?thesis by (auto simp: f a answer0_def ts_ns_def)
qed

text \<open>
  A timeout of infinity, or of \<open>2 ^ 63\<close> seconds and more, reaches the conversion to
  \<^verbatim>\<open>time_t\<close> before the limit of 100000000 seconds is applied, so the behaviour of the call is
  undefined although the limit was meant to cover it.
\<close>

theorem deadline_from_seconds_huge_undefined:
  assumes "a_ret (answer_to w (Clock_gettime clk)) = 0" and "2 ^ 63 \<le> q"
  shows "fst (run (posixipc_deadline_from_seconds fl clk (Inf False) (Some d0)) w) = None \<and>
         fst (run (posixipc_deadline_from_seconds fl clk (Fin q) (Some d0)) w) = None"
proof -
  have "2 ^ 63 \<le> \<lfloor>q\<rfloor>" using assms(2) by (simp add: le_floor_iff)
  moreover have "0 \<le> q" using assms(2) by (rule order_trans [rotated]) simp
  ultimately show ?thesis using assms(1)
    by (simp add: posixipc_deadline_from_seconds_def io_simps dbl_neg_def add_seconds_def to_time_t_def
        trunc_to_zero_def)
qed

theorem deadline_from_seconds_huge_undefined_witness:
  "fst (run (posixipc_deadline_from_seconds (\<lambda>x. x) CLOCK_MONOTONIC (Inf False) (Some
       \<lparr>d_clk = CLOCK_REALTIME, d_ts = ts_zero\<rparr>)) calm_world) = None"
  using deadline_from_seconds_huge_undefined [of calm_world CLOCK_MONOTONIC "2 ^ 63" "\<lambda>x. x"]
  by (simp add: answer_to_def calm_world_def answer0_def)

text \<open>
  \<^verbatim>\<open>posixipc_deadline_min\<close> returns one of its arguments, the earlier one when both are on
  the same clock; \<^verbatim>\<open>posixipc_deadline_expired\<close> says yes exactly when the clock read is at or
  past the deadline (and when the clock cannot be read).
\<close>

theorem deadline_order:
  assumes "d_clk a = d_clk b" and "ts_norm (d_ts a)" and "ts_norm (d_ts b)"
    and "ts_norm (a_ts (answer_to w (Clock_gettime (d_clk a))))" and "errno_set w"
  shows "posixipc_deadline_min a b \<in> {a, b} \<and>
         ts_ns (d_ts (posixipc_deadline_min a b)) = min (ts_ns (d_ts a)) (ts_ns (d_ts b)) \<and>
         fst (run (posixipc_deadline_expired (Some a)) w) =
           (a_ret (answer_to w (Clock_gettime (d_clk a))) \<noteq> 0 \<or>
            ts_ns (d_ts a) \<le> ts_ns (a_ts (answer_to w (Clock_gettime (d_clk a)))))"
proof -
  have "posixipc_deadline_min a b = (if ts_ns (d_ts b) < ts_ns (d_ts a) then b else a)"
    using assms(1) by (simp add: posixipc_deadline_min_def ts_ns_less [OF assms(3,2)])
  moreover have "a_ret (answer_to w (Clock_gettime (d_clk a))) \<noteq> 0 \<Longrightarrow>
      a_errno (answer_to w (Clock_gettime (d_clk a))) \<noteq> 0"
    using errno_set_zeroD [OF assms(5), of "Clock_gettime (d_clk a)"] by simp
  ultimately show ?thesis
    using ts_ns_less [OF assms(4,2)] by (auto simp: io_simps Let_def not_less [symmetric])
qed

theorem deadline_order_witness:
  "fst (run (posixipc_deadline_expired (Some \<lparr>d_clk = CLOCK_REALTIME, d_ts = ts_zero\<rparr>)) calm_world)"
proof -
  have a: "answer_to calm_world c = answer0" for c by (simp add: answer_to_def calm_world_def)
  have "errno_set calm_world" by (simp add: errno_set_def calm_world_def answer0_def)
  with deadline_order [of "\<lparr>d_clk = CLOCK_REALTIME, d_ts = ts_zero\<rparr>" "\<lparr>d_clk = CLOCK_REALTIME, d_ts = ts_zero\<rparr>"
      calm_world]
  show ?thesis by (simp add: a answer0_def ts_norm_def ts_zero_def ts_ns_def)
qed

end
