(* ===== verification/Shm.thy ===== *)
theory Shm
  imports Layout Time
begin

text \<open>
  Segments (\<^verbatim>\<open>src/src/core/posixipc_shm.c\<close>): name validation, creation, publication,
  attachment with its two polling loops, and pointers into a segment. Each function keeps the
  order of the system calls of the code, its early returns and its \<^verbatim>\<open>fail:\<close> label. The
  polling loops take fuel; running out of it is its own outcome.
\<close>

section \<open>Names, permissions, backoff\<close>

definition magic_wire :: "config \<Rightarrow> u32" where
  "magic_wire c = (if LITTLE_ENDIAN c then 0x43504950 else 0x50495043)"

definition posixipc_shm_validate_name :: "string option \<Rightarrow> rc" where
  "posixipc_shm_validate_name name =
     (case name of None \<Rightarrow> EINVAL | Some [] \<Rightarrow> EINVAL | Some (ch # rest) \<Rightarrow>
      if ch \<noteq> CHR ''/'' then EINVAL
      else if rest = [] then EINVAL
      else if CHR ''/'' \<in> set rest then EINVAL
      else if rest = ''.'' \<or> rest = ''..'' then EINVAL
      else if length rest > 255 then ENAMETOOLONG
      else 0)"

definition posixipc_shm_stat_permitted :: "stat option \<Rightarrow> bool io" where
  "posixipc_shm_stat_permitted st =
     (case st of None \<Rightarrow> ret False | Some s \<Rightarrow> do {
        u \<leftarrow> call Geteuid;
        if st_uid s \<noteq> a_ret u then ret False
        else if st_mode s AND 0x3f \<noteq> 0 then ret False
        else ret True })"

definition sleep_backoff :: "nat \<Rightarrow> (rc \<times> nat) io" where
  "sleep_backoff n =
     (let ms = (if n < 1 then 1 else n);
          ms = (if ms > 10 then 10 else ms);
          n' = (if ms < 10 then ms + 1 else 10)
      in do {
        a \<leftarrow> call (Nanosleep \<lparr>tv_sec = 0, tv_nsec = int ms * 1000000\<rparr>);
        if a_ret a \<noteq> 0 \<and> a_errno a \<noteq> EINTR then ret (a_errno a, n') else ret (0, n') })"

section \<open>Handles, header and directory\<close>

text \<open>\<^verbatim>\<open>posixipc_shm\<close>; the name is the heap copy and its address.\<close>

record posixipc_shm =
  sh_map :: "addr option"
  sh_map_len :: nat
  sh_hdr :: "addr option"
  sh_name :: "(addr \<times> string) option"

definition reset_handle :: posixipc_shm where
  "reset_handle = \<lparr>sh_map = None, sh_map_len = 0, sh_hdr = None, sh_name = None\<rparr>"

definition write_header :: "config \<Rightarrow> posixipc_shm_expect \<Rightarrow> posixipc_shm_header" where
  "write_header c e = \<lparr>
     h_magic = magic_wire c,
     h_layout_version = e_layout_version e,
     h_slot_count = e_slot_count e,
     h_abi_tag = e_abi_tag e,
     h_flags = e_flags e,
     h_total_size = e_total_size e,
     h_directory_bytes = e_directory_bytes e,
     h_state = STATE_UNINIT,
     h_layout_digest = e_layout_digest e\<rparr>"

definition write_directory :: "addr \<Rightarrow> posixipc_shm_expect \<Rightarrow> rc io" where
  "write_directory seg e =
     (if e_slot_count e = 0 then ret 0
      else case e_slots e of None \<Rightarrow> ret EINVAL | Some slots \<Rightarrow> do {
        call_ignore (Mem (Store_directory (seg + 64) (take (unat (e_directory_bytes e) div 16) slots)));
        ret 0 })"

definition dup_name :: "string \<Rightarrow> (rc \<times> (addr \<times> string) option) io" where
  "dup_name name = do {
     a \<leftarrow> call (Malloc (length name + 1));
     if a_ret a < 0 then ret (ENOMEM, None)
     else ret (0, Some (nat (a_ret a), name)) }"

section \<open>Creation\<close>

definition create_fail ::
    "string \<Rightarrow> posixipc_shm_expect \<Rightarrow> rc \<Rightarrow> fd option \<Rightarrow> addr option \<Rightarrow> (rc \<times> posixipc_shm option) io" where
  "create_fail name e rc fdo mapo = do {
     (case fdo of None \<Rightarrow> ret () | Some f \<Rightarrow> call_ignore (Close f));
     (case mapo of None \<Rightarrow> ret () | Some m \<Rightarrow> call_ignore (Munmap m (unat (e_total_size e))));
     call_ignore (Shm_unlink name);
     ret (rc, Some reset_handle) }"

text \<open>The part after the mapping succeeded and the descriptor is closed.\<close>

definition create_mapped ::
    "config \<Rightarrow> string \<Rightarrow> posixipc_shm_expect \<Rightarrow> addr \<Rightarrow> (rc \<times> posixipc_shm option) io" where
  "create_mapped c name e seg = do {
     call_ignore (Mem (Store_header seg (write_header c e)));
     rc \<leftarrow> write_directory seg e;
     if rc \<noteq> 0 then create_fail name e rc None (Some seg)
     else do {
       call_ignore (Mem (Store_state seg STATE_INITIALIZING));
       (rc, copy) \<leftarrow> dup_name name;
       if rc \<noteq> 0 then create_fail name e rc None (Some seg)
       else ret (0, Some \<lparr>sh_map = Some seg, sh_map_len = unat (e_total_size e),
                          sh_hdr = Some seg, sh_name = copy\<rparr>) } }"

definition posixipc_shm_create ::
    "config \<Rightarrow> string option \<Rightarrow> posixipc_shm_expect option \<Rightarrow> posixipc_shm option \<Rightarrow>
     (rc \<times> posixipc_shm option) io" where
  "posixipc_shm_create c name expect out =
     (case (out, expect) of
        (Some _, Some e) \<Rightarrow>
          (let rc = posixipc_shm_validate_name name in
           if rc \<noteq> 0 then ret (rc, Some reset_handle)
           else if e_total_size e < HEADER_BYTES then ret (EINVAL, Some reset_handle)
           else let nm = the name in do {
             a \<leftarrow> call (Shm_open nm [O_CREAT, O_EXCL, O_RDWR, O_CLOEXEC] 0x180);
             if a_ret a < 0 then ret (a_errno a, Some reset_handle)
             else let fd = a_ret a in do {
               s \<leftarrow> call (Fstat fd);
               if a_ret s \<noteq> 0 then create_fail nm e (a_errno s) (Some fd) None
               else do {
                 ok \<leftarrow> posixipc_shm_stat_permitted (Some (a_stat s));
                 if \<not> ok then create_fail nm e EACCES (Some fd) None
                 else do {
                   t \<leftarrow> call (Ftruncate fd (uint (e_total_size e)));
                   if a_ret t \<noteq> 0 then create_fail nm e (a_errno t) (Some fd) None
                   else do {
                     m \<leftarrow> call (Mmap (unat (e_total_size e)) True fd);
                     if a_ret m < 0 then create_fail nm e (a_errno m) (Some fd) None
                     else do {
                       cl \<leftarrow> call (Close fd);
                       if a_ret cl \<noteq> 0 then create_fail nm e (a_errno cl) None (Some (nat (a_ret m)))
                       else create_mapped c nm e (nat (a_ret m)) } } } } } })
      | _ \<Rightarrow> ret (EINVAL, out))"

definition posixipc_shm_publish :: "posixipc_shm option \<Rightarrow> rc io" where
  "posixipc_shm_publish h =
     (case h of None \<Rightarrow> ret EINVAL | Some s \<Rightarrow>
      case sh_hdr s of None \<Rightarrow> ret EINVAL | Some p \<Rightarrow> do {
        call_ignore (Mem (Store_state p STATE_READY));
        ret 0 })"

definition posixipc_shm_mark_broken :: "posixipc_shm option \<Rightarrow> rc io" where
  "posixipc_shm_mark_broken h =
     (case h of None \<Rightarrow> ret EINVAL | Some s \<Rightarrow>
      case sh_hdr s of None \<Rightarrow> ret EINVAL | Some p \<Rightarrow> do {
        call_ignore (Mem (Store_state p STATE_BROKEN));
        ret 0 })"

section \<open>Attachment\<close>

definition slot_eq :: "posixipc_slot \<Rightarrow> posixipc_slot \<Rightarrow> bool" where
  "slot_eq d s \<longleftrightarrow> s_kind d = s_kind s \<and> s_align d = s_align s \<and> s_offset d = s_offset s \<and>
     s_size d = s_size s \<and> s_init_flags d = s_init_flags s"

definition header_matches :: "posixipc_shm_header \<Rightarrow> posixipc_shm_expect \<Rightarrow> bool" where
  "header_matches h e \<longleftrightarrow>
     h_layout_version h = e_layout_version e \<and> h_slot_count h = e_slot_count e \<and>
     h_abi_tag h = e_abi_tag e \<and> h_total_size h = e_total_size e \<and>
     h_directory_bytes h = e_directory_bytes e \<and> h_layout_digest h = e_layout_digest e"

text \<open>The directory is read only when the header matches and there are slots to compare.\<close>

definition compare_expect :: "config \<Rightarrow> addr \<Rightarrow> posixipc_shm_expect option \<Rightarrow> rc io" where
  "compare_expect c seg expect = do {
     h \<leftarrow> call (Mem (Load_header seg));
     if h_magic (a_hdr h) \<noteq> magic_wire c then ret POSIXIPC_ERROR_LAYOUT_MISMATCH
     else case expect of None \<Rightarrow> ret 0 | Some e \<Rightarrow>
       if \<not> header_matches (a_hdr h) e then ret POSIXIPC_ERROR_LAYOUT_MISMATCH
       else if e_slot_count e = 0 then ret 0
       else case e_slots e of None \<Rightarrow> ret POSIXIPC_ERROR_LAYOUT_MISMATCH | Some slots \<Rightarrow> do {
         d \<leftarrow> call (Mem (Load_directory (seg + 64) (unat (e_slot_count e))));
         if list_all (\<lambda>i. slot_eq (a_dir d ! i) (slots ! i)) [0..<unat (e_slot_count e)] then ret 0
         else ret POSIXIPC_ERROR_LAYOUT_MISMATCH } }"

text \<open>How a polling loop ends.\<close>

datatype loop_end = Break | Fail rc | No_fuel

primrec size_loop :: "nat \<Rightarrow> posixipc_deadline option \<Rightarrow> fd \<Rightarrow> nat \<Rightarrow> loop_end io" where
  "size_loop 0 d fd backoff = ret No_fuel"
| "size_loop (Suc n) d fd backoff = do {
     e \<leftarrow> posixipc_deadline_expired d;
     if e then ret (Fail POSIXIPC_ERROR_NOT_READY)
     else do {
       s \<leftarrow> call (Fstat fd);
       if a_ret s \<noteq> 0 then ret (Fail (a_errno s))
       else do {
         ok \<leftarrow> posixipc_shm_stat_permitted (Some (a_stat s));
         if \<not> ok then ret (Fail EACCES)
         else if (word_of_int (st_size (a_stat s)) :: u64) \<ge> 64 then ret Break
         else do {
           (rc, b) \<leftarrow> sleep_backoff backoff;
           if rc \<noteq> 0 then ret (Fail rc) else size_loop n d fd b } } } }"

primrec state_loop :: "nat \<Rightarrow> posixipc_deadline option \<Rightarrow> addr \<Rightarrow> nat \<Rightarrow> loop_end io" where
  "state_loop 0 d window backoff = ret No_fuel"
| "state_loop (Suc n) d window backoff = do {
     e \<leftarrow> posixipc_deadline_expired d;
     if e then ret (Fail POSIXIPC_ERROR_NOT_READY)
     else do {
       st \<leftarrow> call (Mem (Load_state window));
       if a_word st = STATE_READY then ret Break
       else if a_word st = STATE_BROKEN then ret (Fail POSIXIPC_ERROR_BROKEN)
       else do {
         (rc, b) \<leftarrow> sleep_backoff backoff;
         if rc \<noteq> 0 then ret (Fail rc) else state_loop n d window b } } }"

text \<open>The label \<^verbatim>\<open>fail\<close> of attach, with the descriptor, the window and the mapping held there.\<close>

definition attach_fail ::
    "rc \<Rightarrow> fd option \<Rightarrow> addr option \<Rightarrow> addr option \<Rightarrow> u32 \<Rightarrow> (rc \<times> posixipc_shm option) option io" where
  "attach_fail rc fdo window mapo tot = do {
     (case fdo of None \<Rightarrow> ret () | Some f \<Rightarrow> call_ignore (Close f));
     (case window of None \<Rightarrow> ret () | Some p \<Rightarrow> call_ignore (Munmap p 64));
     (case mapo of None \<Rightarrow> ret ()
        | Some m \<Rightarrow> call_ignore (Munmap m (if tot \<noteq> 0 then unat tot else 64)));
     ret (Some (rc, Some reset_handle)) }"

text \<open>From the second \<^verbatim>\<open>mmap\<close> on.\<close>

definition attach_map ::
    "config \<Rightarrow> string \<Rightarrow> posixipc_shm_expect option \<Rightarrow> fd \<Rightarrow> u32 \<Rightarrow> (rc \<times> posixipc_shm option) option io" where
  "attach_map c nm expect fd tot = do {
     m \<leftarrow> call (Mmap (unat tot) True fd);
     if a_ret m < 0 then attach_fail (a_errno m) (Some fd) None None tot
     else let seg = nat (a_ret m) in do {
       cl \<leftarrow> call (Close fd);
       if a_ret cl \<noteq> 0 then attach_fail (a_errno cl) None None (Some seg) tot
       else do {
         rc \<leftarrow> compare_expect c seg expect;
         if rc \<noteq> 0 then attach_fail rc None None (Some seg) tot
         else do {
           (rc, copy) \<leftarrow> dup_name nm;
           if rc \<noteq> 0 then attach_fail rc None None (Some seg) tot
           else ret (Some (0, Some \<lparr>sh_map = Some seg, sh_map_len = unat tot,
                                    sh_hdr = Some seg, sh_name = copy\<rparr>)) } } } }"

text \<open>From the end of the state loop to the unmapping of the window.\<close>

definition attach_ready ::
    "config \<Rightarrow> string \<Rightarrow> posixipc_shm_expect option \<Rightarrow> fd \<Rightarrow> addr \<Rightarrow> (rc \<times> posixipc_shm option) option io" where
  "attach_ready c nm expect fd window = do {
     t \<leftarrow> call (Mem (Load_total_size window));
     let tot = a_word t;
     if tot < HEADER_BYTES
     then attach_fail POSIXIPC_ERROR_LAYOUT_MISMATCH (Some fd) (Some window) None tot
     else do {
       s \<leftarrow> call (Fstat fd);
       if a_ret s \<noteq> 0 then attach_fail (a_errno s) (Some fd) (Some window) None tot
       else if (word_of_int (st_size (a_stat s)) :: u64) < ucast tot
       then attach_fail POSIXIPC_ERROR_LAYOUT_MISMATCH (Some fd) (Some window) None tot
       else if (case expect of None \<Rightarrow> False | Some e \<Rightarrow> tot \<noteq> e_total_size e)
       then attach_fail POSIXIPC_ERROR_LAYOUT_MISMATCH (Some fd) (Some window) None tot
       else do {
         call_ignore (Munmap window 64);
         attach_map c nm expect fd tot } } }"

text \<open>\<^const>\<open>None\<close> as the result means the fuel of a polling loop ran out.\<close>

definition posixipc_shm_attach ::
    "config \<Rightarrow> nat \<Rightarrow> string option \<Rightarrow> posixipc_shm_expect option \<Rightarrow> posixipc_deadline option \<Rightarrow>
     posixipc_shm option \<Rightarrow> (rc \<times> posixipc_shm option) option io" where
  "posixipc_shm_attach c fuel name expect deadline out =
     (case out of None \<Rightarrow> ret (Some (EINVAL, out)) | Some _ \<Rightarrow>
      let rc = posixipc_shm_validate_name name in
      if rc \<noteq> 0 then ret (Some (rc, Some reset_handle))
      else let nm = the name in do {
        a \<leftarrow> call (Shm_open nm [O_RDWR, O_CLOEXEC] 0);
        if a_ret a < 0 then ret (Some (a_errno a, Some reset_handle))
        else let fd = a_ret a in do {
          l \<leftarrow> size_loop fuel deadline fd 1;
          case l of No_fuel \<Rightarrow> ret None
          | Fail rc \<Rightarrow> attach_fail rc (Some fd) None None 0
          | Break \<Rightarrow> do {
              m \<leftarrow> call (Mmap 64 False fd);
              if a_ret m < 0 then attach_fail (a_errno m) (Some fd) None None 0
              else let window = nat (a_ret m) in do {
                l2 \<leftarrow> state_loop fuel deadline window 1;
                case l2 of No_fuel \<Rightarrow> ret None
                | Fail rc \<Rightarrow> attach_fail rc (Some fd) (Some window) None 0
                | Break \<Rightarrow> attach_ready c nm expect fd window } } } })"

section \<open>Open or create, close, unlink\<close>

primrec open_or_create_loop ::
    "nat \<Rightarrow> config \<Rightarrow> nat \<Rightarrow> string option \<Rightarrow> posixipc_shm_expect option \<Rightarrow> posixipc_deadline option \<Rightarrow>
     posixipc_shm option \<Rightarrow> (rc \<times> posixipc_shm option) option io" where
  "open_or_create_loop 0 c fuel name expect deadline out = ret (Some (POSIXIPC_ERROR_NOT_READY, out))"
| "open_or_create_loop (Suc tries) c fuel name expect deadline out = do {
     (rc, out1) \<leftarrow> posixipc_shm_create c name expect out;
     if rc = 0 then ret (Some (0, out1))
     else if rc \<noteq> EEXIST then ret (Some (rc, out1))
     else do {
       r \<leftarrow> posixipc_shm_attach c fuel name expect deadline out1;
       case r of None \<Rightarrow> ret None | Some (rc2, out2) \<Rightarrow>
         if rc2 = 0 then ret (Some (0, out2))
         else if rc2 \<noteq> ENOENT then ret (Some (rc2, out2))
         else open_or_create_loop tries c fuel name expect deadline out2 } }"

definition posixipc_shm_open_or_create ::
    "config \<Rightarrow> nat \<Rightarrow> string option \<Rightarrow> posixipc_shm_expect option \<Rightarrow> posixipc_deadline option \<Rightarrow>
     posixipc_shm option \<Rightarrow> (rc \<times> posixipc_shm option) option io" where
  "posixipc_shm_open_or_create c fuel name expect deadline out =
     open_or_create_loop 32 c fuel name expect deadline out"

definition posixipc_shm_close :: "posixipc_shm option \<Rightarrow> (rc \<times> posixipc_shm option) io" where
  "posixipc_shm_close h =
     (case h of None \<Rightarrow> ret (0, h) | Some s \<Rightarrow>
      case sh_map s of None \<Rightarrow> ret (0, h) | Some m \<Rightarrow> do {
        a \<leftarrow> call (Munmap m (sh_map_len s));
        if a_ret a \<noteq> 0 then ret (a_errno a, h)
        else do {
          call_ignore (Free (map_option fst (sh_name s)));
          ret (0, Some reset_handle) } })"

definition posixipc_shm_unlink :: "string option \<Rightarrow> rc io" where
  "posixipc_shm_unlink name =
     (let rc = posixipc_shm_validate_name name in
      if rc \<noteq> 0 then ret rc else call_errno (Shm_unlink (the name)))"

section \<open>Pointers into the segment\<close>

text \<open>The header the handle points to is an argument: the code reads two of its fields.\<close>

definition posixipc_shm_offset_ptr ::
    "posixipc_shm option \<Rightarrow> posixipc_shm_header \<Rightarrow> u32 \<Rightarrow> u32 \<Rightarrow> u32 \<Rightarrow> addr option option \<Rightarrow>
     rc \<times> addr option option" where
  "posixipc_shm_offset_ptr h hdr offset sz al out =
     (case (h, out) of
        (Some s, Some _) \<Rightarrow>
          (if sh_hdr s = None then (EINVAL, out)
           else let dir_end = HEADER_BYTES + h_directory_bytes hdr in
             if offset < dir_end then (EINVAL, out)
             else if sz = 0 \<or> offset > h_total_size hdr then (EINVAL, out)
             else if sz > h_total_size hdr - offset then (EINVAL, out)
             else if al > 1 \<and> offset mod al \<noteq> 0 then (EINVAL, out)
             else (0, Some (map_option (\<lambda>m. m + unat offset) (sh_map s))))
      | _ \<Rightarrow> (EINVAL, out))"

definition posixipc_shm_header_ptr :: "posixipc_shm option \<Rightarrow> addr option" where
  "posixipc_shm_header_ptr h = (case h of None \<Rightarrow> None | Some s \<Rightarrow> sh_hdr s)"

definition posixipc_shm_directory :: "posixipc_shm option \<Rightarrow> posixipc_shm_header \<Rightarrow> addr option" where
  "posixipc_shm_directory h hdr =
     (case h of None \<Rightarrow> None | Some s \<Rightarrow>
      if sh_map s = None \<or> sh_hdr s = None then None
      else if h_slot_count hdr = 0 then None
      else map_option (\<lambda>m. m + 64) (sh_map s))"

section \<open>Polling keeps the balances\<close>

lemma neutral_expired: "neutral (posixipc_deadline_expired d)"
  unfolding posixipc_deadline_expired_def posixipc_now_def by (intro neutral_rules)

lemma neutral_permitted: "neutral (posixipc_shm_stat_permitted st)"
  unfolding posixipc_shm_stat_permitted_def by (intro neutral_rules)

lemma neutral_backoff: "neutral (sleep_backoff n)"
  unfolding sleep_backoff_def by (intro neutral_rules)

lemma neutral_dup_name: "neutral (dup_name nm)"
  unfolding dup_name_def by (intro neutral_rules)

lemma neutral_write_directory: "neutral (write_directory seg e)"
  unfolding write_directory_def by (intro neutral_rules)

lemma neutral_compare: "neutral (compare_expect c seg e)"
  unfolding compare_expect_def by (intro neutral_rules)

lemmas neutral_helpers = neutral_expired neutral_permitted neutral_backoff neutral_dup_name
  neutral_write_directory neutral_compare

lemma neutral_size_loop: "neutral (size_loop n d fd b)"
proof (induction n arbitrary: b)
  case (Suc n)
  show ?case unfolding size_loop.simps by (intro neutral_rules neutral_helpers Suc.IH)
qed (simp add: neutral_ret)

lemma neutral_state_loop: "neutral (state_loop n d p b)"
proof (induction n arbitrary: b)
  case (Suc n)
  show ?case unfolding state_loop.simps by (intro neutral_rules neutral_helpers Suc.IH)
qed (simp add: neutral_ret)

section \<open>Creation releases what it took\<close>

text \<open>What a call leaves: balances of descriptors and mappings relative to the start.\<close>

definition gained :: "world \<Rightarrow> world \<Rightarrow> fd option \<Rightarrow> (addr \<times> nat) option \<Rightarrow> bool" where
  "gained w w' fdo mapo \<longleftrightarrow> env w' = env w \<and>
     (\<forall>f. fds w' f = fds w f + (if fdo = Some f then 1 else 0)) \<and>
     (\<forall>a n. maps w' a n = maps w a n + (if mapo = Some (a, n) then 1 else 0))"

lemma gained_neutral: "gained w w1 fdo mapo \<Longrightarrow> neutral m \<Longrightarrow> run m w1 = (r, w2) \<Longrightarrow> gained w w2 fdo mapo"
  using neutralD [of m w1 r w2] by (simp add: gained_def)

lemma gained_call: "gained w w1 fdo mapo \<Longrightarrow> holds_nothing c \<Longrightarrow> gained w (after w1 c) fdo mapo"
  by (simp add: gained_def holds_nothing_def)

lemma gained_open: "0 \<le> a_ret (answer_to w (Shm_open nm fl md)) \<Longrightarrow>
    gained w (after w (Shm_open nm fl md)) (Some (a_ret (answer_to w (Shm_open nm fl md)))) None"
  by (simp add: gained_def map_delta_def)

lemma gained_mmap: "gained w w1 fdo None \<Longrightarrow> 0 \<le> a_ret (answer_to w1 (Mmap n p f)) \<Longrightarrow>
    gained w (after w1 (Mmap n p f)) fdo (Some (nat (a_ret (answer_to w1 (Mmap n p f))), n))"
  by (auto simp: gained_def map_delta_def)

lemma gained_mmap_failed: "gained w w1 fdo mapo \<Longrightarrow> a_ret (answer_to w1 (Mmap n p f)) < 0 \<Longrightarrow>
    gained w (after w1 (Mmap n p f)) fdo mapo"
  by (auto simp: gained_def map_delta_def)

lemma gained_close: "gained w w1 (Some f) mapo \<Longrightarrow> gained w (after w1 (Close f)) None mapo"
  by (auto simp: gained_def map_delta_def)

lemma gained_munmap: "gained w w1 fdo (Some (a, n)) \<Longrightarrow> gained w (after w1 (Munmap a n)) fdo None"
  by (auto simp: gained_def map_delta_def)

lemmas gained_intros = gained_call gained_open gained_mmap gained_mmap_failed gained_close gained_munmap

lemma gained_refl: "gained w w None None"
  by (simp add: gained_def)

lemma gained_trans: "gained w w1 None None \<Longrightarrow> gained w1 w2 fdo mapo \<Longrightarrow> gained w w2 fdo mapo"
  by (simp add: gained_def)

lemma run_create_fail:
  assumes "gained w w1 fdo (map_option (\<lambda>m. (m, unat (e_total_size e))) mapo)"
    and "run (create_fail nm e rc fdo mapo) w1 = (r, w2)"
  shows "r = (rc, Some reset_handle)" and "gained w w2 None None"
    and "\<exists>w3. w2 = after w3 (Shm_unlink nm)"
  using assms
  by (auto simp: create_fail_def io_simps intro!: gained_intros split: option.splits)

text \<open>The contract of create: everything is released on failure, one mapping is held on success.\<close>

definition create_post ::
    "world \<Rightarrow> string \<Rightarrow> posixipc_shm_expect \<Rightarrow> (rc \<times> posixipc_shm option) \<times> world \<Rightarrow> bool" where
  "create_post w nm e res \<longleftrightarrow> (case res of ((rc, out), w') \<Rightarrow>
     (rc \<noteq> 0 \<and> out = Some reset_handle \<and> gained w w' None None) \<or>
     (rc = 0 \<and> (\<exists>seg p. out = Some \<lparr>sh_map = Some seg, sh_map_len = unat (e_total_size e),
                            sh_hdr = Some seg, sh_name = Some (p, nm)\<rparr> \<and>
                  gained w w' None (Some (seg, unat (e_total_size e))))))"

lemma create_fail_post:
  assumes "gained w w1 fdo (map_option (\<lambda>m. (m, unat (e_total_size e))) mapo)" and "rc \<noteq> 0"
  shows "create_post w nm e (run (create_fail nm e rc fdo mapo) w1)"
proof -
  obtain r w2 where r: "run (create_fail nm e rc fdo mapo) w1 = (r, w2)" by fastforce
  from run_create_fail [OF assms(1) r] assms(2) r show ?thesis by (simp add: create_post_def)
qed

lemma create_mapped_post:
  assumes "gained w w1 None (Some (seg, unat (e_total_size e)))"
  shows "create_post w nm e (run (create_mapped c nm e seg) w1)"
proof -
  let ?wh = "after w1 (Mem (Store_header seg (write_header c e)))"
  have g1: "gained w ?wh None (Some (seg, unat (e_total_size e)))" using assms by (intro gained_call) simp_all
  obtain rc w2 where d: "run (write_directory seg e) ?wh = (rc, w2)" by fastforce
  note g2 = gained_neutral [OF g1 neutral_write_directory d]
  let ?ws = "after w2 (Mem (Store_state seg STATE_INITIALIZING))"
  have g3: "gained w ?ws None (Some (seg, unat (e_total_size e)))" using g2 by (intro gained_call) simp_all
  obtain rc2 cp w3 where n: "run (dup_name nm) ?ws = ((rc2, cp), w3)" by (metis prod_cases3 surj_pair)
  note g4 = gained_neutral [OF g3 neutral_dup_name n]
  have cp: "rc2 = 0 \<Longrightarrow> \<exists>p. cp = Some (p, nm)" using n by (auto simp: dup_name_def io_simps split: if_splits)
  show ?thesis
    using d n cp g4 create_fail_post [of w w2 None e "Some seg" rc nm] g2 create_fail_post [of w w3 None e "Some seg" rc2 nm]
    by (auto simp: create_mapped_def io_simps create_post_def)
qed

lemma create_post:
  assumes "errno_set w"
  shows "create_post w (the name) e (run (posixipc_shm_create c name (Some e) (Some o0)) w)"
proof -
  let ?nm = "the name" and ?rc = "posixipc_shm_validate_name name"
  let ?co = "Shm_open ?nm [O_CREAT, O_EXCL, O_RDWR, O_CLOEXEC] 0x180"
  let ?a = "answer_to w ?co"
  let ?w1 = "after w ?co" and ?fd = "a_ret ?a"
  let ?s = "answer_to ?w1 (Fstat ?fd)" and ?w2 = "after ?w1 (Fstat ?fd)"
  obtain ok w3 where perm: "run (posixipc_shm_stat_permitted (Some (a_stat ?s))) ?w2 = (ok, w3)" by fastforce
  let ?ct = "Ftruncate ?fd (uint (e_total_size e))"
  let ?t = "answer_to w3 ?ct" and ?w4 = "after w3 ?ct"
  let ?cm = "Mmap (unat (e_total_size e)) True ?fd"
  let ?m = "answer_to ?w4 ?cm" and ?w5 = "after ?w4 ?cm"
  let ?cl = "answer_to ?w5 (Close ?fd)" and ?w6 = "after ?w5 (Close ?fd)"
  show ?thesis
  proof (cases "?rc = 0 \<and> \<not> e_total_size e < HEADER_BYTES \<and> 0 \<le> ?fd")
    case False
    have "a_errno ?a \<noteq> 0" if "a_ret ?a < 0" using errno_setD [OF assms that] by simp
    moreover have "gained w ?w1 None None" if "a_ret ?a < 0" using that by (simp add: gained_def map_delta_def)
    ultimately show ?thesis using False gained_refl [of w]
      by (auto simp: posixipc_shm_create_def io_simps Let_def create_post_def)
  next
    case True
    then have g1: "gained w ?w1 (Some ?fd) None" by (intro gained_open) simp
    have g2: "gained w ?w2 (Some ?fd) None" by (rule gained_call [OF g1]) simp
    note g3 = gained_neutral [OF g2 neutral_permitted perm]
    have g4: "gained w ?w4 (Some ?fd) None" by (rule gained_call [OF g3]) simp
    have g5: "gained w ?w5 (Some ?fd) (if a_ret ?m < 0 then None else Some (nat (a_ret ?m), unat (e_total_size e)))"
      using gained_mmap [OF g4] gained_mmap_failed [OF g4] by simp
    have g6: "gained w ?w6 None (Some (nat (a_ret ?m), unat (e_total_size e)))" if "\<not> a_ret ?m < 0"
      using gained_close [OF g5] that by simp
    have es: "errno_set w'" if "gained w w' x y" for w' x y
      using assms that by (simp add: gained_def errno_set_def)
    have nz: "a_ret ?s \<noteq> 0 \<Longrightarrow> a_errno ?s \<noteq> 0" "a_ret ?t \<noteq> 0 \<Longrightarrow> a_errno ?t \<noteq> 0"
      "a_ret ?m < 0 \<Longrightarrow> a_errno ?m \<noteq> 0" "a_ret ?cl \<noteq> 0 \<Longrightarrow> a_errno ?cl \<noteq> 0"
      using errno_set_zeroD [OF es [OF g1], of "Fstat ?fd"] errno_set_zeroD [OF es [OF g3], of ?ct]
        errno_setD [OF es [OF g4], of ?cm] errno_set_zeroD [OF es [OF g5], of "Close ?fd"] by auto
    have "run (posixipc_shm_create c name (Some e) (Some o0)) w =
       (if a_ret ?s \<noteq> 0 then run (create_fail ?nm e (a_errno ?s) (Some ?fd) None) ?w2
        else if \<not> ok then run (create_fail ?nm e EACCES (Some ?fd) None) w3
        else if a_ret ?t \<noteq> 0 then run (create_fail ?nm e (a_errno ?t) (Some ?fd) None) ?w4
        else if a_ret ?m < 0 then run (create_fail ?nm e (a_errno ?m) (Some ?fd) None) ?w5
        else if a_ret ?cl \<noteq> 0 then run (create_fail ?nm e (a_errno ?cl) None (Some (nat (a_ret ?m)))) ?w6
        else run (create_mapped c ?nm e (nat (a_ret ?m))) ?w6)"
      using True perm by (simp add: posixipc_shm_create_def io_simps Let_def)
    then show ?thesis
      using g2 g3 g4 g5 g6 nz by (auto intro!: create_fail_post create_mapped_post)
  qed
qed

section \<open>Attachment releases what it took\<close>

lemma attach_fail_post:
  assumes "gained w w1 fdo (case window of Some p \<Rightarrow> Some (p, 64)
             | None \<Rightarrow> map_option (\<lambda>m. (m, if tot \<noteq> 0 then unat tot else 64)) mapo)"
    and "window = None \<or> mapo = None"
  shows "\<exists>w2. run (attach_fail rc fdo window mapo tot) w1 = (Some (rc, Some reset_handle), w2) \<and>
           gained w w2 None None"
  using assms
  by (cases fdo; cases window; cases mapo)
    (auto simp: attach_fail_def io_simps intro!: gained_intros split: if_splits)

text \<open>What is known of a segment that was attached: the header and the directory were compared.\<close>

definition segment_checked :: "config \<Rightarrow> addr \<Rightarrow> posixipc_shm_expect option \<Rightarrow> history \<Rightarrow> bool" where
  "segment_checked c seg expect h \<longleftrightarrow>
     (\<exists>a. (Mem (Load_header seg), a) \<in> set h \<and> h_magic (a_hdr a) = magic_wire c \<and>
       (\<forall>e. expect = Some e \<longrightarrow> header_matches (a_hdr a) e \<and>
          (e_slot_count e \<noteq> 0 \<longrightarrow> (\<exists>slots d. e_slots e = Some slots \<and>
             (Mem (Load_directory (seg + 64) (unat (e_slot_count e))), d) \<in> set h \<and>
             (\<forall>i < unat (e_slot_count e). slot_eq (a_dir d ! i) (slots ! i))))))"

lemma compare_expect_0:
  assumes "run (compare_expect c seg expect) w = (0, w')"
  shows "segment_checked c seg expect (trace w')"
proof -
  let ?h = "answer_to w (Mem (Load_header seg))" and ?w = "after w (Mem (Load_header seg))"
  show ?thesis
    unfolding segment_checked_def
    by (rule exI [of _ ?h])
      (use assms in \<open>auto simp: compare_expect_def io_simps list_all_iff
        intro!: exI [of _ "answer_to ?w (Mem (Load_directory (seg + 64) n))" for n]
        split: if_splits option.splits\<close>)
qed

lemma segment_checked_mono: "segment_checked c seg expect h \<Longrightarrow> set h \<subseteq> set h' \<Longrightarrow> segment_checked c seg expect h'"
  unfolding segment_checked_def by (meson subsetD)

definition attach_post ::
    "config \<Rightarrow> world \<Rightarrow> string \<Rightarrow> posixipc_shm_expect option \<Rightarrow>
     (rc \<times> posixipc_shm option) option \<times> world \<Rightarrow> bool" where
  "attach_post c w nm expect res \<longleftrightarrow> (case res of (None, w') \<Rightarrow> True | (Some (rc, out), w') \<Rightarrow>
     (rc \<noteq> 0 \<and> out = Some reset_handle \<and> gained w w' None None) \<or>
     (rc = 0 \<and> (\<exists>seg p n. out = Some \<lparr>sh_map = Some seg, sh_map_len = n, sh_hdr = Some seg, sh_name = Some (p, nm)\<rparr> \<and>
                  64 \<le> n \<and> (\<forall>e. expect = Some e \<longrightarrow> n = unat (e_total_size e)) \<and>
                  gained w w' None (Some (seg, n)) \<and> segment_checked c seg expect (trace w'))))"

lemma attach_fail_attach_post:
  assumes "gained w w1 fdo (case window of Some p \<Rightarrow> Some (p, 64)
             | None \<Rightarrow> map_option (\<lambda>m. (m, if tot \<noteq> 0 then unat tot else 64)) mapo)"
    and "window = None \<or> mapo = None" and "rc \<noteq> 0"
  shows "attach_post c w nm expect (run (attach_fail rc fdo window mapo tot) w1)"
proof -
  obtain w2 where "run (attach_fail rc fdo window mapo tot) w1 = (Some (rc, Some reset_handle), w2)"
      "gained w w2 None None"
    using attach_fail_post [OF assms(1,2)] by blast
  with assms(3) show ?thesis by (simp add: attach_post_def)
qed

lemma errno_set_gained: "errno_set w \<Longrightarrow> gained w w' x y \<Longrightarrow> errno_set w'"
  by (simp add: gained_def errno_set_def)

lemma attach_map_post:
  assumes es: "errno_set w" and g: "gained w w1 (Some fd) None" and tot: "\<not> tot < HEADER_BYTES"
    and eq: "\<forall>e. expect = Some e \<longrightarrow> tot = e_total_size e"
  shows "attach_post c w nm expect (run (attach_map c nm expect fd tot) w1)"
proof -
  let ?cm = "Mmap (unat tot) True fd"
  let ?m = "answer_to w1 ?cm" and ?w2 = "after w1 ?cm"
  let ?seg = "nat (a_ret ?m)" and ?cl = "answer_to ?w2 (Close fd)" and ?w3 = "after ?w2 (Close fd)"
  obtain rc w4 where cmp: "run (compare_expect c ?seg expect) ?w3 = (rc, w4)" by fastforce
  let ?mc = "Malloc (length nm + 1)"
  have t: "64 \<le> unat tot" "tot \<noteq> 0" using tot by (auto simp: word_less_nat_alt)
  have g2: "gained w ?w2 (Some fd) (if a_ret ?m < 0 then None else Some (?seg, unat tot))"
    using gained_mmap [OF g] gained_mmap_failed [OF g] by simp
  have g3: "gained w ?w3 None (Some (?seg, unat tot))" if "\<not> a_ret ?m < 0"
    using gained_close [OF g2] that by simp
  have g4: "gained w w4 None (Some (?seg, unat tot))" if "\<not> a_ret ?m < 0"
    using gained_neutral [OF g3 [OF that] neutral_compare cmp] .
  have g5: "gained w (after w4 ?mc) None (Some (?seg, unat tot))" if "\<not> a_ret ?m < 0"
    using gained_call [OF g4 [OF that]] by simp
  have nz: "a_ret ?m < 0 \<Longrightarrow> a_errno ?m \<noteq> 0" "a_ret ?cl \<noteq> 0 \<Longrightarrow> a_errno ?cl \<noteq> 0"
    using errno_setD [OF errno_set_gained [OF es g], of ?cm]
      errno_set_zeroD [OF errno_set_gained [OF es g2], of "Close fd"] by auto
  have chk: "segment_checked c ?seg expect (trace (after w4 ?mc))" if "rc = 0"
    using compare_expect_0 [of c ?seg expect ?w3 w4] cmp that by (auto intro: segment_checked_mono)
  have r: "run (attach_map c nm expect fd tot) w1 =
     (if a_ret ?m < 0 then run (attach_fail (a_errno ?m) (Some fd) None None tot) ?w2
      else if a_ret ?cl \<noteq> 0 then run (attach_fail (a_errno ?cl) None None (Some ?seg) tot) ?w3
      else if rc \<noteq> 0 then run (attach_fail rc None None (Some ?seg) tot) w4
      else if a_ret (answer_to w4 ?mc) < 0 then run (attach_fail ENOMEM None None (Some ?seg) tot) (after w4 ?mc)
      else (Some (0, Some \<lparr>sh_map = Some ?seg, sh_map_len = unat tot, sh_hdr = Some ?seg,
                           sh_name = Some (nat (a_ret (answer_to w4 ?mc)), nm)\<rparr>), after w4 ?mc))"
    using cmp by (simp add: attach_map_def dup_name_def io_simps Let_def)
  show ?thesis
    unfolding r using g2 g3 g4 g5 nz chk t eq
    by (auto intro!: attach_fail_attach_post simp: attach_post_def [of _ _ _ _ "(Some (0, _), _)"])
qed

lemma attach_ready_post:
  assumes es: "errno_set w" and g: "gained w w1 (Some fd) (Some (window, 64))"
  shows "attach_post c w nm expect (run (attach_ready c nm expect fd window) w1)"
proof -
  let ?ct = "Mem (Load_total_size window)"
  let ?tot = "a_word (answer_to w1 ?ct)" and ?w2 = "after w1 ?ct"
  let ?s = "answer_to ?w2 (Fstat fd)" and ?w3 = "after ?w2 (Fstat fd)"
  have g2: "gained w ?w2 (Some fd) (Some (window, 64))" by (rule gained_call [OF g]) simp
  have g3: "gained w ?w3 (Some fd) (Some (window, 64))" by (rule gained_call [OF g2]) simp
  have g4: "gained w (after ?w3 (Munmap window 64)) (Some fd) None" by (rule gained_munmap [OF g3])
  have nz: "a_ret ?s \<noteq> 0 \<Longrightarrow> a_errno ?s \<noteq> 0"
    using errno_set_zeroD [OF errno_set_gained [OF es g2], of "Fstat fd"] by auto
  let ?bad = "case expect of None \<Rightarrow> False | Some e \<Rightarrow> ?tot \<noteq> e_total_size e"
  have r: "run (attach_ready c nm expect fd window) w1 =
     (if ?tot < HEADER_BYTES then run (attach_fail POSIXIPC_ERROR_LAYOUT_MISMATCH (Some fd) (Some window) None ?tot) ?w2
      else if a_ret ?s \<noteq> 0 then run (attach_fail (a_errno ?s) (Some fd) (Some window) None ?tot) ?w3
      else if (word_of_int (st_size (a_stat ?s)) :: u64) < ucast ?tot
      then run (attach_fail POSIXIPC_ERROR_LAYOUT_MISMATCH (Some fd) (Some window) None ?tot) ?w3
      else if ?bad then run (attach_fail POSIXIPC_ERROR_LAYOUT_MISMATCH (Some fd) (Some window) None ?tot) ?w3
      else run (attach_map c nm expect fd ?tot) (after ?w3 (Munmap window 64)))"
    by (simp add: attach_ready_def io_simps Let_def)
  have "attach_post c w nm expect (run (attach_map c nm expect fd ?tot) (after ?w3 (Munmap window 64)))"
    if "\<not> ?tot < HEADER_BYTES" "\<not> ?bad"
    using that by (intro attach_map_post [OF es g4]) (auto split: option.splits)
  then show ?thesis
    unfolding r using g2 g3 nz by (auto intro!: attach_fail_attach_post)
qed

lemma run_backoff:
  "run (sleep_backoff n) w = ((rc, b), w') \<Longrightarrow> \<exists>t. w' = after w (Nanosleep t)"
  by (auto simp: sleep_backoff_def io_simps Let_def split: if_splits)

lemma run_permitted: "run (posixipc_shm_stat_permitted (Some st)) w = (ok, w') \<Longrightarrow> w' = after w Geteuid"
  by (auto simp: posixipc_shm_stat_permitted_def io_simps split: if_splits)

lemma run_expired_after:
  "run (posixipc_deadline_expired d) w = (e, w') \<Longrightarrow> w' = (case d of None \<Rightarrow> w | Some x \<Rightarrow> after w (Clock_gettime (d_clk x)))"
  by (cases d) (auto simp: io_simps Let_def)

lemma size_loop_fail:
  assumes "errno_set w" and "run (size_loop n d fd b) w = (Fail rc, w')"
  shows "rc \<noteq> 0"
  using assms
proof (induction n arbitrary: b w)
  case 0
  then show ?case by (simp add: io_simps)
next
  case (Suc n)
  obtain e w1 where e: "run (posixipc_deadline_expired d) w = (e, w1)" by fastforce
  have es1: "errno_set w1" using Suc.prems(1) run_expired_after [OF e] by (simp split: option.splits)
  let ?s = "answer_to w1 (Fstat fd)" and ?w2 = "after w1 (Fstat fd)"
  obtain ok w3 where p: "run (posixipc_shm_stat_permitted (Some (a_stat ?s))) ?w2 = (ok, w3)" by fastforce
  obtain r b' w4 where s: "run (sleep_backoff b) w3 = ((r, b'), w4)" by (metis prod_cases3 surj_pair)
  have "errno_set w4" using es1 run_permitted [OF p] run_backoff [OF s] by auto
  from Suc.IH [OF this] Suc.prems(2) errno_set_zeroD [OF es1, of "Fstat fd"] e p s show ?case
    by (auto simp: io_simps split: if_splits)
qed

lemma state_loop_fail:
  "run (state_loop n d p b) w = (Fail rc, w') \<Longrightarrow> rc \<noteq> 0"
  by (induction n arbitrary: b w) (auto simp: io_simps split: if_splits prod.splits)

text \<open>The state loop is left with \<^verbatim>\<open>break\<close> only right after it read \<^verbatim>\<open>READY\<close>.\<close>

lemma state_loop_break:
  "run (state_loop n d p b) w = (Break, w') \<Longrightarrow>
     \<exists>w1. w' = after w1 (Mem (Load_state p)) \<and> a_word (answer_to w1 (Mem (Load_state p))) = STATE_READY"
  by (induction n arbitrary: b w) (auto simp: io_simps split: if_splits prod.splits)

lemma attach_post:
  assumes "errno_set w"
  shows "attach_post c w (the name) expect (run (posixipc_shm_attach c fuel name expect d (Some o0)) w)"
proof -
  let ?nm = "the name" and ?rc = "posixipc_shm_validate_name name"
  let ?co = "Shm_open ?nm [O_RDWR, O_CLOEXEC] 0"
  let ?a = "answer_to w ?co" and ?w1 = "after w ?co"
  let ?fd = "a_ret ?a"
  obtain l w2 where l: "run (size_loop fuel d ?fd 1) ?w1 = (l, w2)" by fastforce
  let ?cm = "Mmap 64 False ?fd"
  let ?m = "answer_to w2 ?cm" and ?w3 = "after w2 ?cm"
  let ?p = "nat (a_ret ?m)"
  obtain l2 w4 where l2: "run (state_loop fuel d ?p 1) ?w3 = (l2, w4)" by fastforce
  show ?thesis
  proof (cases "?rc = 0 \<and> 0 \<le> ?fd")
    case False
    have "a_errno ?a \<noteq> 0" if "a_ret ?a < 0" using errno_setD [OF assms that] by simp
    moreover have "gained w ?w1 None None" if "a_ret ?a < 0" using that by (simp add: gained_def map_delta_def)
    ultimately show ?thesis using False gained_refl [of w]
      by (auto simp: posixipc_shm_attach_def io_simps Let_def attach_post_def)
  next
    case True
    then have g1: "gained w ?w1 (Some ?fd) None" by (intro gained_open) simp
    note g2 = gained_neutral [OF g1 neutral_size_loop l]
    have g3: "gained w ?w3 (Some ?fd) (if a_ret ?m < 0 then None else Some (?p, 64))"
      using gained_mmap [OF g2] gained_mmap_failed [OF g2] by simp
    note g4 = gained_neutral [OF g3 neutral_state_loop l2]
    have nz: "\<And>rc. l = Fail rc \<Longrightarrow> rc \<noteq> 0" "\<And>rc. l2 = Fail rc \<Longrightarrow> rc \<noteq> 0" "a_ret ?m < 0 \<Longrightarrow> a_errno ?m \<noteq> 0"
      using size_loop_fail [OF errno_set_gained [OF assms g1]] l state_loop_fail l2
        errno_setD [OF errno_set_gained [OF assms g2], of ?cm] by auto
    have r: "run (posixipc_shm_attach c fuel name expect d (Some o0)) w =
       (case l of No_fuel \<Rightarrow> (None, w2)
        | Fail rc \<Rightarrow> run (attach_fail rc (Some ?fd) None None 0) w2
        | Break \<Rightarrow> if a_ret ?m < 0 then run (attach_fail (a_errno ?m) (Some ?fd) None None 0) ?w3
                   else case l2 of No_fuel \<Rightarrow> (None, w4)
                        | Fail rc \<Rightarrow> run (attach_fail rc (Some ?fd) (Some ?p) None 0) w4
                        | Break \<Rightarrow> run (attach_ready c ?nm expect ?fd ?p) w4)"
      using True l l2
      by (simp add: posixipc_shm_attach_def io_simps Let_def split: loop_end.split)
    have fin: "attach_post c w ?nm expect (None, w')" for w' by (simp add: attach_post_def)
    show ?thesis
      unfolding r using g2 g3 g4 nz assms fin
      by (auto intro!: attach_fail_attach_post attach_ready_post split: loop_end.split)
  qed
qed

section \<open>Attachment ends\<close>

text \<open>
  The clock of the environment passes the deadline: after enough calls every reading is at
  or past it. Without a deadline, or with a clock that stands still, attach may poll for ever.
\<close>

definition clock_passes :: "world \<Rightarrow> posixipc_deadline \<Rightarrow> nat \<Rightarrow> bool" where
  "clock_passes w d n \<longleftrightarrow> (\<forall>h. n \<le> length h \<longrightarrow>
     (let a = env w h (Clock_gettime (d_clk d)) in
      a_ret a = 0 \<and> (tv_sec (a_ts a) > tv_sec (d_ts d) \<or>
        (tv_sec (a_ts a) = tv_sec (d_ts d) \<and> tv_nsec (a_ts a) \<ge> tv_nsec (d_ts d)))))"

lemma clock_passes_expired:
  "clock_passes w d n \<Longrightarrow> n \<le> length (trace w) \<Longrightarrow> fst (run (posixipc_deadline_expired (Some d)) w)"
  by (simp add: clock_passes_def io_simps Let_def answer_to_def)

lemma clock_passes_after [simp]: "clock_passes (after w c) d n = clock_passes w d n"
  by (simp add: clock_passes_def)

lemma size_loop_ends:
  assumes "clock_passes w d n" and "n \<le> length (trace w) + k"
  shows "fst (run (size_loop (Suc k) (Some d) fd b) w) \<noteq> No_fuel"
  using assms
proof (induction k arbitrary: b w)
  case 0
  then have "fst (run (posixipc_deadline_expired (Some d)) w)" by (intro clock_passes_expired) simp_all
  then show ?case by (auto simp: run_bind run_if run_ret split: prod.splits)
next
  case (Suc k)
  obtain e w1 where e: "run (posixipc_deadline_expired (Some d)) w = (e, w1)" by fastforce
  then have w1: "w1 = after w (Clock_gettime (d_clk d))" by (auto dest: run_expired_after)
  let ?s = "answer_to w1 (Fstat fd)" and ?w2 = "after w1 (Fstat fd)"
  obtain ok w3 where p: "run (posixipc_shm_stat_permitted (Some (a_stat ?s))) ?w2 = (ok, w3)" by fastforce
  obtain r b' w4 where s: "run (sleep_backoff b) w3 = ((r, b'), w4)" by (metis prod_cases3 surj_pair)
  have w4: "clock_passes w4 d n" "n \<le> length (trace w4) + k"
    using Suc.prems run_permitted [OF p] run_backoff [OF s] w1 by auto
  from Suc.IH [OF w4, of b'] e p s show ?case
    by (simp only: size_loop.simps(2) [of "Suc k"] run_bind) (simp add: io_simps del: size_loop.simps)
qed

lemma state_loop_ends:
  assumes "clock_passes w d n" and "n \<le> length (trace w) + k"
  shows "fst (run (state_loop (Suc k) (Some d) p b) w) \<noteq> No_fuel"
  using assms
proof (induction k arbitrary: b w)
  case 0
  then have "fst (run (posixipc_deadline_expired (Some d)) w)" by (intro clock_passes_expired) simp_all
  then show ?case by (auto simp: run_bind run_if run_ret split: prod.splits)
next
  case (Suc k)
  obtain e w1 where e: "run (posixipc_deadline_expired (Some d)) w = (e, w1)" by fastforce
  then have w1: "w1 = after w (Clock_gettime (d_clk d))" by (auto dest: run_expired_after)
  let ?w2 = "after w1 (Mem (Load_state p))"
  obtain r b' w4 where s: "run (sleep_backoff b) ?w2 = ((r, b'), w4)" by (metis prod_cases3 surj_pair)
  have w4: "clock_passes w4 d n" "n \<le> length (trace w4) + k"
    using Suc.prems run_backoff [OF s] w1 by auto
  from Suc.IH [OF w4, of b'] e s show ?case
    by (simp only: state_loop.simps(2) [of "Suc k"] run_bind) (simp add: io_simps del: state_loop.simps)
qed

lemma attach_fail_returns: "fst (run (attach_fail rc fdo window mapo tot) w) \<noteq> None"
  by (simp add: attach_fail_def io_simps split: option.splits prod.splits)

lemma attach_ready_returns: "fst (run (attach_ready c nm expect fd window) w) \<noteq> None"
  by (auto simp: attach_ready_def attach_map_def dup_name_def io_simps Let_def attach_fail_returns
      simp del: not_None_eq split: prod.splits if_splits)

lemma clock_passes_env: "env w' = env w \<Longrightarrow> clock_passes w' d n = clock_passes w d n"
  by (simp add: clock_passes_def)

lemma attach_ends:
  assumes "clock_passes w d n"
  shows "fst (run (posixipc_shm_attach c (Suc n) name expect (Some d) o0) w) \<noteq> None"
proof -
  let ?co = "Shm_open (the name) [O_RDWR, O_CLOEXEC] 0"
  let ?w1 = "after w ?co" and ?fd = "a_ret (answer_to w ?co)"
  obtain l w2 where l: "run (size_loop (Suc n) (Some d) ?fd 1) ?w1 = (l, w2)" by fastforce
  have l1: "l \<noteq> No_fuel" using size_loop_ends [of ?w1 d n n ?fd 1] assms l by simp
  let ?cm = "Mmap 64 False ?fd"
  let ?w3 = "after w2 ?cm" and ?p = "nat (a_ret (answer_to w2 ?cm))"
  have "clock_passes ?w3 d n"
    using assms neutralD(3) [OF neutral_size_loop l] by (simp add: clock_passes_env [of w2 w])
  obtain l2 w4 where l2: "run (state_loop (Suc n) (Some d) ?p 1) ?w3 = (l2, w4)" by fastforce
  have "l2 \<noteq> No_fuel" using state_loop_ends [of ?w3 d n n ?p 1] \<open>clock_passes ?w3 d n\<close> l2 by simp
  with l l1 l2 attach_fail_returns attach_ready_returns show ?thesis
    by (auto simp: posixipc_shm_attach_def io_simps Let_def simp del: not_None_eq size_loop.simps state_loop.simps
        split: option.splits loop_end.splits if_splits prod.splits)
qed

section \<open>Open or create\<close>

definition open_post :: "world \<Rightarrow> string \<Rightarrow> posixipc_shm_expect \<Rightarrow> rc \<times> posixipc_shm option \<Rightarrow> world \<Rightarrow> bool" where
  "open_post w nm e res w' \<longleftrightarrow> (case res of (rc, out) \<Rightarrow>
     (rc \<noteq> 0 \<and> out = Some reset_handle \<and> gained w w' None None) \<or>
     (rc = 0 \<and> (\<exists>seg p. out = Some \<lparr>sh_map = Some seg, sh_map_len = unat (e_total_size e),
                            sh_hdr = Some seg, sh_name = Some (p, nm)\<rparr> \<and>
                  gained w w' None (Some (seg, unat (e_total_size e))))))"

lemma open_post_trans: "gained w w1 None None \<Longrightarrow> open_post w1 nm e res w2 \<Longrightarrow> open_post w nm e res w2"
  by (auto simp: open_post_def intro: gained_trans split: prod.splits)

lemma create_open_post: "create_post w nm e (r, w') = open_post w nm e r w'"
  by (simp add: create_post_def open_post_def)

lemma attach_open_post: "attach_post c w nm (Some e) (Some r, w') \<Longrightarrow> open_post w nm e r w'"
  by (auto simp: attach_post_def open_post_def split: prod.splits)

lemma open_or_create_loop_post:
  assumes "errno_set w" and "out0 = Some reset_handle \<or> (0 < n \<and> out0 \<noteq> None)"
    and "run (open_or_create_loop n c fuel name (Some e) d out0) w = (Some r, w')"
  shows "open_post w (the name) e r w'"
  using assms
proof (induction n arbitrary: w out0)
  case 0
  then show ?case by (auto simp: io_simps open_post_def gained_refl)
next
  case (Suc n)
  obtain o1 where o1: "out0 = Some o1" using Suc.prems(2) by auto
  obtain rc out1 w1 where c: "run (posixipc_shm_create c name (Some e) out0) w = ((rc, out1), w1)"
    by (metis prod_cases3 surj_pair)
  have cp: "open_post w (the name) e (rc, out1) w1"
    using create_post [OF Suc.prems(1), of name e c o1] c o1 by (simp add: create_open_post)
  show ?case
  proof (cases "rc = EEXIST")
    case False
    with Suc.prems(3) c cp show ?thesis by (auto simp: io_simps split: if_splits)
  next
    case True
    with cp have g: "out1 = Some reset_handle" "gained w w1 None None" by (auto simp: open_post_def)
    obtain ro w2 where a: "run (posixipc_shm_attach c fuel name (Some e) d out1) w1 = (ro, w2)" by fastforce
    with Suc.prems(3) c True obtain rc2 out2 where ro: "ro = Some (rc2, out2)"
      by (cases ro) (auto simp: io_simps)
    have "attach_post c w1 (the name) (Some e) (ro, w2)"
      using attach_post [OF errno_set_gained [OF Suc.prems(1) g(2)], of c name "Some e" fuel d reset_handle]
      by (simp add: a [unfolded g(1)])
    then have ap: "open_post w (the name) e (rc2, out2) w2"
      using ro g(2) attach_open_post open_post_trans by blast
    show ?thesis
    proof (cases "rc2 = ENOENT")
      case False
      with Suc.prems(3) c True a ro ap show ?thesis by (auto simp: io_simps split: if_splits)
    next
      case rc2: True
      with ap have g2: "out2 = Some reset_handle" "gained w w2 None None" by (auto simp: open_post_def)
      have "run (open_or_create_loop n c fuel name (Some e) d out2) w2 = (Some r, w')"
        using Suc.prems(3) c True a ro rc2 by (simp add: io_simps)
      with Suc.IH [of w2 out2] errno_set_gained [OF Suc.prems(1) g2(2)] g2 show ?thesis
        by (auto intro: open_post_trans)
    qed
  qed
qed

lemma attach_env:
  assumes "errno_set w" and "run (posixipc_shm_attach c fuel name expect d (Some o0)) w = (Some r, w')"
  shows "env w' = env w"
  using attach_post [OF assms(1), of c name expect fuel d o0] assms(2)
  by (auto simp: attach_post_def gained_def split: prod.splits)

lemma create_env:
  assumes "errno_set w" and "run (posixipc_shm_create c name (Some e) (Some o0)) w = (r, w')"
  shows "env w' = env w"
  using create_post [OF assms(1), of name e c o0] assms(2)
  by (auto simp: create_post_def gained_def split: prod.splits)

lemma shm_result_some:
  "run (posixipc_shm_create c name (Some e) (Some o0)) w = ((rc, out), w') \<Longrightarrow> errno_set w \<Longrightarrow> out \<noteq> None"
  "run (posixipc_shm_attach c fuel name expect d (Some o0)) w = (Some (rc, out), w') \<Longrightarrow> errno_set w \<Longrightarrow> out \<noteq> None"
  using create_post [of w name e c o0] attach_post [of w c name expect fuel d o0]
  by (auto simp: create_post_def attach_post_def)

lemma open_or_create_loop_ends:
  assumes "errno_set w" and "clock_passes w d n"
  shows "fst (run (open_or_create_loop k c (Suc n) name (Some e) (Some d) (Some o0)) w) \<noteq> None"
  using assms
proof (induction k arbitrary: w o0)
  case 0
  then show ?case by (simp add: io_simps)
next
  case (Suc k)
  obtain rc out1 w1 where c: "run (posixipc_shm_create c name (Some e) (Some o0)) w = ((rc, out1), w1)"
    by (metis prod_cases3 surj_pair)
  note env1 = create_env [OF Suc.prems(1) c]
  obtain o1 where o1: "out1 = Some o1" using shm_result_some(1) [OF c Suc.prems(1)] by auto
  have es1: "errno_set w1" "clock_passes w1 d n"
    using Suc.prems env1 by (simp_all add: errno_set_def clock_passes_def)
  obtain ro w2 where a: "run (posixipc_shm_attach c (Suc n) name (Some e) (Some d) out1) w1 = (ro, w2)" by fastforce
  then have "ro \<noteq> None" using attach_ends [OF es1(2), of c name "Some e" out1] by simp
  then obtain rc2 out2 where ro: "ro = Some (rc2, out2)" by (cases ro) auto
  obtain o2 where o2: "out2 = Some o2" using shm_result_some(2) es1(1) a ro o1 by blast
  have "env w2 = env w1" using attach_env [OF es1(1)] a ro o1 by blast
  then have "errno_set w2" "clock_passes w2 d n" using es1 by (simp_all add: errno_set_def clock_passes_def)
  from Suc.IH [OF this, of o2] c a ro o2 show ?case by (simp add: io_simps)
qed

section \<open>Order of publication\<close>

text \<open>Calls that do not touch the memory of a segment.\<close>

fun no_store :: "syscall \<Rightarrow> bool" where
  "no_store (Mem (Store_header p h)) = False"
| "no_store (Mem (Store_directory p d)) = False"
| "no_store (Mem (Store_state p s)) = False"
| "no_store c = True"

text \<open>A successful create reaches \<^verbatim>\<open>create_mapped\<close> without having stored anything.\<close>

lemma create_success:
  assumes "errno_set w" and "run (posixipc_shm_create c name (Some e) (Some o0)) w = ((0, out), w')"
  shows "\<exists>w6 seg t. trace w6 = trace w @ t \<and> (\<forall>x \<in> set t. no_store (fst x)) \<and>
           run (create_mapped c (the name) e seg) w6 = ((0, out), w')"
proof -
  let ?nm = "the name"
  let ?co = "Shm_open ?nm [O_CREAT, O_EXCL, O_RDWR, O_CLOEXEC] 0x180"
  let ?w1 = "after w ?co" and ?fd = "a_ret (answer_to w ?co)"
  let ?s = "answer_to ?w1 (Fstat ?fd)"
  let ?w3 = "after (after ?w1 (Fstat ?fd)) Geteuid"
  let ?w4 = "after ?w3 (Ftruncate ?fd (uint (e_total_size e)))"
  let ?cm = "Mmap (unat (e_total_size e)) True ?fd"
  let ?w6 = "after (after ?w4 ?cm) (Close ?fd)"
  have es: "errno_set ?w1" "errno_set ?w3" "errno_set ?w4" "errno_set (after ?w4 ?cm)" using assms(1) by simp_all
  have "fst (fst (run (create_fail ?nm e rc fdo mapo) w2)) = rc" for rc fdo mapo w2
    by (simp add: create_fail_def io_simps split: option.splits)
  then have nf: "run (create_fail ?nm e rc fdo mapo) w2 \<noteq> ((0, out), w')" if "rc \<noteq> 0" for rc fdo mapo w2
    using that by (metis fst_conv)
  have "run (create_mapped c ?nm e (nat (a_ret (answer_to ?w4 ?cm)))) ?w6 = ((0, out), w')"
    using assms(2) nf errno_setD [OF assms(1), of ?co] errno_set_zeroD [OF es(1), of "Fstat ?fd"]
      errno_set_zeroD [OF es(2), of "Ftruncate ?fd (uint (e_total_size e))"] errno_setD [OF es(3), of ?cm]
      errno_set_zeroD [OF es(4), of "Close ?fd"]
    by (simp add: posixipc_shm_create_def posixipc_shm_stat_permitted_def io_simps Let_def split: if_splits)
  then show ?thesis by (intro exI [of _ ?w6] exI [of _ "nat (a_ret (answer_to ?w4 ?cm))"]) simp
qed

definition directory_stores :: "addr \<Rightarrow> posixipc_shm_expect \<Rightarrow> syscall list" where
  "directory_stores seg e =
     (if e_slot_count e = 0 then []
      else [Mem (Store_directory (seg + 64) (take (unat (e_directory_bytes e) div 16) (the (e_slots e))))])"

lemma create_mapped_success:
  assumes "run (create_mapped c nm e seg) w = ((0, out), w')"
  shows "\<exists>p. out = Some \<lparr>sh_map = Some seg, sh_map_len = unat (e_total_size e), sh_hdr = Some seg, sh_name = Some (p, nm)\<rparr>"
    and "map fst (trace w') = map fst (trace w) @ [Mem (Store_header seg (write_header c e))] @
           directory_stores seg e @ [Mem (Store_state seg STATE_INITIALIZING), Malloc (length nm + 1)]"
proof -
  have "fst (fst (run (create_fail nm e rc fdo mapo) w2)) = rc" for rc fdo mapo w2
    by (simp add: create_fail_def io_simps split: option.splits)
  then have nf: "run (create_fail nm e rc fdo mapo) w2 \<noteq> ((0, out), w')" if "rc \<noteq> 0" for rc fdo mapo w2
    using that by (metis fst_conv)
  show "\<exists>p. out = Some \<lparr>sh_map = Some seg, sh_map_len = unat (e_total_size e), sh_hdr = Some seg, sh_name = Some (p, nm)\<rparr>"
    and "map fst (trace w') = map fst (trace w) @ [Mem (Store_header seg (write_header c e))] @
           directory_stores seg e @ [Mem (Store_state seg STATE_INITIALIZING), Malloc (length nm + 1)]"
    using assms nf
    by (auto simp: create_mapped_def write_directory_def dup_name_def directory_stores_def io_simps
        split: if_splits option.splits prod.splits)
qed

section \<open>Properties of segments\<close>

text \<open>
  Two more balances: the names a process made with an exclusive open and did not unlink again, and the blocks of memory it
  allocated and did not free.
\<close>

definition name_delta :: "string \<Rightarrow> syscall \<Rightarrow> int \<Rightarrow> int" where
  "name_delta nm c r =
     (case c of Shm_open nm' fl _ \<Rightarrow> if nm' = nm \<and> O_EXCL \<in> set fl \<and> 0 \<le> r then 1 else 0
              | Shm_unlink nm' \<Rightarrow> if nm' = nm then - 1 else 0
              | _ \<Rightarrow> 0)"

definition block_delta :: "addr \<Rightarrow> syscall \<Rightarrow> int \<Rightarrow> int" where
  "block_delta p c r =
     (case c of Malloc _ \<Rightarrow> if 0 \<le> r \<and> nat r = p then 1 else 0
              | Free q \<Rightarrow> if q = Some p then - 1 else 0
              | _ \<Rightarrow> 0)"

definition names :: "world \<Rightarrow> string \<Rightarrow> int" where
  "names w nm = sum_list (map (\<lambda>(c, a). name_delta nm c (a_ret a)) (trace w))"

definition blocks :: "world \<Rightarrow> addr \<Rightarrow> int" where
  "blocks w p = sum_list (map (\<lambda>(c, a). block_delta p c (a_ret a)) (trace w))"

lemma names_after [simp]: "names (after w c) nm = names w nm + name_delta nm c (a_ret (answer_to w c))"
  by (simp add: names_def)

lemma blocks_after [simp]: "blocks (after w c) p = blocks w p + block_delta p c (a_ret (answer_to w c))"
  by (simp add: blocks_def)

definition owned :: "world \<Rightarrow> world \<Rightarrow> string option \<Rightarrow> addr option \<Rightarrow> bool" where
  "owned w w' nmo po \<longleftrightarrow> (\<forall>nm. names w' nm = names w nm + of_bool (nmo = Some nm)) \<and> (\<forall>p. blocks w' p = blocks w p + of_bool (po = Some p))"

lemma create_fail_owned:
  "owned w w1 (Some nm) None \<Longrightarrow> run (create_fail nm e rc fdo mapo) w1 = ((rc', out), w') \<Longrightarrow> rc' = rc \<and> out = Some reset_handle \<and> owned w w' None None"
  by (auto simp: create_fail_def owned_def name_delta_def block_delta_def io_simps split: option.splits)

definition create_owned :: "world \<Rightarrow> string \<Rightarrow> (rc \<times> posixipc_shm option) \<times> world \<Rightarrow> bool" where
  "create_owned w nm = (\<lambda>((rc, out), w'). if rc = 0 then \<exists>h p. out = Some h \<and> sh_name h = Some (p, nm) \<and> owned w w' (Some nm) (Some p)
     else owned w w' None None)"

lemma create_fail_create_owned: "rc \<noteq> 0 \<Longrightarrow> owned w w1 (Some nm) None \<Longrightarrow> create_owned w nm (run (create_fail nm e rc fdo mapo) w1)"
  using create_fail_owned [of w w1 nm e rc fdo mapo] by (auto simp: create_owned_def split: prod.split)

lemma create_mapped_owned:
  assumes "owned w w1 (Some nm) None"
  shows "create_owned w nm (run (create_mapped c nm e seg) w1)"
proof -
  let ?wh = "after w1 (Mem (Store_header seg (write_header c e)))"
  obtain rc w2 where d: "run (write_directory seg e) ?wh = (rc, w2)" by fastforce
  have o2: "owned w w2 (Some nm) None"
    using assms d by (auto simp: owned_def write_directory_def name_delta_def block_delta_def io_simps split: if_splits option.splits)
  let ?ws = "after w2 (Mem (Store_state seg STATE_INITIALIZING))"
  let ?cm = "Malloc (length nm + 1)"
  have o3: "owned w (after ?ws ?cm) (Some nm) (if a_ret (answer_to ?ws ?cm) < 0 then None else Some (nat (a_ret (answer_to ?ws ?cm))))"
    using o2 by (auto simp: owned_def name_delta_def block_delta_def)
  show ?thesis
    using d create_fail_create_owned [OF _ o2, of rc e None "Some seg"] o3 create_fail_create_owned [of ENOMEM w "after ?ws ?cm" nm e None "Some seg"]
    by (auto simp: create_mapped_def dup_name_def io_simps create_owned_def split: if_splits)
qed

lemma create_owned:
  assumes "errno_set w"
  shows "create_owned w (the name) (run (posixipc_shm_create c name (Some e) (Some o0)) w)"
proof -
  let ?nm = "the name"
  let ?co = "Shm_open ?nm [O_CREAT, O_EXCL, O_RDWR, O_CLOEXEC] 0x180"
  let ?w1 = "after w ?co" and ?fd = "a_ret (answer_to w ?co)"
  let ?w2 = "after ?w1 (Fstat ?fd)"
  let ?w3 = "after ?w2 Geteuid"
  let ?ct = "Ftruncate ?fd (uint (e_total_size e))" and ?cm = "Mmap (unat (e_total_size e)) True ?fd"
  let ?w4 = "after ?w3 ?ct"
  let ?w5 = "after ?w4 ?cm"
  let ?w6 = "after ?w5 (Close ?fd)"
  note deltas = owned_def name_delta_def block_delta_def
  have failed: "create_owned w ?nm (run (create_fail ?nm e (a_errno (answer_to w' s)) fdo mapo) (after w' s))"
    if "a_ret (answer_to w' s) < 0 \<or> zero_or_fails s \<and> a_ret (answer_to w' s) \<noteq> 0" "env w' = env w" "owned w (after w' s) (Some ?nm) None"
    for w' s fdo mapo
  proof (rule create_fail_create_owned [OF _ that(3)])
    have "errno_set w'" using assms that(2) by (simp add: errno_set_def)
    then show "a_errno (answer_to w' s) \<noteq> 0" using that(1) errno_setD [of w' s] errno_set_zeroD [of w' s] by auto
  qed
  show ?thesis
  proof (cases "posixipc_shm_validate_name name = 0 \<and> \<not> e_total_size e < HEADER_BYTES \<and> 0 \<le> ?fd")
    case False
    then show ?thesis using errno_setD [OF assms, of ?co]
      by (auto simp: posixipc_shm_create_def io_simps Let_def create_owned_def deltas)
  next
    case True
    then have o: "owned w ?w1 (Some ?nm) None" "owned w ?w2 (Some ?nm) None" "owned w ?w3 (Some ?nm) None" "owned w ?w4 (Some ?nm) None"
      "owned w ?w5 (Some ?nm) None" "owned w ?w6 (Some ?nm) None" by (auto simp: deltas)
    show ?thesis using True failed [of ?w1 "Fstat ?fd"] failed [of ?w3 ?ct] failed [of ?w4 ?cm] failed [of ?w5 "Close ?fd"]
        create_mapped_owned [OF o(6)] create_fail_create_owned [OF _ o(3), of EACCES] o
      by (auto simp: posixipc_shm_create_def posixipc_shm_stat_permitted_def io_simps Let_def)
  qed
qed

text \<open>
  C26. \<^verbatim>\<open>posixipc_shm_create\<close> owns nothing but what it returns: on every failure, whichever
  call fails, all descriptors and mappings it took are released, the name it made is unlinked, no memory stays allocated and the
  handle is reset; on success the descriptor is closed and exactly one mapping, of the expected size, the name and
  the copy of the name are left, all in the handle.
\<close>

theorem shm_create_contract:
  assumes "errno_set w" and "run (posixipc_shm_create c name (Some e) (Some o0)) w = ((rc, out), w')"
  shows "(rc \<noteq> 0 \<and> out = Some reset_handle \<and> gained w w' None None \<and> owned w w' None None) \<or>
         (rc = 0 \<and> (\<exists>seg p. out = Some \<lparr>sh_map = Some seg, sh_map_len = unat (e_total_size e),
                                sh_hdr = Some seg, sh_name = Some (p, the name)\<rparr> \<and>
                      gained w w' None (Some (seg, unat (e_total_size e))) \<and> owned w w' (Some (the name)) (Some p)))"
  using create_post [OF assms(1), of name e c o0] create_owned [OF assms(1), of name c e o0] assms(2)
  by (auto simp: create_post_def create_owned_def split: if_splits)

definition expect64 :: posixipc_shm_expect where
  "expect64 = expect0\<lparr>e_layout_version := 1, e_total_size := 64\<rparr>"

lemma calm_errno: "errno_set calm_world"
  by (simp add: errno_set_def calm_world_def answer0_def)

lemma calm_create:
  "\<exists>h w'. run (posixipc_shm_create glibc_x86_64 (Some ''/q'') (Some expect64) (Some reset_handle)) calm_world =
     ((0, Some h), w')"
  by (simp add: posixipc_shm_create_def posixipc_shm_validate_name_def posixipc_shm_stat_permitted_def
      create_mapped_def write_directory_def dup_name_def expect64_def expect0_def io_simps Let_def
      answer_to_def calm_world_def answer0_def)

theorem shm_create_contract_witness:
  "\<exists>h w'. run (posixipc_shm_create glibc_x86_64 (Some ''/q'') (Some expect64) (Some reset_handle)) calm_world =
     ((0, Some h), w') \<and> sh_map_len h = 64 \<and> (\<forall>f. fds w' f = fds calm_world f)"
proof -
  obtain h w' where r: "run (posixipc_shm_create glibc_x86_64 (Some ''/q'') (Some expect64) (Some reset_handle))
      calm_world = ((0, Some h), w')" using calm_create by blast
  from shm_create_contract [OF calm_errno r] r show ?thesis by (auto simp: gained_def expect64_def)
qed

text \<open>
  C31. Publication order: when creation and then \<^verbatim>\<open>posixipc_shm_publish\<close> succeed, the stores
  to the segment are the header (with state \<^verbatim>\<open>UNINIT\<close>), the directory, the state
  \<^verbatim>\<open>INITIALIZING\<close> and, last, the state \<^verbatim>\<open>READY\<close>; a process that sees \<^verbatim>\<open>READY\<close> finds header and
  directory written.
\<close>

theorem shm_publish_order:
  assumes "errno_set w" and "run (posixipc_shm_create c name (Some e) (Some o0)) w = ((0, out), w1)"
    and "run (posixipc_shm_publish out) w1 = (rc, w2)"
  shows "rc = 0 \<and> (\<exists>seg pre. map fst (trace w2) = map fst (trace w) @ pre @
           [Mem (Store_header seg (write_header c e))] @ directory_stores seg e @
           [Mem (Store_state seg STATE_INITIALIZING), Malloc (length (the name) + 1),
            Mem (Store_state seg STATE_READY)] \<and>
           list_all no_store pre)"
proof -
  obtain w6 seg t where t: "trace w6 = trace w @ t" "\<forall>x \<in> set t. no_store (fst x)"
      "run (create_mapped c (the name) e seg) w6 = ((0, out), w1)"
    using create_success [OF assms(1,2)] by blast
  note m = create_mapped_success [OF t(3)]
  then have "rc = 0 \<and> w2 = after w1 (Mem (Store_state seg STATE_READY))"
    using assms(3) by (auto simp: posixipc_shm_publish_def io_simps)
  then show ?thesis
    using m(2) t(1,2) by (auto simp: list_all_iff intro!: exI [of _ seg] exI [of _ "map fst t"])
qed

theorem shm_publish_order_witness:
  "\<exists>h w1 w2. run (posixipc_shm_create glibc_x86_64 (Some ''/q'') (Some expect64) (Some reset_handle)) calm_world =
     ((0, Some h), w1) \<and> run (posixipc_shm_publish (Some h)) w1 = (0, w2)"
proof -
  obtain h w1 where r: "run (posixipc_shm_create glibc_x86_64 (Some ''/q'') (Some expect64) (Some reset_handle))
      calm_world = ((0, Some h), w1)" using calm_create by blast
  obtain rc w2 where p: "run (posixipc_shm_publish (Some h)) w1 = (rc, w2)" by fastforce
  from shm_publish_order [OF calm_errno r p] r p show ?thesis by blast
qed

text \<open>
  C4. \<^verbatim>\<open>posixipc_shm_attach\<close>, whenever it returns: on failure everything it took (descriptor,
  header window, mapping) is released and the handle is reset; on success it holds exactly
  the mapping of the handle, the mapped length is at least the header and is the expected
  total size, and magic number, header fields and every directory record were read and
  found equal to the expected ones.
\<close>

theorem shm_attach_contract:
  assumes "errno_set w" and "run (posixipc_shm_attach c fuel name expect d (Some o0)) w = (Some (rc, out), w')"
  shows "(rc \<noteq> 0 \<and> out = Some reset_handle \<and> gained w w' None None) \<or>
         (rc = 0 \<and> (\<exists>seg p n. out = Some \<lparr>sh_map = Some seg, sh_map_len = n, sh_hdr = Some seg,
                                  sh_name = Some (p, the name)\<rparr> \<and>
            64 \<le> n \<and> (\<forall>e. expect = Some e \<longrightarrow> n = unat (e_total_size e)) \<and>
            gained w w' None (Some (seg, n)) \<and> segment_checked c seg expect (trace w')))"
  using attach_post [OF assms(1), of c name expect fuel d o0] assms(2) by (simp add: attach_post_def)

text \<open>An environment with a ready, empty segment.\<close>

fun ready_env :: "history \<Rightarrow> syscall \<Rightarrow> answer" where
  "ready_env h (Fstat f) = answer0\<lparr>a_stat := \<lparr>st_uid = 0, st_mode = 0x180, st_size = 64\<rparr>\<rparr>"
| "ready_env h (Mem (Load_state p)) = answer0\<lparr>a_word := STATE_READY\<rparr>"
| "ready_env h (Mem (Load_total_size p)) = answer0\<lparr>a_word := 64\<rparr>"
| "ready_env h (Mem (Load_header p)) = answer0\<lparr>a_hdr := write_header glibc_x86_64 expect64\<rparr>"
| "ready_env h c = answer0"

definition ready_world :: world where
  "ready_world = \<lparr>env = ready_env, trace = []\<rparr>"

lemma ready_errno: "errno_set ready_world"
proof -
  have "a_ret (ready_env h c) = 0" for h c by (induction h c rule: ready_env.induct) (simp_all add: answer0_def)
  then show ?thesis by (simp add: errno_set_def ready_world_def)
qed

lemma ready_attach:
  "\<exists>h w'. run (posixipc_shm_attach glibc_x86_64 1 (Some ''/q'') (Some expect64) None (Some reset_handle))
     ready_world = (Some (0, Some h), w')"
proof -
  have a: "answer_to (after w c) c' = env w (trace w @ [(c, answer_to w c)]) c'" for w c c'
    by (simp add: answer_to_def)
  have r: "answer_to ready_world c = ready_env [] c" for c by (simp add: answer_to_def ready_world_def)
  have "env ready_world = ready_env" by (simp add: ready_world_def)
  then show ?thesis
    by (simp add: posixipc_shm_attach_def posixipc_shm_validate_name_def posixipc_shm_stat_permitted_def
        attach_ready_def attach_map_def compare_expect_def header_matches_def write_header_def
        dup_name_def io_simps Let_def a r answer0_def expect64_def expect0_def)
qed

theorem shm_attach_contract_witness:
  "\<exists>h w'. run (posixipc_shm_attach glibc_x86_64 1 (Some ''/q'') (Some expect64) None (Some reset_handle))
     ready_world = (Some (0, Some h), w') \<and> sh_map_len h = 64"
proof -
  obtain h w' where r: "run (posixipc_shm_attach glibc_x86_64 1 (Some ''/q'') (Some expect64) None
      (Some reset_handle)) ready_world = (Some (0, Some h), w')" using ready_attach by blast
  from shm_attach_contract [OF ready_errno r] r show ?thesis by (auto simp: expect64_def)
qed

text \<open>
  C30. With a deadline on a clock that reaches it, \<^verbatim>\<open>posixipc_shm_attach\<close> returns: both polling
  loops together need no more iterations than the environment answers calls before its
  clock passes the deadline. \<^verbatim>\<open>posixipc_shm_open_or_create\<close> returns as well.
\<close>

theorem shm_attach_returns:
  assumes "errno_set w" and "clock_passes w d n"
  shows "(\<exists>r w'. run (posixipc_shm_attach c (Suc n) name expect (Some d) (Some o0)) w = (Some r, w')) \<and>
         (\<exists>r w'. run (posixipc_shm_open_or_create c (Suc n) name (Some e) (Some d) (Some o0)) w = (Some r, w'))"
  using attach_ends [OF assms(2), of c name expect "Some o0"]
    open_or_create_loop_ends [OF assms, of 32 c name e o0]
  by (auto simp: posixipc_shm_open_or_create_def split: prod.splits) (metis not_None_eq prod.collapse)+

theorem shm_attach_returns_witness:
  "\<exists>r w'. run (posixipc_shm_attach glibc_x86_64 1 (Some ''/q'') None
     (Some \<lparr>d_clk = CLOCK_MONOTONIC, d_ts = \<lparr>tv_sec = 50, tv_nsec = 0\<rparr>\<rparr>) (Some reset_handle)) calm_world = (Some r, w')"
proof -
  have "clock_passes calm_world \<lparr>d_clk = CLOCK_MONOTONIC, d_ts = \<lparr>tv_sec = 50, tv_nsec = 0\<rparr>\<rparr> 0"
    by (simp add: clock_passes_def calm_world_def answer0_def)
  from shm_attach_returns [OF calm_errno this] show ?thesis by auto
qed

text \<open>
  \<^verbatim>\<open>posixipc_shm_open_or_create\<close> keeps the contract of create and attach through up to 32
  rounds of losing the race: a failure holds nothing, a success holds exactly the mapping of
  the handle.
\<close>

theorem shm_open_or_create_contract:
  assumes "errno_set w"
    and "run (posixipc_shm_open_or_create c fuel name (Some e) d (Some o0)) w = (Some (rc, out), w')"
  shows "(rc \<noteq> 0 \<and> out = Some reset_handle \<and> gained w w' None None) \<or>
         (rc = 0 \<and> (\<exists>seg p. out = Some \<lparr>sh_map = Some seg, sh_map_len = unat (e_total_size e),
                                sh_hdr = Some seg, sh_name = Some (p, the name)\<rparr> \<and>
                      gained w w' None (Some (seg, unat (e_total_size e)))))"
  using open_or_create_loop_post [OF assms(1) _ assms(2) [unfolded posixipc_shm_open_or_create_def]]
  by (simp add: open_post_def)

theorem shm_open_or_create_contract_witness:
  "\<exists>h w'. run (posixipc_shm_open_or_create glibc_x86_64 1 (Some ''/q'') (Some expect64) None (Some reset_handle))
     calm_world = (Some (0, Some h), w') \<and> sh_map_len h = 64"
proof -
  obtain h w' where r: "run (posixipc_shm_create glibc_x86_64 (Some ''/q'') (Some expect64) (Some reset_handle))
      calm_world = ((0, Some h), w')" using calm_create by blast
  then have "run (posixipc_shm_open_or_create glibc_x86_64 1 (Some ''/q'') (Some expect64) None (Some reset_handle))
      calm_world = (Some (0, Some h), w')"
    by (simp add: posixipc_shm_open_or_create_def eval_nat_numeral io_simps)
  from shm_open_or_create_contract [OF calm_errno this] this show ?thesis by (auto simp: expect64_def)
qed

text \<open>
  Round trip of a handle: closing the handle that create returned gives back the mapping,
  so that afterwards nothing is held, and closing it again does nothing.
\<close>

theorem shm_create_close:
  assumes "errno_set w" and "run (posixipc_shm_create c name (Some e) (Some o0)) w = ((0, out), w1)"
    and "run (posixipc_shm_close out) w1 = ((0, out2), w2)"
  shows "gained w w2 None None \<and> out2 = Some reset_handle \<and> run (posixipc_shm_close out2) w2 = ((0, out2), w2)"
proof -
  obtain seg p where o: "out = Some \<lparr>sh_map = Some seg, sh_map_len = unat (e_total_size e), sh_hdr = Some seg,
        sh_name = Some (p, the name)\<rparr>" and g: "gained w w1 None (Some (seg, unat (e_total_size e)))"
    using create_post [OF assms(1), of name e c o0] assms(2) by (auto simp: create_post_def)
  let ?c = "Munmap seg (unat (e_total_size e))"
  have "a_ret (answer_to w1 ?c) \<noteq> 0 \<Longrightarrow> a_errno (answer_to w1 ?c) \<noteq> 0"
    using errno_set_zeroD [OF errno_set_gained [OF assms(1) g], of ?c] by simp
  then have "out2 = Some reset_handle \<and> w2 = after (after w1 ?c) (Free (Some p))"
    using assms(3) by (auto simp: posixipc_shm_close_def o io_simps split: if_splits)
  moreover have "gained w (after (after w1 ?c) (Free (Some p))) None None"
    by (rule gained_call [OF gained_munmap [OF g]]) simp
  ultimately show ?thesis by (simp add: posixipc_shm_close_def reset_handle_def io_simps)
qed

theorem shm_create_close_witness:
  "\<exists>h w1 w2. run (posixipc_shm_create glibc_x86_64 (Some ''/q'') (Some expect64) (Some reset_handle)) calm_world =
     ((0, Some h), w1) \<and> run (posixipc_shm_close (Some h)) w1 = ((0, Some reset_handle), w2) \<and>
     gained calm_world w2 None None"
proof -
  obtain h w1 where r: "run (posixipc_shm_create glibc_x86_64 (Some ''/q'') (Some expect64) (Some reset_handle))
      calm_world = ((0, Some h), w1)" using calm_create by blast
  have a: "answer_to w1 c = answer0" for c
    using create_env [OF calm_errno r] by (simp add: answer_to_def calm_world_def)
  obtain o2 w2 where "run (posixipc_shm_close (Some h)) w1 = ((0, o2), w2)"
    by (cases "sh_map h") (auto simp: posixipc_shm_close_def io_simps a answer0_def)
  from shm_create_close [OF calm_errno r this] this r show ?thesis by auto
qed

lemma offset_ptr_exact_lemma:
  assumes "sh_map h = Some base" and "sh_hdr h = Some p" and "64 + unat (h_directory_bytes hdr) < 2 ^ 32"
  shows "posixipc_shm_offset_ptr (Some h) hdr off sz al (Some o0) =
    (if 64 + unat (h_directory_bytes hdr) \<le> unat off \<and> sz \<noteq> 0 \<and>
        unat off + unat sz \<le> unat (h_total_size hdr) \<and> (unat al \<le> 1 \<or> unat al dvd unat off)
     then (0, Some (Some (base + unat off))) else (EINVAL, Some o0))"
proof -
  have d: "unat (HEADER_BYTES + h_directory_bytes hdr) = 64 + unat (h_directory_bytes hdr)"
    using assms(3) unat_add_no_wrap [of 64 "h_directory_bytes hdr"] by simp
  have "(h_total_size hdr - off < sz) = (unat (h_total_size hdr) < unat off + unat sz)"
    if "off \<le> h_total_size hdr"
    using that unat_sub [OF that] by (auto simp: word_less_nat_alt word_le_nat_alt)
  moreover have "(off mod al \<noteq> 0) = (\<not> unat al dvd unat off)"
    by (simp add: word_unat_eq_iff unat_mod mod_eq_0_iff_dvd)
  moreover have "(1 < al) = (\<not> unat al \<le> 1)" by (simp add: word_less_nat_alt not_le)
  ultimately show ?thesis
    using assms(1,2) by (auto simp: posixipc_shm_offset_ptr_def Let_def word_less_nat_alt word_le_nat_alt d)
qed

text \<open>
  \<^verbatim>\<open>posixipc_shm_offset_ptr\<close> is an exact bounds check for a header whose directory fits
  32 bits: it grants a range exactly when the range is non-empty, starts after the
  directory, ends inside the segment (computed without wrap-around) and is aligned, and the
  pointer is the base plus the offset; a refusal leaves the output alone.
\<close>

theorem offset_ptr_exact:
  assumes "sh_map h = Some base" and "sh_hdr h = Some p" and "64 + unat (h_directory_bytes hdr) < 2 ^ 32"
  shows "posixipc_shm_offset_ptr (Some h) hdr off sz al (Some o0) =
    (if 64 + unat (h_directory_bytes hdr) \<le> unat off \<and> sz \<noteq> 0 \<and>
        unat off + unat sz \<le> unat (h_total_size hdr) \<and> (unat al \<le> 1 \<or> unat al dvd unat off)
     then (0, Some (Some (base + unat off))) else (EINVAL, Some o0))"
  by (rule offset_ptr_exact_lemma [OF assms])

theorem offset_ptr_exact_witness:
  "posixipc_shm_offset_ptr (Some (reset_handle\<lparr>sh_map := Some 4096, sh_hdr := Some 4096\<rparr>))
     (write_header glibc_x86_64 (expect64\<lparr>e_total_size := 256, e_directory_bytes := 16\<rparr>)) 128 64 64 (Some None) =
   (0, Some (Some 4224))"
  using offset_ptr_exact [of "reset_handle\<lparr>sh_map := Some 4096, sh_hdr := Some 4096\<rparr>" 4096 4096
      "write_header glibc_x86_64 (expect64\<lparr>e_total_size := 256, e_directory_bytes := 16\<rparr>)" 128 64 64 None]
  by (simp add: write_header_def)

text \<open>
  The bound on the directory is needed: with a header whose directory size wraps the
  32-bit sum, \<^verbatim>\<open>posixipc_shm_offset_ptr\<close> grants a range at offset 0, on top of the header
  itself. Attaching without an expected layout performs no check that excludes such a header.
\<close>

theorem offset_ptr_wrapped_directory:
  "posixipc_shm_offset_ptr (Some (reset_handle\<lparr>sh_map := Some 4096, sh_hdr := Some 4096\<rparr>))
     (write_header glibc_x86_64 (expect64\<lparr>e_total_size := 256, e_directory_bytes := 0xffffffc0\<rparr>)) 0 64 1 (Some None) =
   (0, Some (Some 4096))"
  by (simp add: posixipc_shm_offset_ptr_def write_header_def Let_def)

text \<open>
  C37. Layout and segment fit together: after building a layout, the header that create
  writes for it admits every slot of the layout, at base plus its offset, with the slot's own
  size and alignment.
\<close>

theorem layout_slots_reachable:
  assumes c: "config_ok c" and n: "unat n \<le> length arr"
    and b: "posixipc_layout_build c (Some arr) n (Some out0) = (0, Some arr', Some e)"
    and i: "i < unat n" and h: "sh_map h = Some base" "sh_hdr h = Some p"
  shows "posixipc_shm_offset_ptr (Some h) (write_header c e) (s_offset (arr' ! i)) (s_size (arr' ! i))
           (ucast (s_align (arr' ! i))) (Some o0) =
         (0, Some (Some (base + unat (s_offset (arr' ! i)))))"
proof -
  obtain front cursor where f: "arr' = front @ drop (unat n) arr"
      "e = build_expect c (front @ drop (unat n) arr) n cursor" "length front = unat n"
      and p: "slots_placed (layout_start n) front (unat cursor)"
    by (rule layout_build_successE [OF c n b]) simp
  have s: "arr' ! i = front ! i" using f i by (simp add: nth_append)
  note pl = slots_placed_nth [OF p, of i]
  have tot: "unat (h_total_size (write_header c e)) = unat cursor"
    by (simp add: write_header_def f(2) build_expect_def)
  have dir: "unat (h_directory_bytes (write_header c e)) = 16 * unat n"
    by (simp add: write_header_def f(2) build_expect_def dir_bytes_exact)
  have "64 + unat (h_directory_bytes (write_header c e)) < 2 ^ 32"
    using dir unat_u16_less [of n] by simp
  note ex = offset_ptr_exact_lemma [OF h this]
  show ?thesis
    unfolding ex using pl i f(3) by (simp add: s tot dir layout_start_def)
qed

theorem layout_slots_reachable_witness:
  "posixipc_shm_offset_ptr (Some (reset_handle\<lparr>sh_map := Some 4096, sh_hdr := Some 4096\<rparr>))
     (write_header glibc_x86_64 (build_expect glibc_x86_64 layout_example_built 2 292))
     (s_offset (layout_example_built ! 1)) (s_size (layout_example_built ! 1))
     (ucast (s_align (layout_example_built ! 1))) (Some None) = (0, Some (Some 4288))"
proof -
  have n: "unat (2 :: u16) \<le> length layout_example" "1 < unat (2 :: u16)" by (simp_all add: layout_example_def)
  from layout_slots_reachable [OF glibc_x86_64_ok n(1) layout_example_result n(2),
      of "reset_handle\<lparr>sh_map := Some 4096, sh_hdr := Some 4096\<rparr>" 4096 4096 None]
  show ?thesis by (simp add: layout_example_built_def)
qed

end
