(* ===== verification/Primitives.thy ===== *)
theory Primitives
  imports Layout Time
begin

text \<open>
  The process-shared primitives of the core: the run-time lookup of the clock-aware lock
  functions (\<^verbatim>\<open>posixipc_clocksym.c\<close>) and the wrappers around pthread mutexes, read-write
  locks, condition variables, semaphores, spin locks and barriers (\<^verbatim>\<open>posixipc_mutex.c\<close>,
  \<^verbatim>\<open>posixipc_rwlock.c\<close>, \<^verbatim>\<open>posixipc_cond.c\<close>, \<^verbatim>\<open>posixipc_sem.c\<close>, \<^verbatim>\<open>posixipc_spin.c\<close>,
  \<^verbatim>\<open>posixipc_barrier.c\<close>). Objects are addresses, a NULL pointer is \<^const>\<open>None\<close>. The lemmas show
  which attributes an initialisation sets, that attribute objects are always destroyed, and
  that timed waits never mix clocks.
\<close>

section \<open>Looking up the clock functions\<close>

text \<open>The static variables of \<^verbatim>\<open>posixipc_clocksym.c\<close>.\<close>

record clocksym =
  g_mutex_clocklock :: "addr option"
  g_rwlock_clockrdlock :: "addr option"
  g_rwlock_clockwrlock :: "addr option"
  g_sem_clockwait :: "addr option"
  g_inited :: bool

definition dlsym :: "string \<Rightarrow> addr option io" where
  "dlsym s = do {
     a \<leftarrow> call (Dlsym s);
     ret (if a_ret a < 0 then None else Some (nat (a_ret a))) }"

definition posixipc_clocksym_init :: "clocksym \<Rightarrow> clocksym io" where
  "posixipc_clocksym_init g =
     (if g_inited g then ret g
      else do {
        f1 \<leftarrow> dlsym ''pthread_mutex_clocklock'';
        f2 \<leftarrow> dlsym ''pthread_rwlock_clockrdlock'';
        f3 \<leftarrow> dlsym ''pthread_rwlock_clockwrlock'';
        f4 \<leftarrow> dlsym ''sem_clockwait'';
        ret \<lparr>g_mutex_clocklock = f1, g_rwlock_clockrdlock = f2, g_rwlock_clockwrlock = f3,
             g_sem_clockwait = f4, g_inited = True\<rparr> })"

definition posixipc_clocksym_set_mutex_clocklock :: "addr option \<Rightarrow> clocksym \<Rightarrow> clocksym" where
  "posixipc_clocksym_set_mutex_clocklock fn g = g\<lparr>g_mutex_clocklock := fn, g_inited := True\<rparr>"

definition posixipc_have_mutex_clocklock :: "clocksym \<Rightarrow> (bool \<times> clocksym) io" where
  "posixipc_have_mutex_clocklock g = do {
     g \<leftarrow> posixipc_clocksym_init g;
     ret (g_mutex_clocklock g \<noteq> None, g) }"

definition posixipc_mutex_clocklock :: "clocksym \<Rightarrow> addr \<Rightarrow> clockid \<Rightarrow> timespec \<Rightarrow> (rc \<times> clocksym) io" where
  "posixipc_mutex_clocklock g m clk ts = do {
     g \<leftarrow> posixipc_clocksym_init g;
     if g_mutex_clocklock g = None then ret (ENOSYS, g)
     else do { rc \<leftarrow> call_rc (Mutex (Mutex_clocklock m clk ts)); ret (rc, g) } }"

definition posixipc_have_rwlock_clocklock :: "clocksym \<Rightarrow> (bool \<times> clocksym) io" where
  "posixipc_have_rwlock_clocklock g = do {
     g \<leftarrow> posixipc_clocksym_init g;
     ret (g_rwlock_clockrdlock g \<noteq> None \<and> g_rwlock_clockwrlock g \<noteq> None, g) }"

definition posixipc_rwlock_clockrdlock :: "clocksym \<Rightarrow> addr \<Rightarrow> clockid \<Rightarrow> timespec \<Rightarrow> (rc \<times> clocksym) io" where
  "posixipc_rwlock_clockrdlock g rw clk ts = do {
     g \<leftarrow> posixipc_clocksym_init g;
     if g_rwlock_clockrdlock g = None then ret (ENOSYS, g)
     else do { rc \<leftarrow> call_rc (Rwlock (Rwlock_clockrdlock rw clk ts)); ret (rc, g) } }"

definition posixipc_rwlock_clockwrlock :: "clocksym \<Rightarrow> addr \<Rightarrow> clockid \<Rightarrow> timespec \<Rightarrow> (rc \<times> clocksym) io" where
  "posixipc_rwlock_clockwrlock g rw clk ts = do {
     g \<leftarrow> posixipc_clocksym_init g;
     if g_rwlock_clockwrlock g = None then ret (ENOSYS, g)
     else do { rc \<leftarrow> call_rc (Rwlock (Rwlock_clockwrlock rw clk ts)); ret (rc, g) } }"

definition posixipc_have_sem_clockwait :: "clocksym \<Rightarrow> (bool \<times> clocksym) io" where
  "posixipc_have_sem_clockwait g = do {
     g \<leftarrow> posixipc_clocksym_init g;
     ret (g_sem_clockwait g \<noteq> None, g) }"

text \<open>
  \<^verbatim>\<open>sem_clockwait\<close> reports through its return value and \<^verbatim>\<open>errno\<close>; both are returned. The branch
  without the function leaves \<^verbatim>\<open>errno\<close> as it was; its only caller tests for the function first.
\<close>

definition posixipc_sem_clockwait :: "clocksym \<Rightarrow> addr \<Rightarrow> clockid \<Rightarrow> timespec \<Rightarrow> ((rc \<times> rc) \<times> clocksym) io" where
  "posixipc_sem_clockwait g s clk ts = do {
     g \<leftarrow> posixipc_clocksym_init g;
     if g_sem_clockwait g = None then ret ((ENOSYS, ENOSYS), g)
     else do { a \<leftarrow> call (Sem (Sem_clockwait s clk ts)); ret ((a_ret a, a_errno a), g) } }"

section \<open>Mutexes\<close>

definition flag_set :: "u32 \<Rightarrow> u32 \<Rightarrow> bool" where
  "flag_set flags f \<longleftrightarrow> flags AND f \<noteq> 0"

text \<open>A step of an initialisation that runs only when \<open>b\<close> holds and no step before it failed.\<close>

definition step_if :: "bool \<Rightarrow> syscall \<Rightarrow> rc \<Rightarrow> rc io" where
  "step_if b c rc = (if rc \<noteq> 0 then ret rc else if b then call_rc c else ret 0)"

definition posixipc_mutex_init :: "addr option \<Rightarrow> u32 option \<Rightarrow> rc io" where
  "posixipc_mutex_init m cfg =
     (let flags = (case cfg of None \<Rightarrow> 0 | Some f \<Rightarrow> f) in
      case m of None \<Rightarrow> ret EINVAL | Some p \<Rightarrow> do {
        rc \<leftarrow> call_rc (Mutex Mutexattr_init);
        if rc \<noteq> 0 then ret rc
        else do {
          rc \<leftarrow> step_if True (Mutex Mutexattr_settype_errorcheck) 0;
          rc \<leftarrow> step_if (flag_set flags FLAG_PROCESS_SHARED) (Mutex Mutexattr_setpshared) rc;
          rc \<leftarrow> step_if (flag_set flags FLAG_ROBUST) (Mutex Mutexattr_setrobust) rc;
          rc \<leftarrow> step_if (flag_set flags FLAG_PRIORITY_INHERIT) (Mutex Mutexattr_setprotocol_inherit) rc;
          rc \<leftarrow> step_if True (Mutex (Mutex_init p)) rc;
          call_ignore (Mutex Mutexattr_destroy);
          ret rc } })"

definition posixipc_mutex_lock :: "addr option \<Rightarrow> rc io" where
  "posixipc_mutex_lock m = (case m of None \<Rightarrow> ret EINVAL | Some p \<Rightarrow> call_rc (Mutex (Mutex_lock p)))"

definition posixipc_mutex_trylock :: "addr option \<Rightarrow> rc io" where
  "posixipc_mutex_trylock m = (case m of None \<Rightarrow> ret EINVAL | Some p \<Rightarrow> call_rc (Mutex (Mutex_trylock p)))"

definition posixipc_mutex_unlock :: "addr option \<Rightarrow> rc io" where
  "posixipc_mutex_unlock m = (case m of None \<Rightarrow> ret EINVAL | Some p \<Rightarrow> call_rc (Mutex (Mutex_unlock p)))"

definition posixipc_mutex_consistent :: "addr option \<Rightarrow> rc io" where
  "posixipc_mutex_consistent m = (case m of None \<Rightarrow> ret EINVAL | Some p \<Rightarrow> call_rc (Mutex (Mutex_consistent p)))"

definition posixipc_mutex_destroy :: "addr option \<Rightarrow> rc io" where
  "posixipc_mutex_destroy m = (case m of None \<Rightarrow> ret EINVAL | Some p \<Rightarrow> call_rc (Mutex (Mutex_destroy p)))"

definition posixipc_mutex_lock_until ::
    "clocksym \<Rightarrow> addr option \<Rightarrow> posixipc_deadline option \<Rightarrow> (rc \<times> clocksym) io" where
  "posixipc_mutex_lock_until g m dl =
     (case (m, dl) of
        (Some p, Some d) \<Rightarrow> do {
          (have_it, g) \<leftarrow> posixipc_have_mutex_clocklock g;
          if have_it then posixipc_mutex_clocklock g p (d_clk d) (d_ts d)
          else if d_clk d \<noteq> CLOCK_REALTIME then ret (EINVAL, g)
          else do { rc \<leftarrow> call_rc (Mutex (Mutex_timedlock p (d_ts d))); ret (rc, g) } }
      | _ \<Rightarrow> ret (EINVAL, g))"

definition posixipc_mutex_storage_size :: "config \<Rightarrow> u32" where
  "posixipc_mutex_storage_size c = posixipc_kind_size c KIND_MUTEX 0"

section \<open>Read-write locks\<close>

definition posixipc_rwlock_init :: "addr option \<Rightarrow> u32 option \<Rightarrow> rc io" where
  "posixipc_rwlock_init rw cfg =
     (let flags = (case cfg of None \<Rightarrow> 0 | Some f \<Rightarrow> f) in
      case rw of None \<Rightarrow> ret EINVAL | Some p \<Rightarrow> do {
        rc \<leftarrow> call_rc (Rwlock Rwlockattr_init);
        if rc \<noteq> 0 then ret rc
        else do {
          rc \<leftarrow> step_if (flag_set flags FLAG_PROCESS_SHARED) (Rwlock Rwlockattr_setpshared) 0;
          if rc \<noteq> 0 then do { call_ignore (Rwlock Rwlockattr_destroy); ret rc }
          else do {
            rc \<leftarrow> call_rc (Rwlock (Rwlock_init p));
            call_ignore (Rwlock Rwlockattr_destroy);
            ret rc } } })"

definition posixipc_rwlock_rdlock :: "addr option \<Rightarrow> rc io" where
  "posixipc_rwlock_rdlock rw = (case rw of None \<Rightarrow> ret EINVAL | Some p \<Rightarrow> call_rc (Rwlock (Rwlock_rdlock p)))"

definition posixipc_rwlock_wrlock :: "addr option \<Rightarrow> rc io" where
  "posixipc_rwlock_wrlock rw = (case rw of None \<Rightarrow> ret EINVAL | Some p \<Rightarrow> call_rc (Rwlock (Rwlock_wrlock p)))"

definition posixipc_rwlock_tryrdlock :: "addr option \<Rightarrow> rc io" where
  "posixipc_rwlock_tryrdlock rw = (case rw of None \<Rightarrow> ret EINVAL | Some p \<Rightarrow> call_rc (Rwlock (Rwlock_tryrdlock p)))"

definition posixipc_rwlock_trywrlock :: "addr option \<Rightarrow> rc io" where
  "posixipc_rwlock_trywrlock rw = (case rw of None \<Rightarrow> ret EINVAL | Some p \<Rightarrow> call_rc (Rwlock (Rwlock_trywrlock p)))"

definition posixipc_rwlock_unlock :: "addr option \<Rightarrow> rc io" where
  "posixipc_rwlock_unlock rw = (case rw of None \<Rightarrow> ret EINVAL | Some p \<Rightarrow> call_rc (Rwlock (Rwlock_unlock p)))"

definition posixipc_rwlock_destroy :: "addr option \<Rightarrow> rc io" where
  "posixipc_rwlock_destroy rw = (case rw of None \<Rightarrow> ret EINVAL | Some p \<Rightarrow> call_rc (Rwlock (Rwlock_destroy p)))"

definition posixipc_rwlock_clock :: "clocksym \<Rightarrow> (clockid \<times> clocksym) io" where
  "posixipc_rwlock_clock g = do {
     (have_it, g) \<leftarrow> posixipc_have_rwlock_clocklock g;
     ret (if have_it then CLOCK_MONOTONIC else CLOCK_REALTIME, g) }"

definition posixipc_rwlock_rdlock_until ::
    "clocksym \<Rightarrow> addr option \<Rightarrow> posixipc_deadline option \<Rightarrow> (rc \<times> clocksym) io" where
  "posixipc_rwlock_rdlock_until g rw dl =
     (case (rw, dl) of
        (Some p, Some d) \<Rightarrow> do {
          (have_it, g) \<leftarrow> posixipc_have_rwlock_clocklock g;
          if have_it then posixipc_rwlock_clockrdlock g p (d_clk d) (d_ts d)
          else if d_clk d \<noteq> CLOCK_REALTIME then ret (EINVAL, g)
          else do { rc \<leftarrow> call_rc (Rwlock (Rwlock_timedrdlock p (d_ts d))); ret (rc, g) } }
      | _ \<Rightarrow> ret (EINVAL, g))"

definition posixipc_rwlock_wrlock_until ::
    "clocksym \<Rightarrow> addr option \<Rightarrow> posixipc_deadline option \<Rightarrow> (rc \<times> clocksym) io" where
  "posixipc_rwlock_wrlock_until g rw dl =
     (case (rw, dl) of
        (Some p, Some d) \<Rightarrow> do {
          (have_it, g) \<leftarrow> posixipc_have_rwlock_clocklock g;
          if have_it then posixipc_rwlock_clockwrlock g p (d_clk d) (d_ts d)
          else if d_clk d \<noteq> CLOCK_REALTIME then ret (EINVAL, g)
          else do { rc \<leftarrow> call_rc (Rwlock (Rwlock_timedwrlock p (d_ts d))); ret (rc, g) } }
      | _ \<Rightarrow> ret (EINVAL, g))"

definition posixipc_rwlock_storage_size :: "config \<Rightarrow> u32" where
  "posixipc_rwlock_storage_size c = posixipc_kind_size c KIND_RWLOCK 0"

section \<open>Semaphores\<close>

text \<open>The configuration holds the flags and the initial value.\<close>

definition posixipc_sem_init :: "addr option \<Rightarrow> (u32 \<times> nat) option \<Rightarrow> rc io" where
  "posixipc_sem_init s cfg =
     (let flags = (case cfg of None \<Rightarrow> 0 | Some (f, _) \<Rightarrow> f);
          val = (case cfg of None \<Rightarrow> 0 | Some (_, v) \<Rightarrow> v)
      in case s of None \<Rightarrow> ret EINVAL
         | Some p \<Rightarrow> call_errno (Sem (Sem_init p (flag_set flags FLAG_PROCESS_SHARED) val)))"

definition posixipc_sem_wait :: "addr option \<Rightarrow> rc io" where
  "posixipc_sem_wait s = (case s of None \<Rightarrow> ret EINVAL | Some p \<Rightarrow> call_errno (Sem (Sem_wait p)))"

definition posixipc_sem_trywait :: "addr option \<Rightarrow> rc io" where
  "posixipc_sem_trywait s = (case s of None \<Rightarrow> ret EINVAL | Some p \<Rightarrow> call_errno (Sem (Sem_trywait p)))"

definition posixipc_sem_post :: "addr option \<Rightarrow> rc io" where
  "posixipc_sem_post s = (case s of None \<Rightarrow> ret EINVAL | Some p \<Rightarrow> call_errno (Sem (Sem_post p)))"

definition posixipc_sem_destroy :: "addr option \<Rightarrow> rc io" where
  "posixipc_sem_destroy s = (case s of None \<Rightarrow> ret EINVAL | Some p \<Rightarrow> call_errno (Sem (Sem_destroy p)))"

definition posixipc_sem_clock :: "clocksym \<Rightarrow> (clockid \<times> clocksym) io" where
  "posixipc_sem_clock g = do {
     (have_it, g) \<leftarrow> posixipc_have_sem_clockwait g;
     ret (if have_it then CLOCK_MONOTONIC else CLOCK_REALTIME, g) }"

definition posixipc_sem_wait_until ::
    "clocksym \<Rightarrow> addr option \<Rightarrow> posixipc_deadline option \<Rightarrow> (rc \<times> clocksym) io" where
  "posixipc_sem_wait_until g s dl =
     (case (s, dl) of
        (Some p, Some d) \<Rightarrow> do {
          (have_it, g) \<leftarrow> posixipc_have_sem_clockwait g;
          if have_it then do {
            ((r, eno), g) \<leftarrow> posixipc_sem_clockwait g p (d_clk d) (d_ts d);
            ret (if r = 0 then 0 else eno, g) }
          else if d_clk d \<noteq> CLOCK_REALTIME then ret (EINVAL, g)
          else do { rc \<leftarrow> call_errno (Sem (Sem_timedwait p (d_ts d))); ret (rc, g) } }
      | _ \<Rightarrow> ret (EINVAL, g))"

definition posixipc_sem_storage_size :: "config \<Rightarrow> u32" where
  "posixipc_sem_storage_size c = posixipc_kind_size c KIND_SEM 0"

section \<open>Condition variables\<close>

definition posixipc_cond_init :: "config \<Rightarrow> addr option \<Rightarrow> u32 option \<Rightarrow> rc io" where
  "posixipc_cond_init c cv cfg =
     (let flags = (case cfg of None \<Rightarrow> 0 | Some f \<Rightarrow> f) in
      case cv of None \<Rightarrow> ret EINVAL | Some p \<Rightarrow> do {
        rc \<leftarrow> call_rc (Cond Condattr_init);
        if rc \<noteq> 0 then ret rc
        else do {
          rc \<leftarrow> step_if (flag_set flags FLAG_PROCESS_SHARED) (Cond Condattr_setpshared) 0;
          if rc \<noteq> 0 then do { call_ignore (Cond Condattr_destroy); ret rc }
          else do {
            rc \<leftarrow> step_if (HAVE_PTHREAD_CONDATTR_SETCLOCK c \<and> flag_set flags FLAG_MONOTONIC)
                    (Cond Condattr_setclock_monotonic) 0;
            if rc \<noteq> 0 then do { call_ignore (Cond Condattr_destroy); ret rc }
            else do {
              rc \<leftarrow> call_rc (Cond (Cond_init p));
              call_ignore (Cond Condattr_destroy);
              ret rc } } } })"

definition posixipc_cond_signal :: "addr option \<Rightarrow> rc io" where
  "posixipc_cond_signal cv = (case cv of None \<Rightarrow> ret EINVAL | Some p \<Rightarrow> call_rc (Cond (Cond_signal p)))"

definition posixipc_cond_broadcast :: "addr option \<Rightarrow> rc io" where
  "posixipc_cond_broadcast cv = (case cv of None \<Rightarrow> ret EINVAL | Some p \<Rightarrow> call_rc (Cond (Cond_broadcast p)))"

definition posixipc_cond_wait :: "addr option \<Rightarrow> addr option \<Rightarrow> rc io" where
  "posixipc_cond_wait cv m =
     (case (cv, m) of (Some p, Some q) \<Rightarrow> call_rc (Cond (Cond_wait p q)) | _ \<Rightarrow> ret EINVAL)"

definition posixipc_cond_wait_until :: "addr option \<Rightarrow> addr option \<Rightarrow> posixipc_deadline option \<Rightarrow> rc io" where
  "posixipc_cond_wait_until cv m dl =
     (case (cv, m, dl) of (Some p, Some q, Some d) \<Rightarrow> call_rc (Cond (Cond_timedwait p q (d_ts d)))
                        | _ \<Rightarrow> ret EINVAL)"

definition posixipc_cond_destroy :: "addr option \<Rightarrow> rc io" where
  "posixipc_cond_destroy cv = (case cv of None \<Rightarrow> ret EINVAL | Some p \<Rightarrow> call_rc (Cond (Cond_destroy p)))"

definition posixipc_cond_clock :: "u32 \<Rightarrow> clockid" where
  "posixipc_cond_clock flags = (if flag_set flags FLAG_MONOTONIC then CLOCK_MONOTONIC else CLOCK_REALTIME)"

definition posixipc_cond_storage_size :: "config \<Rightarrow> u32" where
  "posixipc_cond_storage_size c = posixipc_kind_size c KIND_COND 0"

section \<open>Spin locks\<close>

definition posixipc_spin_init :: "config \<Rightarrow> addr option \<Rightarrow> u32 option \<Rightarrow> rc io" where
  "posixipc_spin_init c s cfg =
     (if HAVE_PTHREAD_SPIN_INIT c
      then let flags = (case cfg of None \<Rightarrow> 0 | Some f \<Rightarrow> f) in
        case s of None \<Rightarrow> ret EINVAL
        | Some p \<Rightarrow> call_rc (SpinBarrier (Spin_init p (flag_set flags FLAG_PROCESS_SHARED)))
      else ret ENOTSUP)"

definition posixipc_spin_trylock :: "config \<Rightarrow> addr option \<Rightarrow> rc io" where
  "posixipc_spin_trylock c s =
     (if HAVE_PTHREAD_SPIN_TRYLOCK c
      then case s of None \<Rightarrow> ret EINVAL | Some p \<Rightarrow> call_rc (SpinBarrier (Spin_trylock p))
      else ret ENOTSUP)"

definition posixipc_spin_unlock :: "config \<Rightarrow> addr option \<Rightarrow> rc io" where
  "posixipc_spin_unlock c s =
     (if HAVE_PTHREAD_SPIN_INIT c
      then case s of None \<Rightarrow> ret EINVAL | Some p \<Rightarrow> call_rc (SpinBarrier (Spin_unlock p))
      else ret ENOTSUP)"

definition posixipc_spin_destroy :: "config \<Rightarrow> addr option \<Rightarrow> rc io" where
  "posixipc_spin_destroy c s =
     (if HAVE_PTHREAD_SPIN_INIT c
      then case s of None \<Rightarrow> ret EINVAL | Some p \<Rightarrow> call_rc (SpinBarrier (Spin_destroy p))
      else ret ENOTSUP)"

definition posixipc_spin_storage_size :: "config \<Rightarrow> u32" where
  "posixipc_spin_storage_size c = posixipc_kind_size c KIND_SPIN 0"

section \<open>Barriers\<close>

definition posixipc_barrier_init :: "config \<Rightarrow> addr option \<Rightarrow> (u32 \<times> nat) option \<Rightarrow> rc io" where
  "posixipc_barrier_init c b cfg =
     (if HAVE_PTHREAD_BARRIER_WAIT c
      then let flags = (case cfg of None \<Rightarrow> 0 | Some (f, _) \<Rightarrow> f);
               parties = (case cfg of None \<Rightarrow> 0 | Some (_, n) \<Rightarrow> n)
        in case b of None \<Rightarrow> ret EINVAL | Some p \<Rightarrow>
          if parties = 0 then ret EINVAL
          else do {
            rc \<leftarrow> call_rc (SpinBarrier Barrierattr_init);
            if rc \<noteq> 0 then ret rc
            else if flag_set flags FLAG_PROCESS_SHARED \<and> \<not> HAVE_PTHREAD_BARRIERATTR_SETPSHARED c
            then do { call_ignore (SpinBarrier Barrierattr_destroy); ret ENOTSUP }
            else do {
              rc \<leftarrow> step_if (flag_set flags FLAG_PROCESS_SHARED) (SpinBarrier Barrierattr_setpshared) 0;
              if rc \<noteq> 0 then do { call_ignore (SpinBarrier Barrierattr_destroy); ret rc }
              else do {
                rc \<leftarrow> call_rc (SpinBarrier (Barrier_init p parties));
                call_ignore (SpinBarrier Barrierattr_destroy);
                ret rc } } }
      else ret ENOTSUP)"

text \<open>\<^verbatim>\<open>PTHREAD_BARRIER_SERIAL_THREAD\<close> is -1.\<close>

definition posixipc_barrier_wait :: "config \<Rightarrow> addr option \<Rightarrow> rc io" where
  "posixipc_barrier_wait c b =
     (if HAVE_PTHREAD_BARRIER_WAIT c
      then case b of None \<Rightarrow> ret EINVAL | Some p \<Rightarrow> do {
        rc \<leftarrow> call_rc (SpinBarrier (Barrier_wait p));
        if rc = 0 then ret 0
        else if rc = - 1 then ret POSIXIPC_BARRIER_SERIAL
        else ret rc }
      else ret ENOTSUP)"

definition posixipc_barrier_destroy :: "config \<Rightarrow> addr option \<Rightarrow> rc io" where
  "posixipc_barrier_destroy c b =
     (if HAVE_PTHREAD_BARRIER_WAIT c
      then case b of None \<Rightarrow> ret EINVAL | Some p \<Rightarrow> call_rc (SpinBarrier (Barrier_destroy p))
      else ret ENOTSUP)"

definition posixipc_barrier_storage_size :: "config \<Rightarrow> u32" where
  "posixipc_barrier_storage_size c = posixipc_kind_size c KIND_BARRIER 0"

section \<open>What the initialisations do\<close>

text \<open>The calls a run adds to the trace.\<close>

definition calls :: "'a io \<Rightarrow> world \<Rightarrow> syscall list" where
  "calls m w = map fst (drop (length (trace w)) (trace (snd (run m w))))"

lemma run_step_if [io_simps]:
  "run (step_if b c rc) w =
     (if rc \<noteq> 0 then (rc, w) else if b then (a_ret (answer_to w c), after w c) else (0, w))"
  by (simp add: step_if_def io_simps)

text \<open>The settings requested by the flags, in the order the code applies them.\<close>

definition mutex_settings :: "u32 \<Rightarrow> syscall list" where
  "mutex_settings flags =
     [Mutex Mutexattr_settype_errorcheck] @
     (if flag_set flags FLAG_PROCESS_SHARED then [Mutex Mutexattr_setpshared] else []) @
     (if flag_set flags FLAG_ROBUST then [Mutex Mutexattr_setrobust] else []) @
     (if flag_set flags FLAG_PRIORITY_INHERIT then [Mutex Mutexattr_setprotocol_inherit] else [])"

definition cond_settings :: "config \<Rightarrow> u32 \<Rightarrow> syscall list" where
  "cond_settings c flags =
     (if flag_set flags FLAG_PROCESS_SHARED then [Cond Condattr_setpshared] else []) @
     (if HAVE_PTHREAD_CONDATTR_SETCLOCK c \<and> flag_set flags FLAG_MONOTONIC then [Cond Condattr_setclock_monotonic] else [])"

text \<open>
  What is common to the initialisations with an attribute object: the calls of a run are the
  creation of the attribute alone (it failed), or the creation, a prefix of the steps and the
  destruction; and all of the steps when the run returns 0.
\<close>

definition attr_protocol :: "syscall \<Rightarrow> syscall list \<Rightarrow> syscall \<Rightarrow> rc \<Rightarrow> syscall list \<Rightarrow> bool" where
  "attr_protocol create steps destroy rc ext \<longleftrightarrow>
     (ext = [create] \<and> rc \<noteq> 0) \<or>
     (\<exists>k. ext = create # take k steps @ [destroy] \<and> (rc = 0 \<longrightarrow> length steps \<le> k))"

lemma calls_run: "run m w = (r, w') \<Longrightarrow> trace w' = trace w @ t \<Longrightarrow> calls m w = map fst t"
  by (simp add: calls_def)

text \<open>The steps as a list, executed until one fails.\<close>

primrec do_steps :: "syscall list \<Rightarrow> rc io" where
  "do_steps [] = ret 0"
| "do_steps (c # cs) = do { rc \<leftarrow> call_rc c; if rc \<noteq> 0 then ret rc else do_steps cs }"

lemma do_steps_run:
  "\<exists>k t. trace (snd (run (do_steps cs) w)) = trace w @ t \<and> map fst t = take k cs \<and> k \<le> length cs \<and>
     (fst (run (do_steps cs) w) = 0 \<longrightarrow> k = length cs)"
proof (induction cs arbitrary: w)
  case Nil
  then show ?case by (simp add: io_simps)
next
  case (Cons c cs)
  show ?case
  proof (cases "a_ret (answer_to w c) = 0")
    case True
    obtain k t where "trace (snd (run (do_steps cs) (after w c))) = trace (after w c) @ t"
        "map fst t = take k cs" "k \<le> length cs" "fst (run (do_steps cs) (after w c)) = 0 \<longrightarrow> k = length cs"
      using Cons.IH [of "after w c"] by blast
    with True show ?thesis
      by (intro exI [of _ "Suc k"] exI [of _ "(c, answer_to w c) # t"]) (simp add: io_simps)
  next
    case False
    then show ?thesis
      by (intro exI [of _ "Suc 0"] exI [of _ "[(c, answer_to w c)]"]) (simp add: io_simps)
  qed
qed

text \<open>An initialisation in the shape create; steps; destroy follows the protocol.\<close>

lemma attr_protocol_run:
  assumes "\<And>w. run m w = run (do {
             rc \<leftarrow> call_rc create;
             if rc \<noteq> 0 then ret rc
             else do { rc \<leftarrow> do_steps steps; call_ignore destroy; ret rc } }) w"
  shows "attr_protocol create steps destroy (fst (run m w)) (calls m w)"
proof (cases "a_ret (answer_to w create) = 0")
  case False
  then show ?thesis by (simp add: attr_protocol_def calls_def assms io_simps)
next
  case True
  let ?w1 = "after w create"
  obtain k t where t: "trace (snd (run (do_steps steps) ?w1)) = trace ?w1 @ t" "map fst t = take k steps"
      "fst (run (do_steps steps) ?w1) = 0 \<longrightarrow> k = length steps"
    using do_steps_run [of steps ?w1] by blast
  obtain rc w2 where r: "run (do_steps steps) ?w1 = (rc, w2)" by fastforce
  have "run m w = (rc, after w2 destroy)" using True r by (simp add: assms io_simps)
  moreover have "trace (after w2 destroy) = trace w @ ([(create, answer_to w create)] @ t @ [(destroy, answer_to w2 destroy)])"
    using t(1) r by simp
  ultimately have "calls m w = create # take k steps @ [destroy]" "fst (run m w) = rc"
    using t(2) by (simp_all add: calls_def)
  then show ?thesis using t(3) r by (auto simp: attr_protocol_def)
qed

definition opt_step :: "bool \<Rightarrow> syscall \<Rightarrow> syscall list" where
  "opt_step b c = (if b then [c] else [])"

lemma run_do_steps_append:
  "run (do_steps (xs @ ys)) w =
     (case run (do_steps xs) w of (rc, w') \<Rightarrow> if rc \<noteq> 0 then (rc, w') else run (do_steps ys) w')"
  by (induction xs arbitrary: w) (auto simp: io_simps split: prod.splits)

lemma io_eqI: "(\<And>w. run m w = run m' w) \<Longrightarrow> m = m'"
  by (cases m; cases m') (auto simp: run_def)

text \<open>Consecutive steps are one list of steps: with the error carried along, and with an exit \<open>D\<close>.\<close>

lemma step_if_start: "step_if b c 0 = do_steps (opt_step b c)"
  by (rule io_eqI) (auto simp: step_if_def opt_step_def io_simps)

lemma step_if_fuse: "do_steps xs \<bind> (\<lambda>rc. step_if b c rc \<bind> f) = do_steps (xs @ opt_step b c) \<bind> f"
  by (rule io_eqI) (auto simp: step_if_def opt_step_def run_do_steps_append io_simps split: prod.splits)

lemma steps_exit_fuse:
  "do_steps xs \<bind> (\<lambda>rc. if rc \<noteq> 0 then D rc else do_steps ys \<bind> D) = do_steps (xs @ ys) \<bind> D"
  by (rule io_eqI) (auto simp: run_do_steps_append io_simps split: prod.splits)

lemma opt_step_True [simp]: "opt_step True c = [c]"
  by (simp add: opt_step_def)

lemma steps_exit_last:
  "do_steps xs \<bind> (\<lambda>rc. if rc \<noteq> 0 then D rc else call_rc c \<bind> D) = do_steps (xs @ [c]) \<bind> D"
  by (rule io_eqI) (auto simp: run_do_steps_append io_simps split: prod.splits)

text \<open>
  Initialising a mutex applies exactly the settings its flags ask for, in order (always
  error-checking; shared, robust and priority-inheriting as requested), then initialises the
  mutex; it stops at the first call that fails and returns its code; 0 means all of them
  succeeded; and an attribute object that was created is destroyed on every path.
\<close>

theorem mutex_init_protocol:
  "attr_protocol (Mutex Mutexattr_init) (mutex_settings flags @ [Mutex (Mutex_init p)]) (Mutex Mutexattr_destroy)
     (fst (run (posixipc_mutex_init (Some p) (Some flags)) w))
     (calls (posixipc_mutex_init (Some p) (Some flags)) w)"
  by (rule attr_protocol_run)
    (simp add: posixipc_mutex_init_def mutex_settings_def step_if_start step_if_fuse
      opt_step_def [symmetric] del: do_steps.simps split del: if_split cong: if_cong)

lemma cond_init_steps:
  "attr_protocol (Cond Condattr_init) (cond_settings c flags @ [Cond (Cond_init p)]) (Cond Condattr_destroy)
     (fst (run (posixipc_cond_init c (Some p) (Some flags)) w))
     (calls (posixipc_cond_init c (Some p) (Some flags)) w)"
  by (rule attr_protocol_run)
    (simp add: posixipc_cond_init_def cond_settings_def step_if_start opt_step_def [symmetric]
      steps_exit_fuse steps_exit_last del: do_steps.simps split del: if_split cong: if_cong)

text \<open>
  Initialising a condition variable follows the same protocol: shared and, where the
  platform has the call, on the monotonic clock as its flags ask for.
\<close>

theorem cond_init_protocol:
  "attr_protocol (Cond Condattr_init) (cond_settings c flags @ [Cond (Cond_init p)]) (Cond Condattr_destroy)
     (fst (run (posixipc_cond_init c (Some p) (Some flags)) w))
     (calls (posixipc_cond_init c (Some p) (Some flags)) w)"
  by (rule cond_init_steps)

lemma rwlock_init_protocol:
  "attr_protocol (Rwlock Rwlockattr_init)
     (opt_step (flag_set flags FLAG_PROCESS_SHARED) (Rwlock Rwlockattr_setpshared) @ [Rwlock (Rwlock_init p)])
     (Rwlock Rwlockattr_destroy)
     (fst (run (posixipc_rwlock_init (Some p) (Some flags)) w))
     (calls (posixipc_rwlock_init (Some p) (Some flags)) w)"
  by (rule attr_protocol_run)
    (simp add: posixipc_rwlock_init_def step_if_start steps_exit_last del: do_steps.simps
      split del: if_split cong: if_cong)

lemma barrier_init_protocol:
  assumes "HAVE_PTHREAD_BARRIER_WAIT c" and "HAVE_PTHREAD_BARRIERATTR_SETPSHARED c" and "0 < n"
  shows "attr_protocol (SpinBarrier Barrierattr_init)
     (opt_step (flag_set flags FLAG_PROCESS_SHARED) (SpinBarrier Barrierattr_setpshared) @ [SpinBarrier (Barrier_init p n)])
     (SpinBarrier Barrierattr_destroy)
     (fst (run (posixipc_barrier_init c (Some p) (Some (flags, n))) w))
     (calls (posixipc_barrier_init c (Some p) (Some (flags, n))) w)"
  using assms
  by (intro attr_protocol_run)
    (simp add: posixipc_barrier_init_def step_if_start steps_exit_last del: do_steps.simps
      split del: if_split cong: if_cong)

section \<open>Clocks\<close>

lemma clocksym_inited: "g_inited g \<Longrightarrow> run (posixipc_clocksym_init g) w = (g, w)"
  by (simp add: posixipc_clocksym_init_def io_simps)

lemma clocksym_init_once:
  assumes "run (posixipc_clocksym_init g) w = (g', w')"
  shows "g_inited g'"
proof -
  have "g_inited (fst (run (posixipc_clocksym_init g) w))"
    by (simp add: posixipc_clocksym_init_def io_simps split: prod.split)
  with assms show ?thesis by simp
qed

lemma rwlock_clock_result:
  assumes "run (posixipc_rwlock_clock g) w = ((clk, g1), w1)"
  shows "g_inited g1" and "clk = (if g_rwlock_clockrdlock g1 \<noteq> None \<and> g_rwlock_clockwrlock g1 \<noteq> None
                               then CLOCK_MONOTONIC else CLOCK_REALTIME)"
  using assms clocksym_init_once [of g w]
  by (auto simp: posixipc_rwlock_clock_def posixipc_have_rwlock_clocklock_def run_bind run_ret split: prod.splits)

lemma sem_clock_result:
  assumes "run (posixipc_sem_clock g) w = ((clk, g1), w1)"
  shows "g_inited g1" and "clk = (if g_sem_clockwait g1 \<noteq> None then CLOCK_MONOTONIC else CLOCK_REALTIME)"
  using assms clocksym_init_once [of g w]
  by (auto simp: posixipc_sem_clock_def posixipc_have_sem_clockwait_def run_bind run_ret split: prod.splits)

text \<open>
  Timed waits and clocks agree: a deadline made on the clock that \<^verbatim>\<open>posixipc_rwlock_clock\<close>
  reports is never refused. The read and the write lock wait in exactly one call, on that
  clock: the clock-aware function when both exist (monotonic), the timed one otherwise
  (real time), and return its code.
\<close>

theorem rwlock_until_reported_clock:
  assumes "run (posixipc_rwlock_clock g) w = ((clk, g1), w1)" and "d_clk d = clk"
  shows "let c = (if clk = CLOCK_MONOTONIC then Rwlock (Rwlock_clockrdlock p CLOCK_MONOTONIC (d_ts d))
                  else Rwlock (Rwlock_timedrdlock p (d_ts d)));
             c' = (if clk = CLOCK_MONOTONIC then Rwlock (Rwlock_clockwrlock p CLOCK_MONOTONIC (d_ts d))
                   else Rwlock (Rwlock_timedwrlock p (d_ts d)))
         in run (posixipc_rwlock_rdlock_until g1 (Some p) (Some d)) w1 = ((a_ret (answer_to w1 c), g1), after w1 c) \<and>
            run (posixipc_rwlock_wrlock_until g1 (Some p) (Some d)) w1 = ((a_ret (answer_to w1 c'), g1), after w1 c')"
  using rwlock_clock_result [OF assms(1)] assms(2)
  by (auto simp: posixipc_rwlock_rdlock_until_def posixipc_rwlock_wrlock_until_def posixipc_have_rwlock_clocklock_def
      posixipc_rwlock_clockrdlock_def posixipc_rwlock_clockwrlock_def clocksym_inited io_simps Let_def)

definition clocksym0 :: clocksym where
  "clocksym0 = \<lparr>g_mutex_clocklock = None, g_rwlock_clockrdlock = None, g_rwlock_clockwrlock = None,
                g_sem_clockwait = None, g_inited = False\<rparr>"

theorem rwlock_until_reported_clock_witness:
  "\<exists>g1 w1. run (posixipc_rwlock_clock clocksym0) calm_world = ((CLOCK_MONOTONIC, g1), w1) \<and>
     fst (fst (run (posixipc_rwlock_rdlock_until g1 (Some 8) (Some \<lparr>d_clk = CLOCK_MONOTONIC, d_ts = ts_zero\<rparr>)) w1)) = 0"
proof -
  obtain clk g1 w1 where r: "run (posixipc_rwlock_clock clocksym0) calm_world = ((clk, g1), w1)"
    by (metis prod_cases3 surj_pair)
  have "clk = CLOCK_MONOTONIC" "env w1 = env calm_world"
    using r by (auto simp: posixipc_rwlock_clock_def posixipc_have_rwlock_clocklock_def posixipc_clocksym_init_def
        dlsym_def clocksym0_def io_simps answer_to_def calm_world_def answer0_def)
  with rwlock_until_reported_clock [OF r, of "\<lparr>d_clk = CLOCK_MONOTONIC, d_ts = ts_zero\<rparr>" 8] r show ?thesis
    by (auto simp: Let_def answer_to_def calm_world_def answer0_def)
qed

lemma sem_until_reported_clock:
  assumes "run (posixipc_sem_clock g) w = ((clk, g1), w1)" and "d_clk d = clk"
  shows "let c = (if clk = CLOCK_MONOTONIC then Sem (Sem_clockwait p CLOCK_MONOTONIC (d_ts d))
                  else Sem (Sem_timedwait p (d_ts d)))
         in run (posixipc_sem_wait_until g1 (Some p) (Some d)) w1 =
              ((if a_ret (answer_to w1 c) = 0 then 0 else a_errno (answer_to w1 c), g1), after w1 c)"
  using sem_clock_result [OF assms(1)] assms(2)
  by (auto simp: posixipc_sem_wait_until_def posixipc_have_sem_clockwait_def posixipc_sem_clockwait_def
      clocksym_inited io_simps Let_def)

text \<open>
  On a platform without \<^verbatim>\<open>pthread_condattr_setclock\<close> the two halves of the condition
  variable disagree: \<^verbatim>\<open>posixipc_cond_clock\<close> tells callers to make monotonic deadlines for a
  condition variable created with the monotonic flag, but \<^verbatim>\<open>posixipc_cond_init\<close> never sets its
  clock, so the wait compares them with the real-time clock.
\<close>

theorem cond_clock_disagrees:
  assumes "\<not> HAVE_PTHREAD_CONDATTR_SETCLOCK c" and "flag_set flags FLAG_MONOTONIC"
  shows "posixipc_cond_clock flags = CLOCK_MONOTONIC \<and>
         Cond Condattr_setclock_monotonic \<notin> set (calls (posixipc_cond_init c (Some p) (Some flags)) w) \<and>
         calls (posixipc_cond_wait_until (Some p) (Some m) (Some d)) w = [Cond (Cond_timedwait p m (d_ts d))]"
proof -
  have "set (calls (posixipc_cond_init c (Some p) (Some flags)) w) \<subseteq>
      {Cond Condattr_init, Cond Condattr_destroy, Cond (Cond_init p)} \<union> set (cond_settings c flags)"
    using cond_init_steps [of c flags p w] by (auto simp: attr_protocol_def simp del: take_append dest!: in_set_takeD)
  moreover have "Cond Condattr_setclock_monotonic \<notin> set (cond_settings c flags)"
    using assms(1) by (simp add: cond_settings_def)
  ultimately have "Cond Condattr_setclock_monotonic \<notin> set (calls (posixipc_cond_init c (Some p) (Some flags)) w)"
    by auto
  then show ?thesis
    using assms(2) by (simp add: posixipc_cond_clock_def posixipc_cond_wait_until_def calls_def io_simps)
qed

theorem cond_clock_disagrees_witness:
  "posixipc_cond_clock FLAG_MONOTONIC = CLOCK_MONOTONIC \<and>
   Cond Condattr_setclock_monotonic \<notin> set (calls (posixipc_cond_init
     (glibc_x86_64\<lparr>HAVE_PTHREAD_CONDATTR_SETCLOCK := False\<rparr>) (Some 8) (Some FLAG_MONOTONIC)) calm_world)"
  using cond_clock_disagrees [of "glibc_x86_64\<lparr>HAVE_PTHREAD_CONDATTR_SETCLOCK := False\<rparr>" FLAG_MONOTONIC 8 calm_world]
  by (simp add: flag_set_def)

end
