(* ===== verification/Named.thy ===== *)
theory Named
  imports Shm
begin

text \<open>
  Named semaphores (\<^verbatim>\<open>src/src/core/posixipc_nsem.c\<close>) and POSIX message queues
  (\<^verbatim>\<open>src/src/core/posixipc_mq.c\<close>): thin layers over the kernel objects that validate names and
  arguments. Output parameters are part of the results; \<^verbatim>\<open>(mqd_t)-1\<close> is \<open>- 1\<close>.
\<close>

section \<open>Named semaphores\<close>

definition posixipc_nsem_validate_name :: "config \<Rightarrow> string option \<Rightarrow> rc" where
  "posixipc_nsem_validate_name c name =
     (let rc = posixipc_shm_validate_name name in
      if rc \<noteq> 0 then rc
      else if LIBC_FAMILY c = 1 \<and> length (tl (the name)) > 255 - 4 then ENAMETOOLONG
      else 0)"

definition posixipc_nsem_create ::
    "config \<Rightarrow> string option \<Rightarrow> nat \<Rightarrow> addr option option \<Rightarrow> (rc \<times> addr option option) io" where
  "posixipc_nsem_create c name val out =
     (if \<not> HAVE_SEM_OPEN c then ret (ENOTSUP, out)
      else case out of None \<Rightarrow> ret (EINVAL, out) | Some _ \<Rightarrow>
        let rc = posixipc_nsem_validate_name c name in
        if rc \<noteq> 0 then ret (rc, Some None)
        else do {
          a \<leftarrow> call (Sem (Sem_open (the name) [O_CREAT, O_EXCL] (Some (0x180, val))));
          if a_ret a < 0 then ret (a_errno a, Some None)
          else ret (0, Some (Some (nat (a_ret a)))) })"

definition posixipc_nsem_attach ::
    "config \<Rightarrow> string option \<Rightarrow> addr option option \<Rightarrow> (rc \<times> addr option option) io" where
  "posixipc_nsem_attach c name out =
     (if \<not> HAVE_SEM_OPEN c then ret (ENOTSUP, out)
      else case out of None \<Rightarrow> ret (EINVAL, out) | Some _ \<Rightarrow>
        let rc = posixipc_nsem_validate_name c name in
        if rc \<noteq> 0 then ret (rc, Some None)
        else do {
          a \<leftarrow> call (Sem (Sem_open (the name) [] None));
          if a_ret a < 0 then ret (a_errno a, Some None)
          else ret (0, Some (Some (nat (a_ret a)))) })"

definition posixipc_nsem_close :: "config \<Rightarrow> addr option \<Rightarrow> rc io" where
  "posixipc_nsem_close c s =
     (if \<not> HAVE_SEM_OPEN c then ret ENOTSUP
      else case s of None \<Rightarrow> ret EINVAL | Some p \<Rightarrow> call_errno (Sem (Sem_close p)))"

definition posixipc_nsem_unlink :: "config \<Rightarrow> string option \<Rightarrow> rc io" where
  "posixipc_nsem_unlink c name =
     (if \<not> HAVE_SEM_OPEN c then ret ENOTSUP
      else let rc = posixipc_nsem_validate_name c name in
        if rc \<noteq> 0 then ret rc else call_errno (Sem (Sem_unlink (the name))))"

section \<open>Message queues\<close>

definition posixipc_mq_validate_name :: "string option \<Rightarrow> rc" where
  "posixipc_mq_validate_name name =
     (let rc = posixipc_shm_validate_name name in
      if rc \<noteq> 0 then rc
      else if length (tl (the name)) > 255 then ENAMETOOLONG
      else 0)"

text \<open>Create and open-or-create differ in the flags of \<^verbatim>\<open>mq_open\<close>.\<close>

definition posixipc_mq_create ::
    "config \<Rightarrow> string option \<Rightarrow> int \<Rightarrow> int \<Rightarrow> int option \<Rightarrow> (rc \<times> int option) io" where
  "posixipc_mq_create c name maxmsg msgsize out =
     (if \<not> HAVE_MQ_OPEN c then ret (ENOTSUP, out)
      else if out = None \<or> maxmsg < 1 \<or> msgsize < 1 then ret (EINVAL, out)
      else let rc = posixipc_mq_validate_name name in
        if rc \<noteq> 0 then ret (rc, Some (- 1))
        else do {
          a \<leftarrow> call (Mq (Mq_open (the name) [O_CREAT, O_EXCL, O_RDWR] (Some (0x180, maxmsg, msgsize))));
          if a_ret a = - 1 then ret (a_errno a, Some (- 1))
          else ret (0, Some (a_ret a)) })"

definition posixipc_mq_open_or_create ::
    "config \<Rightarrow> string option \<Rightarrow> int \<Rightarrow> int \<Rightarrow> int option \<Rightarrow> (rc \<times> int option) io" where
  "posixipc_mq_open_or_create c name maxmsg msgsize out =
     (if \<not> HAVE_MQ_OPEN c then ret (ENOTSUP, out)
      else if out = None \<or> maxmsg < 1 \<or> msgsize < 1 then ret (EINVAL, out)
      else let rc = posixipc_mq_validate_name name in
        if rc \<noteq> 0 then ret (rc, Some (- 1))
        else do {
          a \<leftarrow> call (Mq (Mq_open (the name) [O_CREAT, O_RDWR] (Some (0x180, maxmsg, msgsize))));
          if a_ret a = - 1 then ret (a_errno a, Some (- 1))
          else ret (0, Some (a_ret a)) })"

definition posixipc_mq_attach :: "config \<Rightarrow> string option \<Rightarrow> int option \<Rightarrow> (rc \<times> int option) io" where
  "posixipc_mq_attach c name out =
     (if \<not> HAVE_MQ_OPEN c then ret (ENOTSUP, out)
      else if out = None then ret (EINVAL, out)
      else let rc = posixipc_mq_validate_name name in
        if rc \<noteq> 0 then ret (rc, Some (- 1))
        else do {
          a \<leftarrow> call (Mq (Mq_open (the name) [O_RDWR] None));
          if a_ret a = - 1 then ret (a_errno a, Some (- 1))
          else ret (0, Some (a_ret a)) })"

definition posixipc_mq_close :: "config \<Rightarrow> int \<Rightarrow> rc io" where
  "posixipc_mq_close c mq =
     (if \<not> HAVE_MQ_OPEN c then ret ENOTSUP
      else if mq = - 1 then ret EINVAL
      else call_errno (Mq (Mq_close mq)))"

definition posixipc_mq_unlink :: "config \<Rightarrow> string option \<Rightarrow> rc io" where
  "posixipc_mq_unlink c name =
     (if \<not> HAVE_MQ_OPEN c then ret ENOTSUP
      else let rc = posixipc_mq_validate_name name in
        if rc \<noteq> 0 then ret rc else call_errno (Mq (Mq_unlink (the name))))"

text \<open>The buffer and its length are one argument: the first \<^verbatim>\<open>len\<close> bytes.\<close>

definition posixipc_mq_send :: "config \<Rightarrow> int \<Rightarrow> u8 list option \<Rightarrow> nat \<Rightarrow> rc io" where
  "posixipc_mq_send c mq buf prio =
     (if \<not> HAVE_MQ_OPEN c then ret ENOTSUP
      else if mq = - 1 then ret EINVAL
      else case buf of None \<Rightarrow> ret EINVAL | Some bs \<Rightarrow> call_errno (Mq (Mq_send mq bs prio)))"

definition posixipc_mq_send_until ::
    "config \<Rightarrow> int \<Rightarrow> u8 list option \<Rightarrow> nat \<Rightarrow> posixipc_deadline option \<Rightarrow> rc io" where
  "posixipc_mq_send_until c mq buf prio dl =
     (if \<not> HAVE_MQ_OPEN c then ret ENOTSUP
      else if mq = - 1 then ret EINVAL
      else case (buf, dl) of
        (Some bs, Some d) \<Rightarrow> call_errno (Mq (Mq_timedsend mq bs prio (d_ts d)))
      | _ \<Rightarrow> ret EINVAL)"

text \<open>
  A received message: the bytes the call wrote to the buffer, the length in \<^verbatim>\<open>*got\<close>, and the
  priority, stored unless \<^verbatim>\<open>prio\<close> is NULL.
\<close>

definition posixipc_mq_receive ::
    "config \<Rightarrow> int \<Rightarrow> nat option \<Rightarrow> u32 option \<Rightarrow> int option \<Rightarrow> (rc \<times> u8 list \<times> u32 option \<times> int option) io" where
  "posixipc_mq_receive c mq buf_len prio got =
     (if \<not> HAVE_MQ_OPEN c then ret (ENOTSUP, [], prio, got)
      else case (buf_len, got) of
        (Some len, Some _) \<Rightarrow>
          (if mq = - 1 then ret (EINVAL, [], prio, got)
           else do {
             a \<leftarrow> call (Mq (Mq_receive mq len));
             if a_ret a < 0 then ret (a_errno a, [], prio, got)
             else ret (0, a_bytes a, map_option (\<lambda>_. a_word a) prio, Some (a_ret a)) })
      | _ \<Rightarrow> ret (EINVAL, [], prio, got))"

definition posixipc_mq_receive_until ::
    "config \<Rightarrow> int \<Rightarrow> nat option \<Rightarrow> u32 option \<Rightarrow> int option \<Rightarrow> posixipc_deadline option \<Rightarrow>
     (rc \<times> u8 list \<times> u32 option \<times> int option) io" where
  "posixipc_mq_receive_until c mq buf_len prio got dl =
     (if \<not> HAVE_MQ_OPEN c then ret (ENOTSUP, [], prio, got)
      else case (buf_len, got, dl) of
        (Some len, Some _, Some d) \<Rightarrow>
          (if mq = - 1 then ret (EINVAL, [], prio, got)
           else do {
             a \<leftarrow> call (Mq (Mq_timedreceive mq len (d_ts d)));
             if a_ret a < 0 then ret (a_errno a, [], prio, got)
             else ret (0, a_bytes a, map_option (\<lambda>_. a_word a) prio, Some (a_ret a)) })
      | _ \<Rightarrow> ret (EINVAL, [], prio, got))"

definition posixipc_mq_notify_signal :: "config \<Rightarrow> int \<Rightarrow> int \<Rightarrow> rc io" where
  "posixipc_mq_notify_signal c mq signo =
     (if \<not> HAVE_MQ_OPEN c then ret ENOTSUP
      else if mq = - 1 \<or> signo < 1 then ret EINVAL
      else call_errno (Mq (Mq_notify mq (Some (Ev_signal signo)))))"

definition posixipc_mq_notify_thread :: "config \<Rightarrow> int \<Rightarrow> addr option \<Rightarrow> addr \<Rightarrow> rc io" where
  "posixipc_mq_notify_thread c mq fn arg =
     (if \<not> HAVE_MQ_OPEN c then ret ENOTSUP
      else if mq = - 1 then ret EINVAL
      else case fn of None \<Rightarrow> ret EINVAL
        | Some f \<Rightarrow> call_errno (Mq (Mq_notify mq (Some (Ev_thread f arg)))))"

definition posixipc_mq_notify_cancel :: "config \<Rightarrow> int \<Rightarrow> rc io" where
  "posixipc_mq_notify_cancel c mq =
     (if \<not> HAVE_MQ_OPEN c then ret ENOTSUP
      else if mq = - 1 then ret EINVAL
      else call_errno (Mq (Mq_notify mq None)))"

text \<open>\<^verbatim>\<open>mq_getattr\<close> answers with the message size as a number of bytes.\<close>

definition posixipc_mq_msgsize :: "config \<Rightarrow> int \<Rightarrow> int option \<Rightarrow> (rc \<times> int option) io" where
  "posixipc_mq_msgsize c mq out =
     (if \<not> HAVE_MQ_OPEN c then ret (ENOTSUP, out)
      else if mq = - 1 \<or> out = None then ret (EINVAL, out)
      else do {
        a \<leftarrow> call (Mq (Mq_getattr mq));
        if a_ret a \<noteq> 0 then ret (a_errno a, out)
        else ret (0, Some (uint (a_u64 a))) })"

section \<open>Properties\<close>

text \<open>The shape of a valid name, as the documentation of the kernel objects gives it.\<close>

definition name_ok :: "nat \<Rightarrow> string \<Rightarrow> bool" where
  "name_ok mx s \<longleftrightarrow> (\<exists>r. s = CHR ''/'' # r \<and> r \<noteq> [] \<and> CHR ''/'' \<notin> set r \<and> r \<noteq> ''.'' \<and> r \<noteq> ''..'' \<and> length r \<le> mx)"

lemma validate_name_ok: "(posixipc_shm_validate_name (Some s) = 0) = name_ok 255 s"
  by (auto simp: posixipc_shm_validate_name_def name_ok_def split: list.splits)

lemma nsem_name_ok:
  "LIBC_FAMILY c = 1 \<Longrightarrow> (posixipc_nsem_validate_name c (Some s) = 0) = name_ok 251 s"
  by (auto simp: posixipc_nsem_validate_name_def validate_name_ok Let_def) (auto simp: name_ok_def)

text \<open>
  Names and outputs of named semaphores: creation reaches the kernel exactly for names of
  the shape slash, one to 251 characters without slash, not dot or dot-dot (glibc adds four
  characters of its own), always with exclusive creation and mode 0600; in every other case
  no call is made; and the output is a semaphore exactly on success, NULL otherwise.
\<close>

theorem nsem_create_correct:
  assumes "HAVE_SEM_OPEN c" and "LIBC_FAMILY c = 1" and "errno_set w"
    and "run (posixipc_nsem_create c (Some s) val (Some o0)) w = ((rc, out), w')"
  shows "(name_ok 251 s \<longrightarrow> w' = after w (Sem (Sem_open s [O_CREAT, O_EXCL] (Some (0x180, val))))) \<and>
         (\<not> name_ok 251 s \<longrightarrow> w' = w \<and> rc \<in> {EINVAL, ENAMETOOLONG}) \<and>
         (rc = 0) = (\<exists>p. out = Some (Some p)) \<and> (rc \<noteq> 0 \<longrightarrow> out = Some None)"
proof (cases "name_ok 251 s")
  case False
  then have "posixipc_nsem_validate_name c (Some s) \<noteq> 0" using assms(2) by (simp add: nsem_name_ok)
  moreover have "posixipc_nsem_validate_name c (Some s) \<in> {0, EINVAL, ENAMETOOLONG}"
    by (auto simp: posixipc_nsem_validate_name_def posixipc_shm_validate_name_def Let_def split: list.splits)
  ultimately show ?thesis
    using False assms(1,4) by (auto simp: posixipc_nsem_create_def io_simps Let_def)
next
  case True
  let ?c = "Sem (Sem_open s [O_CREAT, O_EXCL] (Some (0x180, val)))"
  have "posixipc_nsem_validate_name c (Some s) = 0" using True assms(2) by (simp add: nsem_name_ok)
  moreover have "a_ret (answer_to w ?c) < 0 \<Longrightarrow> a_errno (answer_to w ?c) \<noteq> 0"
    using errno_setD [OF assms(3), of ?c] by simp
  ultimately show ?thesis
    using True assms(1,4) by (auto simp: posixipc_nsem_create_def io_simps Let_def split: if_splits)
qed

theorem nsem_create_correct_witness:
  "name_ok 251 ''/s'' \<and> (\<exists>w'. run (posixipc_nsem_create glibc_x86_64 (Some ''/s'') 1 (Some None)) calm_world =
     ((0, Some (Some 0)), w') \<and> w' = after calm_world (Sem (Sem_open ''/s'' [O_CREAT, O_EXCL] (Some (0x180, 1)))))"
proof -
  have n: "name_ok 251 ''/s''" by (simp add: name_ok_def)
  have r: "run (posixipc_nsem_create glibc_x86_64 (Some ''/s'') 1 (Some None)) calm_world =
     ((0, Some (Some 0)), after calm_world (Sem (Sem_open ''/s'' [O_CREAT, O_EXCL] (Some (0x180, 1)))))"
    by (simp add: posixipc_nsem_create_def posixipc_nsem_validate_name_def posixipc_shm_validate_name_def
        glibc_x86_64_def io_simps Let_def answer_to_def calm_world_def answer0_def)
  from nsem_create_correct [OF _ _ calm_errno r] n r show ?thesis by (simp add: glibc_x86_64_def)
qed

lemma mq_validate_same: "posixipc_mq_validate_name name = posixipc_shm_validate_name name"
  by (auto simp: posixipc_mq_validate_name_def posixipc_shm_validate_name_def Let_def split: option.splits list.splits)

text \<open>
  Creating a message queue: at least one message and one byte, a valid name, and then one
  exclusive \<^verbatim>\<open>mq_open\<close> with mode 0600 and exactly these limits; the output is a descriptor
  other than -1 exactly on success, and no call is made for refused arguments.
\<close>

theorem mq_create_correct:
  assumes "HAVE_MQ_OPEN c" and "errno_set w"
    and "run (posixipc_mq_create c (Some s) maxmsg msgsize (Some o0)) w = ((rc, out), w')"
  shows "(if 1 \<le> maxmsg \<and> 1 \<le> msgsize \<and> name_ok 255 s
          then w' = after w (Mq (Mq_open s [O_CREAT, O_EXCL, O_RDWR] (Some (0x180, maxmsg, msgsize)))) \<and>
               (if rc = 0 then \<exists>q. out = Some q \<and> q \<noteq> - 1 else out = Some (- 1))
          else w' = w \<and> rc \<noteq> 0)"
proof -
  let ?c = "Mq (Mq_open s [O_CREAT, O_EXCL, O_RDWR] (Some (0x180, maxmsg, msgsize)))"
  have e: "a_ret (answer_to w ?c) = - 1 \<Longrightarrow> a_errno (answer_to w ?c) \<noteq> 0"
    using errno_setD [OF assms(2), of ?c] by simp
  show ?thesis
    using assms(1,3) e validate_name_ok [of s]
    by (auto simp: posixipc_mq_create_def mq_validate_same io_simps Let_def not_less split: if_splits)
qed

theorem mq_create_correct_witness:
  "\<exists>w'. run (posixipc_mq_create glibc_x86_64 (Some ''/m'') 4 64 (Some 7)) calm_world = ((0, Some 0), w') \<and> w' \<noteq> calm_world"
proof -
  have r: "run (posixipc_mq_create glibc_x86_64 (Some ''/m'') 4 64 (Some 7)) calm_world =
     ((0, Some 0), after calm_world (Mq (Mq_open ''/m'' [O_CREAT, O_EXCL, O_RDWR] (Some (0x180, 4, 64)))))"
    by (simp add: posixipc_mq_create_def posixipc_mq_validate_name_def posixipc_shm_validate_name_def
        glibc_x86_64_def io_simps Let_def answer_to_def calm_world_def answer0_def)
  have "after w c \<noteq> w" for w c by (metis append_self_conv not_Cons_self2 trace_after)
  with mq_create_correct [OF _ calm_errno r] r show ?thesis by (auto simp: glibc_x86_64_def)
qed

end
