(* ===== verification/LinuxIpc.thy ===== *)
theory LinuxIpc
  imports Shm Queue
begin

text \<open>
  The Linux-only parts of the core: futex words (\<^verbatim>\<open>src/src/core/posixipc_futex.c\<close>), event
  descriptors (\<^verbatim>\<open>posixipc_eventfd.c\<close>), anonymous memory files (\<^verbatim>\<open>posixipc_memfd.c\<close>) and the
  ring with futex words in front of it (\<^verbatim>\<open>posixipc_futexq.c\<close>).
\<close>

section \<open>Futex words\<close>

definition posixipc_futex_add :: "addr \<Rightarrow> u32 \<Rightarrow> u32 io" where
  "posixipc_futex_add p delta = do { a \<leftarrow> call (Mem (Futex_word_add p delta)); ret (a_word a) }"

definition posixipc_futex_load :: "addr \<Rightarrow> u32 io" where
  "posixipc_futex_load p = do { a \<leftarrow> call (Mem (Futex_word_load p)); ret (a_word a) }"

definition posixipc_futex_store :: "addr \<Rightarrow> u32 \<Rightarrow> unit io" where
  "posixipc_futex_store p v = call_ignore (Mem (Futex_word_store p v))"

text \<open>The retry loop; \<^const>\<open>None\<close> when the fuel runs out.\<close>

primrec futex_wait_loop :: "nat \<Rightarrow> addr \<Rightarrow> bool \<Rightarrow> u32 \<Rightarrow> posixipc_deadline option \<Rightarrow> rc option io" where
  "futex_wait_loop 0 p shared expected dl = ret None"
| "futex_wait_loop (Suc n) p shared expected dl = do {
     a \<leftarrow> call (Linux (Futex_wait_bitset p shared expected (map_option d_ts dl)));
     if a_ret a = 0 \<or> a_errno a = EAGAIN then ret (Some 0)
     else if a_errno a = ETIMEDOUT then ret (Some ETIMEDOUT)
     else if a_errno a = EINTR then
       (if dl \<noteq> None then ret (Some EINTR) else futex_wait_loop n p shared expected dl)
     else ret (Some (a_errno a)) }"

definition posixipc_futex_wait ::
    "config \<Rightarrow> nat \<Rightarrow> addr option \<Rightarrow> u32 \<Rightarrow> posixipc_deadline option \<Rightarrow> bool \<Rightarrow> rc option io" where
  "posixipc_futex_wait c fuel w expected dl process_shared =
     (if \<not> IS_LINUX c then ret (Some ENOSYS)
      else case w of None \<Rightarrow> ret (Some EINVAL) | Some p \<Rightarrow>
        if (case dl of None \<Rightarrow> False | Some d \<Rightarrow> d_clk d \<noteq> CLOCK_MONOTONIC) then ret (Some EINVAL)
        else futex_wait_loop fuel p process_shared expected dl)"

text \<open>The clamp to \<^verbatim>\<open>INT_MAX\<close> never applies to an \<^verbatim>\<open>int\<close>; it is kept.\<close>

definition posixipc_futex_wake :: "config \<Rightarrow> addr option \<Rightarrow> int \<Rightarrow> bool \<Rightarrow> rc io" where
  "posixipc_futex_wake c w nwaiters process_shared =
     (if \<not> IS_LINUX c then ret ENOSYS
      else case w of None \<Rightarrow> ret EINVAL | Some p \<Rightarrow>
        if nwaiters < 0 then ret EINVAL
        else let n = (if nwaiters > 2147483647 then 2147483647 else nwaiters) in do {
          a \<leftarrow> call (Linux (Futex_wake p process_shared n));
          ret (if a_ret a < 0 then a_errno a else 0) })"

section \<open>Event descriptors\<close>

definition posixipc_eventfd_create :: "config \<Rightarrow> nat \<Rightarrow> int \<Rightarrow> int option \<Rightarrow> (rc \<times> int option) io" where
  "posixipc_eventfd_create c initval flags out =
     (if \<not> HAVE_EVENTFD c then ret (ENOSYS, out)
      else if out = None then ret (EINVAL, out)
      else do {
        a \<leftarrow> call (Linux (Eventfd initval flags));
        if a_ret a < 0 then ret (a_errno a, out) else ret (0, Some (a_ret a)) })"

definition posixipc_eventfd_write :: "fd \<Rightarrow> u64 \<Rightarrow> rc io" where
  "posixipc_eventfd_write f v =
     (if f < 0 then ret EBADF
      else do {
        a \<leftarrow> call (Linux (Write_u64 f v));
        ret (if a_ret a < 0 then a_errno a else if a_ret a \<noteq> 8 then EIO else 0) })"

definition posixipc_eventfd_read :: "fd \<Rightarrow> u64 option \<Rightarrow> (rc \<times> u64 option) io" where
  "posixipc_eventfd_read f out =
     (if f < 0 \<or> out = None then ret (EINVAL, out)
      else do {
        a \<leftarrow> call (Linux (Read_u64 f));
        if a_ret a < 0 then ret (a_errno a, out)
        else if a_ret a \<noteq> 8 then ret (EIO, out)
        else ret (0, Some (a_u64 a)) })"

definition posixipc_eventfd_close :: "fd \<Rightarrow> rc io" where
  "posixipc_eventfd_close f =
     (if f < 0 then ret EBADF
      else do { a \<leftarrow> call (Close f); ret (if a_ret a = - 1 then a_errno a else 0) })"

section \<open>Anonymous memory files\<close>

record posixipc_memfd =
  mf_map :: "addr option"
  mf_size :: nat
  mf_fd :: fd
  mf_name :: "(addr \<times> string) option"

text \<open>\<^verbatim>\<open>memset(out, 0, sizeof(*out))\<close>: the descriptor field is 0.\<close>

definition memfd_zero :: posixipc_memfd where
  "memfd_zero = \<lparr>mf_map = None, mf_size = 0, mf_fd = 0, mf_name = None\<rparr>"

definition memfd_map :: "fd \<Rightarrow> nat \<Rightarrow> (rc \<times> addr option) io" where
  "memfd_map f sz =
     (if f < 0 \<or> sz = 0 then ret (EINVAL, None)
      else do {
        a \<leftarrow> call (Mmap sz True f);
        if a_ret a < 0 then ret (a_errno a, None) else ret (0, Some (nat (a_ret a))) })"

definition posixipc_memfd_from_fd ::
    "fd \<Rightarrow> nat \<Rightarrow> string option \<Rightarrow> posixipc_memfd option \<Rightarrow> (rc \<times> posixipc_memfd option) io" where
  "posixipc_memfd_from_fd f sz name out =
     (if out = None \<or> f < 0 \<or> sz = 0 then ret (EINVAL, out)
      else do {
        (rc, m) \<leftarrow> memfd_map f sz;
        if rc \<noteq> 0 then ret (rc, out)
        else case name of
          None \<Rightarrow> ret (0, Some \<lparr>mf_map = m, mf_size = sz, mf_fd = f, mf_name = None\<rparr>)
        | Some nm \<Rightarrow> do {
            a \<leftarrow> call (Malloc (length nm + 1));
            if a_ret a < 0 then do { call_ignore (Munmap (the m) sz); ret (ENOMEM, out) }
            else ret (0, Some \<lparr>mf_map = m, mf_size = sz, mf_fd = f, mf_name = Some (nat (a_ret a), nm)\<rparr>) } })"

definition posixipc_memfd_create ::
    "config \<Rightarrow> string option \<Rightarrow> nat \<Rightarrow> posixipc_memfd option \<Rightarrow> (rc \<times> posixipc_memfd option) io" where
  "posixipc_memfd_create c name sz out =
     (if \<not> HAVE_MEMFD_CREATE c then ret (ENOSYS, out)
      else let label = (case name of None \<Rightarrow> ''posixipc'' | Some [] \<Rightarrow> ''posixipc'' | Some nm \<Rightarrow> nm) in
        if out = None \<or> sz = 0 then ret (EINVAL, out)
        else do {
          a \<leftarrow> call (Linux (Memfd_create label));
          if a_ret a < 0 then ret (a_errno a, Some memfd_zero)
          else do {
            t \<leftarrow> call (Ftruncate (a_ret a) (sint (word_of_nat sz :: u64)));
            if a_ret t \<noteq> 0 then do { call_ignore (Close (a_ret a)); ret (a_errno t, Some memfd_zero) }
            else do {
              (rc, out1) \<leftarrow> posixipc_memfd_from_fd (a_ret a) sz (Some label) (Some memfd_zero);
              if rc \<noteq> 0 then do { call_ignore (Close (a_ret a)); ret (rc, out1) }
              else ret (rc, out1) } } })"

definition posixipc_memfd_close :: "posixipc_memfd option \<Rightarrow> (rc \<times> posixipc_memfd option) io" where
  "posixipc_memfd_close mp =
     (case mp of None \<Rightarrow> ret (EINVAL, mp) | Some m \<Rightarrow> do {
        rc \<leftarrow> (case mf_map m of None \<Rightarrow> ret 0 | Some p \<Rightarrow>
                 if mf_size m > 0 then call_errno (Munmap p (mf_size m)) else ret 0);
        rc \<leftarrow> (if mf_fd m \<ge> 0 then do {
                  a \<leftarrow> call (Close (mf_fd m));
                  let cr = (if a_ret a = - 1 then a_errno a else 0);
                  ret (if cr \<noteq> 0 \<and> rc = 0 then cr else rc) }
               else ret rc);
        call_ignore (Free (map_option fst (mf_name m)));
        ret (rc, Some \<lparr>mf_map = None, mf_size = 0, mf_fd = - 1, mf_name = None\<rparr>) })"

section \<open>The ring with futex words\<close>

record posixipc_futexq_view =
  fq_not_full :: "addr option"
  fq_not_empty :: "addr option"
  fq_view :: posixipc_queue_view

definition futexq_align_up :: "u32 \<Rightarrow> u32 \<Rightarrow> u32" where
  "futexq_align_up value al =
     (if al \<le> 1 then value
      else let m = al - 1 in
        if al AND m \<noteq> 0 then 0
        else if value > UINT32_MAX - m then 0
        else (value + m) AND NOT m)"

definition posixipc_futexq_prefix_size :: "config \<Rightarrow> u32" where
  "posixipc_futexq_prefix_size c =
     (let n = futexq_align_up 8 (CACHELINE_BYTES c) in if n = 0 then CACHELINE_BYTES c else n)"

definition posixipc_futexq_bytes_size :: "config \<Rightarrow> u32 \<Rightarrow> u32 \<Rightarrow> u32" where
  "posixipc_futexq_bytes_size c depth item_size =
     (let prefix = posixipc_futexq_prefix_size c;
          ring = posixipc_queue_bytes_size c depth item_size
      in if prefix = 0 \<or> ring = 0 then 0
         else if prefix > UINT32_MAX - ring then 0
         else prefix + ring)"

definition queue_view_zero :: posixipc_queue_view where
  "queue_view_zero = \<lparr>q_ctrl = None, q_state = None, q_payload = None, q_depth = 0, q_item_size = 0, q_stride = 0\<rparr>"

definition futexq_view_zero :: posixipc_futexq_view where
  "futexq_view_zero = \<lparr>fq_not_full = None, fq_not_empty = None, fq_view = queue_view_zero\<rparr>"

definition posixipc_futexq_map ::
    "config \<Rightarrow> addr option \<Rightarrow> u32 \<Rightarrow> u32 \<Rightarrow> u32 \<Rightarrow> posixipc_futexq_view option \<Rightarrow>
     rc \<times> posixipc_futexq_view option" where
  "posixipc_futexq_map c bytes nbytes depth item_size out =
     (case (bytes, out) of
        (Some base, Some v0) \<Rightarrow>
          (let prefix = posixipc_futexq_prefix_size c;
               need = posixipc_futexq_bytes_size c depth item_size
           in if prefix = 0 \<or> need = 0 \<or> nbytes < need then (EINVAL, out)
              else case posixipc_queue_map c (Some (base + unat prefix)) (nbytes - prefix) depth item_size
                          (Some (fq_view v0)) of
                (rc, qv) \<Rightarrow>
                  if rc \<noteq> 0 then (rc, Some futexq_view_zero)
                  else (rc, Some \<lparr>fq_not_full = Some base, fq_not_empty = Some (base + 4), fq_view = the qv\<rparr>))
      | _ \<Rightarrow> (EINVAL, out))"

definition posixipc_futexq_init :: "posixipc_futexq_view option \<Rightarrow> ring \<Rightarrow> (rc \<times> ring) io" where
  "posixipc_futexq_init vp m =
     (case vp of None \<Rightarrow> ret (EINVAL, m) | Some v \<Rightarrow>
      case (fq_not_full v, fq_not_empty v) of
        (Some nf, Some ne) \<Rightarrow> do {
          posixipc_futex_store nf 0;
          posixipc_futex_store ne 0;
          ret (posixipc_queue_init_ctrl (Some (fq_view v)) m) }
      | _ \<Rightarrow> ret (EINVAL, m))"

section \<open>Sizes of the futex ring\<close>

lemma futexq_align_eq: "futexq_align_up = queue_align_up"
  by (intro ext) (simp add: futexq_align_up_def queue_align_up_def)

interpretation futexq_al: aligner futexq_align_up pow2_word
  unfolding futexq_align_eq by (rule queue_al.aligner_axioms)

lemma prefix_exact:
  assumes "config_ok c"
  shows "unat (posixipc_futexq_prefix_size c) = ceil_to (unat (CACHELINE_BYTES c)) 8"
proof -
  note cl = config_cacheline [OF assms]
  have "ceil_to (unat (CACHELINE_BYTES c)) 8 < 2 ^ 32"
    using ceil_to_less [OF cl(2), of 8] cl(3) by simp
  then have u: "unat (futexq_align_up 8 (CACHELINE_BYTES c)) = ceil_to (unat (CACHELINE_BYTES c)) 8"
    using futexq_al.fits [OF cl(1), of 8] by simp
  moreover have "futexq_align_up 8 (CACHELINE_BYTES c) \<noteq> 0"
    using u ceil_to_ge [OF cl(2), of 8] by auto
  ultimately show ?thesis by (simp add: posixipc_futexq_prefix_size_def Let_def)
qed

lemma futexq_bytes_exact:
  assumes "config_ok c" and "posixipc_futexq_bytes_size c depth item \<noteq> 0"
  shows "unat (posixipc_futexq_bytes_size c depth item) =
           ceil_to (unat (CACHELINE_BYTES c)) 8 + unat (posixipc_queue_bytes_size c depth item)"
    and "posixipc_queue_bytes_size c depth item \<noteq> 0"
  using assms(2) gt_max_minus_iff [of "posixipc_queue_bytes_size c depth item" "posixipc_futexq_prefix_size c"]
  by (auto simp: posixipc_futexq_bytes_size_def Let_def prefix_exact [OF assms(1), symmetric] unat_add_no_wrap
      split: if_splits)

text \<open>
  The futex ring: \<^verbatim>\<open>posixipc_futexq_map\<close> succeeds exactly when the exact number of bytes
  (prefix and ring) is not zero and available; the two futex words are distinct, lie in
  front of the ring, and the ring view is the one \<^verbatim>\<open>posixipc_queue_map\<close> gives for the rest
  of the bytes, so the mapping inside never fails after the size test passed.
\<close>

theorem futexq_map_correct:
  assumes c: "config_ok c"
  shows "posixipc_futexq_map c (Some base) nbytes depth item (Some v0) =
    (if posixipc_futexq_bytes_size c depth item \<noteq> 0 \<and> posixipc_futexq_bytes_size c depth item \<le> nbytes
     then (0, Some \<lparr>fq_not_full = Some base, fq_not_empty = Some (base + 4),
                    fq_view = the (snd (posixipc_queue_map c (Some (base + unat (posixipc_futexq_prefix_size c)))
                      (nbytes - posixipc_futexq_prefix_size c) depth item (Some (fq_view v0))))\<rparr>)
     else (EINVAL, Some v0)) \<and>
    8 \<le> unat (posixipc_futexq_prefix_size c)"
proof -
  let ?p = "posixipc_futexq_prefix_size c" and ?n = "posixipc_futexq_bytes_size c depth item"
  note cl = config_cacheline [OF c] and pe = prefix_exact [OF c]
  have p8: "8 \<le> unat ?p" using pe ceil_to_ge [OF cl(2), of 8] by simp
  then have p0: "?p \<noteq> 0" by auto
  have "fst (posixipc_queue_map c (Some (base + unat ?p)) (nbytes - ?p) depth item (Some (fq_view v0))) = 0"
    if n: "?n \<noteq> 0" "?n \<le> nbytes"
  proof -
    note ex = futexq_bytes_exact [OF c n(1)]
    have "?p \<le> nbytes" using n(2) ex(1) pe by (simp add: word_le_nat_alt)
    then have "unat (nbytes - ?p) = unat nbytes - unat ?p" by (rule unat_sub)
    then have "posixipc_queue_bytes_size c depth item \<le> nbytes - ?p"
      using n(2) ex(1) pe by (simp add: word_le_nat_alt)
    then show ?thesis using ex(2) by (simp add: posixipc_queue_map_def Let_def not_less)
  qed
  then show ?thesis
    using p0 p8 by (auto simp: posixipc_futexq_map_def Let_def not_less split: prod.splits) blast
qed

theorem futexq_map_correct_witness:
  "fst (posixipc_futexq_map glibc_x86_64 (Some 4096) 64 2 100 (Some futexq_view_zero)) = EINVAL"
proof -
  have "posixipc_futexq_bytes_size glibc_x86_64 2 100 = 448"
    by (simp add: posixipc_futexq_bytes_size_def posixipc_futexq_prefix_size_def posixipc_queue_bytes_size_def
        ctrl_bytes_def state_bytes_def queue_align_up_def futexq_align_up_def glibc_x86_64_def Let_def word_le_nat_alt)
  with futexq_map_correct [OF glibc_x86_64_ok, of 4096 64 2 100 futexq_view_zero] show ?thesis
    by (simp add: word_le_nat_alt)
qed

section \<open>Waiting on a futex word\<close>

text \<open>
  \<^verbatim>\<open>posixipc_futex_wait\<close> with a monotonic deadline makes exactly one futex call and never
  loops; it reports 0 for a wake-up or a changed word, \<^verbatim>\<open>ETIMEDOUT\<close> and \<^verbatim>\<open>EINTR\<close> as such. A
  deadline on another clock is refused before any call.
\<close>

theorem futex_wait_deadline:
  assumes "IS_LINUX c"
  shows "run (posixipc_futex_wait c (Suc n) (Some p) expected (Some d) shared) w =
    (if d_clk d \<noteq> CLOCK_MONOTONIC then (Some EINVAL, w)
     else let call = Linux (Futex_wait_bitset p shared expected (Some (d_ts d)));
              a = answer_to w call
          in (Some (if a_ret a = 0 \<or> a_errno a = EAGAIN then 0 else a_errno a), after w call))"
  using assms by (simp add: posixipc_futex_wait_def io_simps Let_def)

theorem futex_wait_deadline_witness:
  "fst (run (posixipc_futex_wait glibc_x86_64 1 (Some 8) 0 (Some \<lparr>d_clk = CLOCK_MONOTONIC, d_ts = ts_zero\<rparr>) True)
     calm_world) = Some 0"
  using futex_wait_deadline [of glibc_x86_64 0 8 0 "\<lparr>d_clk = CLOCK_MONOTONIC, d_ts = ts_zero\<rparr>" True calm_world]
  by (simp add: glibc_x86_64_def Let_def answer_to_def calm_world_def answer0_def)

text \<open>
  Without a deadline the wait is retried only while it is interrupted, never returns
  \<^verbatim>\<open>EINTR\<close>, and returns as soon as the environment answers with something else within \<open>n\<close> calls.
\<close>

theorem futex_wait_retries:
  assumes "IS_LINUX c"
    and "\<forall>h. length (trace w) + n \<le> length h \<longrightarrow>
           a_ret (env w h (Linux (Futex_wait_bitset p shared expected None))) = 0 \<or>
           a_errno (env w h (Linux (Futex_wait_bitset p shared expected None))) \<noteq> EINTR"
  shows "\<exists>rc w'. run (posixipc_futex_wait c (Suc n) (Some p) expected None shared) w = (Some rc, w') \<and> rc \<noteq> EINTR"
  using assms
proof (induction n arbitrary: w)
  case 0
  then have "a_ret (answer_to w (Linux (Futex_wait_bitset p shared expected None))) = 0 \<or>
      a_errno (answer_to w (Linux (Futex_wait_bitset p shared expected None))) \<noteq> EINTR"
    by (simp add: answer_to_def)
  with assms(1) show ?case by (auto simp: posixipc_futex_wait_def io_simps)
next
  case (Suc n)
  let ?c = "Linux (Futex_wait_bitset p shared expected None)"
  have "\<exists>rc w'. run (posixipc_futex_wait c (Suc n) (Some p) expected None shared) (after w ?c) = (Some rc, w') \<and> rc \<noteq> EINTR"
    using Suc.prems(2) by (intro Suc.IH [OF assms(1)]) (simp del: futex_wait_loop.simps)
  then show ?case
    using assms(1) by (auto simp: posixipc_futex_wait_def run_bind run_call run_if run_ret
        futex_wait_loop.simps(2) [of "Suc n"] simp del: futex_wait_loop.simps)
qed

theorem futex_wait_retries_witness:
  "\<exists>rc w'. run (posixipc_futex_wait glibc_x86_64 1 (Some 8) 0 None True) calm_world = (Some rc, w') \<and> rc \<noteq> EINTR"
proof -
  have "IS_LINUX glibc_x86_64" by (simp add: glibc_x86_64_def)
  from futex_wait_retries [OF this, of calm_world 0 8 True 0] show ?thesis
    by (simp add: calm_world_def answer0_def)
qed

section \<open>Memory files hold what they return\<close>

lemma gained_memfd: "0 \<le> a_ret (answer_to w (Linux (Memfd_create s))) \<Longrightarrow>
    gained w (after w (Linux (Memfd_create s))) (Some (a_ret (answer_to w (Linux (Memfd_create s))))) None"
  by (simp add: gained_def map_delta_def)

lemma memfd_from_fd_post:
  assumes "errno_set w1" and "gained w w1 (Some f) None" and "0 \<le> f" and "0 < sz"
    and "run (posixipc_memfd_from_fd f sz (Some nm) (Some o0)) w1 = ((rc, out), w2)"
  shows "(rc \<noteq> 0 \<and> out = Some o0 \<and> gained w w2 (Some f) None) \<or>
         (rc = 0 \<and> (\<exists>p q. out = Some \<lparr>mf_map = Some p, mf_size = sz, mf_fd = f, mf_name = Some (q, nm)\<rparr> \<and>
                      gained w w2 (Some f) (Some (p, sz))))"
proof -
  let ?cm = "Mmap sz True f" and ?mc = "Malloc (length nm + 1)"
  let ?m = "answer_to w1 ?cm" and ?w2 = "after w1 ?cm"
  let ?p = "nat (a_ret ?m)" and ?w3 = "after (after w1 ?cm) ?mc"
  have nz: "a_ret ?m < 0 \<Longrightarrow> a_errno ?m \<noteq> 0" using errno_setD [OF assms(1), of ?cm] by simp
  have g2: "gained w ?w2 (Some f) None" if "a_ret ?m < 0" using gained_mmap_failed [OF assms(2) that] .
  have g3: "gained w ?w3 (Some f) (Some (?p, sz))" if "\<not> a_ret ?m < 0"
    by (rule gained_call [OF gained_mmap [OF assms(2)]]) (use that in simp_all)
  have g4: "gained w (after ?w3 (Munmap ?p sz)) (Some f) None" if "\<not> a_ret ?m < 0"
    by (rule gained_munmap [OF g3 [OF that]])
  have "run (posixipc_memfd_from_fd f sz (Some nm) (Some o0)) w1 =
     (if a_ret ?m < 0 then ((a_errno ?m, Some o0), ?w2)
      else if a_ret (answer_to ?w2 ?mc) < 0 then ((ENOMEM, Some o0), after ?w3 (Munmap ?p sz))
      else ((0, Some \<lparr>mf_map = Some ?p, mf_size = sz, mf_fd = f,
                      mf_name = Some (nat (a_ret (answer_to ?w2 ?mc)), nm)\<rparr>), ?w3))"
    using assms(3,4) nz by (simp add: posixipc_memfd_from_fd_def memfd_map_def io_simps)
  with assms(5) nz g2 g3 g4 show ?thesis by (auto split: if_splits)
qed

text \<open>
  \<^verbatim>\<open>posixipc_memfd_create\<close> holds exactly what it returns: on failure neither the
  descriptor nor a mapping is left open; on success the record owns the descriptor and one
  mapping of the requested size, and \<^verbatim>\<open>posixipc_memfd_close\<close> gives both back.
\<close>

theorem memfd_create_contract:
  assumes "errno_set w" and "run (posixipc_memfd_create c name sz (Some o0)) w = ((rc, out), w')"
    and "HAVE_MEMFD_CREATE c" and "0 < sz"
  shows "(rc \<noteq> 0 \<and> out = Some memfd_zero \<and> gained w w' None None) \<or>
         (rc = 0 \<and> (\<exists>m p. out = Some m \<and> mf_map m = Some p \<and> mf_size m = sz \<and> 0 \<le> mf_fd m \<and>
                      gained w w' (Some (mf_fd m)) (Some (p, sz)) \<and>
                      gained w (snd (run (posixipc_memfd_close out) w')) None None))"
proof -
  let ?label = "case name of None \<Rightarrow> ''posixipc'' | Some [] \<Rightarrow> ''posixipc'' | Some nm \<Rightarrow> nm"
  let ?co = "Linux (Memfd_create ?label)"
  let ?a = "answer_to w ?co" and ?w1 = "after w ?co"
  let ?f = "a_ret ?a" and ?ct = "Ftruncate (a_ret ?a) (sint (word_of_nat sz :: u64))"
  let ?t = "answer_to ?w1 ?ct" and ?w2 = "after ?w1 ?ct"
  obtain rc1 out1 w3 where f: "run (posixipc_memfd_from_fd ?f sz (Some ?label) (Some memfd_zero)) ?w2 = ((rc1, out1), w3)"
    by (metis prod_cases3 surj_pair)
  have r: "run (posixipc_memfd_create c name sz (Some o0)) w =
     (if ?f < 0 then ((a_errno ?a, Some memfd_zero), ?w1)
      else if a_ret ?t \<noteq> 0 then ((a_errno ?t, Some memfd_zero), after ?w2 (Close ?f))
      else if rc1 \<noteq> 0 then ((rc1, out1), after w3 (Close ?f)) else ((rc1, out1), w3))"
    using assms(3,4) f by (simp add: posixipc_memfd_create_def io_simps Let_def split: option.split list.split)
  show ?thesis
  proof (cases "?f < 0")
    case True
    then have "gained w ?w1 None None" by (simp add: gained_def map_delta_def)
    then show ?thesis using True assms(2) r errno_setD [OF assms(1) True] by auto
  next
    case False
    then have g1: "gained w ?w1 (Some ?f) None" by (intro gained_memfd) simp
    have g2: "gained w ?w2 (Some ?f) None" by (rule gained_call [OF g1]) simp
    note es1 = errno_set_gained [OF assms(1) g1] and es2 = errno_set_gained [OF assms(1) g2]
    have nz: "a_ret ?t \<noteq> 0 \<Longrightarrow> a_errno ?t \<noteq> 0" using errno_set_zeroD [OF es1, of ?ct] by auto
    consider "rc1 \<noteq> 0" "out1 = Some memfd_zero" "gained w w3 (Some ?f) None"
      | p q where "rc1 = 0" "out1 = Some \<lparr>mf_map = Some p, mf_size = sz, mf_fd = ?f, mf_name = Some (q, ?label)\<rparr>"
          "gained w w3 (Some ?f) (Some (p, sz))"
      using memfd_from_fd_post [OF es2 g2 _ assms(4) f] False by fastforce
    then show ?thesis
    proof cases
      case 1
      then show ?thesis using False assms(2) r nz gained_close [OF 1(3)] gained_close [OF g2] by (auto split: if_splits)
    next
      case (2 p q)
      have "gained w (after (after (after w3 (Munmap p sz)) (Close ?f)) (Free (Some q))) None None"
        by (rule gained_call [OF gained_close [OF gained_munmap [OF 2(3)]]]) simp
      then have "gained w (snd (run (posixipc_memfd_close out1) w3)) None None"
        using 2(2) False assms(4) by (simp add: posixipc_memfd_close_def io_simps Let_def)
      with 2 False assms(2) r nz gained_close [OF g2] show ?thesis by (auto split: if_splits)
    qed
  qed
qed

theorem memfd_create_contract_witness:
  "\<exists>m w'. run (posixipc_memfd_create glibc_x86_64 None 64 (Some memfd_zero)) calm_world = ((0, Some m), w') \<and>
     mf_size m = 64 \<and> gained calm_world (snd (run (posixipc_memfd_close (Some m)) w')) None None"
proof -
  obtain m w' where r: "run (posixipc_memfd_create glibc_x86_64 None 64 (Some memfd_zero)) calm_world = ((0, Some m), w')"
    by (simp add: posixipc_memfd_create_def posixipc_memfd_from_fd_def memfd_map_def glibc_x86_64_def io_simps Let_def
        answer_to_def calm_world_def answer0_def)
  have "HAVE_MEMFD_CREATE glibc_x86_64" by (simp add: glibc_x86_64_def)
  from memfd_create_contract [OF calm_errno r this] r show ?thesis by auto
qed

end
