(* ===== verification/Wait.thy ===== *)
theory Wait
  imports Primitives Shm
begin

text \<open>
  The parts of the bindings every Python type shares: the mapping of error codes to exceptions
  (\<^verbatim>\<open>src/src/bindings/py_errors.c\<close>), the options of an acquire and the sliced, interruptible
  wait (\<^verbatim>\<open>src/src/bindings/py_wait.c\<close>). The interpreter is part of the environment. The lemmas
  show, for every wait function that keeps the stated contract, that a wait with a deadline
  ends, that no slice outlives the deadline, and that the balance of whatever the function
  takes is the one of its last call.
\<close>

section \<open>Errors\<close>

text \<open>
  The exception a call leaves. \<open>Pending\<close> is the one an interpreter call that failed has set.
\<close>

datatype pyexc =
    TypeError | ValueError | RuntimeError | TimeoutError | BufferError | MemoryError | IndexError | NotImplementedError | OverflowError
  | ClosedError | NotRecoverableError | LayoutMismatchError | PosixIPCError | OSError rc | Pending

type_synonym 'a pyres = "pyexc + 'a"

text \<open>How a call ends: with a result, in behaviour C leaves undefined, or not within the fuel.\<close>

datatype 'a outcome = Returned 'a | Undefined | Unfinished

text \<open>NULL, with the exception that was set, or the module state (which the model leaves out).\<close>

definition posixipc_state_from_type :: "pyexc option io" where
  "posixipc_state_from_type = do {
     m \<leftarrow> call (Py Type_GetModule);
     if a_ret m < 0 then do {
       e \<leftarrow> call (Py Err_Occurred);
       ret (Some (if a_ret e = 0 then RuntimeError else Pending)) }
     else ret None }"

definition posixipc_state_from_obj :: "pyexc option io" where
  "posixipc_state_from_obj = posixipc_state_from_type"

definition posixipc_raise_closed :: pyexc where
  "posixipc_raise_closed = ClosedError"

definition posixipc_raise_unbound :: pyexc where
  "posixipc_raise_unbound = RuntimeError"

text \<open>The assertions are those of a debug build; the branch after them is the release build's.\<close>

definition posixipc_err :: "rc \<Rightarrow> pyexc option" where
  "posixipc_err rc =
     (if rc = 0 then None
      else if rc = POSIXIPC_ERROR_INTERRUPTED then Some Pending
      else if rc = POSIXIPC_ERROR_NOT_READY then Some TimeoutError
      else if rc = POSIXIPC_ERROR_BROKEN \<or> rc = POSIXIPC_ERROR_LAYOUT_MISMATCH then Some LayoutMismatchError
      else if rc = ETIMEDOUT \<or> rc = EBUSY \<or> rc \<ge> 5000 then Some PosixIPCError
      else Some (OSError rc))"

text \<open>The exception after \<^verbatim>\<open>posixipc_err\<close> on a code that is not 0.\<close>

definition raise_err :: "rc \<Rightarrow> pyexc" where
  "raise_err rc = (case posixipc_err rc of None \<Rightarrow> Pending | Some e \<Rightarrow> e)"

section \<open>Options of an acquire\<close>

record posixipc_acquire_opts =
  timeout_none :: bool
  timeout :: dbl
  blocking :: bool
  interruptible :: bool

text \<open>The loop over the keyword arguments; \<open>nargs\<close> positional ones were given.\<close>

fun parse_keywords ::
    "nat \<Rightarrow> (string \<times> pyobj) list \<Rightarrow> pyobj \<Rightarrow> bool \<Rightarrow> bool \<Rightarrow> (pyobj \<times> bool \<times> bool) pyres io" where
  "parse_keywords nargs [] tobj bl it = ret (Inr (tobj, bl, it))"
| "parse_keywords nargs ((key, val) # kws) tobj bl it = do {
     k \<leftarrow> call (Py (AsUTF8 key));
     if a_ret k < 0 then ret (Inl Pending)
     else if key = ''timeout'' then
       (if nargs \<ge> 1 then ret (Inl TypeError) else parse_keywords nargs kws val bl it)
     else if key = ''blocking'' then do {
       b \<leftarrow> call (Py (IsTrue val));
       if a_ret b < 0 then ret (Inl Pending) else parse_keywords nargs kws tobj (a_ret b \<noteq> 0) it }
     else if key = ''interruptible'' then do {
       b \<leftarrow> call (Py (IsTrue val));
       if a_ret b < 0 then ret (Inl Pending) else parse_keywords nargs kws tobj bl (a_ret b \<noteq> 0) }
     else ret (Inl TypeError) }"

text \<open>The timeout object as \<open>(timeout_none, timeout)\<close>.\<close>

definition parse_timeout :: "pyobj \<Rightarrow> (bool \<times> dbl) pyres io" where
  "parse_timeout tobj =
     (if tobj = Py_None then ret (Inr (True, Fin 0))
      else do {
        a \<leftarrow> call (Py (AsDouble tobj));
        e \<leftarrow> call (Py Err_Occurred);
        if a_ret e \<noteq> 0 then ret (Inl Pending)
        else if a_dbl a = NaN \<or> dbl_neg (a_dbl a) then ret (Inl ValueError)
        else ret (Inr (False, a_dbl a)) })"

definition dbl_pos :: "dbl \<Rightarrow> bool" where
  "dbl_pos x = (case x of NaN \<Rightarrow> False | Inf neg \<Rightarrow> \<not> neg | Fin q \<Rightarrow> q > 0)"

definition posixipc_parse_acquire ::
    "pyobj list \<Rightarrow> (string \<times> pyobj) list \<Rightarrow> posixipc_acquire_opts pyres io" where
  "posixipc_parse_acquire args kws =
     (if length args > 1 then ret (Inl TypeError)
      else let tobj = (case args of [] \<Rightarrow> Py_None | a # _ \<Rightarrow> a) in do {
        k \<leftarrow> parse_keywords (length args) kws tobj True True;
        case k of Inl e \<Rightarrow> ret (Inl e) | Inr (tobj, bl, it) \<Rightarrow> do {
          t \<leftarrow> parse_timeout tobj;
          case t of Inl e \<Rightarrow> ret (Inl e) | Inr (none, secs) \<Rightarrow>
            if \<not> bl \<and> \<not> none \<and> dbl_pos secs then ret (Inl ValueError)
            else ret (Inr \<lparr>timeout_none = none, timeout = secs, blocking = bl, interruptible = it\<rparr>) } })"

section \<open>The sliced wait\<close>

definition posixipc_mutex_clock :: "clocksym \<Rightarrow> (clockid \<times> clocksym) io" where
  "posixipc_mutex_clock g = do {
     (have_it, g) \<leftarrow> posixipc_have_mutex_clocklock g;
     ret (if have_it then CLOCK_MONOTONIC else CLOCK_REALTIME, g) }"

abbreviation (input) SLICE_NS :: int where "SLICE_NS \<equiv> 50000000"

definition add_ns :: "timespec \<Rightarrow> int \<Rightarrow> timespec" where
  "add_ns ts ns =
     (let ts1 = ts\<lparr>tv_nsec := tv_nsec ts + ns\<rparr>
      in if tv_nsec ts1 \<ge> 1000000000
         then ts1\<lparr>tv_sec := tv_sec ts1 + 1, tv_nsec := tv_nsec ts1 - 1000000000\<rparr>
         else ts1)"

text \<open>\<^verbatim>\<open>Py_BEGIN_ALLOW_THREADS ... Py_END_ALLOW_THREADS\<close>.\<close>

definition allow_threads :: "'a io \<Rightarrow> 'a io" where
  "allow_threads m = do {
     call_ignore (Py SaveThread);
     x \<leftarrow> m;
     call_ignore (Py RestoreThread);
     ret x }"

text \<open>
  The calls that may block and have no deadline: in the model they answer like all others, but an answer may come late or never. Where a
  theorem says that an operation returns, it also says which of these calls the operation makes.
\<close>

fun may_hang :: "syscall \<Rightarrow> bool" where
  "may_hang (Mutex (Mutex_lock p)) = True"
| "may_hang (Rwlock (Rwlock_rdlock p)) = True"
| "may_hang (Rwlock (Rwlock_wrlock p)) = True"
| "may_hang (Cond (Cond_wait cv p)) = True"
| "may_hang (SpinBarrier (Barrier_wait p)) = True"
| "may_hang (Sem (Sem_wait p)) = True"
| "may_hang (Mq (Mq_send q x n)) = True"
| "may_hang (Mq (Mq_receive q n)) = True"
| "may_hang (Linux (Futex_wait_bitset p b x dl)) = (dl = None)"
| "may_hang (Linux (Read_u64 f)) = True"
| "may_hang (Linux (Write_u64 f x)) = True"
| "may_hang c = False"

text \<open>
  The wait function also returns the state it changes (the looked-up clock functions, or the
  shared memory it waits for). \<^const>\<open>None\<close> means the fuel ran out.
\<close>

type_synonym 's waitfn = "'s \<Rightarrow> posixipc_deadline \<Rightarrow> (rc \<times> 's) io"

primrec wait_loop ::
    "nat \<Rightarrow> 's waitfn \<Rightarrow> posixipc_deadline option \<Rightarrow> clockid \<Rightarrow> 's \<Rightarrow> (rc \<times> 's) option io" where
  "wait_loop 0 fn user clk s = ret None"
| "wait_loop (Suc n) fn user clk s =
     (let c = (case user of None \<Rightarrow> clk | Some u \<Rightarrow> d_clk u) in do {
        (rc, now) \<leftarrow> posixipc_now c (Some ts_zero);
        if rc \<noteq> 0 then ret (Some (rc, s))
        else
          let slice = \<lparr>d_clk = c, d_ts = add_ns (the now) SLICE_NS\<rparr>;
              slice = (case user of None \<Rightarrow> slice | Some u \<Rightarrow> posixipc_deadline_min u slice)
          in do {
            (rc, s) \<leftarrow> allow_threads (fn s slice);
            if rc \<noteq> ETIMEDOUT then ret (Some (rc, s))
            else do {
              sig \<leftarrow> call (Py CheckSignals);
              if a_ret sig < 0 then ret (Some (POSIXIPC_ERROR_INTERRUPTED, s))
              else do {
                e \<leftarrow> posixipc_deadline_expired user;
                if user \<noteq> None \<and> e then ret (Some (ETIMEDOUT, s))
                else wait_loop n fn user clk s } } } })"

definition posixipc_blocking_wait ::
    "nat \<Rightarrow> 's waitfn \<Rightarrow> posixipc_deadline option \<Rightarrow> bool \<Rightarrow> clockid \<Rightarrow> 's \<Rightarrow> (rc \<times> 's) option io" where
  "posixipc_blocking_wait fuel fn user intr clk s =
     (if \<not> intr then
        (case user of
           None \<Rightarrow> do {
             r \<leftarrow> allow_threads (fn s \<lparr>d_clk = clk, d_ts = \<lparr>tv_sec = 0x7fffffff, tv_nsec = 0\<rparr>\<rparr>);
             ret (Some r) }
         | Some u \<Rightarrow> do { r \<leftarrow> allow_threads (fn s u); ret (Some r) })
      else wait_loop fuel fn user clk s)"

section \<open>Balances\<close>

text \<open>
  A quantity the calls of a run take and give back (locks held, buffers exported, memory) is
  the sum of what each call of the trace contributes.
\<close>

definition balance :: "(syscall \<Rightarrow> answer \<Rightarrow> int) \<Rightarrow> world \<Rightarrow> int" where
  "balance \<delta> w = sum_list (map (\<lambda>(c, a). \<delta> c a) (trace w))"

lemma balance_after [simp]: "balance \<delta> (after w c) = balance \<delta> w + \<delta> c (answer_to w c)"
  by (simp add: balance_def)

text \<open>A computation that only adds to the trace, and leaves a balance alone.\<close>

definition keeps :: "(syscall \<Rightarrow> answer \<Rightarrow> int) \<Rightarrow> 'a io \<Rightarrow> bool" where
  "keeps \<delta> m \<longleftrightarrow> (\<forall>w. env (snd (run m w)) = env w \<and> length (trace w) \<le> length (trace (snd (run m w))) \<and>
                     balance \<delta> (snd (run m w)) = balance \<delta> w)"

lemma keepsD:
  assumes "keeps \<delta> m" and "run m w = (r, w')"
  shows "env w' = env w" and "length (trace w) \<le> length (trace w')" and "balance \<delta> w' = balance \<delta> w"
  using assms unfolding keeps_def by (metis snd_conv)+

lemma keeps_ret: "keeps \<delta> (ret x)"
  by (simp add: keeps_def io_simps)

lemma keeps_bind:
  assumes m: "keeps \<delta> m" and f: "\<And>x. keeps \<delta> (f x)"
  shows "keeps \<delta> (m \<bind> f)"
  unfolding keeps_def
proof
  fix w
  obtain x w1 where r: "run m w = (x, w1)" by fastforce
  obtain y w2 where r2: "run (f x) w1 = (y, w2)" by fastforce
  show "env (snd (run (m \<bind> f) w)) = env w \<and> length (trace w) \<le> length (trace (snd (run (m \<bind> f) w))) \<and>
        balance \<delta> (snd (run (m \<bind> f) w)) = balance \<delta> w"
    using keepsD [OF m r] keepsD [OF f r2] r r2 by (simp add: run_bind)
qed

lemma keeps_if: "keeps \<delta> m \<Longrightarrow> keeps \<delta> m' \<Longrightarrow> keeps \<delta> (if b then m else m')"
  by simp

lemma keeps_let: "keeps \<delta> (f x) \<Longrightarrow> keeps \<delta> (Let x f)"
  by simp

lemma keeps_option: "keeps \<delta> m \<Longrightarrow> (\<And>y. keeps \<delta> (f y)) \<Longrightarrow> keeps \<delta> (case x of None \<Rightarrow> m | Some y \<Rightarrow> f y)"
  by (cases x) simp_all

lemma keeps_sum: "(\<And>y. keeps \<delta> (g y)) \<Longrightarrow> (\<And>y. keeps \<delta> (f y)) \<Longrightarrow> keeps \<delta> (case x of Inl y \<Rightarrow> g y | Inr y \<Rightarrow> f y)"
  by (cases x) simp_all

lemma keeps_prod: "(\<And>a b. keeps \<delta> (f a b)) \<Longrightarrow> keeps \<delta> (case p of (a, b) \<Rightarrow> f a b)"
  by (cases p) simp

lemma keeps_call: "(\<And>a. \<delta> c a = 0) \<Longrightarrow> keeps \<delta> (call c)"
  by (simp add: keeps_def io_simps)

lemma keeps_call_ignore: "(\<And>a. \<delta> c a = 0) \<Longrightarrow> keeps \<delta> (call_ignore c)"
  by (simp add: keeps_def io_simps)

lemma keeps_call_rc: "(\<And>a. \<delta> c a = 0) \<Longrightarrow> keeps \<delta> (call_rc c)"
  by (simp add: keeps_def io_simps)

lemma keeps_call_errno: "(\<And>a. \<delta> c a = 0) \<Longrightarrow> keeps \<delta> (call_errno c)"
  by (simp add: keeps_def io_simps)

lemmas keeps_rules = keeps_ret keeps_bind keeps_if keeps_let keeps_option keeps_sum keeps_prod
  keeps_call keeps_call_ignore keeps_call_rc keeps_call_errno

text \<open>
  A balance that clocks, symbol lookups and the interpreter do not touch, but for the calls
  that export a buffer or allocate memory.
\<close>

fun plain_py :: "py_call \<Rightarrow> bool" where
  "plain_py (GetBuffer ob) = False"
| "plain_py (ReleaseBuffer ob) = False"
| "plain_py (PyMem_Malloc n) = False"
| "plain_py (PyMem_Free p) = False"
| "plain_py (PyMem_Realloc n) = False"
| "plain_py (PyMem_Calloc n k) = False"
| "plain_py (BytesFromString bs) = False"
| "plain_py _ = True"

definition lock_like :: "(syscall \<Rightarrow> answer \<Rightarrow> int) \<Rightarrow> bool" where
  "lock_like \<delta> \<longleftrightarrow> (\<forall>clk a. \<delta> (Clock_gettime clk) a = 0) \<and> (\<forall>s a. \<delta> (Dlsym s) a = 0) \<and>
     (\<forall>c a. plain_py c \<longrightarrow> \<delta> (Py c) a = 0)"

lemma lock_likeD:
  assumes "lock_like \<delta>"
  shows "\<delta> (Clock_gettime clk) a = 0" and "\<delta> (Dlsym s) a = 0" and "plain_py c \<Longrightarrow> \<delta> (Py c) a = 0"
  using assms by (simp_all add: lock_like_def)

lemma keeps_now: "lock_like \<delta> \<Longrightarrow> keeps \<delta> (posixipc_now clk t)"
  by (auto simp: posixipc_now_def lock_likeD intro!: keeps_rules split: option.split)

lemma keeps_expired: "lock_like \<delta> \<Longrightarrow> keeps \<delta> (posixipc_deadline_expired d)"
  by (auto simp: posixipc_deadline_expired_def intro!: keeps_rules keeps_now split: option.split)

lemma keeps_deadline: "lock_like \<delta> \<Longrightarrow> keeps \<delta> (posixipc_deadline_from_seconds fl clk q out)"
  by (auto simp: posixipc_deadline_from_seconds_def intro!: keeps_rules keeps_now split: option.split)

lemma keeps_state_from: "lock_like \<delta> \<Longrightarrow> keeps \<delta> posixipc_state_from_obj"
  by (auto simp: posixipc_state_from_obj_def posixipc_state_from_type_def lock_likeD intro!: keeps_rules)

lemma keeps_keywords: "lock_like \<delta> \<Longrightarrow> keeps \<delta> (parse_keywords nargs kws tobj bl it)"
proof (induction kws arbitrary: tobj bl it)
  case (Cons kw kws)
  obtain key val where "kw = (key, val)" by fastforce
  then show ?case
    by (simp only: parse_keywords.simps) (intro keeps_rules Cons.IH Cons.prems lock_likeD(3); simp)
qed (simp add: keeps_ret)

lemma keeps_timeout: "lock_like \<delta> \<Longrightarrow> keeps \<delta> (parse_timeout tobj)"
  by (auto simp: parse_timeout_def lock_likeD intro!: keeps_rules)

lemma keeps_parse: "lock_like \<delta> \<Longrightarrow> keeps \<delta> (posixipc_parse_acquire args kws)"
  by (auto simp: posixipc_parse_acquire_def Let_def intro!: keeps_rules keeps_keywords keeps_timeout)

lemma keeps_have_clocklock: "lock_like \<delta> \<Longrightarrow> keeps \<delta> (posixipc_have_mutex_clocklock g)"
  by (auto simp: posixipc_have_mutex_clocklock_def posixipc_clocksym_init_def dlsym_def lock_likeD intro!: keeps_rules)

lemma keeps_mutex_clock: "lock_like \<delta> \<Longrightarrow> keeps \<delta> (posixipc_mutex_clock g)"
  by (auto simp: posixipc_mutex_clock_def intro!: keeps_rules keeps_have_clocklock)

text \<open>\<^verbatim>\<open>clock_gettime\<close> is documented to fail with EINVAL or EFAULT only.\<close>

definition clock_errors :: "world \<Rightarrow> bool" where
  "clock_errors w \<longleftrightarrow> (\<forall>h clk. a_ret (env w h (Clock_gettime clk)) \<noteq> 0 \<longrightarrow>
                               a_errno (env w h (Clock_gettime clk)) \<in> {EINVAL, 14})"

lemma clock_errors_env: "env w' = env w \<Longrightarrow> clock_errors w' = clock_errors w"
  by (simp add: clock_errors_def)

lemma clock_errors_after [simp]: "clock_errors (after w c) = clock_errors w"
  by (simp add: clock_errors_def)

lemma now_failed:
  "clock_errors w \<Longrightarrow> run (posixipc_now clk (Some t)) w = ((rc, ts), w') \<Longrightarrow> rc \<in> {0, EINVAL, 14}"
  by (auto simp: io_simps clock_errors_def answer_to_def split: if_splits)

section \<open>The contract of a wait function\<close>

text \<open>\<open>d\<close> is on the clock of \<open>u\<close> and not after it.\<close>

definition no_later :: "posixipc_deadline \<Rightarrow> posixipc_deadline \<Rightarrow> bool" where
  "no_later d u \<longleftrightarrow> d_clk d = d_clk u \<and>
     (tv_sec (d_ts d) < tv_sec (d_ts u) \<or> (tv_sec (d_ts d) = tv_sec (d_ts u) \<and> tv_nsec (d_ts d) \<le> tv_nsec (d_ts u)))"

lemma no_later_refl [simp]: "no_later u u"
  by (simp add: no_later_def)

lemma deadline_min_no_later: "d_clk s = d_clk u \<Longrightarrow> no_later (posixipc_deadline_min u s) u"
  by (auto simp: no_later_def posixipc_deadline_min_def)

lemma run_allow_threads [io_simps]:
  "run (allow_threads m) w =
     (case run m (after w (Py SaveThread)) of (x, w1) \<Rightarrow> (x, after w1 (Py RestoreThread)))"
  by (simp add: allow_threads_def io_simps split: prod.split)

text \<open>
  What the sliced wait relies on: the function only adds calls to the trace, its effect on the
  balance depends on its return code alone, and a timeout (like an interruption or a clock that
  cannot be read) has taken nothing.
\<close>

locale waiter =
  fixes fn :: "'s waitfn" and \<delta> :: "syscall \<Rightarrow> answer \<Rightarrow> int" and k :: "rc \<Rightarrow> int"
  assumes fn_env: "env (snd (run (fn s d) w)) = env w"
    and fn_grows: "length (trace w) \<le> length (trace (snd (run (fn s d) w)))"
    and fn_balance: "balance \<delta> (snd (run (fn s d) w)) = balance \<delta> w + k (fst (fst (run (fn s d) w)))"
    and k_nothing: "rc \<in> {ETIMEDOUT, EINVAL, 14, POSIXIPC_ERROR_INTERRUPTED} \<Longrightarrow> k rc = 0"
    and delta_quiet: "lock_like \<delta>"
begin

lemma fn_run:
  assumes "run (fn s d) w = ((rc, s'), w')"
  shows "env w' = env w" and "length (trace w) \<le> length (trace w')" and "balance \<delta> w' = balance \<delta> w + k rc"
  using fn_env [of s d w] fn_grows [of w s d] fn_balance [of s d w] assms by simp_all

lemma threads_run:
  assumes "run (allow_threads (fn s d)) w = ((rc, s'), w')"
  shows "env w' = env w" and "length (trace w) < length (trace w')" and "balance \<delta> w' = balance \<delta> w + k rc"
  using assms fn_run [of s d "after w (Py SaveThread)"]
  by (auto simp: io_simps lock_likeD [OF delta_quiet] split: prod.splits)

text \<open>One turn of the loop: the clock, the wait, the signals, the deadline.\<close>

lemma wait_step:
  obtains rc1 w1 rc2 s2 w2 e w3 where
    "clock_errors w \<Longrightarrow> rc1 \<in> {0, EINVAL, 14}" "env w1 = env w" "balance \<delta> w1 = balance \<delta> w"
    "env w2 = env w" "balance \<delta> w2 = balance \<delta> w + k rc2" "length (trace w) < length (trace w2)"
    "run (posixipc_deadline_expired user) (after w2 (Py CheckSignals)) = (e, w3)"
    "env w3 = env w" "balance \<delta> w3 = balance \<delta> w + k rc2" "length (trace w) < length (trace w3)"
    "run (wait_loop (Suc j) fn user clk s) w =
       (if rc1 \<noteq> 0 then (Some (rc1, s), w1)
        else if rc2 \<noteq> ETIMEDOUT then (Some (rc2, s2), w2)
        else if a_ret (answer_to w2 (Py CheckSignals)) < 0
        then (Some (POSIXIPC_ERROR_INTERRUPTED, s2), after w2 (Py CheckSignals))
        else if user \<noteq> None \<and> e then (Some (ETIMEDOUT, s2), w3)
        else run (wait_loop j fn user clk s2) w3)"
proof -
  let ?c = "case user of None \<Rightarrow> clk | Some u \<Rightarrow> d_clk u"
  obtain rc1 now w1 where n: "run (posixipc_now ?c (Some ts_zero)) w = ((rc1, now), w1)" by (metis prod_cases3 surj_pair)
  let ?sl = "\<lparr>d_clk = ?c, d_ts = add_ns (the now) SLICE_NS\<rparr>"
  let ?sl2 = "case user of None \<Rightarrow> ?sl | Some u \<Rightarrow> posixipc_deadline_min u ?sl"
  obtain rc2 s2 w2 where f: "run (allow_threads (fn s ?sl2)) w1 = ((rc2, s2), w2)" by (metis prod_cases3 surj_pair)
  let ?w = "after w2 (Py CheckSignals)"
  obtain e w3 where e: "run (posixipc_deadline_expired user) ?w = (e, w3)" by fastforce
  note nk = keepsD [OF keeps_now [OF delta_quiet] n] and fk = threads_run [OF f]
    and ek = keepsD [OF keeps_expired [OF delta_quiet] e]
  show thesis
    by (rule that [of rc1 w1 w2 rc2 e w3 s2])
      (use n f e nk fk ek now_failed [of w ?c ts_zero rc1 now w1] in
        \<open>auto simp: run_bind run_if run_ret run_call Let_def lock_likeD [OF delta_quiet] split: prod.splits\<close>)
qed

lemma wait_loop_env:
  assumes "run (wait_loop j fn user clk s) w = (r, w')"
  shows "env w' = env w"
  using assms
proof (induction j arbitrary: s w)
  case (Suc j)
  then show ?case by (rule_tac wait_step [of w user j clk s]) (auto split: if_splits simp del: wait_loop.simps)
qed (simp add: io_simps)

lemma wait_loop_balance:
  assumes "clock_errors w" and "run (wait_loop j fn user clk s) w = (Some (rc, s'), w')"
  shows "balance \<delta> w' = balance \<delta> w + k rc"
  using assms
proof (induction j arbitrary: s w)
  case (Suc j)
  show ?case
  proof (rule wait_step [of w user j clk s], goal_cases)
    case (1 rc1 w1 rc2 s2 w2 e w3)
    have "clock_errors w3" using Suc.prems(1) 1(8) by (simp add: clock_errors_def)
    moreover have "rc1 \<noteq> 0 \<Longrightarrow> k rc1 = 0" using 1(1) [OF Suc.prems(1)] by (intro k_nothing) auto
    ultimately show ?case
      using Suc.prems(2) Suc.IH [of w3 s2] 1(2-) k_nothing [of ETIMEDOUT] k_nothing [of POSIXIPC_ERROR_INTERRUPTED]
      by (auto split: if_splits simp del: wait_loop.simps simp: lock_likeD [OF delta_quiet])
  qed
qed (simp add: io_simps)

lemma wait_loop_ends:
  assumes "clock_passes w d n" and "n \<le> length (trace w) + j"
  shows "fst (run (wait_loop (Suc j) fn (Some d) clk s) w) \<noteq> None"
  using assms
proof (induction j arbitrary: s w)
  case 0
  show ?case
  proof (rule wait_step [of w "Some d" 0 clk s], goal_cases)
    case (1 rc1 w1 rc2 s2 w2 e w3)
    then have "fst (run (posixipc_deadline_expired (Some d)) (after w2 (Py CheckSignals)))"
      using 0 by (intro clock_passes_expired [of _ _ n]) (auto simp: clock_passes_def)
    with 1 show ?case by (auto simp del: wait_loop.simps)
  qed
next
  case (Suc j)
  show ?case
  proof (rule wait_step [of w "Some d" "Suc j" clk s], goal_cases)
    case (1 rc1 w1 rc2 s2 w2 e w3)
    then have "clock_passes w3 d n" "n \<le> length (trace w3) + j" using Suc.prems by (auto simp: clock_passes_def)
    from Suc.IH [OF this, of s2] 1 show ?case by (auto simp del: wait_loop.simps)
  qed
qed

text \<open>An interruptible wait reports a timeout only after the clock has passed the deadline.\<close>

lemma wait_loop_timeout:
  assumes "clock_errors w" and "run (wait_loop j fn user clk s) w = (Some (ETIMEDOUT, s'), w')"
  shows "\<exists>d w2. user = Some d \<and> env w2 = env w \<and> run (posixipc_deadline_expired (Some d)) w2 = (True, w')"
  using assms
proof (induction j arbitrary: s w)
  case (Suc j)
  show ?case
  proof (rule wait_step [of w user j clk s], goal_cases)
    case (1 rc1 w1 rc2 s2 w2 e w3)
    have ce: "clock_errors w3" using Suc.prems(1) 1(8) by (simp add: clock_errors_def)
    have "rc1 \<noteq> ETIMEDOUT" using 1(1) [OF Suc.prems(1)] by auto
    then consider "user \<noteq> None" "e" "w' = w3" | "run (wait_loop j fn user clk s2) w3 = (Some (ETIMEDOUT, s'), w')"
      using Suc.prems(2) 1(11) by (auto split: if_splits simp del: wait_loop.simps)
    then show ?case
    proof cases
      case 1
      then obtain d where "user = Some d" by blast
      with 1 \<open>run (posixipc_deadline_expired user) _ = _\<close> \<open>env w2 = env w\<close> show ?thesis
        by (intro exI [of _ d] exI [of _ "after w2 (Py CheckSignals)"]) simp
    next
      case 2
      then show ?thesis using Suc.IH [OF ce] \<open>env w3 = env w\<close> by simp
    qed
  qed
qed (simp add: io_simps)

end

context waiter
begin

lemma blocking_wait_env:
  assumes "run (posixipc_blocking_wait fuel fn user intr clk s) w = (r, w')"
  shows "env w' = env w"
  using assms wait_loop_env [of fuel user clk s w r w'] threads_run(1) [of s _ w _ _ w']
  by (auto simp: posixipc_blocking_wait_def run_bind run_if run_ret split: if_splits option.splits prod.splits)

lemma blocking_wait_balance:
  assumes "clock_errors w" and "run (posixipc_blocking_wait fuel fn user intr clk s) w = (Some (rc, s'), w')"
  shows "balance \<delta> w' = balance \<delta> w + k rc"
  using assms wait_loop_balance [of w fuel user clk s rc s' w'] threads_run(3) [of s _ w rc s' w']
  by (auto simp: posixipc_blocking_wait_def run_bind run_if run_ret split: if_splits option.splits prod.splits)

lemma blocking_wait_ends:
  assumes "clock_passes w d n" and "n < fuel"
  shows "fst (run (posixipc_blocking_wait fuel fn (Some d) intr clk s) w) \<noteq> None"
  using wait_loop_ends [of w d n "fuel - 1" clk s] assms
  by (auto simp: posixipc_blocking_wait_def run_bind run_if run_ret simp del: wait_loop.simps split: prod.splits)

end

text \<open>
  What every call of the function keeps of its state (\<open>S\<close>) and says of its code (\<open>R\<close>) holds of what
  the wait returns.
\<close>

context waiter
begin

lemma wait_loop_inv:
  assumes fn: "\<And>s d w2 rc s2 w3. S s \<Longrightarrow> env w2 = env w \<Longrightarrow> run (fn s d) w2 = ((rc, s2), w3) \<Longrightarrow> S s2 \<and> R rc"
    and R: "R EINVAL" "R 14" "R ETIMEDOUT" "R POSIXIPC_ERROR_INTERRUPTED"
    and "clock_errors w" and "S s" and "run (wait_loop j fn user clk s) w = (Some (rc, s'), w')"
  shows "S s' \<and> R rc"
  using fn assms(6-8)
proof (induction j arbitrary: s w)
  case (Suc j)
  let ?c = "case user of None \<Rightarrow> clk | Some u \<Rightarrow> d_clk u"
  obtain rc1 now w1 where n: "run (posixipc_now ?c (Some ts_zero)) w = ((rc1, now), w1)" by (metis prod_cases3 surj_pair)
  let ?sl = "\<lparr>d_clk = ?c, d_ts = add_ns (the now) SLICE_NS\<rparr>"
  let ?sl2 = "case user of None \<Rightarrow> ?sl | Some u \<Rightarrow> posixipc_deadline_min u ?sl"
  obtain rc2 s2 w2 where f: "run (fn s ?sl2) (after w1 (Py SaveThread)) = ((rc2, s2), w2)" by (metis prod_cases3 surj_pair)
  let ?w = "after (after w2 (Py RestoreThread)) (Py CheckSignals)"
  obtain e w3 where e: "run (posixipc_deadline_expired user) ?w = (e, w3)" by fastforce
  have ew: "env w1 = env w" "env w2 = env w" "env w3 = env w"
    using keepsD(1) [OF keeps_now [OF delta_quiet] n] fn_run(1) [OF f] keepsD(1) [OF keeps_expired [OF delta_quiet] e] by simp_all
  have s2: "S s2 \<and> R rc2" using Suc.prems(1) [OF \<open>S s\<close> _ f] ew by simp
  have rc1: "R rc1" if "rc1 \<noteq> 0" using now_failed [OF \<open>clock_errors w\<close> n] that R by auto
  have IH: "S s' \<and> R rc" if "run (wait_loop j fn user clk s2) w3 = (Some (rc, s'), w')"
  proof (rule Suc.IH [OF _ _ _ that])
    show "clock_errors w3" using \<open>clock_errors w\<close> ew(3) by (simp add: clock_errors_def)
    show "S s2" using s2 by simp
    show "S s \<Longrightarrow> env wa = env w3 \<Longrightarrow> run (fn s d) wa = ((rc, sa), wb) \<Longrightarrow> S sa \<and> R rc" for s d wa rc sa wb
      using Suc.prems(1) ew(3) by simp
  qed
  have "run (wait_loop (Suc j) fn user clk s) w =
      (if rc1 \<noteq> 0 then (Some (rc1, s), w1)
       else if rc2 \<noteq> ETIMEDOUT then (Some (rc2, s2), after w2 (Py RestoreThread))
       else if a_ret (answer_to (after w2 (Py RestoreThread)) (Py CheckSignals)) < 0
       then (Some (POSIXIPC_ERROR_INTERRUPTED, s2), ?w)
       else if user \<noteq> None \<and> e then (Some (ETIMEDOUT, s2), w3)
       else run (wait_loop j fn user clk s2) w3)"
    using n f e by (simp add: run_bind run_if run_ret run_call run_allow_threads Let_def)
  with Suc.prems(4) \<open>S s\<close> s2 rc1 R IH show ?case by (auto split: if_splits simp del: wait_loop.simps)
qed (simp add: run_ret)

lemma blocking_wait_inv:
  assumes fn: "\<And>s d w2 rc s2 w3. S s \<Longrightarrow> env w2 = env w \<Longrightarrow> run (fn s d) w2 = ((rc, s2), w3) \<Longrightarrow> S s2 \<and> R rc"
    and R: "R EINVAL" "R 14" "R ETIMEDOUT" "R POSIXIPC_ERROR_INTERRUPTED"
    and w: "clock_errors w" "S s" "run (posixipc_blocking_wait fuel fn user intr clk s) w = (Some (rc, s'), w')"
  shows "S s' \<and> R rc"
proof (cases intr)
  case True
  show ?thesis
  proof (rule wait_loop_inv [where S = S and R = R and s = s and w = w])
    show "run (wait_loop fuel fn user clk s) w = (Some (rc, s'), w')" using w(3) True by (simp add: posixipc_blocking_wait_def)
  qed (fact fn R w(1,2))+
next
  case False
  let ?d = "case user of None \<Rightarrow> \<lparr>d_clk = clk, d_ts = \<lparr>tv_sec = 0x7fffffff, tv_nsec = 0\<rparr>\<rparr> | Some u \<Rightarrow> u"
  obtain rc2 s2 w2 where f: "run (fn s ?d) (after w (Py SaveThread)) = ((rc2, s2), w2)" by (metis prod_cases3 surj_pair)
  then have "rc = rc2 \<and> s' = s2"
    using w(3) False by (cases user) (auto simp: posixipc_blocking_wait_def run_bind run_ret run_allow_threads)
  with fn [OF w(2) _ f] show ?thesis by simp
qed

end

section \<open>Effects on a balance\<close>

text \<open>
  In every environment that satisfies \<open>E\<close> the computation changes the balance by what \<open>k\<close> says of its
  result. The rules follow the monad; \<^const>\<open>keeps\<close> is the case of no change.
\<close>

definition effect ::
    "((history \<Rightarrow> syscall \<Rightarrow> answer) \<Rightarrow> bool) \<Rightarrow> (syscall \<Rightarrow> answer \<Rightarrow> int) \<Rightarrow> ('a \<Rightarrow> int) \<Rightarrow> 'a io \<Rightarrow> bool" where
  "effect E \<delta> k m \<longleftrightarrow> (\<forall>w x w'. E (env w) \<longrightarrow> run m w = (x, w') \<longrightarrow>
     env w' = env w \<and> balance \<delta> w' = balance \<delta> w + k x)"

lemma effectD:
  assumes "effect E \<delta> k m" and "E (env w)" and "run m w = (x, w')"
  shows "env w' = env w" and "balance \<delta> w' = balance \<delta> w + k x"
  using assms unfolding effect_def by blast+

lemma effect_ret: "k x = 0 \<Longrightarrow> effect E \<delta> k (ret x)"
  by (simp add: effect_def run_ret)

lemma effect_bind:
  assumes "effect E \<delta> k1 m" and "\<And>x. effect E \<delta> (\<lambda>y. k y - k1 x) (f x)"
  shows "effect E \<delta> k (m \<bind> f)"
  unfolding effect_def
proof (intro allI impI)
  fix w y w'
  assume e: "E (env w)" and r: "run (m \<bind> f) w = (y, w')"
  obtain x w1 where m: "run m w = (x, w1)" by fastforce
  then have f: "run (f x) w1 = (y, w')" using r by (simp add: run_bind)
  have "env w1 = env w" by (rule effectD(1) [OF assms(1) e m])
  with effectD [OF assms(1) e m] effectD [OF assms(2) _ f] e show "env w' = env w \<and> balance \<delta> w' = balance \<delta> w + k y"
    by simp
qed

lemma effect_keeps: "keeps \<delta> m \<Longrightarrow> effect E \<delta> (\<lambda>_. 0) m"
  unfolding effect_def using keepsD by fastforce

lemma effect_keeps_bind: "keeps \<delta> m \<Longrightarrow> (\<And>x. effect E \<delta> k (f x)) \<Longrightarrow> effect E \<delta> k (m \<bind> f)"
  using effect_bind [OF effect_keeps] by force

lemma effect_call: "effect E \<delta> (\<lambda>a. \<delta> c a) (call c)"
  by (simp add: effect_def run_call)

lemma effect_if: "(b \<Longrightarrow> effect E \<delta> k m) \<Longrightarrow> (\<not> b \<Longrightarrow> effect E \<delta> k m') \<Longrightarrow> effect E \<delta> k (if b then m else m')"
  by simp

lemma effect_option:
  "(x = None \<Longrightarrow> effect E \<delta> k m) \<Longrightarrow> (\<And>y. x = Some y \<Longrightarrow> effect E \<delta> k (f y)) \<Longrightarrow>
   effect E \<delta> k (case x of None \<Rightarrow> m | Some y \<Rightarrow> f y)"
  by (cases x) simp_all

lemma effect_sum:
  "(\<And>y. x = Inl y \<Longrightarrow> effect E \<delta> k (g y)) \<Longrightarrow> (\<And>y. x = Inr y \<Longrightarrow> effect E \<delta> k (f y)) \<Longrightarrow>
   effect E \<delta> k (case x of Inl y \<Rightarrow> g y | Inr y \<Rightarrow> f y)"
  by (cases x) simp_all

lemma effect_prod: "(\<And>a b. p = (a, b) \<Longrightarrow> effect E \<delta> k (f a b)) \<Longrightarrow> effect E \<delta> k (case p of (a, b) \<Rightarrow> f a b)"
  by (cases p) simp

lemma effect_outcome:
  "(\<And>y. x = Returned y \<Longrightarrow> effect E \<delta> k (f y)) \<Longrightarrow> (x = Undefined \<Longrightarrow> effect E \<delta> k m) \<Longrightarrow>
   (x = Unfinished \<Longrightarrow> effect E \<delta> k m') \<Longrightarrow>
   effect E \<delta> k (case x of Returned y \<Rightarrow> f y | Undefined \<Rightarrow> m | Unfinished \<Rightarrow> m')"
  by (cases x) simp_all

lemma effect_mono: "effect E \<delta> k m \<Longrightarrow> k = k' \<Longrightarrow> effect E \<delta> k' m"
  by simp

lemma keeps_outcome:
  "(\<And>y. keeps \<delta> (f y)) \<Longrightarrow> keeps \<delta> m \<Longrightarrow> keeps \<delta> m' \<Longrightarrow>
   keeps \<delta> (case x of Returned y \<Rightarrow> f y | Undefined \<Rightarrow> m | Unfinished \<Rightarrow> m')"
  by (cases x) simp_all

lemmas effect_rules = effect_if effect_option effect_sum effect_prod effect_outcome

lemma keeps_allow_threads: "lock_like \<delta> \<Longrightarrow> keeps \<delta> m \<Longrightarrow> keeps \<delta> (allow_threads m)"
  by (auto simp: allow_threads_def lock_likeD intro!: keeps_rules)

lemma effect_allow_threads: "lock_like \<delta> \<Longrightarrow> effect E \<delta> k m \<Longrightarrow> effect E \<delta> k (allow_threads m)"
  unfolding allow_threads_def
  by (rule effect_keeps_bind, rule keeps_call_ignore, simp add: lock_likeD, rule effect_bind, assumption,
      rule effect_keeps_bind, rule keeps_call_ignore, simp add: lock_likeD, rule effect_ret, simp)

lemma keeps_wait_loop:
  assumes "\<And>s d. keeps \<delta> (fn s d)" and "lock_like \<delta>"
  shows "keeps \<delta> (wait_loop j fn user clk s)"
proof (induction j arbitrary: s)
  case (Suc j)
  show ?case
    unfolding wait_loop.simps Let_def
    by (intro keeps_rules keeps_now keeps_expired keeps_allow_threads assms Suc.IH lock_likeD(3) [OF assms(2)]) simp
qed (simp add: keeps_ret)

lemma keeps_blocking_wait:
  assumes "\<And>s d. keeps \<delta> (fn s d)" and "lock_like \<delta>"
  shows "keeps \<delta> (posixipc_blocking_wait fuel fn user intr clk s)"
  unfolding posixipc_blocking_wait_def
  using assms by (intro keeps_rules keeps_allow_threads keeps_wait_loop) simp_all

section \<open>Effects of computations that may not end\<close>

text \<open>The same as \<^const>\<open>effect\<close>, for computations that end; nothing is said of a run that used up its fuel or became undefined.\<close>

definition end_effect ::
    "((history \<Rightarrow> syscall \<Rightarrow> answer) \<Rightarrow> bool) \<Rightarrow> (syscall \<Rightarrow> answer \<Rightarrow> int) \<Rightarrow> ('a \<Rightarrow> int) \<Rightarrow> ('a outcome \<times> 's) io \<Rightarrow> bool" where
  "end_effect E \<delta> k m \<longleftrightarrow> (\<forall>w x s w'. E (env w) \<longrightarrow> run m w = ((Returned x, s), w') \<longrightarrow>
     env w' = env w \<and> balance \<delta> w' = balance \<delta> w + k x)"

lemma end_effectD:
  assumes "end_effect E \<delta> k m" and "E (env w)" and "run m w = ((Returned x, s), w')"
  shows "env w' = env w" and "balance \<delta> w' = balance \<delta> w + k x"
  using assms unfolding end_effect_def by blast+

lemma end_effect_ret: "(\<And>y. x = Returned y \<Longrightarrow> k y = 0) \<Longrightarrow> end_effect E \<delta> k (ret (x, s))"
  by (simp add: end_effect_def run_ret)

lemma end_effect_bind:
  assumes "effect E \<delta> k1 m" and "\<And>x. end_effect E \<delta> (\<lambda>y. k y - k1 x) (f x)"
  shows "end_effect E \<delta> k (m \<bind> f)"
  unfolding end_effect_def
proof (intro allI impI)
  fix w y s w'
  assume e: "E (env w)" and r: "run (m \<bind> f) w = ((Returned y, s), w')"
  obtain x w1 where m: "run m w = (x, w1)" by fastforce
  then have f: "run (f x) w1 = ((Returned y, s), w')" using r by (simp add: run_bind)
  have "env w1 = env w" by (rule effectD(1) [OF assms(1) e m])
  with effectD [OF assms(1) e m] end_effectD [OF assms(2) _ f] e show "env w' = env w \<and> balance \<delta> w' = balance \<delta> w + k y"
    by simp
qed

lemma end_effect_keeps_bind: "keeps \<delta> m \<Longrightarrow> (\<And>x. end_effect E \<delta> k (f x)) \<Longrightarrow> end_effect E \<delta> k (m \<bind> f)"
  using end_effect_bind [OF effect_keeps] by force

text \<open>After a computation that may not end, the rest only matters if it did.\<close>

lemma end_effect_then:
  assumes "end_effect E \<delta> k1 m" and "\<And>x s. end_effect E \<delta> (\<lambda>y. k y - k1 x) (f x s)"
  shows "end_effect E \<delta> k (do { (oc, s) \<leftarrow> m; case oc of Returned x \<Rightarrow> f x s | Undefined \<Rightarrow> ret (Undefined, s) |
           Unfinished \<Rightarrow> ret (Unfinished, s) })"
  unfolding end_effect_def
proof (intro allI impI)
  fix w y s w'
  assume e: "E (env w)"
    and r: "run (do { (oc, s) \<leftarrow> m; case oc of Returned x \<Rightarrow> f x s | Undefined \<Rightarrow> ret (Undefined, s) |
           Unfinished \<Rightarrow> ret (Unfinished, s) }) w = ((Returned y, s), w')"
  obtain oc s1 w1 where m: "run m w = ((oc, s1), w1)" by (metis prod_cases3 surj_pair)
  with r obtain x where oc: "oc = Returned x" by (cases oc) (simp_all add: run_bind run_ret)
  then have f: "run (f x s1) w1 = ((Returned y, s), w')" using r m by (simp add: run_bind)
  note m' = m [unfolded oc]
  have "env w1 = env w" by (rule end_effectD(1) [OF assms(1) e m'])
  with end_effectD [OF assms(1) e m'] end_effectD [OF assms(2) _ f] e
  show "env w' = env w \<and> balance \<delta> w' = balance \<delta> w + k y" by simp
qed

lemma end_effect_if:
  "(b \<Longrightarrow> end_effect E \<delta> k m) \<Longrightarrow> (\<not> b \<Longrightarrow> end_effect E \<delta> k m') \<Longrightarrow> end_effect E \<delta> k (if b then m else m')"
  by simp

lemma end_effect_option:
  "(x = None \<Longrightarrow> end_effect E \<delta> k m) \<Longrightarrow> (\<And>y. x = Some y \<Longrightarrow> end_effect E \<delta> k (f y)) \<Longrightarrow>
   end_effect E \<delta> k (case x of None \<Rightarrow> m | Some y \<Rightarrow> f y)"
  by (cases x) simp_all

lemma end_effect_sum:
  "(\<And>y. x = Inl y \<Longrightarrow> end_effect E \<delta> k (g y)) \<Longrightarrow> (\<And>y. x = Inr y \<Longrightarrow> end_effect E \<delta> k (f y)) \<Longrightarrow>
   end_effect E \<delta> k (case x of Inl y \<Rightarrow> g y | Inr y \<Rightarrow> f y)"
  by (cases x) simp_all

lemma end_effect_prod:
  "(\<And>a b. p = (a, b) \<Longrightarrow> end_effect E \<delta> k (f a b)) \<Longrightarrow> end_effect E \<delta> k (case p of (a, b) \<Rightarrow> f a b)"
  by (cases p) simp

lemma end_effect_list:
  "(x = [] \<Longrightarrow> end_effect E \<delta> k m) \<Longrightarrow> (\<And>y ys. x = y # ys \<Longrightarrow> end_effect E \<delta> k (f y ys)) \<Longrightarrow>
   end_effect E \<delta> k (case x of [] \<Rightarrow> m | y # ys \<Rightarrow> f y ys)"
  by (cases x) simp_all

lemmas end_effect_rules = end_effect_if end_effect_option end_effect_sum end_effect_prod end_effect_list

lemma end_effect_res:
  assumes "\<And>w x w'. E (env w) \<Longrightarrow> run m w = (Some x, w') \<Longrightarrow> env w' = env w \<and> balance \<delta> w' = balance \<delta> w"
    and "\<And>x. end_effect E \<delta> k (f x)"
  shows "end_effect E \<delta> k (do { r \<leftarrow> m; case r of None \<Rightarrow> ret (Unfinished, s) | Some x \<Rightarrow> f x })"
  unfolding end_effect_def
proof (intro allI impI)
  fix w y t w'
  assume e: "E (env w)"
    and r: "run (do { r \<leftarrow> m; case r of None \<Rightarrow> ret (Unfinished, s) | Some x \<Rightarrow> f x }) w = ((Returned y, t), w')"
  obtain z w1 where m: "run m w = (z, w1)" by fastforce
  with r obtain x where z: "z = Some x" by (cases z) (simp_all add: run_bind run_ret)
  then have f: "run (f x) w1 = ((Returned y, t), w')" using r m by (simp add: run_bind)
  from end_effectD [OF assms(2) _ f] assms(1) [OF e m [unfolded z]] e
  show "env w' = env w \<and> balance \<delta> w' = balance \<delta> w + k y" by simp
qed

lemma end_effect_keeps: "keeps \<delta> m \<Longrightarrow> end_effect E \<delta> (\<lambda>_. 0) m"
  unfolding end_effect_def using keepsD by fastforce

lemma end_effect_mono: "end_effect E \<delta> k m \<Longrightarrow> k = k' \<Longrightarrow> end_effect E \<delta> k' m"
  by simp

section \<open>What a computation can return\<close>

text \<open>Every result of the computation in an environment that satisfies \<open>E\<close> satisfies \<open>Q\<close>.\<close>

definition yields :: "((history \<Rightarrow> syscall \<Rightarrow> answer) \<Rightarrow> bool) \<Rightarrow> ('a \<Rightarrow> bool) \<Rightarrow> 'a io \<Rightarrow> bool" where
  "yields E Q m \<longleftrightarrow> (\<forall>w x w'. E (env w) \<longrightarrow> run m w = (x, w') \<longrightarrow> env w' = env w \<and> Q x)"

lemma yieldsD:
  assumes "yields E Q m" and "E (env w)" and "run m w = (x, w')"
  shows "env w' = env w" and "Q x"
  using assms unfolding yields_def by blast+

lemma yields_ret: "Q x \<Longrightarrow> yields E Q (ret x)"
  by (simp add: yields_def run_ret)

lemma yields_call: "(\<And>w. E (env w) \<Longrightarrow> Q (answer_to w c)) \<Longrightarrow> yields E Q (call c)"
  by (auto simp: yields_def run_call)

lemma yields_any: "keeps (\<lambda>_ _. 0) m \<Longrightarrow> yields E (\<lambda>_. True) m"
  unfolding yields_def using keepsD(1) by fastforce

lemma yields_bind:
  assumes "yields E Q1 m" and "\<And>x. Q1 x \<Longrightarrow> yields E Q (f x)"
  shows "yields E Q (m \<bind> f)"
  unfolding yields_def
proof (intro allI impI)
  fix w y w'
  assume e: "E (env w)" and r: "run (m \<bind> f) w = (y, w')"
  obtain x w1 where m: "run m w = (x, w1)" by fastforce
  then have f: "run (f x) w1 = (y, w')" using r by (simp add: run_bind)
  have "env w1 = env w" by (rule yieldsD(1) [OF assms(1) e m])
  with yieldsD [OF assms(2) [OF yieldsD(2) [OF assms(1) e m]] _ f] e show "env w' = env w \<and> Q y" by simp
qed

lemma yields_any_bind: "keeps (\<lambda>_ _. 0) m \<Longrightarrow> (\<And>x. yields E Q (f x)) \<Longrightarrow> yields E Q (m \<bind> f)"
  using yields_bind [OF yields_any] by blast

lemma yields_if: "(b \<Longrightarrow> yields E Q m) \<Longrightarrow> (\<not> b \<Longrightarrow> yields E Q m') \<Longrightarrow> yields E Q (if b then m else m')"
  by simp

lemma yields_option:
  "(x = None \<Longrightarrow> yields E Q m) \<Longrightarrow> (\<And>y. x = Some y \<Longrightarrow> yields E Q (f y)) \<Longrightarrow>
   yields E Q (case x of None \<Rightarrow> m | Some y \<Rightarrow> f y)"
  by (cases x) simp_all

lemma yields_sum:
  "(\<And>y. x = Inl y \<Longrightarrow> yields E Q (g y)) \<Longrightarrow> (\<And>y. x = Inr y \<Longrightarrow> yields E Q (f y)) \<Longrightarrow>
   yields E Q (case x of Inl y \<Rightarrow> g y | Inr y \<Rightarrow> f y)"
  by (cases x) simp_all

lemma yields_prod: "(\<And>a b. p = (a, b) \<Longrightarrow> yields E Q (f a b)) \<Longrightarrow> yields E Q (case p of (a, b) \<Rightarrow> f a b)"
  by (cases p) simp

lemma yields_list:
  "(x = [] \<Longrightarrow> yields E Q m) \<Longrightarrow> (\<And>y ys. x = y # ys \<Longrightarrow> yields E Q (f y ys)) \<Longrightarrow>
   yields E Q (case x of [] \<Rightarrow> m | y # ys \<Rightarrow> f y ys)"
  by (cases x) simp_all

lemma yields_outcome:
  "(\<And>y. x = Returned y \<Longrightarrow> yields E Q (f y)) \<Longrightarrow> (x = Undefined \<Longrightarrow> yields E Q m) \<Longrightarrow>
   (x = Unfinished \<Longrightarrow> yields E Q m') \<Longrightarrow>
   yields E Q (case x of Returned y \<Rightarrow> f y | Undefined \<Rightarrow> m | Unfinished \<Rightarrow> m')"
  by (cases x) simp_all

lemma yields_mono: "yields E Q m \<Longrightarrow> (\<And>x. Q x \<Longrightarrow> Q' x) \<Longrightarrow> yields E Q' m"
  unfolding yields_def by blast

lemma yields_allow_threads: "yields E Q m \<Longrightarrow> yields E Q (allow_threads m)"
  unfolding allow_threads_def
  by (rule yields_any_bind [OF keeps_call_ignore [OF refl]], erule yields_bind,
      rule yields_any_bind [OF keeps_call_ignore [OF refl]], erule yields_ret)

lemma yields_env: "yields E Q m \<Longrightarrow> (\<And>e. E' e \<Longrightarrow> E e) \<Longrightarrow> yields E' Q m"
  unfolding yields_def by blast

lemmas yields_rules = yields_if yields_option yields_sum yields_prod yields_list yields_outcome

text \<open>The result together with the change of a balance.\<close>

definition leaves ::
    "((history \<Rightarrow> syscall \<Rightarrow> answer) \<Rightarrow> bool) \<Rightarrow> (syscall \<Rightarrow> answer \<Rightarrow> int) \<Rightarrow> ('a \<Rightarrow> int \<Rightarrow> bool) \<Rightarrow> 'a io \<Rightarrow> bool" where
  "leaves E \<delta> Q m \<longleftrightarrow>
     (\<forall>w x w'. E (env w) \<longrightarrow> run m w = (x, w') \<longrightarrow> env w' = env w \<and> Q x (balance \<delta> w' - balance \<delta> w))"

lemma leavesD: "leaves E \<delta> Q m \<Longrightarrow> E (env w) \<Longrightarrow> run m w = (x, w') \<Longrightarrow> Q x (balance \<delta> w' - balance \<delta> w)"
  unfolding leaves_def by blast

lemma leaves_ret: "Q x 0 \<Longrightarrow> leaves E \<delta> Q (ret x)"
  by (simp add: leaves_def run_ret)

lemma leaves_bind:
  assumes "keeps \<delta> m" and "yields E Q1 m" and "\<And>x. Q1 x \<Longrightarrow> leaves E \<delta> Q (f x)"
  shows "leaves E \<delta> Q (m \<bind> f)"
  unfolding leaves_def
proof (intro allI impI)
  fix w y w'
  assume e: "E (env w)" and r: "run (m \<bind> f) w = (y, w')"
  obtain x w1 where m: "run m w = (x, w1)" by fastforce
  then have f: "run (f x) w1 = (y, w')" using r by (simp add: run_bind)
  have "leaves E \<delta> Q (f x)" by (rule assms(3) [OF yieldsD(2) [OF assms(2) e m]])
  with f e keepsD(1,3) [OF assms(1) m] show "env w' = env w \<and> Q y (balance \<delta> w' - balance \<delta> w)"
    unfolding leaves_def by metis
qed

lemma leaves_any_bind: "keeps \<delta> m \<Longrightarrow> (\<And>x. leaves E \<delta> Q (f x)) \<Longrightarrow> leaves E \<delta> Q (m \<bind> f)"
  using leaves_bind [of \<delta> m E "\<lambda>_. True" Q f] by (auto simp: yields_def dest: keepsD(1))

lemma leaves_call_bind:
  assumes "\<And>a. leaves E \<delta> (\<lambda>x n. Q x (n + \<delta> c a)) (f a)"
  shows "leaves E \<delta> Q (call c \<bind> f)"
  unfolding leaves_def
proof (intro allI impI)
  fix w y w'
  assume e: "E (env w)" and r: "run (call c \<bind> f) w = (y, w')"
  then have f: "run (f (answer_to w c)) (after w c) = (y, w')" by (simp add: run_bind run_call)
  have "E (env (after w c))" using e by simp
  with assms [of "answer_to w c"] f show "env w' = env w \<and> Q y (balance \<delta> w' - balance \<delta> w)"
    unfolding leaves_def by fastforce
qed

lemma leaves_if: "(b \<Longrightarrow> leaves E \<delta> Q m) \<Longrightarrow> (\<not> b \<Longrightarrow> leaves E \<delta> Q m') \<Longrightarrow> leaves E \<delta> Q (if b then m else m')"
  by simp

lemma leaves_option:
  "(x = None \<Longrightarrow> leaves E \<delta> Q m) \<Longrightarrow> (\<And>y. x = Some y \<Longrightarrow> leaves E \<delta> Q (f y)) \<Longrightarrow>
   leaves E \<delta> Q (case x of None \<Rightarrow> m | Some y \<Rightarrow> f y)"
  by (cases x) simp_all

lemma leaves_sum:
  "(\<And>y. x = Inl y \<Longrightarrow> leaves E \<delta> Q (g y)) \<Longrightarrow> (\<And>y. x = Inr y \<Longrightarrow> leaves E \<delta> Q (f y)) \<Longrightarrow>
   leaves E \<delta> Q (case x of Inl y \<Rightarrow> g y | Inr y \<Rightarrow> f y)"
  by (cases x) simp_all

lemma leaves_prod: "(\<And>a b. p = (a, b) \<Longrightarrow> leaves E \<delta> Q (f a b)) \<Longrightarrow> leaves E \<delta> Q (case p of (a, b) \<Rightarrow> f a b)"
  by (cases p) simp

lemma leaves_outcome:
  "(\<And>y. x = Returned y \<Longrightarrow> leaves E \<delta> Q (f y)) \<Longrightarrow> (x = Undefined \<Longrightarrow> leaves E \<delta> Q m) \<Longrightarrow>
   (x = Unfinished \<Longrightarrow> leaves E \<delta> Q m') \<Longrightarrow>
   leaves E \<delta> Q (case x of Returned y \<Rightarrow> f y | Undefined \<Rightarrow> m | Unfinished \<Rightarrow> m')"
  by (cases x) simp_all

lemmas leaves_rules = leaves_if leaves_option leaves_sum leaves_prod leaves_outcome

text \<open>Every deadline a sliced wait hands to its function is on the caller's clock and no later.\<close>

lemma only_allow_threads: "only Q m \<Longrightarrow> (\<And>c. Q (Py c)) \<Longrightarrow> only Q (allow_threads m)"
  unfolding allow_threads_def by (intro only_rules)

lemma only_now: "(\<And>clk. Q (Clock_gettime clk)) \<Longrightarrow> only Q (posixipc_now clk t)"
  unfolding posixipc_now_def by (intro only_rules)

lemma only_expired: "(\<And>clk. Q (Clock_gettime clk)) \<Longrightarrow> only Q (posixipc_deadline_expired d)"
  unfolding posixipc_deadline_expired_def by (intro only_rules only_now)

lemma wait_loop_only:
  assumes fn: "\<And>s d. no_later d u \<Longrightarrow> only Q (fn s d)"
    and q: "\<And>clk. Q (Clock_gettime clk)" "\<And>c. Q (Py c)"
  shows "only Q (wait_loop j fn (Some u) clk s)"
proof (induction j arbitrary: s)
  case (Suc j)
  show ?case
    unfolding wait_loop.simps option.case Let_def
    by (intro only_rules only_now only_expired only_allow_threads fn deadline_min_no_later q Suc.IH) simp
qed (simp add: only_ret)

lemma blocking_wait_only:
  assumes "\<And>s d. no_later d u \<Longrightarrow> only Q (fn s d)" and "\<And>clk. Q (Clock_gettime clk)" and "\<And>c. Q (Py c)"
  shows "only Q (posixipc_blocking_wait fuel fn (Some u) intr clk s)"
  unfolding posixipc_blocking_wait_def option.case
  using assms by (intro only_rules only_allow_threads wait_loop_only) simp_all

section \<open>Parsed options\<close>

lemma parse_timeout_range:
  assumes "run (parse_timeout tobj) w = (Inr (none, secs), w')"
  shows "secs \<noteq> NaN" and "\<not> dbl_neg secs" and "none \<Longrightarrow> secs = Fin 0"
  using assms by (auto simp: parse_timeout_def io_simps dbl_neg_def split: if_splits)

text \<open>
  Options that \<^verbatim>\<open>posixipc_parse_acquire\<close> accepts are meaningful: the timeout is a number that
  is not negative, an absent timeout is stored as 0, and a call that must not block has no
  positive timeout. More than one positional argument is always refused.
\<close>

theorem parse_acquire_sound:
  assumes "run (posixipc_parse_acquire args kws) w = (Inr opts, w')"
  shows "timeout opts \<noteq> NaN \<and> \<not> dbl_neg (timeout opts) \<and> (timeout_none opts \<longrightarrow> timeout opts = Fin 0) \<and>
         (blocking opts \<or> timeout opts = Fin 0) \<and> length args \<le> 1"
proof -
  have le: "length args \<le> 1" using assms by (auto simp: posixipc_parse_acquire_def io_simps split: if_splits)
  let ?t = "case args of [] \<Rightarrow> Py_None | a # _ \<Rightarrow> a"
  obtain k w1 where k: "run (parse_keywords (length args) kws ?t True True) w = (k, w1)" by fastforce
  with assms le obtain tobj bl it where k2: "k = Inr (tobj, bl, it)"
    by (cases k) (auto simp: posixipc_parse_acquire_def io_simps)
  obtain t w2 where t: "run (parse_timeout tobj) w1 = (t, w2)" by fastforce
  with assms le k k2 obtain none secs where t2: "t = Inr (none, secs)"
    by (cases t) (auto simp: posixipc_parse_acquire_def io_simps)
  note r = parse_timeout_range [OF t [unfolded t2]]
  have o1: "opts = \<lparr>timeout_none = none, timeout = secs, blocking = bl, interruptible = it\<rparr>"
    and o2: "bl \<or> none \<or> \<not> dbl_pos secs"
    using assms le k k2 t t2 by (auto simp: posixipc_parse_acquire_def io_simps split: if_splits)
  have "\<not> dbl_pos secs \<Longrightarrow> secs = Fin 0" using r by (auto simp: dbl_pos_def dbl_neg_def split: dbl.splits)
  with r o1 o2 le show ?thesis by auto
qed

theorem parse_acquire_sound_witness:
  "\<exists>opts w'. run (posixipc_parse_acquire [] [(''blocking'', Obj 1)]) calm_world = (Inr opts, w') \<and>
     \<not> blocking opts \<and> timeout opts = Fin 0"
proof -
  have a: "answer_to w c = answer0" if "env w = env calm_world" for w c
    using that by (simp add: answer_to_def calm_world_def)
  obtain opts w' where r: "run (posixipc_parse_acquire [] [(''blocking'', Obj 1)]) calm_world = (Inr opts, w')"
      and b: "\<not> blocking opts"
    by (simp add: posixipc_parse_acquire_def parse_timeout_def io_simps a answer0_def)
  from parse_acquire_sound [OF r] r b show ?thesis by blast
qed

text \<open>A world in which every call succeeds.\<close>

fun py_answer :: "syscall \<Rightarrow> answer" where
  "py_answer (Py (ParseTuple f)) = answer0\<lparr>a_ret := 1\<rparr>"
| "py_answer c = answer0"

definition py_world :: world where
  "py_world = \<lparr>env = \<lambda>h. py_answer, trace = []\<rparr>"

lemma answer_to_py: "env w = env py_world \<Longrightarrow> answer_to w c = py_answer c"
  by (simp add: answer_to_def py_world_def)

lemma py_errno: "errno_set py_world"
proof -
  have "\<not> a_ret (py_answer c) < 0" "zero_or_fails c \<Longrightarrow> a_ret (py_answer c) = 0" for c
    by (induction c rule: py_answer.induct) (simp_all add: answer0_def)
  then show ?thesis by (simp add: errno_set_def py_world_def)
qed

end
