(* ===== verification/ShmObj.thy ===== *)
theory ShmObj
  imports Wait
begin

text \<open>
  Python segment objects (\<^verbatim>\<open>src/src/bindings/py_shm.c\<close>): pins, closing, the constructors and the
  accessors. The first part runs each function on its own; the second part interleaves the
  atomic operations of pin, unpin and close of many threads, since the module is declared safe
  without the interpreter lock, and shows that a pinned segment stays mapped as long as one
  thread closes at a time.
\<close>

section \<open>Objects\<close>

record PosixIPCSharedMemoryObject =
  s_core :: posixipc_shm
  s_pins :: u32
  s_flags :: u32
  s_created :: bool

definition shm_is_closed :: "PosixIPCSharedMemoryObject \<Rightarrow> bool" where
  "shm_is_closed r \<longleftrightarrow> flag_set (s_flags r) FLAG_CLOSED \<or> sh_map (s_core r) = None"

definition posixipc_shmobj_pin :: "PosixIPCSharedMemoryObject \<Rightarrow> (pyexc option \<times> PosixIPCSharedMemoryObject) io" where
  "posixipc_shmobj_pin r = do {
     _ \<leftarrow> posixipc_state_from_obj;
     let r = r\<lparr>s_pins := s_pins r + 1\<rparr>;
     if shm_is_closed r then ret (Some posixipc_raise_closed, r\<lparr>s_pins := s_pins r - 1\<rparr>)
     else ret (None, r) }"

definition posixipc_shmobj_unpin :: "PosixIPCSharedMemoryObject \<Rightarrow> PosixIPCSharedMemoryObject" where
  "posixipc_shmobj_unpin r = r\<lparr>s_pins := s_pins r - 1\<rparr>"

definition posixipc_shmobj_close ::
    "PosixIPCSharedMemoryObject \<Rightarrow> bool \<Rightarrow> (pyexc option \<times> PosixIPCSharedMemoryObject) io" where
  "posixipc_shmobj_close r force = do {
     _ \<leftarrow> posixipc_state_from_obj;
     if flag_set (s_flags r) FLAG_CLOSED \<or> sh_map (s_core r) = None
     then ret (None, r\<lparr>s_flags := s_flags r OR FLAG_CLOSED\<rparr>)
     else do {
       let r = r\<lparr>s_flags := s_flags r OR FLAG_CLOSED\<rparr>;
       if \<not> force \<and> s_pins r > 0
       then ret (Some BufferError, r\<lparr>s_flags := s_flags r AND NOT FLAG_CLOSED\<rparr>)
       else do {
         (rc, core) \<leftarrow> posixipc_shm_close (Some (s_core r));
         let r = r\<lparr>s_core := the core\<rparr>;
         if rc \<noteq> 0 then ret (Some (raise_err rc), r\<lparr>s_flags := s_flags r AND NOT FLAG_CLOSED\<rparr>)
         else ret (None, r) } } }"

definition posixipc_shmobj_from_core :: "posixipc_shm \<Rightarrow> bool \<Rightarrow> PosixIPCSharedMemoryObject pyres io" where
  "posixipc_shmobj_from_core core created = do {
     a \<leftarrow> call (Py Tp_alloc);
     if a_ret a < 0 then do {
       _ \<leftarrow> posixipc_shm_close (Some core);
       ret (Inl Pending) }
     else ret (Inr \<lparr>s_core = core, s_pins = 0, s_flags = 0, s_created = created\<rparr>) }"

text \<open>
  \<^verbatim>\<open>posixipc_shm_offset_ptr\<close> on the segment of an object: the header it points to is read from the
  shared memory.
\<close>

definition region_ptr :: "PosixIPCSharedMemoryObject \<Rightarrow> u32 \<Rightarrow> u32 \<Rightarrow> u32 \<Rightarrow> (rc \<times> addr option) io" where
  "region_ptr ob offset sz al =
     (case sh_hdr (s_core ob) of None \<Rightarrow> ret (EINVAL, None) | Some p \<Rightarrow> do {
        h \<leftarrow> call (Mem (Load_header p));
        let (rc, out) = posixipc_shm_offset_ptr (Some (s_core ob)) (a_hdr h) offset sz al (Some None);
        ret (rc, the out) })"

section \<open>Timeouts and expectations\<close>

text \<open>The argument is NULL when the caller gave none; the result pairs \<^verbatim>\<open>is_none\<close> with the seconds.\<close>

definition parse_timeout_seconds :: "pyobj option \<Rightarrow> (bool \<times> dbl) pyres io" where
  "parse_timeout_seconds obj =
     (case obj of None \<Rightarrow> ret (Inr (True, Fin 0)) | Some ob \<Rightarrow>
      if ob = Py_None then ret (Inr (True, Fin 0))
      else do {
        a \<leftarrow> call (Py (AsDouble ob));
        e \<leftarrow> call (Py Err_Occurred);
        if a_ret e \<noteq> 0 then ret (Inl Pending)
        else if a_dbl a = NaN \<or> dbl_neg (a_dbl a) then ret (Inl ValueError)
        else ret (Inr (False, a_dbl a)) })"

definition deadline0 :: posixipc_deadline where
  "deadline0 = \<lparr>d_clk = CLOCK_REALTIME, d_ts = ts_zero\<rparr>"

definition deadline_from_timeout ::
    "(rat \<Rightarrow> rat) \<Rightarrow> pyobj option \<Rightarrow> posixipc_deadline option pyres outcome io" where
  "deadline_from_timeout fl obj = do {
     t \<leftarrow> parse_timeout_seconds obj;
     case t of Inl e \<Rightarrow> ret (Returned (Inl e)) | Inr (is_none, seconds) \<Rightarrow>
       if is_none then ret (Returned (Inr None))
       else do {
         d \<leftarrow> posixipc_deadline_from_seconds fl CLOCK_MONOTONIC seconds (Some deadline0);
         case d of None \<Rightarrow> ret Undefined
         | Some (rc, dl) \<Rightarrow> if rc \<noteq> 0 then ret (Returned (Inl (OSError rc))) else ret (Returned (Inr dl)) } }"

definition raw_expect :: "config \<Rightarrow> u32 \<Rightarrow> posixipc_shm_expect" where
  "raw_expect c payload = \<lparr>e_layout_version = LAYOUT_VERSION, e_slot_count = 0, e_abi_tag = posixipc_abi_tag c,
     e_flags = 0, e_total_size = HEADER_BYTES + payload, e_directory_bytes = 0, e_layout_digest = 0, e_slots = None\<rparr>"

section \<open>Constructors\<close>

text \<open>\<open>name\<close> and \<open>sz\<close> are what the argument tuple holds. The handle on the stack is written by the core.\<close>

definition size_out_of_range :: "int \<Rightarrow> bool" where
  "size_out_of_range sz \<longleftrightarrow> sz < 0 \<or> sz > uint UINT32_MAX - 64"

definition publish_or_undo :: "string \<Rightarrow> posixipc_shm \<Rightarrow> bool \<Rightarrow> PosixIPCSharedMemoryObject pyres io" where
  "publish_or_undo name core created = do {
     rc \<leftarrow> posixipc_shm_publish (Some core);
     if rc \<noteq> 0 then do {
       _ \<leftarrow> posixipc_shm_mark_broken (Some core);
       _ \<leftarrow> posixipc_shm_close (Some core);
       _ \<leftarrow> posixipc_shm_unlink (Some name);
       ret (Inl (raise_err rc)) }
     else posixipc_shmobj_from_core core created }"

definition shm_create :: "config \<Rightarrow> string \<Rightarrow> int \<Rightarrow> PosixIPCSharedMemoryObject pyres io" where
  "shm_create c name sz = do {
     st \<leftarrow> posixipc_state_from_type;
     case st of Some e \<Rightarrow> ret (Inl e) | None \<Rightarrow> do {
       p \<leftarrow> call (Py (ParseTuple ''sn:create''));
       if a_ret p = 0 then ret (Inl Pending)
       else if size_out_of_range sz then ret (Inl ValueError)
       else do {
         (rc, core) \<leftarrow> allow_threads
           (posixipc_shm_create c (Some name) (Some (raw_expect c (word_of_int sz))) (Some reset_handle));
         if rc \<noteq> 0 then ret (Inl (raise_err rc))
         else publish_or_undo name (the core) True } } }"

text \<open>\<open>tobj\<close> is the timeout object, \<^const>\<open>None\<close> for the default of five seconds.\<close>

definition timeout_or_default :: "pyobj option \<Rightarrow> pyobj pyres io" where
  "timeout_or_default tobj =
     (case tobj of Some ob \<Rightarrow> ret (Inr ob) | None \<Rightarrow> do {
        a \<leftarrow> call (Py (FloatFromDouble (Fin 5)));
        if a_ret a < 0 then ret (Inl Pending) else ret (Inr (Obj (nat (a_ret a)))) })"

definition with_timeout ::
    "(rat \<Rightarrow> rat) \<Rightarrow> pyobj option \<Rightarrow> (posixipc_deadline option \<Rightarrow> 'a pyres outcome io) \<Rightarrow> 'a pyres outcome io" where
  "with_timeout fl tobj body = do {
     t \<leftarrow> timeout_or_default tobj;
     case t of Inl e \<Rightarrow> ret (Returned (Inl e)) | Inr ob \<Rightarrow> do {
       d \<leftarrow> deadline_from_timeout fl (Some ob);
       case d of Undefined \<Rightarrow> ret Undefined | Unfinished \<Rightarrow> ret Unfinished
       | Returned (Inl e) \<Rightarrow> ret (Returned (Inl e))
       | Returned (Inr dlp) \<Rightarrow> body dlp } }"

definition shm_attach_unchecked ::
    "config \<Rightarrow> (rat \<Rightarrow> rat) \<Rightarrow> nat \<Rightarrow> string \<Rightarrow> pyobj option \<Rightarrow> PosixIPCSharedMemoryObject pyres outcome io" where
  "shm_attach_unchecked c fl fuel name tobj = do {
     st \<leftarrow> posixipc_state_from_type;
     case st of Some e \<Rightarrow> ret (Returned (Inl e)) | None \<Rightarrow> do {
       p \<leftarrow> call (Py (ParseTuple ''s|O:attach_unchecked''));
       if a_ret p = 0 then ret (Returned (Inl Pending))
       else with_timeout fl tobj (\<lambda>dlp. do {
               r \<leftarrow> allow_threads (posixipc_shm_attach c fuel (Some name) None dlp (Some reset_handle));
               case r of None \<Rightarrow> ret Unfinished | Some (rc, core) \<Rightarrow>
                 if rc \<noteq> 0 then ret (Returned (Inl (raise_err rc)))
                 else do { ob \<leftarrow> posixipc_shmobj_from_core (the core) False; ret (Returned ob) } }) } }"

definition shm_open_or_create ::
    "config \<Rightarrow> (rat \<Rightarrow> rat) \<Rightarrow> nat \<Rightarrow> string \<Rightarrow> int \<Rightarrow> pyobj option \<Rightarrow> PosixIPCSharedMemoryObject pyres outcome io" where
  "shm_open_or_create c fl fuel name sz tobj = do {
     st \<leftarrow> posixipc_state_from_type;
     case st of Some e \<Rightarrow> ret (Returned (Inl e)) | None \<Rightarrow> do {
       p \<leftarrow> call (Py (ParseTuple ''sn|O:open_or_create''));
       if a_ret p = 0 then ret (Returned (Inl Pending))
       else if size_out_of_range sz then ret (Returned (Inl ValueError))
       else with_timeout fl tobj (\<lambda>dlp. do {
               r \<leftarrow> allow_threads (posixipc_shm_open_or_create c fuel (Some name)
                      (Some (raw_expect c (word_of_int sz))) dlp (Some reset_handle));
               case r of None \<Rightarrow> ret Unfinished | Some (rc, core) \<Rightarrow>
                 if rc \<noteq> 0 then ret (Returned (Inl (raise_err rc)))
                 else do {
                   s \<leftarrow> call (Mem (Load_state (the (sh_hdr (the core)))));
                   ob \<leftarrow> (if a_word s = STATE_INITIALIZING then publish_or_undo name (the core) True
                          else posixipc_shmobj_from_core (the core) False);
                   ret (Returned ob) } }) } }"

section \<open>Methods\<close>

definition shm_unlink_name :: "string \<Rightarrow> unit pyres io" where
  "shm_unlink_name name = do {
     st \<leftarrow> posixipc_state_from_type;
     case st of Some e \<Rightarrow> ret (Inl e) | None \<Rightarrow> do {
       p \<leftarrow> call (Py (ParseTuple ''s:unlink_name''));
       if a_ret p = 0 then ret (Inl Pending)
       else do {
         rc \<leftarrow> allow_threads (posixipc_shm_unlink (Some name));
         if rc \<noteq> 0 then ret (Inl (raise_err rc)) else ret (Inr ()) } } }"

definition shm_close :: "PosixIPCSharedMemoryObject \<Rightarrow> (unit pyres \<times> PosixIPCSharedMemoryObject) io" where
  "shm_close r = do {
     (e, r) \<leftarrow> posixipc_shmobj_close r False;
     ret ((case e of Some x \<Rightarrow> Inl x | None \<Rightarrow> Inr ()), r) }"

definition shm_unlink :: "PosixIPCSharedMemoryObject \<Rightarrow> unit pyres io" where
  "shm_unlink r = do {
     st \<leftarrow> posixipc_state_from_obj;
     case st of Some e \<Rightarrow> ret (Inl e) | None \<Rightarrow>
       if shm_is_closed r \<or> sh_name (s_core r) = None then ret (Inl posixipc_raise_closed)
       else do {
         rc \<leftarrow> allow_threads (posixipc_shm_unlink (map_option snd (sh_name (s_core r))));
         if rc \<noteq> 0 then ret (Inl (raise_err rc)) else ret (Inr ()) } }"

definition shm_get_name :: "PosixIPCSharedMemoryObject \<Rightarrow> string pyres io" where
  "shm_get_name r = do {
     _ \<leftarrow> posixipc_state_from_obj;
     case (shm_is_closed r, sh_name (s_core r)) of
       (False, Some (_, nm)) \<Rightarrow> do {
         a \<leftarrow> call (Py (UnicodeFrom nm));
         if a_ret a < 0 then ret (Inl Pending) else ret (Inr nm) }
     | _ \<Rightarrow> ret (Inl posixipc_raise_closed) }"

definition shm_get_size :: "PosixIPCSharedMemoryObject \<Rightarrow> nat pyres io" where
  "shm_get_size r = do {
     _ \<leftarrow> posixipc_state_from_obj;
     if shm_is_closed r then ret (Inl posixipc_raise_closed)
     else do {
       a \<leftarrow> call (Py (LongFrom (sh_map_len (s_core r))));
       if a_ret a < 0 then ret (Inl Pending) else ret (Inr (sh_map_len (s_core r))) } }"

definition shm_get_closed :: "PosixIPCSharedMemoryObject \<Rightarrow> bool" where
  "shm_get_closed r = shm_is_closed r"

text \<open>The buffer protocol: an exported view pins the segment until it is released.\<close>

definition shm_getbuffer :: "PosixIPCSharedMemoryObject \<Rightarrow> (pyexc option \<times> PosixIPCSharedMemoryObject) io" where
  "shm_getbuffer r = do {
     _ \<leftarrow> posixipc_state_from_obj;
     if shm_is_closed r then ret (Some posixipc_raise_closed, r)
     else do {
       (e, r) \<leftarrow> posixipc_shmobj_pin r;
       if e \<noteq> None then ret (e, r)
       else do {
         a \<leftarrow> call (Py (FillInfo (the (sh_map (s_core r))) (sh_map_len (s_core r))));
         if a_ret a < 0 then ret (Some Pending, posixipc_shmobj_unpin r)
         else ret (None, r) } } }"

definition shm_releasebuffer :: "PosixIPCSharedMemoryObject \<Rightarrow> PosixIPCSharedMemoryObject" where
  "shm_releasebuffer r = posixipc_shmobj_unpin r"

text \<open>The finalizer warns about a created segment that was never closed; deallocation closes by force.\<close>

definition shm_finalize :: "PosixIPCSharedMemoryObject \<Rightarrow> unit io" where
  "shm_finalize r = (if s_created r \<and> \<not> shm_is_closed r then call_ignore (Py WarnUnclosed) else ret ())"

definition shm_dealloc :: "PosixIPCSharedMemoryObject \<Rightarrow> PosixIPCSharedMemoryObject io" where
  "shm_dealloc r = do {
     shm_finalize r;
     if \<not> shm_is_closed r then do { (_, r) \<leftarrow> posixipc_shmobj_close r True; ret r }
     else ret r }"

section \<open>Pins and closing, operation by operation\<close>

text \<open>
  The atomic operations of \<^verbatim>\<open>posixipc_shmobj_pin\<close>, \<^verbatim>\<open>posixipc_shmobj_unpin\<close> and
  \<^verbatim>\<open>posixipc_shmobj_close\<close> (without force) as steps of many activities. The position of an activity
  is the operation it makes next. With \<open>excl\<close> a close starts only when no other is under way.
\<close>

datatype shm_pc =
    Idle | Pin_flags | Pin_map | Pin_undo | Pinned
  | Close_set | Close_map | Close_flag | Close_pins | Close_undo | Close_unmap

record shm_sys =
  v_pins :: u32
  v_closed :: bool
  v_mapped :: bool
  v_pcs :: "shm_pc list"

fun counted :: "shm_pc \<Rightarrow> bool" where
  "counted Pin_flags = True"
| "counted Pin_map = True"
| "counted Pin_undo = True"
| "counted Pinned = True"
| "counted _ = False"

fun closing :: "shm_pc \<Rightarrow> bool" where
  "closing Close_set = True"
| "closing Close_map = True"
| "closing Close_flag = True"
| "closing Close_pins = True"
| "closing Close_undo = True"
| "closing Close_unmap = True"
| "closing _ = False"

definition goto :: "nat \<Rightarrow> shm_pc \<Rightarrow> shm_sys \<Rightarrow> shm_sys" where
  "goto i pc s = s\<lparr>v_pcs := (v_pcs s)[i := pc]\<rparr>"

definition may_close :: "bool \<Rightarrow> shm_sys \<Rightarrow> bool" where
  "may_close excl s \<longleftrightarrow> (excl \<longrightarrow> list_all (\<lambda>pc. \<not> closing pc) (v_pcs s))"

inductive shm_step :: "bool \<Rightarrow> shm_sys \<Rightarrow> shm_sys \<Rightarrow> bool" for excl where
  pin_add: "i < length (v_pcs s) \<Longrightarrow> v_pcs s ! i = Idle \<Longrightarrow>
      shm_step excl s (goto i Pin_flags (s\<lparr>v_pins := v_pins s + 1\<rparr>))"
| pin_flags: "i < length (v_pcs s) \<Longrightarrow> v_pcs s ! i = Pin_flags \<Longrightarrow>
      shm_step excl s (goto i (if v_closed s then Pin_undo else Pin_map) s)"
| pin_map: "i < length (v_pcs s) \<Longrightarrow> v_pcs s ! i = Pin_map \<Longrightarrow>
      shm_step excl s (goto i (if v_mapped s then Pinned else Pin_undo) s)"
| pin_undo: "i < length (v_pcs s) \<Longrightarrow> v_pcs s ! i = Pin_undo \<Longrightarrow>
      shm_step excl s (goto i Idle (s\<lparr>v_pins := v_pins s - 1\<rparr>))"
| unpin: "i < length (v_pcs s) \<Longrightarrow> v_pcs s ! i = Pinned \<Longrightarrow>
      shm_step excl s (goto i Idle (s\<lparr>v_pins := v_pins s - 1\<rparr>))"
| close_begin: "i < length (v_pcs s) \<Longrightarrow> v_pcs s ! i = Idle \<Longrightarrow> may_close excl s \<Longrightarrow>
      shm_step excl s (goto i (if v_closed s then Close_set else Close_map) s)"
| close_map: "i < length (v_pcs s) \<Longrightarrow> v_pcs s ! i = Close_map \<Longrightarrow>
      shm_step excl s (goto i (if v_mapped s then Close_flag else Close_set) s)"
| close_set: "i < length (v_pcs s) \<Longrightarrow> v_pcs s ! i = Close_set \<Longrightarrow>
      shm_step excl s (goto i Idle (s\<lparr>v_closed := True\<rparr>))"
| close_flag: "i < length (v_pcs s) \<Longrightarrow> v_pcs s ! i = Close_flag \<Longrightarrow>
      shm_step excl s (goto i Close_pins (s\<lparr>v_closed := True\<rparr>))"
| close_pins: "i < length (v_pcs s) \<Longrightarrow> v_pcs s ! i = Close_pins \<Longrightarrow>
      shm_step excl s (goto i (if v_pins s > 0 then Close_undo else Close_unmap) s)"
| close_undo: "i < length (v_pcs s) \<Longrightarrow> v_pcs s ! i = Close_undo \<Longrightarrow>
      shm_step excl s (goto i Idle (s\<lparr>v_closed := False\<rparr>))"
| unmap_done: "i < length (v_pcs s) \<Longrightarrow> v_pcs s ! i = Close_unmap \<Longrightarrow>
      shm_step excl s (goto i Idle (s\<lparr>v_mapped := False\<rparr>))"
| unmap_failed: "i < length (v_pcs s) \<Longrightarrow> v_pcs s ! i = Close_unmap \<Longrightarrow>
      shm_step excl s (goto i Close_undo s)"

definition shm_start :: "nat \<Rightarrow> shm_sys" where
  "shm_start n = \<lparr>v_pins = 0, v_closed = False, v_mapped = True, v_pcs = replicate n Idle\<rparr>"

inductive shm_reach :: "bool \<Rightarrow> nat \<Rightarrow> shm_sys \<Rightarrow> bool" for excl n where
  reach_start: "shm_reach excl n (shm_start n)"
| reach_step: "shm_reach excl n s \<Longrightarrow> shm_step excl s s' \<Longrightarrow> shm_reach excl n s'"

text \<open>
  The invariant: the counter is the number of activities between the increment and the
  decrement; while a close is between its flag and its end the flag is set; once the count was
  read as 0, and ever after the unmapping, no activity is past the test of the flag.
\<close>

definition pin_sum :: "shm_pc list \<Rightarrow> u32" where
  "pin_sum pcs = sum_list (map (\<lambda>pc. if counted pc then 1 else 0) pcs)"

definition past_flag :: "shm_pc \<Rightarrow> bool" where
  "past_flag pc \<longleftrightarrow> pc = Pin_map \<or> pc = Pinned"

definition shm_inv :: "nat \<Rightarrow> shm_sys \<Rightarrow> bool" where
  "shm_inv n s \<longleftrightarrow> length (v_pcs s) = n \<and> v_pins s = pin_sum (v_pcs s) \<and>
     (\<forall>i < n. \<forall>j < n. closing (v_pcs s ! i) \<and> closing (v_pcs s ! j) \<longrightarrow> i = j) \<and>
     (\<forall>i < n. v_pcs s ! i \<in> {Close_map, Close_flag, Close_pins, Close_undo, Close_unmap} \<longrightarrow> v_mapped s) \<and>
     (\<forall>i < n. v_pcs s ! i \<in> {Close_set, Close_pins, Close_undo, Close_unmap} \<longrightarrow> v_closed s) \<and>
     (\<forall>i < n. v_pcs s ! i = Close_unmap \<longrightarrow> (\<forall>j < n. \<not> past_flag (v_pcs s ! j))) \<and>
     (\<not> v_mapped s \<longrightarrow> v_closed s \<and> (\<forall>j < n. \<not> past_flag (v_pcs s ! j)))"

lemma pin_sum_update:
  "i < length pcs \<Longrightarrow> pin_sum (pcs[i := pc]) =
     pin_sum pcs - (if counted (pcs ! i) then 1 else 0) + (if counted pc then 1 else 0)"
  unfolding pin_sum_def by (induction pcs arbitrary: i) (auto split: nat.split simp: nth_Cons' list_update_code)

lemma pin_sum_count: "length pcs < 2 ^ 32 \<Longrightarrow> unat (pin_sum pcs) = length (filter counted pcs)"
proof (induction pcs)
  case (Cons pc pcs)
  have "length (filter counted pcs) < 4294967295"
    using Cons.prems le_less_trans [OF length_filter_le [of counted pcs], of 4294967295] by simp
  with Cons show ?case by (auto simp: pin_sum_def unat_add_no_wrap unat_word_ariths(1))
qed (simp add: pin_sum_def)

lemma pin_sum_0:
  assumes "length pcs < 2 ^ 32" and "pin_sum pcs = 0" and "i < length pcs"
  shows "\<not> counted (pcs ! i)"
proof -
  have "filter counted pcs = []" using pin_sum_count [OF assms(1)] assms(2) by simp
  then show ?thesis using assms(3) by (simp add: filter_empty_conv)
qed

lemma past_flag_counted: "past_flag pc \<Longrightarrow> counted pc"
  by (auto simp: past_flag_def)

lemma goto_simps [simp]:
  "v_pins (goto i pc s) = v_pins s" "v_closed (goto i pc s) = v_closed s" "v_mapped (goto i pc s) = v_mapped s"
  "v_pcs (goto i pc s) = (v_pcs s)[i := pc]"
  by (simp_all add: goto_def)

lemma may_close_excl: "may_close True s \<Longrightarrow> i < length (v_pcs s) \<Longrightarrow> \<not> closing (v_pcs s ! i)"
  by (simp add: may_close_def list_all_length)

lemma shm_inv_start: "shm_inv n (shm_start n)"
  by (auto simp: shm_inv_def shm_start_def pin_sum_def past_flag_def map_replicate_const sum_list_replicate)

lemma shm_inv_step:
  assumes "shm_step True s s'" and "shm_inv n s" and "n < 2 ^ 32"
  shows "shm_inv n s'"
  using assms(1,2)
proof cases
  case (close_pins i)
  have "v_pins s = 0 \<Longrightarrow> \<forall>j < n. \<not> past_flag (v_pcs s ! j)"
    using assms(2,3) pin_sum_0 [of "v_pcs s"] past_flag_counted by (auto simp: shm_inv_def)
  with close_pins assms(2) show ?thesis
    by (auto simp: shm_inv_def nth_list_update pin_sum_update past_flag_def word_gt_0)
next
  case (close_begin i)
  with assms(2) may_close_excl [of s] show ?thesis
    by (auto simp: shm_inv_def nth_list_update pin_sum_update past_flag_def)
qed (auto simp: shm_inv_def nth_list_update pin_sum_update past_flag_def)

lemma shm_inv_reach: "shm_reach True n s \<Longrightarrow> n < 2 ^ 32 \<Longrightarrow> shm_inv n s"
  by (induction rule: shm_reach.induct) (auto intro: shm_inv_start shm_inv_step)

text \<open>
  C25. Pins and closing exclude each other: whatever the interleaving of the atomic operations of
  fewer than \<open>2 ^ 32\<close> activities, as long as at most one close is under way at a time, a segment
  that some activity has pinned is mapped, it is not being unmapped, and the counter equals the
  number of activities between increment and decrement.
\<close>

theorem shm_pin_close_safe:
  assumes "shm_reach True n s" and "n < 2 ^ 32" and "i < n" and "v_pcs s ! i = Pinned"
  shows "v_mapped s \<and> (\<forall>j < n. v_pcs s ! j \<noteq> Close_unmap) \<and>
         unat (v_pins s) = length (filter counted (v_pcs s)) \<and> 0 < unat (v_pins s)"
proof -
  have inv: "shm_inv n s" using shm_inv_reach assms(1,2) by blast
  then have l: "length (v_pcs s) = n" and c: "unat (v_pins s) = length (filter counted (v_pcs s))"
    using pin_sum_count [of "v_pcs s"] assms(2) by (auto simp: shm_inv_def)
  have "v_pcs s ! i \<in> set (filter counted (v_pcs s))" using assms(3,4) l nth_mem [of i "v_pcs s"] by simp
  then have "0 < length (filter counted (v_pcs s))" by (metis length_pos_if_in_set)
  moreover have "past_flag (v_pcs s ! i)" using assms(4) by (simp add: past_flag_def)
  ultimately show ?thesis using inv assms(3) c by (auto simp: shm_inv_def)
qed

lemmas shm_do = shm_reach.reach_step [OF _ shm_step.pin_add] shm_reach.reach_step [OF _ shm_step.pin_flags]
  shm_reach.reach_step [OF _ shm_step.pin_map]

lemma shm_pinned_reach:
  "shm_reach True 2 \<lparr>v_pins = 1, v_closed = False, v_mapped = True, v_pcs = [Pinned, Idle]\<rparr>"
proof -
  have 0: "shm_reach True 2 \<lparr>v_pins = 0, v_closed = False, v_mapped = True, v_pcs = [Idle, Idle]\<rparr>"
    using shm_reach.reach_start [of True 2] by (simp add: shm_start_def numeral_2_eq_2)
  show ?thesis
    using shm_do(3) [OF shm_do(2) [OF shm_do(1) [OF 0, of 0], of 0], of 0] by (simp add: goto_def)
qed

theorem shm_pin_close_safe_witness:
  "\<exists>s. shm_reach True 2 s \<and> v_pcs s ! 0 = Pinned \<and> v_mapped s \<and> 0 < unat (v_pins s)"
  using shm_pin_close_safe [OF shm_pinned_reach, of 0] shm_pinned_reach by (intro exI conjI) auto

text \<open>
  Two closes at the same time break this: one thread reads the count as 0 and goes on to unmap,
  a third increments the counter to pin the segment, the second close meets that increment and
  withdraws the closed flag, and the pin then succeeds. The unmapping then pulls the memory away under the pin.
\<close>

theorem shm_two_closers_unsafe:
  "\<exists>s. shm_reach False 3 s \<and> v_pcs s ! 2 = Pinned \<and> \<not> v_mapped s"
proof -
  let ?S = "\<lambda>p c m pcs. \<lparr>v_pins = p, v_closed = c, v_mapped = m, v_pcs = pcs\<rparr>"
  note st = shm_step.intros [where excl = False] and r = shm_reach.reach_step [where excl = False and n = 3]
  have 0: "shm_reach False 3 (?S 0 False True [Idle, Idle, Idle])"
    using shm_reach.reach_start [of False 3] by (simp add: shm_start_def numeral_3_eq_3)
  have 1: "shm_reach False 3 (?S 0 False True [Close_map, Idle, Idle])"
    using r [OF 0 st(6), of 0] by (simp add: goto_def may_close_def)
  have 2: "shm_reach False 3 (?S 0 False True [Close_map, Close_map, Idle])"
    using r [OF 1 st(6), of 1] by (simp add: goto_def may_close_def)
  have 3: "shm_reach False 3 (?S 0 False True [Close_flag, Close_flag, Idle])"
    using r [OF r [OF 2 st(7), of 0] st(7), of 1] by (simp add: goto_def)
  have 4: "shm_reach False 3 (?S 0 True True [Close_pins, Close_pins, Idle])"
    using r [OF r [OF 3 st(9), of 0] st(9), of 1] by (simp add: goto_def)
  have 5: "shm_reach False 3 (?S 0 True True [Close_unmap, Close_pins, Idle])"
    using r [OF 4 st(10), of 0] by (simp add: goto_def)
  have 6: "shm_reach False 3 (?S 1 True True [Close_unmap, Close_pins, Pin_flags])"
    using r [OF 5 st(1), of 2] by (simp add: goto_def)
  have 7: "shm_reach False 3 (?S 1 True True [Close_unmap, Close_undo, Pin_flags])"
    using r [OF 6 st(10), of 1] by (simp add: goto_def)
  have 8: "shm_reach False 3 (?S 1 False True [Close_unmap, Idle, Pin_flags])"
    using r [OF 7 st(11), of 1] by (simp add: goto_def)
  have 9: "shm_reach False 3 (?S 1 False True [Close_unmap, Idle, Pinned])"
    using r [OF r [OF 8 st(2), of 2] st(3), of 2] by (simp add: goto_def)
  have "shm_reach False 3 (?S 1 False False [Idle, Idle, Pinned])"
    using r [OF 9 st(12), of 0] by (simp add: goto_def)
  then show ?thesis by (intro exI conjI) auto
qed

section \<open>Segment objects hold what they say\<close>

lemma neutral_state_from: "neutral posixipc_state_from_type"
  unfolding posixipc_state_from_type_def by (intro neutral_rules)

lemma run_publish:
  "sh_hdr h = Some p \<Longrightarrow> run (posixipc_shm_publish (Some h)) w = (0, after w (Mem (Store_state p STATE_READY)))"
  by (simp add: posixipc_shm_publish_def io_simps)

text \<open>What a constructor leaves: an open, unpinned object with one mapping, or nothing.\<close>

definition object_post :: "world \<Rightarrow> nat \<Rightarrow> PosixIPCSharedMemoryObject pyres \<Rightarrow> world \<Rightarrow> bool" where
  "object_post w n res w' \<longleftrightarrow> (case res of
       Inl _ \<Rightarrow> gained w w' None None
     | Inr ob \<Rightarrow> \<not> shm_is_closed ob \<and> s_pins ob = 0 \<and> sh_map_len (s_core ob) = n \<and>
         (\<exists>seg. sh_map (s_core ob) = Some seg \<and> sh_hdr (s_core ob) = Some seg \<and> gained w w' None (Some (seg, n))))"

lemma from_core_post:
  assumes "gained w w1 None (Some (seg, n))" and "sh_map core = Some seg" and "sh_hdr core = Some seg"
    and "sh_map_len core = n" and "run (posixipc_shmobj_from_core core created) w1 = (r, w')"
  shows "object_post w n r w'"
proof -
  let ?a = "Py Tp_alloc"
  have g: "gained w (after w1 ?a) None (Some (seg, n))" using assms(1) by (rule gained_call) simp
  show ?thesis using assms(2-) g gained_munmap [OF g]
    by (auto simp: posixipc_shmobj_from_core_def posixipc_shm_close_def io_simps object_post_def shm_is_closed_def
        flag_set_def intro!: gained_call split: if_splits)
qed

lemma publish_post:
  assumes "gained w w1 None (Some (seg, n))" and "sh_map core = Some seg" and "sh_hdr core = Some seg"
    and "sh_map_len core = n" and "run (publish_or_undo nm core created) w1 = (r, w')"
  shows "object_post w n r w'"
proof -
  let ?w2 = "after w1 (Mem (Store_state seg STATE_READY))"
  have "gained w ?w2 None (Some (seg, n))" using assms(1) by (rule gained_call) simp
  moreover have "run (posixipc_shmobj_from_core core created) ?w2 = (r, w')"
    using assms(5) run_publish [OF assms(3)] by (simp add: publish_or_undo_def run_bind run_if)
  ultimately show ?thesis using from_core_post assms(2-4) by blast
qed

lemma gained_threads:
  assumes "run (allow_threads m) w = (r, w')"
  shows "\<exists>w1. run m (after w (Py SaveThread)) = (r, w1) \<and> w' = after w1 (Py RestoreThread)"
  using assms by (auto simp: run_allow_threads split: prod.splits)

lemma shm_create_post:
  assumes "errno_set w" and "run (shm_create c nm sz) w = (r, w')"
  shows "object_post w (64 + nat sz) r w'"
proof -
  let ?e = "raw_expect c (word_of_int sz)"
  obtain st w1 where st: "run posixipc_state_from_type w = (st, w1)" by fastforce
  note g1 = gained_neutral [OF gained_refl neutral_state_from st]
  let ?w2 = "after w1 (Py (ParseTuple ''sn:create''))"
  have g2: "gained w ?w2 None None" using g1 by (rule gained_call) simp
  let ?w3 = "after ?w2 (Py SaveThread)"
  have g3: "gained w ?w3 None None" using g2 by (rule gained_call) simp
  obtain rc out w4 where cr: "run (posixipc_shm_create c (Some nm) (Some ?e) (Some reset_handle)) ?w3 = ((rc, out), w4)"
    by (metis prod_cases3 surj_pair)
  have p: "create_post ?w3 nm ?e ((rc, out), w4)"
    using create_post [OF errno_set_gained [OF assms(1) g3], of "Some nm" ?e c reset_handle] cr by simp
  let ?w5 = "after w4 (Py RestoreThread)"
  consider (early) "\<exists>x. r = Inl x" "w' = w1 \<or> w' = ?w2"
    | (failed) "rc \<noteq> 0" "\<exists>x. r = Inl x" "w' = ?w5"
    | (made) "rc = 0" "\<not> size_out_of_range sz" "run (publish_or_undo nm (the out) True) ?w5 = (r, w')"
    using assms(2) st cr
    by (auto simp: shm_create_def run_bind run_if run_ret run_call run_allow_threads split: option.splits if_splits)
  then show ?thesis
  proof cases
    case early
    moreover have "gained w w' None None" using early(2) g1 g2 by (elim disjE) simp_all
    ultimately show ?thesis by (auto simp: object_post_def)
  next
    case failed
    then have "gained w w4 None None" using p g3 by (auto simp: create_post_def intro: gained_trans)
    from gained_call [OF this, of "Py RestoreThread"] show ?thesis using failed by (auto simp: object_post_def)
  next
    case made
    have n: "unat (e_total_size ?e) = 64 + nat sz"
    proof -
      have "0 \<le> sz" "sz < 4294967232" using made(2) by (auto simp: size_out_of_range_def)
      then have "unat (word_of_int sz :: u32) = nat sz" by (simp add: unat_eq_nat_uint uint_word_of_int)
      with \<open>sz < 4294967232\<close> show ?thesis by (simp add: raw_expect_def unat_add_no_wrap nat_less_iff)
    qed
    obtain seg q where o1: "out = Some \<lparr>sh_map = Some seg, sh_map_len = 64 + nat sz, sh_hdr = Some seg,
        sh_name = Some (q, nm)\<rparr>" "gained ?w3 w4 None (Some (seg, 64 + nat sz))"
      using p made(1) n by (auto simp: create_post_def)
    have "gained w ?w5 None (Some (seg, 64 + nat sz))"
      using gained_trans [OF g3 o1(2)] by (rule gained_call) simp
    from publish_post [OF this _ _ _ made(3)] o1(1) show ?thesis by simp
  qed
qed

lemma neutral_sum: "(\<And>y. neutral (g y)) \<Longrightarrow> (\<And>y. neutral (f y)) \<Longrightarrow> neutral (case x of Inl y \<Rightarrow> g y | Inr y \<Rightarrow> f y)"
  by (cases x) simp_all

lemma neutral_deadline_seconds: "neutral (posixipc_deadline_from_seconds fl clk q out)"
  unfolding posixipc_deadline_from_seconds_def posixipc_now_def by (intro neutral_rules)

lemma neutral_timeout: "neutral (deadline_from_timeout fl ob)"
  unfolding deadline_from_timeout_def parse_timeout_seconds_def
  by (intro neutral_rules neutral_sum neutral_deadline_seconds)

lemma neutral_default: "neutral (timeout_or_default tobj)"
  unfolding timeout_or_default_def by (intro neutral_rules)

lemma with_timeout_cases:
  assumes "run (with_timeout fl tobj body) w1 = (Returned r, w')" and g: "gained w w1 None None"
  obtains (early) "\<exists>x. r = Inl x" "gained w w' None None"
    | (body) dlp w3 where "gained w w3 None None" "run (body dlp) w3 = (Returned r, w')"
proof -
  obtain t w2 where t: "run (timeout_or_default tobj) w1 = (t, w2)" by fastforce
  note g2 = gained_neutral [OF g neutral_default t]
  show thesis
  proof (cases t)
    case (Inl e)
    with assms(1) t g2 early show thesis by (auto simp: with_timeout_def run_bind run_ret)
  next
    case (Inr ob)
    obtain d w3 where d: "run (deadline_from_timeout fl (Some ob)) w2 = (d, w3)" by fastforce
    note g3 = gained_neutral [OF g2 neutral_timeout d]
    from assms(1) t d Inr g3 early body show thesis
      by (cases d) (auto simp: with_timeout_def run_bind run_ret split: sum.splits)
  qed
qed

text \<open>The core constructor, called with the lock released, and then the object made of its handle.\<close>

lemma core_object_post:
  assumes g: "gained w w3 None None"
    and body: "run (do { r \<leftarrow> allow_threads m;
        case r of None \<Rightarrow> ret Unfinished | Some (rc, core) \<Rightarrow>
          if rc \<noteq> 0 then ret (Returned (Inl (raise_err rc))) else mk (the core) }) w3 = (Returned r, w')"
    and m: "\<And>rc out w4. run m (after w3 (Py SaveThread)) = (Some (rc, out), w4) \<Longrightarrow>
        (rc \<noteq> 0 \<and> gained (after w3 (Py SaveThread)) w4 None None) \<or>
        (rc = 0 \<and> (\<exists>core seg. out = Some core \<and> sh_map core = Some seg \<and> sh_hdr core = Some seg \<and> sh_map_len core = n \<and>
           gained (after w3 (Py SaveThread)) w4 None (Some (seg, n))))"
    and mk: "\<And>core seg w5. sh_map core = Some seg \<Longrightarrow> sh_hdr core = Some seg \<Longrightarrow> sh_map_len core = n \<Longrightarrow>
        gained w w5 None (Some (seg, n)) \<Longrightarrow> run (mk core) w5 = (Returned r, w') \<Longrightarrow> object_post w n r w'"
  shows "object_post w n r w'"
proof -
  let ?w4 = "after w3 (Py SaveThread)"
  have g4: "gained w ?w4 None None" using g by (rule gained_call) simp
  obtain res w5 where mr: "run m ?w4 = (res, w5)" by fastforce
  with body obtain rc out where res: "res = Some (rc, out)"
    by (cases res) (auto simp: run_bind run_allow_threads run_ret)
  let ?w6 = "after w5 (Py RestoreThread)"
  from m [OF mr [unfolded res]] consider (bad) "rc \<noteq> 0" "gained ?w4 w5 None None"
    | (good) core seg where "rc = 0" "out = Some core" "sh_map core = Some seg" "sh_hdr core = Some seg"
        "sh_map_len core = n" "gained ?w4 w5 None (Some (seg, n))" by blast
  then show ?thesis
  proof cases
    case bad
    from gained_call [OF gained_trans [OF g4 bad(2)], of "Py RestoreThread"] body mr res bad(1)
    show ?thesis by (auto simp: object_post_def run_bind run_allow_threads run_ret)
  next
    case good
    from gained_call [OF gained_trans [OF g4 good(6)], of "Py RestoreThread"]
    have "gained w ?w6 None (Some (seg, n))" by simp
    with mk [OF good(3-5)] body mr res good(1,2) show ?thesis by (simp add: run_bind run_allow_threads)
  qed
qed

lemma unat_raw_size:
  assumes "\<not> size_out_of_range sz"
  shows "unat (e_total_size (raw_expect c (word_of_int sz))) = 64 + nat sz"
proof -
  have "0 \<le> sz" "sz < 4294967232" using assms by (auto simp: size_out_of_range_def)
  then have "unat (word_of_int sz :: u32) = nat sz" by (simp add: unat_eq_nat_uint uint_word_of_int)
  with \<open>sz < 4294967232\<close> show ?thesis by (simp add: raw_expect_def unat_add_no_wrap nat_less_iff)
qed

lemma gained_parse:
  assumes "run posixipc_state_from_type w = (st, w1)"
  shows "gained w w1 None None" and "gained w (after w1 (Py c)) None None"
proof -
  show g: "gained w w1 None None" using gained_neutral [OF gained_refl neutral_state_from assms] .
  show "gained w (after w1 (Py c)) None None" using g by (rule gained_call) simp
qed

lemma shm_attach_unchecked_post:
  assumes es: "errno_set w" and r: "run (shm_attach_unchecked c fl fuel nm tobj) w = (Returned r, w')"
  shows "\<exists>n. object_post w n r w'"
proof -
  obtain st w1 where st: "run posixipc_state_from_type w = (st, w1)" by fastforce
  let ?p = "Py (ParseTuple ''s|O:attach_unchecked'')"
  note g = gained_parse [OF st]
  let ?m = "\<lambda>dlp. posixipc_shm_attach c fuel (Some nm) None dlp (Some reset_handle)"
  let ?body = "\<lambda>dlp. do { r \<leftarrow> allow_threads (?m dlp);
     case r of None \<Rightarrow> ret Unfinished | Some (rc, core) \<Rightarrow>
       if rc \<noteq> 0 then ret (Returned (Inl (raise_err rc)))
       else do { ob \<leftarrow> posixipc_shmobj_from_core (the core) False; ret (Returned ob) } }"
  consider (early) "\<exists>x. r = Inl x" "gained w w' None None"
    | (rest) "run (with_timeout fl tobj ?body) (after w1 ?p) = (Returned r, w')"
    using r st g by (cases st; cases "a_ret (answer_to w1 ?p) = 0")
      (auto simp: shm_attach_unchecked_def run_bind run_call run_ret)
  then show ?thesis
  proof cases
    case early
    then show ?thesis by (auto simp: object_post_def)
  next
    case rest
    from rest g(2) show ?thesis
    proof (cases rule: with_timeout_cases)
      case early
      then show ?thesis by (auto simp: object_post_def)
    next
      case (body dlp w3)
      let ?w4 = "after w3 (Py SaveThread)"
      have "errno_set ?w4" using errno_set_gained [OF es body(1)] by simp
      note ap = attach_post [OF this, of c "Some nm" None fuel dlp reset_handle]
      obtain n where n: "\<And>rc out w5. run (?m dlp) ?w4 = (Some (rc, out), w5) \<Longrightarrow> out \<noteq> None \<and> n = sh_map_len (the out)"
        using ap by (cases "run (?m dlp) ?w4") (force simp: attach_post_def reset_handle_def split: option.splits)
      have "object_post w n r w'"
      proof (rule core_object_post [OF body])
        fix rc out w5 assume m: "run (?m dlp) ?w4 = (Some (rc, out), w5)"
        with ap n [OF m] show "(rc \<noteq> 0 \<and> gained ?w4 w5 None None) \<or>
            (rc = 0 \<and> (\<exists>core seg. out = Some core \<and> sh_map core = Some seg \<and> sh_hdr core = Some seg \<and>
               sh_map_len core = n \<and> gained ?w4 w5 None (Some (seg, n))))"
          by (auto simp: attach_post_def)
      next
        fix core :: posixipc_shm and seg w5
        assume "sh_map core = Some seg" "sh_hdr core = Some seg" "sh_map_len core = n" "gained w w5 None (Some (seg, n))"
          "run (do { ob \<leftarrow> posixipc_shmobj_from_core core False; ret (Returned ob) }) w5 = (Returned r, w')"
        then show "object_post w n r w'"
          using from_core_post [of w w5 seg n core False r w'] by (auto simp: run_bind run_ret split: prod.splits)
      qed
      then show ?thesis by blast
    qed
  qed
qed

lemma shm_open_or_create_post:
  assumes es: "errno_set w" and r: "run (shm_open_or_create c fl fuel nm sz tobj) w = (Returned r, w')"
  shows "object_post w (64 + nat sz) r w'"
proof -
  obtain st w1 where st: "run posixipc_state_from_type w = (st, w1)" by fastforce
  let ?p = "Py (ParseTuple ''sn|O:open_or_create'')" and ?e = "raw_expect c (word_of_int sz)"
  note g = gained_parse [OF st]
  let ?m = "\<lambda>dlp. posixipc_shm_open_or_create c fuel (Some nm) (Some ?e) dlp (Some reset_handle)"
  let ?mk = "\<lambda>core. do {
       s \<leftarrow> call (Mem (Load_state (the (sh_hdr core))));
       ob \<leftarrow> (if a_word s = STATE_INITIALIZING then publish_or_undo nm core True
              else posixipc_shmobj_from_core core False);
       ret (Returned ob) }"
  let ?body = "\<lambda>dlp. do { r \<leftarrow> allow_threads (?m dlp);
     case r of None \<Rightarrow> ret Unfinished | Some (rc, core) \<Rightarrow>
       if rc \<noteq> 0 then ret (Returned (Inl (raise_err rc))) else ?mk (the core) }"
  consider (early) "\<exists>x. r = Inl x" "gained w w' None None"
    | (rest) "\<not> size_out_of_range sz" "run (with_timeout fl tobj ?body) (after w1 ?p) = (Returned r, w')"
    using r st g by (cases st; cases "a_ret (answer_to w1 ?p) = 0"; cases "size_out_of_range sz")
      (auto simp: shm_open_or_create_def run_bind run_call run_ret)
  then show ?thesis
  proof cases
    case early
    then show ?thesis by (auto simp: object_post_def)
  next
    case rest
    from rest(2) g(2) show ?thesis
    proof (cases rule: with_timeout_cases)
      case early
      then show ?thesis by (auto simp: object_post_def)
    next
      case (body dlp w3)
      let ?w4 = "after w3 (Py SaveThread)"
      have es4: "errno_set ?w4" using errno_set_gained [OF es body(1)] by simp
      show ?thesis
      proof (rule core_object_post [OF body])
        fix rc out w5 assume "run (?m dlp) ?w4 = (Some (rc, out), w5)"
        then have "open_post ?w4 nm ?e (rc, out) w5"
          using open_or_create_loop_post [OF es4, of "Some reset_handle" 32 c fuel "Some nm" ?e dlp "(rc, out)" w5]
          by (simp add: posixipc_shm_open_or_create_def del: open_or_create_loop.simps)
        then show "(rc \<noteq> 0 \<and> gained ?w4 w5 None None) \<or>
            (rc = 0 \<and> (\<exists>core seg. out = Some core \<and> sh_map core = Some seg \<and> sh_hdr core = Some seg \<and>
               sh_map_len core = 64 + nat sz \<and> gained ?w4 w5 None (Some (seg, 64 + nat sz))))"
          using unat_raw_size [OF rest(1), of c] by (auto simp: open_post_def)
      next
        fix core :: posixipc_shm and seg w5
        assume c: "sh_map core = Some seg" "sh_hdr core = Some seg" "sh_map_len core = 64 + nat sz"
          "gained w w5 None (Some (seg, 64 + nat sz))" "run (?mk core) w5 = (Returned r, w')"
        let ?w6 = "after w5 (Mem (Load_state seg))"
        have "gained w ?w6 None (Some (seg, 64 + nat sz))" using c(4) by (rule gained_call) simp
        from publish_post [OF this c(1-3), of nm True r w'] from_core_post [OF this c(1-3), of False r w'] c(2,5)
        show "object_post w (64 + nat sz) r w'"
          by (auto simp: run_bind run_ret run_call split: prod.splits if_splits)
      qed
    qed
  qed
qed

text \<open>
  \<^verbatim>\<open>SharedMemory.create\<close>, \<^verbatim>\<open>open_or_create\<close> and \<^verbatim>\<open>attach_unchecked\<close> either return an open,
  unpinned object that owns exactly one new mapping (of 64 bytes more than the requested size
  for the first two) and no descriptor, or raise with every descriptor and mapping released.
\<close>

theorem shm_objects_contract:
  assumes "errno_set w"
  shows "(run (shm_create c nm sz) w = (r, w') \<longrightarrow> object_post w (64 + nat sz) r w') \<and>
         (run (shm_open_or_create c fl fuel nm sz tobj) w = (Returned r, w') \<longrightarrow> object_post w (64 + nat sz) r w') \<and>
         (run (shm_attach_unchecked c fl fuel nm tobj) w = (Returned r, w') \<longrightarrow> (\<exists>n. object_post w n r w'))"
  using assms by (intro conjI impI) (auto intro: shm_create_post shm_open_or_create_post shm_attach_unchecked_post)

theorem shm_objects_contract_witness:
  "\<exists>ob w'. run (shm_create glibc_x86_64 ''/q'' 100) py_world = (Inr ob, w') \<and> object_post py_world 164 (Inr ob) w'"
proof -
  obtain ob w' where r: "run (shm_create glibc_x86_64 ''/q'' 100) py_world = (Inr ob, w')"
    by (simp add: shm_create_def posixipc_state_from_type_def size_out_of_range_def raw_expect_def publish_or_undo_def
        posixipc_shmobj_from_core_def posixipc_shm_publish_def posixipc_shm_create_def posixipc_shm_validate_name_def
        posixipc_shm_stat_permitted_def create_mapped_def write_directory_def dup_name_def io_simps Let_def
        answer_to_py answer0_def)
  from shm_objects_contract [OF py_errno, of glibc_x86_64 "''/q''" 100 "Inr ob" w'] r show ?thesis by auto
qed

section \<open>Closing a segment object\<close>

lemma and_not_of_disjoint: "f AND m = 0 \<Longrightarrow> f AND NOT m = (f :: u32)"
  by (simp add: bit_eq_iff bit_simps) blast

lemma closed_flag_roundtrip: "\<not> flag_set f FLAG_CLOSED \<Longrightarrow> (f OR FLAG_CLOSED) AND NOT FLAG_CLOSED = f"
  using and_not_of_disjoint [of f FLAG_CLOSED] by (simp add: flag_set_def bit.conj_disj_distrib2)

lemma closed_flag_set [simp]: "flag_set (f OR FLAG_CLOSED) FLAG_CLOSED"
  by (simp add: flag_set_def bit.conj_disj_distrib2) 

text \<open>
  Closing an open segment object without force. While it is pinned, close raises BufferError,
  makes no system call and leaves the object as it was. Otherwise it unmaps exactly the object's
  mapping; the object is closed when that succeeds and unchanged, with an exception, when it
  fails. A closed object is left alone and no error is raised.
\<close>

theorem shmobj_close_correct:
  assumes "errno_set w" and "sh_map (s_core r) = Some seg" and "\<not> flag_set (s_flags r) FLAG_CLOSED"
    and "run (posixipc_shmobj_close r False) w = ((e, r'), w')"
  shows "(s_pins r > 0 \<longrightarrow> e = Some BufferError \<and> r' = r \<and> gained w w' None None) \<and>
         (s_pins r = 0 \<longrightarrow> maps w' seg (sh_map_len (s_core r)) = maps w seg (sh_map_len (s_core r)) - 1 \<and>
            (e = None \<and> shm_is_closed r' \<or> e \<noteq> None \<and> r' = r)) \<and>
         (e = None \<longrightarrow> fst (fst (run (posixipc_shmobj_close r' False) w')) = None \<and>
            gained w' (snd (run (posixipc_shmobj_close r' False) w')) None None)"
proof -
  obtain st w1 where st: "run posixipc_state_from_obj w = (st, w1)" by fastforce
  then have g: "gained w w1 None None"
    using gained_neutral [OF gained_refl neutral_state_from] by (simp add: posixipc_state_from_obj_def)
  let ?u = "Munmap seg (sh_map_len (s_core r))"
  have ng: "a_ret (answer_to w1 ?u) \<noteq> 0 \<Longrightarrow> 0 < a_errno (answer_to w1 ?u)"
    using errno_set_zeroD [OF errno_set_gained [OF assms(1) g]] by simp
  have c: "run (posixipc_shmobj_close r False) w =
     (if s_pins r > 0 then ((Some BufferError, r), w1)
      else if a_ret (answer_to w1 ?u) \<noteq> 0 then ((Some (raise_err (a_errno (answer_to w1 ?u))), r), after w1 ?u)
      else ((None, r\<lparr>s_flags := s_flags r OR FLAG_CLOSED, s_core := reset_handle\<rparr>),
            after (after w1 ?u) (Free (map_option fst (sh_name (s_core r))))))"
    using assms(2,3) st closed_flag_roundtrip [OF assms(3)] ng
    by (auto simp: posixipc_shmobj_close_def posixipc_shm_close_def io_simps word_gt_0)
  have again: "fst (fst (run (posixipc_shmobj_close r' False) w')) = None \<and>
      gained w' (snd (run (posixipc_shmobj_close r' False) w')) None None" if "shm_is_closed r'"
    using that gained_neutral [OF gained_refl neutral_state_from, of w']
    by (cases "run posixipc_state_from_type w'")
      (auto simp: posixipc_shmobj_close_def posixipc_state_from_obj_def run_bind run_ret shm_is_closed_def)
  show ?thesis
    using c assms(4) g again by (auto simp: gained_def map_delta_def shm_is_closed_def word_gt_0 split: if_splits)
qed

definition demo_segment :: PosixIPCSharedMemoryObject where
  "demo_segment = \<lparr>s_core = \<lparr>sh_map = Some 4096, sh_map_len = 64, sh_hdr = Some 4096, sh_name = Some (1, ''/q'')\<rparr>,
     s_pins = 0, s_flags = 0, s_created = True\<rparr>"

theorem shmobj_close_correct_witness:
  "fst (fst (run (posixipc_shmobj_close (demo_segment\<lparr>s_pins := 1\<rparr>) False) py_world)) = Some BufferError \<and>
   shm_is_closed (snd (fst (run (posixipc_shmobj_close demo_segment False) py_world)))"
proof -
  obtain e r' w' where a: "run (posixipc_shmobj_close (demo_segment\<lparr>s_pins := 1\<rparr>) False) py_world = ((e, r'), w')"
    by (metis prod_cases3 surj_pair)
  obtain e2 r2 w2 where b: "run (posixipc_shmobj_close demo_segment False) py_world = ((e2, r2), w2)"
    by (metis prod_cases3 surj_pair)
  have e2: "e2 = None" using b
    by (simp add: posixipc_shmobj_close_def posixipc_state_from_obj_def posixipc_state_from_type_def io_simps Let_def
        posixipc_shm_close_def demo_segment_def flag_set_def answer_to_py answer0_def)
  have "e = Some BufferError"
    using shmobj_close_correct [OF py_errno _ _ a, of 4096] by (simp add: demo_segment_def flag_set_def)
  moreover have "shm_is_closed r2"
    using shmobj_close_correct [OF py_errno _ _ b, of 4096] e2 by (simp add: demo_segment_def flag_set_def)
  ultimately show ?thesis using a b by simp
qed

end
