(* ===== verification/MutexObj.thy ===== *)
theory MutexObj
  imports ShmObj
begin

text \<open>
  Python mutex objects (\<^verbatim>\<open>src/src/bindings/py_mutex.c\<close>): the capsule that lends the lock to other
  extensions, acquiring with its fast path, timeouts and recovery of a dead owner, release,
  the context manager, closing, binding to a slot of a segment, and the accessors. Segment
  objects live in a store, since handles share them. The lemmas show that a lock is held after
  an acquire exactly when it returns True, that every other end gives it back, that timed
  waits end, and that every handle holds exactly one pin of its segment.
\<close>

section \<open>Objects\<close>

type_synonym regions = "addr \<Rightarrow> PosixIPCSharedMemoryObject"

record PosixIPCMutexObject =
  m_lock :: "addr option"
  m_region :: "addr option"
  m_slot :: u32
  m_kind :: u16
  m_align :: u16
  m_offset :: u32
  m_size :: u32
  m_init_flags :: u32
  m_flags :: u32
  m_locked :: bool
  m_inline_storage :: addr
  m_on_owner_died :: "pyobj option"

text \<open>\<^verbatim>\<open>posixipc_shmobj_pin\<close> and \<^verbatim>\<open>posixipc_shmobj_unpin\<close> on an object of the store.\<close>

definition pin_region :: "regions \<Rightarrow> addr \<Rightarrow> (pyexc option \<times> regions) io" where
  "pin_region H r = do { (e, ob) \<leftarrow> posixipc_shmobj_pin (H r); ret (e, H(r := ob)) }"

definition unpin_region :: "regions \<Rightarrow> addr \<Rightarrow> regions" where
  "unpin_region H r = H(r := posixipc_shmobj_unpin (H r))"

definition long_from :: "nat \<Rightarrow> nat pyres io" where
  "long_from n = do { a \<leftarrow> call (Py (LongFrom n)); ret (if a_ret a < 0 then Inl Pending else Inr n) }"

section \<open>Capsules\<close>

record posixipc_mutex_capsule_impl =
  cap_version :: u32
  cap_mutex :: addr
  cap_region :: "addr option"

definition capsule_retain :: "posixipc_mutex_capsule_impl \<Rightarrow> regions \<Rightarrow> (pyexc option \<times> regions) io" where
  "capsule_retain ctx H =
     (case cap_region ctx of None \<Rightarrow> ret (Some ValueError, H) | Some r \<Rightarrow> pin_region H r)"

definition capsule_release :: "posixipc_mutex_capsule_impl \<Rightarrow> regions \<Rightarrow> pyexc option \<times> regions" where
  "capsule_release ctx H =
     (case cap_region ctx of None \<Rightarrow> (Some ValueError, H) | Some r \<Rightarrow> (None, unpin_region H r))"

text \<open>The pointer of the capsule is \<^const>\<open>None\<close> when \<^verbatim>\<open>PyCapsule_GetPointer\<close> fails; the memory is then left alone. The reference to
  the region that the destructor drops (\<^verbatim>\<open>Py_DECREF\<close>) is accounted for in theory \<^verbatim>\<open>Capsule\<close>, with the forced close the last one brings.\<close>

definition capsule_destructor :: "(addr \<times> posixipc_mutex_capsule_impl) option \<Rightarrow> regions \<Rightarrow> regions io" where
  "capsule_destructor cap H =
     (case cap of None \<Rightarrow> ret H | Some (p, impl) \<Rightarrow> do {
        let H = (case cap_region impl of None \<Rightarrow> H | Some r \<Rightarrow> unpin_region H r);
        call_ignore (Py (PyMem_Free p));
        ret H })"

definition posixipc_mutex_capsule_new ::
    "addr option \<Rightarrow> addr option \<Rightarrow> regions \<Rightarrow> ((addr \<times> posixipc_mutex_capsule_impl) pyres \<times> regions) io" where
  "posixipc_mutex_capsule_new ro lock H =
     (case (ro, lock) of
        (Some r, Some l) \<Rightarrow> do {
          (e, H) \<leftarrow> pin_region H r;
          case e of Some x \<Rightarrow> ret (Inl x, H) | None \<Rightarrow> do {
            a \<leftarrow> call (Py (PyMem_Calloc 1 40));
            if a_ret a < 0 then ret (Inl MemoryError, unpin_region H r)
            else do {
              let impl = \<lparr>cap_version = 1, cap_mutex = l, cap_region = Some r\<rparr>;
              c \<leftarrow> call (Py Capsule_New);
              if a_ret c < 0 then do {
                let H = unpin_region H r;
                call_ignore (Py (PyMem_Free (nat (a_ret a))));
                ret (Inl Pending, H) }
              else ret (Inr (nat (a_ret a), impl), H) } } }
      | _ \<Rightarrow> ret (Inl posixipc_raise_unbound, H))"

section \<open>Acquire and release\<close>

definition mutex_flags_closed :: "u32 \<Rightarrow> bool" where
  "mutex_flags_closed flags \<longleftrightarrow> flag_set flags FLAG_CLOSED"

definition mutex_check_open :: "PosixIPCMutexObject \<Rightarrow> pyexc option" where
  "mutex_check_open m =
     (if mutex_flags_closed (m_flags m) then Some posixipc_raise_closed
      else if \<not> flag_set (m_flags m) FLAG_BOUND \<or> m_lock m = None then Some posixipc_raise_unbound
      else None)"

text \<open>The callback is Python code; it is taken not to change the handle it is given.\<close>

definition posixipc_mutex_after_lock :: "PosixIPCMutexObject \<Rightarrow> rc \<Rightarrow> (bool pyres \<times> PosixIPCMutexObject) io" where
  "posixipc_mutex_after_lock m rc = do {
     st \<leftarrow> posixipc_state_from_obj;
     case st of Some e \<Rightarrow> ret (Inl e, m) | None \<Rightarrow>
       if rc = 0 then ret (Inr True, m\<lparr>m_locked := True\<rparr>)
       else if rc = EOWNERDEAD then do {
         let m = m\<lparr>m_locked := True\<rparr>;
         case m_on_owner_died m of
           None \<Rightarrow> do {
             _ \<leftarrow> posixipc_mutex_unlock (m_lock m);
             ret (Inl TypeError, m\<lparr>m_locked := False\<rparr>) }
         | Some fn \<Rightarrow> do {
             r \<leftarrow> call (Py (CallOneArg fn));
             if a_ret r < 0 then do {
               _ \<leftarrow> posixipc_mutex_unlock (m_lock m);
               ret (Inl Pending, m\<lparr>m_locked := False\<rparr>) }
             else do {
               urc \<leftarrow> posixipc_mutex_consistent (m_lock m);
               if urc \<noteq> 0 then do {
                 _ \<leftarrow> posixipc_mutex_unlock (m_lock m);
                 ret (Inl (raise_err urc), m\<lparr>m_locked := False\<rparr>) }
               else ret (Inr True, m) } } }
       else if rc = ENOTRECOVERABLE then ret (Inl NotRecoverableError, m)
       else if rc = ETIMEDOUT \<or> rc = EBUSY then ret (Inr False, m)
       else if rc = EDEADLK then ret (Inl RuntimeError, m)
       else ret (Inl (raise_err rc), m) }"

definition mutex_lock_until_cb :: "addr option \<Rightarrow> clocksym waitfn" where
  "mutex_lock_until_cb arg = (\<lambda>g slice. posixipc_mutex_lock_until g arg (Some slice))"

text \<open>From the blocking part of acquire on; the deadline is on the clock the lock function uses.\<close>

definition mutex_block ::
    "(rat \<Rightarrow> rat) \<Rightarrow> nat \<Rightarrow> clocksym \<Rightarrow> PosixIPCMutexObject \<Rightarrow> posixipc_acquire_opts \<Rightarrow>
     (bool pyres outcome \<times> PosixIPCMutexObject \<times> clocksym) io" where
  "mutex_block fl fuel g m opts = do {
     (d, g) \<leftarrow> (if timeout_none opts then ret (Some (0, None), g)
               else do {
                 (clk, g) \<leftarrow> posixipc_mutex_clock g;
                 d \<leftarrow> posixipc_deadline_from_seconds fl clk (timeout opts) (Some deadline0);
                 ret (d, g) });
     case d of None \<Rightarrow> ret (Undefined, m, g) | Some (rc, userp) \<Rightarrow>
       if rc \<noteq> 0 then ret (Returned (Inl (raise_err rc)), m, g)
       else if \<not> interruptible opts \<and> timeout_none opts then do {
         rc \<leftarrow> allow_threads (posixipc_mutex_lock (m_lock m));
         (r, m) \<leftarrow> posixipc_mutex_after_lock m rc;
         ret (Returned r, m, g) }
       else do {
         (clk, g) \<leftarrow> posixipc_mutex_clock g;
         res \<leftarrow> posixipc_blocking_wait fuel (mutex_lock_until_cb (m_lock m)) userp (interruptible opts) clk g;
         case res of None \<Rightarrow> ret (Unfinished, m, g) | Some (rc, g) \<Rightarrow> do {
           (r, m) \<leftarrow> posixipc_mutex_after_lock m rc;
           ret (Returned r, m, g) } } }"

text \<open>The argument handling of acquire, with the test of the handle in its place.\<close>

definition mutex_parse ::
    "PosixIPCMutexObject \<Rightarrow> pyobj list \<Rightarrow> (string \<times> pyobj) list \<Rightarrow> posixipc_acquire_opts pyres io" where
  "mutex_parse m args kws =
     (if length args > 1 then ret (Inl TypeError)
      else let tobj = (case args of [] \<Rightarrow> Py_None | a # _ \<Rightarrow> a) in do {
        k \<leftarrow> parse_keywords (length args) kws tobj True True;
        case k of Inl e \<Rightarrow> ret (Inl e) | Inr (tobj, bl, it) \<Rightarrow>
          case mutex_check_open m of Some e \<Rightarrow> ret (Inl e) | None \<Rightarrow> do {
            t \<leftarrow> parse_timeout tobj;
            case t of Inl e \<Rightarrow> ret (Inl e) | Inr (none, secs) \<Rightarrow>
              if \<not> bl \<and> \<not> none \<and> dbl_pos secs then ret (Inl ValueError)
              else ret (Inr \<lparr>timeout_none = none, timeout = secs, blocking = bl, interruptible = it\<rparr>) } })"

definition mutex_acquire ::
    "(rat \<Rightarrow> rat) \<Rightarrow> nat \<Rightarrow> clocksym \<Rightarrow> PosixIPCMutexObject \<Rightarrow> pyobj list \<Rightarrow> (string \<times> pyobj) list \<Rightarrow>
     (bool pyres outcome \<times> PosixIPCMutexObject \<times> clocksym) io" where
  "mutex_acquire fl fuel g m args kws = do {
     st \<leftarrow> posixipc_state_from_obj;
     case st of Some e \<Rightarrow> ret (Returned (Inl e), m, g) | None \<Rightarrow> do {
       p \<leftarrow> mutex_parse m args kws;
       case p of Inl e \<Rightarrow> ret (Returned (Inl e), m, g) | Inr opts \<Rightarrow> do {
         rc \<leftarrow> posixipc_mutex_trylock (m_lock m);
         if rc \<noteq> EBUSY then do {
           (r, m) \<leftarrow> posixipc_mutex_after_lock m rc;
           ret (Returned r, m, g) }
         else if \<not> blocking opts \<or> (\<not> timeout_none opts \<and> timeout opts = Fin 0)
         then ret (Returned (Inr False), m, g)
         else mutex_block fl fuel g m opts } } }"

definition mutex_release :: "PosixIPCMutexObject \<Rightarrow> (unit pyres \<times> PosixIPCMutexObject) io" where
  "mutex_release m = do {
     st \<leftarrow> posixipc_state_from_obj;
     case st of Some e \<Rightarrow> ret (Inl e, m) | None \<Rightarrow>
       case mutex_check_open m of Some e \<Rightarrow> ret (Inl e, m) | None \<Rightarrow> do {
         rc \<leftarrow> posixipc_mutex_unlock (m_lock m);
         if rc = EPERM then ret (Inl RuntimeError, m)
         else if rc \<noteq> 0 then ret (Inl (raise_err rc), m)
         else ret (Inr (), m\<lparr>m_locked := False\<rparr>) } }"

definition mutex_enter ::
    "(rat \<Rightarrow> rat) \<Rightarrow> nat \<Rightarrow> clocksym \<Rightarrow> PosixIPCMutexObject \<Rightarrow>
     (unit pyres outcome \<times> PosixIPCMutexObject \<times> clocksym) io" where
  "mutex_enter fl fuel g m = do {
     (ok, m, g) \<leftarrow> mutex_acquire fl fuel g m [] [];
     ret (case ok of Returned (Inr True) \<Rightarrow> Returned (Inr ())
                   | Returned (Inr False) \<Rightarrow> Returned (Inl RuntimeError)
                   | Returned (Inl e) \<Rightarrow> Returned (Inl e)
                   | Undefined \<Rightarrow> Undefined | Unfinished \<Rightarrow> Unfinished, m, g) }"

definition mutex_exit :: "PosixIPCMutexObject \<Rightarrow> (unit pyres \<times> PosixIPCMutexObject) io" where
  "mutex_exit m = (if m_locked m then mutex_release m else ret (Inr (), m))"

definition mutex_as_capsule ::
    "PosixIPCMutexObject \<Rightarrow> regions \<Rightarrow> ((addr \<times> posixipc_mutex_capsule_impl) pyres \<times> regions) io" where
  "mutex_as_capsule m H = do {
     st \<leftarrow> posixipc_state_from_obj;
     case st of Some e \<Rightarrow> ret (Inl e, H) | None \<Rightarrow>
       case mutex_check_open m of Some e \<Rightarrow> ret (Inl e, H) | None \<Rightarrow>
         if m_region m = None then ret (Inl TypeError, H)
         else posixipc_mutex_capsule_new (m_region m) (m_lock m) H }"

definition mutex_close ::
    "PosixIPCMutexObject \<Rightarrow> regions \<Rightarrow> (unit pyres \<times> PosixIPCMutexObject \<times> regions) io" where
  "mutex_close m H = do {
     st \<leftarrow> posixipc_state_from_obj;
     case st of Some e \<Rightarrow> ret (Inl e, m, H) | None \<Rightarrow>
       if mutex_flags_closed (m_flags m) then ret (Inr (), m, H)
       else do {
         m \<leftarrow> (if flag_set (m_flags m) FLAG_OWNS_STORAGE \<and> m_lock m \<noteq> None then do {
                m \<leftarrow> (if m_locked m then do {
                       _ \<leftarrow> posixipc_mutex_unlock (m_lock m);
                       ret (m\<lparr>m_locked := False\<rparr>) }
                     else ret m);
                _ \<leftarrow> posixipc_mutex_destroy (m_lock m);
                ret m }
              else ret m);
         let (m, H) = (case m_region m of None \<Rightarrow> (m, H) | Some r \<Rightarrow> (m\<lparr>m_region := None\<rparr>, unpin_region H r));
         ret (Inr (), m\<lparr>m_lock := None, m_flags := m_flags m OR FLAG_CLOSED\<rparr>, H) } }"

definition mutex_copy :: "pyexc" where
  "mutex_copy = TypeError"

section \<open>Pickling and accessors\<close>

text \<open>The arguments with which \<^verbatim>\<open>_attach_slot\<close> rebuilds the handle: name, slot, kind, digest.\<close>

definition mutex_reduce :: "PosixIPCMutexObject \<Rightarrow> regions \<Rightarrow> (string \<times> u32 \<times> u16 \<times> u32) pyres io" where
  "mutex_reduce m H = do {
     st \<leftarrow> posixipc_state_from_obj;
     case st of Some e \<Rightarrow> ret (Inl e) | None \<Rightarrow>
       if mutex_flags_closed (m_flags m) then ret (Inl posixipc_raise_closed)
       else if \<not> flag_set (m_flags m) FLAG_PROCESS_SHARED \<or> \<not> flag_set (m_flags m) FLAG_BOUND \<or> m_region m = None
       then ret (Inl TypeError)
       else let core = s_core (H (the (m_region m))) in
         case (sh_hdr core, sh_name core) of
           (Some p, Some (_, nm)) \<Rightarrow> do {
             h \<leftarrow> call (Mem (Load_header p));
             a \<leftarrow> call (Py Type_GetModule);
             if a_ret a < 0 then ret (Inl Pending)
             else do {
               f \<leftarrow> call (Py (GetAttr ''_attach_slot''));
               if a_ret f < 0 then ret (Inl Pending)
               else do {
                 b \<leftarrow> call (Py (BuildValue ''(sIII)''));
                 if a_ret b < 0 then ret (Inl Pending)
                 else do {
                   t \<leftarrow> call (Py TuplePack);
                   ret (if a_ret t < 0 then Inl Pending
                        else Inr (nm, m_slot m, m_kind m, h_layout_digest (a_hdr h))) } } } }
         | _ \<Rightarrow> ret (Inl posixipc_raise_closed) }"

definition mutex_get_on_owner_died :: "PosixIPCMutexObject \<Rightarrow> pyobj" where
  "mutex_get_on_owner_died m = (case m_on_owner_died m of None \<Rightarrow> Py_None | Some f \<Rightarrow> f)"

definition mutex_set_on_owner_died ::
    "PosixIPCMutexObject \<Rightarrow> pyobj option \<Rightarrow> (pyexc option \<times> PosixIPCMutexObject) io" where
  "mutex_set_on_owner_died m v =
     (case v of None \<Rightarrow> ret (None, m\<lparr>m_on_owner_died := None\<rparr>) | Some ob \<Rightarrow>
      if ob = Py_None then ret (None, m\<lparr>m_on_owner_died := None\<rparr>)
      else do {
        a \<leftarrow> call (Py (Callable ob));
        if a_ret a = 0 then ret (Some TypeError, m)
        else ret (None, m\<lparr>m_on_owner_died := Some ob\<rparr>) })"

definition mutex_get_process_shared :: "PosixIPCMutexObject \<Rightarrow> bool" where
  "mutex_get_process_shared m = flag_set (m_flags m) FLAG_PROCESS_SHARED"

definition mutex_get_bound :: "PosixIPCMutexObject \<Rightarrow> bool" where
  "mutex_get_bound m = flag_set (m_flags m) FLAG_BOUND"

definition mutex_get_closed :: "PosixIPCMutexObject \<Rightarrow> bool" where
  "mutex_get_closed m = mutex_flags_closed (m_flags m)"

definition mutex_get_region :: "PosixIPCMutexObject \<Rightarrow> pyobj" where
  "mutex_get_region m = (case m_region m of None \<Rightarrow> Py_None | Some r \<Rightarrow> Obj r)"

definition mutex_get_slot :: "PosixIPCMutexObject \<Rightarrow> nat pyres io" where
  "mutex_get_slot m = long_from (unat (m_slot m))"

definition mutex_get_kind :: "PosixIPCMutexObject \<Rightarrow> nat pyres io" where
  "mutex_get_kind m = long_from (unat (m_kind m))"

text \<open>\<^const>\<open>None\<close> is Python's \<^verbatim>\<open>None\<close>.\<close>

definition mutex_get_digest :: "PosixIPCMutexObject \<Rightarrow> regions \<Rightarrow> nat option pyres io" where
  "mutex_get_digest m H =
     (case m_region m of None \<Rightarrow> ret (Inr None) | Some r \<Rightarrow>
      case sh_hdr (s_core (H r)) of None \<Rightarrow> ret (Inr None) | Some p \<Rightarrow> do {
        h \<leftarrow> call (Mem (Load_header p));
        n \<leftarrow> long_from (unat (h_layout_digest (a_hdr h)));
        ret (case n of Inl e \<Rightarrow> Inl e | Inr v \<Rightarrow> Inr (Some v)) })"

definition mutex_get_offset :: "PosixIPCMutexObject \<Rightarrow> nat pyres io" where
  "mutex_get_offset m = long_from (unat (m_offset m))"

definition mutex_get_size :: "PosixIPCMutexObject \<Rightarrow> nat pyres io" where
  "mutex_get_size m = long_from (unat (m_size m))"

section \<open>Construction, binding, deallocation\<close>

text \<open>
  The parsed arguments are parameters (\<open>died\<close> is NULL when absent), and so is the outcome of the
  test whether the object is a \<^verbatim>\<open>RobustMutex\<close>.
\<close>

definition mutex_init ::
    "config \<Rightarrow> PosixIPCMutexObject \<Rightarrow> bool \<Rightarrow> bool \<Rightarrow> bool \<Rightarrow> pyobj option \<Rightarrow> (pyexc option \<times> PosixIPCMutexObject) io" where
  "mutex_init c m is_robust process_shared prio_inherit died = do {
     st \<leftarrow> posixipc_state_from_obj;
     case st of Some e \<Rightarrow> ret (Some e, m) | None \<Rightarrow>
       if flag_set (m_flags m) FLAG_BOUND \<or> flag_set (m_flags m) FLAG_OWNS_STORAGE then ret (Some RuntimeError, m)
       else do {
         p \<leftarrow> call (Py (ParseTuple ''|$ppO:Mutex''));
         if a_ret p = 0 then ret (Some Pending, m)
         else if process_shared then ret (Some ValueError, m)
         else do {
           bad \<leftarrow> (if is_robust then
                    (if died = None \<or> died = Some Py_None then ret True
                     else do { a \<leftarrow> call (Py (Callable (the died))); ret (a_ret a = 0) })
                  else ret (died \<noteq> None \<and> died \<noteq> Some Py_None));
           if bad then ret (Some TypeError, m)
           else do {
             let cfg = (if prio_inherit then FLAG_PRIORITY_INHERIT else 0) OR (if is_robust then FLAG_ROBUST else 0);
             rc \<leftarrow> posixipc_mutex_init (Some (m_inline_storage m)) (Some cfg);
             if rc \<noteq> 0 then ret (Some (raise_err rc), m)
             else do {
               let kind = (if is_robust then KIND_ROBUST_MUTEX else KIND_MUTEX);
               ret (None, m\<lparr>m_lock := Some (m_inline_storage m), m_kind := kind,
                    m_align := ucast (posixipc_kind_align c kind), m_offset := 0, m_size := posixipc_kind_size c kind 0,
                    m_init_flags := cfg OR FLAG_OWNS_STORAGE, m_slot := 0,
                    m_on_owner_died := (if is_robust then died else m_on_owner_died m), m_locked := False,
                    m_flags := FLAG_OWNS_STORAGE OR FLAG_BOUND OR cfg\<rparr>) } } } } }"

definition mutex_clear :: "PosixIPCMutexObject \<Rightarrow> PosixIPCMutexObject" where
  "mutex_clear m = m\<lparr>m_on_owner_died := None\<rparr>"

definition mutex_finalize :: "PosixIPCMutexObject \<Rightarrow> unit io" where
  "mutex_finalize m =
     (if flag_set (m_flags m) FLAG_OWNS_STORAGE \<and> \<not> mutex_flags_closed (m_flags m)
      then call_ignore (Py WarnUnclosed) else ret ())"

definition mutex_dealloc :: "PosixIPCMutexObject \<Rightarrow> regions \<Rightarrow> (PosixIPCMutexObject \<times> regions) io" where
  "mutex_dealloc m H = do {
     mutex_finalize m;
     (m, H) \<leftarrow> (if \<not> mutex_flags_closed (m_flags m) then do { (_, m, H) \<leftarrow> mutex_close m H; ret (m, H) }
               else ret (m, H));
     ret (m\<lparr>m_on_owner_died := None, m_region := None\<rparr>, H) }"

text \<open>\<open>storage\<close> is where the new object keeps its inline mutex.\<close>

definition posixipc_mutex_new_unbound ::
    "config \<Rightarrow> u16 \<Rightarrow> u32 \<Rightarrow> pyobj option \<Rightarrow> u32 \<Rightarrow> addr \<Rightarrow> PosixIPCMutexObject pyres io" where
  "posixipc_mutex_new_unbound c kind init_flags died slot storage = do {
     a \<leftarrow> call (Py Tp_alloc);
     ret (if a_ret a < 0 then Inl Pending
          else Inr \<lparr>m_lock = None, m_region = None, m_slot = slot, m_kind = kind,
                    m_align = ucast (posixipc_kind_align c kind), m_offset = 0, m_size = posixipc_kind_size c kind 0,
                    m_init_flags = init_flags, m_flags = init_flags AND NOT FLAG_BOUND, m_locked = False,
                    m_inline_storage = storage, m_on_owner_died = died\<rparr>) }"

definition posixipc_mutex_bind ::
    "PosixIPCMutexObject \<Rightarrow> regions \<Rightarrow> addr \<Rightarrow> posixipc_slot \<Rightarrow> u32 \<Rightarrow> bool \<Rightarrow>
     (pyexc option \<times> PosixIPCMutexObject \<times> regions) io" where
  "posixipc_mutex_bind m H r slot index do_init = do {
     st \<leftarrow> posixipc_state_from_obj;
     case st of Some e \<Rightarrow> ret (Some e, m, H) | None \<Rightarrow> do {
       (rc, ptr) \<leftarrow> region_ptr (H r) (s_offset slot) (s_size slot) (ucast (s_align slot));
       if rc \<noteq> 0 then ret (Some (raise_err rc), m, H)
       else do {
         rc \<leftarrow> (if do_init then posixipc_mutex_init ptr (Some (s_init_flags slot)) else ret 0);
           if rc \<noteq> 0 then ret (Some (raise_err rc), m, H)
           else do {
             (e, H) \<leftarrow> pin_region H r;
             case e of Some x \<Rightarrow> ret (Some x, m, H) | None \<Rightarrow>
               ret (None, m\<lparr>m_region := Some r, m_lock := ptr, m_slot := index, m_kind := s_kind slot,
                     m_align := s_align slot, m_offset := s_offset slot, m_size := s_size slot,
                     m_init_flags := s_init_flags slot,
                     m_flags := m_flags m OR (FLAG_BOUND OR FLAG_PROCESS_SHARED)\<rparr>, H) } } } }"

section \<open>The lock is held exactly after a successful acquire\<close>

text \<open>
  How often this thread holds a mutex: a lock call that answers 0 or EOWNERDEAD takes it, an
  unlock gives it back; a condition wait gives it back and takes it again, except when it
  answers ENOTRECOVERABLE, which leaves the mutex unlocked.
\<close>

definition got :: "rc \<Rightarrow> int" where
  "got rc = (if rc = 0 \<or> rc = EOWNERDEAD then 1 else 0)"

fun lock_delta :: "addr \<Rightarrow> syscall \<Rightarrow> answer \<Rightarrow> int" where
  "lock_delta q (Mutex (Mutex_lock p)) a = (if p = q then got (a_ret a) else 0)"
| "lock_delta q (Mutex (Mutex_trylock p)) a = (if p = q then got (a_ret a) else 0)"
| "lock_delta q (Mutex (Mutex_clocklock p clk ts)) a = (if p = q then got (a_ret a) else 0)"
| "lock_delta q (Mutex (Mutex_timedlock p ts)) a = (if p = q then got (a_ret a) else 0)"
| "lock_delta q (Mutex (Mutex_unlock p)) a = (if p = q then - 1 else 0)"
| "lock_delta q (Cond (Cond_wait cv p)) a = (if p = q \<and> a_ret a = ENOTRECOVERABLE then - 1 else 0)"
| "lock_delta q (Cond (Cond_timedwait cv p ts)) a = (if p = q \<and> a_ret a = ENOTRECOVERABLE then - 1 else 0)"
| "lock_delta q _ a = 0"

lemma lock_like_delta: "lock_like (lock_delta q)"
  by (simp add: lock_like_def)

text \<open>The type of a handle belongs to the module, so its state is found.\<close>

definition module_found :: "world \<Rightarrow> bool" where
  "module_found w \<longleftrightarrow> (\<forall>h. 0 \<le> a_ret (env w h (Py Type_GetModule)))"

lemma module_found_env: "env w' = env w \<Longrightarrow> module_found w' = module_found w"
  by (simp add: module_found_def)

lemma run_state_from:
  "module_found w \<Longrightarrow> run posixipc_state_from_obj w = (None, after w (Py Type_GetModule))"
  by (simp add: posixipc_state_from_obj_def posixipc_state_from_type_def io_simps module_found_def answer_to_def not_less)

lemma keeps_clocksym_init: "lock_like \<delta> \<Longrightarrow> keeps \<delta> (posixipc_clocksym_init g)"
  by (auto simp: posixipc_clocksym_init_def dlsym_def lock_likeD intro!: keeps_rules)

lemma clocklock_run:
  assumes "run (posixipc_mutex_clocklock g p clk ts) w = ((rc, g'), w')"
  shows "env w' = env w" and "length (trace w) \<le> length (trace w')"
    and "balance (lock_delta q) w' = balance (lock_delta q) w + (if p = q then got rc else 0)"
proof -
  obtain g1 w1 where i: "run (posixipc_clocksym_init g) w = (g1, w1)" by fastforce
  note k = keepsD [OF keeps_clocksym_init [OF lock_like_delta] i]
  show "env w' = env w" "length (trace w) \<le> length (trace w')"
    "balance (lock_delta q) w' = balance (lock_delta q) w + (if p = q then got rc else 0)"
    using assms i k(1,2) k(3) [of q]
    by (auto simp: posixipc_mutex_clocklock_def run_bind run_if run_ret run_call_rc got_def split: if_splits)
qed

lemma lock_until_run:
  assumes "run (posixipc_mutex_lock_until g lo (Some d)) w = ((rc, g'), w')"
  shows "env w' = env w" and "length (trace w) \<le> length (trace w')"
    and "balance (lock_delta q) w' = balance (lock_delta q) w + (if lo = Some q then got rc else 0)"
proof -
  obtain hv g1 w1 where i: "run (posixipc_have_mutex_clocklock g) w = ((hv, g1), w1)" by (metis prod_cases3 surj_pair)
  note k = keepsD [OF keeps_have_clocklock [OF lock_like_delta] i]
  have e: "lo = None \<Longrightarrow> rc = EINVAL \<and> w' = w"
    "lo = Some p \<Longrightarrow> hv \<Longrightarrow> run (posixipc_mutex_clocklock g1 p (d_clk d) (d_ts d)) w1 = ((rc, g'), w')"
    "lo = Some p \<Longrightarrow> \<not> hv \<Longrightarrow> rc = EINVAL \<and> w' = w1 \<or>
       rc = a_ret (answer_to w1 (Mutex (Mutex_timedlock p (d_ts d)))) \<and> w' = after w1 (Mutex (Mutex_timedlock p (d_ts d)))" for p
    using assms i
    by (auto simp: posixipc_mutex_lock_until_def run_bind run_if run_ret run_call_rc split: option.splits if_splits)
  show "env w' = env w" "length (trace w) \<le> length (trace w')"
    "balance (lock_delta q) w' = balance (lock_delta q) w + (if lo = Some q then got rc else 0)"
    using e k(1,2) k(3) [of q] clocklock_run [of g1 "the lo" "d_clk d" "d_ts d" w1 rc g' w']
    by (cases lo; cases hv; auto simp: got_def split: if_splits)+
qed

interpretation mutex_wait: waiter "mutex_lock_until_cb lo" "lock_delta q" "\<lambda>rc. if lo = Some q then got rc else 0"
  for lo q
proof unfold_locales
  fix s d w
  obtain rc g' w' where r: "run (posixipc_mutex_lock_until s lo (Some d)) w = ((rc, g'), w')"
    by (metis prod_cases3 surj_pair)
  note l = lock_until_run [OF r]
  show "env (snd (run (mutex_lock_until_cb lo s d) w)) = env w"
    and "length (trace w) \<le> length (trace (snd (run (mutex_lock_until_cb lo s d) w)))"
    and "balance (lock_delta q) (snd (run (mutex_lock_until_cb lo s d) w)) =
      balance (lock_delta q) w + (if lo = Some q then got (fst (fst (run (mutex_lock_until_cb lo s d) w))) else 0)"
    unfolding mutex_lock_until_cb_def r fst_conv snd_conv by (rule l)+
qed (auto simp: got_def lock_like_delta)

text \<open>What an acquire leaves, relative to the lock code \<open>rc\<close> it has already obtained (EBUSY for none).\<close>

definition acquire_post ::
    "rc \<Rightarrow> world \<Rightarrow> PosixIPCMutexObject \<Rightarrow> bool pyres \<Rightarrow> PosixIPCMutexObject \<Rightarrow> world \<Rightarrow> bool" where
  "acquire_post rc w m r m' w' \<longleftrightarrow> env w' = env w \<and>
     (\<forall>q. balance (lock_delta q) w' = balance (lock_delta q) w +
        (if m_lock m = Some q then (if r = Inr True then 1 else 0) - got rc else 0)) \<and>
     (case r of Inr True \<Rightarrow> m' = m\<lparr>m_locked := True\<rparr> | Inr False \<Rightarrow> m' = m
              | Inl e \<Rightarrow> m' = m \<or> m' = m\<lparr>m_locked := False\<rparr>)"

lemma acquire_post_gave_back:
  assumes "\<And>q. balance (lock_delta q) w' = balance (lock_delta q) w - (if m_lock m = Some q then got rc else 0)"
    and "env w' = env w" and "m' = m \<or> m' = m\<lparr>m_locked := False\<rparr>"
  shows "acquire_post rc w m (Inl e) m' w'"
  using assms by (simp add: acquire_post_def)

lemma acquire_post_taken:
  assumes "\<And>q. balance (lock_delta q) w' = balance (lock_delta q) w" and "got rc = 1" and "env w' = env w"
  shows "acquire_post rc w m (Inr True) (m\<lparr>m_locked := True\<rparr>) w'"
  using assms by (simp add: acquire_post_def)

lemma acquire_post_plain:
  assumes "\<And>q. balance (lock_delta q) w' = balance (lock_delta q) w" and "got rc = 0" and "env w' = env w" and "r \<noteq> Inr True"
  shows "acquire_post rc w m r m w'"
  using assms by (cases r) (simp_all add: acquire_post_def)

lemma after_lock_post:
  assumes "module_found w" and "run (posixipc_mutex_after_lock m rc) w = ((r, m'), w')"
  shows "acquire_post rc w m r m' w'"
proof (cases "rc = 0 \<or> rc = EOWNERDEAD")
  case False
  let ?r = "if rc = ENOTRECOVERABLE then Inl NotRecoverableError else if rc = ETIMEDOUT \<or> rc = EBUSY then Inr False
      else if rc = EDEADLK then Inl RuntimeError else Inl (raise_err rc)"
  have "run (posixipc_mutex_after_lock m rc) w = ((?r, m), after w (Py Type_GetModule))"
    using False run_state_from [OF assms(1)] by (simp add: posixipc_mutex_after_lock_def run_bind run_if run_ret)
  then have "r = ?r" "m' = m" "w' = after w (Py Type_GetModule)" using assms(2) by simp_all
  then show ?thesis using False by (auto intro!: acquire_post_plain simp: got_def)
next
  case True
  show ?thesis
  proof (cases "rc = 0")
    case True
    with assms(2) run_state_from [OF assms(1)] show ?thesis
      by (auto simp: posixipc_mutex_after_lock_def run_bind run_ret got_def intro!: acquire_post_taken)
  next
    case False
    with \<open>rc = 0 \<or> rc = EOWNERDEAD\<close> assms(2) run_state_from [OF assms(1)] show ?thesis
      by (cases "m_on_owner_died m"; cases "m_lock m")
        (auto simp: posixipc_mutex_after_lock_def posixipc_mutex_unlock_def posixipc_mutex_consistent_def run_bind run_if
          run_ret run_call run_call_rc Let_def got_def intro!: acquire_post_taken acquire_post_gave_back split: if_splits)
  qed
qed

text \<open>First something that leaves the locks alone or takes the lock with code \<open>rc\<close>, then the end.\<close>

lemma acquire_post_seq:
  assumes "env w1 = env w" and "\<And>q. balance (lock_delta q) w1 = balance (lock_delta q) w + (if m_lock m = Some q then got rc else 0)"
    and "acquire_post rc w1 m r m' w'"
  shows "acquire_post EBUSY w m r m' w'"
  using assms by (auto simp: acquire_post_def got_def)

lemma mutex_lock_run:
  "run (allow_threads (posixipc_mutex_lock lo)) w = (rc, w') \<Longrightarrow> env w' = env w \<and>
     balance (lock_delta q) w' = balance (lock_delta q) w + (if lo = Some q then got rc else 0)"
  by (cases lo) (auto simp: posixipc_mutex_lock_def io_simps got_def)

lemma mutex_trylock_run:
  "run (posixipc_mutex_trylock lo) w = (rc, w') \<Longrightarrow> env w' = env w \<and>
     balance (lock_delta q) w' = balance (lock_delta q) w + (if lo = Some q then got rc else 0)"
  by (cases lo) (auto simp: posixipc_mutex_trylock_def io_simps got_def)

text \<open>
  The blocking part of an acquire up to the lock code it obtains. Mutexes and items of an array share it and
  differ in what they do with the code.
\<close>

definition lock_code ::
    "(rat \<Rightarrow> rat) \<Rightarrow> nat \<Rightarrow> clocksym \<Rightarrow> addr option \<Rightarrow> posixipc_acquire_opts \<Rightarrow> (rc pyres outcome \<times> clocksym) io" where
  "lock_code fl fuel g lock opts = do {
     (d, g) \<leftarrow> (if timeout_none opts then ret (Some (0, None), g)
               else do {
                 (clk, g) \<leftarrow> posixipc_mutex_clock g;
                 d \<leftarrow> posixipc_deadline_from_seconds fl clk (timeout opts) (Some deadline0);
                 ret (d, g) });
     case d of None \<Rightarrow> ret (Undefined, g) | Some (rc, userp) \<Rightarrow>
       if rc \<noteq> 0 then ret (Returned (Inl (raise_err rc)), g)
       else if \<not> interruptible opts \<and> timeout_none opts then do {
         rc \<leftarrow> allow_threads (posixipc_mutex_lock lock);
         ret (Returned (Inr rc), g) }
       else do {
         (clk, g) \<leftarrow> posixipc_mutex_clock g;
         res \<leftarrow> posixipc_blocking_wait fuel (mutex_lock_until_cb lock) userp (interruptible opts) clk g;
         ret (case res of None \<Rightarrow> (Unfinished, g) | Some (rc, g) \<Rightarrow> (Returned (Inr rc), g)) } }"

lemma lock_code_post:
  assumes ce: "clock_errors w" and run: "run (lock_code fl fuel g lock opts) w = ((Returned x, g'), w')"
  shows "env w' = env w" and "balance (lock_delta q) w' =
    balance (lock_delta q) w + (if lock = Some q then (case x of Inr rc \<Rightarrow> got rc | Inl e \<Rightarrow> 0) else 0)"
proof -
  let ?pre = "if timeout_none opts then ret (Some (0, None), g)
     else do { (clk, g) \<leftarrow> posixipc_mutex_clock g;
               d \<leftarrow> posixipc_deadline_from_seconds fl clk (timeout opts) (Some deadline0);
               ret (d, g) }"
  obtain d g1 w1 where p: "run ?pre w = ((d, g1), w1)" by (metis prod_cases3 surj_pair)
  have kp: "keeps (lock_delta q) ?pre" for q
    by (intro keeps_rules keeps_mutex_clock keeps_deadline lock_like_delta)
  note k1 = keepsD [OF kp p]
  obtain rc userp where d: "d = Some (rc, userp)"
    using run p by (cases d) (auto simp: lock_code_def run_bind run_ret)
  obtain clk g2 w2 where c: "run (posixipc_mutex_clock g1) w1 = ((clk, g2), w2)" by (metis prod_cases3 surj_pair)
  note k2 = keepsD [OF keeps_mutex_clock [OF lock_like_delta] c]
  have e1: "env w1 = env w" and b1: "\<And>q. balance (lock_delta q) w1 = balance (lock_delta q) w" using k1 by blast+
  have e2: "env w2 = env w" and b2: "\<And>q. balance (lock_delta q) w2 = balance (lock_delta q) w" using k2 e1 b1 by auto
  consider (bad) "x = Inl (raise_err rc)" "w' = w1"
    | (lock) rc2 where "run (allow_threads (posixipc_mutex_lock lock)) w1 = (rc2, w')" "x = Inr rc2"
    | (wait) rc2 g3 where "run (posixipc_blocking_wait fuel (mutex_lock_until_cb lock) userp
          (interruptible opts) clk g2) w2 = (Some (rc2, g3), w')" "x = Inr rc2"
    using run p d c by (auto simp: lock_code_def run_bind run_if run_ret split: if_splits prod.splits option.splits)
  then show "env w' = env w" and "balance (lock_delta q) w' =
      balance (lock_delta q) w + (if lock = Some q then (case x of Inr rc \<Rightarrow> got rc | Inl e \<Rightarrow> 0) else 0)"
    using e1 b1 [of q] e2 b2 [of q] mutex_lock_run [of lock w1 _ w' q] ce
    by (cases; auto simp: clock_errors_def dest: mutex_wait.blocking_wait_env mutex_wait.blocking_wait_balance [of w2, rotated, where q = q])+
qed

lemma run_mutex_block:
  "run (mutex_block fl fuel g m opts) w =
    (case run (lock_code fl fuel g (m_lock m) opts) w of ((oc, g'), w1) \<Rightarrow>
       (case oc of Undefined \<Rightarrow> ((Undefined, m, g'), w1) | Unfinished \<Rightarrow> ((Unfinished, m, g'), w1)
        | Returned (Inl e) \<Rightarrow> ((Returned (Inl e), m, g'), w1)
        | Returned (Inr rc) \<Rightarrow> (case run (posixipc_mutex_after_lock m rc) w1 of ((r, m'), w2) \<Rightarrow> ((Returned r, m', g'), w2))))"
proof -
  let ?pre = "if timeout_none opts then ret (Some (0, None), g)
     else do { (clk, g) \<leftarrow> posixipc_mutex_clock g;
               d \<leftarrow> posixipc_deadline_from_seconds fl clk (timeout opts) (Some deadline0);
               ret (d, g) }"
  obtain d g1 w1 where p: "run ?pre w = ((d, g1), w1)" by (metis prod_cases3 surj_pair)
  show ?thesis using p
    by (cases d) (auto simp: mutex_block_def lock_code_def run_bind run_ret run_if split: prod.splits option.splits)
qed

lemma mutex_block_post:
  assumes mf: "module_found w" and ce: "clock_errors w"
    and run: "run (mutex_block fl fuel g m opts) w = ((Returned r, m', g'), w')"
  shows "acquire_post EBUSY w m r m' w'"
proof -
  obtain oc g1 w1 where c: "run (lock_code fl fuel g (m_lock m) opts) w = ((oc, g1), w1)" by (metis prod_cases3 surj_pair)
  then obtain x where oc: "oc = Returned x" using run by (cases oc) (simp_all add: run_mutex_block)
  note post = lock_code_post [OF ce c [unfolded oc]]
  show ?thesis
  proof (cases x)
    case (Inl e)
    with run c oc post show ?thesis by (auto simp: run_mutex_block got_def intro: acquire_post_plain)
  next
    case (Inr rc)
    with run c oc have al: "run (posixipc_mutex_after_lock m rc) w1 = ((r, m'), w')"
      by (auto simp: run_mutex_block split: prod.splits)
    have "module_found w1" using mf post(1) by (simp add: module_found_def)
    from acquire_post_seq [OF post(1) _ after_lock_post [OF this al]] post(2) Inr show ?thesis by simp
  qed
qed

text \<open>A positional timeout cannot be replaced by a keyword.\<close>

lemma keywords_keep_positional:
  assumes "run (parse_keywords (Suc n) kws tobj bl it) w = (Inr (tobj', bl', it'), w')"
  shows "tobj' = tobj"
  using assms
proof (induction kws arbitrary: bl it w)
  case (Cons kw kws)
  obtain key val where kw: "kw = (key, val)" by fastforce
  from Cons.prems obtain bl2 it2 w2 where "run (parse_keywords (Suc n) kws tobj bl2 it2) w2 = (Inr (tobj', bl', it'), w')"
    unfolding kw parse_keywords.simps run_bind run_call run_if run_ret prod.case by (auto simp only: split: if_splits)
  then show ?case by (rule Cons.IH)
qed (simp add: run_ret)

lemma keeps_mutex_parse: "keeps (lock_delta q) (mutex_parse m args kws)"
  unfolding mutex_parse_def
  by (intro keeps_rules keeps_keywords keeps_timeout lock_like_delta)

lemma mutex_parse_positional:
  assumes "run (mutex_parse m [ob] kws) w = (Inr opts, w')" and "ob \<noteq> Py_None"
  shows "\<not> timeout_none opts"
proof -
  obtain k w1 where k: "run (parse_keywords 1 kws ob True True) w = (k, w1)" by fastforce
  obtain tobj bl it where kI: "k = Inr (tobj, bl, it)" and op: "mutex_check_open m = None"
    using assms(1) k by (cases k; cases "mutex_check_open m") (auto simp: mutex_parse_def run_bind run_ret)
  have "tobj = ob" using keywords_keep_positional [of 0 kws ob] k kI by simp
  moreover obtain p w2 where p: "run (parse_timeout tobj) w1 = (p, w2)" by fastforce
  ultimately show ?thesis using assms k kI op
    by (cases p) (auto simp: mutex_parse_def run_bind run_ret run_if parse_timeout_def run_call split: if_splits)
qed

lemma mutex_acquire_cases:
  assumes run: "run (mutex_acquire fl fuel g m args kws) w = ((oc, m', g'), w')" and mf: "module_found w"
  obtains (early) r where "oc = Returned r" "r \<noteq> Inr True" "m' = m" "env w' = env w"
      "\<And>q. balance (lock_delta q) w' = balance (lock_delta q) w"
    | (fast) w1 rc w2 r where "env w1 = env w" "\<And>q. balance (lock_delta q) w1 = balance (lock_delta q) w"
        "run (posixipc_mutex_trylock (m_lock m)) w1 = (rc, w2)" "oc = Returned r"
        "run (posixipc_mutex_after_lock m rc) w2 = ((r, m'), w')"
    | (block) w1 opts w2 where "run (mutex_parse m args kws) (after w (Py Type_GetModule)) = (Inr opts, w1)"
        "run (posixipc_mutex_trylock (m_lock m)) w1 = (EBUSY, w2)"
        "env w2 = env w" "\<And>q. balance (lock_delta q) w2 = balance (lock_delta q) w"
        "run (mutex_block fl fuel g m opts) w2 = ((oc, m', g'), w')"
proof -
  let ?w0 = "after w (Py Type_GetModule)"
  have s0: "run posixipc_state_from_obj w = (None, ?w0)" by (rule run_state_from [OF mf])
  obtain p w1 where p: "run (mutex_parse m args kws) ?w0 = (p, w1)" by fastforce
  have e1: "env w1 = env w" and b1: "\<And>q. balance (lock_delta q) w1 = balance (lock_delta q) w"
    using keepsD [OF keeps_mutex_parse p] by auto
  show thesis
  proof (cases p)
    case (Inl e)
    with run s0 p e1 b1 early show thesis by (auto simp: mutex_acquire_def run_bind run_ret)
  next
    case (Inr opts)
    obtain rc w2 where tl: "run (posixipc_mutex_trylock (m_lock m)) w1 = (rc, w2)" by fastforce
    have tk: "rc = EBUSY \<Longrightarrow> env w2 = env w" "rc = EBUSY \<Longrightarrow> balance (lock_delta q) w2 = balance (lock_delta q) w" for q
      using mutex_trylock_run [OF tl, of q] e1 b1 [of q] by (simp_all add: got_def)
    from run s0 p Inr tl consider
        "rc \<noteq> EBUSY" "\<exists>r. oc = Returned r \<and> run (posixipc_mutex_after_lock m rc) w2 = ((r, m'), w')"
      | "rc = EBUSY" "oc = Returned (Inr False)" "m' = m" "w' = w2"
      | "rc = EBUSY" "run (mutex_block fl fuel g m opts) w2 = ((oc, m', g'), w')"
      by (auto simp: mutex_acquire_def run_bind run_ret run_if split: if_splits prod.splits)
    then show thesis
    proof cases
      case 1
      then show thesis using fast e1 b1 tl by blast
    next
      case 2
      then show thesis using early tk by simp
    next
      case 3
      then show thesis using block [of opts w1 w2] p Inr tl tk by auto
    qed
  qed
qed

text \<open>
  C8. \<^verbatim>\<open>Mutex.acquire\<close> holds the lock exactly when it returns True: then the thread has taken the mutex
  once more and the handle is marked locked. When it returns False the handle is unchanged, when
  it raises the handle is unchanged or marked unlocked, and in both cases the thread holds every
  mutex as often as before, also after the recovery of a dead owner failed.
\<close>

theorem mutex_acquire_contract:
  assumes "module_found w" and "clock_errors w"
    and "run (mutex_acquire fl fuel g m args kws) w = ((Returned r, m', g'), w')"
  shows "balance (lock_delta q) w' = balance (lock_delta q) w + (if m_lock m = Some q \<and> r = Inr True then 1 else 0) \<and>
         (r = Inr True \<longrightarrow> m' = m\<lparr>m_locked := True\<rparr>) \<and> (r = Inr False \<longrightarrow> m' = m) \<and>
         (\<forall>e. r = Inl e \<longrightarrow> m' = m \<or> m' = m\<lparr>m_locked := False\<rparr>)"
proof -
  have "acquire_post EBUSY w m r m' w'"
    using assms(3,1)
  proof (cases rule: mutex_acquire_cases)
    case (early r2)
    then show ?thesis by (simp add: acquire_post_plain got_def)
  next
    case (fast w1 rc w2 r2)
    note t = mutex_trylock_run [OF fast(3)]
    have "module_found w2" using assms(1) t fast(1) by (simp add: module_found_def)
    from acquire_post_seq [OF _ _ after_lock_post [OF this]] t fast show ?thesis by simp
  next
    case (block w1 opts w2)
    have "module_found w2" "clock_errors w2" using assms(1,2) block(3) by (simp_all add: module_found_def clock_errors_def)
    from mutex_block_post [OF this block(5)] block(3,4) show ?thesis by (simp add: acquire_post_def)
  qed
  then show ?thesis by (auto simp: acquire_post_def got_def split: sum.splits bool.splits)
qed

section \<open>Timed acquires return\<close>

text \<open>Time goes on: every deadline is eventually behind every reading of its clock.\<close>

definition time_passes :: "world \<Rightarrow> bool" where
  "time_passes w \<longleftrightarrow> (\<forall>d. \<exists>n. clock_passes w d n)"

lemma time_passes_env: "env w' = env w \<Longrightarrow> time_passes w' = time_passes w"
  by (simp add: time_passes_def clock_passes_def)

lemma deadline_given:
  "run (posixipc_deadline_from_seconds fl clk q (Some d0)) w = (Some (0, u), w') \<Longrightarrow> \<exists>d. u = Some d"
  by (auto simp: posixipc_deadline_from_seconds_def add_seconds_def io_simps Let_def
      split: if_splits option.splits dbl.splits)

text \<open>The timeout object is a number that fits \<^verbatim>\<open>time_t\<close>, or one that is refused.\<close>

definition timeout_fits :: "world \<Rightarrow> pyobj \<Rightarrow> bool" where
  "timeout_fits w ob \<longleftrightarrow> (\<forall>h. case a_dbl (env w h (Py (AsDouble ob))) of NaN \<Rightarrow> True | Inf neg \<Rightarrow> neg | Fin q \<Rightarrow> q < 2 ^ 63)"

lemma deadline_defined:
  assumes "q < 2 ^ 63"
  shows "fst (run (posixipc_deadline_from_seconds fl clk (Fin q) (Some d0)) w) \<noteq> None"
proof (cases "q < 0")
  case False
  then have "0 \<le> trunc_to_zero q" "trunc_to_zero q < 2 ^ 63" using assms by (simp_all add: trunc_to_zero_def floor_less_iff)
  then show ?thesis
    by (auto simp: posixipc_deadline_from_seconds_def add_seconds_def to_time_t_def io_simps Let_def split: prod.split)
qed (simp add: posixipc_deadline_from_seconds_def dbl_neg_def io_simps)

lemma mutex_block_returns:
  assumes tp: "time_passes w" and to: "\<not> timeout_none opts" "timeout opts = Fin s" "s < 2 ^ 63"
  shows "\<exists>N. \<forall>fuel \<ge> N. \<exists>r. fst (fst (run (mutex_block fl fuel g m opts) w)) = Returned r"
proof -
  obtain clk0 g0 w0 where c0: "run (posixipc_mutex_clock g) w = ((clk0, g0), w0)" by (metis prod_cases3 surj_pair)
  obtain d w1 where d: "run (posixipc_deadline_from_seconds fl clk0 (timeout opts) (Some deadline0)) w0 = (d, w1)" by fastforce
  obtain rc u where du: "d = Some (rc, u)" using deadline_defined [OF to(3), of fl clk0 deadline0 w0] d to(2) by auto
  obtain clk g2 w2 where c: "run (posixipc_mutex_clock g0) w1 = ((clk, g2), w2)" by (metis prod_cases3 surj_pair)
  have e2: "env w2 = env w"
    using keepsD(1) [OF keeps_mutex_clock [OF lock_like_delta] c] keepsD(1) [OF keeps_deadline [OF lock_like_delta] d]
      keepsD(1) [OF keeps_mutex_clock [OF lock_like_delta] c0] by simp
  show ?thesis
  proof (cases "rc = 0")
    case False
    then have "fst (fst (run (mutex_block fl fuel g m opts) w)) = Returned (Inl (raise_err rc))" for fuel
      using to(1) c0 d du by (simp add: mutex_block_def run_bind run_ret)
    then show ?thesis by blast
  next
    case True
    then obtain ud where u: "u = Some ud" using deadline_given d du by blast
    obtain n where "clock_passes w2 ud n" using tp e2 by (auto simp: time_passes_def clock_passes_def)
    note ends = mutex_wait.blocking_wait_ends [OF this]
    have "\<exists>r. fst (fst (run (mutex_block fl fuel g m opts) w)) = Returned r" if "Suc n \<le> fuel" for fuel
      using ends [of fuel "m_lock m" "interruptible opts" clk g2] that to(1) c0 d du u c True
      by (auto simp: mutex_block_def run_bind run_ret split: prod.splits option.splits)
    then show ?thesis by blast
  qed
qed

text \<open>Calls of a timed acquire: none that blocks without a deadline.\<close>

abbreviation (input) bounded_call :: "syscall \<Rightarrow> bool" where "bounded_call s \<equiv> \<not> may_hang s"

lemma only_sum: "(\<And>y. only Q (g y)) \<Longrightarrow> (\<And>y. only Q (f y)) \<Longrightarrow> only Q (case x of Inl y \<Rightarrow> g y | Inr y \<Rightarrow> f y)"
  by (cases x) simp_all

lemma only_call_rc: "Q c \<Longrightarrow> only Q (call_rc c)" and only_call_errno: "Q c \<Longrightarrow> only Q (call_errno c)"
  unfolding call_rc_def call_errno_def by (intro only_rules; assumption)+

lemmas bounded_rules = only_rules only_sum only_call_rc only_call_errno

lemma bounded_state: "only bounded_call posixipc_state_from_obj"
  unfolding posixipc_state_from_obj_def posixipc_state_from_type_def by (intro bounded_rules) simp_all

lemma bounded_keywords: "only bounded_call (parse_keywords n kws tobj bl it)"
proof (induction kws arbitrary: tobj bl it)
  case (Cons kv kws)
  obtain k v where kv: "kv = (k, v)" by fastforce
  show ?case unfolding kv parse_keywords.simps by (intro bounded_rules Cons) simp_all
qed (simp add: only_ret)

lemma bounded_mutex_parse: "only bounded_call (mutex_parse m args kws)"
  unfolding mutex_parse_def parse_timeout_def by (intro bounded_rules bounded_keywords) simp_all

lemma bounded_locks:
  "only bounded_call (posixipc_mutex_trylock lo)" "only bounded_call (posixipc_mutex_unlock lo)" "only bounded_call (posixipc_mutex_consistent lo)"
  unfolding posixipc_mutex_trylock_def posixipc_mutex_unlock_def posixipc_mutex_consistent_def by (intro bounded_rules; simp)+

lemma bounded_after_lock: "only bounded_call (posixipc_mutex_after_lock m rc)"
  unfolding posixipc_mutex_after_lock_def by (intro bounded_rules bounded_state bounded_locks; simp)

lemma bounded_clock: "only bounded_call (posixipc_mutex_clock g)"
  unfolding posixipc_mutex_clock_def posixipc_have_mutex_clocklock_def posixipc_clocksym_init_def dlsym_def by (intro bounded_rules) simp_all

lemma bounded_lock_until: "only bounded_call (mutex_lock_until_cb lo g d)"
  unfolding mutex_lock_until_cb_def posixipc_mutex_lock_until_def posixipc_mutex_clocklock_def posixipc_have_mutex_clocklock_def
    posixipc_clocksym_init_def dlsym_def
  by (intro bounded_rules; simp)

lemma bounded_deadline: "only bounded_call (posixipc_deadline_from_seconds fl clk q out)"
  unfolding posixipc_deadline_from_seconds_def by (intro bounded_rules only_now) simp

lemma bounded_wait_loop: "(\<And>s d. only bounded_call (fn s d)) \<Longrightarrow> only bounded_call (wait_loop n fn user clk s)"
proof (induction n arbitrary: s)
  case (Suc n)
  show ?case unfolding wait_loop.simps
    by (intro bounded_rules only_now only_expired only_allow_threads Suc) simp_all
qed (simp add: only_ret)

lemma bounded_wait: "(\<And>s d. only bounded_call (fn s d)) \<Longrightarrow> only bounded_call (posixipc_blocking_wait fuel fn user intr clk s)"
  unfolding posixipc_blocking_wait_def by (intro bounded_rules only_allow_threads bounded_wait_loop) simp_all

lemma bounded_mutex_block:
  assumes "\<not> timeout_none opts"
  shows "only bounded_call (mutex_block fl fuel g m opts)"
proof -
  have "(\<not> interruptible opts \<and> timeout_none opts) = False" using assms by simp
  then show ?thesis unfolding mutex_block_def if_not_P [OF assms] by (simp only: if_False)
    (intro bounded_rules bounded_clock bounded_deadline bounded_wait bounded_lock_until bounded_after_lock)
qed

lemma mutex_parse_timeout:
  assumes "run (mutex_parse m [ob] kws) w = (Inr opts, w')" and "ob \<noteq> Py_None" and "timeout_fits w ob"
  shows "\<not> timeout_none opts \<and> (\<exists>q. timeout opts = Fin q \<and> q < 2 ^ 63)"
proof -
  obtain k w1 where k: "run (parse_keywords 1 kws ob True True) w = (k, w1)" by fastforce
  have e: "env w1 = env w" using keepsD(1) [OF keeps_keywords [OF lock_like_delta] k] .
  obtain tobj bl it where kI: "k = Inr (tobj, bl, it)" and op: "mutex_check_open m = None"
    using assms(1) k by (cases k; cases "mutex_check_open m") (auto simp: mutex_parse_def run_bind run_ret)
  have "tobj = ob" using keywords_keep_positional [of 0 kws ob] k kI by simp
  moreover obtain p w2 where p: "run (parse_timeout tobj) w1 = (p, w2)" by fastforce
  moreover have "case a_dbl (answer_to w1 (Py (AsDouble ob))) of NaN \<Rightarrow> True | Inf neg \<Rightarrow> neg | Fin q \<Rightarrow> q < 2 ^ 63"
    using assms(3) e by (simp add: timeout_fits_def answer_to_def)
  ultimately show ?thesis using assms(1,2) k kI op
    by (cases p) (auto simp: mutex_parse_def run_bind run_ret run_if parse_timeout_def run_call dbl_neg_def split: if_splits dbl.splits)
qed

lemma mutex_acquire_bounded:
  assumes "module_found w" and "ob \<noteq> Py_None" and "timeout_fits w ob"
  shows "\<exists>t. trace (snd (run (mutex_acquire fl fuel g m [ob] kws) w)) = trace w @ t \<and> list_all (\<lambda>x. \<not> may_hang (fst x)) t"
proof -
  let ?w0 = "after w (Py Type_GetModule)"
  have s0: "run posixipc_state_from_obj w = (None, ?w0)" by (rule run_state_from [OF assms(1)])
  obtain p w1 where p: "run (mutex_parse m [ob] kws) ?w0 = (p, w1)" by fastforce
  have "\<not> timeout_none opts" if "p = Inr opts" for opts
    using mutex_parse_timeout [OF _ assms(2)] p that assms(3) by (simp add: timeout_fits_def)
  then have "only bounded_call (case p of Inl e \<Rightarrow> ret (Returned (Inl e), m, g) | Inr opts \<Rightarrow> do {
         rc \<leftarrow> posixipc_mutex_trylock (m_lock m);
         if rc \<noteq> EBUSY then do {
           (r, m) \<leftarrow> posixipc_mutex_after_lock m rc;
           ret (Returned r, m, g) }
         else if \<not> blocking opts \<or> (\<not> timeout_none opts \<and> timeout opts = Fin 0)
         then ret (Returned (Inr False), m, g)
         else mutex_block fl fuel g m opts })" (is "only _ ?rest")
    by (cases p) (simp add: only_ret, simp only: sum.case,
      intro only_bind only_if only_prod only_ret bounded_locks bounded_after_lock bounded_mutex_block, simp)
  moreover have "run (mutex_acquire fl fuel g m [ob] kws) w = run ?rest w1"
    using s0 p by (simp add: mutex_acquire_def run_bind)
  ultimately have "\<exists>t. trace (snd (run (mutex_acquire fl fuel g m [ob] kws) w)) = trace w1 @ t \<and> (\<forall>x \<in> set t. \<not> may_hang (fst x))"
    by (simp add: only_def)
  then obtain t where "trace (snd (run (mutex_acquire fl fuel g m [ob] kws) w)) = trace w1 @ t" "\<forall>x \<in> set t. \<not> may_hang (fst x)" by blast
  moreover obtain t0 where "trace ?w0 = trace w @ t0" "\<forall>x \<in> set t0. \<not> may_hang (fst x)" using only_run [OF bounded_state s0] by blast
  moreover obtain t1 where "trace w1 = trace ?w0 @ t1" "\<forall>x \<in> set t1. \<not> may_hang (fst x)" using only_run [OF bounded_mutex_parse p] by blast
  ultimately show ?thesis by (intro exI [of _ "t0 @ t1 @ t"]) (auto simp: list_all_iff)
qed


section \<open>No wait outlives its deadline\<close>

text \<open>A timed lock call is on the clock of \<open>u\<close> and waits no longer than \<open>u\<close>.\<close>

fun lock_within :: "posixipc_deadline \<Rightarrow> syscall \<Rightarrow> bool" where
  "lock_within u (Mutex (Mutex_clocklock p clk ts)) = no_later \<lparr>d_clk = clk, d_ts = ts\<rparr> u"
| "lock_within u (Mutex (Mutex_timedlock p ts)) = no_later \<lparr>d_clk = CLOCK_REALTIME, d_ts = ts\<rparr> u"
| "lock_within u (Mutex (Mutex_lock p)) = False"
| "lock_within u _ = True"

lemma lock_until_within:
  assumes "no_later d u"
  shows "only (lock_within u) (mutex_lock_until_cb lo g d)"
proof (cases lo)
  case None
  then show ?thesis by (simp add: mutex_lock_until_cb_def posixipc_mutex_lock_until_def only_ret)
next
  case (Some p)
  have 1: "lock_within u (Mutex (Mutex_clocklock p (d_clk d) (d_ts d)))"
    and 2: "d_clk d = CLOCK_REALTIME \<Longrightarrow> lock_within u (Mutex (Mutex_timedlock p (d_ts d)))"
    using assms by (simp_all add: no_later_def)
  have i: "only (lock_within u) (posixipc_clocksym_init g)" for g
    unfolding posixipc_clocksym_init_def dlsym_def by (intro only_rules) simp_all
  have t: "only (lock_within u) (if d_clk d \<noteq> CLOCK_REALTIME then ret (EINVAL, g)
      else do { rc \<leftarrow> call_rc (Mutex (Mutex_timedlock p (d_ts d))); ret (rc, g) })" for g
    unfolding call_rc_def using 2 by (cases "d_clk d = CLOCK_REALTIME") (auto intro!: only_rules)
  show ?thesis
    unfolding mutex_lock_until_cb_def posixipc_mutex_lock_until_def Some prod.case option.case
      posixipc_have_mutex_clocklock_def posixipc_mutex_clocklock_def call_rc_def [of "Mutex (Mutex_clocklock p c ts)" for c ts]
    by (intro only_rules i t 1)
qed

text \<open>
  While it waits with a deadline, the sliced wait of a mutex makes only timed lock calls, each on
  the clock of the deadline and none that waits past it, so neither the slices nor the fallback to
  \<^verbatim>\<open>pthread_mutex_timedlock\<close> mix clocks or extend the timeout.
\<close>

theorem mutex_wait_within_deadline:
  "\<exists>t. trace (snd (run (posixipc_blocking_wait fuel (mutex_lock_until_cb lo) (Some u) intr clk g) w)) = trace w @ t \<and>
       list_all (\<lambda>x. lock_within u (fst x)) t"
  using blocking_wait_only [of u "lock_within u" "mutex_lock_until_cb lo", OF lock_until_within, of fuel intr clk g]
  unfolding only_def list_all_iff by simp

section \<open>Handles and pins\<close>

lemma closed_pins [simp]: "shm_is_closed (r\<lparr>s_pins := n\<rparr>) = shm_is_closed r"
  by (simp add: shm_is_closed_def)

lemma pin_unpin [simp]: "posixipc_shmobj_unpin (r\<lparr>s_pins := s_pins r + 1\<rparr>) = r"
  by (simp add: posixipc_shmobj_unpin_def)

lemma run_pin_region:
  "run (pin_region H r) w =
     (case run posixipc_state_from_obj w of (_, w1) \<Rightarrow>
        ((if shm_is_closed (H r) then (Some ClosedError, H) else (None, H(r := (H r)\<lparr>s_pins := s_pins (H r) + 1\<rparr>))), w1))"
  by (auto simp: pin_region_def posixipc_shmobj_pin_def posixipc_raise_closed_def io_simps Let_def fun_upd_idem split: prod.split)

lemma mutex_bind_post:
  assumes "run (posixipc_mutex_bind m H r slot index do_init) w = ((e, m', H'), w')"
  shows "(e \<noteq> None \<longrightarrow> m' = m \<and> H' = H) \<and>
         (e = None \<longrightarrow> \<not> shm_is_closed (H r) \<and> H' = H(r := (H r)\<lparr>s_pins := s_pins (H r) + 1\<rparr>) \<and>
            m_region m' = Some r \<and> m_flags m' = m_flags m OR (FLAG_BOUND OR FLAG_PROCESS_SHARED) \<and>
            m_locked m' = m_locked m)"
proof -
  obtain st w1 where st: "run posixipc_state_from_obj w = (st, w1)" by fastforce
  obtain rc ptr w2 where p: "run (region_ptr (H r) (s_offset slot) (s_size slot) (ucast (s_align slot))) w1 = ((rc, ptr), w2)"
    by (metis prod_cases3 surj_pair)
  obtain rc2 w3 where i: "run (if do_init then posixipc_mutex_init ptr (Some (s_init_flags slot)) else ret 0) w2 = (rc2, w3)"
    by fastforce
  obtain st2 w4 where st2: "run posixipc_state_from_obj w3 = (st2, w4)" by fastforce
  show ?thesis using assms st p i st2
    by (cases st) (auto simp: posixipc_mutex_bind_def run_bind run_ret run_if run_pin_region split: if_splits)
qed

lemma keeps_step_if: "(\<And>a. \<delta> c a = 0) \<Longrightarrow> keeps \<delta> (step_if b c rc)"
  unfolding step_if_def by (intro keeps_rules)

lemma keeps_mutex_init: "(\<And>c a. \<delta> (Mutex c) a = 0) \<Longrightarrow> keeps \<delta> (posixipc_mutex_init p cfg)"
  unfolding posixipc_mutex_init_def by (intro keeps_rules keeps_step_if)

lemma keeps_region_ptr: "(\<And>c a. \<delta> (Mem c) a = 0) \<Longrightarrow> keeps \<delta> (region_ptr ob off sz al)"
  unfolding region_ptr_def by (intro keeps_rules)

lemma keeps_pin_region: "lock_like \<delta> \<Longrightarrow> keeps \<delta> (pin_region H r)"
  unfolding pin_region_def posixipc_shmobj_pin_def by (intro keeps_rules keeps_state_from)

text \<open>The balance of nothing: what remains is that the environment stays the same.\<close>

lemma lock_like_zero: "lock_like (\<lambda>_ _. 0)"
  by (simp add: lock_like_def)

lemma mutex_bind_env:
  assumes "run (posixipc_mutex_bind m H r slot index do_init) w = (x, w')"
  shows "env w' = env w"
proof -
  have "keeps (\<lambda>_ _. 0) (posixipc_mutex_bind m H r slot index do_init)"
    unfolding posixipc_mutex_bind_def
    by (intro keeps_rules keeps_mutex_init keeps_region_ptr keeps_pin_region keeps_state_from lock_like_zero refl)
  from keepsD(1) [OF this assms] show ?thesis .
qed

lemma mutex_close_post:
  assumes "module_found w" and "\<not> mutex_flags_closed (m_flags m)"
    and "run (mutex_close m H) w = ((r, m', H'), w')"
  shows "r = Inr () \<and> m_region m' = None \<and> m_lock m' = None \<and> mutex_flags_closed (m_flags m') \<and>
         H' = (case m_region m of None \<Rightarrow> H | Some a \<Rightarrow> unpin_region H a)"
  using assms(2,3) run_state_from [OF assms(1)]
  by (cases "m_region m"; cases "m_lock m")
    (auto simp: mutex_close_def mutex_flags_closed_def posixipc_mutex_unlock_def posixipc_mutex_destroy_def
      run_bind run_ret run_if run_call_rc Let_def split: if_splits)

text \<open>
  A handle holds exactly one pin of its segment: binding a handle that is not bound adds one pin
  to an open segment and none when it fails, closing the handle takes the pin away and leaves all
  segment objects as they were before the binding, and afterwards every operation is refused
  with ClosedError; closing again changes nothing.
\<close>

theorem mutex_bind_close_roundtrip:
  assumes "module_found w" and "\<not> flag_set (m_flags m) FLAG_CLOSED"
    and "run (posixipc_mutex_bind m H r slot index do_init) w = ((e, m1, H1), w')"
    and "run (mutex_close m1 H1) w' = ((c, m2, H2), w2)"
  shows "(e = None \<longrightarrow> s_pins (H1 r) = s_pins (H r) + 1 \<and> H2 = H \<and> mutex_check_open m2 = Some ClosedError \<and>
            run (mutex_close m2 H2) w' = ((Inr (), m2, H2), after w' (Py Type_GetModule))) \<and>
         (e \<noteq> None \<longrightarrow> H1 = H \<and> m1 = m)"
proof -
  note b = mutex_bind_post [OF assms(3)]
  have mf: "module_found w'" using assms(1) mutex_bind_env [OF assms(3)] by (simp add: module_found_def)
  have "\<not> flag_set (m_flags m OR (FLAG_BOUND OR FLAG_PROCESS_SHARED)) FLAG_CLOSED"
    using assms(2) by (simp add: flag_set_def bit.conj_disj_distrib2)
  then have "e = None \<Longrightarrow> \<not> mutex_flags_closed (m_flags m1)" using b by (simp add: mutex_flags_closed_def)
  note c = mutex_close_post [OF mf this assms(4)]
  show ?thesis
    using b c run_state_from [OF mf]
    by (auto simp: unpin_region_def mutex_check_open_def posixipc_raise_closed_def mutex_close_def run_bind run_ret)
qed

text \<open>
  Binding a handle that is already bound leaks a pin: after a second binding to the same segment
  and one close, the segment is still pinned and can never be closed without force.
\<close>

theorem mutex_rebind_leaks_pin:
  assumes "module_found w" and "\<not> flag_set (m_flags m) FLAG_CLOSED"
    and "run (posixipc_mutex_bind m H r slot index False) w = ((None, m1, H1), w1)"
    and "run (posixipc_mutex_bind m1 H1 r slot index False) w1 = ((None, m2, H2), w2)"
    and "run (mutex_close m2 H2) w2 = ((c, m3, H3), w3)"
  shows "m_region m3 = None \<and> s_pins (H3 r) = s_pins (H r) + 1"
proof -
  note b1 = mutex_bind_post [OF assms(3)] and b2 = mutex_bind_post [OF assms(4)]
  have "\<not> flag_set ((m_flags m OR (FLAG_BOUND OR FLAG_PROCESS_SHARED)) OR (FLAG_BOUND OR FLAG_PROCESS_SHARED)) FLAG_CLOSED"
    using assms(2) by (simp add: flag_set_def bit.conj_disj_distrib2)
  then have "\<not> mutex_flags_closed (m_flags m2)" using b1 b2 by (simp add: mutex_flags_closed_def)
  moreover have "module_found w2" using assms(1) mutex_bind_env [OF assms(3)] mutex_bind_env [OF assms(4)] by (simp add: module_found_def)
  ultimately show ?thesis
    using mutex_close_post [OF _ _ assms(5)] b1 b2 by (simp add: unpin_region_def posixipc_shmobj_unpin_def)
qed

section \<open>Concrete runs\<close>

definition demo_mutex :: PosixIPCMutexObject where
  "demo_mutex = \<lparr>m_lock = Some 7, m_region = None, m_slot = 0, m_kind = KIND_MUTEX, m_align = 8, m_offset = 0, m_size = 40,
     m_init_flags = 0, m_flags = FLAG_BOUND, m_locked = False, m_inline_storage = 7, m_on_owner_died = None\<rparr>"

lemma py_module: "module_found py_world"
  by (simp add: module_found_def py_world_def answer0_def)

lemma py_clock: "clock_errors py_world"
  by (simp add: clock_errors_def py_world_def answer0_def)

theorem mutex_acquire_contract_witness:
  "\<exists>m' g' w'. run (mutex_acquire (\<lambda>x. x) 1 clocksym0 demo_mutex [] []) py_world = ((Returned (Inr True), m', g'), w') \<and>
     m_locked m' \<and> balance (lock_delta 7) w' = balance (lock_delta 7) py_world + 1"
proof -
  obtain m' g' w' where r: "run (mutex_acquire (\<lambda>x. x) 1 clocksym0 demo_mutex [] []) py_world = ((Returned (Inr True), m', g'), w')"
    by (simp add: mutex_acquire_def mutex_parse_def parse_timeout_def mutex_check_open_def mutex_flags_closed_def
        flag_set_def demo_mutex_def posixipc_mutex_trylock_def posixipc_mutex_after_lock_def posixipc_state_from_obj_def
        posixipc_state_from_type_def io_simps answer_to_py answer0_def)
  have "m_lock demo_mutex = Some 7" by (simp add: demo_mutex_def)
  with mutex_acquire_contract [OF py_module py_clock r, of 7] r show ?thesis by auto
qed

text \<open>A world whose clock counts the calls made and in which the lock stays taken.\<close>

fun busy_env :: "history \<Rightarrow> syscall \<Rightarrow> answer" where
  "busy_env h (Clock_gettime clk) = answer0\<lparr>a_ts := \<lparr>tv_sec = int (length h), tv_nsec = 0\<rparr>\<rparr>"
| "busy_env h (Mutex (Mutex_trylock p)) = answer0\<lparr>a_ret := EBUSY\<rparr>"
| "busy_env h (Mutex (Mutex_clocklock p clk ts)) = answer0\<lparr>a_ret := ETIMEDOUT\<rparr>"
| "busy_env h (Py (AsDouble ob)) = answer0\<lparr>a_dbl := Fin 1\<rparr>"
| "busy_env h c = answer0"

definition busy_world :: world where
  "busy_world = \<lparr>env = busy_env, trace = []\<rparr>"

lemma busy_time: "time_passes busy_world"
  unfolding time_passes_def
proof
  fix d
  show "\<exists>n. clock_passes busy_world d n"
    by (rule exI [of _ "Suc (nat (tv_sec (d_ts d)))"])
      (auto simp: clock_passes_def busy_world_def answer0_def Let_def)
qed


definition demo_regions :: regions where
  "demo_regions = (\<lambda>_. demo_segment)"

definition demo_slot :: posixipc_slot where
  "demo_slot = \<lparr>s_kind = KIND_MUTEX, s_align = 8, s_offset = 96, s_size = 40, s_init_flags = FLAG_PROCESS_SHARED\<rparr>"

fun mapped_answer :: "syscall \<Rightarrow> answer" where
  "mapped_answer (Mem (Load_header p)) = answer0\<lparr>a_hdr := (a_hdr answer0)\<lparr>h_total_size := 4096\<rparr>\<rparr>"
| "mapped_answer c = answer0"

definition mapped_world :: world where
  "mapped_world = \<lparr>env = \<lambda>h. mapped_answer, trace = []\<rparr>"

lemma answer_to_mapped: "env w = env mapped_world \<Longrightarrow> answer_to w c = mapped_answer c"
  by (simp add: answer_to_def mapped_world_def)

lemma mapped_module: "module_found mapped_world"
  by (simp add: module_found_def mapped_world_def answer0_def)

lemma demo_bind:
  assumes "env w = env mapped_world" and "\<not> shm_is_closed (H 5)" and "s_core (H 5) = s_core demo_segment"
  shows "\<exists>m' H' w'. run (posixipc_mutex_bind m H 5 demo_slot 0 False) w = ((None, m', H'), w')"
  using assms
  by (simp add: posixipc_mutex_bind_def region_ptr_def posixipc_shm_offset_ptr_def demo_segment_def demo_slot_def
      posixipc_state_from_obj_def posixipc_state_from_type_def run_pin_region io_simps Let_def answer_to_mapped answer0_def)

definition fresh_mutex :: PosixIPCMutexObject where
  "fresh_mutex = demo_mutex\<lparr>m_lock := None, m_flags := FLAG_PROCESS_SHARED\<rparr>"

lemma demo_open: "\<not> shm_is_closed (demo_regions 5)" "s_core (demo_regions 5) = s_core demo_segment"
  "\<not> flag_set (m_flags fresh_mutex) FLAG_CLOSED"
  by (simp_all add: demo_regions_def demo_segment_def shm_is_closed_def flag_set_def fresh_mutex_def)

theorem mutex_bind_close_roundtrip_witness:
  "\<exists>m1 H1 w1. run (posixipc_mutex_bind fresh_mutex demo_regions 5 demo_slot 0 False) mapped_world = ((None, m1, H1), w1) \<and>
     s_pins (H1 5) = 1 \<and> snd (snd (fst (run (mutex_close m1 H1) w1))) = demo_regions"
proof -
  obtain m1 H1 w1 where b: "run (posixipc_mutex_bind fresh_mutex demo_regions 5 demo_slot 0 False) mapped_world = ((None, m1, H1), w1)"
    using demo_bind [of mapped_world demo_regions] demo_open by blast
  obtain c m2 H2 w2 where c: "run (mutex_close m1 H1) w1 = ((c, m2, H2), w2)" by (metis prod_cases4 surj_pair)
  from mutex_bind_close_roundtrip [OF mapped_module demo_open(3) b c] b c show ?thesis
    by (simp add: demo_regions_def demo_segment_def)
qed

theorem mutex_rebind_leaks_pin_witness:
  "\<exists>m1 H1 w1 m2 H2 w2. run (posixipc_mutex_bind fresh_mutex demo_regions 5 demo_slot 0 False) mapped_world = ((None, m1, H1), w1) \<and>
     run (posixipc_mutex_bind m1 H1 5 demo_slot 0 False) w1 = ((None, m2, H2), w2) \<and>
     s_pins (snd (snd (fst (run (mutex_close m2 H2) w2))) 5) = 1"
proof -
  obtain m1 H1 w1 where b: "run (posixipc_mutex_bind fresh_mutex demo_regions 5 demo_slot 0 False) mapped_world = ((None, m1, H1), w1)"
    using demo_bind [of mapped_world demo_regions] demo_open by blast
  have "\<not> shm_is_closed (H1 5)" "s_core (H1 5) = s_core demo_segment"
    using mutex_bind_post [OF b] demo_open(1,2) by simp_all
  then obtain m2 H2 w2 where b2: "run (posixipc_mutex_bind m1 H1 5 demo_slot 0 False) w1 = ((None, m2, H2), w2)"
    using demo_bind [of w1 H1] mutex_bind_env [OF b] by blast
  obtain c m3 H3 w3 where c: "run (mutex_close m2 H2) w2 = ((c, m3, H3), w3)" by (metis prod_cases4 surj_pair)
  from mutex_rebind_leaks_pin [OF mapped_module demo_open(3) b b2 c] b b2 c show ?thesis
    by (simp add: demo_regions_def demo_segment_def)
qed

section \<open>Facts about locks for the other types\<close>

text \<open>
  A condition wait on a robust mutex can answer ENOTRECOVERABLE: then it returns without the mutex.
  \<open>lost_delta\<close> counts these waits, and \<open>call_delta\<close> what the lock and unlock calls alone add.
\<close>

fun lost_delta :: "addr \<Rightarrow> syscall \<Rightarrow> answer \<Rightarrow> int" where
  "lost_delta q (Cond (Cond_wait cv p)) a = (if p = q \<and> a_ret a = ENOTRECOVERABLE then 1 else 0)"
| "lost_delta q (Cond (Cond_timedwait cv p ts)) a = (if p = q \<and> a_ret a = ENOTRECOVERABLE then 1 else 0)"
| "lost_delta q _ a = 0"

definition call_delta :: "addr \<Rightarrow> syscall \<Rightarrow> answer \<Rightarrow> int" where
  "call_delta q c a = lock_delta q c a + lost_delta q c a"

lemma lock_like_lost: "lock_like (lost_delta q)" and lock_like_call: "lock_like (call_delta q)"
  by (simp_all add: lock_like_def call_delta_def)

lemma call_delta_quiet:
  "call_delta q (Cond c) a = 0" "call_delta q (Mutex (Mutex_consistent p)) a = 0" "call_delta q (Py y) a = 0"
  by (cases c; simp add: call_delta_def) (simp_all add: call_delta_def)

lemma balance_call: "balance (call_delta q) w = balance (lock_delta q) w + balance (lost_delta q) w"
  by (simp add: balance_def call_delta_def sum_list_addf split_def)

lemma effect_call_lock:
  "effect E (call_delta p) (\<lambda>rc. if lo = Some p then got rc else 0) (posixipc_mutex_lock lo)"
  by (cases lo) (auto simp: effect_def posixipc_mutex_lock_def io_simps call_delta_def)

lemma effect_call_unlock: "effect E (call_delta p) (\<lambda>_. if lo = Some p then - 1 else 0) (posixipc_mutex_unlock lo)"
  by (cases lo) (auto simp: effect_def posixipc_mutex_unlock_def io_simps call_delta_def)

lemma effect_mutex_lock:
  "effect E (lock_delta p) (\<lambda>rc. if lo = Some p then got rc else 0) (posixipc_mutex_lock lo)"
  by (cases lo) (auto simp: effect_def posixipc_mutex_lock_def io_simps)

lemma effect_mutex_unlock: "effect E (lock_delta p) (\<lambda>_. if lo = Some p then - 1 else 0) (posixipc_mutex_unlock lo)"
  by (cases lo) (auto simp: effect_def posixipc_mutex_unlock_def io_simps)

lemma keeps_mutex_consistent: "(\<And>c a. \<delta> (Mutex (Mutex_consistent c)) a = 0) \<Longrightarrow> keeps \<delta> (posixipc_mutex_consistent lo)"
  unfolding posixipc_mutex_consistent_def by (intro keeps_rules)

lemma keeps_mutex_unlock: "(\<And>c a. \<delta> (Mutex c) a = 0) \<Longrightarrow> keeps \<delta> (posixipc_mutex_unlock lo)"
  unfolding posixipc_mutex_unlock_def by (intro keeps_rules)

lemma keeps_cond_broadcast: "(\<And>c a. \<delta> (Cond (Cond_broadcast c)) a = 0) \<Longrightarrow> keeps \<delta> (posixipc_cond_broadcast cv)"
  unfolding posixipc_cond_broadcast_def by (intro keeps_rules)

lemma keeps_cond_signal: "(\<And>c a. \<delta> (Cond (Cond_signal c)) a = 0) \<Longrightarrow> keeps \<delta> (posixipc_cond_signal cv)"
  unfolding posixipc_cond_signal_def by (intro keeps_rules)

lemma keeps_parse_acquire: "lock_like \<delta> \<Longrightarrow> keeps \<delta> (posixipc_parse_acquire args kws)"
  unfolding posixipc_parse_acquire_def by (intro keeps_rules keeps_keywords keeps_timeout)

definition clock_ok :: "(history \<Rightarrow> syscall \<Rightarrow> answer) \<Rightarrow> bool" where
  "clock_ok e \<longleftrightarrow> clock_errors \<lparr>env = e, trace = []\<rparr>"

lemma clock_okI: "clock_errors w \<Longrightarrow> clock_ok (env w)"
  by (simp add: clock_ok_def clock_errors_def)

lemma clock_okD: "clock_ok (env w) \<Longrightarrow> clock_errors w"
  by (simp add: clock_ok_def clock_errors_def)

lemma flag_set_or: "flag_set (a OR b) f \<longleftrightarrow> flag_set a f \<or> flag_set b f"
  by (simp add: flag_set_def bit.conj_disj_distrib2 or_eq_0_iff)

end
