(* ===== verification/QueueObj.thy ===== *)
theory QueueObj
  imports MutexObj Queue
begin

text \<open>
  Python queue objects (\<^verbatim>\<open>src/src/bindings/py_queue.c\<close>): the ring buffer of a segment under its
  robust mutex, with the condition variables a full or an empty queue waits on, the recovery
  of a dead owner, binding to the five slots of a queue, closing, pickling and the accessors.
  The ring behind a view is passed along; what other processes make of it while the caller does not
  hold the lock is the parameter \<open>others\<close>. The lemmas show that put stores one item exactly when
  it returns True, that get removes one exactly when it returns one (or cannot build the bytes
  object), and that lock, buffer and scratch memory are given back on every path.
\<close>

section \<open>Objects\<close>

record PosixIPCQueueObject =
  qo_put_lock :: "addr option"
  qo_get_lock :: "addr option"
  qo_not_full :: "addr option"
  qo_not_empty :: "addr option"
  qo_region :: "addr option"
  qo_first_slot :: u32
  qo_depth :: u32
  qo_item_size :: u32
  qo_cond_flags :: u32
  qo_view :: posixipc_queue_view
  qo_flags :: u32

text \<open>
  The ring as a thread finds it after it took the lock. Other processes may have changed it in any
  way; what they did may depend on everything that happened so far.
\<close>

type_synonym others = "history \<Rightarrow> ring \<Rightarrow> ring"

definition meanwhile :: "others \<Rightarrow> ring \<Rightarrow> ring io" where
  "meanwhile others m = State (\<lambda>w. (others (trace w) m, w))"

section \<open>Locking and waiting\<close>

definition queue_is_closed :: "PosixIPCQueueObject \<Rightarrow> bool" where
  "queue_is_closed q \<longleftrightarrow> flag_set (qo_flags q) FLAG_CLOSED"

definition queue_check_open :: "PosixIPCQueueObject \<Rightarrow> pyexc option" where
  "queue_check_open q =
     (if flag_set (qo_flags q) FLAG_CLOSED then Some posixipc_raise_closed
      else if \<not> flag_set (qo_flags q) FLAG_BOUND \<or> qo_put_lock q = None \<or> qo_region q = None
      then Some posixipc_raise_unbound
      else None)"

text \<open>The repair both lock paths make after a dead owner; the caller deals with the lock on failure.\<close>

definition queue_repair :: "PosixIPCQueueObject \<Rightarrow> addr option \<Rightarrow> ring \<Rightarrow> (rc \<times> ring) io" where
  "queue_repair q lock m =
     (case posixipc_queue_recover (Some (qo_view q)) m of (rc, m) \<Rightarrow>
        if rc \<noteq> 0 then ret (rc, m)
        else do {
          rc \<leftarrow> posixipc_mutex_consistent lock;
          if rc \<noteq> 0 then ret (rc, m)
          else do {
            _ \<leftarrow> posixipc_cond_broadcast (qo_not_full q);
            _ \<leftarrow> posixipc_cond_broadcast (qo_not_empty q);
            ret (0, m) } })"

definition queue_lock :: "others \<Rightarrow> PosixIPCQueueObject \<Rightarrow> addr option \<Rightarrow> ring \<Rightarrow> (rc \<times> ring) io" where
  "queue_lock others q lock m = do {
     rc \<leftarrow> posixipc_mutex_lock lock;
     m \<leftarrow> meanwhile others m;
     if rc = EOWNERDEAD then do {
       (rc, m) \<leftarrow> queue_repair q lock m;
       if rc \<noteq> 0 then do { _ \<leftarrow> posixipc_mutex_unlock lock; ret (rc, m) }
       else ret (0, m) }
     else ret (rc, m) }"

definition queue_cond_until_cb :: "others \<Rightarrow> addr option \<Rightarrow> addr option \<Rightarrow> ring waitfn" where
  "queue_cond_until_cb others cond lock = (\<lambda>m slice. do {
     rc \<leftarrow> posixipc_cond_wait_until cond lock (Some slice);
     m \<leftarrow> meanwhile others m;
     ret (rc, m) })"

text \<open>The wait itself: one uninterruptible wait, or the sliced one.\<close>

definition queue_sleep ::
    "others \<Rightarrow> nat \<Rightarrow> addr option \<Rightarrow> addr option \<Rightarrow> posixipc_acquire_opts \<Rightarrow> posixipc_deadline option \<Rightarrow> clockid \<Rightarrow> ring \<Rightarrow>
     (rc \<times> ring) option io" where
  "queue_sleep others fuel cond lock opts userp clk m =
     (if \<not> interruptible opts \<and> timeout_none opts then do {
        r \<leftarrow> allow_threads (do { rc \<leftarrow> posixipc_cond_wait cond lock; m \<leftarrow> meanwhile others m; ret (rc, m) });
        ret (Some r) }
      else posixipc_blocking_wait fuel (queue_cond_until_cb others cond lock) userp (interruptible opts) clk m)"

text \<open>An interrupted wait has left its exception pending.\<close>

definition queue_wait_cond ::
    "others \<Rightarrow> (rat \<Rightarrow> rat) \<Rightarrow> nat \<Rightarrow> PosixIPCQueueObject \<Rightarrow> addr option \<Rightarrow> addr option \<Rightarrow> posixipc_acquire_opts \<Rightarrow> ring \<Rightarrow>
     (rc outcome \<times> ring) io" where
  "queue_wait_cond others fl fuel q cond lock opts m =
     (let clk = posixipc_cond_clock (qo_cond_flags q) in do {
        d \<leftarrow> (if timeout_none opts then ret (Some (0, None))
             else posixipc_deadline_from_seconds fl clk (timeout opts) (Some deadline0));
        case d of None \<Rightarrow> ret (Undefined, m) | Some (rc, userp) \<Rightarrow>
          if rc \<noteq> 0 then ret (Returned rc, m)
          else do {
            res \<leftarrow> queue_sleep others fuel cond lock opts userp clk m;
            case res of None \<Rightarrow> ret (Unfinished, m) | Some (rc, m) \<Rightarrow>
              if rc = EOWNERDEAD then do {
                (rc, m) \<leftarrow> queue_repair q lock m;
                ret (Returned rc, m) }
              else ret (Returned rc, m) } })"

section \<open>Put and get\<close>

text \<open>
  The loop of put and get: \<open>Inr True\<close> with the lock held when the queue is ready, otherwise the
  lock has been given back and the call ends with False (or None) or an exception. \<open>n\<close> bounds the
  number of turns, \<open>fuel\<close> the slices of one wait.
\<close>

primrec queue_await ::
    "nat \<Rightarrow> others \<Rightarrow> (rat \<Rightarrow> rat) \<Rightarrow> nat \<Rightarrow> PosixIPCQueueObject \<Rightarrow> (u32 \<Rightarrow> bool) \<Rightarrow> addr option \<Rightarrow> posixipc_acquire_opts \<Rightarrow>
     ring \<Rightarrow> (bool pyres outcome \<times> ring) io" where
  "queue_await 0 others fl fuel q ready cond opts m = ret (Unfinished, m)"
| "queue_await (Suc n) others fl fuel q ready cond opts m =
     (case posixipc_queue_qsize (Some (qo_view q)) m (Some 0) of (rc, num) \<Rightarrow>
        if rc \<noteq> 0 then do {
          _ \<leftarrow> posixipc_mutex_unlock (qo_put_lock q);
          ret (Returned (Inl (raise_err EINVAL)), m) }
        else if ready (the num) then ret (Returned (Inr True), m)
        else if \<not> blocking opts \<or> (\<not> timeout_none opts \<and> timeout opts = Fin 0) then do {
          _ \<leftarrow> posixipc_mutex_unlock (qo_put_lock q);
          ret (Returned (Inr False), m) }
        else do {
          (oc, m) \<leftarrow> queue_wait_cond others fl fuel q cond (qo_put_lock q) opts m;
          case oc of Undefined \<Rightarrow> ret (Undefined, m) | Unfinished \<Rightarrow> ret (Unfinished, m) | Returned rc \<Rightarrow>
            if rc = ETIMEDOUT then do {
              _ \<leftarrow> posixipc_mutex_unlock (qo_put_lock q);
              ret (Returned (Inr False), m) }
            else if rc \<noteq> 0 then do {
              _ \<leftarrow> posixipc_mutex_unlock (qo_put_lock q);
              ret (Returned (Inl (raise_err rc)), m) }
            else queue_await n others fl fuel q ready cond opts m })"

definition lock_error :: "rc \<Rightarrow> pyexc" where
  "lock_error rc = (if rc = ENOTRECOVERABLE then NotRecoverableError else raise_err rc)"

text \<open>From the lock on; the handle and the exported bytes are taken not to change meanwhile.\<close>

definition put_locked ::
    "others \<Rightarrow> (rat \<Rightarrow> rat) \<Rightarrow> nat \<Rightarrow> PosixIPCQueueObject \<Rightarrow> pyobj \<Rightarrow> u8 list \<Rightarrow> posixipc_acquire_opts \<Rightarrow> ring \<Rightarrow>
     (bool pyres outcome \<times> ring) io" where
  "put_locked others fl fuel q data bytes opts m = do {
     (rc, m) \<leftarrow> allow_threads (queue_lock others q (qo_put_lock q) m);
     if rc \<noteq> 0 then do {
       call_ignore (Py (ReleaseBuffer data));
       ret (Returned (Inl (lock_error rc)), m) }
     else do {
       (oc, m) \<leftarrow> queue_await fuel others fl fuel q (\<lambda>n. n < qo_depth q) (qo_not_full q) opts m;
       case oc of Undefined \<Rightarrow> ret (Undefined, m) | Unfinished \<Rightarrow> ret (Unfinished, m) | Returned r \<Rightarrow>
         if r = Inr True then
           (case posixipc_queue_put (Some (qo_view q)) m (Some bytes) of (rc, m) \<Rightarrow> do {
              _ \<leftarrow> posixipc_mutex_unlock (qo_put_lock q);
              call_ignore (Py (ReleaseBuffer data));
              if rc \<noteq> 0 then ret (Returned (Inl (raise_err rc)), m)
              else do {
                _ \<leftarrow> posixipc_cond_signal (qo_not_empty q);
                ret (Returned (Inr True), m) } })
         else do {
           call_ignore (Py (ReleaseBuffer data));
           ret (Returned r, m) } } }"

definition queue_put ::
    "others \<Rightarrow> (rat \<Rightarrow> rat) \<Rightarrow> nat \<Rightarrow> PosixIPCQueueObject \<Rightarrow> pyobj list \<Rightarrow> (string \<times> pyobj) list \<Rightarrow> ring \<Rightarrow>
     (bool pyres outcome \<times> ring) io" where
  "queue_put others fl fuel q args kws m = do {
     st \<leftarrow> posixipc_state_from_obj;
     case st of Some e \<Rightarrow> ret (Returned (Inl e), m) | None \<Rightarrow>
       case queue_check_open q of Some e \<Rightarrow> ret (Returned (Inl e), m) | None \<Rightarrow>
         case args of [] \<Rightarrow> ret (Returned (Inl TypeError), m) | data # rest \<Rightarrow> do {
           p \<leftarrow> posixipc_parse_acquire rest kws;
           case p of Inl e \<Rightarrow> ret (Returned (Inl e), m) | Inr opts \<Rightarrow> do {
             b \<leftarrow> call (Py (GetBuffer data));
             if a_ret b < 0 then ret (Returned (Inl Pending), m)
             else if length (a_bytes b) \<noteq> unat (qo_item_size q) then do {
               call_ignore (Py (ReleaseBuffer data));
               ret (Returned (Inl ValueError), m) }
             else put_locked others fl fuel q data (a_bytes b) opts m } } }"

text \<open>
  \<open>buf\<close> is the scratch memory; get overwrites all its bytes. \<^const>\<open>None\<close> in the result is
  Python's \<^verbatim>\<open>None\<close>.
\<close>

definition get_locked ::
    "others \<Rightarrow> (rat \<Rightarrow> rat) \<Rightarrow> nat \<Rightarrow> PosixIPCQueueObject \<Rightarrow> addr \<Rightarrow> posixipc_acquire_opts \<Rightarrow> ring \<Rightarrow>
     (u8 list option pyres outcome \<times> ring) io" where
  "get_locked others fl fuel q buf opts m = do {
     (rc, m) \<leftarrow> allow_threads (queue_lock others q (qo_put_lock q) m);
     if rc \<noteq> 0 then do {
       call_ignore (Py (PyMem_Free buf));
       ret (Returned (Inl (lock_error rc)), m) }
     else do {
       (oc, m) \<leftarrow> queue_await fuel others fl fuel q (\<lambda>n. n > 0) (qo_not_empty q) opts m;
       case oc of Undefined \<Rightarrow> ret (Undefined, m) | Unfinished \<Rightarrow> ret (Unfinished, m) | Returned r \<Rightarrow>
         if r = Inr True then
           (case posixipc_queue_get (Some (qo_view q)) m (Some (replicate (unat (qo_item_size q)) 0)) of (rc, m, out) \<Rightarrow> do {
              _ \<leftarrow> posixipc_mutex_unlock (qo_put_lock q);
              if rc \<noteq> 0 then do {
                call_ignore (Py (PyMem_Free buf));
                ret (Returned (Inl (raise_err rc)), m) }
              else do {
                _ \<leftarrow> posixipc_cond_signal (qo_not_full q);
                o1 \<leftarrow> call (Py (BytesFromString (the out)));
                call_ignore (Py (PyMem_Free buf));
                ret (Returned (if a_ret o1 < 0 then Inl Pending else Inr out), m) } })
         else do {
           call_ignore (Py (PyMem_Free buf));
           ret (Returned (case r of Inl e \<Rightarrow> Inl e | Inr _ \<Rightarrow> Inr None), m) } } }"

definition queue_get ::
    "others \<Rightarrow> (rat \<Rightarrow> rat) \<Rightarrow> nat \<Rightarrow> PosixIPCQueueObject \<Rightarrow> pyobj list \<Rightarrow> (string \<times> pyobj) list \<Rightarrow> ring \<Rightarrow>
     (u8 list option pyres outcome \<times> ring) io" where
  "queue_get others fl fuel q args kws m = do {
     st \<leftarrow> posixipc_state_from_obj;
     case st of Some e \<Rightarrow> ret (Returned (Inl e), m) | None \<Rightarrow>
       case queue_check_open q of Some e \<Rightarrow> ret (Returned (Inl e), m) | None \<Rightarrow> do {
         p \<leftarrow> posixipc_parse_acquire args kws;
         case p of Inl e \<Rightarrow> ret (Returned (Inl e), m) | Inr opts \<Rightarrow> do {
           b \<leftarrow> call (Py (PyMem_Malloc (unat (qo_item_size q))));
           if a_ret b < 0 then ret (Returned (Inl MemoryError), m)
           else get_locked others fl fuel q (nat (a_ret b)) opts m } } }"

text \<open>The keyword arguments of the variants that do not wait; \<open>py_false\<close> is the object \<^verbatim>\<open>Py_False\<close>.\<close>

definition nowait_names :: "pyobj \<Rightarrow> (string \<times> pyobj) list pyres io" where
  "nowait_names py_false = do {
     a \<leftarrow> call (Py (UnicodeFrom ''blocking''));
     if a_ret a < 0 then ret (Inl Pending)
     else do {
       t \<leftarrow> call (Py TuplePack);
       ret (if a_ret t < 0 then Inl Pending else Inr [(''blocking'', py_false)]) } }"

definition queue_put_nowait ::
    "pyobj \<Rightarrow> others \<Rightarrow> (rat \<Rightarrow> rat) \<Rightarrow> nat \<Rightarrow> PosixIPCQueueObject \<Rightarrow> pyobj \<Rightarrow> ring \<Rightarrow> (bool pyres outcome \<times> ring) io" where
  "queue_put_nowait py_false others fl fuel q data m = do {
     names \<leftarrow> nowait_names py_false;
     case names of Inl e \<Rightarrow> ret (Returned (Inl e), m) | Inr kws \<Rightarrow> queue_put others fl fuel q [data] kws m }"

definition queue_get_nowait ::
    "pyobj \<Rightarrow> others \<Rightarrow> (rat \<Rightarrow> rat) \<Rightarrow> nat \<Rightarrow> PosixIPCQueueObject \<Rightarrow> ring \<Rightarrow>
     (u8 list option pyres outcome \<times> ring) io" where
  "queue_get_nowait py_false others fl fuel q m = do {
     names \<leftarrow> nowait_names py_false;
     case names of Inl e \<Rightarrow> ret (Returned (Inl e), m) | Inr kws \<Rightarrow> queue_get others fl fuel q [] kws m }"

definition queue_qsize :: "others \<Rightarrow> PosixIPCQueueObject \<Rightarrow> ring \<Rightarrow> (nat pyres \<times> ring) io" where
  "queue_qsize others q m = do {
     st \<leftarrow> posixipc_state_from_obj;
     case st of Some e \<Rightarrow> ret (Inl e, m) | None \<Rightarrow>
       case queue_check_open q of Some e \<Rightarrow> ret (Inl e, m) | None \<Rightarrow> do {
         (rc, m) \<leftarrow> allow_threads (queue_lock others q (qo_put_lock q) m);
         if rc \<noteq> 0 then ret (Inl (lock_error rc), m)
         else do {
           let (rc, n) = posixipc_queue_qsize (Some (qo_view q)) m (Some 0);
           _ \<leftarrow> posixipc_mutex_unlock (qo_put_lock q);
           if rc \<noteq> 0 then ret (Inl (raise_err EINVAL), m)
           else do { l \<leftarrow> long_from (unat (the n)); ret (l, m) } } } }"

section \<open>Closing, pickling, accessors\<close>

definition queue_close :: "PosixIPCQueueObject \<Rightarrow> regions \<Rightarrow> PosixIPCQueueObject \<times> regions" where
  "queue_close q H =
     (if queue_is_closed q then (q, H)
      else let (q, H) = (case qo_region q of None \<Rightarrow> (q, H) | Some r \<Rightarrow> (q\<lparr>qo_region := None\<rparr>, unpin_region H r))
        in (q\<lparr>qo_put_lock := None, qo_get_lock := None, qo_not_full := None, qo_not_empty := None,
              qo_flags := qo_flags q OR FLAG_CLOSED\<rparr>, H))"

definition queue_copy :: pyexc where
  "queue_copy = TypeError"

text \<open>The arguments of \<^verbatim>\<open>_attach_queue\<close>: name, first slot, depth, item size, digest.\<close>

definition queue_reduce :: "PosixIPCQueueObject \<Rightarrow> regions \<Rightarrow> (string \<times> u32 \<times> u32 \<times> u32 \<times> u32) pyres io" where
  "queue_reduce q H = do {
     st \<leftarrow> posixipc_state_from_obj;
     case st of Some e \<Rightarrow> ret (Inl e) | None \<Rightarrow>
       if queue_is_closed q then ret (Inl posixipc_raise_closed)
       else if \<not> flag_set (qo_flags q) FLAG_BOUND \<or> qo_region q = None then ret (Inl TypeError)
       else let core = s_core (H (the (qo_region q))) in
         case (sh_hdr core, sh_name core) of
           (Some p, Some (_, nm)) \<Rightarrow> do {
             a \<leftarrow> call (Py Type_GetModule);
             if a_ret a < 0 then ret (Inl Pending)
             else do {
               f \<leftarrow> call (Py (GetAttr ''_attach_queue''));
               if a_ret f < 0 then ret (Inl Pending)
               else do {
                 h \<leftarrow> call (Mem (Load_header p));
                 b \<leftarrow> call (Py (BuildValue ''(sIIII)''));
                 if a_ret b < 0 then ret (Inl Pending)
                 else do {
                   t \<leftarrow> call (Py TuplePack);
                   ret (if a_ret t < 0 then Inl Pending
                        else Inr (nm, qo_first_slot q, qo_depth q, qo_item_size q, h_layout_digest (a_hdr h))) } } } }
         | _ \<Rightarrow> ret (Inl posixipc_raise_closed) }"

definition queue_get_bound :: "PosixIPCQueueObject \<Rightarrow> bool" where
  "queue_get_bound q = flag_set (qo_flags q) FLAG_BOUND"

definition queue_get_closed :: "PosixIPCQueueObject \<Rightarrow> bool" where
  "queue_get_closed q = queue_is_closed q"

definition queue_get_region :: "PosixIPCQueueObject \<Rightarrow> pyobj" where
  "queue_get_region q = (case qo_region q of None \<Rightarrow> Py_None | Some r \<Rightarrow> Obj r)"

definition queue_get_slot :: "PosixIPCQueueObject \<Rightarrow> nat pyres io" where
  "queue_get_slot q = long_from (unat (qo_first_slot q))"

definition queue_get_depth :: "PosixIPCQueueObject \<Rightarrow> nat pyres io" where
  "queue_get_depth q = long_from (unat (qo_depth q))"

definition queue_get_item_size :: "PosixIPCQueueObject \<Rightarrow> nat pyres io" where
  "queue_get_item_size q = long_from (unat (qo_item_size q))"

definition queue_init :: pyexc where
  "queue_init = TypeError"

definition queue_dealloc :: "PosixIPCQueueObject \<Rightarrow> regions \<Rightarrow> PosixIPCQueueObject \<times> regions" where
  "queue_dealloc q H =
     (let (q, H) = (if \<not> queue_is_closed q then queue_close q H else (q, H)) in (q\<lparr>qo_region := None\<rparr>, H))"

section \<open>Construction and binding\<close>

definition view_null :: posixipc_queue_view where
  "view_null = \<lparr>q_ctrl = None, q_state = None, q_payload = None, q_depth = 0, q_item_size = 0, q_stride = 0\<rparr>"

text \<open>\<open>type_present\<close>: the module has registered the type.\<close>

definition posixipc_queue_new_unbound :: "config \<Rightarrow> bool \<Rightarrow> u32 \<Rightarrow> u32 \<Rightarrow> u32 \<Rightarrow> PosixIPCQueueObject pyres io" where
  "posixipc_queue_new_unbound c type_present depth item_size first_slot =
     (if \<not> type_present then ret (Inl RuntimeError)
      else do {
        a \<leftarrow> call (Py Tp_alloc);
        ret (if a_ret a < 0 then Inl Pending
             else Inr \<lparr>qo_put_lock = None, qo_get_lock = None, qo_not_full = None, qo_not_empty = None, qo_region = None,
                       qo_first_slot = first_slot, qo_depth = depth, qo_item_size = item_size,
                       qo_cond_flags = (if HAVE_PTHREAD_CONDATTR_SETCLOCK c then FLAG_PROCESS_SHARED OR FLAG_MONOTONIC
                                        else FLAG_PROCESS_SHARED),
                       qo_view = view_null, qo_flags = FLAG_PROCESS_SHARED\<rparr>) })"

text \<open>Only the core of the object is looked at: at this point no object has been made yet.\<close>

definition posixipc_queue_init_on_shm ::
    "config \<Rightarrow> posixipc_shm \<Rightarrow> posixipc_slot \<Rightarrow> u32 \<Rightarrow> u32 \<Rightarrow> ring \<Rightarrow> (rc \<times> ring) io" where
  "posixipc_queue_init_on_shm c core bytes_slot depth item_size m = do {
     (rc, ptr) \<leftarrow> region_ptr \<lparr>s_core = core, s_pins = 0, s_flags = 0, s_created = True\<rparr>
                   (s_offset bytes_slot) (s_size bytes_slot) (ucast (s_align bytes_slot));
     if rc \<noteq> 0 then ret (rc, m)
     else case posixipc_queue_map c ptr (s_size bytes_slot) depth item_size (Some view_null) of (rc, v) \<Rightarrow>
       if rc \<noteq> 0 then ret (rc, m) else ret (posixipc_queue_init_ctrl v m) }"

text \<open>
  The pointers of the five slots, stored one by one as they are found, so that a failure leaves
  those found before it in the handle.
\<close>

definition bind_ptr ::
    "PosixIPCSharedMemoryObject \<Rightarrow> posixipc_slot \<Rightarrow> (addr option \<Rightarrow> 'q \<Rightarrow> 'q) \<Rightarrow> 'q \<Rightarrow>
     ('q \<Rightarrow> (pyexc option \<times> 'q) io) \<Rightarrow> (pyexc option \<times> 'q) io" where
  "bind_ptr ob slot store q k = do {
     (rc, ptr) \<leftarrow> region_ptr ob (s_offset slot) (s_size slot) (ucast (s_align slot));
     if rc \<noteq> 0 then ret (Some (raise_err rc), q) else k (store ptr q) }"

text \<open>\<open>m\<close> is the memory behind the byte slot.\<close>

definition queue_pointers ::
    "config \<Rightarrow> PosixIPCQueueObject \<Rightarrow> PosixIPCSharedMemoryObject \<Rightarrow> posixipc_slot list \<Rightarrow> u32 \<Rightarrow> ring \<Rightarrow>
     (pyexc option \<times> PosixIPCQueueObject) io" where
  "queue_pointers c q ob slots first m =
     bind_ptr ob (slots ! unat first) (\<lambda>p. qo_put_lock_update (\<lambda>_. p)) q (\<lambda>q.
     bind_ptr ob (slots ! unat (first + 1)) (\<lambda>p. qo_get_lock_update (\<lambda>_. p)) q (\<lambda>q.
     bind_ptr ob (slots ! unat (first + 2)) (\<lambda>p. qo_not_full_update (\<lambda>_. p)) q (\<lambda>q.
     bind_ptr ob (slots ! unat (first + 3)) (\<lambda>p. qo_not_empty_update (\<lambda>_. p)) q (\<lambda>q. do {
       (rc, ptr) \<leftarrow> region_ptr ob (s_offset (slots ! unat (first + 4))) (s_size (slots ! unat (first + 4)))
                     (ucast (s_align (slots ! unat (first + 4))));
       if rc \<noteq> 0 then ret (Some (raise_err rc), q)
       else case posixipc_queue_map c ptr (s_size (slots ! unat (first + 4))) (qo_depth q) (qo_item_size q) (Some (qo_view q)) of
         (rc, v) \<Rightarrow>
           if rc \<noteq> 0 then ret (Some (raise_err rc), q)
           else let q = q\<lparr>qo_view := the v\<rparr> in
             if c_depth (r_ctrl m) \<noteq> qo_depth q \<or> c_item_size (r_ctrl m) \<noteq> qo_item_size q
             then ret (Some LayoutMismatchError, q)
             else ret (None, q) }))))"

definition posixipc_queue_bind ::
    "config \<Rightarrow> PosixIPCQueueObject \<Rightarrow> regions \<Rightarrow> addr \<Rightarrow> posixipc_slot list \<Rightarrow> u32 \<Rightarrow> ring \<Rightarrow>
     (pyexc option \<times> PosixIPCQueueObject \<times> regions) io" where
  "posixipc_queue_bind c q H r slots first m = do {
     st \<leftarrow> posixipc_state_from_obj;
     case st of Some e \<Rightarrow> ret (Some e, q, H) | None \<Rightarrow>
       if map (\<lambda>i. s_kind (slots ! unat (first + i))) [0, 1, 2, 3, 4] \<noteq>
          [KIND_ROBUST_MUTEX, KIND_ROBUST_MUTEX, KIND_COND, KIND_COND, KIND_BYTES]
       then ret (Some LayoutMismatchError, q, H)
       else do {
         (e, q) \<leftarrow> queue_pointers c q (H r) slots first m;
         case e of Some x \<Rightarrow> ret (Some x, q, H) | None \<Rightarrow> do {
           (e, H) \<leftarrow> pin_region H r;
           case e of Some x \<Rightarrow> ret (Some x, q, H) | None \<Rightarrow>
             ret (None, q\<lparr>qo_region := Some r, qo_first_slot := first,
                          qo_cond_flags := s_init_flags (slots ! unat (first + 2)),
                          qo_flags := qo_flags q OR (FLAG_BOUND OR FLAG_PROCESS_SHARED)\<rparr>, H) } } }"

section \<open>Locks, buffers and memory are given back\<close>

text \<open>Exported buffers, and blocks of the interpreter's heap.\<close>

fun buffer_delta :: "pyobj \<Rightarrow> syscall \<Rightarrow> answer \<Rightarrow> int" where
  "buffer_delta ob (Py (GetBuffer x)) a = (if x = ob \<and> a_ret a \<ge> 0 then 1 else 0)"
| "buffer_delta ob (Py (ReleaseBuffer x)) a = (if x = ob then - 1 else 0)"
| "buffer_delta ob _ a = 0"

fun block_delta :: "addr \<Rightarrow> syscall \<Rightarrow> answer \<Rightarrow> int" where
  "block_delta p (Py (PyMem_Malloc n)) a = (if a_ret a = int p then 1 else 0)"
| "block_delta p (Py (PyMem_Calloc n k)) a = (if a_ret a = int p then 1 else 0)"
| "block_delta p (Py (PyMem_Free x)) a = (if x = p then - 1 else 0)"
| "block_delta p _ a = 0"

lemma run_meanwhile [io_simps]: "run (meanwhile others m) w = (others (trace w) m, w)"
  by (simp add: run_def meanwhile_def)

lemma keeps_meanwhile: "keeps \<delta> (meanwhile others m)"
  by (simp add: keeps_def run_meanwhile)

text \<open>A balance that locks and condition variables do not touch either.\<close>

definition sync_quiet :: "(syscall \<Rightarrow> answer \<Rightarrow> int) \<Rightarrow> bool" where
  "sync_quiet \<delta> \<longleftrightarrow> lock_like \<delta> \<and> (\<forall>c a. \<delta> (Mutex c) a = 0) \<and> (\<forall>c a. \<delta> (Cond c) a = 0)"

lemma sync_quietD:
  assumes "sync_quiet \<delta>"
  shows "lock_like \<delta>" and "\<delta> (Mutex c) a = 0" and "\<delta> (Cond d) a = 0"
  using assms by (simp_all add: sync_quiet_def)

lemma sync_quiet_buffer: "sync_quiet (buffer_delta ob)"
  unfolding sync_quiet_def lock_like_def
proof (intro conjI allI impI)
  fix c a assume "plain_py c" then show "buffer_delta ob (Py c) a = 0" by (cases c) simp_all
qed simp_all

text \<open>Items that could not be turned into a bytes object.\<close>

fun bytes_failed :: "syscall \<Rightarrow> answer \<Rightarrow> int" where
  "bytes_failed (Py (BytesFromString x)) a = (if a_ret a < 0 then 1 else 0)"
| "bytes_failed _ a = 0"

lemma sync_quiet_failed: "sync_quiet bytes_failed"
  unfolding sync_quiet_def lock_like_def
proof (intro conjI allI impI)
  fix c a assume "plain_py c" then show "bytes_failed (Py c) a = 0" by (cases c) simp_all
qed simp_all

lemma sync_quiet_block: "sync_quiet (block_delta p)"
  unfolding sync_quiet_def lock_like_def
proof (intro conjI allI impI)
  fix c a assume "plain_py c" then show "block_delta p (Py c) a = 0" by (cases c) simp_all
qed simp_all

lemma keeps_queue_repair:
  assumes "\<And>c a. \<delta> (Mutex (Mutex_consistent c)) a = 0" and "\<And>c a. \<delta> (Cond (Cond_broadcast c)) a = 0"
  shows "keeps \<delta> (queue_repair q lock m)"
  unfolding queue_repair_def
  by (intro keeps_rules keeps_mutex_consistent keeps_cond_broadcast assms)

lemma effect_queue_lock:
  "effect E (call_delta p) (\<lambda>(rc, m). if lo = Some p \<and> rc = 0 then 1 else 0) (queue_lock others q lo m)"
  unfolding queue_lock_def
  apply (rule effect_bind [OF effect_call_lock])
  apply (rule effect_keeps_bind [OF keeps_meanwhile])
  apply (intro effect_if)
   apply (rule effect_keeps_bind, rule keeps_queue_repair, rule call_delta_quiet, rule call_delta_quiet)
   apply (intro effect_prod effect_if)
    apply (rule effect_bind [OF effect_call_unlock])
    apply (auto simp: got_def intro!: effect_ret)
  done

interpretation queue_wait: waiter "queue_cond_until_cb others cv lo" "lock_delta p"
    "\<lambda>rc. if cv \<noteq> None \<and> lo = Some p \<and> rc = ENOTRECOVERABLE then - 1 else 0"
  for others cv lo p
  by unfold_locales
    (auto simp: queue_cond_until_cb_def posixipc_cond_wait_until_def io_simps lock_like_delta split: option.splits)

lemma keeps_queue_wait:
  assumes "lock_like \<delta>" and "\<And>c a. \<delta> (Mutex (Mutex_consistent c)) a = 0" and "\<And>c a. \<delta> (Cond c) a = 0"
  shows "keeps \<delta> (queue_wait_cond others fl fuel q cv lo opts m)"
  unfolding queue_wait_cond_def queue_sleep_def queue_cond_until_cb_def posixipc_cond_wait_def posixipc_cond_wait_until_def Let_def
  by (intro keeps_rules keeps_meanwhile keeps_queue_repair keeps_deadline keeps_blocking_wait keeps_allow_threads assms)

lemma end_effect_wait:
  "end_effect E (call_delta p) (\<lambda>_. 0) (queue_wait_cond others fl fuel q cv lo opts m)"
  by (rule end_effect_keeps, rule keeps_queue_wait, rule lock_like_call) (rule call_delta_quiet)+

text \<open>The loop leaves the lock held when the queue is ready, and gives it back on every other end.\<close>

lemma end_effect_unlock:
  "k y = (if lo = Some p then - 1 else 0) \<Longrightarrow>
   end_effect E (call_delta p) k (do { _ \<leftarrow> posixipc_mutex_unlock lo; ret (Returned y, m) })"
  by (rule end_effect_bind [OF effect_call_unlock], rule end_effect_ret) auto

lemma end_effect_await:
  "end_effect E (call_delta p) (\<lambda>r. if qo_put_lock q = Some p \<and> r \<noteq> Inr True then - 1 else 0)
     (queue_await n others fl fuel q ready cv opts m)"
proof (induction n arbitrary: m)
  case (Suc n)
  show ?case
    unfolding queue_await.simps
    apply (intro end_effect_prod end_effect_if end_effect_unlock end_effect_ret)
        apply (simp_all)
    apply (rule end_effect_then [OF end_effect_wait, simplified])
    apply (intro end_effect_if end_effect_unlock)
      apply (simp_all add: Suc.IH)
    done
qed (auto intro: end_effect_ret)

lemma keeps_queue_lock:
  assumes "sync_quiet \<delta>"
  shows "keeps \<delta> (queue_lock others q lo m)"
  unfolding queue_lock_def posixipc_mutex_lock_def
  by (intro keeps_rules keeps_meanwhile keeps_queue_repair keeps_mutex_unlock sync_quietD [OF assms])

lemma keeps_queue_await:
  assumes "sync_quiet \<delta>"
  shows "keeps \<delta> (queue_await n others fl fuel q ready cv opts m)"
proof (induction n arbitrary: m)
  case (Suc n)
  show ?case
    unfolding queue_await.simps
    by (intro keeps_rules keeps_outcome keeps_queue_wait keeps_mutex_unlock sync_quietD [OF assms] Suc.IH)
qed (simp add: keeps_ret)

text \<open>
  Put and get once for all balances: the lock contributes \<open>L\<close> while it is held, the release of the
  buffer or the scratch memory contributes \<open>R\<close>.
\<close>

definition queue_frame :: "((history \<Rightarrow> syscall \<Rightarrow> answer) \<Rightarrow> bool) \<Rightarrow> (syscall \<Rightarrow> answer \<Rightarrow> int) \<Rightarrow> PosixIPCQueueObject \<Rightarrow> int \<Rightarrow> bool" where
  "queue_frame E \<delta> q L \<longleftrightarrow>
     (\<forall>others m. effect E \<delta> (\<lambda>(rc, m). if rc = 0 then L else 0) (allow_threads (queue_lock others q (qo_put_lock q) m))) \<and>
     (\<forall>n others fl fuel ready cv opts m.
        end_effect E \<delta> (\<lambda>r. if r = Inr True then 0 else - L) (queue_await n others fl fuel q ready cv opts m)) \<and>
     effect E \<delta> (\<lambda>_. - L) (posixipc_mutex_unlock (qo_put_lock q)) \<and> (\<forall>cv. keeps \<delta> (posixipc_cond_signal cv))"

lemma queue_frameD:
  assumes "queue_frame E \<delta> q L"
  shows "effect E \<delta> (\<lambda>(rc, m). if rc = 0 then L else 0) (allow_threads (queue_lock others q (qo_put_lock q) m))"
    and "end_effect E \<delta> (\<lambda>r. if r = Inr True then 0 else - L) (queue_await n others fl fuel q ready cv opts m)"
    and "effect E \<delta> (\<lambda>_. - L) (posixipc_mutex_unlock (qo_put_lock q))" and "keeps \<delta> (posixipc_cond_signal cv)"
  using assms unfolding queue_frame_def by blast+

lemma queue_frame_lock: "queue_frame E (call_delta p) q (if qo_put_lock q = Some p then 1 else 0)"
  unfolding queue_frame_def
proof (intro conjI allI)
  show "effect E (call_delta p) (\<lambda>(rc, m). if rc = 0 then if qo_put_lock q = Some p then 1 else 0 else 0)
      (allow_threads (queue_lock others q (qo_put_lock q) m))" for others m
    by (rule effect_mono [OF effect_allow_threads [OF lock_like_call effect_queue_lock]]) auto
  show "end_effect E (call_delta p) (\<lambda>r. if r = Inr True then 0 else - (if qo_put_lock q = Some p then 1 else 0))
      (queue_await n others fl fuel q ready cv opts m)" for n others fl fuel ready cv opts m
    by (rule end_effect_mono [OF end_effect_await]) auto
  show "effect E (call_delta p) (\<lambda>_. - (if qo_put_lock q = Some p then 1 else 0)) (posixipc_mutex_unlock (qo_put_lock q))"
    by (rule effect_mono [OF effect_call_unlock]) auto
  show "keeps (call_delta p) (posixipc_cond_signal cv)" for cv by (rule keeps_cond_signal) (rule call_delta_quiet)
qed

lemma queue_frame_quiet:
  assumes "sync_quiet \<delta>"
  shows "queue_frame E \<delta> q 0"
  unfolding queue_frame_def
proof (intro conjI allI)
  note q = sync_quietD [OF assms]
  show "effect E \<delta> (\<lambda>(rc, m). if rc = 0 then 0 else 0) (allow_threads (queue_lock others q (qo_put_lock q) m))" for others m
    by (rule effect_mono [OF effect_keeps [OF keeps_allow_threads [OF q(1) keeps_queue_lock [OF assms]]]]) auto
  show "end_effect E \<delta> (\<lambda>r. if r = Inr True then 0 else - 0) (queue_await n others fl fuel q ready cv opts m)"
    for n others fl fuel ready cv opts m
    by (rule end_effect_mono [OF end_effect_keeps [OF keeps_queue_await [OF assms]]]) auto
  show "effect E \<delta> (\<lambda>_. - 0) (posixipc_mutex_unlock (qo_put_lock q))"
    by (rule effect_mono [OF effect_keeps [OF keeps_mutex_unlock]]) (auto simp: q)
  show "keeps \<delta> (posixipc_cond_signal cv)" for cv by (rule keeps_cond_signal) (rule q)
qed

lemma end_effect_put_locked:
  assumes fr: "queue_frame E \<delta> q L" and rel: "effect E \<delta> (\<lambda>_. R) (call_ignore (Py (ReleaseBuffer data)))"
  shows "end_effect E \<delta> (\<lambda>_. R) (put_locked others fl fuel q data bytes opts m)"
  unfolding put_locked_def
  apply (rule end_effect_bind [OF queue_frameD(1) [OF fr]])
  apply (rule end_effect_prod, rule end_effect_if)
   apply (rule end_effect_bind [OF rel], rule end_effect_ret, simp)
  apply (rule end_effect_then [OF queue_frameD(2) [OF fr]])
  apply (rule end_effect_if)
   apply (rule end_effect_prod, rule end_effect_bind [OF queue_frameD(3) [OF fr]], rule end_effect_bind [OF rel])
   apply (intro end_effect_keeps_bind [OF queue_frameD(4) [OF fr]] end_effect_if end_effect_ret, simp, simp)
  apply (rule end_effect_bind [OF rel], rule end_effect_ret, simp)
  done

lemma end_effect_get_locked:
  assumes fr: "queue_frame E \<delta> q L" and rel: "effect E \<delta> (\<lambda>_. R) (call_ignore (Py (PyMem_Free buf)))"
    and b: "\<And>x. keeps \<delta> (call (Py (BytesFromString x)))"
  shows "end_effect E \<delta> (\<lambda>_. R) (get_locked others fl fuel q buf opts m)"
  unfolding get_locked_def
  apply (rule end_effect_bind [OF queue_frameD(1) [OF fr]])
  apply (rule end_effect_prod, rule end_effect_if)
   apply (rule end_effect_bind [OF rel], rule end_effect_ret, simp)
  apply (rule end_effect_then [OF queue_frameD(2) [OF fr]])
  apply (rule end_effect_if)
   apply (intro end_effect_prod, rule end_effect_bind [OF queue_frameD(3) [OF fr]], rule end_effect_if)
    apply (rule end_effect_bind [OF rel], rule end_effect_ret, simp)
   apply (rule end_effect_keeps_bind [OF queue_frameD(4) [OF fr]], rule end_effect_keeps_bind [OF b])
   apply (rule end_effect_bind [OF rel], rule end_effect_ret, simp)
  apply (rule end_effect_bind [OF rel], rule end_effect_ret, simp)
  done

lemma end_effect_queue_put:
  assumes fr: "queue_frame E \<delta> q L" and ll: "lock_like \<delta>"
    and gb: "\<And>data. effect E \<delta> (\<lambda>b. if a_ret b < 0 then 0 else - R data) (call (Py (GetBuffer data)))"
    and rel: "\<And>data. effect E \<delta> (\<lambda>_. R data) (call_ignore (Py (ReleaseBuffer data)))"
  shows "end_effect E \<delta> (\<lambda>_. 0) (queue_put others fl fuel q args kws m)"
  unfolding queue_put_def
  apply (rule end_effect_keeps_bind [OF keeps_state_from [OF ll]])
  apply (intro end_effect_rules end_effect_ret, simp_all)
  apply (rule end_effect_keeps_bind [OF keeps_parse_acquire [OF ll]])
  apply (intro end_effect_sum end_effect_ret, simp)
  apply (rule end_effect_bind [OF gb])
  apply (rule end_effect_if, rule end_effect_ret, simp)
  apply (rule end_effect_if)
   apply (rule end_effect_bind [OF rel], rule end_effect_ret, simp)
  apply (rule end_effect_mono [OF end_effect_put_locked [OF fr rel]])
  apply simp
  done

lemma end_effect_queue_get:
  assumes fr: "queue_frame E \<delta> q L" and ll: "lock_like \<delta>"
    and gb: "effect E \<delta> (\<lambda>b. if a_ret b < 0 then 0 else - R (nat (a_ret b))) (call (Py (PyMem_Malloc (unat (qo_item_size q)))))"
    and rel: "\<And>p. effect E \<delta> (\<lambda>_. R p) (call_ignore (Py (PyMem_Free p)))" and b: "\<And>x a. \<delta> (Py (BytesFromString x)) a = 0"
  shows "end_effect E \<delta> (\<lambda>_. 0) (queue_get others fl fuel q args kws m)"
  unfolding queue_get_def
  apply (rule end_effect_keeps_bind [OF keeps_state_from [OF ll]])
  apply (intro end_effect_rules end_effect_ret, simp_all)
  apply (rule end_effect_keeps_bind [OF keeps_parse_acquire [OF ll]])
  apply (intro end_effect_sum end_effect_ret, simp)
  apply (rule end_effect_bind [OF gb])
  apply (rule end_effect_if, rule end_effect_ret, simp)
  apply (rule end_effect_mono [OF end_effect_get_locked [OF fr rel]])
   apply (rule keeps_call, rule b)
  apply simp
  done

lemma queue_put_balanced:
  "end_effect E (call_delta p) (\<lambda>_. 0) (queue_put others fl fuel q args kws m)"
  "end_effect E (buffer_delta ob) (\<lambda>_. 0) (queue_put others fl fuel q args kws m)"
  by (rule end_effect_queue_put [where R = "\<lambda>_. 0", OF queue_frame_lock lock_like_call],
      simp_all add: effect_def run_call run_call_ignore call_delta_quiet)
    (rule end_effect_queue_put [where R = "\<lambda>x. if x = ob then - 1 else 0", OF queue_frame_quiet sync_quietD(1)],
      simp_all add: effect_def run_call run_call_ignore sync_quiet_buffer)

lemma queue_get_balanced:
  "end_effect E (call_delta p) (\<lambda>_. 0) (queue_get others fl fuel q args kws m)"
  "end_effect E (block_delta (b :: addr)) (\<lambda>_. 0) (queue_get others fl fuel q args kws m)"
  by (rule end_effect_queue_get [where R = "\<lambda>_. 0", OF queue_frame_lock lock_like_call],
      simp_all add: effect_def run_call run_call_ignore call_delta_quiet)
    (rule end_effect_queue_get [where R = "\<lambda>x. if x = b then - 1 else 0", OF queue_frame_quiet sync_quietD(1)],
      auto simp: effect_def run_call run_call_ignore sync_quiet_block)

text \<open>
  C9. Put and get give everything back: whenever \<^verbatim>\<open>Queue.put\<close> or \<^verbatim>\<open>Queue.get\<close> returns or raises (also after
  a timeout, a signal, a failed recovery of a dead owner or an item of the wrong size), every exported
  buffer has been released and every block of scratch memory freed, and the thread holds every mutex as
  often as before the call, but for the condition waits that answered ENOTRECOVERABLE and so came back without
  the mutex: the call unlocks it after those too, once more than it held it.
\<close>

theorem queue_ops_give_back:
  assumes "run (queue_put others fl fuel q args kws m) w = ((Returned r, m1), w1)"
    and "run (queue_get others fl fuel q args2 kws2 m1) w1 = ((Returned x, m2), w2)"
  shows "balance (buffer_delta ob) w1 = balance (buffer_delta ob) w \<and> balance (block_delta b) w2 = balance (block_delta b) w1 \<and>
         balance (lock_delta p) w1 = balance (lock_delta p) w - (balance (lost_delta p) w1 - balance (lost_delta p) w) \<and>
         balance (lock_delta p) w2 = balance (lock_delta p) w1 - (balance (lost_delta p) w2 - balance (lost_delta p) w1)"
proof -
  let ?E = "\<lambda>_ :: history \<Rightarrow> syscall \<Rightarrow> answer. True"
  note p = end_effectD [OF queue_put_balanced(1) [where E = ?E and p = p] TrueI assms(1)] end_effectD [OF queue_put_balanced(2) [where E = ?E and ob = ob] TrueI assms(1)]
  note g = end_effectD [OF queue_get_balanced(1) [where E = ?E and p = p] TrueI assms(2)] end_effectD [OF queue_get_balanced(2) [where E = ?E and b = b] TrueI assms(2)]
  show ?thesis using p g by (simp add: balance_call)
qed

section \<open>Exactly one item\<close>

text \<open>
  What can happen to the ring while the call stores no item of its own: other processes change it,
  and recovery repairs it.
\<close>

inductive idle :: "others \<Rightarrow> posixipc_queue_view \<Rightarrow> ring \<Rightarrow> ring \<Rightarrow> bool" for others v m where
  idle_refl: "idle others v m m"
| idle_others: "idle others v m m1 \<Longrightarrow> idle others v m (others h m1)"
| idle_recover: "idle others v m m1 \<Longrightarrow> idle others v m (snd (posixipc_queue_recover (Some v) m1))"

text \<open>The handle agrees with its view, as binding leaves it.\<close>

definition view_fits :: "PosixIPCQueueObject \<Rightarrow> bool" where
  "view_fits q \<longleftrightarrow> q_depth (qo_view q) = qo_depth q \<and> q_item_size (qo_view q) = qo_item_size q"

lemma yields_meanwhile: "(\<And>h. Q (others h m)) \<Longrightarrow> yields E Q (meanwhile others m)"
  by (simp add: yields_def run_meanwhile)

lemmas keeps_zero = keeps_mutex_consistent [OF refl] keeps_mutex_unlock [OF refl] keeps_cond_broadcast [OF refl]
  keeps_cond_signal [OF refl] keeps_call_ignore [OF refl] keeps_call [OF refl] keeps_call_rc [OF refl]
  keeps_deadline [OF lock_like_zero] keeps_state_from [OF lock_like_zero] keeps_parse_acquire [OF lock_like_zero]

lemma yields_repair:
  assumes "idle others (qo_view q) m0 m"
  shows "yields E (\<lambda>(rc, m'). idle others (qo_view q) m0 m') (queue_repair q lo m)"
  unfolding queue_repair_def
  using idle_recover [OF assms]
  by (intro yields_prod yields_if yields_any_bind keeps_zero yields_ret) simp_all

lemma yields_lock:
  assumes "idle others (qo_view q) m0 m"
  shows "yields E (\<lambda>(rc, m'). idle others (qo_view q) m0 m') (queue_lock others q lo m)"
proof -
  have mw: "yields E (idle others (qo_view q) m0) (meanwhile others m)"
    by (rule yields_meanwhile) (rule idle_others [OF assms])
  show ?thesis
    unfolding queue_lock_def posixipc_mutex_lock_def
    by (rule yields_any_bind, intro keeps_rules refl, rule yields_bind [OF mw])
      (intro yields_if yields_bind [OF yields_repair] yields_prod yields_any_bind [OF keeps_mutex_unlock [OF refl]] yields_ret; auto)
qed

lemma yields_sleep:
  assumes "idle others v m0 m"
  shows "yields clock_ok (\<lambda>r. \<forall>x. r = Some x \<longrightarrow> idle others v m0 (snd x)) (queue_sleep others fuel cv lo opts user clk m)"
proof (cases "\<not> interruptible opts \<and> timeout_none opts")
  case True
  show ?thesis
    unfolding queue_sleep_def if_P [OF True] posixipc_cond_wait_def
    by (rule yields_bind [where ?Q1.0 = "\<lambda>x. idle others v m0 (snd x)"], rule yields_allow_threads, rule yields_any_bind,
        intro keeps_rules refl, rule yields_bind, rule yields_meanwhile, rule idle_others [OF assms])
      (auto intro: yields_ret)
next
  case False
  show ?thesis
    unfolding queue_sleep_def if_not_P [OF False] yields_def
  proof (intro allI impI)
    fix w r w'
    assume e: "clock_ok (env w)"
      and r: "run (posixipc_blocking_wait fuel (queue_cond_until_cb others cv lo) user (interruptible opts) clk m) w = (r, w')"
    have "idle others v m0 (snd x)" if "r = Some x" for x
    proof -
      have "idle others v m0 (snd x) \<and> True"
      proof (rule queue_wait.blocking_wait_inv [where S = "idle others v m0" and R = "\<lambda>_. True" and w = w and s = m])
        show "clock_errors w" by (rule clock_okD [OF e])
        show "run (posixipc_blocking_wait fuel (queue_cond_until_cb others cv lo) user (interruptible opts) clk m) w =
            (Some (fst x, snd x), w')" using r that by simp
        show "idle others v m0 s2 \<and> True"
          if "idle others v m0 s" "run (queue_cond_until_cb others cv lo s d) w2 = ((rc, s2), w3)" for s d w2 rc s2 w3
          using that by (auto simp: queue_cond_until_cb_def run_bind run_ret run_meanwhile intro: idle_others split: prod.splits)
      qed (use assms in simp_all)
      then show ?thesis ..
    qed
    with queue_wait.blocking_wait_env [OF r] show "env w' = env w \<and> (\<forall>x. r = Some x \<longrightarrow> idle others v m0 (snd x))" by blast
  qed
qed

lemma yields_wait:
  assumes "idle others (qo_view q) m0 m"
  shows "yields clock_ok (\<lambda>(oc, m'). idle others (qo_view q) m0 m') (queue_wait_cond others fl fuel q cv lo opts m)"
  unfolding queue_wait_cond_def Let_def
proof (rule yields_any_bind, intro keeps_rules keeps_zero, goal_cases)
  case (1 d)
  show ?case
    apply (intro yields_rules yields_ret yields_bind [OF yields_sleep [OF assms]])
         apply (simp_all add: assms)
    apply (rule yields_bind [OF yields_repair])
    apply (auto intro!: yields_ret)
    done
qed

lemma yields_await:
  assumes "idle others (qo_view q) m0 m"
  shows "yields clock_ok (\<lambda>(oc, m'). idle others (qo_view q) m0 m' \<and> (oc = Returned (Inr True) \<longrightarrow> ready (c_count (r_ctrl m'))))
           (queue_await n others fl fuel q ready cv opts m)"
  using assms
proof (induction n arbitrary: m)
  case (Suc n)
  note i = Suc.prems
  have rdy: "ready (c_count (r_ctrl m))" if "posixipc_queue_qsize (Some (qo_view q)) m (Some 0) = (0, num)" "ready (the num)" for num
    using that by (auto simp: posixipc_queue_qsize_def split: if_splits)
  show ?case
    unfolding queue_await.simps
    apply (intro yields_prod yields_if yields_any_bind [OF keeps_mutex_unlock [OF refl]] yields_ret)
       apply (simp_all add: i rdy del: split_paired_All)
    apply (rule yields_bind [OF yields_wait [OF i]])
    apply (intro yields_rules yields_any_bind [OF keeps_mutex_unlock [OF refl]] yields_ret Suc.IH)
        apply auto
    done
qed (simp add: yields_ret)

text \<open>A failing put or get of the core leaves the ring alone.\<close>

lemma core_put_failed: "posixipc_queue_put vp m d = (rc, m') \<Longrightarrow> rc \<noteq> 0 \<Longrightarrow> m' = m"
  by (auto simp: posixipc_queue_put_def split: option.splits if_splits)

lemma core_get_failed: "posixipc_queue_get vp m d = (rc, m', x) \<Longrightarrow> rc \<noteq> 0 \<Longrightarrow> m' = m"
  by (auto simp: posixipc_queue_get_def Let_def split: option.splits if_splits)

definition put_post :: "others \<Rightarrow> posixipc_queue_view \<Rightarrow> ring \<Rightarrow> u8 list \<Rightarrow> bool pyres outcome \<times> ring \<Rightarrow> bool" where
  "put_post others v m data = (\<lambda>(oc, m'). \<exists>m1. idle others v m m1 \<and>
     (if oc = Returned (Inr True) then posixipc_queue_put (Some v) m1 (Some data) = (0, m') else m' = m1))"

lemma put_post_idle: "idle others v m m1 \<Longrightarrow> oc \<noteq> Returned (Inr True) \<Longrightarrow> put_post others v m data (oc, m1)"
  by (auto simp: put_post_def)

lemma yields_put_locked:
  "yields clock_ok (put_post others (qo_view q) m data) (put_locked others fl fuel q ob data opts m)"
  unfolding put_locked_def
  apply (rule yields_bind [OF yields_allow_threads [OF yields_lock [OF idle_refl]]])
  apply (rule yields_prod, rule yields_if)
   apply (intro yields_any_bind [OF keeps_call_ignore [OF refl]] yields_ret put_post_idle, simp, simp)
  apply (rule yields_bind [OF yields_await], simp)
  apply (intro yields_rules yields_any_bind [OF keeps_call_ignore [OF refl]]
      yields_any_bind [OF keeps_mutex_unlock [OF refl]] yields_any_bind [OF keeps_cond_signal [OF refl]])
      apply (rule yields_ret, (auto simp: put_post_def dest: core_put_failed)[1])+
  done

definition get_post :: "others \<Rightarrow> posixipc_queue_view \<Rightarrow> u32 \<Rightarrow> ring \<Rightarrow> u8 list option pyres outcome \<times> ring \<Rightarrow> bool" where
  "get_post others v sz m = (\<lambda>(oc, m'). \<exists>m1. idle others v m m1 \<and>
     (case oc of
        Returned (Inr (Some x)) \<Rightarrow> posixipc_queue_get (Some v) m1 (Some (replicate (unat sz) 0)) = (0, m', Some x)
      | Returned (Inl e) \<Rightarrow> m' = m1 \<or>
          e = Pending \<and> (\<exists>x. posixipc_queue_get (Some v) m1 (Some (replicate (unat sz) 0)) = (0, m', Some x))
      | _ \<Rightarrow> m' = m1))"

lemma get_post_idle:
  "idle others v m m1 \<Longrightarrow> (\<And>x. oc \<noteq> Returned (Inr (Some x))) \<Longrightarrow> get_post others v sz m (oc, m1)"
  by (auto simp: get_post_def split: outcome.splits sum.splits option.splits)

lemma core_get_some: "posixipc_queue_get vp m (Some b) = (0, m', out) \<Longrightarrow> \<exists>x. out = Some x"
  by (auto simp: posixipc_queue_get_def Let_def split: option.splits if_splits)

lemma get_post_took:
  assumes "idle others v m m1" and "posixipc_queue_get (Some v) m1 (Some (replicate (unat sz) 0)) = (0, m', out)"
  shows "get_post others v sz m (Returned (Inl Pending), m')" and "get_post others v sz m (Returned (Inr out), m')"
  using assms core_get_some [OF assms(2)] by (auto simp: get_post_def)

text \<open>The same with the number \<open>n\<close> of bytes objects that could not be built.\<close>

definition taken_post :: "others \<Rightarrow> posixipc_queue_view \<Rightarrow> u32 \<Rightarrow> ring \<Rightarrow> u8 list option pyres outcome \<times> ring \<Rightarrow> int \<Rightarrow> bool" where
  "taken_post others v sz m = (\<lambda>(oc, m') n. \<exists>m1. idle others v m m1 \<and>
     (case oc of
        Returned (Inr (Some x)) \<Rightarrow> posixipc_queue_get (Some v) m1 (Some (replicate (unat sz) 0)) = (0, m', Some x) \<and> n = 0
      | Returned (Inl e) \<Rightarrow> m' = m1 \<and> n = 0 \<or>
          e = Pending \<and> n = 1 \<and> (\<exists>x. posixipc_queue_get (Some v) m1 (Some (replicate (unat sz) 0)) = (0, m', Some x))
      | _ \<Rightarrow> m' = m1 \<and> n = 0))"

lemma taken_post_idle:
  "idle others v m m1 \<Longrightarrow> (\<And>x. oc \<noteq> Returned (Inr (Some x))) \<Longrightarrow> taken_post others v sz m (oc, m1) 0"
  by (auto simp: taken_post_def split: outcome.splits sum.splits option.splits)

lemma taken_post_took:
  assumes "idle others v m m1" and "posixipc_queue_get (Some v) m1 (Some (replicate (unat sz) 0)) = (0, m', out)"
  shows "taken_post others v sz m (Returned (Inl Pending), m') 1" and "taken_post others v sz m (Returned (Inr out), m') 0"
  using assms core_get_some [OF assms(2)] by (auto simp: taken_post_def)

lemmas keeps_failed =
  keeps_allow_threads [OF sync_quietD(1) [OF sync_quiet_failed] keeps_queue_lock [OF sync_quiet_failed]]
  keeps_queue_await [OF sync_quiet_failed]

lemma keeps_failed_free:
  "keeps bytes_failed (call_ignore (Py (PyMem_Free p)))" "keeps bytes_failed (call (Py (PyMem_Malloc n)))"
  "keeps bytes_failed (posixipc_mutex_unlock lo)" "keeps bytes_failed (posixipc_cond_signal cv)"
  by (intro keeps_rules keeps_mutex_unlock keeps_cond_signal; simp)+

lemma leaves_get_locked:
  "leaves clock_ok bytes_failed (taken_post others (qo_view q) (qo_item_size q) m) (get_locked others fl fuel q buf opts m)"
  unfolding get_locked_def
  apply (rule leaves_bind [OF keeps_failed(1) yields_allow_threads [OF yields_lock [OF idle_refl]]])
  apply (rule leaves_prod, rule leaves_if)
   apply (intro leaves_any_bind [OF keeps_failed_free(1)] leaves_ret taken_post_idle, simp, simp)
  apply (rule leaves_bind [OF keeps_failed(2) yields_await], simp)
  apply (intro leaves_rules leaves_any_bind [OF keeps_failed_free(1)] leaves_any_bind [OF keeps_failed_free(3)]
      leaves_any_bind [OF keeps_failed_free(4)] leaves_call_bind)
      apply (rule leaves_ret, (auto simp: taken_post_def dest: core_get_failed)[1])
     apply (rule leaves_ret, (auto intro: taken_post_took)[1])
    apply (rule leaves_ret, (auto simp: taken_post_def split: sum.splits)[1])+
  done

text \<open>The result of a put, with the bytes the exporter handed out.\<close>

lemma yields_queue_put:
  "yields (\<lambda>e. e = e0 \<and> clock_ok e)
     (\<lambda>r. \<exists>h data. (fst r = Returned (Inr True) \<longrightarrow> args \<noteq> [] \<and> data = a_bytes (e0 h (Py (GetBuffer (hd args)))) \<and>
                     length data = unat (qo_item_size q)) \<and>
                  put_post others (qo_view q) m data r)
     (queue_put others fl fuel q args kws m)"
  (is "yields ?E ?Q _")
proof -
  have early: "yields ?E ?Q (ret (Returned (Inl e), m))" for e
    by (rule yields_ret) (auto intro!: put_post_idle idle_refl)
  have late: "yields ?E ?Q (put_locked others fl fuel q ob data opts m)"
    if "args = ob # rest" "data = a_bytes (e0 h (Py (GetBuffer ob)))" "length data = unat (qo_item_size q)"
    for ob rest data opts h
    by (rule yields_mono [OF yields_env [OF yields_put_locked]]) (use that in auto)
  show ?thesis
    unfolding queue_put_def
    apply (rule yields_any_bind [OF keeps_state_from [OF lock_like_zero]])
    apply (intro yields_option yields_list early)
    apply (rule yields_any_bind [OF keeps_parse_acquire [OF lock_like_zero]])
    apply (intro yields_sum early)
    subgoal for st ob rest p opts
      apply (rule yields_bind [where ?Q1.0 = "\<lambda>b. \<exists>h. b = e0 h (Py (GetBuffer ob))"])
       apply (rule yields_call, auto simp: answer_to_def)[1]
      apply (intro yields_if early yields_any_bind [OF keeps_call_ignore [OF refl]])
      apply (elim exE, rule late, assumption, simp_all)
      done
    done
qed

text \<open>
  C2. \<^verbatim>\<open>Queue.put\<close> stores its item exactly once, and exactly when it returns True. The ring at the end
  is the ring other processes and recovery left when the lock was last taken (\<open>m1\<close>), with one
  put of the exported bytes on it if the call returned True and unchanged otherwise; if \<open>m1\<close> is a
  well-formed ring, the sequence of items is extended by exactly that item at the end.
\<close>

theorem queue_put_stores_once:
  assumes "clock_errors w" and "view_fits q"
    and "run (queue_put others fl fuel q args kws m) w = ((Returned r, m'), w')"
  shows "\<exists>m1. idle others (qo_view q) m m1 \<and>
    (if r = Inr True
     then \<exists>h data. args \<noteq> [] \<and> data = a_bytes (env w h (Py (GetBuffer (hd args)))) \<and>
            posixipc_queue_put (Some (qo_view q)) m1 (Some data) = (0, m') \<and>
            (ring_inv (qo_view q) m1 \<longrightarrow>
               ring_inv (qo_view q) m' \<and> ring_list (qo_view q) m' = ring_list (qo_view q) m1 @ [data])
     else m' = m1)"
proof -
  obtain h data m1 where *: "r = Inr True \<longrightarrow> args \<noteq> [] \<and> data = a_bytes (env w h (Py (GetBuffer (hd args)))) \<and>
        length data = unat (qo_item_size q)"
    and i: "idle others (qo_view q) m m1"
    and p: "if r = Inr True then posixipc_queue_put (Some (qo_view q)) m1 (Some data) = (0, m') else m' = m1"
    using yieldsD(2) [OF yields_queue_put _ assms(3), of "env w"] clock_okI [OF assms(1)]
    unfolding put_post_def by auto
  have "ring_inv (qo_view q) m' \<and> ring_list (qo_view q) m' = ring_list (qo_view q) m1 @ [data]"
    if "r = Inr True" "ring_inv (qo_view q) m1"
    using rq.put_keeps [OF that(2), of data 0 m'] that * p assms(2)
    by (auto simp: ring_put_def view_fits_def split: if_splits)
  with * i p show ?thesis by (intro exI [of _ m1]) auto
qed

text \<open>
  C11. \<^verbatim>\<open>Queue.get\<close> removes the oldest item exactly once when it returns one and nothing when it returns
  None. When it raises, the ring is as it was found, with one exception: exactly if \<^verbatim>\<open>PyBytes_FromStringAndSize\<close>
  failed in this call, the item has already been removed and is lost.
\<close>

theorem queue_get_takes_once:
  assumes "clock_errors w" and "view_fits q"
    and "run (queue_get others fl fuel q args kws m) w = ((Returned r, m'), w')"
  shows "\<exists>m1. idle others (qo_view q) m m1 \<and>
    (case r of
       Inr (Some x) \<Rightarrow> ring_get (qo_view q) m1 = (0, m', Some x) \<and>
         (ring_inv (qo_view q) m1 \<longrightarrow> ring_inv (qo_view q) m' \<and> ring_list (qo_view q) m1 = x # ring_list (qo_view q) m')
     | Inr None \<Rightarrow> m' = m1
     | Inl e \<Rightarrow> if balance bytes_failed w' = balance bytes_failed w then m' = m1
                else e = Pending \<and> balance bytes_failed w' = balance bytes_failed w + 1 \<and> (\<exists>x. ring_get (qo_view q) m1 = (0, m', Some x)))"
proof -
  have early: "leaves clock_ok bytes_failed (taken_post others (qo_view q) (qo_item_size q) m) (ret (Returned (Inl e), m))" for e
    by (rule leaves_ret) (auto intro!: taken_post_idle idle_refl)
  have "leaves clock_ok bytes_failed (taken_post others (qo_view q) (qo_item_size q) m) (queue_get others fl fuel q args kws m)"
    unfolding queue_get_def
    by (intro leaves_any_bind [OF keeps_state_from [OF sync_quietD(1) [OF sync_quiet_failed]]] leaves_option early leaves_sum leaves_if
        leaves_any_bind [OF keeps_parse_acquire [OF sync_quietD(1) [OF sync_quiet_failed]]] leaves_any_bind [OF keeps_failed_free(2)]
        leaves_get_locked)
  from leavesD [OF this clock_okI [OF assms(1)] assms(3)]
  obtain m1 where i: "idle others (qo_view q) m m1" and
    p: "case r of Inr (Some x) \<Rightarrow> ring_get (qo_view q) m1 = (0, m', Some x) | Inr None \<Rightarrow> m' = m1
      | Inl e \<Rightarrow> if balance bytes_failed w' = balance bytes_failed w then m' = m1
                else e = Pending \<and> balance bytes_failed w' = balance bytes_failed w + 1 \<and> (\<exists>x. ring_get (qo_view q) m1 = (0, m', Some x))"
    using assms(2) by (cases r) (auto simp: taken_post_def ring_get_def view_fits_def split: option.splits)
  have "ring_inv (qo_view q) m' \<and> ring_list (qo_view q) m1 = x # ring_list (qo_view q) m'"
    if "ring_get (qo_view q) m1 = (0, m', Some x)" "ring_inv (qo_view q) m1" for x
    using rq.get_keeps [OF that(2,1)] by (auto split: list.splits if_splits)
  with i p show ?thesis by (intro exI [of _ m1]) (auto split: sum.splits option.splits)
qed

section \<open>Concrete runs\<close>

definition demo_queue :: PosixIPCQueueObject where
  "demo_queue = \<lparr>qo_put_lock = Some 1, qo_get_lock = Some 2, qo_not_full = Some 3, qo_not_empty = Some 4, qo_region = Some 5,
     qo_first_slot = 0, qo_depth = 3, qo_item_size = 1, qo_cond_flags = 0, qo_view = demo_view, qo_flags = FLAG_BOUND\<rparr>"

text \<open>Every call succeeds, the exported buffer holds the byte 30, and nobody else uses the ring.\<close>

fun queue_answer :: "syscall \<Rightarrow> answer" where
  "queue_answer (Py (GetBuffer ob)) = answer0\<lparr>a_bytes := [30]\<rparr>"
| "queue_answer c = answer0"

definition queue_world :: world where
  "queue_world = \<lparr>env = \<lambda>h. queue_answer, trace = []\<rparr>"

definition alone :: others where
  "alone h m = m"

lemma answer_to_queue: "env w = env queue_world \<Longrightarrow> answer_to w c = queue_answer c"
  by (simp add: answer_to_def queue_world_def)

lemma queue_world_clock: "clock_errors queue_world"
  by (simp add: clock_errors_def queue_world_def answer0_def)

lemma demo_fits: "view_fits demo_queue"
  by (simp add: view_fits_def demo_queue_def demo_view_def)

lemma count_of_items: "ring_list v m = x # xs \<or> ring_list v m = xs @ [x] \<Longrightarrow> c_count (r_ctrl m) > 0"
  by (rule ccontr) (auto simp: ring_list_def word_gt_0)

lemma items_of_count: "c_count (r_ctrl m) > 0 \<Longrightarrow> ring_list v m \<noteq> []"
  by (auto simp: ring_list_def unat_eq_zero)

lemmas run_queue_defs = queue_lock_def posixipc_mutex_lock_def posixipc_mutex_unlock_def posixipc_cond_signal_def
  posixipc_state_from_obj_def posixipc_state_from_type_def posixipc_parse_acquire_def parse_timeout_def posixipc_queue_qsize_def

lemma demo_put:
  assumes "env w = env queue_world"
  shows "\<exists>w'. run (queue_put alone (\<lambda>x. x) 1 demo_queue [Obj 1] [] demo_ring0) w =
     ((Returned (Inr True), snd (ring_put demo_view demo_ring0 [30])), w') \<and> env w' = env queue_world"
  using assms
  by (simp add: queue_put_def queue_check_open_def flag_set_def put_locked_def run_queue_defs io_simps answer_to_queue answer0_def alone_def
      demo_queue_def demo_view_def demo_ring0_def ring_put_def posixipc_queue_put_def Let_def word_le_nat_alt word_less_nat_alt)

lemma demo_get:
  assumes "env w = env queue_world" and "c_count (r_ctrl m) > 0" and "ring_inv demo_view m"
  shows "\<exists>m' x w'. run (queue_get alone (\<lambda>x. x) 1 demo_queue [] [] m) w = ((Returned (Inr (Some x)), m'), w')"
proof -
  obtain x xs where "ring_list demo_view m = x # xs"
    using items_of_count [OF assms(2), of demo_view] by (cases "ring_list demo_view m") auto
  with rq.get_some [OF assms(3)] obtain m' where "ring_get demo_view m = (0, m', Some x)" by blast
  then have "posixipc_queue_get (Some demo_view) m (Some (replicate (unat (q_item_size demo_view)) 0)) = (0, m', Some x)"
    by (auto simp: ring_get_def split: prod.splits if_splits)
  then have "posixipc_queue_get (Some demo_view) m (Some [0]) = (0, m', Some x)" by (simp add: demo_view_def)
  then show ?thesis using assms
    by (simp add: queue_get_def queue_check_open_def flag_set_def get_locked_def run_queue_defs io_simps answer_to_queue answer0_def alone_def
        demo_queue_def demo_view_def)
qed

theorem queue_ops_give_back_witness:
  "\<exists>m1 w1 m2 w2 x. run (queue_put alone (\<lambda>x. x) 1 demo_queue [Obj 1] [] demo_ring0) queue_world = ((Returned (Inr True), m1), w1) \<and>
     run (queue_get alone (\<lambda>x. x) 1 demo_queue [] [] m1) w1 = ((Returned x, m2), w2) \<and>
     balance (lock_delta 1) w2 = - balance (lost_delta 1) w2 \<and> balance (buffer_delta (Obj 1)) w1 = 0"
proof -
  let ?m1 = "snd (ring_put demo_view demo_ring0 [30])"
  obtain w1 where p: "run (queue_put alone (\<lambda>x. x) 1 demo_queue [Obj 1] [] demo_ring0) queue_world = ((Returned (Inr True), ?m1), w1)"
    and e: "env w1 = env queue_world" using demo_put [of queue_world] by auto
  have k: "ring_inv demo_view ?m1" "ring_list demo_view ?m1 = ring_list demo_view demo_ring0 @ [[30]]"
    using rq.put_room [OF demo_ring0_inv, of "[30]"] length_ring_list [of demo_view demo_ring0]
    by (auto simp: demo_view_def demo_ring0_def)
  from demo_get [OF e count_of_items [OF disjI2 [OF k(2)]] k(1)] obtain x m2 w2 where
    g: "run (queue_get alone (\<lambda>x. x) 1 demo_queue [] [] ?m1) w1 = ((Returned (Inr (Some x)), m2), w2)" by blast
  have "balance (lock_delta 1) queue_world = 0" "balance (lost_delta 1) queue_world = 0" "balance (buffer_delta (Obj 1)) queue_world = 0"
    by (simp_all add: balance_def queue_world_def)
  with queue_ops_give_back [OF p g, of "Obj 1" 0 1] p g show ?thesis by auto
qed

theorem queue_put_stores_once_witness:
  "\<exists>m1 m' w'. run (queue_put alone (\<lambda>x. x) 1 demo_queue [Obj 1] [] demo_ring0) queue_world = ((Returned (Inr True), m'), w') \<and>
     idle alone demo_view demo_ring0 m1 \<and> posixipc_queue_put (Some demo_view) m1 (Some [30]) = (0, m')"
proof -
  obtain m' w' where p: "run (queue_put alone (\<lambda>x. x) 1 demo_queue [Obj 1] [] demo_ring0) queue_world = ((Returned (Inr True), m'), w')"
    using demo_put [of queue_world] by auto
  have "qo_view demo_queue = demo_view" "a_bytes (env queue_world h (Py (GetBuffer (hd [Obj 1])))) = [30]" for h
    by (simp_all add: demo_queue_def queue_world_def)
  with queue_put_stores_once [OF queue_world_clock demo_fits p] p show ?thesis by auto
qed

theorem queue_get_takes_once_witness:
  "\<exists>x m1 m' w'. run (queue_get alone (\<lambda>x. x) 1 demo_queue [] [] demo_ring) queue_world = ((Returned (Inr (Some x)), m'), w') \<and>
     idle alone demo_view demo_ring m1 \<and> ring_get demo_view m1 = (0, m', Some x)"
proof -
  have "c_count (r_ctrl demo_ring) > 0" by (simp add: demo_ring_def word_gt_0)
  then obtain x m' w' where g: "run (queue_get alone (\<lambda>x. x) 1 demo_queue [] [] demo_ring) queue_world = ((Returned (Inr (Some x)), m'), w')"
    using demo_get [of queue_world demo_ring] demo_ring_inv by blast
  have "qo_view demo_queue = demo_view" by (simp add: demo_queue_def)
  with queue_get_takes_once [OF queue_world_clock demo_fits g] g show ?thesis by auto
qed

section \<open>The timeout starts again at every wakeup\<close>

text \<open>A world in which the clock moves with every call and every condition wait is woken at once.\<close>

fun restless_env :: "history \<Rightarrow> syscall \<Rightarrow> answer" where
  "restless_env h (Clock_gettime clk) = answer0\<lparr>a_ts := \<lparr>tv_sec = int (length h), tv_nsec = 0\<rparr>\<rparr>"
| "restless_env h (Py (AsDouble ob)) = answer0\<lparr>a_dbl := Fin 1\<rparr>"
| "restless_env h (Py (GetBuffer ob)) = answer0\<lparr>a_bytes := [40]\<rparr>"
| "restless_env h c = answer0"

definition restless_world :: world where
  "restless_world = \<lparr>env = restless_env, trace = []\<rparr>"

definition full_ring :: ring where
  "full_ring = \<lparr>r_ctrl = \<lparr>c_head = 0, c_tail = 0, c_count = 3, c_flags = 0, c_depth = 3, c_item_size = 1\<rparr>,
                r_state = [3, 3, 3], r_payload = [10, 20, 30]\<rparr>"

lemma answer_to_restless: "env w = env restless_world \<Longrightarrow> answer_to w c = restless_env (trace w) c"
  by (simp add: answer_to_def restless_world_def)

lemma restless_time: "time_passes restless_world"
  unfolding time_passes_def
proof
  fix d
  show "\<exists>n. clock_passes restless_world d n"
    by (rule exI [of _ "Suc (nat (tv_sec (d_ts d)))"])
      (auto simp: clock_passes_def restless_world_def answer0_def Let_def)
qed

definition one_second :: posixipc_acquire_opts where
  "one_second = \<lparr>timeout_none = False, timeout = Fin 1, blocking = True, interruptible = True\<rparr>"

lemma restless_wait:
  assumes "env w = env restless_world"
  shows "\<exists>w'. run (queue_wait_cond alone (\<lambda>x. x) (Suc k) demo_queue (Some 3) (Some 1) one_second m) w = ((Returned 0, m), w') \<and>
     env w' = env restless_world"
  using assms
  by (simp add: queue_wait_cond_def queue_sleep_def one_second_def posixipc_deadline_from_seconds_def add_seconds_def
      posixipc_blocking_wait_def queue_cond_until_cb_def posixipc_cond_wait_until_def io_simps answer_to_restless answer0_def
      to_time_t_def dbl_neg_def trunc_to_zero_def demo_queue_def posixipc_cond_clock_def flag_set_def deadline0_def alone_def Let_def)

lemma restless_await:
  assumes "env w = env restless_world"
  shows "fst (fst (run (queue_await n alone (\<lambda>x. x) (Suc k) demo_queue (\<lambda>n. n < qo_depth demo_queue) (Some 3) one_second full_ring) w)) = Unfinished"
  using assms
proof (induction n arbitrary: w)
  case (Suc n)
  obtain w' where "run (queue_wait_cond alone (\<lambda>x. x) (Suc k) demo_queue (Some 3) (Some 1) one_second full_ring) w =
      ((Returned 0, full_ring), w')" "env w' = env restless_world"
    using restless_wait [OF Suc.prems] by blast
  then show ?case
    using Suc.IH [of w'] by (simp add: io_simps posixipc_queue_qsize_def demo_queue_def demo_view_def full_ring_def one_second_def)
qed (simp add: run_ret)

lemma restless_put:
  "\<exists>w. env w = env restless_world \<and>
     (fst (fst (run (queue_await fuel alone (\<lambda>x. x) fuel demo_queue (\<lambda>n. n < qo_depth demo_queue) (Some 3) one_second full_ring) w)) =
        Unfinished \<longrightarrow>
      fst (fst (run (queue_put alone (\<lambda>x. x) fuel demo_queue [Obj 1, Obj 2] [] full_ring) restless_world)) = Unfinished)"
proof -
  let ?w1 = "after (after (after restless_world (Py Type_GetModule)) (Py (AsDouble (Obj 2)))) (Py Err_Occurred)"
  let ?w = "after (after (after (after ?w1 (Py (GetBuffer (Obj 1)))) (Py SaveThread)) (Mutex (Mutex_lock 1))) (Py RestoreThread)"
  obtain oc m' w' where r: "run (queue_await fuel alone (\<lambda>x. x) fuel demo_queue (\<lambda>n. n < qo_depth demo_queue) (Some 3) one_second full_ring) ?w =
      ((oc, m'), w')" by (metis prod_cases3 surj_pair)
  have q: "qo_put_lock demo_queue = Some 1" "qo_not_full demo_queue = Some 3" "qo_item_size demo_queue = 1" "queue_check_open demo_queue = None"
    by (simp_all add: demo_queue_def queue_check_open_def flag_set_def)
  have p: "run (posixipc_parse_acquire [Obj 2] []) (after restless_world (Py Type_GetModule)) = (Inr one_second, ?w1)"
    by (simp add: posixipc_parse_acquire_def parse_timeout_def io_simps answer_to_restless answer0_def dbl_neg_def one_second_def)
  have s: "run posixipc_state_from_obj restless_world = (None, after restless_world (Py Type_GetModule))"
    by (simp add: posixipc_state_from_obj_def posixipc_state_from_type_def io_simps answer_to_restless answer0_def)
  have "fst (fst (run (queue_put alone (\<lambda>x. x) fuel demo_queue [Obj 1, Obj 2] [] full_ring) restless_world)) = Unfinished"
    if "oc = Unfinished"
    using that r s p q
    by (simp add: queue_put_def put_locked_def queue_lock_def posixipc_mutex_lock_def io_simps answer_to_restless answer0_def alone_def
        del: queue_await.simps)
  then show ?thesis using r by (intro exI [of _ ?w]) auto
qed

text \<open>
  The timeout of \<^verbatim>\<open>Queue.put\<close> is not a bound on the call: the deadline is computed anew after every
  wakeup. In a world whose clock passes every deadline, where the queue stays full and each wait is
  woken (spuriously, or because another producer took the free slot), a put with a timeout of
  one second does not return within any number of turns.
\<close>

theorem queue_put_timeout_restarts:
  "time_passes restless_world \<and>
   fst (fst (run (queue_put alone (\<lambda>x. x) fuel demo_queue [Obj 1, Obj 2] [] full_ring) restless_world)) = Unfinished"
proof -
  obtain w where e: "env w = env restless_world" and
    p: "fst (fst (run (queue_await fuel alone (\<lambda>x. x) fuel demo_queue (\<lambda>n. n < qo_depth demo_queue) (Some 3) one_second full_ring) w)) =
        Unfinished \<longrightarrow>
      fst (fst (run (queue_put alone (\<lambda>x. x) fuel demo_queue [Obj 1, Obj 2] [] full_ring) restless_world)) = Unfinished"
    using restless_put [of fuel] by blast
  have "fst (fst (run (queue_await fuel alone (\<lambda>x. x) fuel demo_queue (\<lambda>n. n < qo_depth demo_queue) (Some 3) one_second full_ring) w)) = Unfinished"
    using restless_await [OF e] by (cases fuel) (simp_all add: run_ret del: queue_await.simps(2))
  with p restless_time show ?thesis by simp
qed

section \<open>Variants that do not wait\<close>

text \<open>
  How many calls were made that can sleep, other than locking the mutex \<open>lo\<close>: waits on a condition
  variable, timed or not, and every other call that can block without a deadline.
\<close>

fun sleeps :: "addr option \<Rightarrow> syscall \<Rightarrow> bool" where
  "sleeps lo (Cond (Cond_timedwait cv p ts)) = True"
| "sleeps lo (Mutex (Mutex_lock p)) = (lo \<noteq> Some p)"
| "sleeps lo c = may_hang c"

definition wait_delta :: "addr option \<Rightarrow> syscall \<Rightarrow> answer \<Rightarrow> int" where
  "wait_delta lo c a = (if sleeps lo c then 1 else 0)"

text \<open>\<open>Py_False\<close> is false.\<close>

definition false_is_false :: "pyobj \<Rightarrow> (history \<Rightarrow> syscall \<Rightarrow> answer) \<Rightarrow> bool" where
  "false_is_false f e \<longleftrightarrow> (\<forall>h. a_ret (e h (Py (IsTrue f))) = 0)"

lemma yields_parse_nowait:
  "yields (false_is_false f) (\<lambda>p. \<forall>opts. p = Inr opts \<longrightarrow> \<not> blocking opts) (posixipc_parse_acquire [] [(''blocking'', f)])"
  unfolding yields_def
  by (auto simp: posixipc_parse_acquire_def parse_timeout_def io_simps false_is_false_def answer_to_def split: if_splits)

lemma keeps_wait_unlock: "keeps (wait_delta lo) (posixipc_mutex_unlock l)"
  unfolding posixipc_mutex_unlock_def by (intro keeps_rules) (simp add: wait_delta_def)

lemma keeps_wait_lock: "keeps (wait_delta lo) (queue_lock others q lo m)"
  unfolding queue_lock_def posixipc_mutex_lock_def
  by (cases lo; simp only: option.case; intro keeps_rules keeps_meanwhile keeps_queue_repair keeps_wait_unlock)
    (simp_all add: wait_delta_def)

text \<open>Without waiting one turn of the loop is enough.\<close>

lemma await_nowait:
  assumes "\<not> blocking opts"
  shows "queue_await (Suc n) others fl fuel q ready cv opts m =
    (case posixipc_queue_qsize (Some (qo_view q)) m (Some 0) of (rc, num) \<Rightarrow>
       if rc = 0 \<and> ready (the num) then ret (Returned (Inr True), m)
       else do { _ \<leftarrow> posixipc_mutex_unlock (qo_put_lock q);
                 ret (Returned (if rc \<noteq> 0 then Inl (raise_err EINVAL) else Inr False), m) })"
  using assms by (auto split: prod.splits)

text \<open>A call that returns without having waited.\<close>

definition prompt :: "addr option \<Rightarrow> ((history \<Rightarrow> syscall \<Rightarrow> answer) \<Rightarrow> bool) \<Rightarrow> ('a outcome \<times> 's) io \<Rightarrow> bool" where
  "prompt lo E m \<longleftrightarrow> effect E (wait_delta lo) (\<lambda>_. 0) m \<and> yields E (\<lambda>r. \<exists>x. fst r = Returned x) m"

lemma promptI: "keeps (wait_delta lo) m \<Longrightarrow> yields E (\<lambda>r. \<exists>x. fst r = Returned x) m \<Longrightarrow> prompt lo E m"
  by (simp add: prompt_def effect_keeps)

lemma prompt_bind:
  assumes "keeps (wait_delta lo) m" and "yields E Q m" and "\<And>x. Q x \<Longrightarrow> prompt lo E (f x)"
  shows "prompt lo E (m \<bind> f)"
  unfolding prompt_def
proof
  show "yields E (\<lambda>r. \<exists>x. fst r = Returned x) (m \<bind> f)"
    using assms by (intro yields_bind [OF assms(2)]) (simp add: prompt_def)
  show "effect E (wait_delta lo) (\<lambda>_. 0) (m \<bind> f)"
    unfolding effect_def
  proof (intro allI impI)
    fix w y w'
    assume e: "E (env w)" and r: "run (m \<bind> f) w = (y, w')"
    obtain x w1 where m: "run m w = (x, w1)" by fastforce
    then have f: "run (f x) w1 = (y, w')" using r by (simp add: run_bind)
    have p: "effect E (wait_delta lo) (\<lambda>_. 0) (f x)" using assms(3) [OF yieldsD(2) [OF assms(2) e m]] by (simp add: prompt_def)
    have e1: "E (env w1)" using keepsD(1) [OF assms(1) m] e by simp
    from keepsD(1,3) [OF assms(1) m] effectD [OF p e1 f]
    show "env w' = env w \<and> balance (wait_delta lo) w' = balance (wait_delta lo) w + 0" by simp
  qed
qed

lemma prompt_keeps_bind: "keeps (wait_delta lo) m \<Longrightarrow> (\<And>x. prompt lo E (f x)) \<Longrightarrow> prompt lo E (m \<bind> f)"
  using prompt_bind [of lo m E "\<lambda>_. True" f] by (auto simp: yields_def dest: keepsD(1))

lemma prompt_ret: "prompt lo E (ret (Returned x, s))"
  by (auto intro!: promptI keeps_ret yields_ret)

lemma prompt_if: "(b \<Longrightarrow> prompt lo E m) \<Longrightarrow> (\<not> b \<Longrightarrow> prompt lo E m') \<Longrightarrow> prompt lo E (if b then m else m')"
  by simp

lemma prompt_option:
  "(x = None \<Longrightarrow> prompt lo E m) \<Longrightarrow> (\<And>y. x = Some y \<Longrightarrow> prompt lo E (f y)) \<Longrightarrow> prompt lo E (case x of None \<Rightarrow> m | Some y \<Rightarrow> f y)"
  by (cases x) simp_all

lemma prompt_sum:
  "(\<And>y. x = Inl y \<Longrightarrow> prompt lo E (g y)) \<Longrightarrow> (\<And>y. x = Inr y \<Longrightarrow> prompt lo E (f y)) \<Longrightarrow>
   prompt lo E (case x of Inl y \<Rightarrow> g y | Inr y \<Rightarrow> f y)"
  by (cases x) simp_all

lemma prompt_prod: "(\<And>a b. p = (a, b) \<Longrightarrow> prompt lo E (f a b)) \<Longrightarrow> prompt lo E (case p of (a, b) \<Rightarrow> f a b)"
  by (cases p) simp

lemma keeps_wait_simple:
  "keeps (wait_delta lo) (call (Py c))" "keeps (wait_delta lo) (call_ignore (Py c))" "keeps (wait_delta lo) (posixipc_mutex_unlock l)"
  "keeps (wait_delta lo) (posixipc_cond_signal cv)" "keeps (wait_delta lo) (allow_threads (queue_lock others q lo m))"
  by (rule keeps_call keeps_call_ignore keeps_wait_unlock keeps_cond_signal keeps_allow_threads [OF _ keeps_wait_lock];
      simp add: lock_like_def wait_delta_def)+

lemma lock_like_wait: "lock_like (wait_delta lo)"
  by (simp add: lock_like_def wait_delta_def)

lemma await_nowait_post:
  assumes "\<not> blocking opts"
  shows "keeps (wait_delta lo) (queue_await (Suc n) others fl fuel q ready cv opts m)"
    and "yields E (\<lambda>(oc, m). \<exists>r. oc = Returned r) (queue_await (Suc n) others fl fuel q ready cv opts m)"
  unfolding await_nowait [OF assms]
  by (intro keeps_rules keeps_wait_simple)
    (intro yields_rules yields_any_bind [OF keeps_mutex_unlock [OF refl]] yields_ret; simp)

lemma prompt_put_locked:
  assumes "\<not> blocking opts" and "0 < fuel"
  shows "prompt (qo_put_lock q) E (put_locked others fl fuel q ob data opts m)"
proof -
  obtain n where n: "fuel = Suc n" using assms(2) by (cases fuel) auto
  show ?thesis
    unfolding put_locked_def
    apply (intro prompt_keeps_bind [OF keeps_wait_simple(5)] prompt_prod prompt_if prompt_keeps_bind [OF keeps_wait_simple(2)] prompt_ret)
    apply (unfold n, rule prompt_bind [OF await_nowait_post [OF assms(1)]], elim exE case_prodE)
    apply (simp del: queue_await.simps, intro conjI impI prompt_prod prompt_keeps_bind [OF keeps_wait_simple(3)]
        prompt_keeps_bind [OF keeps_wait_simple(2)] prompt_if prompt_keeps_bind [OF keeps_wait_simple(4)] prompt_ret)
    done
qed

lemma prompt_get_locked:
  assumes "\<not> blocking opts" and "0 < fuel"
  shows "prompt (qo_put_lock q) E (get_locked others fl fuel q buf opts m)"
proof -
  obtain n where n: "fuel = Suc n" using assms(2) by (cases fuel) auto
  show ?thesis
    unfolding get_locked_def
    apply (intro prompt_keeps_bind [OF keeps_wait_simple(5)] prompt_prod prompt_if prompt_keeps_bind [OF keeps_wait_simple(2)] prompt_ret)
    apply (unfold n, rule prompt_bind [OF await_nowait_post [OF assms(1)]], elim exE case_prodE)
    apply (simp del: queue_await.simps, intro conjI impI prompt_prod prompt_keeps_bind [OF keeps_wait_simple(3)]
        prompt_keeps_bind [OF keeps_wait_simple(2)] prompt_keeps_bind [OF keeps_wait_simple(1)] prompt_if
        prompt_keeps_bind [OF keeps_wait_simple(4)] prompt_ret)
    done
qed

lemma nowait_names_post:
  "keeps (wait_delta lo) (nowait_names f)" "yields E (\<lambda>r. \<forall>kws. r = Inr kws \<longrightarrow> kws = [(''blocking'', f)]) (nowait_names f)"
  unfolding nowait_names_def
  by (intro keeps_rules keeps_wait_simple)
    (intro yields_any_bind [OF keeps_call [OF refl]] yields_if yields_ret; simp split: if_splits)

lemma prompt_put_nowait:
  assumes "0 < fuel"
  shows "prompt (qo_put_lock q) (false_is_false f) (queue_put_nowait f others fl fuel q data m)"
proof -
  have put: "prompt (qo_put_lock q) (false_is_false f) (queue_put others fl fuel q [data] [(''blocking'', f)] m)"
    unfolding queue_put_def list.case
    apply (intro prompt_keeps_bind [OF keeps_state_from [OF lock_like_wait]] prompt_option prompt_ret
        prompt_bind [OF keeps_parse_acquire [OF lock_like_wait] yields_parse_nowait] prompt_sum
        prompt_keeps_bind [OF keeps_wait_simple(1)] prompt_if prompt_keeps_bind [OF keeps_wait_simple(2)])
    apply (auto intro!: prompt_put_locked assms)
    done
  show ?thesis
    unfolding queue_put_nowait_def
    by (rule prompt_bind [OF nowait_names_post], intro prompt_sum prompt_ret) (auto intro: put)
qed

lemma prompt_get_nowait:
  assumes "0 < fuel"
  shows "prompt (qo_put_lock q) (false_is_false f) (queue_get_nowait f others fl fuel q m)"
proof -
  have get: "prompt (qo_put_lock q) (false_is_false f) (queue_get others fl fuel q [] [(''blocking'', f)] m)"
    unfolding queue_get_def
    apply (intro prompt_keeps_bind [OF keeps_state_from [OF lock_like_wait]] prompt_option prompt_ret
        prompt_bind [OF keeps_parse_acquire [OF lock_like_wait] yields_parse_nowait] prompt_sum
        prompt_keeps_bind [OF keeps_wait_simple(1)] prompt_if prompt_keeps_bind [OF keeps_wait_simple(2)])
    apply (auto intro!: prompt_get_locked assms)
    done
  show ?thesis
    unfolding queue_get_nowait_def
    by (rule prompt_bind [OF nowait_names_post], intro prompt_sum prompt_ret) (auto intro: get)
qed



section \<open>Binding\<close>

lemma keeps_queue_pointers:
  "(\<And>c a. \<delta> (Mem c) a = 0) \<Longrightarrow> keeps \<delta> (queue_pointers c q ob slots first m)"
  unfolding queue_pointers_def bind_ptr_def by (intro keeps_rules keeps_region_ptr)

text \<open>What the search for the pointers leaves, whether it succeeds or not.\<close>

lemma queue_map_fits: "posixipc_queue_map c ptr nb d i (Some v0) = (0, v) \<Longrightarrow> q_depth (the v) = d \<and> q_item_size (the v) = i"
  by (auto simp: posixipc_queue_map_def Let_def split: option.splits if_splits)

definition pointers_post :: "PosixIPCQueueObject \<Rightarrow> ring \<Rightarrow> pyexc option \<times> PosixIPCQueueObject \<Rightarrow> bool" where
  "pointers_post q m = (\<lambda>(e, q').
     qo_region q' = qo_region q \<and> qo_flags q' = qo_flags q \<and> qo_depth q' = qo_depth q \<and> qo_item_size q' = qo_item_size q \<and>
     (e = None \<longrightarrow> view_fits q' \<and> c_depth (r_ctrl m) = qo_depth q \<and> c_item_size (r_ctrl m) = qo_item_size q))"

lemma yields_pointers: "yields E (pointers_post q m) (queue_pointers c q ob slots first m)"
  unfolding queue_pointers_def bind_ptr_def
  apply (intro yields_any_bind [OF keeps_region_ptr [OF refl]] yields_prod yields_if yields_ret)
          apply (auto simp: pointers_post_def view_fits_def Let_def dest!: queue_map_fits intro!: yields_ret)
  done

lemma queue_bind_post:
  assumes "run (posixipc_queue_bind c q H r slots first m) w = ((e, q', H'), w')"
  shows "qo_depth q' = qo_depth q \<and> qo_item_size q' = qo_item_size q \<and>
    (e \<noteq> None \<longrightarrow> H' = H \<and> qo_region q' = qo_region q \<and> qo_flags q' = qo_flags q) \<and>
    (e = None \<longrightarrow> view_fits q' \<and> c_depth (r_ctrl m) = qo_depth q \<and> c_item_size (r_ctrl m) = qo_item_size q \<and>
       \<not> shm_is_closed (H r) \<and> H' = H(r := (H r)\<lparr>s_pins := s_pins (H r) + 1\<rparr>) \<and> qo_region q' = Some r \<and>
       qo_first_slot q' = first \<and> qo_flags q' = qo_flags q OR (FLAG_BOUND OR FLAG_PROCESS_SHARED))"
proof -
  obtain st w1 where st: "run posixipc_state_from_obj w = (st, w1)" by fastforce
  obtain e1 q1 w2 where p: "run (queue_pointers c q (H r) slots first m) w1 = ((e1, q1), w2)" by (metis prod_cases3 surj_pair)
  have pp: "pointers_post q m (e1, q1)" by (rule yieldsD(2) [OF yields_pointers [of "\<lambda>_. True"] TrueI p])
  obtain st2 w3 where st2: "run posixipc_state_from_obj w2 = (st2, w3)" by fastforce
  show ?thesis
    using assms st p st2 pp
    by (cases st; cases e1)
      (auto simp: posixipc_queue_bind_def run_bind run_ret run_if run_pin_region pointers_post_def view_fits_def split: if_splits)
qed

text \<open>
  C36. Binding a queue handle to its five slots makes it well formed or leaves it unbound: on success
  the view, the handle and the control word in the segment agree on depth and item size, the
  handle is bound to the segment and holds one pin of it; on failure region, flags and pins are
  as before. Closing the handle returns the pin, and every later operation is refused.
\<close>

theorem queue_bind_wellformed:
  assumes "run (posixipc_queue_bind c q H r slots first m) w = ((e, q', H'), w')" and "\<not> flag_set (qo_flags q) FLAG_CLOSED"
  shows "(e = None \<longrightarrow>
            view_fits q' \<and> c_depth (r_ctrl m) = q_depth (qo_view q') \<and> c_item_size (r_ctrl m) = q_item_size (qo_view q') \<and>
            queue_get_bound q' \<and> queue_get_region q' = Obj r \<and> s_pins (H' r) = s_pins (H r) + 1 \<and>
            snd (queue_close q' H') = H \<and> queue_check_open (fst (queue_close q' H')) = Some ClosedError) \<and>
         (e \<noteq> None \<longrightarrow> H' = H \<and> qo_region q' = qo_region q \<and> qo_flags q' = qo_flags q)"
proof -
  note b = queue_bind_post [OF assms(1)]
  have nc: "\<not> flag_set (qo_flags q OR (FLAG_BOUND OR FLAG_PROCESS_SHARED)) FLAG_CLOSED"
    and bd: "flag_set (qo_flags q OR (FLAG_BOUND OR FLAG_PROCESS_SHARED)) FLAG_BOUND"
    using assms(2) by (simp_all add: flag_set_or) (simp_all add: flag_set_def)
  show ?thesis
    using b nc bd
    by (auto simp: view_fits_def queue_get_bound_def queue_get_region_def queue_close_def queue_is_closed_def queue_check_open_def
        unpin_region_def posixipc_raise_closed_def flag_set_or) (simp_all add: flag_set_def)
qed

definition slot_at :: "u16 \<Rightarrow> u16 \<Rightarrow> u32 \<Rightarrow> u32 \<Rightarrow> posixipc_slot" where
  "slot_at kind al off sz = \<lparr>s_kind = kind, s_align = al, s_offset = off, s_size = sz, s_init_flags = FLAG_PROCESS_SHARED\<rparr>"

definition demo_queue_slots :: "posixipc_slot list" where
  "demo_queue_slots = [slot_at KIND_ROBUST_MUTEX 8 96 40, slot_at KIND_ROBUST_MUTEX 8 136 40, slot_at KIND_COND 8 176 48,
                  slot_at KIND_COND 8 224 48, slot_at KIND_BYTES 64 320 384]"

definition fresh_queue :: PosixIPCQueueObject where
  "fresh_queue = demo_queue\<lparr>qo_put_lock := None, qo_region := None, qo_depth := 2, qo_item_size := 100, qo_view := view_null,
                            qo_flags := FLAG_PROCESS_SHARED\<rparr>"

definition blank_ring :: ring where
  "blank_ring = \<lparr>r_ctrl = \<lparr>c_head = 0, c_tail = 0, c_count = 0, c_flags = 0, c_depth = 2, c_item_size = 100\<rparr>,
                 r_state = [0, 0], r_payload = replicate 256 0\<rparr>"

lemma demo_map: "posixipc_queue_map glibc_x86_64 (Some b) 384 2 100 (Some view_null) =
  (0, Some \<lparr>q_ctrl = Some b, q_state = Some (b + 64), q_payload = Some (b + 128), q_depth = 2, q_item_size = 100, q_stride = 128\<rparr>)"
  by (simp add: posixipc_queue_map_def posixipc_queue_bytes_size_def ctrl_bytes_def state_bytes_def queue_align_up_def
      glibc_x86_64_def Let_def word_le_nat_alt)

theorem queue_bind_wellformed_witness:
  "\<exists>q' H' w'. run (posixipc_queue_bind glibc_x86_64 fresh_queue demo_regions 5 demo_queue_slots 0 blank_ring) mapped_world = ((None, q', H'), w') \<and>
     view_fits q' \<and> s_pins (H' 5) = 1 \<and> snd (queue_close q' H') = demo_regions"
proof -
  obtain q' H' w' where b: "run (posixipc_queue_bind glibc_x86_64 fresh_queue demo_regions 5 demo_queue_slots 0 blank_ring) mapped_world = ((None, q', H'), w')"
    using demo_open(1)
    by (simp add: posixipc_queue_bind_def queue_pointers_def bind_ptr_def demo_queue_slots_def slot_at_def region_ptr_def
        posixipc_shm_offset_ptr_def demo_segment_def demo_regions_def posixipc_state_from_obj_def posixipc_state_from_type_def
        run_pin_region io_simps Let_def answer_to_mapped answer0_def demo_map fresh_queue_def demo_queue_def blank_ring_def)
  have "\<not> flag_set (qo_flags fresh_queue) FLAG_CLOSED" by (simp add: fresh_queue_def flag_set_def)
  from queue_bind_wellformed [OF b this] b show ?thesis by (auto simp: demo_regions_def demo_segment_def)
qed

text \<open>A world in which the interpreter cannot allocate a bytes object.\<close>

fun lossy_answer :: "syscall \<Rightarrow> answer" where
  "lossy_answer (Py (BytesFromString x)) = answer0\<lparr>a_ret := - 1\<rparr>"
| "lossy_answer c = answer0"

definition lossy_world :: world where
  "lossy_world = \<lparr>env = \<lambda>h. lossy_answer, trace = []\<rparr>"

lemma answer_to_lossy: "env w = env lossy_world \<Longrightarrow> answer_to w c = lossy_answer c"
  by (simp add: answer_to_def lossy_world_def)

text \<open>
  The exception in the theorem about get is real: where the interpreter cannot allocate the bytes object,
  the oldest item is gone from the queue and was not delivered to anybody.
\<close>

theorem queue_get_loses_item:
  "\<exists>m' w'. run (queue_get alone (\<lambda>x. x) 1 demo_queue [] [] demo_ring) lossy_world = ((Returned (Inl Pending), m'), w') \<and>
     ring_list demo_view demo_ring = [[10], [20]] \<and> ring_list demo_view m' = [[20]]"
proof -
  have l: "ring_list demo_view demo_ring = [[10], [20]]"
    by (simp add: ring_list_def demo_view_def demo_ring_def ring_idx_def slot_data_def upt_rec)
  with rq.get_some [OF demo_ring_inv] obtain m' where
    g: "ring_get demo_view demo_ring = (0, m', Some [10])" "ring_list demo_view m' = [[20]]" by blast
  then have "posixipc_queue_get (Some demo_view) demo_ring (Some (replicate (unat (q_item_size demo_view)) 0)) = (0, m', Some [10])"
    by (auto simp: ring_get_def split: prod.splits if_splits)
  then have "posixipc_queue_get (Some demo_view) demo_ring (Some [0]) = (0, m', Some [10])" by (simp add: demo_view_def)
  moreover have "c_count (r_ctrl demo_ring) > 0" "q_ctrl demo_view = Some 0" by (simp_all add: demo_ring_def demo_view_def word_gt_0)
  moreover have q: "qo_put_lock demo_queue = Some 1" "qo_not_full demo_queue = Some 3" "qo_item_size demo_queue = 1"
      "qo_view demo_queue = demo_view" "queue_check_open demo_queue = None"
    by (simp_all add: demo_queue_def queue_check_open_def flag_set_def)
  ultimately have "\<exists>w'. run (queue_get alone (\<lambda>x. x) 1 demo_queue [] [] demo_ring) lossy_world = ((Returned (Inl Pending), m'), w')"
    by (simp add: queue_get_def get_locked_def run_queue_defs io_simps answer_to_lossy answer0_def alone_def)
  with l g show ?thesis by blast
qed

end
