(* ===== verification/SyncObj.thy ===== *)
theory SyncObj
  imports MutexObj
begin

text \<open>
  Python objects for read-write locks, condition variables and semaphores
  (\<^verbatim>\<open>src/src/bindings/py_sync.c\<close>). The three structs share the fields that say where a handle is
  bound; they are one record here that each type extends. The lemmas show that a lock or a
  permit has been taken exactly when acquire returns True, that a condition wait ends with the
  mutex held exactly when the handle says so, and, once for all types, that the pins of a
  segment count the handles bound to it.
\<close>

section \<open>Shared parts\<close>

record handle =
  x_region :: "addr option"
  x_slot :: u32
  x_kind :: u16
  x_align :: u16
  x_offset :: u32
  x_size :: u32
  x_init_flags :: u32
  x_flags :: u32

definition flags_closed :: "u32 \<Rightarrow> bool" where
  "flags_closed flags \<longleftrightarrow> flag_set flags FLAG_CLOSED"

definition copy_denied :: pyexc where
  "copy_denied = TypeError"

definition reduce_shared :: "string \<Rightarrow> u32 \<Rightarrow> u16 \<Rightarrow> u32 \<Rightarrow> (string \<times> u32 \<times> u16 \<times> u32) pyres io" where
  "reduce_shared name slot kind digest = do {
     st \<leftarrow> posixipc_state_from_type;
     case st of Some e \<Rightarrow> ret (Inl e) | None \<Rightarrow> do {
       a \<leftarrow> call (Py Type_GetModule);
       if a_ret a < 0 then ret (Inl Pending)
       else do {
         f \<leftarrow> call (Py (GetAttr ''_attach_slot''));
         if a_ret f < 0 then ret (Inl Pending)
         else do {
           b \<leftarrow> call (Py (BuildValue ''(sIII)''));
           if a_ret b < 0 then ret (Inl Pending)
           else do {
             t \<leftarrow> call (Py TuplePack);
             ret (if a_ret t < 0 then Inl Pending else Inr (name, slot, kind, digest)) } } } } }"

text \<open>The header pointer and the name of the segment, or the exception.\<close>

definition shared_reduce_check :: "u32 \<Rightarrow> addr option \<Rightarrow> regions \<Rightarrow> (addr \<times> string) pyres" where
  "shared_reduce_check flags region H =
     (if flags_closed flags then Inl posixipc_raise_closed
      else if \<not> flag_set flags FLAG_PROCESS_SHARED \<or> \<not> flag_set flags FLAG_BOUND \<or> region = None then Inl TypeError
      else let core = s_core (H (the region)) in
        case (sh_hdr core, sh_name core) of (Some p, Some (_, nm)) \<Rightarrow> Inr (p, nm) | _ \<Rightarrow> Inl posixipc_raise_closed)"

definition handle_flag_bool :: "u32 \<Rightarrow> u32 \<Rightarrow> bool" where
  "handle_flag_bool flags bits = flag_set flags bits"

definition handle_digest :: "addr option \<Rightarrow> regions \<Rightarrow> nat option pyres io" where
  "handle_digest region H =
     (case region of None \<Rightarrow> ret (Inr None) | Some r \<Rightarrow>
      case sh_hdr (s_core (H r)) of None \<Rightarrow> ret (Inr None) | Some p \<Rightarrow> do {
        h \<leftarrow> call (Mem (Load_header p));
        n \<leftarrow> long_from (unat (h_layout_digest (a_hdr h)));
        ret (case n of Inl e \<Rightarrow> Inl e | Inr v \<Rightarrow> Inr (Some v)) })"

definition handle_region :: "addr option \<Rightarrow> pyobj" where
  "handle_region region = (case region of None \<Rightarrow> Py_None | Some r \<Rightarrow> Obj r)"

text \<open>The reduce methods of the three types differ in nothing but the type of the object.\<close>

definition handle_reduce :: "'a handle_scheme \<Rightarrow> regions \<Rightarrow> (string \<times> u32 \<times> u16 \<times> u32) pyres io" where
  "handle_reduce ob H = do {
     st \<leftarrow> posixipc_state_from_obj;
     case st of Some e \<Rightarrow> ret (Inl e) | None \<Rightarrow>
       case shared_reduce_check (x_flags ob) (x_region ob) H of Inl e \<Rightarrow> ret (Inl e) | Inr (p, nm) \<Rightarrow> do {
         h \<leftarrow> call (Mem (Load_header p));
         reduce_shared nm (x_slot ob) (x_kind ob) (h_layout_digest (a_hdr h)) } }"

text \<open>The common part of binding: the address of the slot with a pin of its segment, or the exception.\<close>

definition bind_slot :: "regions \<Rightarrow> addr \<Rightarrow> posixipc_slot \<Rightarrow> (addr option pyres \<times> regions) io" where
  "bind_slot H r slot = do {
     st \<leftarrow> posixipc_state_from_obj;
     case st of Some e \<Rightarrow> ret (Inl e, H) | None \<Rightarrow> do {
       (rc, ptr) \<leftarrow> region_ptr (H r) (s_offset slot) (s_size slot) (ucast (s_align slot));
       if rc \<noteq> 0 then ret (Inl (raise_err rc), H)
       else do {
         (e, H) \<leftarrow> pin_region H r;
         ret (case e of Some x \<Rightarrow> Inl x | None \<Rightarrow> Inr ptr, H) } } }"

definition bound_to :: "'a handle_scheme \<Rightarrow> addr \<Rightarrow> posixipc_slot \<Rightarrow> u32 \<Rightarrow> 'a handle_scheme" where
  "bound_to ob r slot index =
     ob\<lparr>x_region := Some r, x_slot := index, x_kind := s_kind slot, x_align := s_align slot, x_offset := s_offset slot,
        x_size := s_size slot, x_init_flags := s_init_flags slot,
        x_flags := x_flags ob OR (FLAG_BOUND OR FLAG_PROCESS_SHARED)\<rparr>"

text \<open>The common part of closing: the pin goes back, the region is forgotten, the handle is marked closed.
  The reference to the segment object that \<^verbatim>\<open>Py_CLEAR\<close> drops is not counted here: with the last one the segment object is deallocated
  and closed by force (\<^verbatim>\<open>shm_dealloc\<close> in \<^verbatim>\<open>ShmObj\<close>).\<close>

definition close_handle :: "'a handle_scheme \<Rightarrow> regions \<Rightarrow> 'a handle_scheme \<times> regions" where
  "close_handle ob H =
     (let (ob, H) = (case x_region ob of None \<Rightarrow> (ob, H) | Some r \<Rightarrow> (ob\<lparr>x_region := None\<rparr>, unpin_region H r))
      in (ob\<lparr>x_flags := x_flags ob OR FLAG_CLOSED\<rparr>, H))"

text \<open>An unbound handle of a kind, as the \<^verbatim>\<open>new_unbound\<close> functions fill it.\<close>

definition unbound_handle :: "config \<Rightarrow> u16 \<Rightarrow> u32 \<Rightarrow> u32 \<Rightarrow> handle" where
  "unbound_handle c kind init_flags slot =
     \<lparr>x_region = None, x_slot = slot, x_kind = kind, x_align = ucast (posixipc_kind_align c kind), x_offset = 0,
      x_size = posixipc_kind_size c kind 0, x_init_flags = init_flags, x_flags = init_flags AND NOT FLAG_BOUND\<rparr>"

text \<open>The checks before a private object is initialised: the exception, or none.\<close>

definition init_checks :: "u32 \<Rightarrow> string \<Rightarrow> bool \<Rightarrow> pyexc option io" where
  "init_checks flags fmt process_shared = do {
     st \<leftarrow> posixipc_state_from_obj;
     case st of Some e \<Rightarrow> ret (Some e) | None \<Rightarrow>
       if flag_set flags FLAG_BOUND \<or> flag_set flags FLAG_OWNS_STORAGE then ret (Some RuntimeError)
       else do {
         p \<leftarrow> call (Py (ParseTuple fmt));
         ret (if a_ret p = 0 then Some Pending else if process_shared then Some ValueError else None) } }"

text \<open>The warning about an object that was not closed.\<close>

definition handle_finalize :: "'a handle_scheme \<Rightarrow> unit io" where
  "handle_finalize ob =
     (if flag_set (x_flags ob) FLAG_OWNS_STORAGE \<and> \<not> flags_closed (x_flags ob)
      then call_ignore (Py WarnUnclosed) else ret ())"

section \<open>Read-write locks\<close>

record PosixIPCRWLockObject = handle +
  rw_lock :: "addr option"
  rw_inline_storage :: addr

definition rwlock_check_open :: "PosixIPCRWLockObject \<Rightarrow> pyexc option" where
  "rwlock_check_open ob =
     (if flags_closed (x_flags ob) then Some posixipc_raise_closed
      else if \<not> flag_set (x_flags ob) FLAG_BOUND \<or> rw_lock ob = None then Some posixipc_raise_unbound
      else None)"

definition rd_until_cb :: "addr option \<Rightarrow> clocksym waitfn" where
  "rd_until_cb arg = (\<lambda>g slice. posixipc_rwlock_rdlock_until g arg (Some slice))"

definition wr_until_cb :: "addr option \<Rightarrow> clocksym waitfn" where
  "wr_until_cb arg = (\<lambda>g slice. posixipc_rwlock_wrlock_until g arg (Some slice))"

definition rwlock_result :: "rc \<Rightarrow> bool pyres" where
  "rwlock_result rc =
     (if rc = 0 then Inr True else if rc = ETIMEDOUT \<or> rc = EBUSY then Inr False else Inl (raise_err rc))"

text \<open>The deadline of a timed acquire; \<open>clock\<close> is the clock the primitive's timed call uses.\<close>

definition user_deadline ::
    "(rat \<Rightarrow> rat) \<Rightarrow> (clocksym \<Rightarrow> (clockid \<times> clocksym) io) \<Rightarrow> posixipc_acquire_opts \<Rightarrow> clocksym \<Rightarrow>
     ((rc \<times> posixipc_deadline option) option \<times> clocksym) io" where
  "user_deadline fl clock opts g =
     (if timeout_none opts then ret (Some (0, None), g)
      else do {
        (clk, g) \<leftarrow> clock g;
        d \<leftarrow> posixipc_deadline_from_seconds fl clk (timeout opts) (Some deadline0);
        ret (d, g) })"

definition rwlock_acquire_mode ::
    "(rat \<Rightarrow> rat) \<Rightarrow> nat \<Rightarrow> clocksym \<Rightarrow> PosixIPCRWLockObject \<Rightarrow> posixipc_acquire_opts \<Rightarrow> bool \<Rightarrow>
     (bool pyres outcome \<times> clocksym) io" where
  "rwlock_acquire_mode fl fuel g ob opts writer = do {
     st \<leftarrow> posixipc_state_from_obj;
     case st of Some e \<Rightarrow> ret (Returned (Inl e), g) | None \<Rightarrow>
       case rwlock_check_open ob of Some e \<Rightarrow> ret (Returned (Inl e), g) | None \<Rightarrow> do {
         rc \<leftarrow> (if writer then posixipc_rwlock_trywrlock (rw_lock ob) else posixipc_rwlock_tryrdlock (rw_lock ob));
         if rc \<noteq> EBUSY then ret (Returned (rwlock_result rc), g)
         else if \<not> blocking opts \<or> (\<not> timeout_none opts \<and> timeout opts = Fin 0) then ret (Returned (Inr False), g)
         else do {
           (d, g) \<leftarrow> user_deadline fl posixipc_rwlock_clock opts g;
           case d of None \<Rightarrow> ret (Undefined, g) | Some (rc, userp) \<Rightarrow>
             if rc \<noteq> 0 then ret (Returned (Inl (raise_err rc)), g)
             else if \<not> interruptible opts \<and> timeout_none opts then do {
               rc \<leftarrow> allow_threads (if writer then posixipc_rwlock_wrlock (rw_lock ob) else posixipc_rwlock_rdlock (rw_lock ob));
               ret (Returned (rwlock_result rc), g) }
             else do {
               (clk, g) \<leftarrow> posixipc_rwlock_clock g;
               res \<leftarrow> posixipc_blocking_wait fuel (if writer then wr_until_cb (rw_lock ob) else rd_until_cb (rw_lock ob))
                       userp (interruptible opts) clk g;
               case res of None \<Rightarrow> ret (Unfinished, g) | Some (rc, g) \<Rightarrow> ret (Returned (rwlock_result rc), g) } } } }"

definition rwlock_acquire_read ::
    "(rat \<Rightarrow> rat) \<Rightarrow> nat \<Rightarrow> clocksym \<Rightarrow> PosixIPCRWLockObject \<Rightarrow> pyobj list \<Rightarrow> (string \<times> pyobj) list \<Rightarrow>
     (bool pyres outcome \<times> clocksym) io" where
  "rwlock_acquire_read fl fuel g ob args kws = do {
     p \<leftarrow> posixipc_parse_acquire args kws;
     case p of Inl e \<Rightarrow> ret (Returned (Inl e), g) | Inr opts \<Rightarrow> rwlock_acquire_mode fl fuel g ob opts False }"

definition rwlock_acquire_write ::
    "(rat \<Rightarrow> rat) \<Rightarrow> nat \<Rightarrow> clocksym \<Rightarrow> PosixIPCRWLockObject \<Rightarrow> pyobj list \<Rightarrow> (string \<times> pyobj) list \<Rightarrow>
     (bool pyres outcome \<times> clocksym) io" where
  "rwlock_acquire_write fl fuel g ob args kws = do {
     p \<leftarrow> posixipc_parse_acquire args kws;
     case p of Inl e \<Rightarrow> ret (Returned (Inl e), g) | Inr opts \<Rightarrow> rwlock_acquire_mode fl fuel g ob opts True }"

definition rwlock_release :: "PosixIPCRWLockObject \<Rightarrow> unit pyres io" where
  "rwlock_release ob = do {
     st \<leftarrow> posixipc_state_from_obj;
     case st of Some e \<Rightarrow> ret (Inl e) | None \<Rightarrow>
       case rwlock_check_open ob of Some e \<Rightarrow> ret (Inl e) | None \<Rightarrow> do {
         rc \<leftarrow> posixipc_rwlock_unlock (rw_lock ob);
         ret (if rc = EPERM then Inl RuntimeError else if rc \<noteq> 0 then Inl (raise_err rc) else Inr ()) } }"

definition rwlock_close :: "PosixIPCRWLockObject \<Rightarrow> regions \<Rightarrow> (PosixIPCRWLockObject \<times> regions) io" where
  "rwlock_close ob H =
     (if flags_closed (x_flags ob) then ret (ob, H)
      else do {
        _ \<leftarrow> (if flag_set (x_flags ob) FLAG_OWNS_STORAGE \<and> rw_lock ob \<noteq> None then posixipc_rwlock_destroy (rw_lock ob) else ret 0);
        let (ob, H) = close_handle ob H;
        ret (ob\<lparr>rw_lock := None\<rparr>, H) })"

definition rwlock_reduce :: "PosixIPCRWLockObject \<Rightarrow> regions \<Rightarrow> (string \<times> u32 \<times> u16 \<times> u32) pyres io" where
  "rwlock_reduce ob H = handle_reduce ob H"

definition rwlock_init :: "config \<Rightarrow> PosixIPCRWLockObject \<Rightarrow> bool \<Rightarrow> (pyexc option \<times> PosixIPCRWLockObject) io" where
  "rwlock_init c ob process_shared = do {
     e \<leftarrow> init_checks (x_flags ob) ''|$p:RWLock'' process_shared;
     case e of Some x \<Rightarrow> ret (Some x, ob) | None \<Rightarrow> do {
       rc \<leftarrow> posixipc_rwlock_init (Some (rw_inline_storage ob)) (Some 0);
       if rc \<noteq> 0 then ret (Some (raise_err rc), ob)
       else ret (None, ob\<lparr>rw_lock := Some (rw_inline_storage ob), x_kind := KIND_RWLOCK,
              x_align := ucast (posixipc_kind_align c KIND_RWLOCK), x_size := posixipc_kind_size c KIND_RWLOCK 0,
              x_init_flags := FLAG_OWNS_STORAGE, x_flags := FLAG_OWNS_STORAGE OR FLAG_BOUND\<rparr>) } }"

definition rwlock_finalize :: "PosixIPCRWLockObject \<Rightarrow> unit io" where
  "rwlock_finalize ob = handle_finalize ob"

definition rwlock_dealloc :: "PosixIPCRWLockObject \<Rightarrow> regions \<Rightarrow> (PosixIPCRWLockObject \<times> regions) io" where
  "rwlock_dealloc ob H = do {
     rwlock_finalize ob;
     (ob, H) \<leftarrow> (if \<not> flags_closed (x_flags ob) then rwlock_close ob H else ret (ob, H));
     ret (ob\<lparr>x_region := None\<rparr>, H) }"

definition rwlock_get_process_shared :: "PosixIPCRWLockObject \<Rightarrow> bool" where
  "rwlock_get_process_shared ob = handle_flag_bool (x_flags ob) FLAG_PROCESS_SHARED"

definition rwlock_get_bound :: "PosixIPCRWLockObject \<Rightarrow> bool" where
  "rwlock_get_bound ob = handle_flag_bool (x_flags ob) FLAG_BOUND"

definition rwlock_get_closed :: "PosixIPCRWLockObject \<Rightarrow> bool" where
  "rwlock_get_closed ob = handle_flag_bool (x_flags ob) FLAG_CLOSED"

definition rwlock_get_region :: "PosixIPCRWLockObject \<Rightarrow> pyobj" where
  "rwlock_get_region ob = handle_region (x_region ob)"

definition rwlock_get_slot :: "PosixIPCRWLockObject \<Rightarrow> nat pyres io" where
  "rwlock_get_slot ob = long_from (unat (x_slot ob))"

definition rwlock_get_kind :: "PosixIPCRWLockObject \<Rightarrow> nat pyres io" where
  "rwlock_get_kind ob = long_from (unat (x_kind ob))"

definition rwlock_get_digest :: "PosixIPCRWLockObject \<Rightarrow> regions \<Rightarrow> nat option pyres io" where
  "rwlock_get_digest ob H = handle_digest (x_region ob) H"

definition rwlock_get_offset :: "PosixIPCRWLockObject \<Rightarrow> nat pyres io" where
  "rwlock_get_offset ob = long_from (unat (x_offset ob))"

definition rwlock_get_size :: "PosixIPCRWLockObject \<Rightarrow> nat pyres io" where
  "rwlock_get_size ob = long_from (unat (x_size ob))"

text \<open>The context manager that \<^verbatim>\<open>read()\<close> and \<^verbatim>\<open>write()\<close> return; the lock it holds is passed along.\<close>

record PosixIPCRWLockCMObject =
  cm_writer :: bool
  cm_held :: bool

definition cm_new :: "bool \<Rightarrow> PosixIPCRWLockCMObject pyres io" where
  "cm_new writer = do {
     st \<leftarrow> posixipc_state_from_obj;
     case st of Some e \<Rightarrow> ret (Inl e) | None \<Rightarrow> do {
       a \<leftarrow> call (Py Tp_alloc);
       ret (if a_ret a < 0 then Inl Pending else Inr \<lparr>cm_writer = writer, cm_held = False\<rparr>) } }"

definition rwlock_read :: "PosixIPCRWLockCMObject pyres io" where
  "rwlock_read = cm_new False"

definition rwlock_write :: "PosixIPCRWLockCMObject pyres io" where
  "rwlock_write = cm_new True"

definition cm_enter ::
    "(rat \<Rightarrow> rat) \<Rightarrow> nat \<Rightarrow> clocksym \<Rightarrow> PosixIPCRWLockCMObject \<Rightarrow> PosixIPCRWLockObject \<Rightarrow>
     (unit pyres outcome \<times> PosixIPCRWLockCMObject \<times> clocksym) io" where
  "cm_enter fl fuel g cm ob = do {
     (ok, g) \<leftarrow> rwlock_acquire_mode fl fuel g ob \<lparr>timeout_none = True, timeout = Fin 0, blocking = True, interruptible = True\<rparr> (cm_writer cm);
     ret (case ok of Returned (Inr True) \<Rightarrow> (Returned (Inr ()), cm\<lparr>cm_held := True\<rparr>, g)
                   | Returned (Inr False) \<Rightarrow> (Returned (Inl RuntimeError), cm, g)
                   | Returned (Inl e) \<Rightarrow> (Returned (Inl e), cm, g)
                   | Undefined \<Rightarrow> (Undefined, cm, g) | Unfinished \<Rightarrow> (Unfinished, cm, g)) }"

definition cm_exit :: "PosixIPCRWLockCMObject \<Rightarrow> PosixIPCRWLockObject \<Rightarrow> (unit pyres \<times> PosixIPCRWLockCMObject) io" where
  "cm_exit cm ob =
     (if cm_held cm then do { r \<leftarrow> rwlock_release ob; ret (r, cm\<lparr>cm_held := False\<rparr>) } else ret (Inr (), cm))"

text \<open>The lock is NULL once the collector has cleared the object.\<close>

definition cm_dealloc :: "PosixIPCRWLockCMObject \<Rightarrow> PosixIPCRWLockObject option \<Rightarrow> PosixIPCRWLockCMObject io" where
  "cm_dealloc cm obo =
     (case obo of Some ob \<Rightarrow>
        if cm_held cm then do { _ \<leftarrow> rwlock_release ob; ret (cm\<lparr>cm_held := False\<rparr>) } else ret cm
      | None \<Rightarrow> ret cm)"

definition posixipc_rwlock_new_unbound :: "config \<Rightarrow> u32 \<Rightarrow> u32 \<Rightarrow> addr \<Rightarrow> PosixIPCRWLockObject pyres io" where
  "posixipc_rwlock_new_unbound c init_flags slot storage = do {
     a \<leftarrow> call (Py Tp_alloc);
     ret (if a_ret a < 0 then Inl Pending
          else Inr (handle.extend (unbound_handle c KIND_RWLOCK init_flags slot)
                      (PosixIPCRWLockObject.fields None storage))) }"

definition posixipc_rwlock_bind ::
    "PosixIPCRWLockObject \<Rightarrow> regions \<Rightarrow> addr \<Rightarrow> posixipc_slot \<Rightarrow> u32 \<Rightarrow> (pyexc option \<times> PosixIPCRWLockObject \<times> regions) io" where
  "posixipc_rwlock_bind ob H r slot index = do {
     (p, H) \<leftarrow> bind_slot H r slot;
     ret (case p of Inl e \<Rightarrow> (Some e, ob, H) | Inr ptr \<Rightarrow> (None, (bound_to ob r slot index)\<lparr>rw_lock := ptr\<rparr>, H)) }"

section \<open>Condition variables\<close>

type_synonym mutexes = "addr \<Rightarrow> PosixIPCMutexObject"

record PosixIPCConditionObject = handle +
  co_cond :: "addr option"
  co_mutex :: "addr option"
  co_inline_storage :: addr

definition cond_until_cb :: "addr option \<Rightarrow> addr option \<Rightarrow> unit waitfn" where
  "cond_until_cb cond lock = (\<lambda>_ slice. do { rc \<leftarrow> posixipc_cond_wait_until cond lock (Some slice); ret (rc, ()) })"

definition cond_check_open :: "PosixIPCConditionObject \<Rightarrow> pyexc option" where
  "cond_check_open ob =
     (if flags_closed (x_flags ob) then Some posixipc_raise_closed
      else if \<not> flag_set (x_flags ob) FLAG_BOUND \<or> co_cond ob = None then Some posixipc_raise_unbound
      else if co_mutex ob = None then Some RuntimeError
      else None)"

text \<open>From the checks on: the wait, and what becomes of the mutex handle.\<close>

definition cond_block ::
    "(rat \<Rightarrow> rat) \<Rightarrow> nat \<Rightarrow> PosixIPCConditionObject \<Rightarrow> PosixIPCMutexObject \<Rightarrow> posixipc_acquire_opts \<Rightarrow>
     (bool pyres outcome \<times> PosixIPCMutexObject) io" where
  "cond_block fl fuel ob m opts =
     (let clk = posixipc_cond_clock (x_init_flags ob) in do {
        d \<leftarrow> (if timeout_none opts then ret (Some (0, None))
             else posixipc_deadline_from_seconds fl clk (timeout opts) (Some deadline0));
        case d of None \<Rightarrow> ret (Undefined, m) | Some (rc, userp) \<Rightarrow>
          if rc \<noteq> 0 then ret (Returned (Inl (raise_err rc)), m)
          else do {
            res \<leftarrow> (if \<not> interruptible opts \<and> timeout_none opts
                   then do { rc \<leftarrow> allow_threads (posixipc_cond_wait (co_cond ob) (m_lock m)); ret (Some (rc, ())) }
                   else posixipc_blocking_wait fuel (cond_until_cb (co_cond ob) (m_lock m)) userp (interruptible opts) clk ());
            case res of None \<Rightarrow> ret (Unfinished, m) | Some (rc, _) \<Rightarrow>
              if rc = POSIXIPC_ERROR_INTERRUPTED then ret (Returned (Inl Pending), m\<lparr>m_locked := True\<rparr>)
              else if rc = ETIMEDOUT then ret (Returned (Inr False), m\<lparr>m_locked := True\<rparr>)
              else do { (r, m) \<leftarrow> posixipc_mutex_after_lock m rc; ret (Returned r, m) } } })"

definition cond_wait ::
    "(rat \<Rightarrow> rat) \<Rightarrow> nat \<Rightarrow> PosixIPCConditionObject \<Rightarrow> mutexes \<Rightarrow> pyobj list \<Rightarrow> (string \<times> pyobj) list \<Rightarrow>
     (bool pyres outcome \<times> mutexes) io" where
  "cond_wait fl fuel ob M args kws = do {
     st \<leftarrow> posixipc_state_from_obj;
     case st of Some e \<Rightarrow> ret (Returned (Inl e), M) | None \<Rightarrow>
       case cond_check_open ob of Some e \<Rightarrow> ret (Returned (Inl e), M) | None \<Rightarrow> do {
         p \<leftarrow> posixipc_parse_acquire args kws;
         case p of Inl e \<Rightarrow> ret (Returned (Inl e), M) | Inr opts \<Rightarrow>
           if \<not> blocking opts then ret (Returned (Inl ValueError), M)
           else let mi = the (co_mutex ob); m = M mi in
             if m_lock m = None \<or> \<not> m_locked m then ret (Returned (Inl RuntimeError), M)
             else do { (oc, m) \<leftarrow> cond_block fl fuel ob m opts; ret (oc, M(mi := m)) } } }"

definition cond_notify :: "PosixIPCConditionObject \<Rightarrow> unit pyres io" where
  "cond_notify ob = do {
     st \<leftarrow> posixipc_state_from_obj;
     case st of Some e \<Rightarrow> ret (Inl e) | None \<Rightarrow>
       case cond_check_open ob of Some e \<Rightarrow> ret (Inl e) | None \<Rightarrow> do {
         rc \<leftarrow> posixipc_cond_signal (co_cond ob);
         ret (if rc \<noteq> 0 then Inl (raise_err rc) else Inr ()) } }"

definition cond_notify_all :: "PosixIPCConditionObject \<Rightarrow> unit pyres io" where
  "cond_notify_all ob = do {
     st \<leftarrow> posixipc_state_from_obj;
     case st of Some e \<Rightarrow> ret (Inl e) | None \<Rightarrow>
       case cond_check_open ob of Some e \<Rightarrow> ret (Inl e) | None \<Rightarrow> do {
         rc \<leftarrow> posixipc_cond_broadcast (co_cond ob);
         ret (if rc \<noteq> 0 then Inl (raise_err rc) else Inr ()) } }"

definition cond_close :: "PosixIPCConditionObject \<Rightarrow> regions \<Rightarrow> (PosixIPCConditionObject \<times> regions) io" where
  "cond_close ob H =
     (if flags_closed (x_flags ob) then ret (ob, H)
      else do {
        _ \<leftarrow> (if flag_set (x_flags ob) FLAG_OWNS_STORAGE \<and> co_cond ob \<noteq> None then posixipc_cond_destroy (co_cond ob) else ret 0);
        let (ob, H) = close_handle ob H;
        ret (ob\<lparr>co_mutex := None, co_cond := None\<rparr>, H) })"

definition cond_reduce :: "PosixIPCConditionObject \<Rightarrow> regions \<Rightarrow> (string \<times> u32 \<times> u16 \<times> u32) pyres io" where
  "cond_reduce ob H = handle_reduce ob H"

text \<open>\<open>is_mutex\<close>: the argument is an instance of \<^verbatim>\<open>Mutex\<close>.\<close>

definition cond_init ::
    "config \<Rightarrow> PosixIPCConditionObject \<Rightarrow> addr \<Rightarrow> bool \<Rightarrow> bool \<Rightarrow> (pyexc option \<times> PosixIPCConditionObject) io" where
  "cond_init c ob mutex is_mutex process_shared = do {
     e \<leftarrow> init_checks (x_flags ob) ''O|$p:Condition'' process_shared;
     case e of Some x \<Rightarrow> ret (Some x, ob) | None \<Rightarrow>
       if \<not> is_mutex then ret (Some TypeError, ob)
       else let cfg = (if HAVE_PTHREAD_CONDATTR_SETCLOCK c then FLAG_MONOTONIC else 0) in do {
         rc \<leftarrow> posixipc_cond_init c (Some (co_inline_storage ob)) (Some cfg);
         if rc \<noteq> 0 then ret (Some (raise_err rc), ob)
         else ret (None, ob\<lparr>co_cond := Some (co_inline_storage ob), x_kind := KIND_COND,
                x_align := ucast (posixipc_kind_align c KIND_COND), x_size := posixipc_kind_size c KIND_COND 0,
                x_init_flags := cfg OR FLAG_OWNS_STORAGE, co_mutex := Some mutex,
                x_flags := FLAG_OWNS_STORAGE OR FLAG_BOUND OR cfg\<rparr>) } }"

definition cond_clear :: "PosixIPCConditionObject \<Rightarrow> PosixIPCConditionObject" where
  "cond_clear ob = ob\<lparr>co_mutex := None\<rparr>"

definition cond_finalize :: "PosixIPCConditionObject \<Rightarrow> unit io" where
  "cond_finalize ob = handle_finalize ob"

definition cond_dealloc :: "PosixIPCConditionObject \<Rightarrow> regions \<Rightarrow> (PosixIPCConditionObject \<times> regions) io" where
  "cond_dealloc ob H = do {
     cond_finalize ob;
     (ob, H) \<leftarrow> (if \<not> flags_closed (x_flags ob) then cond_close ob H else ret (ob, H));
     ret (ob\<lparr>co_mutex := None, x_region := None\<rparr>, H) }"

definition cond_get_mutex :: "PosixIPCConditionObject \<Rightarrow> pyobj" where
  "cond_get_mutex ob = (case co_mutex ob of None \<Rightarrow> Py_None | Some m \<Rightarrow> Obj m)"

definition cond_get_process_shared :: "PosixIPCConditionObject \<Rightarrow> bool" where
  "cond_get_process_shared ob = handle_flag_bool (x_flags ob) FLAG_PROCESS_SHARED"

definition cond_get_bound :: "PosixIPCConditionObject \<Rightarrow> bool" where
  "cond_get_bound ob = handle_flag_bool (x_flags ob) FLAG_BOUND"

definition cond_get_closed :: "PosixIPCConditionObject \<Rightarrow> bool" where
  "cond_get_closed ob = handle_flag_bool (x_flags ob) FLAG_CLOSED"

definition cond_get_region :: "PosixIPCConditionObject \<Rightarrow> pyobj" where
  "cond_get_region ob = handle_region (x_region ob)"

definition cond_get_slot :: "PosixIPCConditionObject \<Rightarrow> nat pyres io" where
  "cond_get_slot ob = long_from (unat (x_slot ob))"

definition cond_get_kind :: "PosixIPCConditionObject \<Rightarrow> nat pyres io" where
  "cond_get_kind ob = long_from (unat (x_kind ob))"

definition cond_get_digest :: "PosixIPCConditionObject \<Rightarrow> regions \<Rightarrow> nat option pyres io" where
  "cond_get_digest ob H = handle_digest (x_region ob) H"

definition cond_get_offset :: "PosixIPCConditionObject \<Rightarrow> nat pyres io" where
  "cond_get_offset ob = long_from (unat (x_offset ob))"

definition cond_get_size :: "PosixIPCConditionObject \<Rightarrow> nat pyres io" where
  "cond_get_size ob = long_from (unat (x_size ob))"

definition posixipc_cond_new_unbound ::
    "config \<Rightarrow> u32 \<Rightarrow> u32 \<Rightarrow> addr option \<Rightarrow> addr \<Rightarrow> PosixIPCConditionObject pyres io" where
  "posixipc_cond_new_unbound c init_flags slot mutex storage = do {
     a \<leftarrow> call (Py Tp_alloc);
     ret (if a_ret a < 0 then Inl Pending
          else Inr (handle.extend (unbound_handle c KIND_COND init_flags slot)
                      (PosixIPCConditionObject.fields None mutex storage))) }"

definition posixipc_cond_bind ::
    "PosixIPCConditionObject \<Rightarrow> regions \<Rightarrow> addr \<Rightarrow> posixipc_slot \<Rightarrow> u32 \<Rightarrow> (pyexc option \<times> PosixIPCConditionObject \<times> regions) io" where
  "posixipc_cond_bind ob H r slot index = do {
     (p, H) \<leftarrow> bind_slot H r slot;
     ret (case p of Inl e \<Rightarrow> (Some e, ob, H) | Inr ptr \<Rightarrow> (None, (bound_to ob r slot index)\<lparr>co_cond := ptr\<rparr>, H)) }"

section \<open>Semaphores\<close>

record PosixIPCSemaphoreObject = handle +
  se_sem :: "addr option"
  se_value :: nat
  se_inline_storage :: addr

definition sem_check_open :: "PosixIPCSemaphoreObject \<Rightarrow> pyexc option" where
  "sem_check_open ob =
     (if flags_closed (x_flags ob) then Some posixipc_raise_closed
      else if \<not> flag_set (x_flags ob) FLAG_BOUND \<or> se_sem ob = None then Some posixipc_raise_unbound
      else None)"

definition sem_until_cb :: "addr option \<Rightarrow> clocksym waitfn" where
  "sem_until_cb arg = (\<lambda>g slice. posixipc_sem_wait_until g arg (Some slice))"

definition sem_acquire ::
    "(rat \<Rightarrow> rat) \<Rightarrow> nat \<Rightarrow> clocksym \<Rightarrow> PosixIPCSemaphoreObject \<Rightarrow> pyobj list \<Rightarrow> (string \<times> pyobj) list \<Rightarrow>
     (bool pyres outcome \<times> clocksym) io" where
  "sem_acquire fl fuel g ob args kws = do {
     st \<leftarrow> posixipc_state_from_obj;
     case st of Some e \<Rightarrow> ret (Returned (Inl e), g) | None \<Rightarrow>
       case sem_check_open ob of Some e \<Rightarrow> ret (Returned (Inl e), g) | None \<Rightarrow> do {
         p \<leftarrow> posixipc_parse_acquire args kws;
         case p of Inl e \<Rightarrow> ret (Returned (Inl e), g) | Inr opts \<Rightarrow> do {
           rc \<leftarrow> posixipc_sem_trywait (se_sem ob);
           if rc \<noteq> EAGAIN \<and> rc \<noteq> EBUSY
           then ret (Returned (if rc = 0 then Inr True else Inl (raise_err rc)), g)
           else if \<not> blocking opts \<or> (\<not> timeout_none opts \<and> timeout opts = Fin 0) then ret (Returned (Inr False), g)
           else do {
             (d, g) \<leftarrow> user_deadline fl posixipc_sem_clock opts g;
             case d of None \<Rightarrow> ret (Undefined, g) | Some (rc, userp) \<Rightarrow>
               if rc \<noteq> 0 then ret (Returned (Inl (raise_err rc)), g)
               else if \<not> interruptible opts \<and> timeout_none opts then do {
                 rc \<leftarrow> allow_threads (posixipc_sem_wait (se_sem ob));
                 ret (Returned (if rc = 0 then Inr True else Inl (raise_err rc)), g) }
               else do {
                 (clk, g) \<leftarrow> posixipc_sem_clock g;
                 res \<leftarrow> posixipc_blocking_wait fuel (sem_until_cb (se_sem ob)) userp (interruptible opts) clk g;
                 case res of None \<Rightarrow> ret (Unfinished, g) | Some (rc, g) \<Rightarrow>
                   ret (Returned (if rc = 0 then Inr True
                        else if rc = ETIMEDOUT \<or> rc = EAGAIN then Inr False else Inl (raise_err rc)), g) } } } } }"

primrec sem_posts :: "nat \<Rightarrow> addr option \<Rightarrow> unit pyres io" where
  "sem_posts 0 sem = ret (Inr ())"
| "sem_posts (Suc n) sem = do {
     rc \<leftarrow> posixipc_sem_post sem;
     if rc \<noteq> 0 then ret (Inl (raise_err rc)) else sem_posts n sem }"

text \<open>\<open>n\<close> is the parsed argument.\<close>

definition sem_release :: "PosixIPCSemaphoreObject \<Rightarrow> int \<Rightarrow> unit pyres io" where
  "sem_release ob n = do {
     st \<leftarrow> posixipc_state_from_obj;
     case st of Some e \<Rightarrow> ret (Inl e) | None \<Rightarrow>
       case sem_check_open ob of Some e \<Rightarrow> ret (Inl e) | None \<Rightarrow> do {
         p \<leftarrow> call (Py (ParseTuple ''|i:release''));
         if a_ret p = 0 then ret (Inl Pending)
         else if n < 1 then ret (Inl ValueError)
         else sem_posts (nat n) (se_sem ob) } }"

definition sem_enter ::
    "(rat \<Rightarrow> rat) \<Rightarrow> nat \<Rightarrow> clocksym \<Rightarrow> PosixIPCSemaphoreObject \<Rightarrow> (unit pyres outcome \<times> clocksym) io" where
  "sem_enter fl fuel g ob = do {
     (ok, g) \<leftarrow> sem_acquire fl fuel g ob [] [];
     ret (case ok of Returned (Inr True) \<Rightarrow> Returned (Inr ())
                   | Returned (Inr False) \<Rightarrow> Returned (Inl RuntimeError)
                   | Returned (Inl e) \<Rightarrow> Returned (Inl e)
                   | Undefined \<Rightarrow> Undefined | Unfinished \<Rightarrow> Unfinished, g) }"

definition sem_exit :: "PosixIPCSemaphoreObject \<Rightarrow> unit pyres io" where
  "sem_exit ob = do {
     st \<leftarrow> posixipc_state_from_obj;
     case st of Some e \<Rightarrow> ret (Inl e) | None \<Rightarrow>
       case sem_check_open ob of Some e \<Rightarrow> ret (Inl e) | None \<Rightarrow> do {
         rc \<leftarrow> posixipc_sem_post (se_sem ob);
         ret (if rc \<noteq> 0 then Inl (raise_err rc) else Inr ()) } }"

definition semobj_close :: "PosixIPCSemaphoreObject \<Rightarrow> regions \<Rightarrow> (PosixIPCSemaphoreObject \<times> regions) io" where
  "semobj_close ob H =
     (if flags_closed (x_flags ob) then ret (ob, H)
      else do {
        _ \<leftarrow> (if flag_set (x_flags ob) FLAG_OWNS_STORAGE \<and> se_sem ob \<noteq> None then posixipc_sem_destroy (se_sem ob) else ret 0);
        let (ob, H) = close_handle ob H;
        ret (ob\<lparr>se_sem := None\<rparr>, H) })"

definition sem_reduce :: "PosixIPCSemaphoreObject \<Rightarrow> regions \<Rightarrow> (string \<times> u32 \<times> u16 \<times> u32) pyres io" where
  "sem_reduce ob H = handle_reduce ob H"

definition semobj_init ::
    "config \<Rightarrow> PosixIPCSemaphoreObject \<Rightarrow> int \<Rightarrow> bool \<Rightarrow> (pyexc option \<times> PosixIPCSemaphoreObject) io" where
  "semobj_init c ob val process_shared = do {
     e \<leftarrow> init_checks (x_flags ob) ''|i$p:Semaphore'' process_shared;
     case e of Some x \<Rightarrow> ret (Some x, ob) | None \<Rightarrow>
       if val < 0 then ret (Some ValueError, ob)
       else do {
         rc \<leftarrow> posixipc_sem_init (Some (se_inline_storage ob)) (Some (0, nat val));
         if rc \<noteq> 0 then ret (Some (raise_err rc), ob)
         else ret (None, ob\<lparr>se_sem := Some (se_inline_storage ob), x_kind := KIND_SEM,
                x_align := ucast (posixipc_kind_align c KIND_SEM), x_size := posixipc_kind_size c KIND_SEM 0,
                se_value := nat val, x_init_flags := FLAG_OWNS_STORAGE, x_flags := FLAG_OWNS_STORAGE OR FLAG_BOUND\<rparr>) } }"

definition sem_finalize :: "PosixIPCSemaphoreObject \<Rightarrow> unit io" where
  "sem_finalize ob = handle_finalize ob"

definition sem_dealloc :: "PosixIPCSemaphoreObject \<Rightarrow> regions \<Rightarrow> (PosixIPCSemaphoreObject \<times> regions) io" where
  "sem_dealloc ob H = do {
     sem_finalize ob;
     (ob, H) \<leftarrow> (if \<not> flags_closed (x_flags ob) then semobj_close ob H else ret (ob, H));
     ret (ob\<lparr>x_region := None\<rparr>, H) }"

definition sem_get_process_shared :: "PosixIPCSemaphoreObject \<Rightarrow> bool" where
  "sem_get_process_shared ob = handle_flag_bool (x_flags ob) FLAG_PROCESS_SHARED"

definition sem_get_bound :: "PosixIPCSemaphoreObject \<Rightarrow> bool" where
  "sem_get_bound ob = handle_flag_bool (x_flags ob) FLAG_BOUND"

definition sem_get_closed :: "PosixIPCSemaphoreObject \<Rightarrow> bool" where
  "sem_get_closed ob = handle_flag_bool (x_flags ob) FLAG_CLOSED"

definition sem_get_region :: "PosixIPCSemaphoreObject \<Rightarrow> pyobj" where
  "sem_get_region ob = handle_region (x_region ob)"

definition sem_get_slot :: "PosixIPCSemaphoreObject \<Rightarrow> nat pyres io" where
  "sem_get_slot ob = long_from (unat (x_slot ob))"

definition sem_get_kind :: "PosixIPCSemaphoreObject \<Rightarrow> nat pyres io" where
  "sem_get_kind ob = long_from (unat (x_kind ob))"

definition sem_get_digest :: "PosixIPCSemaphoreObject \<Rightarrow> regions \<Rightarrow> nat option pyres io" where
  "sem_get_digest ob H = handle_digest (x_region ob) H"

definition sem_get_offset :: "PosixIPCSemaphoreObject \<Rightarrow> nat pyres io" where
  "sem_get_offset ob = long_from (unat (x_offset ob))"

definition sem_get_size :: "PosixIPCSemaphoreObject \<Rightarrow> nat pyres io" where
  "sem_get_size ob = long_from (unat (x_size ob))"

definition posixipc_sem_new_unbound :: "config \<Rightarrow> u32 \<Rightarrow> nat \<Rightarrow> u32 \<Rightarrow> addr \<Rightarrow> PosixIPCSemaphoreObject pyres io" where
  "posixipc_sem_new_unbound c init_flags val slot storage = do {
     a \<leftarrow> call (Py Tp_alloc);
     ret (if a_ret a < 0 then Inl Pending
          else Inr (handle.extend (unbound_handle c KIND_SEM init_flags slot)
                      (PosixIPCSemaphoreObject.fields None val storage))) }"

definition posixipc_sem_bind ::
    "PosixIPCSemaphoreObject \<Rightarrow> regions \<Rightarrow> addr \<Rightarrow> posixipc_slot \<Rightarrow> u32 \<Rightarrow> (pyexc option \<times> PosixIPCSemaphoreObject \<times> regions) io" where
  "posixipc_sem_bind ob H r slot index = do {
     (p, H) \<leftarrow> bind_slot H r slot;
     ret (case p of Inl e \<Rightarrow> (Some e, ob, H)
          | Inr ptr \<Rightarrow> (None, (bound_to ob r slot index)\<lparr>se_sem := ptr, se_value := unat (drop_bit 16 (s_init_flags slot))\<rparr>, H)) }"

section \<open>Handles pin their segment\<close>

text \<open>
  What every bindable type promises: a failed binding changes nothing, a binding adds one pin and
  remembers the segment, closing an open handle takes its pin back, closing again does nothing.
\<close>

locale pinned_handle =
  fixes bind :: "'o \<Rightarrow> regions \<Rightarrow> addr \<Rightarrow> posixipc_slot \<Rightarrow> u32 \<Rightarrow> (pyexc option \<times> 'o \<times> regions) io"
    and close :: "'o \<Rightarrow> regions \<Rightarrow> ('o \<times> regions) io"
    and region :: "'o \<Rightarrow> addr option" and shut :: "'o \<Rightarrow> bool"
  assumes bind_fails: "run (bind ob H r slot i) w = ((Some e, ob', H'), w') \<Longrightarrow> ob' = ob \<and> H' = H"
    and bind_ok: "run (bind ob H r slot i) w = ((None, ob', H'), w') \<Longrightarrow>
          region ob' = Some r \<and> shut ob' = shut ob \<and> H' = H(r := (H r)\<lparr>s_pins := s_pins (H r) + 1\<rparr>)"
    and close_open: "\<not> shut ob \<Longrightarrow> run (close ob H) w = ((ob', H'), w') \<Longrightarrow>
          region ob' = None \<and> shut ob' \<and> H' = (case region ob of None \<Rightarrow> H | Some r \<Rightarrow> unpin_region H r)"
    and close_again: "shut ob \<Longrightarrow> run (close ob H) w = ((ob, H), w)"

text \<open>
  A client of a list of handles: it binds and closes handles in any order and however the calls
  end, also handles that are bound or closed already, which the code does not refuse. The last part
  of the result lists the segments that a successful binding replaced in a bound handle.
\<close>

datatype handle_op = Bind nat addr posixipc_slot u32 | Close nat

fun run_handles ::
    "('o \<Rightarrow> regions \<Rightarrow> addr \<Rightarrow> posixipc_slot \<Rightarrow> u32 \<Rightarrow> (pyexc option \<times> 'o \<times> regions) io) \<Rightarrow>
     ('o \<Rightarrow> regions \<Rightarrow> ('o \<times> regions) io) \<Rightarrow> ('o \<Rightarrow> addr option) \<Rightarrow>
     handle_op list \<Rightarrow> 'o list \<Rightarrow> regions \<Rightarrow> addr list \<Rightarrow> ('o list \<times> regions \<times> addr list) io" where
  "run_handles bnd cls region [] hs H lost = ret (hs, H, lost)"
| "run_handles bnd cls region (Bind i r slot ix # ops) hs H lost =
     (if i < length hs then do {
        (e, ob, H) \<leftarrow> bnd (hs ! i) H r slot ix;
        run_handles bnd cls region ops (hs[i := ob]) H
          (if e = None then (case region (hs ! i) of None \<Rightarrow> lost | Some r0 \<Rightarrow> r0 # lost) else lost) }
      else run_handles bnd cls region ops hs H lost)"
| "run_handles bnd cls region (Close i # ops) hs H lost =
     (if i < length hs then do {
        (ob, H) \<leftarrow> cls (hs ! i) H;
        run_handles bnd cls region ops (hs[i := ob]) H lost }
      else run_handles bnd cls region ops hs H lost)"

definition bound_count :: "('o \<Rightarrow> addr option) \<Rightarrow> addr \<Rightarrow> 'o list \<Rightarrow> nat" where
  "bound_count region r hs = length (filter (\<lambda>ob. region ob = Some r) hs)"

lemma bound_count_update:
  assumes "i < length hs"
  shows "(of_nat (bound_count region r (hs[i := ob])) :: u32) =
    of_nat (bound_count region r hs) - (if region (hs ! i) = Some r then 1 else 0) + (if region ob = Some r then 1 else 0)"
proof -
  have "hs = take i hs @ hs ! i # drop (Suc i) hs" by (rule id_take_nth_drop [OF assms])
  then have "bound_count region r hs = bound_count region r (take i hs @ hs ! i # drop (Suc i) hs)" by simp
  moreover have "hs[i := ob] = take i hs @ ob # drop (Suc i) hs" by (rule upd_conv_take_nth_drop [OF assms])
  ultimately show ?thesis by (simp add: bound_count_def)
qed

context pinned_handle
begin

text \<open>The pins beyond the bound handles and the replaced bindings stay what they were.\<close>

lemma pins_counted:
  assumes "run (run_handles bind close region ops hs H lost) w = ((hs', H', lost'), w')"
  shows "s_pins (H' r) - of_nat (bound_count region r hs') - of_nat (count_list lost' r) =
         s_pins (H r) - of_nat (bound_count region r hs) - of_nat (count_list lost r)"
  using assms
proof (induction ops arbitrary: hs H lost w)
  case Nil
  then show ?case by (simp add: run_ret)
next
  case (Cons op ops)
  show ?case
  proof (cases op)
    case (Bind i a slot ix)
    show ?thesis
    proof (cases "i < length hs")
      case False
      then show ?thesis using Cons.prems Cons.IH [of hs H lost w] Bind by auto
    next
      case True
      obtain e ob H1 w1 where b: "run (bind (hs ! i) H a slot ix) w = ((e, ob, H1), w1)" by (metis prod_cases4 surj_pair)
      then have r: "run (run_handles bind close region ops (hs[i := ob]) H1
          (if e = None then (case region (hs ! i) of None \<Rightarrow> lost | Some r0 \<Rightarrow> r0 # lost) else lost)) w1 = ((hs', H', lost'), w')"
        using Cons.prems(1) Bind True by (simp add: run_bind)
      show ?thesis
      proof (cases e)
        case None
        with Cons.IH [OF r] bound_count_update [of i hs region r ob] True bind_ok [of "hs ! i" H a slot ix w ob H1 w1] b
        show ?thesis by (cases "region (hs ! i)") (auto split: if_splits)
      next
        case (Some x)
        with Cons.IH [OF r] bind_fails [of "hs ! i" H a slot ix w x ob H1 w1] b show ?thesis by simp
      qed
    qed
  next
    case (Close i)
    show ?thesis
    proof (cases "i < length hs")
      case False
      then show ?thesis using Cons.prems Cons.IH [of hs H lost w] Close by auto
    next
      case True
      obtain ob H1 w1 where c: "run (close (hs ! i) H) w = ((ob, H1), w1)" by (metis prod_cases3 surj_pair)
      then have r: "run (run_handles bind close region ops (hs[i := ob]) H1 lost) w1 = ((hs', H', lost'), w')"
        using Cons.prems(1) Close True by (simp add: run_bind)
      show ?thesis
      proof (cases "shut (hs ! i)")
        case True
        with Cons.IH [OF r] close_again [of "hs ! i" H w] c show ?thesis by simp
      next
        case False
        with Cons.IH [OF r] bound_count_update [of i hs region r ob] \<open>i < length hs\<close> close_open [of "hs ! i" H w ob H1 w1] c
        show ?thesis by (auto simp: unpin_region_def posixipc_shmobj_unpin_def split: if_splits option.splits)
      qed
    qed
  qed
qed

text \<open>A handle that was closed before it was bound keeps its pin for ever.\<close>

lemma closed_bind_leaks:
  assumes "shut ob" and "run (bind ob H r slot i) w = ((None, ob', H'), w')"
  shows "s_pins (H' r) = s_pins (H r) + 1 \<and> run (close ob' H') w2 = ((ob', H'), w2)"
  using bind_ok [OF assms(2)] close_again [of ob' H' w2] assms(1) by simp

end

lemma run_bind_slot:
  assumes "run (bind_slot H r slot) w = ((p, H'), w')"
  shows "case p of Inl e \<Rightarrow> H' = H | Inr ptr \<Rightarrow> \<not> shm_is_closed (H r) \<and> H' = H(r := (H r)\<lparr>s_pins := s_pins (H r) + 1\<rparr>)"
proof -
  obtain st w1 where st: "run posixipc_state_from_obj w = (st, w1)" by fastforce
  obtain rc ptr w2 where p: "run (region_ptr (H r) (s_offset slot) (s_size slot) (ucast (s_align slot))) w1 = ((rc, ptr), w2)"
    by (metis prod_cases3 surj_pair)
  obtain st2 w4 where st2: "run posixipc_state_from_obj w2 = (st2, w4)" by fastforce
  show ?thesis using assms st p st2
    by (cases st) (auto simp: bind_slot_def run_bind run_ret run_if run_pin_region split: if_splits)
qed

lemma bound_to_simps [simp]:
  "x_region (bound_to ob r slot i) = Some r" "x_flags (bound_to ob r slot i) = x_flags ob OR (FLAG_BOUND OR FLAG_PROCESS_SHARED)"
  by (simp_all add: bound_to_def)

lemma flags_closed_bound [simp]: "flags_closed (fl OR 18) = flags_closed fl"
  by (simp add: flags_closed_def flag_set_or) (simp add: flag_set_def)

lemma close_handle_post:
  "close_handle ob H = (ob', H') \<Longrightarrow> x_region ob' = None \<and> flags_closed (x_flags ob') \<and>
     H' = (case x_region ob of None \<Rightarrow> H | Some r \<Rightarrow> unpin_region H r)"
  by (auto simp: close_handle_def flags_closed_def flag_set_or flag_set_def split: option.splits)

interpretation rwlock_handle: pinned_handle posixipc_rwlock_bind rwlock_close x_region "\<lambda>ob. flags_closed (x_flags ob)"
proof unfold_locales
  fix ob H r slot i w e ob' H' w'
  show "run (posixipc_rwlock_bind ob H r slot i) w = ((Some e, ob', H'), w') \<Longrightarrow> ob' = ob \<and> H' = H"
    by (auto simp: posixipc_rwlock_bind_def run_bind run_ret dest!: run_bind_slot split: prod.splits sum.splits)
  show "run (posixipc_rwlock_bind ob H r slot i) w = ((None, ob', H'), w') \<Longrightarrow>
      x_region ob' = Some r \<and> flags_closed (x_flags ob') = flags_closed (x_flags ob) \<and> H' = H(r := (H r)\<lparr>s_pins := s_pins (H r) + 1\<rparr>)"
    by (auto simp: posixipc_rwlock_bind_def run_bind run_ret dest!: run_bind_slot split: prod.splits sum.splits)
  show "\<not> flags_closed (x_flags ob) \<Longrightarrow> run (rwlock_close ob H) w = ((ob', H'), w') \<Longrightarrow>
      x_region ob' = None \<and> flags_closed (x_flags ob') \<and> H' = (case x_region ob of None \<Rightarrow> H | Some r \<Rightarrow> unpin_region H r)"
    by (cases "close_handle ob H") (auto simp: rwlock_close_def run_bind run_ret dest: close_handle_post split: prod.splits)
qed (simp add: rwlock_close_def run_ret)

interpretation cond_handle: pinned_handle posixipc_cond_bind cond_close x_region "\<lambda>ob. flags_closed (x_flags ob)"
proof unfold_locales
  fix ob H r slot i w e ob' H' w'
  show "run (posixipc_cond_bind ob H r slot i) w = ((Some e, ob', H'), w') \<Longrightarrow> ob' = ob \<and> H' = H"
    by (auto simp: posixipc_cond_bind_def run_bind run_ret dest!: run_bind_slot split: prod.splits sum.splits)
  show "run (posixipc_cond_bind ob H r slot i) w = ((None, ob', H'), w') \<Longrightarrow>
      x_region ob' = Some r \<and> flags_closed (x_flags ob') = flags_closed (x_flags ob) \<and> H' = H(r := (H r)\<lparr>s_pins := s_pins (H r) + 1\<rparr>)"
    by (auto simp: posixipc_cond_bind_def run_bind run_ret dest!: run_bind_slot split: prod.splits sum.splits)
  show "\<not> flags_closed (x_flags ob) \<Longrightarrow> run (cond_close ob H) w = ((ob', H'), w') \<Longrightarrow>
      x_region ob' = None \<and> flags_closed (x_flags ob') \<and> H' = (case x_region ob of None \<Rightarrow> H | Some r \<Rightarrow> unpin_region H r)"
    by (cases "close_handle ob H") (auto simp: cond_close_def run_bind run_ret dest: close_handle_post split: prod.splits)
qed (simp add: cond_close_def run_ret)

interpretation sem_handle: pinned_handle posixipc_sem_bind semobj_close x_region "\<lambda>ob. flags_closed (x_flags ob)"
proof unfold_locales
  fix ob H r slot i w e ob' H' w'
  show "run (posixipc_sem_bind ob H r slot i) w = ((Some e, ob', H'), w') \<Longrightarrow> ob' = ob \<and> H' = H"
    by (auto simp: posixipc_sem_bind_def run_bind run_ret dest!: run_bind_slot split: prod.splits sum.splits)
  show "run (posixipc_sem_bind ob H r slot i) w = ((None, ob', H'), w') \<Longrightarrow>
      x_region ob' = Some r \<and> flags_closed (x_flags ob') = flags_closed (x_flags ob) \<and> H' = H(r := (H r)\<lparr>s_pins := s_pins (H r) + 1\<rparr>)"
    by (auto simp: posixipc_sem_bind_def run_bind run_ret dest!: run_bind_slot split: prod.splits sum.splits)
  show "\<not> flags_closed (x_flags ob) \<Longrightarrow> run (semobj_close ob H) w = ((ob', H'), w') \<Longrightarrow>
      x_region ob' = None \<and> flags_closed (x_flags ob') \<and> H' = (case x_region ob of None \<Rightarrow> H | Some r \<Rightarrow> unpin_region H r)"
    by (cases "close_handle ob H") (auto simp: semobj_close_def run_bind run_ret dest: close_handle_post split: prod.splits)
qed (simp add: semobj_close_def run_ret)

text \<open>
  A handle that is closed before its layout is created leaks a pin: binding does not look at the
  closed flag, takes a pin of the segment, and neither a later close nor the destruction of the
  handle gives it back, so the segment can only be closed by force.
\<close>

theorem closed_handle_leaks_pin:
  assumes "flags_closed (x_flags ob)" and "run (posixipc_rwlock_bind ob H r slot i) w = ((None, ob', H'), w')"
  shows "s_pins (H' r) = s_pins (H r) + 1 \<and> run (rwlock_close ob' H') w2 = ((ob', H'), w2) \<and>
         snd (fst (run (rwlock_dealloc ob' H') w2)) = H'"
  using rwlock_handle.closed_bind_leaks [OF assms, of w2] rwlock_handle.bind_ok [OF assms(2)] assms(1)
  by (simp add: rwlock_dealloc_def rwlock_finalize_def handle_finalize_def run_bind run_ret)

section \<open>Locks and permits\<close>

lemma waiterI:
  assumes "\<And>s d. effect (\<lambda>_. True) \<delta> (\<lambda>r. k (fst r)) (fn s d)" and "\<And>s d. only (\<lambda>_. True) (fn s d)"
    and "\<And>rc. rc \<in> {ETIMEDOUT, EINVAL, 14, POSIXIPC_ERROR_INTERRUPTED} \<Longrightarrow> k rc = 0" and "lock_like \<delta>"
  shows "waiter fn \<delta> k"
proof unfold_locales
  fix s d w
  obtain r w' where r: "run (fn s d) w = (r, w')" by fastforce
  from effectD [OF assms(1) TrueI r] r
  show "env (snd (run (fn s d) w)) = env w"
    and "balance \<delta> (snd (run (fn s d) w)) = balance \<delta> w + k (fst (fst (run (fn s d) w)))" by simp_all
  show "length (trace w) \<le> length (trace (snd (run (fn s d) w)))"
    using assms(2) [of s d] unfolding only_def by (metis le_add1 length_append)
qed (use assms(3,4) in auto)

context waiter
begin

text \<open>A blocking wait inside a computation that may not end.\<close>

lemma end_effect_blocking:
  assumes "\<And>rc s'. end_effect clock_ok \<delta> (\<lambda>y. kk y - k rc) (f (rc, s'))"
  shows "end_effect clock_ok \<delta> kk
    (do { r \<leftarrow> posixipc_blocking_wait fuel fn user intr clk s; case r of None \<Rightarrow> ret (Unfinished, t) | Some x \<Rightarrow> f x })"
  unfolding end_effect_def
proof (intro allI impI)
  fix w y u w'
  assume e: "clock_ok (env w)"
    and r: "run (do { r \<leftarrow> posixipc_blocking_wait fuel fn user intr clk s; case r of None \<Rightarrow> ret (Unfinished, t) | Some x \<Rightarrow> f x }) w =
      ((Returned y, u), w')"
  obtain z w1 where m: "run (posixipc_blocking_wait fuel fn user intr clk s) w = (z, w1)" by fastforce
  with r obtain rc s' where z: "z = Some (rc, s')" by (cases z) (auto simp: run_bind run_ret)
  then have f: "run (f (rc, s')) w1 = ((Returned y, u), w')" using r m by (simp add: run_bind)
  note en = blocking_wait_env [OF m]
  from blocking_wait_balance [OF clock_okD [OF e] m [unfolded z]] end_effectD [OF assms _ f] en e
  show "env w' = env w \<and> balance \<delta> w' = balance \<delta> w + kk y" by simp
qed

end

text \<open>
  A call that reports 0 has taken the lock, or a permit of the semaphore (a failing semaphore call
  sets \<^verbatim>\<open>errno\<close>, which is its code); a post that succeeds gives one back.
\<close>

definition zero_code :: "answer \<Rightarrow> bool" where
  "zero_code a \<longleftrightarrow> a_ret a = 0 \<or> a_errno a = 0"

text \<open>Read locks and write locks are counted apart: \<open>wr\<close> says which.\<close>

fun rw_delta :: "bool \<Rightarrow> addr \<Rightarrow> syscall \<Rightarrow> answer \<Rightarrow> int" where
  "rw_delta wr q (Rwlock (Rwlock_rdlock p)) a = (if \<not> wr \<and> p = q \<and> a_ret a = 0 then 1 else 0)"
| "rw_delta wr q (Rwlock (Rwlock_wrlock p)) a = (if wr \<and> p = q \<and> a_ret a = 0 then 1 else 0)"
| "rw_delta wr q (Rwlock (Rwlock_tryrdlock p)) a = (if \<not> wr \<and> p = q \<and> a_ret a = 0 then 1 else 0)"
| "rw_delta wr q (Rwlock (Rwlock_trywrlock p)) a = (if wr \<and> p = q \<and> a_ret a = 0 then 1 else 0)"
| "rw_delta wr q (Rwlock (Rwlock_clockrdlock p c ts)) a = (if \<not> wr \<and> p = q \<and> a_ret a = 0 then 1 else 0)"
| "rw_delta wr q (Rwlock (Rwlock_clockwrlock p c ts)) a = (if wr \<and> p = q \<and> a_ret a = 0 then 1 else 0)"
| "rw_delta wr q (Rwlock (Rwlock_timedrdlock p ts)) a = (if \<not> wr \<and> p = q \<and> a_ret a = 0 then 1 else 0)"
| "rw_delta wr q (Rwlock (Rwlock_timedwrlock p ts)) a = (if wr \<and> p = q \<and> a_ret a = 0 then 1 else 0)"
| "rw_delta wr q _ a = 0"

fun sem_delta :: "addr \<Rightarrow> syscall \<Rightarrow> answer \<Rightarrow> int" where
  "sem_delta q (Sem (Sem_wait p)) a = (if p = q \<and> zero_code a then 1 else 0)"
| "sem_delta q (Sem (Sem_trywait p)) a = (if p = q \<and> zero_code a then 1 else 0)"
| "sem_delta q (Sem (Sem_clockwait p c ts)) a = (if p = q \<and> zero_code a then 1 else 0)"
| "sem_delta q (Sem (Sem_timedwait p ts)) a = (if p = q \<and> zero_code a then 1 else 0)"
| "sem_delta q (Sem (Sem_post p)) a = (if p = q \<and> zero_code a then - 1 else 0)"
| "sem_delta q _ a = 0"

lemma lock_like_rw: "lock_like (rw_delta wr q)" and lock_like_sem: "lock_like (sem_delta q)"
  by (simp_all add: lock_like_def)

definition taken :: "addr \<Rightarrow> addr option \<Rightarrow> rc \<Rightarrow> int" where
  "taken q lo rc = (if lo = Some q \<and> rc = 0 then 1 else 0)"

lemma keeps_have_rwlock: "lock_like \<delta> \<Longrightarrow> keeps \<delta> (posixipc_have_rwlock_clocklock g)"
  unfolding posixipc_have_rwlock_clocklock_def by (intro keeps_rules keeps_clocksym_init)

lemma keeps_have_sem: "lock_like \<delta> \<Longrightarrow> keeps \<delta> (posixipc_have_sem_clockwait g)"
  unfolding posixipc_have_sem_clockwait_def by (intro keeps_rules keeps_clocksym_init)

lemma keeps_rwlock_clock: "lock_like \<delta> \<Longrightarrow> keeps \<delta> (posixipc_rwlock_clock g)"
  unfolding posixipc_rwlock_clock_def by (intro keeps_rules keeps_have_rwlock)

lemma keeps_sem_clock: "lock_like \<delta> \<Longrightarrow> keeps \<delta> (posixipc_sem_clock g)"
  unfolding posixipc_sem_clock_def by (intro keeps_rules keeps_have_sem)

lemma effect_rc: "(\<And>a. \<delta> c a = k (a_ret a)) \<Longrightarrow> effect E \<delta> k (call_rc c)"
  by (simp add: effect_def run_call_rc)

lemma effect_errno: "(\<And>a. \<delta> c a = k (if a_ret a \<noteq> 0 then a_errno a else 0)) \<Longrightarrow> effect E \<delta> k (call_errno c)"
  by (simp add: effect_def run_call_errno)

lemma effect_rd_until: "effect E (rw_delta wr q) (\<lambda>r. taken q (if wr then None else lo) (fst r)) (rd_until_cb lo g d)"
  unfolding rd_until_cb_def posixipc_rwlock_rdlock_until_def posixipc_rwlock_clockrdlock_def prod.case
  by (cases lo; simp only: option.case;
      (intro effect_ret effect_keeps_bind [OF keeps_have_rwlock [OF lock_like_rw]] effect_prod effect_if
        effect_keeps_bind [OF keeps_clocksym_init [OF lock_like_rw]] effect_bind [OF effect_rc [where k = "taken q (if wr then None else lo)"]])?;
      auto simp: taken_def)

lemma effect_wr_until: "effect E (rw_delta wr q) (\<lambda>r. taken q (if wr then lo else None) (fst r)) (wr_until_cb lo g d)"
  unfolding wr_until_cb_def posixipc_rwlock_wrlock_until_def posixipc_rwlock_clockwrlock_def prod.case
  by (cases lo; simp only: option.case;
      (intro effect_ret effect_keeps_bind [OF keeps_have_rwlock [OF lock_like_rw]] effect_prod effect_if
        effect_keeps_bind [OF keeps_clocksym_init [OF lock_like_rw]] effect_bind [OF effect_rc [where k = "taken q (if wr then lo else None)"]])?;
      auto simp: taken_def)

lemma effect_sem_until: "effect E (sem_delta q) (\<lambda>r. taken q lo (fst r)) (sem_until_cb lo g d)"
proof (cases lo)
  case (Some p)
  have clock: "effect E (sem_delta q) (\<lambda>x. taken q lo (if fst (fst x) = 0 then 0 else snd (fst x)))
      (posixipc_sem_clockwait g p (d_clk d) (d_ts d))" for g
    unfolding posixipc_sem_clockwait_def
    by (intro effect_keeps_bind [OF keeps_clocksym_init [OF lock_like_sem]] effect_if effect_ret effect_bind [OF effect_call])
      (auto simp: taken_def zero_code_def Some)
  show ?thesis
    unfolding sem_until_cb_def posixipc_sem_wait_until_def Some prod.case option.case
    by (intro effect_keeps_bind [OF keeps_have_sem [OF lock_like_sem]] effect_prod effect_if effect_ret
        effect_bind [OF clock] effect_bind [OF effect_errno [where k = "taken q lo"]])
      (auto simp: taken_def zero_code_def Some intro!: effect_ret split: prod.splits)
qed (simp add: sem_until_cb_def posixipc_sem_wait_until_def effect_ret taken_def)


lemma only_clocksym: "only (\<lambda>_. True) (posixipc_clocksym_init g)"
  unfolding posixipc_clocksym_init_def dlsym_def by (intro only_rules) simp_all

lemma only_rd_until: "only (\<lambda>_. True) (rd_until_cb lo g d)"
  unfolding rd_until_cb_def posixipc_rwlock_rdlock_until_def posixipc_rwlock_clockrdlock_def posixipc_have_rwlock_clocklock_def
    prod.case call_rc_def
  by (intro only_rules only_clocksym TrueI)

lemma only_wr_until: "only (\<lambda>_. True) (wr_until_cb lo g d)"
  unfolding wr_until_cb_def posixipc_rwlock_wrlock_until_def posixipc_rwlock_clockwrlock_def posixipc_have_rwlock_clocklock_def
    prod.case call_rc_def
  by (intro only_rules only_clocksym TrueI)

lemma only_sem_until: "only (\<lambda>_. True) (sem_until_cb lo g d)"
  unfolding sem_until_cb_def posixipc_sem_wait_until_def posixipc_sem_clockwait_def posixipc_have_sem_clockwait_def
    prod.case call_errno_def
  by (intro only_rules only_clocksym TrueI) (auto intro: only_ret split: prod.split)

interpretation rd_wait: waiter "rd_until_cb lo" "rw_delta wr q" "taken q (if wr then None else lo)" for lo q wr
  by (rule waiterI [OF effect_rd_until only_rd_until]) (auto simp: taken_def lock_like_rw)

interpretation wr_wait: waiter "wr_until_cb lo" "rw_delta wr q" "taken q (if wr then lo else None)" for lo q wr
  by (rule waiterI [OF effect_wr_until only_wr_until]) (auto simp: taken_def lock_like_rw)

interpretation sem_wait: waiter "sem_until_cb lo" "sem_delta q" "taken q lo" for lo q
  by (rule waiterI [OF effect_sem_until only_sem_until]) (auto simp: taken_def lock_like_sem)

lemma keeps_user_deadline:
  "lock_like \<delta> \<Longrightarrow> (\<And>g. keeps \<delta> (clock g)) \<Longrightarrow> keeps \<delta> (user_deadline fl clock opts g)"
  unfolding user_deadline_def by (intro keeps_rules keeps_deadline)

lemma effect_rw_try:
  "effect E (rw_delta wr q) (taken q (if wr = writer then lo else None)) (if writer then posixipc_rwlock_trywrlock lo else posixipc_rwlock_tryrdlock lo)"
  unfolding posixipc_rwlock_trywrlock_def posixipc_rwlock_tryrdlock_def
  by (cases lo; simp; intro conjI impI effect_ret effect_rc; simp add: taken_def)

lemma effect_rw_lock:
  "effect E (rw_delta wr q) (taken q (if wr = writer then lo else None)) (allow_threads (if writer then posixipc_rwlock_wrlock lo else posixipc_rwlock_rdlock lo))"
  unfolding posixipc_rwlock_wrlock_def posixipc_rwlock_rdlock_def
  by (rule effect_allow_threads [OF lock_like_rw]; cases lo; simp; intro conjI impI effect_ret effect_rc; simp add: taken_def)

lemma rwlock_result_True: "rwlock_result rc = Inr True \<longleftrightarrow> rc = 0"
  by (auto simp: rwlock_result_def)

lemma end_effect_rw_wait:
  "end_effect clock_ok (rw_delta wr q) (\<lambda>r. taken q (if wr = writer then rw_lock ob else None) (if r = Inr True then 0 else 1))
     (do { res \<leftarrow> posixipc_blocking_wait fuel (if writer then wr_until_cb (rw_lock ob) else rd_until_cb (rw_lock ob)) userp intr clk g;
           case res of None \<Rightarrow> ret (Unfinished, g) | Some (rc, g) \<Rightarrow> ret (Returned (rwlock_result rc), g) })"
  by (cases writer; simp only: if_True if_False;
      (rule wr_wait.end_effect_blocking rd_wait.end_effect_blocking); simp only: prod.case;
      rule end_effect_ret; auto simp: taken_def rwlock_result_True)

lemma taken_1 [simp]: "taken q lo 1 = 0"
  by (simp add: taken_def)

lemma taken_result: "taken q lo (if r = Inr True then 0 else 1) = (if r = Inr True then taken q lo 0 else 0)"
  by simp

lemma taken_not_zero: "rc \<noteq> 0 \<Longrightarrow> taken q lo rc = 0"
  by (simp add: taken_def)

lemma end_effect_rwlock_acquire:
  "end_effect clock_ok (rw_delta wr q) (\<lambda>r. taken q (if wr = writer then rw_lock ob else None) (if r = Inr True then 0 else 1))
     (rwlock_acquire_mode fl fuel g ob opts writer)"
  unfolding rwlock_acquire_mode_def
  apply (rule end_effect_keeps_bind [OF keeps_state_from [OF lock_like_rw]])
  apply (intro end_effect_option end_effect_ret)
    apply (rule end_effect_bind [OF effect_rw_try])
    apply (intro end_effect_if end_effect_ret)
      apply (auto simp: rwlock_result_True taken_not_zero)[2]
    apply (rule end_effect_keeps_bind [OF keeps_user_deadline [OF lock_like_rw keeps_rwlock_clock [OF lock_like_rw]]])
    apply (intro end_effect_prod end_effect_option end_effect_if end_effect_ret)
       apply (auto simp: taken_not_zero)[2]
     apply (rule end_effect_bind [OF effect_rw_lock], rule end_effect_ret, auto simp: rwlock_result_True taken_not_zero)[1]
    apply (rule end_effect_keeps_bind [OF keeps_rwlock_clock [OF lock_like_rw]], rule end_effect_prod)
    apply (rule end_effect_mono [OF end_effect_rw_wait], simp add: taken_not_zero)
   apply (auto simp: taken_not_zero)
  done

lemma effect_sem_try: "effect E (sem_delta q) (taken q lo) (posixipc_sem_trywait lo)"
  unfolding posixipc_sem_trywait_def
  by (cases lo; simp; intro effect_ret effect_errno; auto simp: taken_def zero_code_def)

lemma effect_sem_wait: "effect E (sem_delta q) (taken q lo) (allow_threads (posixipc_sem_wait lo))"
  unfolding posixipc_sem_wait_def
  by (rule effect_allow_threads [OF lock_like_sem]; cases lo; simp; intro effect_ret effect_errno; auto simp: taken_def zero_code_def)

lemma effect_sem_post: "effect E (sem_delta q) (\<lambda>rc. - taken q lo rc) (posixipc_sem_post lo)"
  unfolding posixipc_sem_post_def
  by (cases lo; simp; intro effect_ret effect_errno; auto simp: taken_def zero_code_def)

lemma end_effect_sem_wait:
  "end_effect clock_ok (sem_delta q) (\<lambda>r. taken q lo (if r = Inr True then 0 else 1))
     (do { res \<leftarrow> posixipc_blocking_wait fuel (sem_until_cb lo) userp intr clk g;
           case res of None \<Rightarrow> ret (Unfinished, g) | Some (rc, g) \<Rightarrow>
             ret (Returned (if rc = 0 then Inr True else if rc = ETIMEDOUT \<or> rc = EAGAIN then Inr False else Inl (raise_err rc)), g) })"
  by (rule sem_wait.end_effect_blocking; simp; (intro conjI impI)?; rule end_effect_ret; auto simp: taken_not_zero)

lemma end_effect_sem_acquire:
  "end_effect clock_ok (sem_delta q) (\<lambda>r. taken q (se_sem ob) (if r = Inr True then 0 else 1)) (sem_acquire fl fuel g ob args kws)"
  unfolding sem_acquire_def
  apply (rule end_effect_keeps_bind [OF keeps_state_from [OF lock_like_sem]])
  apply (intro end_effect_option end_effect_ret)
    apply (rule end_effect_keeps_bind [OF keeps_parse_acquire [OF lock_like_sem]])
    apply (rule end_effect_sum)
     apply (rule end_effect_ret, auto simp: taken_not_zero)[1]
    apply (rule end_effect_bind [OF effect_sem_try])
    apply (intro end_effect_if end_effect_ret)
      apply (auto simp: taken_not_zero split: if_splits)[2]
    apply (rule end_effect_keeps_bind [OF keeps_user_deadline [OF lock_like_sem keeps_sem_clock [OF lock_like_sem]]])
    apply (intro end_effect_prod end_effect_option end_effect_if end_effect_ret)
       apply (auto simp: taken_not_zero)[2]
     apply (rule end_effect_bind [OF effect_sem_wait], rule end_effect_ret, auto simp: taken_not_zero split: if_splits)[1]
    apply (rule end_effect_keeps_bind [OF keeps_sem_clock [OF lock_like_sem]], rule end_effect_prod)
    apply (rule end_effect_mono [OF end_effect_sem_wait], auto simp: taken_not_zero)[1]
   apply (auto simp: taken_not_zero)
  done

text \<open>
  C34. Read-write locks and semaphores are taken exactly when acquire returns True: \<^verbatim>\<open>acquire_read\<close> has
  then taken one read lock and no write lock, \<^verbatim>\<open>acquire_write\<close> one write lock and no read lock and
  \<^verbatim>\<open>Semaphore.acquire\<close> one permit, and none when they return False or raise, also when the wait
  was interrupted or timed out.
\<close>

theorem sync_acquire_contract:
  assumes "clock_errors w"
    and "run (rwlock_acquire_read fl fuel g ob args kws) w = ((Returned r1, g1), w1)"
    and "run (rwlock_acquire_write fl fuel g ob args kws) w = ((Returned r2, g2), w2)"
    and "run (sem_acquire fl fuel g sem args kws) w = ((Returned r3, g3), w3)"
  shows "balance (rw_delta wr q) w1 = balance (rw_delta wr q) w + (if \<not> wr \<and> rw_lock ob = Some q \<and> r1 = Inr True then 1 else 0) \<and>
         balance (rw_delta wr q) w2 = balance (rw_delta wr q) w + (if wr \<and> rw_lock ob = Some q \<and> r2 = Inr True then 1 else 0) \<and>
         balance (sem_delta q) w3 = balance (sem_delta q) w + (if se_sem sem = Some q \<and> r3 = Inr True then 1 else 0)"
proof -
  have m: "end_effect clock_ok (rw_delta wr q) (\<lambda>r. taken q (if wr = writer then rw_lock ob else None) (if r = Inr True then 0 else 1))
      (do { p \<leftarrow> posixipc_parse_acquire args kws;
            case p of Inl e \<Rightarrow> ret (Returned (Inl e), g) | Inr opts \<Rightarrow> rwlock_acquire_mode fl fuel g ob opts writer })" for writer
    by (rule end_effect_keeps_bind [OF keeps_parse_acquire [OF lock_like_rw]], rule end_effect_sum, rule end_effect_ret)
      (auto simp: end_effect_rwlock_acquire)
  note c = clock_okI [OF assms(1)]
  show ?thesis
    using end_effectD(2) [OF m c assms(2) [unfolded rwlock_acquire_read_def]]
      end_effectD(2) [OF m c assms(3) [unfolded rwlock_acquire_write_def]] end_effectD(2) [OF end_effect_sem_acquire c assms(4), of q]
    by (auto simp: taken_def)
qed

section \<open>Releasing\<close>

lemma sem_posts_count:
  assumes "run (sem_posts n (Some q)) w = (r, w')"
  shows "\<exists>k \<le> n. balance (sem_delta q) w' = balance (sem_delta q) w - int k \<and> (r = Inr () \<longrightarrow> k = n) \<and> (r \<noteq> Inr () \<longrightarrow> k < n)"
  using assms
proof (induction n arbitrary: w)
  case (Suc n)
  obtain rc w1 where p: "run (posixipc_sem_post (Some q)) w = (rc, w1)" by fastforce
  note b = effectD(2) [OF effect_sem_post [of "\<lambda>_. True"] TrueI p, of q]
  show ?case
  proof (cases "rc = 0")
    case True
    then have "run (sem_posts n (Some q)) w1 = (r, w')" using Suc.prems p by (simp add: run_bind)
    then obtain k where k: "k \<le> n" "balance (sem_delta q) w' = balance (sem_delta q) w1 - int k"
        "r = Inr () \<longrightarrow> k = n" "r \<noteq> Inr () \<longrightarrow> k < n" using Suc.IH by blast
    with b True show ?thesis by (intro exI [of _ "Suc k"]) (auto simp: taken_def)
  next
    case False
    then show ?thesis using Suc.prems p b by (intro exI [of _ 0]) (auto simp: run_bind run_ret taken_def)
  qed
qed (simp add: run_ret)

text \<open>
  \<^verbatim>\<open>Semaphore.release(n)\<close> on an open handle gives back exactly \<open>n\<close> permits when it succeeds; with \<open>n < 1\<close>
  it raises ValueError and gives back nothing. When a post fails part of the way it raises and
  the permits already posted stay posted, fewer than \<open>n\<close>.
\<close>

theorem sem_release_counts:
  assumes "module_found w" and "sem_check_open ob = None" and "se_sem ob = Some q"
    and "run (sem_release ob n) w = (r, w')"
  shows "(r = Inr () \<longrightarrow> n \<ge> 1 \<and> balance (sem_delta q) w' = balance (sem_delta q) w - n) \<and>
         (r \<noteq> Inr () \<longrightarrow> (\<exists>k. 0 \<le> k \<and> (n \<ge> 1 \<longrightarrow> k < n) \<and> (n < 1 \<longrightarrow> k = 0) \<and>
            balance (sem_delta q) w' = balance (sem_delta q) w - k))"
proof -
  let ?w1 = "after w (Py Type_GetModule)" and ?p = "Py (ParseTuple ''|i:release'')"
  have "(r = Inl Pending \<or> r = Inl ValueError) \<and> w' = after ?w1 ?p \<or> n \<ge> 1 \<and> run (sem_posts (nat n) (Some q)) (after ?w1 ?p) = (r, w')"
    using assms(2-4) run_state_from [OF assms(1)] by (auto simp: sem_release_def run_bind run_ret run_if run_call split: if_splits)
  then show ?thesis
  proof
    assume a: "n \<ge> 1 \<and> run (sem_posts (nat n) (Some q)) (after ?w1 ?p) = (r, w')"
    then obtain k where "k \<le> nat n" "balance (sem_delta q) w' = balance (sem_delta q) w - int k"
        "r = Inr () \<longrightarrow> k = nat n" "r \<noteq> Inr () \<longrightarrow> k < nat n"
      using sem_posts_count [of "nat n" q "after ?w1 ?p" r w'] by auto
    with a show ?thesis by (auto intro!: exI [of _ "int k"])
  qed (auto intro!: exI [of _ 0])
qed

section \<open>Condition waits and the mutex\<close>

interpretation cond_sleep: waiter "cond_until_cb cv lo" "lock_delta p"
    "\<lambda>rc. if cv \<noteq> None \<and> lo = Some p \<and> rc = ENOTRECOVERABLE then - 1 else 0"
  for cv lo p
  by unfold_locales
    (auto simp: cond_until_cb_def posixipc_cond_wait_until_def io_simps lock_like_delta split: option.splits)

interpretation cond_lost: waiter "cond_until_cb cv lo" "lost_delta p"
    "\<lambda>rc. if cv \<noteq> None \<and> lo = Some p \<and> rc = ENOTRECOVERABLE then 1 else 0"
  for cv lo p
  by unfold_locales
    (auto simp: cond_until_cb_def posixipc_cond_wait_until_def io_simps lock_like_lost split: option.splits)

text \<open>A sleep keeps the mutex, unless its code is ENOTRECOVERABLE and it was lost.\<close>

lemma cond_slept:
  assumes "clock_errors w"
    and "run (if b then do { rc \<leftarrow> allow_threads (posixipc_cond_wait cv lo); ret (Some (rc, ())) }
              else posixipc_blocking_wait fuel (cond_until_cb cv lo) user intr clk ()) w = (Some (rc, u), w')"
  obtains n where "\<And>p. balance (lock_delta p) w' = balance (lock_delta p) w - n p" "\<And>p. balance (lost_delta p) w' = balance (lost_delta p) w + n p"
    "env w' = env w" "\<And>p. n p = 0 \<or> rc = ENOTRECOVERABLE"
proof -
  let ?n = "\<lambda>p. if cv \<noteq> None \<and> lo = Some p \<and> rc = ENOTRECOVERABLE then 1 else 0 :: int"
  have "env w' = env w \<and> (\<forall>p. balance (lock_delta p) w' = balance (lock_delta p) w - ?n p \<and>
     balance (lost_delta p) w' = balance (lost_delta p) w + ?n p)"
  proof (cases b)
    case True
    with assms(2) show ?thesis
      by (cases cv; cases lo) (auto simp: posixipc_cond_wait_def io_simps)
  next
    case False
    then have r: "run (posixipc_blocking_wait fuel (cond_until_cb cv lo) user intr clk ()) w = (Some (rc, u), w')" using assms(2) by simp
    show ?thesis
      using cond_sleep.blocking_wait_balance [OF assms(1) r] cond_lost.blocking_wait_balance [OF assms(1) r] cond_sleep.blocking_wait_env [OF r]
      by auto
  qed
  then show thesis using that [of ?n] by auto
qed

text \<open>
  What a wait on a locked mutex handle leaves: held exactly if the handle still says locked, unless the
  wait lost the mutex; then it raises and the mark stays.
\<close>

definition wait_post :: "PosixIPCMutexObject \<Rightarrow> world \<Rightarrow> bool pyres \<Rightarrow> PosixIPCMutexObject \<Rightarrow> world \<Rightarrow> bool" where
  "wait_post m w r m' w' \<longleftrightarrow>
     (\<forall>q. balance (lock_delta q) w' = balance (lock_delta q) w - (if m_lock m = Some q \<and> \<not> m_locked m' then 1 else 0) -
            (balance (lost_delta q) w' - balance (lost_delta q) w) \<and>
          (balance (lost_delta q) w' \<noteq> balance (lost_delta q) w \<longrightarrow> r = Inl NotRecoverableError \<and> m_locked m')) \<and>
     ((\<exists>b. r = Inr b) \<longrightarrow> m_locked m')"

lemma wait_post_same:
  "m_locked m' \<Longrightarrow> (\<And>q. balance (lock_delta q) w' = balance (lock_delta q) w) \<Longrightarrow>
   (\<And>q. balance (lost_delta q) w' = balance (lost_delta q) w) \<Longrightarrow> wait_post m w r m' w'"
  by (simp add: wait_post_def)

lemma keeps_lost_after_lock: "keeps (lost_delta q) (posixipc_mutex_after_lock m rc)"
  unfolding posixipc_mutex_after_lock_def
  by (intro keeps_rules keeps_state_from lock_like_lost keeps_mutex_consistent keeps_mutex_unlock; simp)

text \<open>The end of a wait that returned with code \<open>rc\<close>.\<close>

lemma after_wait_post:
  assumes "module_found w1" and "m_locked m" and "\<And>q. balance (lock_delta q) w1 = balance (lock_delta q) w - n q"
    and "\<And>q. balance (lost_delta q) w1 = balance (lost_delta q) w + n q" and "\<And>q. n q = 0 \<or> rc = ENOTRECOVERABLE"
    and "run (posixipc_mutex_after_lock m rc) w1 = ((r, m'), w')"
  shows "wait_post m w r m' w'"
proof -
  have p: "acquire_post rc w1 m r m' w'" by (rule after_lock_post [OF assms(1,6)])
  have l: "balance (lost_delta q) w' = balance (lost_delta q) w + n q" for q
    using keepsD(3) [OF keeps_lost_after_lock assms(6)] assms(4) by simp
  show ?thesis
  proof (cases "rc = 0 \<or> rc = EOWNERDEAD")
    case True
    then have g: "got rc = 1" and n: "\<And>q. n q = 0" using assms(5) by (auto simp: got_def)
    have "r = Inr True \<or> (\<exists>e. r = Inl e \<and> \<not> m_locked m')"
      using True assms(6) run_state_from [OF assms(1)]
      by (cases "m_on_owner_died m")
        (auto simp: posixipc_mutex_after_lock_def run_bind run_ret run_if run_call Let_def split: if_splits prod.splits)
    with p g assms(2,3) l n show ?thesis by (auto simp: acquire_post_def wait_post_def)
  next
    case False
    then have g: "got rc = 0" by (simp add: got_def)
    have m: "m' = m" and r: "r \<noteq> Inr True" and e: "rc = ENOTRECOVERABLE \<Longrightarrow> r = Inl NotRecoverableError"
      using False assms(6) run_state_from [OF assms(1)] by (auto simp: posixipc_mutex_after_lock_def run_bind run_ret run_if split: if_splits)
    have "n q \<noteq> 0 \<Longrightarrow> rc = ENOTRECOVERABLE" for q using assms(5) by blast
    with e p g assms(2,3) l m r show ?thesis by (auto simp: acquire_post_def wait_post_def)
  qed
qed

lemma cond_block_post:
  assumes "module_found w" and sw: "clock_errors w" and lk: "m_locked m"
    and run: "run (cond_block fl fuel ob m opts) w = ((Returned r, m'), w')"
  shows "wait_post m w r m' w'"
proof -
  let ?clk = "posixipc_cond_clock (x_init_flags ob)"
  let ?pre = "if timeout_none opts then ret (Some (0, None))
     else posixipc_deadline_from_seconds fl ?clk (timeout opts) (Some deadline0)"
  obtain d w1 where p: "run ?pre w = (d, w1)" by fastforce
  have kp: "keeps (lock_delta q) ?pre" "keeps (lost_delta q) ?pre" for q
    by (intro keeps_rules keeps_deadline lock_like_delta lock_like_lost)+
  have e1: "env w1 = env w" and b1: "\<And>q. balance (lock_delta q) w1 = balance (lock_delta q) w" "\<And>q. balance (lost_delta q) w1 = balance (lost_delta q) w"
    using keepsD [OF kp(1) p] keepsD(3) [OF kp(2) p] by blast+
  obtain rc userp where d: "d = Some (rc, userp)"
    using run p by (cases d) (auto simp: cond_block_def run_bind run_ret Let_def)
  show ?thesis
  proof (cases "rc = 0")
    case False
    then have "m' = m \<and> w' = w1" using run p d by (auto simp: cond_block_def run_bind run_ret Let_def)
    then show ?thesis using lk b1 by (intro wait_post_same) simp_all
  next
    case True
    let ?sl = "if \<not> interruptible opts \<and> timeout_none opts
       then do { rc \<leftarrow> allow_threads (posixipc_cond_wait (co_cond ob) (m_lock m)); ret (Some (rc, ())) }
       else posixipc_blocking_wait fuel (cond_until_cb (co_cond ob) (m_lock m)) userp (interruptible opts) ?clk ()"
    obtain res w2 where s: "run ?sl w1 = (res, w2)" by fastforce
    have whole: "run (cond_block fl fuel ob m opts) w =
      (case res of None \<Rightarrow> ((Unfinished, m), w2) | Some (rc, _) \<Rightarrow>
         if rc = POSIXIPC_ERROR_INTERRUPTED then ((Returned (Inl Pending), m\<lparr>m_locked := True\<rparr>), w2)
         else if rc = ETIMEDOUT then ((Returned (Inr False), m\<lparr>m_locked := True\<rparr>), w2)
         else (case run (posixipc_mutex_after_lock m rc) w2 of ((r, m), w) \<Rightarrow> ((Returned r, m), w)))"
      unfolding cond_block_def Let_def run_bind p prod.case d option.case True
      using s by (simp add: run_bind run_ret split: option.split prod.split)
    obtain rc2 u where res: "res = Some (rc2, u)" using run whole by (cases res) auto
    have "clock_errors w1" using sw e1 by (simp add: clock_errors_def)
    then obtain n where n: "\<And>q. balance (lock_delta q) w2 = balance (lock_delta q) w - n q" "\<And>q. balance (lost_delta q) w2 = balance (lost_delta q) w + n q"
        "env w2 = env w" "\<And>q. n q = 0 \<or> rc2 = ENOTRECOVERABLE"
      by (rule cond_slept [OF _ s [unfolded res]]) (use e1 b1 in auto)
    have mf: "module_found w2" using n(3) assms(1) by (simp add: module_found_def)
    obtain r3 m3 w3 where al: "run (posixipc_mutex_after_lock m rc2) w2 = ((r3, m3), w3)" by (metis prod_cases3 surj_pair)
    have "wait_post m w x (m\<lparr>m_locked := True\<rparr>) w2" if "rc2 \<noteq> ENOTRECOVERABLE" for x
      using n(1,2,4) that by (intro wait_post_same) (simp, metis diff_zero, metis add.right_neutral)
    then show ?thesis
      using whole run res al after_wait_post [OF mf lk n(1,2,4) al] by (auto split: if_splits)
  qed
qed

text \<open>A condition wait is refused before it changes anything, or it blocks with the mutex marked locked.\<close>

lemma cond_wait_cases:
  assumes "module_found w" and "co_mutex ob = Some mi" and "run (cond_wait fl fuel ob M args kws) w = ((Returned r, M'), w')"
  obtains (early) e where "r = Inl e" "M' = M" "\<And>q. balance (lock_delta q) w' = balance (lock_delta q) w" "\<And>q. balance (lost_delta q) w' = balance (lost_delta q) w"
    | (block) opts m' w2 where "m_locked (M mi)" "run (cond_block fl fuel ob (M mi) opts) w2 = ((Returned r, m'), w')" "M' = M(mi := m')"
        "env w2 = env w" "\<And>q. balance (lock_delta q) w2 = balance (lock_delta q) w" "\<And>q. balance (lost_delta q) w2 = balance (lost_delta q) w"
proof -
  let ?w1 = "after w (Py Type_GetModule)"
  note st = run_state_from [OF assms(1)]
  obtain p w2 where p: "run (posixipc_parse_acquire args kws) ?w1 = (p, w2)" by fastforce
  have k: "env w2 = env w" "\<And>q. balance (lock_delta q) w2 = balance (lock_delta q) w" "\<And>q. balance (lost_delta q) w2 = balance (lost_delta q) w"
    using keepsD [OF keeps_parse_acquire [OF lock_like_delta] p] keepsD(3) [OF keeps_parse_acquire [OF lock_like_lost] p] by auto
  have k1: "balance (lock_delta q) ?w1 = balance (lock_delta q) w" "balance (lost_delta q) ?w1 = balance (lost_delta q) w" for q by simp_all
  have whole: "run (cond_wait fl fuel ob M args kws) w =
    (case cond_check_open ob of Some e \<Rightarrow> ((Returned (Inl e), M), ?w1) | None \<Rightarrow>
     case p of Inl e \<Rightarrow> ((Returned (Inl e), M), w2) | Inr opts \<Rightarrow>
       if \<not> blocking opts then ((Returned (Inl ValueError), M), w2)
       else if m_lock (M mi) = None \<or> \<not> m_locked (M mi) then ((Returned (Inl RuntimeError), M), w2)
       else (case run (cond_block fl fuel ob (M mi) opts) w2 of ((oc, m), w) \<Rightarrow> ((oc, M(mi := m)), w)))"
    unfolding cond_wait_def run_bind st prod.case option.case
    by (cases "cond_check_open ob"; cases p; cases "m_lock (M mi)")
      (simp_all add: run_bind run_ret p assms(2) Let_def split: prod.split)
  show thesis
  proof (cases "cond_check_open ob = None \<and> (\<exists>opts. p = Inr opts)")
    case True
    then obtain opts where o: "p = Inr opts" "cond_check_open ob = None" by blast
    obtain oc m' w3 where cb: "run (cond_block fl fuel ob (M mi) opts) w2 = ((oc, m'), w3)" by (metis prod_cases3 surj_pair)
    show thesis using whole assms(3) o cb early k block [of opts w2 m'] by (auto split: if_splits)
  next
    case False
    then show thesis using whole assms(3) early k k1 by (cases p) (auto split: option.splits)
  qed
qed

text \<open>
  C33. A condition wait ends with the mutex held exactly when the handle says so: it is refused unless
  the handle of the associated mutex is marked locked, and when it returns True or False, times out,
  is interrupted or fails, the thread holds the mutex as before and the mark stays; when the recovery
  of a dead owner fails the mutex has been released and the mark is gone. The exception is a wait
  answered with ENOTRECOVERABLE, which has lost the mutex: the call raises that error,
  and the mark stays although the thread does not hold the mutex any more. No other mutex handle changes.
\<close>

theorem cond_wait_contract:
  assumes "module_found w" and "clock_errors w" and "co_mutex ob = Some mi"
    and "run (cond_wait fl fuel ob M args kws) w = ((Returned r, M'), w')"
  shows "balance (lock_delta q) w' = balance (lock_delta q) w -
           (if m_lock (M mi) = Some q \<and> m_locked (M mi) \<and> \<not> m_locked (M' mi) then 1 else 0) -
           (balance (lost_delta q) w' - balance (lost_delta q) w) \<and>
         (balance (lost_delta q) w' \<noteq> balance (lost_delta q) w \<longrightarrow> r = Inl NotRecoverableError \<and> m_locked (M' mi)) \<and>
         ((\<exists>b. r = Inr b) \<longrightarrow> m_locked (M mi) \<and> m_locked (M' mi)) \<and> (\<forall>i. i \<noteq> mi \<longrightarrow> M' i = M i)"
  using assms(1,3,4)
proof (cases rule: cond_wait_cases)
  case (block opts m' w2)
  have "module_found w2" "clock_errors w2" using assms(1,2) block(4) by (simp_all add: module_found_def clock_errors_def)
  from cond_block_post [OF this block(1,2)] block(1,3,5,6) show ?thesis by (simp add: wait_post_def)
qed auto

section \<open>Concrete runs\<close>

definition bound_handle :: handle where
  "bound_handle = \<lparr>x_region = None, x_slot = 0, x_kind = KIND_RWLOCK, x_align = 8, x_offset = 0, x_size = 56, x_init_flags = 0, x_flags = FLAG_BOUND\<rparr>"

definition demo_rwlock :: PosixIPCRWLockObject where
  "demo_rwlock = handle.extend bound_handle (PosixIPCRWLockObject.fields (Some 7) 7)"

definition demo_sem :: PosixIPCSemaphoreObject where
  "demo_sem = handle.extend bound_handle (PosixIPCSemaphoreObject.fields (Some 7) 0 7)"

definition demo_cond :: PosixIPCConditionObject where
  "demo_cond = handle.extend bound_handle (PosixIPCConditionObject.fields (Some 8) (Some 0) 8)"

lemmas demo_sync_defs = bound_handle_def demo_rwlock_def demo_sem_def demo_cond_def handle.defs PosixIPCRWLockObject.defs
  PosixIPCSemaphoreObject.defs PosixIPCConditionObject.defs flags_closed_def flag_set_def

lemmas run_sync_defs = posixipc_state_from_obj_def posixipc_state_from_type_def posixipc_parse_acquire_def parse_timeout_def io_simps

theorem sync_acquire_contract_witness:
  "\<exists>g1 w1 g2 w2 g3 w3.
     run (rwlock_acquire_read (\<lambda>x. x) 1 clocksym0 demo_rwlock [] []) py_world = ((Returned (Inr True), g1), w1) \<and> balance (rw_delta False 7) w1 = 1 \<and> balance (rw_delta True 7) w1 = 0 \<and>
     run (rwlock_acquire_write (\<lambda>x. x) 1 clocksym0 demo_rwlock [] []) py_world = ((Returned (Inr True), g2), w2) \<and> balance (rw_delta True 7) w2 = 1 \<and> balance (rw_delta False 7) w2 = 0 \<and>
     run (sem_acquire (\<lambda>x. x) 1 clocksym0 demo_sem [] []) py_world = ((Returned (Inr True), g3), w3) \<and> balance (sem_delta 7) w3 = 1"
proof -
  obtain g1 w1 where r1: "run (rwlock_acquire_read (\<lambda>x. x) 1 clocksym0 demo_rwlock [] []) py_world = ((Returned (Inr True), g1), w1)"
    by (simp add: rwlock_acquire_read_def rwlock_acquire_mode_def rwlock_check_open_def posixipc_rwlock_tryrdlock_def rwlock_result_def
        demo_sync_defs run_sync_defs answer_to_py answer0_def)
  obtain g2 w2 where r2: "run (rwlock_acquire_write (\<lambda>x. x) 1 clocksym0 demo_rwlock [] []) py_world = ((Returned (Inr True), g2), w2)"
    by (simp add: rwlock_acquire_write_def rwlock_acquire_mode_def rwlock_check_open_def posixipc_rwlock_trywrlock_def rwlock_result_def
        demo_sync_defs run_sync_defs answer_to_py answer0_def)
  obtain g3 w3 where r3: "run (sem_acquire (\<lambda>x. x) 1 clocksym0 demo_sem [] []) py_world = ((Returned (Inr True), g3), w3)"
    by (simp add: sem_acquire_def sem_check_open_def posixipc_sem_trywait_def demo_sync_defs run_sync_defs answer_to_py answer0_def)
  have "rw_lock demo_rwlock = Some 7" "se_sem demo_sem = Some 7" "balance (rw_delta wr 7) py_world = 0" "balance (sem_delta 7) py_world = 0" for wr
    by (simp_all add: demo_sync_defs balance_def py_world_def)
  with sync_acquire_contract [OF py_clock r1 r2 r3, of True 7] sync_acquire_contract [OF py_clock r1 r2 r3, of False 7] r1 r2 r3
  show ?thesis by simp
qed

theorem sem_release_counts_witness:
  "\<exists>w'. run (sem_release demo_sem 2) py_world = (Inr (), w') \<and> balance (sem_delta 7) w' = - 2"
proof -
  have o1: "sem_check_open demo_sem = None" "se_sem demo_sem = Some 7" by (simp_all add: sem_check_open_def demo_sync_defs)
  obtain w' where r: "run (sem_release demo_sem 2) py_world = (Inr (), w')"
    using o1 by (simp add: sem_release_def run_sync_defs answer_to_py answer0_def numeral_2_eq_2 posixipc_sem_post_def)
  have "balance (sem_delta 7) py_world = 0" by (simp add: balance_def py_world_def)
  with sem_release_counts [OF py_module o1 r] r show ?thesis by simp
qed

theorem cond_wait_contract_witness:
  "\<exists>M' w'. run (cond_wait (\<lambda>x. x) 1 demo_cond (\<lambda>_. demo_mutex\<lparr>m_locked := True\<rparr>) [] []) py_world = ((Returned (Inr True), M'), w') \<and>
     m_locked (M' 0) \<and> balance (lock_delta 7) w' = 0 \<and> balance (lost_delta 7) w' = 0"
proof -
  obtain M' w' where r: "run (cond_wait (\<lambda>x. x) 1 demo_cond (\<lambda>_. demo_mutex\<lparr>m_locked := True\<rparr>) [] []) py_world = ((Returned (Inr True), M'), w')"
    by (simp add: cond_wait_def cond_check_open_def cond_block_def demo_mutex_def posixipc_blocking_wait_def cond_until_cb_def
        posixipc_cond_wait_until_def posixipc_mutex_after_lock_def demo_sync_defs run_sync_defs answer_to_py answer0_def Let_def)
  have "co_mutex demo_cond = Some 0" "balance (lock_delta 7) py_world = 0" "balance (lost_delta 7) py_world = 0"
    by (simp_all add: demo_sync_defs balance_def py_world_def)
  then show ?thesis using cond_wait_contract [OF py_module py_clock _ r, of 0 7] r by auto
qed

definition fresh_rwlock :: PosixIPCRWLockObject where
  "fresh_rwlock = demo_rwlock\<lparr>rw_lock := None, x_flags := FLAG_PROCESS_SHARED\<rparr>"

lemma demo_rwlock_bind:
  "\<exists>ob' H' w'. run (posixipc_rwlock_bind ob demo_regions 5 demo_slot 0) mapped_world = ((None, ob', H'), w')"
  using demo_open(1,2)
  by (simp add: posixipc_rwlock_bind_def bind_slot_def region_ptr_def posixipc_shm_offset_ptr_def demo_segment_def demo_slot_def
      posixipc_state_from_obj_def posixipc_state_from_type_def run_pin_region io_simps Let_def answer_to_mapped answer0_def)

theorem closed_handle_leaks_pin_witness:
  "\<exists>ob' H' w'. run (posixipc_rwlock_bind (fresh_rwlock\<lparr>x_flags := FLAG_CLOSED\<rparr>) demo_regions 5 demo_slot 0) mapped_world = ((None, ob', H'), w') \<and>
     snd (fst (run (rwlock_close ob' H') w')) = H' \<and> s_pins (H' 5) = 1"
proof -
  obtain ob' H' w' where b: "run (posixipc_rwlock_bind (fresh_rwlock\<lparr>x_flags := FLAG_CLOSED\<rparr>) demo_regions 5 demo_slot 0) mapped_world = ((None, ob', H'), w')"
    using demo_rwlock_bind by blast
  have "flags_closed (x_flags (fresh_rwlock\<lparr>x_flags := FLAG_CLOSED\<rparr>))" by (simp add: flags_closed_def flag_set_def)
  from closed_handle_leaks_pin [OF this b, of w'] b show ?thesis by (auto simp: demo_regions_def demo_segment_def)
qed

text \<open>
  A world in which the semaphore has no permit and the wait is interrupted by a signal: the call
  answers -1 with \<^verbatim>\<open>errno\<close> 4, which is EINTR.
\<close>

fun signal_answer :: "syscall \<Rightarrow> answer" where
  "signal_answer (Sem (Sem_trywait p)) = answer0\<lparr>a_ret := - 1, a_errno := EAGAIN\<rparr>"
| "signal_answer (Sem (Sem_clockwait p c ts)) = answer0\<lparr>a_ret := - 1, a_errno := 4\<rparr>"
| "signal_answer c = answer0"

definition signal_world :: world where
  "signal_world = \<lparr>env = \<lambda>h. signal_answer, trace = []\<rparr>"

lemma answer_to_signal: "env w = env signal_world \<Longrightarrow> answer_to w c = signal_answer c"
  by (simp add: answer_to_def signal_world_def)

text \<open>
  A signal breaks \<^verbatim>\<open>Semaphore.acquire\<close>: a semaphore wait that a signal interrupts answers EINTR, which
  the sliced wait takes for a failure, so acquire raises OSError(EINTR) at once. The Python signal handlers are not run
  before that (no call of \<^verbatim>\<open>PyErr_CheckSignals\<close>) and the wait is not taken up again.
\<close>

theorem sem_acquire_breaks_on_signal:
  "\<exists>g' w'. run (sem_acquire (\<lambda>x. x) (Suc k) clocksym0 demo_sem [] []) signal_world = ((Returned (Inl (OSError 4)), g'), w') \<and>
     Py CheckSignals \<notin> fst ` set (trace w')"
  by (simp add: sem_acquire_def sem_check_open_def posixipc_sem_trywait_def demo_sync_defs run_sync_defs user_deadline_def
      posixipc_sem_clock_def posixipc_have_sem_clockwait_def posixipc_clocksym_init_def dlsym_def posixipc_blocking_wait_def
      sem_until_cb_def posixipc_sem_wait_until_def posixipc_sem_clockwait_def clocksym0_def answer_to_signal answer0_def raise_err_def
      posixipc_err_def signal_world_def)

end
