(* ===== verification/BytesObj.thy ===== *)
theory BytesObj
  imports SyncObj
begin

text \<open>
  Byte windows of a segment (\<^verbatim>\<open>SharedBytes\<close>, the first part of \<^verbatim>\<open>src/src/bindings/py_layout.c\<close>) and the payload view
  of a segment object (\<^verbatim>\<open>shm_get_payload\<close> in \<^verbatim>\<open>py_shm.c\<close>). The struct has exactly the fields all
  handles share. The lemmas show that a handle that is bound once keeps its segment
  pinned while a buffer of it is exported, and that binding it a second time breaks this.
\<close>

section \<open>Operations\<close>

type_synonym PosixIPCBytesObject = handle

definition bytes_is_closed :: "PosixIPCBytesObject \<Rightarrow> bool" where
  "bytes_is_closed b \<longleftrightarrow> flag_set (x_flags b) FLAG_CLOSED"

definition bytes_check_open :: "PosixIPCBytesObject \<Rightarrow> pyexc option" where
  "bytes_check_open b =
     (if bytes_is_closed b then Some posixipc_raise_closed
      else if \<not> flag_set (x_flags b) FLAG_BOUND \<or> x_region b = None then Some posixipc_raise_unbound
      else None)"

definition posixipc_bytes_new_unbound :: "config \<Rightarrow> u32 \<Rightarrow> u32 \<Rightarrow> PosixIPCBytesObject pyres io" where
  "posixipc_bytes_new_unbound c sz slot = do {
     a \<leftarrow> call (Py Tp_alloc);
     ret (if a_ret a < 0 then Inl Pending
          else Inr \<lparr>x_region = None, x_slot = slot, x_kind = KIND_BYTES, x_align = ucast (posixipc_kind_align c KIND_BYTES),
                    x_offset = 0, x_size = sz, x_init_flags = 0, x_flags = 0\<rparr>) }"

definition posixipc_bytes_bind ::
    "PosixIPCBytesObject \<Rightarrow> regions \<Rightarrow> addr \<Rightarrow> posixipc_slot \<Rightarrow> u32 \<Rightarrow> (pyexc option \<times> PosixIPCBytesObject \<times> regions) io" where
  "posixipc_bytes_bind b H r slot index = do {
     (p, H) \<leftarrow> bind_slot H r slot;
     ret (case p of Inl e \<Rightarrow> (Some e, b, H) | Inr ptr \<Rightarrow> (None, bound_to b r slot index, H)) }"

definition bytes_close :: "PosixIPCBytesObject \<Rightarrow> regions \<Rightarrow> PosixIPCBytesObject \<times> regions" where
  "bytes_close b H = (if bytes_is_closed b then (b, H) else close_handle b H)"

definition bytes_dealloc :: "PosixIPCBytesObject \<Rightarrow> regions \<Rightarrow> PosixIPCBytesObject \<times> regions" where
  "bytes_dealloc b H =
     (let (b, H) = (if \<not> bytes_is_closed b then bytes_close b H else (b, H)) in (b\<lparr>x_region := None\<rparr>, H))"

text \<open>A window that is no slot of the layout; dropping the object on failure destroys it.\<close>

definition posixipc_bytes_view :: "config \<Rightarrow> regions \<Rightarrow> addr \<Rightarrow> u32 \<Rightarrow> u32 \<Rightarrow> (PosixIPCBytesObject pyres \<times> regions) io" where
  "posixipc_bytes_view c H r offset sz = do {
     st \<leftarrow> posixipc_state_from_obj;
     case st of Some e \<Rightarrow> ret (Inl e, H) | None \<Rightarrow> do {
       ob \<leftarrow> posixipc_bytes_new_unbound c sz 0;
       case ob of Inl e \<Rightarrow> ret (Inl e, H) | Inr b \<Rightarrow>
         let slot = \<lparr>s_kind = KIND_BYTES, s_align = 1, s_offset = offset, s_size = (if sz = 0 then 1 else sz), s_init_flags = 0\<rparr> in
         if sz = 0 then do {
           (e, H) \<leftarrow> pin_region H r;
           case e of Some x \<Rightarrow> ret (Inl x, snd (bytes_dealloc b H)) | None \<Rightarrow>
             ret (Inr (b\<lparr>x_region := Some r, x_offset := offset, x_size := 0, x_align := 1,
                         x_flags := FLAG_BOUND OR FLAG_PROCESS_SHARED\<rparr>), H) }
         else do {
           (e, b, H) \<leftarrow> posixipc_bytes_bind b H r slot 0;
           case e of Some x \<Rightarrow> ret (Inl x, snd (bytes_dealloc b H)) | None \<Rightarrow> ret (Inr b, H) } } }"

definition bytes_reduce :: "PosixIPCBytesObject \<Rightarrow> regions \<Rightarrow> (string \<times> u32 \<times> u16 \<times> u32) pyres io" where
  "bytes_reduce b H = do {
     st \<leftarrow> posixipc_state_from_obj;
     case st of Some e \<Rightarrow> ret (Inl e) | None \<Rightarrow>
       if bytes_is_closed b then ret (Inl posixipc_raise_closed)
       else if \<not> flag_set (x_flags b) FLAG_PROCESS_SHARED \<or> \<not> flag_set (x_flags b) FLAG_BOUND \<or> x_region b = None
       then ret (Inl TypeError)
       else let core = s_core (H (the (x_region b))) in
         case (sh_hdr core, sh_name core) of
           (Some p, Some (_, nm)) \<Rightarrow> do {
             a \<leftarrow> call (Py Type_GetModule);
             if a_ret a < 0 then ret (Inl Pending)
             else do {
               f \<leftarrow> call (Py (GetAttr ''_attach_slot''));
               if a_ret f < 0 then ret (Inl Pending)
               else do {
                 h \<leftarrow> call (Mem (Load_header p));
                 v \<leftarrow> call (Py (BuildValue ''(sIII)''));
                 if a_ret v < 0 then ret (Inl Pending)
                 else do {
                   t \<leftarrow> call (Py TuplePack);
                   ret (if a_ret t < 0 then Inl Pending
                        else Inr (nm, x_slot b, x_kind b, h_layout_digest (a_hdr h))) } } } }
         | _ \<Rightarrow> ret (Inl posixipc_raise_closed) }"

definition bytes_copy :: pyexc where
  "bytes_copy = TypeError"

text \<open>The exported bytes start at the mapping plus the offset.\<close>

definition bytes_getbuffer :: "PosixIPCBytesObject \<Rightarrow> regions \<Rightarrow> (pyexc option \<times> regions) io" where
  "bytes_getbuffer b H = do {
     _ \<leftarrow> posixipc_state_from_obj;
     case bytes_check_open b of Some e \<Rightarrow> ret (Some e, H) | None \<Rightarrow>
       let r = the (x_region b) in do {
         (e, H) \<leftarrow> pin_region H r;
         case e of Some x \<Rightarrow> ret (Some x, H) | None \<Rightarrow> do {
           a \<leftarrow> call (Py (FillInfo (the (sh_map (s_core (H r))) + unat (x_offset b)) (unat (x_size b))));
           if a_ret a < 0 then ret (Some Pending, unpin_region H r) else ret (None, H) } } }"

definition bytes_releasebuffer :: "PosixIPCBytesObject \<Rightarrow> regions \<Rightarrow> regions" where
  "bytes_releasebuffer b H = (case x_region b of None \<Rightarrow> H | Some r \<Rightarrow> unpin_region H r)"

definition bytes_get_region :: "PosixIPCBytesObject \<Rightarrow> pyobj" where
  "bytes_get_region b = (case x_region b of None \<Rightarrow> Py_None | Some r \<Rightarrow> Obj r)"

definition bytes_get_slot :: "PosixIPCBytesObject \<Rightarrow> nat pyres io" where
  "bytes_get_slot b = long_from (unat (x_slot b))"

definition bytes_get_kind :: "PosixIPCBytesObject \<Rightarrow> nat pyres io" where
  "bytes_get_kind b = long_from (unat (x_kind b))"

definition bytes_get_offset :: "PosixIPCBytesObject \<Rightarrow> nat pyres io" where
  "bytes_get_offset b = long_from (unat (x_offset b))"

definition bytes_get_size :: "PosixIPCBytesObject \<Rightarrow> nat pyres io" where
  "bytes_get_size b = long_from (unat (x_size b))"

definition bytes_get_closed :: "PosixIPCBytesObject \<Rightarrow> bool" where
  "bytes_get_closed b = bytes_is_closed b"

section \<open>Segment objects, continued\<close>

definition shm_reduce :: "PosixIPCSharedMemoryObject \<Rightarrow> string pyres io" where
  "shm_reduce r = do {
     st \<leftarrow> posixipc_state_from_obj;
     case st of Some e \<Rightarrow> ret (Inl e) | None \<Rightarrow>
       case (shm_is_closed r, sh_name (s_core r)) of
         (False, Some (_, nm)) \<Rightarrow> do {
           a \<leftarrow> call (Py Type_GetModule);
           if a_ret a < 0 then ret (Inl Pending)
           else do {
             f \<leftarrow> call (Py (GetAttr ''_attach_unchecked''));
             if a_ret f < 0 then ret (Inl Pending)
             else do {
               v \<leftarrow> call (Py (BuildValue ''(s)''));
               if a_ret v < 0 then ret (Inl Pending)
               else do {
                 t \<leftarrow> call (Py TuplePack);
                 ret (if a_ret t < 0 then Inl Pending else Inr nm) } } } }
       | _ \<Rightarrow> ret (Inl posixipc_raise_closed) }"

definition shm_copy :: pyexc where
  "shm_copy = TypeError"

definition shm_get_digest :: "PosixIPCSharedMemoryObject \<Rightarrow> nat pyres io" where
  "shm_get_digest r = do {
     _ \<leftarrow> posixipc_state_from_obj;
     case (shm_is_closed r, sh_hdr (s_core r)) of
       (False, Some p) \<Rightarrow> do { h \<leftarrow> call (Mem (Load_header p)); long_from (unat (h_layout_digest (a_hdr h))) }
     | _ \<Rightarrow> ret (Inl posixipc_raise_closed) }"

text \<open>
  \<^verbatim>\<open>PyMemoryView_FromObject\<close> asks the window for its buffer; the caller then drops its own
  reference, which destroys the window unless a memory view was made.
\<close>

definition window_view :: "PosixIPCBytesObject \<Rightarrow> regions \<Rightarrow> (PosixIPCBytesObject pyres \<times> regions) io" where
  "window_view b H = do {
     (e, H) \<leftarrow> bytes_getbuffer b H;
     case e of Some x \<Rightarrow> ret (Inl x, snd (bytes_dealloc b H)) | None \<Rightarrow> do {
       a \<leftarrow> call (Py MemoryViewFrom);
       if a_ret a < 0 then ret (Inl Pending, snd (bytes_dealloc b (bytes_releasebuffer b H)))
       else ret (Inr b, H) } }"

text \<open>
  A memory view of everything behind the directory. The result is the window the memory view keeps alive.
\<close>

definition shm_get_payload :: "config \<Rightarrow> regions \<Rightarrow> addr \<Rightarrow> (PosixIPCBytesObject pyres \<times> regions) io" where
  "shm_get_payload c H r = do {
     st \<leftarrow> posixipc_state_from_obj;
     case st of Some e \<Rightarrow> ret (Inl e, H) | None \<Rightarrow>
       case (shm_is_closed (H r), sh_hdr (s_core (H r))) of
         (False, Some p) \<Rightarrow> do {
           h \<leftarrow> call (Mem (Load_header p));
           let dir_end = HEADER_BYTES + h_directory_bytes (a_hdr h);
           if h_total_size (a_hdr h) < dir_end then ret (Inl LayoutMismatchError, H)
           else do {
             (v, H) \<leftarrow> posixipc_bytes_view c H r dir_end (h_total_size (a_hdr h) - dir_end);
             case v of Inl e \<Rightarrow> ret (Inl e, H) | Inr b \<Rightarrow> window_view b H } }
       | _ \<Rightarrow> ret (Inl posixipc_raise_closed, H) }"

text \<open>Releasing the memory view releases the buffer and destroys the window.\<close>

definition payload_release :: "PosixIPCBytesObject \<Rightarrow> regions \<Rightarrow> regions" where
  "payload_release b H = snd (bytes_dealloc b (bytes_releasebuffer b H))"

section \<open>Pins\<close>

lemma bytes_closed_flags: "bytes_is_closed b = flags_closed (x_flags b)"
  by (simp add: bytes_is_closed_def flags_closed_def)

interpretation bytes_handle: pinned_handle posixipc_bytes_bind "\<lambda>b H. ret (bytes_close b H)" x_region "\<lambda>b. flags_closed (x_flags b)"
proof unfold_locales
  fix b H r slot i w e b' H' w'
  show "run (posixipc_bytes_bind b H r slot i) w = ((Some e, b', H'), w') \<Longrightarrow> b' = b \<and> H' = H"
    by (auto simp: posixipc_bytes_bind_def run_bind run_ret dest!: run_bind_slot split: prod.splits sum.splits)
  show "run (posixipc_bytes_bind b H r slot i) w = ((None, b', H'), w') \<Longrightarrow>
      x_region b' = Some r \<and> flags_closed (x_flags b') = flags_closed (x_flags b) \<and> H' = H(r := (H r)\<lparr>s_pins := s_pins (H r) + 1\<rparr>)"
    by (auto simp: posixipc_bytes_bind_def run_bind run_ret dest!: run_bind_slot split: prod.splits sum.splits)
  show "\<not> flags_closed (x_flags b) \<Longrightarrow> run (ret (bytes_close b H)) w = ((b', H'), w') \<Longrightarrow>
      x_region b' = None \<and> flags_closed (x_flags b') \<and> H' = (case x_region b of None \<Rightarrow> H | Some r \<Rightarrow> unpin_region H r)"
    by (auto simp: bytes_close_def run_ret bytes_closed_flags dest: close_handle_post)
qed (simp add: bytes_close_def run_ret bytes_closed_flags)


text \<open>What an export does to the pins.\<close>

lemma run_getbuffer:
  assumes "run (bytes_getbuffer b H) w = ((e, H'), w')"
  shows "(e \<noteq> None \<longrightarrow> H' = H) \<and>
    (e = None \<longrightarrow> (\<exists>r. x_region b = Some r \<and> \<not> bytes_is_closed b \<and> \<not> shm_is_closed (H r) \<and> H' = H(r := (H r)\<lparr>s_pins := s_pins (H r) + 1\<rparr>)))"
proof (cases "bytes_check_open b")
  case (Some x)
  then show ?thesis using assms by (auto simp: bytes_getbuffer_def run_bind run_ret split: prod.splits)
next
  case None
  then obtain r where r: "x_region b = Some r" "\<not> bytes_is_closed b" by (auto simp: bytes_check_open_def split: if_splits)
  obtain st w1 where st: "run posixipc_state_from_obj w = (st, w1)" by fastforce
  obtain st2 w2 where st2: "run posixipc_state_from_obj w1 = (st2, w2)" by fastforce
  show ?thesis using assms None r st st2
    by (auto simp: bytes_getbuffer_def run_bind run_ret run_call run_pin_region unpin_region_def split: if_splits)
qed

text \<open>
  A client of one bound handle: it exports buffers, releases exported ones and closes the handle, in
  any order. The last component counts the buffers that are exported and not yet released.
\<close>

datatype bytes_op = Export | Release | Close_bytes

fun run_bytes :: "bytes_op list \<Rightarrow> PosixIPCBytesObject \<Rightarrow> regions \<Rightarrow> nat \<Rightarrow> (PosixIPCBytesObject \<times> regions \<times> nat) io" where
  "run_bytes [] b H n = ret (b, H, n)"
| "run_bytes (Export # ops) b H n = do {
     (e, H) \<leftarrow> bytes_getbuffer b H;
     run_bytes ops b H (if e = None then Suc n else n) }"
| "run_bytes (Release # ops) b H n =
     (if n = 0 then run_bytes ops b H n else run_bytes ops b (bytes_releasebuffer b H) (n - 1))"
| "run_bytes (Close_bytes # ops) b H n = (case bytes_close b H of (b, H) \<Rightarrow> run_bytes ops b H n)"

definition exports_ok :: "addr \<Rightarrow> nat \<Rightarrow> PosixIPCBytesObject \<Rightarrow> regions \<Rightarrow> nat \<Rightarrow> bool" where
  "exports_ok r k b H n \<longleftrightarrow>
     (if x_region b = None then bytes_is_closed b \<and> k + n \<le> unat (s_pins (H r))
      else x_region b = Some r \<and> \<not> bytes_is_closed b \<and> unat (s_pins (H r)) = Suc (k + n))"

lemma unat_pins_inc: "unat (p :: u32) + 1 < 2 ^ 32 \<Longrightarrow> unat (p + 1) = Suc (unat p)"
  by (simp add: unat_word_ariths)

lemma unat_pins_dec: "0 < unat (p :: u32) \<Longrightarrow> unat (p - 1) = unat p - 1"
  by (metis One_nat_def Suc_leI unat_1 unat_sub word_le_nat_alt)

lemma exports_kept:
  assumes "run (run_bytes ops b H n) w = ((b', H', n'), w')" and "exports_ok r k b H n" and "unat (s_pins (H r)) + length ops < 2 ^ 32"
  shows "exports_ok r k b' H' n'"
  using assms
proof (induction ops b H n arbitrary: w rule: run_bytes.induct)
  case (2 ops b H n)
  obtain e H1 w1 where g: "run (bytes_getbuffer b H) w = ((e, H1), w1)" by (metis prod_cases3 surj_pair)
  with 2 have r: "run (run_bytes ops b H1 (if e = None then Suc n else n)) w1 = ((b', H', n'), w')" by (simp add: run_bind)
  have "exports_ok r k b H1 (if e = None then Suc n else n) \<and> unat (s_pins (H1 r)) + length ops < 2 ^ 32"
    using run_getbuffer [OF g] 2(3,4) unat_pins_inc [of "s_pins (H r)"] by (auto simp: exports_ok_def split: if_splits)
  with 2(1) [OF r] show ?case by blast
next
  case (3 ops b H n)
  show ?case
  proof (cases "n = 0")
    case False
    have "exports_ok r k b (bytes_releasebuffer b H) (n - 1) \<and> unat (s_pins (bytes_releasebuffer b H r)) + length ops < 2 ^ 32"
      using 3(4,5) False unat_pins_dec [of "s_pins (H r)"]
      by (auto simp: exports_ok_def bytes_releasebuffer_def unpin_region_def posixipc_shmobj_unpin_def split: if_splits option.splits)
    with 3(2) [OF False] 3(3) False show ?thesis by simp
  qed (use 3 in simp)
next
  case (4 ops b H n)
  obtain b1 H1 where c: "bytes_close b H = (b1, H1)" by fastforce
  have "exports_ok r k b1 H1 n \<and> unat (s_pins (H1 r)) + length ops < 2 ^ 32"
  proof (cases "bytes_is_closed b")
    case True
    with c 4(3,4) show ?thesis by (simp add: bytes_close_def)
  next
    case False
    then have "exports_ok r k b1 H1 n \<and> s_pins (H1 r) = s_pins (H r) - 1"
      using c 4(3) unat_pins_dec [of "s_pins (H r)"] close_handle_post [of b H b1 H1]
      by (auto simp: exports_ok_def bytes_close_def bytes_closed_flags unpin_region_def posixipc_shmobj_unpin_def split: if_splits)
    moreover have "0 < unat (s_pins (H r))" using 4(3) False by (auto simp: exports_ok_def split: if_splits)
    ultimately show ?thesis using 4(4) unat_pins_dec [of "s_pins (H r)"] by simp
  qed
  with 4(1) [OF c [symmetric]] 4(2) c show ?case by simp
qed (simp add: run_ret)

text \<open>
  C24. A segment stays pinned while a buffer of a byte handle is exported: for a handle that is bound
  once, whatever sequence of exports, releases and closings a client makes, the pins are at least the
  buffers not yet released, plus one while the handle is open, so \<^verbatim>\<open>SharedMemory.close\<close> is refused; while it is
  open they are exactly that many more than others hold.
\<close>

theorem bytes_exports_pinned:
  assumes "x_region b = Some r" and "\<not> bytes_is_closed b" and "unat (s_pins (H r)) = Suc k"
    and "Suc k + length ops < 2 ^ 32" and "run (run_bytes ops b H 0) w = ((b', H', n'), w')"
  shows "k + n' \<le> unat (s_pins (H' r)) \<and> (x_region b' \<noteq> None \<longrightarrow> unat (s_pins (H' r)) = Suc (k + n'))"
proof -
  have "exports_ok r k b H 0" using assms(1-3) by (simp add: exports_ok_def)
  from exports_kept [OF assms(5) this] assms(3,4) show ?thesis by (auto simp: exports_ok_def split: if_splits)
qed

section \<open>The payload\<close>

lemma unpin_pinned [simp]:
  "unpin_region (H(r := (H r)\<lparr>s_pins := s_pins (H r) + 1\<rparr>)) r = H"
  by (simp add: unpin_region_def posixipc_shmobj_unpin_def)

lemma bytes_dealloc_unpins:
  "\<not> bytes_is_closed b \<Longrightarrow> snd (bytes_dealloc b H) = (case x_region b of None \<Rightarrow> H | Some r \<Rightarrow> unpin_region H r)"
  by (auto simp: bytes_dealloc_def bytes_close_def close_handle_def Let_def split: option.splits prod.splits)

lemma run_bytes_new:
  "run (posixipc_bytes_new_unbound c sz slot) w = (Inr b, w') \<Longrightarrow> x_region b = None \<and> \<not> bytes_is_closed b \<and> x_size b = sz \<and> x_flags b = 0"
  by (auto simp: posixipc_bytes_new_unbound_def run_bind run_call run_ret bytes_is_closed_def flag_set_def split: if_splits)

lemma run_bytes_bind:
  assumes "run (posixipc_bytes_bind b H r slot i) w = ((e, b', H'), w')"
  shows "(case e of Some x \<Rightarrow> b' = b \<and> H' = H
    | None \<Rightarrow> b' = bound_to b r slot i \<and> H' = H(r := (H r)\<lparr>s_pins := s_pins (H r) + 1\<rparr>))"
  using assms by (auto simp: posixipc_bytes_bind_def run_bind run_ret dest!: run_bind_slot split: prod.splits sum.splits)

lemma run_bytes_view:
  assumes "run (posixipc_bytes_view c H r off sz) w = ((v, H'), w')"
  shows "case v of Inl e \<Rightarrow> H' = H
    | Inr b \<Rightarrow> x_region b = Some r \<and> \<not> bytes_is_closed b \<and> x_offset b = off \<and> x_size b = sz \<and>
        H' = H(r := (H r)\<lparr>s_pins := s_pins (H r) + 1\<rparr>)"
proof -
  obtain st w1 where st: "run posixipc_state_from_obj w = (st, w1)" by fastforce
  obtain nb w2 where nb: "run (posixipc_bytes_new_unbound c sz 0) w1 = (nb, w2)" by fastforce
  obtain st2 w3 where st2: "run posixipc_state_from_obj w2 = (st2, w3)" by fastforce
  define slot where "slot = \<lparr>s_kind = KIND_BYTES, s_align = 1, s_offset = off, s_size = (if sz = 0 then 1 else sz), s_init_flags = 0\<rparr>"
  show ?thesis
  proof (cases "st = None \<and> (\<exists>b. nb = Inr b)")
    case True
    then obtain b where b: "nb = Inr b" "st = None" by blast
    obtain e b1 H1 w4 where bd: "run (posixipc_bytes_bind b H r slot 0) w2 = ((e, b1, H1), w4)" by (metis prod_cases4 surj_pair)
    note new = run_bytes_new [OF nb [unfolded b]] and bnd = run_bytes_bind [OF bd]
    show ?thesis
    proof (cases "sz = 0")
      case True
      with assms st nb b st2 new show ?thesis
        by (auto simp: posixipc_bytes_view_def run_bind run_ret run_pin_region bytes_dealloc_unpins bytes_is_closed_def flag_set_def
            split: if_splits)
    next
      case False
      with assms st nb b bd have r: "run (case e of Some x \<Rightarrow> ret (Inl x, snd (bytes_dealloc b1 H1)) | None \<Rightarrow> ret (Inr b1, H1)) w4 = ((v, H'), w')"
        by (simp add: posixipc_bytes_view_def run_bind slot_def Let_def)
      from r bnd new False show ?thesis
        by (cases e) (auto simp: run_ret bytes_dealloc_unpins bytes_is_closed_def flag_set_def bound_to_def slot_def)
    qed
  qed (use assms st nb in \<open>cases st; cases nb; auto simp: posixipc_bytes_view_def run_bind run_ret\<close>)
qed

lemma run_window_view:
  assumes "run (window_view b H1) w = ((v, H'), w')" and "x_region b = Some r" "\<not> bytes_is_closed b"
    and H1: "H1 = H(r := (H r)\<lparr>s_pins := s_pins (H r) + 1\<rparr>)"
  shows "case v of Inl e \<Rightarrow> H' = H | Inr b' \<Rightarrow> b' = b \<and> s_pins (H' r) = s_pins (H r) + 2 \<and> payload_release b H' = H"
proof -
  obtain e H2 w3 where g: "run (bytes_getbuffer b H1) w = ((e, H2), w3)" by (metis prod_cases3 surj_pair)
  have undo: "snd (bytes_dealloc b H1) = H" using assms(2,3) by (simp add: bytes_dealloc_unpins H1)
  have rel: "e = None \<Longrightarrow> bytes_releasebuffer b H2 = H1"
    using run_getbuffer [OF g] assms(2) by (auto simp: bytes_releasebuffer_def)
  have pins: "e = None \<Longrightarrow> s_pins (H2 r) = s_pins (H r) + 2" "e \<noteq> None \<Longrightarrow> H2 = H1"
    using run_getbuffer [OF g] assms(2) by (auto simp: H1)
  show ?thesis using assms(1) g undo rel pins
    by (cases e) (auto simp: window_view_def run_bind run_call run_ret payload_release_def split: if_splits)
qed

text \<open>
  Taking the payload view of a segment and releasing it is neutral: on failure, at whatever call, the segments
  are as before; on success the segment has two more pins (the window's and its buffer's), the window belongs to it, and
  releasing the memory view gives both pins back.
\<close>

theorem payload_roundtrip:
  assumes "run (shm_get_payload c H r) w = ((v, H'), w')"
  shows "case v of Inl e \<Rightarrow> H' = H
    | Inr b \<Rightarrow> x_region b = Some r \<and> s_pins (H' r) = s_pins (H r) + 2 \<and> payload_release b H' = H"
proof -
  obtain st w1 where st: "run posixipc_state_from_obj w = (st, w1)" by fastforce
  show ?thesis
  proof (cases "st = None \<and> \<not> shm_is_closed (H r) \<and> sh_hdr (s_core (H r)) \<noteq> None")
    case True
    then obtain p where p: "sh_hdr (s_core (H r)) = Some p" by blast
    obtain h w2 where h: "run (call (Mem (Load_header p))) w1 = (h, w2)" by fastforce
    define off where "off = HEADER_BYTES + h_directory_bytes (a_hdr h)"
    obtain v1 H1 w3 where v: "run (posixipc_bytes_view c H r off (h_total_size (a_hdr h) - off)) w2 = ((v1, H1), w3)"
      by (metis prod_cases3 surj_pair)
    have run: "run (shm_get_payload c H r) w =
        (if h_total_size (a_hdr h) < off then ((Inl LayoutMismatchError, H), w2)
         else run (case v1 of Inl e \<Rightarrow> ret (Inl e, H1) | Inr b \<Rightarrow> window_view b H1) w3)"
      using True st p h v by (simp add: shm_get_payload_def run_bind run_ret Let_def off_def)
    show ?thesis
    proof (cases "\<exists>b. v1 = Inr b \<and> \<not> h_total_size (a_hdr h) < off")
      case True
      then obtain b where b: "v1 = Inr b" "\<not> h_total_size (a_hdr h) < off" by blast
      with run_bytes_view [OF v] have rb: "x_region b = Some r" "\<not> bytes_is_closed b" "H1 = H(r := (H r)\<lparr>s_pins := s_pins (H r) + 1\<rparr>)"
        by auto
      from assms run b have "run (window_view b H1) w3 = ((v, H'), w')" by simp
      from run_window_view [OF this rb] rb(1) show ?thesis by (auto split: sum.splits)
    qed (use assms run run_bytes_view [OF v] in \<open>cases v1; auto simp: run_ret split: if_splits\<close>)
  qed (use assms st in \<open>auto simp: shm_get_payload_def run_bind run_ret split: option.splits bool.splits\<close>)
qed

text \<open>
  Binding a byte handle a second time while a buffer is exported breaks this: nothing gives the first segment's
  pins back, and releasing the buffer takes the pin of the second segment. The handle is then open and bound to a
  segment that does not count it, so that segment can be unmapped under it, while the first can never be closed.
\<close>

theorem bytes_rebind_unsafe:
  assumes "r1 \<noteq> r2"
    and b1: "run (posixipc_bytes_bind b H r1 slot1 i1) w = ((None, b1, H1), w1)"
    and g: "run (bytes_getbuffer b1 H1) w1 = ((None, H2), w2)"
    and b2: "run (posixipc_bytes_bind b1 H2 r2 slot2 i2) w2 = ((None, b2, H3), w3)"
  shows "x_region b2 = Some r2 \<and> s_pins (bytes_releasebuffer b2 H3 r2) = s_pins (H r2) \<and>
    s_pins (bytes_releasebuffer b2 H3 r1) = s_pins (H r1) + 2 \<and>
    snd (bytes_close b2 H3) r1 = H2 r1"
proof -
  have "x_region b1 = Some r1" and H1: "H1 = H(r1 := (H r1)\<lparr>s_pins := s_pins (H r1) + 1\<rparr>)"
    using run_bytes_bind [OF b1] by simp_all
  then have H2: "H2 = H1(r1 := (H1 r1)\<lparr>s_pins := s_pins (H1 r1) + 1\<rparr>)" and "\<not> bytes_is_closed b1"
    using run_getbuffer [OF g] by auto
  moreover have "b2 = bound_to b1 r2 slot2 i2" and H3: "H3 = H2(r2 := (H2 r2)\<lparr>s_pins := s_pins (H2 r2) + 1\<rparr>)"
    using run_bytes_bind [OF b2] by simp_all
  ultimately have "x_region b2 = Some r2" and "\<not> bytes_is_closed b2" by (simp_all add: bytes_closed_flags)
  with \<open>r1 \<noteq> r2\<close> show ?thesis
    by (auto simp: bytes_releasebuffer_def bytes_close_def close_handle_def unpin_region_def posixipc_shmobj_unpin_def H1 H2 H3)
qed

section \<open>Examples\<close>

definition demo_bytes :: PosixIPCBytesObject where
  "demo_bytes = \<lparr>x_region = None, x_slot = 0, x_kind = KIND_BYTES, x_align = 8, x_offset = 0, x_size = 16, x_init_flags = 0, x_flags = 0\<rparr>"

lemma demo_bytes_bind:
  assumes "env w = env mapped_world" and "\<not> shm_is_closed (H r)" and "s_core (H r) = s_core demo_segment"
  shows "\<exists>w'. run (posixipc_bytes_bind b H r demo_slot i) w =
     ((None, bound_to b r demo_slot i, H(r := (H r)\<lparr>s_pins := s_pins (H r) + 1\<rparr>)), w') \<and> env w' = env mapped_world"
  using assms
  by (simp add: posixipc_bytes_bind_def bind_slot_def region_ptr_def posixipc_shm_offset_ptr_def demo_segment_def demo_slot_def
      posixipc_state_from_obj_def posixipc_state_from_type_def run_pin_region io_simps Let_def answer_to_mapped answer0_def)

lemma demo_getbuffer:
  assumes "env w = env mapped_world" and "\<not> shm_is_closed (H r)" and "x_region b = Some r" "\<not> bytes_is_closed b" "flag_set (x_flags b) FLAG_BOUND"
  shows "\<exists>w'. run (bytes_getbuffer b H) w = ((None, H(r := (H r)\<lparr>s_pins := s_pins (H r) + 1\<rparr>)), w') \<and> env w' = env mapped_world"
  using assms
  by (simp add: bytes_getbuffer_def bytes_check_open_def
      posixipc_state_from_obj_def posixipc_state_from_type_def run_pin_region io_simps Let_def answer_to_mapped answer0_def)

definition demo_window :: PosixIPCBytesObject where
  "demo_window = bound_to demo_bytes 5 demo_slot 0"

lemma demo_window_open: "x_region demo_window = Some 5" "\<not> bytes_is_closed demo_window" "flag_set (x_flags demo_window) FLAG_BOUND"
  "\<not> bytes_is_closed demo_bytes"
  by (simp_all add: demo_window_def demo_bytes_def bytes_is_closed_def flag_set_def)

theorem bytes_exports_pinned_witness:
  "\<exists>b' H' n' w'. run (run_bytes [Export, Close_bytes] demo_window (demo_regions(5 := demo_segment\<lparr>s_pins := 1\<rparr>)) 0) mapped_world = ((b', H', n'), w') \<and>
     n' \<le> unat (s_pins (H' 5))"
proof -
  obtain b' H' n' w' where r: "run (run_bytes [Export, Close_bytes] demo_window (demo_regions(5 := demo_segment\<lparr>s_pins := 1\<rparr>)) 0) mapped_world = ((b', H', n'), w')"
    by (metis prod_cases4 surj_pair)
  from bytes_exports_pinned [OF demo_window_open(1,2) _ _ r, of 0] r show ?thesis by auto
qed

theorem payload_roundtrip_witness:
  "\<exists>b H' w'. run (shm_get_payload glibc_x86_64 demo_regions 5) mapped_world = ((Inr b, H'), w') \<and>
     s_pins (H' 5) = 2 \<and> payload_release b H' = demo_regions"
proof -
  obtain v H' w' where r: "run (shm_get_payload glibc_x86_64 demo_regions 5) mapped_world = ((v, H'), w')"
    by (metis prod_cases3 surj_pair)
  have "\<exists>b. v = Inr b" using r
    by (auto simp: shm_get_payload_def posixipc_bytes_view_def posixipc_bytes_new_unbound_def window_view_def posixipc_bytes_bind_def bind_slot_def
      bytes_getbuffer_def bytes_check_open_def bytes_is_closed_def bound_to_def
      region_ptr_def posixipc_shm_offset_ptr_def demo_segment_def demo_regions_def shm_is_closed_def flag_set_def
      posixipc_state_from_obj_def posixipc_state_from_type_def run_pin_region io_simps Let_def answer_to_mapped answer0_def)
  then obtain b where b: "v = Inr b" by blast
  from payload_roundtrip [OF r] r b show ?thesis by (simp add: demo_regions_def demo_segment_def)
qed

theorem bytes_rebind_unsafe_witness:
  "\<exists>b1 H1 w1 H2 w2 b2 H3 w3. run (posixipc_bytes_bind demo_bytes demo_regions 5 demo_slot 0) mapped_world = ((None, b1, H1), w1) \<and>
     run (bytes_getbuffer b1 H1) w1 = ((None, H2), w2) \<and>
     run (posixipc_bytes_bind b1 H2 6 demo_slot 0) w2 = ((None, b2, H3), w3) \<and>
     x_region b2 = Some 6 \<and> s_pins (bytes_releasebuffer b2 H3 6) = 0"
proof -
  have opened: "\<not> shm_is_closed (demo_regions r)" "s_core (demo_regions r) = s_core demo_segment" for r
    by (simp_all add: demo_regions_def demo_segment_def shm_is_closed_def flag_set_def)
  obtain w1 where b1: "run (posixipc_bytes_bind demo_bytes demo_regions 5 demo_slot 0) mapped_world =
      ((None, demo_window, demo_regions(5 := (demo_regions 5)\<lparr>s_pins := s_pins (demo_regions 5) + 1\<rparr>)), w1)"
    and w1: "env w1 = env mapped_world"
    using demo_bytes_bind [of mapped_world demo_regions 5 demo_bytes 0] opened by (auto simp: demo_window_def)
  define H1 where "H1 = demo_regions(5 := (demo_regions 5)\<lparr>s_pins := s_pins (demo_regions 5) + 1\<rparr>)"
  have open1: "\<not> shm_is_closed (H1 5)" using opened(1) by (simp add: H1_def shm_is_closed_def)
  obtain w2 where g: "run (bytes_getbuffer demo_window H1) w1 = ((None, H1(5 := (H1 5)\<lparr>s_pins := s_pins (H1 5) + 1\<rparr>)), w2)"
    and w2: "env w2 = env mapped_world"
    using demo_getbuffer [of w1 H1 5 demo_window] w1 open1 demo_window_open by blast
  define H2 where "H2 = H1(5 := (H1 5)\<lparr>s_pins := s_pins (H1 5) + 1\<rparr>)"
  have open2: "\<not> shm_is_closed (H2 6)" "s_core (H2 6) = s_core demo_segment" using opened [of 6] by (simp_all add: H2_def H1_def)
  obtain b2 H3 w3 where b2: "run (posixipc_bytes_bind demo_window H2 6 demo_slot 0) w2 = ((None, b2, H3), w3)"
    using demo_bytes_bind [of w2 H2 6 demo_window 0] w2 open2 by blast
  from bytes_rebind_unsafe [OF _ b1 [folded H1_def] g [folded H2_def] b2] b1 g b2 show ?thesis
    by (auto simp: H1_def H2_def demo_regions_def demo_segment_def)
qed

end
