(* ===== verification/M3Obj.thy ===== *)
theory M3Obj
  imports BytesObj Named
begin

text \<open>
  Python objects for barriers, spin locks and named semaphores
  (\<^verbatim>\<open>src/src/bindings/py_m3.c\<close> with the files \<^verbatim>\<open>posixipc_m3_*.inc\<close> it includes). Barriers and spin
  locks are handles like those of \<^verbatim>\<open>SyncObj\<close>; \<^verbatim>\<open>py_m3.c\<close> has its own copies of the helper functions, with
  the same text, so the definitions there serve both. The lemmas show that a spin lock is held exactly after a
  successful acquire and that acquire ends once the lock is free, that a named semaphore is opened and
  closed in balance, and that handles of all bindable types count their pins under every interleaving.
\<close>

section \<open>Barriers\<close>

record PosixIPCBarrierObject = handle +
  ba_bar :: "addr option"
  ba_parties :: nat
  ba_inline_storage :: addr

definition bar_check_open :: "PosixIPCBarrierObject \<Rightarrow> pyexc option" where
  "bar_check_open ob =
     (if flags_closed (x_flags ob) then Some posixipc_raise_closed
      else if \<not> flag_set (x_flags ob) FLAG_BOUND \<or> ba_bar ob = None then Some posixipc_raise_unbound
      else None)"

definition bar_wait :: "config \<Rightarrow> PosixIPCBarrierObject \<Rightarrow> bool pyres io" where
  "bar_wait c ob = do {
     st \<leftarrow> posixipc_state_from_obj;
     case st of Some e \<Rightarrow> ret (Inl e) | None \<Rightarrow>
       case bar_check_open ob of Some e \<Rightarrow> ret (Inl e) | None \<Rightarrow> do {
         rc \<leftarrow> allow_threads (posixipc_barrier_wait c (ba_bar ob));
         ret (if rc = POSIXIPC_BARRIER_SERIAL then Inr True else if rc = 0 then Inr False else Inl (raise_err rc)) } }"

definition bar_close :: "config \<Rightarrow> PosixIPCBarrierObject \<Rightarrow> regions \<Rightarrow> (PosixIPCBarrierObject \<times> regions) io" where
  "bar_close c ob H =
     (if flags_closed (x_flags ob) then ret (ob, H)
      else do {
        _ \<leftarrow> (if flag_set (x_flags ob) FLAG_OWNS_STORAGE \<and> ba_bar ob \<noteq> None then posixipc_barrier_destroy c (ba_bar ob) else ret 0);
        let (ob, H) = close_handle ob H;
        ret (ob\<lparr>ba_bar := None\<rparr>, H) })"

definition bar_reduce :: "PosixIPCBarrierObject \<Rightarrow> regions \<Rightarrow> (string \<times> u32 \<times> u16 \<times> u32) pyres io" where
  "bar_reduce ob H = handle_reduce ob H"

text \<open>\<open>parties\<close> is the parsed argument, a \<^verbatim>\<open>Py_ssize_t\<close>.\<close>

definition bar_init :: "config \<Rightarrow> PosixIPCBarrierObject \<Rightarrow> int \<Rightarrow> bool \<Rightarrow> (pyexc option \<times> PosixIPCBarrierObject) io" where
  "bar_init c ob parties process_shared = do {
     e \<leftarrow> init_checks (x_flags ob) ''n|$p:Barrier'' process_shared;
     case e of Some x \<Rightarrow> ret (Some x, ob) | None \<Rightarrow>
       if parties < 1 \<or> parties > 0xffff then ret (Some ValueError, ob)
       else do {
         rc \<leftarrow> posixipc_barrier_init c (Some (ba_inline_storage ob)) (Some (0, nat parties));
         if rc \<noteq> 0 then ret (Some (raise_err rc), ob)
         else ret (None, ob\<lparr>ba_bar := Some (ba_inline_storage ob), x_kind := KIND_BARRIER,
                x_align := ucast (posixipc_kind_align c KIND_BARRIER), x_size := posixipc_kind_size c KIND_BARRIER 0,
                ba_parties := nat parties, x_init_flags := FLAG_OWNS_STORAGE, x_flags := FLAG_OWNS_STORAGE OR FLAG_BOUND\<rparr>) } }"

definition bar_finalize :: "PosixIPCBarrierObject \<Rightarrow> unit io" where
  "bar_finalize ob = handle_finalize ob"

definition bar_dealloc :: "config \<Rightarrow> PosixIPCBarrierObject \<Rightarrow> regions \<Rightarrow> (PosixIPCBarrierObject \<times> regions) io" where
  "bar_dealloc c ob H = do {
     bar_finalize ob;
     (ob, H) \<leftarrow> (if \<not> flags_closed (x_flags ob) then bar_close c ob H else ret (ob, H));
     ret (ob\<lparr>x_region := None\<rparr>, H) }"

definition bar_get_process_shared :: "PosixIPCBarrierObject \<Rightarrow> bool" where
  "bar_get_process_shared ob = handle_flag_bool (x_flags ob) FLAG_PROCESS_SHARED"

definition bar_get_bound :: "PosixIPCBarrierObject \<Rightarrow> bool" where
  "bar_get_bound ob = handle_flag_bool (x_flags ob) FLAG_BOUND"

definition bar_get_closed :: "PosixIPCBarrierObject \<Rightarrow> bool" where
  "bar_get_closed ob = handle_flag_bool (x_flags ob) FLAG_CLOSED"

definition bar_get_region :: "PosixIPCBarrierObject \<Rightarrow> pyobj" where
  "bar_get_region ob = handle_region (x_region ob)"

definition bar_get_slot :: "PosixIPCBarrierObject \<Rightarrow> nat pyres io" where
  "bar_get_slot ob = long_from (unat (x_slot ob))"

definition bar_get_kind :: "PosixIPCBarrierObject \<Rightarrow> nat pyres io" where
  "bar_get_kind ob = long_from (unat (x_kind ob))"

definition bar_get_digest :: "PosixIPCBarrierObject \<Rightarrow> regions \<Rightarrow> nat option pyres io" where
  "bar_get_digest ob H = handle_digest (x_region ob) H"

definition bar_get_offset :: "PosixIPCBarrierObject \<Rightarrow> nat pyres io" where
  "bar_get_offset ob = long_from (unat (x_offset ob))"

definition bar_get_size :: "PosixIPCBarrierObject \<Rightarrow> nat pyres io" where
  "bar_get_size ob = long_from (unat (x_size ob))"

text \<open>Without barriers in the pthread library the two functions are stubs that raise.\<close>

definition posixipc_barrier_new_unbound :: "config \<Rightarrow> u32 \<Rightarrow> nat \<Rightarrow> u32 \<Rightarrow> addr \<Rightarrow> PosixIPCBarrierObject pyres io" where
  "posixipc_barrier_new_unbound c init_flags parties slot storage =
     (if \<not> HAVE_PTHREAD_BARRIER_WAIT c then ret (Inl NotImplementedError)
      else do {
        a \<leftarrow> call (Py Tp_alloc);
        ret (if a_ret a < 0 then Inl Pending
             else Inr (handle.extend (unbound_handle c KIND_BARRIER init_flags slot)
                         (PosixIPCBarrierObject.fields None parties storage))) })"

definition posixipc_barrier_bind ::
    "config \<Rightarrow> PosixIPCBarrierObject \<Rightarrow> regions \<Rightarrow> addr \<Rightarrow> posixipc_slot \<Rightarrow> u32 \<Rightarrow> (pyexc option \<times> PosixIPCBarrierObject \<times> regions) io" where
  "posixipc_barrier_bind c ob H r slot index =
     (if \<not> HAVE_PTHREAD_BARRIER_WAIT c then ret (Some NotImplementedError, ob, H)
      else do {
        (p, H) \<leftarrow> bind_slot H r slot;
        ret (case p of Inl e \<Rightarrow> (Some e, ob, H)
             | Inr ptr \<Rightarrow> (None, (bound_to ob r slot index)\<lparr>ba_bar := ptr, ba_parties := unat (drop_bit 16 (s_init_flags slot))\<rparr>, H)) })"

section \<open>Spin locks\<close>

record PosixIPCSpinLockObject = handle +
  sp_lock :: "addr option"
  sp_inline_storage :: addr

definition spin_check_open :: "PosixIPCSpinLockObject \<Rightarrow> pyexc option" where
  "spin_check_open ob =
     (if flags_closed (x_flags ob) then Some posixipc_raise_closed
      else if \<not> flag_set (x_flags ob) FLAG_BOUND \<or> sp_lock ob = None then Some posixipc_raise_unbound
      else None)"

text \<open>One turn of the loop between the two thread macros, and the loop.\<close>

definition spin_turn :: "config \<Rightarrow> addr option \<Rightarrow> rc io" where
  "spin_turn c lock = do {
     rc \<leftarrow> posixipc_spin_trylock c lock;
     (if rc = EBUSY then call_ignore (SpinBarrier Sched_yield) else ret ());
     ret rc }"

primrec spin_loop :: "nat \<Rightarrow> config \<Rightarrow> addr option \<Rightarrow> bool \<Rightarrow> bool pyres outcome io" where
  "spin_loop 0 c lock intr = ret Unfinished"
| "spin_loop (Suc n) c lock intr = do {
     rc \<leftarrow> allow_threads (spin_turn c lock);
     if rc = 0 then ret (Returned (Inr True))
     else if rc \<noteq> EBUSY then ret (Returned (Inl (raise_err rc)))
     else if intr then do {
       s \<leftarrow> call (Py CheckSignals);
       if a_ret s < 0 then ret (Returned (Inl Pending)) else spin_loop n c lock intr }
     else spin_loop n c lock intr }"

definition spin_acquire ::
    "nat \<Rightarrow> config \<Rightarrow> PosixIPCSpinLockObject \<Rightarrow> pyobj list \<Rightarrow> (string \<times> pyobj) list \<Rightarrow> bool pyres outcome io" where
  "spin_acquire fuel c ob args kws = do {
     st \<leftarrow> posixipc_state_from_obj;
     case st of Some e \<Rightarrow> ret (Returned (Inl e)) | None \<Rightarrow>
       case spin_check_open ob of Some e \<Rightarrow> ret (Returned (Inl e)) | None \<Rightarrow> do {
         p \<leftarrow> posixipc_parse_acquire args kws;
         case p of Inl e \<Rightarrow> ret (Returned (Inl e)) | Inr opts \<Rightarrow> do {
           rc \<leftarrow> posixipc_spin_trylock c (sp_lock ob);
           if rc = 0 then ret (Returned (Inr True))
           else if rc \<noteq> EBUSY then ret (Returned (Inl (raise_err rc)))
           else if \<not> blocking opts then ret (Returned (Inr False))
           else if \<not> timeout_none opts then ret (Returned (Inl ValueError))
           else spin_loop fuel c (sp_lock ob) (interruptible opts) } } }"

definition spin_release :: "config \<Rightarrow> PosixIPCSpinLockObject \<Rightarrow> unit pyres io" where
  "spin_release c ob = do {
     st \<leftarrow> posixipc_state_from_obj;
     case st of Some e \<Rightarrow> ret (Inl e) | None \<Rightarrow>
       case spin_check_open ob of Some e \<Rightarrow> ret (Inl e) | None \<Rightarrow> do {
         rc \<leftarrow> posixipc_spin_unlock c (sp_lock ob);
         ret (if rc = EPERM then Inl RuntimeError else if rc \<noteq> 0 then Inl (raise_err rc) else Inr ()) } }"

definition spin_enter :: "nat \<Rightarrow> config \<Rightarrow> PosixIPCSpinLockObject \<Rightarrow> unit pyres outcome io" where
  "spin_enter fuel c ob = do {
     ok \<leftarrow> spin_acquire fuel c ob [] [];
     ret (case ok of Returned (Inr True) \<Rightarrow> Returned (Inr ())
                   | Returned (Inr False) \<Rightarrow> Returned (Inl RuntimeError)
                   | Returned (Inl e) \<Rightarrow> Returned (Inl e)
                   | Undefined \<Rightarrow> Undefined | Unfinished \<Rightarrow> Unfinished) }"

definition spin_close :: "config \<Rightarrow> PosixIPCSpinLockObject \<Rightarrow> regions \<Rightarrow> (PosixIPCSpinLockObject \<times> regions) io" where
  "spin_close c ob H =
     (if flags_closed (x_flags ob) then ret (ob, H)
      else do {
        _ \<leftarrow> (if flag_set (x_flags ob) FLAG_OWNS_STORAGE \<and> sp_lock ob \<noteq> None then posixipc_spin_destroy c (sp_lock ob) else ret 0);
        let (ob, H) = close_handle ob H;
        ret (ob\<lparr>sp_lock := None\<rparr>, H) })"

definition spin_reduce :: "PosixIPCSpinLockObject \<Rightarrow> regions \<Rightarrow> (string \<times> u32 \<times> u16 \<times> u32) pyres io" where
  "spin_reduce ob H = handle_reduce ob H"

definition spin_init :: "config \<Rightarrow> PosixIPCSpinLockObject \<Rightarrow> bool \<Rightarrow> (pyexc option \<times> PosixIPCSpinLockObject) io" where
  "spin_init c ob process_shared = do {
     e \<leftarrow> init_checks (x_flags ob) ''|$p:SpinLock'' process_shared;
     case e of Some x \<Rightarrow> ret (Some x, ob) | None \<Rightarrow> do {
       rc \<leftarrow> posixipc_spin_init c (Some (sp_inline_storage ob)) (Some 0);
       if rc \<noteq> 0 then ret (Some (raise_err rc), ob)
       else ret (None, ob\<lparr>sp_lock := Some (sp_inline_storage ob), x_kind := KIND_SPIN,
              x_align := ucast (posixipc_kind_align c KIND_SPIN), x_size := posixipc_kind_size c KIND_SPIN 0,
              x_init_flags := FLAG_OWNS_STORAGE, x_flags := FLAG_OWNS_STORAGE OR FLAG_BOUND\<rparr>) } }"

definition spin_finalize :: "PosixIPCSpinLockObject \<Rightarrow> unit io" where
  "spin_finalize ob = handle_finalize ob"

definition spin_dealloc :: "config \<Rightarrow> PosixIPCSpinLockObject \<Rightarrow> regions \<Rightarrow> (PosixIPCSpinLockObject \<times> regions) io" where
  "spin_dealloc c ob H = do {
     spin_finalize ob;
     (ob, H) \<leftarrow> (if \<not> flags_closed (x_flags ob) then spin_close c ob H else ret (ob, H));
     ret (ob\<lparr>x_region := None\<rparr>, H) }"

definition spin_get_process_shared :: "PosixIPCSpinLockObject \<Rightarrow> bool" where
  "spin_get_process_shared ob = handle_flag_bool (x_flags ob) FLAG_PROCESS_SHARED"

definition spin_get_bound :: "PosixIPCSpinLockObject \<Rightarrow> bool" where
  "spin_get_bound ob = handle_flag_bool (x_flags ob) FLAG_BOUND"

definition spin_get_closed :: "PosixIPCSpinLockObject \<Rightarrow> bool" where
  "spin_get_closed ob = handle_flag_bool (x_flags ob) FLAG_CLOSED"

definition spin_get_region :: "PosixIPCSpinLockObject \<Rightarrow> pyobj" where
  "spin_get_region ob = handle_region (x_region ob)"

definition spin_get_slot :: "PosixIPCSpinLockObject \<Rightarrow> nat pyres io" where
  "spin_get_slot ob = long_from (unat (x_slot ob))"

definition spin_get_kind :: "PosixIPCSpinLockObject \<Rightarrow> nat pyres io" where
  "spin_get_kind ob = long_from (unat (x_kind ob))"

definition spin_get_digest :: "PosixIPCSpinLockObject \<Rightarrow> regions \<Rightarrow> nat option pyres io" where
  "spin_get_digest ob H = handle_digest (x_region ob) H"

definition spin_get_offset :: "PosixIPCSpinLockObject \<Rightarrow> nat pyres io" where
  "spin_get_offset ob = long_from (unat (x_offset ob))"

definition spin_get_size :: "PosixIPCSpinLockObject \<Rightarrow> nat pyres io" where
  "spin_get_size ob = long_from (unat (x_size ob))"

definition posixipc_spin_new_unbound :: "config \<Rightarrow> u32 \<Rightarrow> u32 \<Rightarrow> addr \<Rightarrow> PosixIPCSpinLockObject pyres io" where
  "posixipc_spin_new_unbound c init_flags slot storage =
     (if \<not> HAVE_PTHREAD_SPIN_TRYLOCK c then ret (Inl NotImplementedError)
      else do {
        a \<leftarrow> call (Py Tp_alloc);
        ret (if a_ret a < 0 then Inl Pending
             else Inr (handle.extend (unbound_handle c KIND_SPIN init_flags slot)
                         (PosixIPCSpinLockObject.fields None storage))) })"

definition posixipc_spin_bind ::
    "config \<Rightarrow> PosixIPCSpinLockObject \<Rightarrow> regions \<Rightarrow> addr \<Rightarrow> posixipc_slot \<Rightarrow> u32 \<Rightarrow> (pyexc option \<times> PosixIPCSpinLockObject \<times> regions) io" where
  "posixipc_spin_bind c ob H r slot index =
     (if \<not> HAVE_PTHREAD_SPIN_TRYLOCK c then ret (Some NotImplementedError, ob, H)
      else do {
        (p, H) \<leftarrow> bind_slot H r slot;
        ret (case p of Inl e \<Rightarrow> (Some e, ob, H) | Inr ptr \<Rightarrow> (None, (bound_to ob r slot index)\<lparr>sp_lock := ptr\<rparr>, H)) })"

section \<open>Named semaphores\<close>

record PosixIPCNamedSemObject =
  ns_sem :: "addr option"
  ns_name :: "(addr \<times> string) option"
  ns_flags :: u32

definition nsem_check_open :: "PosixIPCNamedSemObject \<Rightarrow> pyexc option" where
  "nsem_check_open ob =
     (if flags_closed (ns_flags ob) then Some posixipc_raise_closed
      else if ns_sem ob = None then Some posixipc_raise_unbound
      else None)"

definition nsem_until_cb :: "addr option \<Rightarrow> clocksym waitfn" where
  "nsem_until_cb arg = (\<lambda>g slice. posixipc_sem_wait_until g arg (Some slice))"

definition nsem_close :: "config \<Rightarrow> PosixIPCNamedSemObject \<Rightarrow> PosixIPCNamedSemObject io" where
  "nsem_close c ob =
     (if flags_closed (ns_flags ob) then ret ob
      else do {
        ob \<leftarrow> (if ns_sem ob \<noteq> None then do {
                 _ \<leftarrow> posixipc_nsem_close c (ns_sem ob);
                 ret (ob\<lparr>ns_sem := None\<rparr>) }
               else ret ob);
        ret (ob\<lparr>ns_flags := ns_flags ob OR FLAG_CLOSED\<rparr>) })"

definition nsem_finalize :: "PosixIPCNamedSemObject \<Rightarrow> unit io" where
  "nsem_finalize ob =
     (if \<not> flags_closed (ns_flags ob) \<and> ns_sem ob \<noteq> None then call_ignore (Py WarnUnclosed) else ret ())"

definition nsem_dealloc :: "config \<Rightarrow> PosixIPCNamedSemObject \<Rightarrow> PosixIPCNamedSemObject io" where
  "nsem_dealloc c ob = do {
     nsem_finalize ob;
     ob \<leftarrow> (if \<not> flags_closed (ns_flags ob) then nsem_close c ob else ret ob);
     call_ignore (Free (map_option fst (ns_name ob)));
     ret (ob\<lparr>ns_name := None\<rparr>) }"

text \<open>\<^verbatim>\<open>tp_alloc\<close> returns zeroed memory; dropping the last reference destroys the object.\<close>

definition nsem_zero :: PosixIPCNamedSemObject where
  "nsem_zero = \<lparr>ns_sem = None, ns_name = None, ns_flags = 0\<rparr>"

definition nsem_from_sem :: "config \<Rightarrow> addr option \<Rightarrow> string \<Rightarrow> PosixIPCNamedSemObject pyres io" where
  "nsem_from_sem c s name = do {
     a \<leftarrow> call (Py Tp_alloc);
     if a_ret a < 0 then do {
       _ \<leftarrow> posixipc_nsem_close c s;
       ret (Inl Pending) }
     else do {
       d \<leftarrow> call (Malloc (length name + 1));
       if a_ret d < 0 then do {
         _ \<leftarrow> posixipc_nsem_close c s;
         _ \<leftarrow> nsem_dealloc c nsem_zero;
         ret (Inl MemoryError) }
       else ret (Inr \<lparr>ns_sem = s, ns_name = Some (nat (a_ret d), name), ns_flags = FLAG_BOUND\<rparr>) } }"

definition nsem_create :: "config \<Rightarrow> string \<Rightarrow> int \<Rightarrow> PosixIPCNamedSemObject pyres io" where
  "nsem_create c name val = do {
     st \<leftarrow> posixipc_state_from_type;
     case st of Some e \<Rightarrow> ret (Inl e) | None \<Rightarrow> do {
       p \<leftarrow> call (Py (ParseTuple ''s|i:create''));
       if a_ret p = 0 then ret (Inl Pending)
       else if val < 0 then ret (Inl ValueError)
       else do {
         (rc, s) \<leftarrow> allow_threads (posixipc_nsem_create c (Some name) (nat val) (Some None));
         if rc \<noteq> 0 then ret (Inl (raise_err rc))
         else nsem_from_sem c (the s) name } } }"

definition nsem_attach :: "config \<Rightarrow> string \<Rightarrow> PosixIPCNamedSemObject pyres io" where
  "nsem_attach c name = do {
     st \<leftarrow> posixipc_state_from_type;
     case st of Some e \<Rightarrow> ret (Inl e) | None \<Rightarrow> do {
       p \<leftarrow> call (Py (ParseTuple ''s:attach''));
       if a_ret p = 0 then ret (Inl Pending)
       else do {
         (rc, s) \<leftarrow> allow_threads (posixipc_nsem_attach c (Some name) (Some None));
         if rc \<noteq> 0 then ret (Inl (raise_err rc))
         else nsem_from_sem c (the s) name } } }"

definition nsem_unlink_name :: "config \<Rightarrow> string \<Rightarrow> unit pyres io" where
  "nsem_unlink_name c name = do {
     st \<leftarrow> posixipc_state_from_type;
     case st of Some e \<Rightarrow> ret (Inl e) | None \<Rightarrow> do {
       p \<leftarrow> call (Py (ParseTuple ''s:unlink_name''));
       if a_ret p = 0 then ret (Inl Pending)
       else do {
         rc \<leftarrow> posixipc_nsem_unlink c (Some name);
         ret (if rc \<noteq> 0 then Inl (raise_err rc) else Inr ()) } } }"

definition nsem_acquire ::
    "(rat \<Rightarrow> rat) \<Rightarrow> nat \<Rightarrow> clocksym \<Rightarrow> PosixIPCNamedSemObject \<Rightarrow> pyobj list \<Rightarrow> (string \<times> pyobj) list \<Rightarrow>
     (bool pyres outcome \<times> clocksym) io" where
  "nsem_acquire fl fuel g ob args kws = do {
     st \<leftarrow> posixipc_state_from_obj;
     case st of Some e \<Rightarrow> ret (Returned (Inl e), g) | None \<Rightarrow>
       case nsem_check_open ob of Some e \<Rightarrow> ret (Returned (Inl e), g) | None \<Rightarrow> do {
         p \<leftarrow> posixipc_parse_acquire args kws;
         case p of Inl e \<Rightarrow> ret (Returned (Inl e), g) | Inr opts \<Rightarrow> do {
           rc \<leftarrow> posixipc_sem_trywait (ns_sem ob);
           if rc \<noteq> EAGAIN \<and> rc \<noteq> EBUSY
           then ret (Returned (if rc = 0 then Inr True else Inl (raise_err rc)), g)
           else if \<not> blocking opts \<or> (\<not> timeout_none opts \<and> timeout opts = Fin 0) then ret (Returned (Inr False), g)
           else do {
             (d, g) \<leftarrow> user_deadline fl posixipc_sem_clock opts g;
             case d of None \<Rightarrow> ret (Undefined, g) | Some (rc, userp) \<Rightarrow>
               if rc \<noteq> 0 then ret (Returned (Inl (raise_err rc)), g)
               else do {
                 (clk, g) \<leftarrow> posixipc_sem_clock g;
                 res \<leftarrow> posixipc_blocking_wait fuel (nsem_until_cb (ns_sem ob)) userp (interruptible opts) clk g;
                 case res of None \<Rightarrow> ret (Unfinished, g) | Some (rc, g) \<Rightarrow>
                   ret (Returned (if rc = 0 then Inr True
                        else if rc = ETIMEDOUT \<or> rc = EAGAIN then Inr False
                        else if rc = POSIXIPC_ERROR_INTERRUPTED then Inl Pending else Inl (raise_err rc)), g) } } } } }"

text \<open>The loop of posts is that of \<^verbatim>\<open>Semaphore.release\<close>.\<close>

definition nsem_release :: "PosixIPCNamedSemObject \<Rightarrow> int \<Rightarrow> unit pyres io" where
  "nsem_release ob n = do {
     st \<leftarrow> posixipc_state_from_obj;
     case st of Some e \<Rightarrow> ret (Inl e) | None \<Rightarrow>
       case nsem_check_open ob of Some e \<Rightarrow> ret (Inl e) | None \<Rightarrow> do {
         p \<leftarrow> call (Py (ParseTuple ''|i:release''));
         if a_ret p = 0 then ret (Inl Pending)
         else if n < 1 then ret (Inl ValueError)
         else sem_posts (nat n) (ns_sem ob) } }"

definition nsem_enter ::
    "(rat \<Rightarrow> rat) \<Rightarrow> nat \<Rightarrow> clocksym \<Rightarrow> PosixIPCNamedSemObject \<Rightarrow> (unit pyres outcome \<times> clocksym) io" where
  "nsem_enter fl fuel g ob = do {
     (ok, g) \<leftarrow> nsem_acquire fl fuel g ob [] [];
     ret (case ok of Returned (Inr True) \<Rightarrow> Returned (Inr ())
                   | Returned (Inr False) \<Rightarrow> Returned (Inl RuntimeError)
                   | Returned (Inl e) \<Rightarrow> Returned (Inl e)
                   | Undefined \<Rightarrow> Undefined | Unfinished \<Rightarrow> Unfinished, g) }"

definition nsem_exit :: "PosixIPCNamedSemObject \<Rightarrow> unit pyres io" where
  "nsem_exit ob = do {
     st \<leftarrow> posixipc_state_from_obj;
     case st of Some e \<Rightarrow> ret (Inl e) | None \<Rightarrow>
       case nsem_check_open ob of Some e \<Rightarrow> ret (Inl e) | None \<Rightarrow> do {
         rc \<leftarrow> posixipc_sem_post (ns_sem ob);
         ret (if rc \<noteq> 0 then Inl (raise_err rc) else Inr ()) } }"

definition nsem_unlink :: "config \<Rightarrow> PosixIPCNamedSemObject \<Rightarrow> unit pyres io" where
  "nsem_unlink c ob = do {
     st \<leftarrow> posixipc_state_from_obj;
     case st of Some e \<Rightarrow> ret (Inl e) | None \<Rightarrow>
       case ns_name ob of None \<Rightarrow> ret (Inl RuntimeError) | Some (_, nm) \<Rightarrow> do {
         rc \<leftarrow> posixipc_nsem_unlink c (Some nm);
         ret (if rc \<noteq> 0 then Inl (raise_err rc) else Inr ()) } }"

definition nsem_get_name :: "PosixIPCNamedSemObject \<Rightarrow> string option pyres io" where
  "nsem_get_name ob =
     (case ns_name ob of None \<Rightarrow> ret (Inr None) | Some (_, nm) \<Rightarrow> do {
        u \<leftarrow> call (Py (UnicodeFrom nm));
        ret (if a_ret u < 0 then Inl Pending else Inr (Some nm)) })"

definition nsem_get_closed :: "PosixIPCNamedSemObject \<Rightarrow> bool" where
  "nsem_get_closed ob = handle_flag_bool (ns_flags ob) FLAG_CLOSED"

definition nsem_init :: pyexc where
  "nsem_init = TypeError"

section \<open>Registration\<close>

text \<open>Adding one type to the module and its state; the names of the types in the state are the result.\<close>

definition register_type :: "bool \<Rightarrow> string \<Rightarrow> string list \<Rightarrow> (pyexc option \<times> string list) io" where
  "register_type have_it name types =
     (if \<not> have_it then ret (None, types)
      else do {
        t \<leftarrow> call (Py (TypeFromSpec name));
        if a_ret t < 0 then ret (Some Pending, types)
        else do {
          a \<leftarrow> call (Py (AddObjectRef name));
          ret (if a_ret a < 0 then Some Pending else None, types @ [name]) } })"

definition posixipc_m3_register :: "config \<Rightarrow> (pyexc option \<times> string list) io" where
  "posixipc_m3_register c = do {
     (e, ts) \<leftarrow> register_type (HAVE_PTHREAD_BARRIER_WAIT c) ''Barrier'' [];
     if e \<noteq> None then ret (e, ts)
     else do {
       (e, ts) \<leftarrow> register_type (HAVE_PTHREAD_SPIN_TRYLOCK c) ''SpinLock'' ts;
       if e \<noteq> None then ret (e, ts)
       else register_type (HAVE_SEM_OPEN c) ''NamedSemaphore'' ts } }"

section \<open>Handles of all types\<close>

interpretation barrier_handle: pinned_handle "posixipc_barrier_bind c" "bar_close c" x_region "\<lambda>ob. flags_closed (x_flags ob)" for c
proof unfold_locales
  fix ob H r slot i w e ob' H' w'
  show "run (posixipc_barrier_bind c ob H r slot i) w = ((Some e, ob', H'), w') \<Longrightarrow> ob' = ob \<and> H' = H"
    by (auto simp: posixipc_barrier_bind_def run_bind run_ret dest!: run_bind_slot split: prod.splits sum.splits if_splits)
  show "run (posixipc_barrier_bind c ob H r slot i) w = ((None, ob', H'), w') \<Longrightarrow>
      x_region ob' = Some r \<and> flags_closed (x_flags ob') = flags_closed (x_flags ob) \<and> H' = H(r := (H r)\<lparr>s_pins := s_pins (H r) + 1\<rparr>)"
    by (auto simp: posixipc_barrier_bind_def run_bind run_ret dest!: run_bind_slot split: prod.splits sum.splits if_splits)
  show "\<not> flags_closed (x_flags ob) \<Longrightarrow> run (bar_close c ob H) w = ((ob', H'), w') \<Longrightarrow>
      x_region ob' = None \<and> flags_closed (x_flags ob') \<and> H' = (case x_region ob of None \<Rightarrow> H | Some r \<Rightarrow> unpin_region H r)"
    by (cases "close_handle ob H") (auto simp: bar_close_def run_bind run_ret dest: close_handle_post split: prod.splits)
qed (simp add: bar_close_def run_ret)

interpretation spin_handle: pinned_handle "posixipc_spin_bind c" "spin_close c" x_region "\<lambda>ob. flags_closed (x_flags ob)" for c
proof unfold_locales
  fix ob H r slot i w e ob' H' w'
  show "run (posixipc_spin_bind c ob H r slot i) w = ((Some e, ob', H'), w') \<Longrightarrow> ob' = ob \<and> H' = H"
    by (auto simp: posixipc_spin_bind_def run_bind run_ret dest!: run_bind_slot split: prod.splits sum.splits if_splits)
  show "run (posixipc_spin_bind c ob H r slot i) w = ((None, ob', H'), w') \<Longrightarrow>
      x_region ob' = Some r \<and> flags_closed (x_flags ob') = flags_closed (x_flags ob) \<and> H' = H(r := (H r)\<lparr>s_pins := s_pins (H r) + 1\<rparr>)"
    by (auto simp: posixipc_spin_bind_def run_bind run_ret dest!: run_bind_slot split: prod.splits sum.splits if_splits)
  show "\<not> flags_closed (x_flags ob) \<Longrightarrow> run (spin_close c ob H) w = ((ob', H'), w') \<Longrightarrow>
      x_region ob' = None \<and> flags_closed (x_flags ob') \<and> H' = (case x_region ob of None \<Rightarrow> H | Some r \<Rightarrow> unpin_region H r)"
    by (cases "close_handle ob H") (auto simp: spin_close_def run_bind run_ret dest: close_handle_post split: prod.splits)
qed (simp add: spin_close_def run_ret)

text \<open>A client holds handles of any type; each operation goes to the function of its type.\<close>

datatype any_handle =
    RW PosixIPCRWLockObject | CV PosixIPCConditionObject | SE PosixIPCSemaphoreObject
  | BA PosixIPCBarrierObject | SP PosixIPCSpinLockObject | BY PosixIPCBytesObject

definition wrapped :: "('o \<Rightarrow> any_handle) \<Rightarrow> (pyexc option \<times> 'o \<times> regions) io \<Rightarrow> (pyexc option \<times> any_handle \<times> regions) io" where
  "wrapped K m = do { (e, ob, H) \<leftarrow> m; ret (e, K ob, H) }"

definition wrapped2 :: "('o \<Rightarrow> any_handle) \<Rightarrow> ('o \<times> regions) io \<Rightarrow> (any_handle \<times> regions) io" where
  "wrapped2 K m = do { (ob, H) \<leftarrow> m; ret (K ob, H) }"

fun any_bind ::
    "config \<Rightarrow> any_handle \<Rightarrow> regions \<Rightarrow> addr \<Rightarrow> posixipc_slot \<Rightarrow> u32 \<Rightarrow> (pyexc option \<times> any_handle \<times> regions) io" where
  "any_bind c (RW ob) H r slot i = wrapped RW (posixipc_rwlock_bind ob H r slot i)"
| "any_bind c (CV ob) H r slot i = wrapped CV (posixipc_cond_bind ob H r slot i)"
| "any_bind c (SE ob) H r slot i = wrapped SE (posixipc_sem_bind ob H r slot i)"
| "any_bind c (BA ob) H r slot i = wrapped BA (posixipc_barrier_bind c ob H r slot i)"
| "any_bind c (SP ob) H r slot i = wrapped SP (posixipc_spin_bind c ob H r slot i)"
| "any_bind c (BY ob) H r slot i = wrapped BY (posixipc_bytes_bind ob H r slot i)"

fun any_close :: "config \<Rightarrow> any_handle \<Rightarrow> regions \<Rightarrow> (any_handle \<times> regions) io" where
  "any_close c (RW ob) H = wrapped2 RW (rwlock_close ob H)"
| "any_close c (CV ob) H = wrapped2 CV (cond_close ob H)"
| "any_close c (SE ob) H = wrapped2 SE (semobj_close ob H)"
| "any_close c (BA ob) H = wrapped2 BA (bar_close c ob H)"
| "any_close c (SP ob) H = wrapped2 SP (spin_close c ob H)"
| "any_close c (BY ob) H = wrapped2 BY (ret (bytes_close ob H))"

fun any_region :: "any_handle \<Rightarrow> addr option" where
  "any_region (RW ob) = x_region ob" | "any_region (CV ob) = x_region ob" | "any_region (SE ob) = x_region ob"
| "any_region (BA ob) = x_region ob" | "any_region (SP ob) = x_region ob" | "any_region (BY ob) = x_region ob"

fun any_shut :: "any_handle \<Rightarrow> bool" where
  "any_shut (RW ob) = flags_closed (x_flags ob)" | "any_shut (CV ob) = flags_closed (x_flags ob)"
| "any_shut (SE ob) = flags_closed (x_flags ob)" | "any_shut (BA ob) = flags_closed (x_flags ob)"
| "any_shut (SP ob) = flags_closed (x_flags ob)" | "any_shut (BY ob) = flags_closed (x_flags ob)"

lemma run_wrapped: "run (wrapped K m) w = ((e, h, H), w') \<Longrightarrow> \<exists>ob. run m w = ((e, ob, H), w') \<and> h = K ob"
  by (auto simp: wrapped_def run_bind run_ret split: prod.splits)

lemma run_wrapped2: "run (wrapped2 K m) w = ((h, H), w') \<Longrightarrow> \<exists>ob. run m w = ((ob, H), w') \<and> h = K ob"
  by (auto simp: wrapped2_def run_bind run_ret split: prod.splits)

lemmas each_bind_fails = rwlock_handle.bind_fails cond_handle.bind_fails sem_handle.bind_fails barrier_handle.bind_fails spin_handle.bind_fails bytes_handle.bind_fails
lemmas each_bind_ok = rwlock_handle.bind_ok cond_handle.bind_ok sem_handle.bind_ok barrier_handle.bind_ok spin_handle.bind_ok bytes_handle.bind_ok
lemmas each_close_open = rwlock_handle.close_open cond_handle.close_open sem_handle.close_open barrier_handle.close_open
  spin_handle.close_open bytes_handle.close_open
lemmas each_close_again = rwlock_handle.close_again cond_handle.close_again sem_handle.close_again barrier_handle.close_again
  spin_handle.close_again bytes_handle.close_again

interpretation any_handle: pinned_handle "any_bind c" "any_close c" any_region any_shut for c
proof unfold_locales
  fix ob :: any_handle and H r slot i w e ob' H' w'
  show "run (any_bind c ob H r slot i) w = ((Some e, ob', H'), w') \<Longrightarrow> ob' = ob \<and> H' = H"
    by (cases ob) (auto dest!: run_wrapped dest: each_bind_fails)
  show "run (any_bind c ob H r slot i) w = ((None, ob', H'), w') \<Longrightarrow>
      any_region ob' = Some r \<and> any_shut ob' = any_shut ob \<and> H' = H(r := (H r)\<lparr>s_pins := s_pins (H r) + 1\<rparr>)"
    by (cases ob) (auto dest!: run_wrapped dest: each_bind_ok)
  show "\<not> any_shut ob \<Longrightarrow> run (any_close c ob H) w = ((ob', H'), w') \<Longrightarrow>
      any_region ob' = None \<and> any_shut ob' \<and> H' = (case any_region ob of None \<Rightarrow> H | Some r \<Rightarrow> unpin_region H r)"
    by (cases ob) (auto dest!: run_wrapped2 dest: each_close_open)
  show "any_shut ob \<Longrightarrow> run (any_close c ob H) w = ((ob, H), w)"
    by (cases ob) (simp_all add: wrapped2_def run_bind run_ret each_close_again bytes_close_def bytes_closed_flags)
qed

text \<open>
  C35. The pins of a segment are accounted for, for read-write locks, conditions, semaphores,
  barriers, spin locks and byte windows together: whatever interleaving of bindings and closings a client makes, also of handles that are
  bound or closed already, and however the calls end, the number of pins changes by the change in the number of handles bound
  to the segment, plus one for every time a successful binding replaced it in a bound handle. Such a
  pin no handle gives back; without rebinding none is left once all handles have left the segment.
\<close>

theorem handle_pins_counted:
  assumes "run (run_handles (any_bind c) (any_close c) any_region ops hs H []) w = ((hs', H', lost), w')"
  shows "s_pins (H' r) + of_nat (bound_count any_region r hs) =
         s_pins (H r) + of_nat (bound_count any_region r hs') + of_nat (count_list lost r)"
  using any_handle.pins_counted [OF assms, of r] by (simp add: algebra_simps)

section \<open>Locks and permits\<close>

fun spin_delta :: "addr \<Rightarrow> syscall \<Rightarrow> answer \<Rightarrow> int" where
  "spin_delta q (SpinBarrier (Spin_trylock p)) a = (if p = q \<and> a_ret a = 0 then 1 else 0)"
| "spin_delta q (SpinBarrier (Spin_unlock p)) a = (if p = q \<and> a_ret a = 0 then - 1 else 0)"
| "spin_delta q _ a = 0"

lemma lock_like_spin: "lock_like (spin_delta q)"
  by (simp add: lock_like_def)

lemma effect_spin_trylock: "effect E (spin_delta q) (taken q lo) (posixipc_spin_trylock c lo)"
  unfolding posixipc_spin_trylock_def
  by (intro effect_if effect_option effect_ret effect_rc) (simp_all add: taken_def)

lemma effect_spin_turn: "effect E (spin_delta q) (taken q lo) (allow_threads (spin_turn c lo))"
  unfolding spin_turn_def
  by (intro effect_allow_threads [OF lock_like_spin] effect_bind [OF effect_spin_trylock] effect_keeps_bind keeps_rules effect_ret) simp_all

definition spin_gain :: "addr \<Rightarrow> addr option \<Rightarrow> bool pyres outcome \<Rightarrow> int" where
  "spin_gain q lo r = (if lo = Some q \<and> r = Returned (Inr True) then 1 else 0)"

lemma effect_spin_loop: "effect E (spin_delta q) (spin_gain q lo) (spin_loop n c lo intr)"
proof (induction n)
  case (Suc n)
  then have "effect E (spin_delta q) (\<lambda>y. if lo = Some q \<and> y = Returned (Inr True) then 1 else 0) (spin_loop n c lo intr)"
    by (simp add: spin_gain_def [abs_def])
  then show ?case
    unfolding spin_loop.simps
    by (intro effect_bind [OF effect_spin_turn] effect_if effect_ret effect_keeps_bind keeps_call)
      (auto simp: spin_gain_def taken_def)
qed (simp add: effect_ret spin_gain_def)

lemma effect_spin_acquire: "effect E (spin_delta q) (spin_gain q (sp_lock ob)) (spin_acquire fuel c ob args kws)"
proof -
  have "effect E (spin_delta q) (\<lambda>y. if sp_lock ob = Some q \<and> y = Returned (Inr True) then 1 else 0)
      (spin_loop fuel c (sp_lock ob) intr)" for intr
    using effect_spin_loop [of E q "sp_lock ob"] by (simp add: spin_gain_def [abs_def])
  then show ?thesis
    unfolding spin_acquire_def
    by (intro effect_keeps_bind [OF keeps_state_from] effect_keeps_bind [OF keeps_parse_acquire] lock_like_spin effect_option
        effect_sum effect_bind [OF effect_spin_trylock] effect_if effect_ret)
      (auto simp: spin_gain_def taken_def)
qed

lemma nsem_until_same: "nsem_until_cb = sem_until_cb"
  by (simp add: nsem_until_cb_def sem_until_cb_def fun_eq_iff)

lemma end_effect_nsem_wait:
  "end_effect clock_ok (sem_delta q) (\<lambda>r. taken q lo (if r = Inr True then 0 else 1))
     (do { res \<leftarrow> posixipc_blocking_wait fuel (nsem_until_cb lo) userp intr clk g;
           case res of None \<Rightarrow> ret (Unfinished, g) | Some (rc, g) \<Rightarrow>
             ret (Returned (if rc = 0 then Inr True else if rc = ETIMEDOUT \<or> rc = EAGAIN then Inr False
                  else if rc = POSIXIPC_ERROR_INTERRUPTED then Inl Pending else Inl (raise_err rc)), g) })"
  unfolding nsem_until_same
  by (rule sem_wait.end_effect_blocking; simp; (intro conjI impI)?; rule end_effect_ret; auto simp: taken_not_zero)

lemma end_effect_nsem_acquire:
  "end_effect clock_ok (sem_delta q) (\<lambda>r. taken q (ns_sem ob) (if r = Inr True then 0 else 1)) (nsem_acquire fl fuel g ob args kws)"
  unfolding nsem_acquire_def
  apply (rule end_effect_keeps_bind [OF keeps_state_from [OF lock_like_sem]])
  apply (intro end_effect_option end_effect_ret)
    apply (rule end_effect_keeps_bind [OF keeps_parse_acquire [OF lock_like_sem]])
    apply (rule end_effect_sum)
     apply (rule end_effect_ret, auto simp: taken_not_zero)[1]
    apply (rule end_effect_bind [OF effect_sem_try])
    apply (intro end_effect_if end_effect_ret)
      apply (auto simp: taken_not_zero split: if_splits)[2]
    apply (rule end_effect_keeps_bind [OF keeps_user_deadline [OF lock_like_sem keeps_sem_clock [OF lock_like_sem]]])
    apply (intro end_effect_prod end_effect_option end_effect_if end_effect_ret)
       apply (auto simp: taken_not_zero)[2]
    apply (rule end_effect_keeps_bind [OF keeps_sem_clock [OF lock_like_sem]], rule end_effect_prod)
    apply (rule end_effect_mono [OF end_effect_nsem_wait], auto simp: taken_not_zero)[1]
   apply (auto simp: taken_not_zero)
  done

text \<open>
  Spin locks and named semaphores are taken exactly when acquire returns True: \<^verbatim>\<open>SpinLock.acquire\<close>
  and \<^verbatim>\<open>NamedSemaphore.acquire\<close> have then taken the lock or one permit, and nothing when they return False
  or raise, also when a timeout was given to a spin lock that turns out to be busy.
\<close>

theorem m3_acquire_contract:
  assumes "clock_errors w"
    and "run (spin_acquire fuel c spin args kws) w = (Returned r1, w1)"
    and "run (nsem_acquire fl fuel g sem args kws) w = ((Returned r2, g2), w2)"
  shows "balance (spin_delta q) w1 = balance (spin_delta q) w + (if sp_lock spin = Some q \<and> r1 = Inr True then 1 else 0) \<and>
         balance (sem_delta q) w2 = balance (sem_delta q) w + (if ns_sem sem = Some q \<and> r2 = Inr True then 1 else 0)"
  using effectD(2) [OF effect_spin_acquire TrueI assms(2), of q] end_effectD(2) [OF end_effect_nsem_acquire clock_okI [OF assms(1)] assms(3), of q]
  by (simp add: spin_gain_def taken_def)

text \<open>The lock becomes free: from some point on, trying it does not answer EBUSY.\<close>

definition spin_frees :: "(history \<Rightarrow> syscall \<Rightarrow> answer) \<Rightarrow> addr \<Rightarrow> nat \<Rightarrow> bool" where
  "spin_frees e p n \<longleftrightarrow> (\<forall>h. n \<le> length h \<longrightarrow> a_ret (e h (SpinBarrier (Spin_trylock p))) \<noteq> EBUSY)"

lemma run_spin_turn:
  "run (allow_threads (spin_turn c (Some p))) w = (rc, w') \<Longrightarrow>
     env w' = env w \<and> length (trace w) < length (trace w') \<and>
     (rc = EBUSY \<longrightarrow> HAVE_PTHREAD_SPIN_TRYLOCK c \<and> a_ret (answer_to (after w (Py SaveThread)) (SpinBarrier (Spin_trylock p))) = EBUSY)"
  by (auto simp: spin_turn_def posixipc_spin_trylock_def io_simps split: if_splits)

lemma spin_loop_ends:
  assumes "spin_frees (env w) p n" and "n \<le> length (trace w) + j"
  shows "\<exists>r. fst (run (spin_loop (Suc j) c (Some p) intr) w) = Returned r"
  using assms
proof (induction j arbitrary: w)
  case 0
  obtain rc w1 where t: "run (allow_threads (spin_turn c (Some p))) w = (rc, w1)" by fastforce
  have "rc \<noteq> EBUSY" using run_spin_turn [OF t] 0 by (auto simp: spin_frees_def answer_to_def)
  with t show ?case by (auto simp: run_bind run_ret)
next
  case (Suc j)
  obtain rc w1 where t: "run (allow_threads (spin_turn c (Some p))) w = (rc, w1)" by fastforce
  have e: "env w1 = env w" "length (trace w) < length (trace w1)" using run_spin_turn [OF t] by auto
  have "\<exists>r. fst (run (spin_loop (Suc j) c (Some p) intr) w1) = Returned r"
    "\<exists>r. fst (run (spin_loop (Suc j) c (Some p) intr) (after w1 (Py CheckSignals))) = Returned r"
    using Suc.IH [of w1] Suc.IH [of "after w1 (Py CheckSignals)"] Suc.prems e by simp_all
  with t show ?case
    by (cases intr) (simp_all add: spin_loop.simps(2) [of "Suc j"] run_bind run_ret run_call run_if del: spin_loop.simps)
qed

text \<open>
  \<^verbatim>\<open>SpinLock.acquire\<close> returns once the lock is free: if trying the lock no longer answers EBUSY from some
  point on, then enough turns of the loop end it with a result, whatever arguments were given; \<^verbatim>\<open>n\<close> turns suffice
  when that point is reached after \<^verbatim>\<open>n\<close> calls.
\<close>

theorem spin_acquire_returns:
  assumes "spin_frees (env w) p n" and "n \<le> fuel" and "sp_lock ob = Some p"
  shows "\<exists>r w'. run (spin_acquire (Suc fuel) c ob args kws) w = (Returned r, w')"
proof -
  obtain st w1 where st: "run posixipc_state_from_obj w = (st, w1)" by fastforce
  obtain o1 w2 where p: "run (posixipc_parse_acquire args kws) w1 = (o1, w2)" by fastforce
  obtain rc w3 where t: "run (posixipc_spin_trylock c (Some p)) w2 = (rc, w3)" by fastforce
  have "env w3 = env w"
    using keepsD(1) [OF keeps_state_from [OF lock_like_spin] st] keepsD(1) [OF keeps_parse_acquire [OF lock_like_spin] p]
      effectD(1) [OF effect_spin_trylock TrueI t] by simp
  with assms have "\<exists>r. fst (run (spin_loop (Suc fuel) c (Some p) intr) w3) = Returned r" for intr
    by (intro spin_loop_ends [of _ _ n]) auto
  then have "\<exists>r w'. run (spin_loop (Suc fuel) c (Some p) intr) w3 = (Returned r, w')" for intr by (metis prod.collapse)
  with st p t assms(3) show ?thesis
    unfolding spin_acquire_def
    by (auto simp: run_bind run_ret simp del: spin_loop.simps split: option.split sum.split)
qed

section \<open>Named semaphores are opened and closed in balance\<close>

text \<open>
  Open semaphores at an address and blocks of \<^verbatim>\<open>malloc\<close>: a close counts whatever it answers. Failing calls leave a
  positive \<^verbatim>\<open>errno\<close>.
\<close>

fun nsem_delta :: "addr \<Rightarrow> syscall \<Rightarrow> answer \<Rightarrow> int" where
  "nsem_delta q (Sem (Sem_open nm fl m)) a = (if a_ret a = int q then 1 else 0)"
| "nsem_delta q (Sem (Sem_close p)) a = (if p = q then - 1 else 0)"
| "nsem_delta q _ a = 0"

fun heap_delta :: "addr \<Rightarrow> syscall \<Rightarrow> answer \<Rightarrow> int" where
  "heap_delta q (Malloc n) a = (if a_ret a = int q then 1 else 0)"
| "heap_delta q (Free p) a = (if p = Some q then - 1 else 0)"
| "heap_delta q _ a = 0"

lemma lock_like_nsem: "lock_like (nsem_delta q)" and lock_like_heap: "lock_like (heap_delta q)"
  by (simp_all add: lock_like_def)

definition errno_ok :: "(history \<Rightarrow> syscall \<Rightarrow> answer) \<Rightarrow> bool" where
  "errno_ok e \<longleftrightarrow> (\<forall>h c. a_ret (e h c) < 0 \<longrightarrow> 0 < a_errno (e h c))"

lemma errno_okI: "errno_set w \<Longrightarrow> errno_ok (env w)"
  by (simp add: errno_set_def errno_ok_def)

definition nsem_open_at :: "addr \<Rightarrow> addr option \<Rightarrow> int" where
  "nsem_open_at q s = (if s = Some q then 1 else 0)"

text \<open>What an object holds: the semaphore, and the memory of its name.\<close>

definition nsem_holds :: "addr \<Rightarrow> PosixIPCNamedSemObject \<Rightarrow> int" where
  "nsem_holds q ob = nsem_open_at q (ns_sem ob)"

definition name_holds :: "addr \<Rightarrow> PosixIPCNamedSemObject \<Rightarrow> int" where
  "name_holds q ob = nsem_open_at q (map_option fst (ns_name ob))"

text \<open>A closed object has given its semaphore back.\<close>

definition nsem_ok :: "PosixIPCNamedSemObject \<Rightarrow> bool" where
  "nsem_ok ob \<longleftrightarrow> (flags_closed (ns_flags ob) \<longrightarrow> ns_sem ob = None)"

lemma run_nsem_close:
  assumes "HAVE_SEM_OPEN c"
  shows "run (nsem_close c ob) w =
    (if flags_closed (ns_flags ob) then (ob, w)
     else (ob\<lparr>ns_sem := None, ns_flags := ns_flags ob OR FLAG_CLOSED\<rparr>,
           case ns_sem ob of None \<Rightarrow> w | Some p \<Rightarrow> after w (Sem (Sem_close p))))"
  using assms by (cases "ns_sem ob") (simp_all add: nsem_close_def posixipc_nsem_close_def io_simps)

lemma nsem_close_post:
  assumes "HAVE_SEM_OPEN c" and "run (nsem_close c ob) w = (ob', w')" and "nsem_ok ob"
  shows "env w' = env w" and "nsem_ok ob'" and "flags_closed (ns_flags ob')" and "ns_sem ob' = None" and "ns_name ob' = ns_name ob"
    and "balance (nsem_delta q) w' = balance (nsem_delta q) w - nsem_holds q ob"
    and "balance (heap_delta q) w' = balance (heap_delta q) w"
  using assms by (auto simp: run_nsem_close nsem_ok_def nsem_holds_def nsem_open_at_def flags_closed_def flag_set_or
      split: if_splits option.splits) (auto simp: flag_set_def)

lemma nsem_dealloc_post:
  assumes c: "HAVE_SEM_OPEN c" and r: "run (nsem_dealloc c ob) w = (ob', w')" and ok: "nsem_ok ob"
  shows "env w' = env w" and "balance (nsem_delta q) w' = balance (nsem_delta q) w - nsem_holds q ob"
    and "balance (heap_delta q) w' = balance (heap_delta q) w - name_holds q ob"
proof -
  obtain w1 where f: "run (nsem_finalize ob) w = ((), w1)" by (metis old.unit.exhaust surj_pair)
  have f1: "env w1 = env w" "balance (nsem_delta q) w1 = balance (nsem_delta q) w" "balance (heap_delta q) w1 = balance (heap_delta q) w"
    using f by (auto simp: nsem_finalize_def io_simps split: if_splits)
  obtain ob1 w2 where k: "run (nsem_close c ob) w1 = (ob1, w2)" by fastforce
  note k2 = nsem_close_post [OF c k ok]
  have "flags_closed (ns_flags ob) \<Longrightarrow> nsem_holds q ob = 0" using ok by (simp add: nsem_ok_def nsem_holds_def nsem_open_at_def)
  with r f k k2 f1 show "env w' = env w" and "balance (nsem_delta q) w' = balance (nsem_delta q) w - nsem_holds q ob"
    and "balance (heap_delta q) w' = balance (heap_delta q) w - name_holds q ob"
    by (auto simp: nsem_dealloc_def run_bind run_ret run_call_ignore name_holds_def nsem_open_at_def split: if_splits option.splits)
qed

lemma nsem_from_sem_post:
  assumes c: "HAVE_SEM_OPEN c" and r: "run (nsem_from_sem c (Some p) name) w = (r, w')"
  shows "env w' = env w \<and>
    (case r of Inl e \<Rightarrow> balance (nsem_delta q) w' = balance (nsem_delta q) w - nsem_open_at q (Some p) \<and>
                        balance (heap_delta q) w' = balance (heap_delta q) w
     | Inr ob \<Rightarrow> nsem_ok ob \<and> nsem_check_open ob = None \<and> ns_sem ob = Some p \<and>
                 balance (nsem_delta q) w' = balance (nsem_delta q) w \<and>
                 balance (heap_delta q) w' = balance (heap_delta q) w + name_holds q ob)"
proof -
  have z: "run (nsem_dealloc c nsem_zero) w1 = (ob', w2) \<Longrightarrow>
      env w2 = env w1 \<and> balance (nsem_delta q) w2 = balance (nsem_delta q) w1 \<and> balance (heap_delta q) w2 = balance (heap_delta q) w1" for w1 ob' w2
    using nsem_dealloc_post(1) [OF c, of nsem_zero w1 ob' w2] nsem_dealloc_post(2,3) [OF c, of nsem_zero w1 ob' w2 q]
    by (simp add: nsem_zero_def nsem_ok_def nsem_holds_def name_holds_def nsem_open_at_def)
  show ?thesis
    using r c
    by (auto simp: nsem_from_sem_def posixipc_nsem_close_def run_bind run_ret run_call run_call_errno nsem_open_at_def name_holds_def
        nsem_ok_def nsem_check_open_def flags_closed_def flag_set_def dest!: z split: if_splits prod.splits)
qed

text \<open>A client uses the object in any way, and may close it, also more than once.\<close>

datatype nsem_op = NAcquire "pyobj list" "(string \<times> pyobj) list" | NRelease int | NExit | NUnlink | NClose

fun nsem_client ::
    "(rat \<Rightarrow> rat) \<Rightarrow> nat \<Rightarrow> config \<Rightarrow> nsem_op list \<Rightarrow> clocksym \<Rightarrow> PosixIPCNamedSemObject \<Rightarrow> PosixIPCNamedSemObject io" where
  "nsem_client fl fuel c [] g ob = ret ob"
| "nsem_client fl fuel c (NAcquire args kws # ops) g ob = do {
     (_, g) \<leftarrow> nsem_acquire fl fuel g ob args kws; nsem_client fl fuel c ops g ob }"
| "nsem_client fl fuel c (NRelease n # ops) g ob = do { _ \<leftarrow> nsem_release ob n; nsem_client fl fuel c ops g ob }"
| "nsem_client fl fuel c (NExit # ops) g ob = do { _ \<leftarrow> nsem_exit ob; nsem_client fl fuel c ops g ob }"
| "nsem_client fl fuel c (NUnlink # ops) g ob = do { _ \<leftarrow> nsem_unlink c ob; nsem_client fl fuel c ops g ob }"
| "nsem_client fl fuel c (NClose # ops) g ob = do { ob \<leftarrow> nsem_close c ob; nsem_client fl fuel c ops g ob }"

lemma keeps_sem_posts: "(\<And>p a. \<delta> (Sem (Sem_post p)) a = 0) \<Longrightarrow> keeps \<delta> (sem_posts n lo)"
  by (induction n) (auto simp: posixipc_sem_post_def intro!: keeps_rules)

text \<open>A balance that using a semaphore does not touch.\<close>

definition use_free :: "(syscall \<Rightarrow> answer \<Rightarrow> int) \<Rightarrow> bool" where
  "use_free \<delta> \<longleftrightarrow> lock_like \<delta> \<and> (\<forall>p a. \<delta> (Sem (Sem_post p)) a = 0 \<and> \<delta> (Sem (Sem_wait p)) a = 0 \<and> \<delta> (Sem (Sem_trywait p)) a = 0) \<and>
     (\<forall>p clk ts a. \<delta> (Sem (Sem_clockwait p clk ts)) a = 0 \<and> \<delta> (Sem (Sem_timedwait p ts)) a = 0) \<and> (\<forall>n a. \<delta> (Sem (Sem_unlink n)) a = 0)"

lemma use_free_deltas: "use_free (nsem_delta q)" "use_free (heap_delta q)"
  by (simp_all add: use_free_def lock_like_nsem lock_like_heap)

lemma use_freeD:
  assumes "use_free \<delta>"
  shows "lock_like \<delta>" "\<delta> (Sem (Sem_post p)) a = 0" "\<delta> (Sem (Sem_trywait p)) a = 0" "\<delta> (Sem (Sem_clockwait p clk ts)) a = 0"
    "\<delta> (Sem (Sem_timedwait p ts)) a = 0" "\<delta> (Sem (Sem_unlink n)) a = 0"
  using assms by (simp_all add: use_free_def)

lemma keeps_nsem_until: "use_free \<delta> \<Longrightarrow> keeps \<delta> (nsem_until_cb lo g d)"
  unfolding nsem_until_cb_def posixipc_sem_wait_until_def posixipc_sem_clockwait_def
  by (intro keeps_rules keeps_have_sem keeps_clocksym_init use_freeD) (auto intro: keeps_rules split: prod.split)

lemma keeps_nsem_uses:
  assumes "use_free \<delta>"
  shows "keeps \<delta> (nsem_acquire fl fuel g ob args kws)" and "keeps \<delta> (nsem_release ob n)" and "keeps \<delta> (nsem_exit ob)" and "keeps \<delta> (nsem_unlink c ob)"
  unfolding nsem_acquire_def nsem_release_def nsem_exit_def nsem_unlink_def posixipc_sem_post_def posixipc_sem_trywait_def posixipc_nsem_unlink_def
  by (intro keeps_rules keeps_state_from keeps_parse_acquire keeps_user_deadline keeps_sem_clock keeps_blocking_wait keeps_nsem_until
      keeps_sem_posts use_freeD assms lock_likeD(3) [OF use_freeD(1) [OF assms]]; simp)+

lemma nsem_client_post:
  assumes c: "HAVE_SEM_OPEN c" and "run (nsem_client fl fuel c ops g ob) w = (ob', w')" and "nsem_ok ob"
  shows "env w' = env w \<and> nsem_ok ob' \<and> ns_name ob' = ns_name ob \<and>
    balance (nsem_delta q) w' - nsem_holds q ob' = balance (nsem_delta q) w - nsem_holds q ob \<and>
    balance (heap_delta q) w' = balance (heap_delta q) w"
  using assms(2,3)
proof (induction ops arbitrary: g ob w)
  case (Cons op ops)
  note k = keeps_nsem_uses [OF use_free_deltas(1)] keeps_nsem_uses [OF use_free_deltas(2)]
  show ?case
  proof (cases op)
    case (NAcquire args kws)
    obtain x g1 w1 where a: "run (nsem_acquire fl fuel g ob args kws) w = ((x, g1), w1)" by (metis prod_cases3 surj_pair)
    with Cons.prems NAcquire have "run (nsem_client fl fuel c ops g1 ob) w1 = (ob', w')" by (simp add: run_bind)
    from Cons.IH [OF this Cons.prems(2)] keepsD [OF k(1) a] keepsD [OF k(5) a] show ?thesis by simp
  next
    case (NRelease n)
    obtain x w1 where a: "run (nsem_release ob n) w = (x, w1)" by fastforce
    with Cons.prems NRelease have "run (nsem_client fl fuel c ops g ob) w1 = (ob', w')" by (simp add: run_bind)
    from Cons.IH [OF this Cons.prems(2)] keepsD [OF k(2) a] keepsD [OF k(6) a] show ?thesis by simp
  next
    case NExit
    obtain x w1 where a: "run (nsem_exit ob) w = (x, w1)" by fastforce
    with Cons.prems NExit have "run (nsem_client fl fuel c ops g ob) w1 = (ob', w')" by (simp add: run_bind)
    from Cons.IH [OF this Cons.prems(2)] keepsD [OF k(3) a] keepsD [OF k(7) a] show ?thesis by simp
  next
    case NUnlink
    obtain x w1 where a: "run (nsem_unlink c ob) w = (x, w1)" by fastforce
    with Cons.prems NUnlink have "run (nsem_client fl fuel c ops g ob) w1 = (ob', w')" by (simp add: run_bind)
    from Cons.IH [OF this Cons.prems(2)] keepsD [OF k(4) a] keepsD [OF k(8) a] show ?thesis by simp
  next
    case NClose
    obtain ob1 w1 where a: "run (nsem_close c ob) w = (ob1, w1)" by fastforce
    with Cons.prems NClose have r: "run (nsem_client fl fuel c ops g ob1) w1 = (ob', w')" by (simp add: run_bind)
    note p = nsem_close_post [OF c a Cons.prems(2)]
    from Cons.IH [OF r p(2)] p(1,4,5,6,7) show ?thesis by (simp add: nsem_holds_def nsem_open_at_def)
  qed
qed (simp add: run_ret)

text \<open>Opening: the new object holds what was opened, a failure holds nothing.\<close>

definition opened_ok :: "addr \<Rightarrow> world \<Rightarrow> PosixIPCNamedSemObject pyres \<Rightarrow> world \<Rightarrow> bool" where
  "opened_ok q w r w' \<longleftrightarrow> env w' = env w \<and>
    (case r of Inl e \<Rightarrow> balance (nsem_delta q) w' = balance (nsem_delta q) w \<and> balance (heap_delta q) w' = balance (heap_delta q) w
     | Inr ob \<Rightarrow> nsem_ok ob \<and> nsem_check_open ob = None \<and>
         balance (nsem_delta q) w' = balance (nsem_delta q) w + nsem_holds q ob \<and>
         balance (heap_delta q) w' = balance (heap_delta q) w + name_holds q ob)"

lemma opened_okI:
  assumes e: "errno_set w" and c: "HAVE_SEM_OPEN c" and v: "posixipc_nsem_validate_name c (Some name) = 0"
    and o: "cl = Sem (Sem_open name fl m)"
    and r: "run (do {
       (rc, s) \<leftarrow> allow_threads (do {
          a \<leftarrow> call cl;
          if a_ret a < 0 then ret (a_errno a, Some None) else ret (0, Some (Some (nat (a_ret a)))) });
       if rc \<noteq> 0 then ret (Inl (raise_err rc)) else nsem_from_sem c (the s) name }) w = (r, w')"
  shows "opened_ok q w r w'"
proof (cases "a_ret (answer_to (after w (Py SaveThread)) cl) < 0")
  case True
  moreover have "0 < a_errno (answer_to (after w (Py SaveThread)) cl)" using True e by (intro errno_setD) simp_all
  ultimately show ?thesis using r o by (auto simp: opened_ok_def run_bind run_ret run_call run_allow_threads)
next
  case False
  let ?p = "nat (a_ret (answer_to (after w (Py SaveThread)) cl))"
  let ?w = "after (after (after w (Py SaveThread)) cl) (Py RestoreThread)"
  from False r have f: "run (nsem_from_sem c (Some ?p) name) ?w = (r, w')"
    by (simp add: run_bind run_ret run_call run_allow_threads)
  from nsem_from_sem_post [OF c f, of q] False o show ?thesis
    by (auto simp: opened_ok_def nsem_holds_def nsem_open_at_def split: sum.splits)
qed

lemma opened_ok_step: "env w1 = env w \<Longrightarrow> (\<And>\<delta>. lock_like \<delta> \<Longrightarrow> balance \<delta> w1 = balance \<delta> w) \<Longrightarrow> opened_ok q w1 r w' \<Longrightarrow> opened_ok q w r w'"
  by (simp add: opened_ok_def lock_like_nsem lock_like_heap split: sum.splits)

lemma opened_ok_raise: "env w1 = env w \<Longrightarrow> (\<And>\<delta>. lock_like \<delta> \<Longrightarrow> balance \<delta> w1 = balance \<delta> w) \<Longrightarrow> opened_ok q w (Inl e) w1"
  by (simp add: opened_ok_def lock_like_nsem lock_like_heap)

lemma nsem_opened:
  assumes e: "errno_set w" and c: "HAVE_SEM_OPEN c"
    and body: "body = (if posixipc_nsem_validate_name c (Some name) \<noteq> 0 then ret (posixipc_nsem_validate_name c (Some name), Some None)
       else do {
          a \<leftarrow> call (Sem (Sem_open name fl m));
          if a_ret a < 0 then ret (a_errno a, Some None) else ret (0, Some (Some (nat (a_ret a)))) })"
    and r: "run (do {
       st \<leftarrow> posixipc_state_from_type;
       case st of Some e \<Rightarrow> ret (Inl e) | None \<Rightarrow> do {
         p \<leftarrow> call (Py (ParseTuple fmt));
         if a_ret p = 0 then ret (Inl Pending)
         else if bad then ret (Inl ValueError)
         else do {
           (rc, s) \<leftarrow> allow_threads body;
           if rc \<noteq> 0 then ret (Inl (raise_err rc)) else nsem_from_sem c (the s) name } } }) w = (r, w')"
  shows "opened_ok q w r w'"
proof -
  obtain st w1 where st: "run posixipc_state_from_type w = (st, w1)" by fastforce
  have k: "keeps \<delta> posixipc_state_from_type" if "lock_like \<delta>" for \<delta> using keeps_state_from [OF that] by (simp add: posixipc_state_from_obj_def)
  let ?w2 = "after w1 (Py (ParseTuple fmt))"
  have e1: "env w1 = env w" "\<And>\<delta>. lock_like \<delta> \<Longrightarrow> balance \<delta> w1 = balance \<delta> w"
    using keepsD [OF k st] lock_like_zero by blast+
  have e2: "env ?w2 = env w" "\<And>\<delta>. lock_like \<delta> \<Longrightarrow> balance \<delta> ?w2 = balance \<delta> w"
    using e1 by (auto simp: lock_likeD)
  have es: "errno_set ?w2" using e e1 by (simp add: errno_set_def)
  consider (early) e' where "r = Inl e'" "env w' = env w" "\<And>\<delta>. lock_like \<delta> \<Longrightarrow> balance \<delta> w' = balance \<delta> w"
    | (opens) "posixipc_nsem_validate_name c (Some name) = 0" "run (do {
       (rc, s) \<leftarrow> allow_threads (do {
          a \<leftarrow> call (Sem (Sem_open name fl m));
          if a_ret a < 0 then ret (a_errno a, Some None) else ret (0, Some (Some (nat (a_ret a)))) });
       if rc \<noteq> 0 then ret (Inl (raise_err rc)) else nsem_from_sem c (the s) name }) ?w2 = (r, w')"
    using r st e1 e2 body
    by (cases st) (auto simp: run_bind [of posixipc_state_from_type] run_bind [of "call _"] run_call run_ret run_if
      run_bind [of "allow_threads (ret _)"] run_allow_threads lock_likeD split: if_splits)
  then show ?thesis
  proof cases
    case early
    then show ?thesis by (auto intro: opened_ok_raise)
  next
    case opens
    from opened_okI [OF es c opens(1) refl opens(2)] e2 show ?thesis by (rule opened_ok_step [rotated 2]) auto
  qed
qed

lemma nsem_create_opened:
  assumes "errno_set w" and "HAVE_SEM_OPEN c" and "run (nsem_create c name val) w = (r, w')"
  shows "opened_ok q w r w'"
  by (rule nsem_opened [where fl = "[O_CREAT, O_EXCL]" and m = "Some (0x180, nat val)", OF assms(1,2) _ assms(3) [unfolded nsem_create_def]])
    (simp add: posixipc_nsem_create_def assms(2) Let_def)

lemma nsem_attach_opened:
  assumes "errno_set w" and "HAVE_SEM_OPEN c" and "run (nsem_attach c name) w = (r, w')"
  shows "opened_ok q w r w'"
  by (rule nsem_opened [where fl = "[]" and m = None and bad = False, simplified if_False, OF assms(1,2) _ assms(3) [unfolded nsem_attach_def]])
    (simp add: posixipc_nsem_attach_def assms(2) Let_def)

text \<open>
  A named semaphore is closed exactly once: an object from \<^verbatim>\<open>NamedSemaphore.create\<close> or \<^verbatim>\<open>attach\<close> holds one open
  semaphore and the memory of its name, a failing constructor holds nothing, also when the
  object or its name cannot be allocated; and whatever a client does with the object (acquire, release, unlink, close, any number of
  times), once it is destroyed everything it held has been given back once.
\<close>

theorem nsem_lifecycle:
  assumes "errno_set w" and "HAVE_SEM_OPEN c"
    and "run (if fresh then nsem_create c name val else nsem_attach c name) w = (r, w1)"
    and "run (case r of Inl e \<Rightarrow> ret () | Inr ob \<Rightarrow> do {
           ob \<leftarrow> nsem_client fl fuel c ops g ob; _ \<leftarrow> nsem_dealloc c ob; ret () }) w1 = (u, w2)"
  shows "(case r of Inl e \<Rightarrow> balance (nsem_delta q) w1 = balance (nsem_delta q) w
          | Inr ob \<Rightarrow> nsem_check_open ob = None \<and> balance (nsem_delta q) w1 = balance (nsem_delta q) w + (if ns_sem ob = Some q then 1 else 0)) \<and>
         balance (nsem_delta q) w2 = balance (nsem_delta q) w \<and> balance (heap_delta q) w2 = balance (heap_delta q) w"
proof -
  have o: "opened_ok q w r w1"
    using nsem_create_opened [OF assms(1,2)] nsem_attach_opened [OF assms(1,2)] assms(3) by (cases fresh) simp_all
  show ?thesis
  proof (cases r)
    case (Inl e)
    with o assms(4) show ?thesis by (simp add: opened_ok_def run_ret)
  next
    case (Inr ob)
    obtain ob' v where cl: "run (nsem_client fl fuel c ops g ob) w1 = (ob', v)" by fastforce
    obtain ob'' v' where d: "run (nsem_dealloc c ob') v = (ob'', v')" by fastforce
    have w2: "w2 = v'" using assms(4) Inr cl d by (simp add: run_bind run_ret)
    have "nsem_ok ob" using o Inr by (simp add: opened_ok_def)
    note p = nsem_client_post [OF assms(2) cl this, of q]
    then have "nsem_ok ob'" by simp
    from p nsem_dealloc_post(2,3) [OF assms(2) d this, of q] o Inr w2 show ?thesis
      by (simp add: opened_ok_def name_holds_def nsem_holds_def nsem_open_at_def)
  qed
qed

section \<open>Concrete runs\<close>

definition m3_handle :: "u32 \<Rightarrow> handle" where
  "m3_handle flags = \<lparr>x_region = None, x_slot = 0, x_kind = KIND_SPIN, x_align = 4, x_offset = 0, x_size = 4, x_init_flags = 0, x_flags = flags\<rparr>"

definition demo_spin :: PosixIPCSpinLockObject where
  "demo_spin = handle.extend (m3_handle FLAG_BOUND) (PosixIPCSpinLockObject.fields (Some 7) 7)"

definition demo_nsem :: PosixIPCNamedSemObject where
  "demo_nsem = \<lparr>ns_sem = Some 7, ns_name = Some (9, ''/s''), ns_flags = FLAG_BOUND\<rparr>"

lemmas demo_m3_defs = m3_handle_def demo_spin_def demo_nsem_def handle.defs PosixIPCSpinLockObject.defs flags_closed_def flag_set_def

theorem m3_acquire_contract_witness:
  "\<exists>w1 g2 w2. run (spin_acquire 1 glibc_x86_64 demo_spin [] []) py_world = (Returned (Inr True), w1) \<and> balance (spin_delta 7) w1 = 1 \<and>
     run (nsem_acquire (\<lambda>x. x) 1 clocksym0 demo_nsem [] []) py_world = ((Returned (Inr True), g2), w2) \<and> balance (sem_delta 7) w2 = 1"
proof -
  have "HAVE_PTHREAD_SPIN_TRYLOCK glibc_x86_64" by (simp add: glibc_x86_64_def)
  then obtain w1 where r1: "run (spin_acquire 1 glibc_x86_64 demo_spin [] []) py_world = (Returned (Inr True), w1)"
    by (simp add: spin_acquire_def spin_check_open_def posixipc_spin_trylock_def demo_m3_defs run_sync_defs answer_to_py answer0_def)
  obtain g2 w2 where r2: "run (nsem_acquire (\<lambda>x. x) 1 clocksym0 demo_nsem [] []) py_world = ((Returned (Inr True), g2), w2)"
    by (simp add: nsem_acquire_def nsem_check_open_def posixipc_sem_trywait_def demo_m3_defs run_sync_defs answer_to_py answer0_def)
  have "sp_lock demo_spin = Some 7" "ns_sem demo_nsem = Some 7" "balance (spin_delta 7) py_world = 0" "balance (sem_delta 7) py_world = 0"
    by (simp_all add: demo_m3_defs balance_def py_world_def)
  with m3_acquire_contract [OF py_clock r1 r2, of 7] r1 r2 show ?thesis by simp
qed

text \<open>A world in which the lock is busy for the first ten calls.\<close>

fun spin_answer :: "history \<Rightarrow> syscall \<Rightarrow> answer" where
  "spin_answer h (SpinBarrier (Spin_trylock p)) = answer0\<lparr>a_ret := if length h < 10 then EBUSY else 0\<rparr>"
| "spin_answer h c = py_answer c"

definition spin_world :: world where
  "spin_world = \<lparr>env = spin_answer, trace = []\<rparr>"

theorem spin_acquire_returns_witness:
  "spin_frees (env spin_world) 7 10 \<and> \<not> spin_frees (env spin_world) 7 9 \<and>
   (\<exists>r w'. run (spin_acquire 11 glibc_x86_64 demo_spin [] []) spin_world = (Returned r, w'))"
proof -
  have f: "spin_frees (env spin_world) 7 10" by (simp add: spin_frees_def spin_world_def answer0_def)
  have "a_ret (env spin_world (replicate 9 undefined) (SpinBarrier (Spin_trylock 7))) = EBUSY" by (simp add: spin_world_def answer0_def)
  then have n: "\<not> spin_frees (env spin_world) 7 9" unfolding spin_frees_def by (metis length_replicate order_refl)
  have "sp_lock demo_spin = Some 7" by (simp add: demo_m3_defs)
  from spin_acquire_returns [OF f le_refl this, of glibc_x86_64 "[]" "[]"] f n show ?thesis by simp
qed

text \<open>A world that opens the semaphore at address 5 and allocates at address 9.\<close>

fun nsem_answer :: "syscall \<Rightarrow> answer" where
  "nsem_answer (Sem (Sem_open n fl m)) = answer0\<lparr>a_ret := 5\<rparr>"
| "nsem_answer (Malloc n) = answer0\<lparr>a_ret := 9\<rparr>"
| "nsem_answer (Py (ParseTuple f)) = answer0\<lparr>a_ret := 1\<rparr>"
| "nsem_answer c = answer0"

definition nsem_world :: world where
  "nsem_world = \<lparr>env = \<lambda>h. nsem_answer, trace = []\<rparr>"

lemma answer_to_nsem: "env w = env nsem_world \<Longrightarrow> answer_to w c = nsem_answer c"
  by (simp add: answer_to_def nsem_world_def)

lemma nsem_errno: "errno_set nsem_world"
proof -
  have "\<not> a_ret (nsem_answer c) < 0 \<and> (zero_or_fails c \<longrightarrow> a_ret (nsem_answer c) \<le> 0)" for c
    by (cases c rule: nsem_answer.cases) (simp_all add: answer0_def)
  then show ?thesis by (simp add: errno_set_def nsem_world_def)
qed

theorem nsem_lifecycle_witness:
  "\<exists>ob w1 u w2. run (nsem_create glibc_x86_64 ''/s'' 1) nsem_world = (Inr ob, w1) \<and> balance (nsem_delta 5) w1 = 1 \<and>
     run (do { ob \<leftarrow> nsem_client (\<lambda>x. x) 1 glibc_x86_64 [NClose, NUnlink, NClose] clocksym0 ob; _ \<leftarrow> nsem_dealloc glibc_x86_64 ob; ret () }) w1 = (u, w2) \<and>
     balance (nsem_delta 5) w2 = 0 \<and> balance (heap_delta 9) w2 = 0"
proof -
  have c: "HAVE_SEM_OPEN glibc_x86_64" by (simp add: glibc_x86_64_def)
  have v: "posixipc_nsem_validate_name glibc_x86_64 (Some ''/s'') = 0"
    by (simp add: posixipc_nsem_validate_name_def posixipc_shm_validate_name_def)
  obtain ob w1 where r: "run (nsem_create glibc_x86_64 ''/s'' 1) nsem_world = (Inr ob, w1)" and s: "ns_sem ob = Some 5"
    using c v by (simp add: nsem_create_def posixipc_nsem_create_def nsem_from_sem_def posixipc_state_from_type_def io_simps answer_to_nsem answer0_def)
  obtain u w2 where d: "run (do { ob \<leftarrow> nsem_client (\<lambda>x. x) 1 glibc_x86_64 [NClose, NUnlink, NClose] clocksym0 ob; _ \<leftarrow> nsem_dealloc glibc_x86_64 ob; ret () }) w1 = (u, w2)"
    by (metis surj_pair)
  have r': "run (if True then nsem_create glibc_x86_64 ''/s'' 1 else nsem_attach glibc_x86_64 ''/s'') nsem_world = (Inr ob, w1)" using r by simp
  have z: "balance (nsem_delta 5) nsem_world = 0" "balance (heap_delta 9) nsem_world = 0" by (simp_all add: balance_def nsem_world_def)
  have d': "run (case Inr ob of Inl e \<Rightarrow> ret () | Inr ob \<Rightarrow> do { ob \<leftarrow> nsem_client (\<lambda>x. x) 1 glibc_x86_64 [NClose, NUnlink, NClose] clocksym0 ob;
      _ \<leftarrow> nsem_dealloc glibc_x86_64 ob; ret () }) w1 = (u, w2)"
    using d by (simp only: sum.case)
  have "balance (nsem_delta 5) w1 = 1" "balance (nsem_delta 5) w2 = 0" "balance (heap_delta 9) w2 = 0"
    using nsem_lifecycle [OF nsem_errno c r' d', of 5] nsem_lifecycle [OF nsem_errno c r' d', of 9] s z by simp_all
  with r d show ?thesis by blast
qed

definition fresh_handles :: "any_handle list" where
  "fresh_handles = [RW fresh_rwlock, SP (demo_spin\<lparr>sp_lock := None, x_flags := FLAG_PROCESS_SHARED\<rparr>)]"

theorem handle_pins_counted_witness:
  "\<exists>hs' H' lost w'. run (run_handles (any_bind glibc_x86_64) (any_close glibc_x86_64) any_region
       [Bind 0 5 demo_slot 0, Bind 1 5 demo_slot 1, Bind 0 5 demo_slot 1, Close 0] fresh_handles demo_regions []) mapped_world = ((hs', H', lost), w') \<and>
     s_pins (H' 5) = of_nat (bound_count any_region 5 hs') + of_nat (count_list lost 5)"
proof -
  obtain hs' H' lost w' where r: "run (run_handles (any_bind glibc_x86_64) (any_close glibc_x86_64) any_region
      [Bind 0 5 demo_slot 0, Bind 1 5 demo_slot 1, Bind 0 5 demo_slot 1, Close 0] fresh_handles demo_regions []) mapped_world = ((hs', H', lost), w')"
    by (metis prod_cases4 surj_pair)
  have "bound_count any_region 5 fresh_handles = 0"
    by (simp add: bound_count_def fresh_handles_def fresh_rwlock_def demo_sync_defs demo_m3_defs)
  with handle_pins_counted [OF r, of 5] r show ?thesis by (auto simp: demo_regions_def demo_segment_def)
qed

end
