(* ===== verification/Gil.thy ===== *)
theory Gil
  imports QueueObj M3Obj
begin

text \<open>
  The interpreter lock. The bindings give it up around calls that may block
  (\<^verbatim>\<open>Py_BEGIN_ALLOW_THREADS\<close>) and must hold it for every call of the Python API. A trace keeps this
  discipline when no call that may block is made with the lock, no call of the interpreter
  without it, and the two macros alternate. The rules follow the monad; the lemmas show the
  discipline for locks, queues and segments; \<^verbatim>\<open>GilOps\<close> has the other types and the theorem.
\<close>

section \<open>The discipline\<close>

text \<open>Calls that may wait for another thread or process, or sleep.\<close>

fun may_block :: "syscall \<Rightarrow> bool" where
  "may_block (Mutex (Mutex_lock p)) = True"
| "may_block (Mutex (Mutex_clocklock p c ts)) = True"
| "may_block (Mutex (Mutex_timedlock p ts)) = True"
| "may_block (Rwlock (Rwlock_rdlock p)) = True"
| "may_block (Rwlock (Rwlock_wrlock p)) = True"
| "may_block (Rwlock (Rwlock_clockrdlock p c ts)) = True"
| "may_block (Rwlock (Rwlock_clockwrlock p c ts)) = True"
| "may_block (Rwlock (Rwlock_timedrdlock p ts)) = True"
| "may_block (Rwlock (Rwlock_timedwrlock p ts)) = True"
| "may_block (Cond (Cond_wait p q)) = True"
| "may_block (Cond (Cond_timedwait p q ts)) = True"
| "may_block (Sem (Sem_wait p)) = True"
| "may_block (Sem (Sem_clockwait p c ts)) = True"
| "may_block (Sem (Sem_timedwait p ts)) = True"
| "may_block (SpinBarrier (Barrier_wait p)) = True"
| "may_block (SpinBarrier Sched_yield) = True"
| "may_block (Mq (Mq_send q b n)) = True"
| "may_block (Mq (Mq_timedsend q b n ts)) = True"
| "may_block (Mq (Mq_receive q n)) = True"
| "may_block (Mq (Mq_timedreceive q n ts)) = True"
| "may_block (Linux (Futex_wait_bitset p b v ts)) = True"
| "may_block (Linux (Read_u64 f)) = True"
| "may_block (Linux (Write_u64 f x)) = True"
| "may_block (Nanosleep t) = True"
| "may_block _ = False"

fun native :: "syscall \<Rightarrow> bool" where
  "native (Py c) = False"
| "native _ = True"

text \<open>
  The trace from a state in which the lock is held or not: the state at its end, or \<^const>\<open>None\<close> when
  the discipline was broken.
\<close>

fun gil_run :: "bool \<Rightarrow> history \<Rightarrow> bool option" where
  "gil_run held [] = Some held"
| "gil_run held ((Py SaveThread, a) # t) = (if held then gil_run False t else None)"
| "gil_run held ((Py RestoreThread, a) # t) = (if held then None else gil_run True t)"
| "gil_run held ((c, a) # t) = (if (if held then may_block c else \<not> native c) then None else gil_run held t)"

lemma gil_run_append: "gil_run h (s @ t) = (case gil_run h s of None \<Rightarrow> None | Some h' \<Rightarrow> gil_run h' t)"
  by (induction h s rule: gil_run.induct) simp_all

lemma gil_run_native: "\<forall>x \<in> set t. native (fst x) \<Longrightarrow> gil_run False t = Some False"
  by (induction False t rule: gil_run.induct) simp_all

text \<open>Called with the lock held, the computation keeps the discipline and returns with the lock held.\<close>

definition polite :: "'a io \<Rightarrow> bool" where
  "polite m \<longleftrightarrow> (\<forall>w. \<exists>t. trace (snd (run m w)) = trace w @ t \<and> gil_run True t = Some True)"

lemma polite_ret: "polite (ret x)"
  by (simp add: polite_def run_ret)

lemma polite_bind:
  assumes m: "polite m" and f: "\<And>x. polite (f x)"
  shows "polite (m \<bind> f)"
  unfolding polite_def
proof
  fix w
  obtain x w1 where r: "run m w = (x, w1)" by fastforce
  obtain t1 where t1: "trace w1 = trace w @ t1" "gil_run True t1 = Some True" using m r unfolding polite_def by (metis snd_conv)
  obtain t2 where t2: "trace (snd (run (f x) w1)) = trace w1 @ t2" "gil_run True t2 = Some True" using f [of x] unfolding polite_def by blast
  show "\<exists>t. trace (snd (run (m \<bind> f) w)) = trace w @ t \<and> gil_run True t = Some True"
    using t1 t2 r by (intro exI [of _ "t1 @ t2"]) (simp add: run_bind gil_run_append)
qed

lemma polite_if: "polite m \<Longrightarrow> polite m' \<Longrightarrow> polite (if b then m else m')"
  by simp

lemma polite_let: "polite (f x) \<Longrightarrow> polite (Let x f)"
  by simp

lemma polite_option: "polite m \<Longrightarrow> (\<And>y. polite (f y)) \<Longrightarrow> polite (case x of None \<Rightarrow> m | Some y \<Rightarrow> f y)"
  by (cases x) simp_all

lemma polite_sum: "(\<And>y. polite (g y)) \<Longrightarrow> (\<And>y. polite (f y)) \<Longrightarrow> polite (case x of Inl y \<Rightarrow> g y | Inr y \<Rightarrow> f y)"
  by (cases x) simp_all

lemma polite_prod: "(\<And>a b. polite (f a b)) \<Longrightarrow> polite (case p of (a, b) \<Rightarrow> f a b)"
  by (cases p) simp

lemma polite_list: "polite m \<Longrightarrow> (\<And>y ys. polite (f y ys)) \<Longrightarrow> polite (case xs of [] \<Rightarrow> m | y # ys \<Rightarrow> f y ys)"
  by (cases xs) simp_all

lemma polite_outcome:
  "(\<And>y. polite (f y)) \<Longrightarrow> polite m \<Longrightarrow> polite m' \<Longrightarrow> polite (case x of Returned y \<Rightarrow> f y | Undefined \<Rightarrow> m | Unfinished \<Rightarrow> m')"
  by (cases x) simp_all

text \<open>A call that neither blocks nor changes the state of the lock.\<close>

definition plain :: "syscall \<Rightarrow> bool" where
  "plain c \<longleftrightarrow> \<not> may_block c \<and> c \<noteq> Py SaveThread \<and> c \<noteq> Py RestoreThread"

lemma gil_run_plain: "plain c \<Longrightarrow> gil_run True ((c, a) # t) = gil_run True t"
  by (cases "(True, (c, a) # t)" rule: gil_run.cases) (auto simp: plain_def)

lemma polite_call: "plain c \<Longrightarrow> polite (call c)"
  and polite_call_ignore: "plain c \<Longrightarrow> polite (call_ignore c)"
  and polite_call_rc: "plain c \<Longrightarrow> polite (call_rc c)"
  and polite_call_errno: "plain c \<Longrightarrow> polite (call_errno c)"
  by (simp_all add: polite_def run_call run_call_ignore run_call_rc run_call_errno gil_run_plain)

text \<open>What runs between the two macros may block, and must not call the interpreter.\<close>

lemma polite_allow_threads: "only native m \<Longrightarrow> polite (allow_threads m)"
  unfolding polite_def
proof
  fix w
  assume m: "only native m"
  obtain x w1 where r: "run m (after w (Py SaveThread)) = (x, w1)" by fastforce
  obtain t where t: "trace w1 = trace (after w (Py SaveThread)) @ t" "\<forall>x \<in> set t. native (fst x)"
    using only_run [OF m r] by blast
  show "\<exists>t. trace (snd (run (allow_threads m) w)) = trace w @ t \<and> gil_run True t = Some True"
    using r t
    by (intro exI [of _ "(Py SaveThread, answer_to w (Py SaveThread)) # t @ [(Py RestoreThread, answer_to w1 (Py RestoreThread))]"])
      (simp add: run_allow_threads gil_run_append gil_run_native)
qed

lemmas polite_rules = polite_ret polite_bind polite_if polite_let polite_option polite_sum polite_prod polite_list polite_outcome
  polite_call polite_call_ignore polite_call_rc polite_call_errno

lemma plain_simps [simp]:
  "c \<noteq> SaveThread \<Longrightarrow> c \<noteq> RestoreThread \<Longrightarrow> plain (Py c)" "plain (Clock_gettime clk)" "plain (Dlsym s)" "plain (Mem mc)"
  "plain (Mutex (Mutex_trylock p))" "plain (Mutex (Mutex_unlock p))" "plain (Mutex (Mutex_consistent p))"
  "plain (Mutex (Mutex_destroy p))" "plain (Cond (Cond_signal p))" "plain (Cond (Cond_broadcast p))"
  "plain (Rwlock (Rwlock_tryrdlock p))" "plain (Rwlock (Rwlock_trywrlock p))" "plain (Sem (Sem_trywait p))"
  "plain (Sem (Sem_post p))" "plain (SpinBarrier (Spin_trylock p))" "plain (Munmap a n)" "plain (Free b)" "plain (Malloc n)"
  "plain (Shm_unlink nm)" "plain (Sem (Sem_close p))"
  by (simp_all add: plain_def)

section \<open>Shared parts\<close>

lemma polite_state: "polite posixipc_state_from_obj" "polite posixipc_state_from_type"
  unfolding posixipc_state_from_obj_def posixipc_state_from_type_def by (intro polite_rules; simp)+

lemma polite_keywords: "polite (parse_keywords nargs kws tobj bl it)"
proof (induction kws arbitrary: tobj bl it)
  case (Cons kw kws)
  obtain key val where "kw = (key, val)" by fastforce
  then show ?case by (simp only: parse_keywords.simps) (intro polite_rules Cons.IH; simp)
qed (simp add: polite_ret)

lemma polite_parse: "polite (posixipc_parse_acquire args kws)"
  unfolding posixipc_parse_acquire_def parse_timeout_def by (intro polite_rules polite_keywords; simp)

lemma polite_mutex_parse: "polite (mutex_parse m args kws)"
  unfolding mutex_parse_def parse_timeout_def by (intro polite_rules polite_keywords; simp)

lemma polite_time:
  "polite (posixipc_now clk t)" "polite (posixipc_deadline_expired d)" "polite (posixipc_deadline_from_seconds fl clk q out)"
  unfolding posixipc_now_def posixipc_deadline_expired_def posixipc_deadline_from_seconds_def
  by (intro polite_rules; simp)+

lemma polite_clocks:
  "polite (posixipc_clocksym_init g)" "polite (posixipc_mutex_clock g)" "polite (posixipc_rwlock_clock g)" "polite (posixipc_sem_clock g)"
  unfolding posixipc_mutex_clock_def posixipc_rwlock_clock_def posixipc_sem_clock_def posixipc_have_mutex_clocklock_def
    posixipc_have_rwlock_clocklock_def posixipc_have_sem_clockwait_def posixipc_clocksym_init_def dlsym_def
  by (intro polite_rules; simp)+

lemma polite_user_deadline: "(\<And>g. polite (clock g)) \<Longrightarrow> polite (user_deadline fl clock opts g)"
  unfolding user_deadline_def by (intro polite_rules polite_time)

lemma polite_wait_loop:
  assumes "\<And>s d. only native (fn s d)"
  shows "polite (wait_loop n fn user clk s)"
proof (induction n arbitrary: s)
  case (Suc n)
  show ?case
    unfolding wait_loop.simps by (intro polite_rules polite_time polite_allow_threads assms Suc.IH) simp
qed (simp add: polite_ret)

lemma polite_blocking_wait: "(\<And>s d. only native (fn s d)) \<Longrightarrow> polite (posixipc_blocking_wait fuel fn user intr clk s)"
  unfolding posixipc_blocking_wait_def by (intro polite_rules polite_allow_threads polite_wait_loop)

section \<open>Native code\<close>

lemma only_loop_end:
  "only Q m \<Longrightarrow> (\<And>rc. only Q (f rc)) \<Longrightarrow> only Q m' \<Longrightarrow> only Q (case x of Break \<Rightarrow> m | Fail rc \<Rightarrow> f rc | No_fuel \<Rightarrow> m')"
  by (cases x) simp_all

lemmas native_rules = only_rules only_sum only_call_rc only_call_errno only_loop_end

lemma native_locks:
  "only native (posixipc_mutex_lock lo)" "only native (posixipc_mutex_unlock lo)" "only native (posixipc_mutex_consistent lo)"
  "only native (posixipc_rwlock_rdlock lo)" "only native (posixipc_rwlock_wrlock lo)" "only native (posixipc_cond_wait cv lo)"
  "only native (posixipc_cond_broadcast cv)" "only native (posixipc_sem_wait lo)" "only native (posixipc_barrier_wait c lo)"
  "only native (spin_turn c lo)"
  unfolding posixipc_mutex_lock_def posixipc_mutex_unlock_def posixipc_mutex_consistent_def posixipc_rwlock_rdlock_def
    posixipc_rwlock_wrlock_def posixipc_cond_wait_def posixipc_cond_broadcast_def posixipc_sem_wait_def posixipc_barrier_wait_def
    spin_turn_def posixipc_spin_trylock_def
  by (intro native_rules; simp)+

lemma native_clocksym: "only native (posixipc_clocksym_init g)"
  unfolding posixipc_clocksym_init_def dlsym_def by (intro native_rules) simp_all

lemma native_callbacks:
  "only native (mutex_lock_until_cb lo g d)" "only native (rd_until_cb lo g d)" "only native (wr_until_cb lo g d)"
  "only native (cond_until_cb cv lo u d)"
  unfolding mutex_lock_until_cb_def posixipc_mutex_lock_until_def posixipc_mutex_clocklock_def posixipc_have_mutex_clocklock_def
    rd_until_cb_def wr_until_cb_def posixipc_rwlock_rdlock_until_def posixipc_rwlock_wrlock_until_def posixipc_rwlock_clockrdlock_def
    posixipc_rwlock_clockwrlock_def posixipc_have_rwlock_clocklock_def cond_until_cb_def posixipc_cond_wait_until_def prod.case
  by (intro native_rules native_clocksym; simp)+

lemma native_sem_until: "only native (sem_until_cb lo g d)"
  unfolding sem_until_cb_def posixipc_sem_wait_until_def posixipc_sem_clockwait_def posixipc_have_sem_clockwait_def prod.case
  by (intro native_rules native_clocksym) (auto intro!: native_rules split: prod.split)

lemma native_queue_lock: "only native (queue_lock others q lo m)"
proof -
  have "only native (meanwhile others m)" for m by (simp add: only_def meanwhile_def run_def)
  then show ?thesis unfolding queue_lock_def queue_repair_def by (intro native_rules native_locks)
qed

lemma native_queue_wait:
  "only native (queue_cond_until_cb others cv lo m d)"
  "only native (do { rc \<leftarrow> posixipc_cond_wait cv lo; m \<leftarrow> meanwhile others m; ret (rc, m) })"
proof -
  have "only native (meanwhile others m)" for m by (simp add: only_def meanwhile_def run_def)
  then show "only native (queue_cond_until_cb others cv lo m d)"
    and "only native (do { rc \<leftarrow> posixipc_cond_wait cv lo; m \<leftarrow> meanwhile others m; ret (rc, m) })"
    unfolding queue_cond_until_cb_def posixipc_cond_wait_until_def prod.case by (intro native_rules native_locks; simp)+
qed

lemma native_nsem: "only native (posixipc_nsem_create c nm val out)" "only native (posixipc_nsem_attach c nm out)"
  unfolding posixipc_nsem_create_def posixipc_nsem_attach_def by (intro native_rules; simp)+

text \<open>The core functions of segments, with their polling loops.\<close>

lemma native_time: "only native (posixipc_deadline_expired d)"
  by (rule only_expired) simp

lemma native_stat: "only native (posixipc_shm_stat_permitted st)"
  unfolding posixipc_shm_stat_permitted_def by (intro native_rules; simp)

lemma native_sleep: "only native (sleep_backoff b)"
  unfolding sleep_backoff_def by (intro native_rules; simp)

lemma native_size_loop: "only native (size_loop n d fd b)"
proof (induction n arbitrary: b)
  case (Suc n)
  show ?case unfolding size_loop.simps by (intro native_rules native_time native_stat native_sleep Suc.IH) simp
qed (simp add: only_ret)

lemma native_state_loop: "only native (state_loop n d win b)"
proof (induction n arbitrary: b)
  case (Suc n)
  show ?case unfolding state_loop.simps by (intro native_rules native_time native_sleep Suc.IH) simp
qed (simp add: only_ret)

lemma native_attach: "only native (posixipc_shm_attach c fuel nm expect dl out)"
  unfolding posixipc_shm_attach_def attach_ready_def attach_map_def attach_fail_def compare_expect_def dup_name_def
  by (intro native_rules native_size_loop native_state_loop; simp)

lemma native_create: "only native (posixipc_shm_create c nm expect out)"
  unfolding posixipc_shm_create_def create_mapped_def create_fail_def write_directory_def dup_name_def prod.case
  by (intro native_rules native_stat; simp)

lemma native_open_or_create: "only native (posixipc_shm_open_or_create c fuel nm expect dl out)"
proof -
  have "only native (open_or_create_loop n c fuel nm expect dl out)" for n
  proof (induction n arbitrary: out)
    case (Suc n)
    show ?case unfolding open_or_create_loop.simps by (intro native_rules native_create native_attach Suc.IH)
  qed (simp add: only_ret)
  then show ?thesis by (simp add: posixipc_shm_open_or_create_def)
qed

section \<open>The operations\<close>

lemma polite_prims:
  "polite (posixipc_mutex_trylock lo)" "polite (posixipc_mutex_unlock lo)" "polite (posixipc_mutex_consistent lo)"
  "polite (posixipc_rwlock_tryrdlock lo)" "polite (posixipc_rwlock_trywrlock lo)" "polite (posixipc_cond_signal cv)"
  "polite (posixipc_cond_broadcast cv)" "polite (posixipc_sem_trywait lo)" "polite (posixipc_sem_post lo)" "polite (posixipc_spin_trylock c lo)"
  unfolding posixipc_mutex_trylock_def posixipc_mutex_unlock_def posixipc_mutex_consistent_def posixipc_rwlock_tryrdlock_def
    posixipc_rwlock_trywrlock_def posixipc_cond_signal_def posixipc_cond_broadcast_def posixipc_sem_trywait_def posixipc_sem_post_def
    posixipc_spin_trylock_def
  by (intro polite_rules; simp)+

lemma polite_after_lock: "polite (posixipc_mutex_after_lock m rc)"
  unfolding posixipc_mutex_after_lock_def by (intro polite_rules polite_prims polite_state; simp)

lemma polite_mutex: "polite (mutex_acquire fl fuel g m args kws)"
  unfolding mutex_acquire_def mutex_block_def
  by (intro polite_rules polite_prims polite_state polite_after_lock polite_mutex_parse polite_time polite_clocks
      polite_allow_threads polite_blocking_wait native_locks native_callbacks)

lemma polite_rwlock: "polite (rwlock_acquire_read fl fuel g ob args kws)" "polite (rwlock_acquire_write fl fuel g ob args kws)"
  unfolding rwlock_acquire_read_def rwlock_acquire_write_def rwlock_acquire_mode_def
  by (intro polite_rules polite_prims polite_state polite_parse polite_user_deadline polite_clocks polite_allow_threads
      polite_blocking_wait only_if native_locks; simp add: native_callbacks)+

lemma polite_cond: "polite (cond_wait fl fuel ob M args kws)"
  unfolding cond_wait_def cond_block_def
  by (intro polite_rules polite_prims polite_state polite_parse polite_time polite_after_lock polite_allow_threads
      polite_blocking_wait native_locks native_callbacks)

lemma polite_sem: "polite (sem_acquire fl fuel g ob args kws)"
  unfolding sem_acquire_def
  by (intro polite_rules polite_prims polite_state polite_parse polite_user_deadline polite_clocks polite_allow_threads
      polite_blocking_wait native_locks native_sem_until)

lemma polite_nsem: "polite (nsem_acquire fl fuel g ns args kws)"
  unfolding nsem_acquire_def nsem_until_same
  by (intro polite_rules polite_prims polite_state polite_parse polite_user_deadline polite_clocks polite_blocking_wait native_sem_until)

lemma polite_spin: "polite (spin_acquire fuel c sp args kws)"
proof -
  have "polite (spin_loop n c lo intr)" for n lo intr
  proof (induction n)
    case (Suc n)
    show ?case unfolding spin_loop.simps by (intro polite_rules polite_allow_threads native_locks Suc.IH) simp
  qed (simp add: polite_ret)
  then show ?thesis unfolding spin_acquire_def by (intro polite_rules polite_prims polite_state polite_parse)
qed

lemma polite_barrier: "polite (bar_wait c ob)"
  unfolding bar_wait_def by (intro polite_rules polite_state polite_allow_threads native_locks)

lemma polite_queue_sleep: "polite (queue_sleep others fuel cv lo opts user clk m)"
  unfolding queue_sleep_def by (intro polite_rules polite_allow_threads polite_blocking_wait native_queue_wait)

lemma polite_queue_await: "polite (queue_await n others fl fuel q ready cv opts m)"
proof (induction n arbitrary: m)
  case (Suc n)
  show ?case
    unfolding queue_await.simps queue_wait_cond_def queue_repair_def
    by (intro polite_rules polite_prims polite_time polite_queue_sleep Suc.IH)
qed (simp add: polite_ret)

lemma polite_queue: "polite (queue_put others fl fuel q args kws m)" "polite (queue_get others fl fuel q args kws m)"
  unfolding queue_put_def queue_get_def put_locked_def get_locked_def
  by (intro polite_rules polite_prims polite_state polite_parse polite_allow_threads native_queue_lock polite_queue_await; simp)+

lemma polite_timeout: "(\<And>d. polite (body d)) \<Longrightarrow> polite (with_timeout fl tobj body)"
  unfolding with_timeout_def timeout_or_default_def deadline_from_timeout_def parse_timeout_seconds_def
  by (intro polite_rules polite_time; simp)

lemma polite_made: "polite (posixipc_shmobj_from_core core made)" "polite (publish_or_undo name core made)"
  unfolding publish_or_undo_def posixipc_shmobj_from_core_def posixipc_shm_publish_def posixipc_shm_mark_broken_def
    posixipc_shm_close_def posixipc_shm_unlink_def
  by (intro polite_rules; simp)+

lemma polite_segments:
  "polite (shm_create c name sz)" "polite (shm_attach_unchecked c fl fuel name tobj)" "polite (shm_open_or_create c fl fuel name sz tobj)"
  unfolding shm_create_def shm_attach_unchecked_def shm_open_or_create_def
  by (intro polite_rules polite_state polite_allow_threads polite_timeout polite_made native_create native_attach native_open_or_create; simp)+

text \<open>The calls a run adds to the trace keep the discipline.\<close>

definition gil_kept :: "'a io \<Rightarrow> world \<Rightarrow> bool" where
  "gil_kept m w \<longleftrightarrow> gil_run True (drop (length (trace w)) (trace (snd (run m w)))) = Some True"

lemma polite_kept: "polite m \<Longrightarrow> gil_kept m w"
  unfolding polite_def gil_kept_def by (metis append_eq_conv_conj)

end
