(* ===== verification/ArrayObj.thy ===== *)
theory ArrayObj
  imports M3Obj QueueObj
begin

text \<open>
  Arrays of mutexes and their items (\<^verbatim>\<open>src/src/bindings/py_array.c\<close>): the array holds one pin and a block of
  pointers to the mutexes of consecutive slots; an item names one of them and remembers whether it was locked
  through it. The lemmas show that an item behaves exactly as a mutex object on the same lock, that
  acquiring through the array or an item takes the lock exactly when it returns True, and that
  the pointer block always has the length the index checks assume.
\<close>

section \<open>Objects\<close>

text \<open>\<open>ar_locks\<close> is the address of the block with the pointers in it.\<close>

record PosixIPCMutexArrayObject =
  ar_locks :: "(addr \<times> addr option list) option"
  ar_count :: u32
  ar_first_slot :: u32
  ar_kind :: u16
  ar_align :: u16
  ar_offset :: u32
  ar_size :: u32
  ar_init_flags :: u32
  ar_region :: "addr option"
  ar_on_owner_died :: "pyobj option"
  ar_flags :: u32

record PosixIPCMutexArrayItemObject =
  it_array :: "addr option"
  it_index :: u32
  it_locked :: bool

type_synonym arrays = "addr \<Rightarrow> PosixIPCMutexArrayObject"

definition array_is_closed :: "PosixIPCMutexArrayObject \<Rightarrow> bool" where
  "array_is_closed a \<longleftrightarrow> flag_set (ar_flags a) FLAG_CLOSED"

definition array_check_open :: "PosixIPCMutexArrayObject \<Rightarrow> pyexc option" where
  "array_check_open a =
     (if flag_set (ar_flags a) FLAG_CLOSED then Some posixipc_raise_closed
      else if \<not> flag_set (ar_flags a) FLAG_BOUND \<or> ar_locks a = None \<or> ar_region a = None then Some posixipc_raise_unbound
      else None)"

text \<open>\<^verbatim>\<open>a->locks[index]\<close>; \<^const>\<open>None\<close> when this reads through NULL or outside the block.\<close>

definition lock_at :: "PosixIPCMutexArrayObject \<Rightarrow> u32 \<Rightarrow> addr option option" where
  "lock_at a index =
     (case ar_locks a of None \<Rightarrow> None | Some (_, ls) \<Rightarrow> if unat index < length ls then Some (ls ! unat index) else None)"

text \<open>\<open>self\<close> is the address of the array the item refers to.\<close>

definition array_item_new :: "addr \<Rightarrow> u32 \<Rightarrow> PosixIPCMutexArrayItemObject pyres io" where
  "array_item_new self index = do {
     st \<leftarrow> posixipc_state_from_obj;
     case st of Some e \<Rightarrow> ret (Inl e) | None \<Rightarrow> do {
       t \<leftarrow> call (Py Tp_alloc);
       ret (if a_ret t < 0 then Inl Pending else Inr \<lparr>it_array = Some self, it_index = index, it_locked = False\<rparr>) } }"

section \<open>Acquire and release\<close>

definition item_mark :: "PosixIPCMutexArrayItemObject option \<Rightarrow> PosixIPCMutexArrayItemObject option" where
  "item_mark item = map_option (\<lambda>it. it\<lparr>it_locked := True\<rparr>) item"

text \<open>
  The array is read again after the wait, when another thread may have closed it: \<open>a\<close> is the array at that moment.
  Without an item, the callback of a dead owner gets a new one.
\<close>

definition array_after_lock ::
    "addr \<Rightarrow> PosixIPCMutexArrayObject \<Rightarrow> u32 \<Rightarrow> rc \<Rightarrow> PosixIPCMutexArrayItemObject option \<Rightarrow>
     (bool pyres outcome \<times> PosixIPCMutexArrayItemObject option) io" where
  "array_after_lock self a index rc item = do {
     st \<leftarrow> posixipc_state_from_obj;
     case st of Some e \<Rightarrow> ret (Returned (Inl e), item) | None \<Rightarrow>
       case lock_at a index of None \<Rightarrow> ret (Undefined, item) | Some lock \<Rightarrow>
         if rc = 0 then ret (Returned (Inr True), item_mark item)
         else if rc = EOWNERDEAD then
           case ar_on_owner_died a of
             None \<Rightarrow> do {
               _ \<leftarrow> posixipc_mutex_unlock lock;
               ret (Returned (Inl TypeError), item) }
           | Some fn \<Rightarrow> do {
               cb \<leftarrow> (case item of Some it \<Rightarrow> ret (Inr it) | None \<Rightarrow> array_item_new self index);
               case cb of
                 Inl e \<Rightarrow> do {
                   _ \<leftarrow> posixipc_mutex_unlock lock;
                   ret (Returned (Inl e), item) }
               | Inr _ \<Rightarrow> do {
                   r \<leftarrow> call (Py (CallOneArg fn));
                   if a_ret r < 0 then do {
                     _ \<leftarrow> posixipc_mutex_unlock lock;
                     ret (Returned (Inl Pending), item) }
                   else do {
                     urc \<leftarrow> posixipc_mutex_consistent lock;
                     if urc \<noteq> 0 then do {
                       _ \<leftarrow> posixipc_mutex_unlock lock;
                       ret (Returned (Inl (raise_err urc)), item) }
                     else ret (Returned (Inr True), item_mark item) } } }
         else if rc = ENOTRECOVERABLE then ret (Returned (Inl NotRecoverableError), item)
         else if rc = ETIMEDOUT \<or> rc = EBUSY then ret (Returned (Inr False), item)
         else if rc = EDEADLK then ret (Returned (Inl RuntimeError), item)
         else ret (Returned (Inl (raise_err rc)), item) }"

definition array_lock_until_cb :: "addr option \<Rightarrow> clocksym waitfn" where
  "array_lock_until_cb arg = (\<lambda>g slice. posixipc_mutex_lock_until g arg (Some slice))"

definition array_block ::
    "(rat \<Rightarrow> rat) \<Rightarrow> nat \<Rightarrow> clocksym \<Rightarrow> addr \<Rightarrow> PosixIPCMutexArrayObject \<Rightarrow> addr option \<Rightarrow> u32 \<Rightarrow> posixipc_acquire_opts \<Rightarrow>
     PosixIPCMutexArrayItemObject option \<Rightarrow> (bool pyres outcome \<times> PosixIPCMutexArrayItemObject option \<times> clocksym) io" where
  "array_block fl fuel g self a lock index opts item = do {
     (d, g) \<leftarrow> (if timeout_none opts then ret (Some (0, None), g)
               else do {
                 (clk, g) \<leftarrow> posixipc_mutex_clock g;
                 d \<leftarrow> posixipc_deadline_from_seconds fl clk (timeout opts) (Some deadline0);
                 ret (d, g) });
     case d of None \<Rightarrow> ret (Undefined, item, g) | Some (rc, userp) \<Rightarrow>
       if rc \<noteq> 0 then ret (Returned (Inl (raise_err rc)), item, g)
       else if \<not> interruptible opts \<and> timeout_none opts then do {
         rc \<leftarrow> allow_threads (posixipc_mutex_lock lock);
         (r, item) \<leftarrow> array_after_lock self a index rc item;
         ret (r, item, g) }
       else do {
         (clk, g) \<leftarrow> posixipc_mutex_clock g;
         res \<leftarrow> posixipc_blocking_wait fuel (array_lock_until_cb lock) userp (interruptible opts) clk g;
         case res of None \<Rightarrow> ret (Unfinished, item, g) | Some (rc, g) \<Rightarrow> do {
           (r, item) \<leftarrow> array_after_lock self a index rc item;
           ret (r, item, g) } } }"

definition array_lock_index ::
    "(rat \<Rightarrow> rat) \<Rightarrow> nat \<Rightarrow> clocksym \<Rightarrow> addr \<Rightarrow> PosixIPCMutexArrayObject \<Rightarrow> u32 \<Rightarrow> posixipc_acquire_opts \<Rightarrow>
     PosixIPCMutexArrayItemObject option \<Rightarrow> (bool pyres outcome \<times> PosixIPCMutexArrayItemObject option \<times> clocksym) io" where
  "array_lock_index fl fuel g self a index opts item = do {
     st \<leftarrow> posixipc_state_from_obj;
     case st of Some e \<Rightarrow> ret (Returned (Inl e), item, g) | None \<Rightarrow>
       case array_check_open a of Some e \<Rightarrow> ret (Returned (Inl e), item, g) | None \<Rightarrow>
         if index \<ge> ar_count a then ret (Returned (Inl IndexError), item, g)
         else case lock_at a index of None \<Rightarrow> ret (Undefined, item, g) | Some lock \<Rightarrow> do {
           rc \<leftarrow> posixipc_mutex_trylock lock;
           if rc \<noteq> EBUSY then do {
             (r, item) \<leftarrow> array_after_lock self a index rc item;
             ret (r, item, g) }
           else if \<not> blocking opts \<or> (\<not> timeout_none opts \<and> timeout opts = Fin 0)
           then ret (Returned (Inr False), item, g)
           else array_block fl fuel g self a lock index opts item } }"

text \<open>The index of a call; its upper 32 bits are cut off.\<close>

definition array_parse_index :: "pyobj \<Rightarrow> u32 pyres io" where
  "array_parse_index ob = do {
     v \<leftarrow> call (Py (AsSsize ob));
     err \<leftarrow> (if a_ret v = - 1 then do { e \<leftarrow> call (Py Err_Occurred); ret (a_ret e \<noteq> 0) } else ret False);
     ret (if err then Inl Pending else if a_ret v < 0 then Inl IndexError else Inr (word_of_int (a_ret v))) }"

definition array_acquire ::
    "(rat \<Rightarrow> rat) \<Rightarrow> nat \<Rightarrow> clocksym \<Rightarrow> addr \<Rightarrow> PosixIPCMutexArrayObject \<Rightarrow> pyobj list \<Rightarrow> (string \<times> pyobj) list \<Rightarrow>
     (bool pyres outcome \<times> clocksym) io" where
  "array_acquire fl fuel g self a args kws =
     (case args of [] \<Rightarrow> ret (Returned (Inl TypeError), g) | idx # rest \<Rightarrow> do {
        i \<leftarrow> array_parse_index idx;
        case i of Inl e \<Rightarrow> ret (Returned (Inl e), g) | Inr index \<Rightarrow> do {
          p \<leftarrow> posixipc_parse_acquire rest kws;
          case p of Inl e \<Rightarrow> ret (Returned (Inl e), g) | Inr opts \<Rightarrow> do {
            (r, _, g) \<leftarrow> array_lock_index fl fuel g self a index opts None;
            ret (r, g) } } })"

definition array_release_index :: "PosixIPCMutexArrayObject \<Rightarrow> u32 \<Rightarrow> unit pyres outcome io" where
  "array_release_index a index = do {
     st \<leftarrow> posixipc_state_from_obj;
     case st of Some e \<Rightarrow> ret (Returned (Inl e)) | None \<Rightarrow>
       case array_check_open a of Some e \<Rightarrow> ret (Returned (Inl e)) | None \<Rightarrow>
         if index \<ge> ar_count a then ret (Returned (Inl IndexError))
         else case lock_at a index of None \<Rightarrow> ret Undefined | Some lock \<Rightarrow> do {
           rc \<leftarrow> posixipc_mutex_unlock lock;
           ret (Returned (if rc = EPERM then Inl RuntimeError else if rc \<noteq> 0 then Inl (raise_err rc) else Inr ())) } }"

text \<open>\<open>idx\<close> is the parsed argument.\<close>

definition array_release :: "PosixIPCMutexArrayObject \<Rightarrow> pyobj \<Rightarrow> unit pyres outcome io" where
  "array_release a idx = do {
     p \<leftarrow> call (Py (ParseTuple ''O:release''));
     if a_ret p = 0 then ret (Returned (Inl Pending))
     else do {
       i \<leftarrow> array_parse_index idx;
       case i of Inl e \<Rightarrow> ret (Returned (Inl e)) | Inr index \<Rightarrow> array_release_index a index } }"

definition array_as_capsule ::
    "PosixIPCMutexArrayObject \<Rightarrow> pyobj \<Rightarrow> regions \<Rightarrow> ((addr \<times> posixipc_mutex_capsule_impl) pyres outcome \<times> regions) io" where
  "array_as_capsule a idx H = do {
     st \<leftarrow> posixipc_state_from_obj;
     case st of Some e \<Rightarrow> ret (Returned (Inl e), H) | None \<Rightarrow>
       case array_check_open a of Some e \<Rightarrow> ret (Returned (Inl e), H) | None \<Rightarrow> do {
         p \<leftarrow> call (Py (ParseTuple ''O:as_capsule''));
         if a_ret p = 0 then ret (Returned (Inl Pending), H)
         else do {
           i \<leftarrow> array_parse_index idx;
           case i of Inl e \<Rightarrow> ret (Returned (Inl e), H) | Inr index \<Rightarrow>
             if index \<ge> ar_count a then ret (Returned (Inl IndexError), H)
             else case lock_at a index of None \<Rightarrow> ret (Undefined, H) | Some lock \<Rightarrow> do {
               (r, H) \<leftarrow> posixipc_mutex_capsule_new (ar_region a) lock H;
               ret (Returned r, H) } } } }"

section \<open>Closing, pickling, accessors\<close>

definition free_locks :: "(addr \<times> addr option list) option \<Rightarrow> unit io" where
  "free_locks ls = (case ls of None \<Rightarrow> ret () | Some (p, _) \<Rightarrow> call_ignore (Py (PyMem_Free p)))"

definition array_close :: "PosixIPCMutexArrayObject \<Rightarrow> regions \<Rightarrow> (PosixIPCMutexArrayObject \<times> regions) io" where
  "array_close a H =
     (if array_is_closed a then ret (a, H)
      else do {
        let (a, H) = (case ar_region a of None \<Rightarrow> (a, H) | Some r \<Rightarrow> (a\<lparr>ar_region := None\<rparr>, unpin_region H r));
        free_locks (ar_locks a);
        ret (a\<lparr>ar_locks := None, ar_flags := ar_flags a OR FLAG_CLOSED\<rparr>, H) })"

definition array_copy :: pyexc where
  "array_copy = TypeError"

text \<open>The arguments of \<^verbatim>\<open>_attach_array\<close>: name, first slot, count, kind, digest.\<close>

definition array_reduce :: "PosixIPCMutexArrayObject \<Rightarrow> regions \<Rightarrow> (string \<times> u32 \<times> u32 \<times> u16 \<times> u32) pyres io" where
  "array_reduce a H = do {
     st \<leftarrow> posixipc_state_from_obj;
     case st of Some e \<Rightarrow> ret (Inl e) | None \<Rightarrow>
       if array_is_closed a then ret (Inl posixipc_raise_closed)
       else if \<not> flag_set (ar_flags a) FLAG_PROCESS_SHARED \<or> \<not> flag_set (ar_flags a) FLAG_BOUND \<or> ar_region a = None
       then ret (Inl TypeError)
       else let core = s_core (H (the (ar_region a))) in
         case (sh_hdr core, sh_name core) of
           (Some p, Some (_, nm)) \<Rightarrow> do {
             h \<leftarrow> call (Mem (Load_header p));
             m \<leftarrow> call (Py Type_GetModule);
             if a_ret m < 0 then ret (Inl Pending)
             else do {
               f \<leftarrow> call (Py (GetAttr ''_attach_array''));
               if a_ret f < 0 then ret (Inl Pending)
               else do {
                 b \<leftarrow> call (Py (BuildValue ''(sIIII)''));
                 if a_ret b < 0 then ret (Inl Pending)
                 else do {
                   t \<leftarrow> call (Py TuplePack);
                   ret (if a_ret t < 0 then Inl Pending
                        else Inr (nm, ar_first_slot a, ar_count a, ar_kind a, h_layout_digest (a_hdr h))) } } } }
         | _ \<Rightarrow> ret (Inl posixipc_raise_closed) }"

definition array_len :: "PosixIPCMutexArrayObject \<Rightarrow> int" where
  "array_len a = uint (ar_count a)"

definition array_getitem :: "addr \<Rightarrow> PosixIPCMutexArrayObject \<Rightarrow> int \<Rightarrow> PosixIPCMutexArrayItemObject pyres io" where
  "array_getitem self a i = do {
     st \<leftarrow> posixipc_state_from_obj;
     case st of Some e \<Rightarrow> ret (Inl e) | None \<Rightarrow>
       case array_check_open a of Some e \<Rightarrow> ret (Inl e) | None \<Rightarrow>
         if i < 0 \<or> word_of_int i \<ge> ar_count a then ret (Inl IndexError)
         else array_item_new self (word_of_int i) }"

definition array_get_process_shared :: "PosixIPCMutexArrayObject \<Rightarrow> bool" where
  "array_get_process_shared a = flag_set (ar_flags a) FLAG_PROCESS_SHARED"

definition array_get_bound :: "PosixIPCMutexArrayObject \<Rightarrow> bool" where
  "array_get_bound a = flag_set (ar_flags a) FLAG_BOUND"

definition array_get_closed :: "PosixIPCMutexArrayObject \<Rightarrow> bool" where
  "array_get_closed a = array_is_closed a"

definition array_get_region :: "PosixIPCMutexArrayObject \<Rightarrow> pyobj" where
  "array_get_region a = (case ar_region a of None \<Rightarrow> Py_None | Some r \<Rightarrow> Obj r)"

definition array_get_slot :: "PosixIPCMutexArrayObject \<Rightarrow> nat pyres io" where
  "array_get_slot a = long_from (unat (ar_first_slot a))"

definition array_get_kind :: "PosixIPCMutexArrayObject \<Rightarrow> nat pyres io" where
  "array_get_kind a = long_from (unat (ar_kind a))"

definition array_get_digest :: "PosixIPCMutexArrayObject \<Rightarrow> regions \<Rightarrow> nat option pyres io" where
  "array_get_digest a H =
     (case ar_region a of None \<Rightarrow> ret (Inr None) | Some r \<Rightarrow>
      case sh_hdr (s_core (H r)) of None \<Rightarrow> ret (Inr None) | Some p \<Rightarrow> do {
        h \<leftarrow> call (Mem (Load_header p));
        n \<leftarrow> long_from (unat (h_layout_digest (a_hdr h)));
        ret (case n of Inl e \<Rightarrow> Inl e | Inr v \<Rightarrow> Inr (Some v)) })"

definition array_get_on_owner_died :: "PosixIPCMutexArrayObject \<Rightarrow> pyobj" where
  "array_get_on_owner_died a = (case ar_on_owner_died a of None \<Rightarrow> Py_None | Some f \<Rightarrow> f)"

definition array_set_on_owner_died ::
    "PosixIPCMutexArrayObject \<Rightarrow> pyobj option \<Rightarrow> (pyexc option \<times> PosixIPCMutexArrayObject) io" where
  "array_set_on_owner_died a v =
     (case v of None \<Rightarrow> ret (None, a\<lparr>ar_on_owner_died := None\<rparr>) | Some ob \<Rightarrow>
      if ob = Py_None then ret (None, a\<lparr>ar_on_owner_died := None\<rparr>)
      else do {
        t \<leftarrow> call (Py (Callable ob));
        if a_ret t = 0 then ret (Some TypeError, a)
        else ret (None, a\<lparr>ar_on_owner_died := Some ob\<rparr>) })"

definition array_clear :: "PosixIPCMutexArrayObject \<Rightarrow> PosixIPCMutexArrayObject" where
  "array_clear a = a\<lparr>ar_on_owner_died := None\<rparr>"

definition array_dealloc :: "PosixIPCMutexArrayObject \<Rightarrow> regions \<Rightarrow> (PosixIPCMutexArrayObject \<times> regions) io" where
  "array_dealloc a H = do {
     (a, H) \<leftarrow> (if \<not> array_is_closed a then array_close a H else ret (a, H));
     free_locks (ar_locks a);
     ret (a\<lparr>ar_on_owner_died := None, ar_region := None, ar_locks := None\<rparr>, H) }"

section \<open>Items\<close>

definition item_acquire ::
    "(rat \<Rightarrow> rat) \<Rightarrow> nat \<Rightarrow> clocksym \<Rightarrow> arrays \<Rightarrow> PosixIPCMutexArrayItemObject \<Rightarrow> pyobj list \<Rightarrow> (string \<times> pyobj) list \<Rightarrow>
     (bool pyres outcome \<times> PosixIPCMutexArrayItemObject \<times> clocksym) io" where
  "item_acquire fl fuel g A item args kws =
     (case it_array item of None \<Rightarrow> ret (Returned (Inl posixipc_raise_unbound), item, g) | Some p \<Rightarrow> do {
        o1 \<leftarrow> posixipc_parse_acquire args kws;
        case o1 of Inl e \<Rightarrow> ret (Returned (Inl e), item, g) | Inr opts \<Rightarrow> do {
          (r, item', g) \<leftarrow> array_lock_index fl fuel g p (A p) (it_index item) opts (Some item);
          ret (r, (case item' of Some it \<Rightarrow> it | None \<Rightarrow> item), g) } })"

definition item_release :: "arrays \<Rightarrow> PosixIPCMutexArrayItemObject \<Rightarrow> (unit pyres outcome \<times> PosixIPCMutexArrayItemObject) io" where
  "item_release A item =
     (case it_array item of None \<Rightarrow> ret (Returned (Inl posixipc_raise_unbound), item) | Some p \<Rightarrow> do {
        r \<leftarrow> array_release_index (A p) (it_index item);
        ret (r, if r = Returned (Inr ()) then item\<lparr>it_locked := False\<rparr> else item) })"

definition item_as_capsule ::
    "arrays \<Rightarrow> PosixIPCMutexArrayItemObject \<Rightarrow> regions \<Rightarrow> ((addr \<times> posixipc_mutex_capsule_impl) pyres outcome \<times> regions) io" where
  "item_as_capsule A item H = do {
     st \<leftarrow> posixipc_state_from_obj;
     case it_array item of None \<Rightarrow> ret (Returned (Inl posixipc_raise_unbound), H) | Some p \<Rightarrow>
       case st of Some e \<Rightarrow> ret (Returned (Inl e), H) | None \<Rightarrow>
         case array_check_open (A p) of Some e \<Rightarrow> ret (Returned (Inl e), H) | None \<Rightarrow>
           case lock_at (A p) (it_index item) of None \<Rightarrow> ret (Undefined, H) | Some lock \<Rightarrow> do {
             (r, H) \<leftarrow> posixipc_mutex_capsule_new (ar_region (A p)) lock H;
             ret (Returned r, H) } }"

definition item_enter ::
    "(rat \<Rightarrow> rat) \<Rightarrow> nat \<Rightarrow> clocksym \<Rightarrow> arrays \<Rightarrow> PosixIPCMutexArrayItemObject \<Rightarrow>
     (unit pyres outcome \<times> PosixIPCMutexArrayItemObject \<times> clocksym) io" where
  "item_enter fl fuel g A item = do {
     (ok, item, g) \<leftarrow> item_acquire fl fuel g A item [] [];
     ret (case ok of Returned (Inr True) \<Rightarrow> Returned (Inr ())
                   | Returned (Inr False) \<Rightarrow> Returned (Inl RuntimeError)
                   | Returned (Inl e) \<Rightarrow> Returned (Inl e)
                   | Undefined \<Rightarrow> Undefined | Unfinished \<Rightarrow> Unfinished, item, g) }"

definition item_exit :: "arrays \<Rightarrow> PosixIPCMutexArrayItemObject \<Rightarrow> (unit pyres outcome \<times> PosixIPCMutexArrayItemObject) io" where
  "item_exit A item = (if it_locked item then item_release A item else ret (Returned (Inr ()), item))"

definition item_get_index :: "PosixIPCMutexArrayItemObject \<Rightarrow> nat pyres io" where
  "item_get_index item = long_from (unat (it_index item))"

definition item_get_array :: "PosixIPCMutexArrayItemObject \<Rightarrow> pyobj" where
  "item_get_array item = (case it_array item of None \<Rightarrow> Py_None | Some p \<Rightarrow> Obj p)"

definition item_clear :: "PosixIPCMutexArrayItemObject \<Rightarrow> PosixIPCMutexArrayItemObject" where
  "item_clear item = item\<lparr>it_array := None\<rparr>"

section \<open>Construction and binding\<close>

definition posixipc_mutexarray_new_unbound ::
    "config \<Rightarrow> u16 \<Rightarrow> u32 \<Rightarrow> pyobj option \<Rightarrow> u32 \<Rightarrow> u32 \<Rightarrow> PosixIPCMutexArrayObject pyres io" where
  "posixipc_mutexarray_new_unbound c kind init_flags died first_slot count = do {
     t \<leftarrow> call (Py Tp_alloc);
     ret (if a_ret t < 0 then Inl Pending
          else Inr \<lparr>ar_locks = None, ar_count = count, ar_first_slot = first_slot, ar_kind = kind,
                    ar_align = ucast (posixipc_kind_align c kind), ar_offset = 0, ar_size = posixipc_kind_size c kind 0,
                    ar_init_flags = init_flags, ar_region = None, ar_on_owner_died = died,
                    ar_flags = init_flags AND NOT FLAG_BOUND\<rparr>) }"

text \<open>The loop over the slots; \<open>n\<close> of them are still to be looked at. A read outside the directory is undefined.\<close>

fun array_ptrs ::
    "PosixIPCSharedMemoryObject \<Rightarrow> u16 \<Rightarrow> posixipc_slot list \<Rightarrow> u32 \<Rightarrow> u32 \<Rightarrow> nat \<Rightarrow> addr option list pyres outcome io" where
  "array_ptrs r kind slots first i 0 = ret (Returned (Inr []))"
| "array_ptrs r kind slots first i (Suc n) =
     (if length slots \<le> unat (first + i) then ret Undefined
      else let slot = slots ! unat (first + i) in
        if s_kind slot \<noteq> kind then ret (Returned (Inl LayoutMismatchError))
        else do {
          (rc, ptr) \<leftarrow> region_ptr r (s_offset slot) (s_size slot) (ucast (s_align slot));
          if rc \<noteq> 0 then ret (Returned (Inl (raise_err rc)))
          else do {
            ps \<leftarrow> array_ptrs r kind slots first (i + 1) n;
            ret (case ps of Returned (Inr l) \<Rightarrow> Returned (Inr (ptr # l)) | x \<Rightarrow> x) } })"

definition posixipc_mutexarray_bind ::
    "PosixIPCMutexArrayObject \<Rightarrow> regions \<Rightarrow> addr \<Rightarrow> posixipc_slot list \<Rightarrow> u32 \<Rightarrow> u32 \<Rightarrow>
     (pyexc option outcome \<times> PosixIPCMutexArrayObject \<times> regions) io" where
  "posixipc_mutexarray_bind a H r slots first count = do {
     st \<leftarrow> posixipc_state_from_obj;
     case st of Some e \<Rightarrow> ret (Returned (Some e), a, H) | None \<Rightarrow>
       if count = 0 \<or> ar_count a \<noteq> count then ret (Returned (Some ValueError), a, H)
       else do {
         m \<leftarrow> call (Py (PyMem_Calloc (unat count) 8));
         if a_ret m < 0 then ret (Returned (Some MemoryError), a, H)
         else do {
           let blk = nat (a_ret m);
           ps \<leftarrow> array_ptrs (H r) (ar_kind a) slots first 0 (unat count);
           case ps of
             Undefined \<Rightarrow> ret (Undefined, a, H)
           | Unfinished \<Rightarrow> ret (Unfinished, a, H)
           | Returned (Inl e) \<Rightarrow> do {
               call_ignore (Py (PyMem_Free blk));
               ret (Returned (Some e), a, H) }
           | Returned (Inr l) \<Rightarrow> do {
               (e, H) \<leftarrow> pin_region H r;
               case e of
                 Some x \<Rightarrow> do {
                   call_ignore (Py (PyMem_Free blk));
                   ret (Returned (Some x), a, H) }
               | None \<Rightarrow> do {
                   free_locks (ar_locks a);
                   let s0 = slots ! unat first;
                   ret (Returned None,
                        a\<lparr>ar_region := Some r, ar_locks := Some (blk, l), ar_first_slot := first, ar_count := count,
                          ar_align := s_align s0, ar_offset := s_offset s0, ar_size := s_size s0,
                          ar_init_flags := s_init_flags s0,
                          ar_flags := ar_flags a OR (FLAG_BOUND OR FLAG_PROCESS_SHARED)\<rparr>, H) } } } } }"

definition posixipc_array_register :: "(pyexc option \<times> string list) io" where
  "posixipc_array_register = do {
     (e, ts) \<leftarrow> register_type True ''MutexArray'' [];
     if e \<noteq> None then ret (e, ts) else register_type True ''MutexArrayItem'' ts }"

section \<open>An item is a mutex\<close>

text \<open>The mutex object that stands for an item: the lock of its slot, the callback and flags of its array.\<close>

definition item_mutex :: "PosixIPCMutexArrayObject \<Rightarrow> addr option \<Rightarrow> PosixIPCMutexArrayItemObject \<Rightarrow> PosixIPCMutexObject" where
  "item_mutex a lock it =
     \<lparr>m_lock = lock, m_region = ar_region a, m_slot = ar_first_slot a + it_index it, m_kind = ar_kind a, m_align = ar_align a,
      m_offset = ar_offset a, m_size = ar_size a, m_init_flags = ar_init_flags a, m_flags = ar_flags a,
      m_locked = it_locked it, m_inline_storage = 0, m_on_owner_died = ar_on_owner_died a\<rparr>"

lemma item_mutex_simps [simp]:
  "m_lock (item_mutex a lock it) = lock" "m_on_owner_died (item_mutex a lock it) = ar_on_owner_died a"
  "m_locked (item_mutex a lock it) = it_locked it" "m_flags (item_mutex a lock it) = ar_flags a"
  by (simp_all add: item_mutex_def)

text \<open>What \<^verbatim>\<open>Mutex.acquire\<close> does once its arguments are parsed.\<close>

definition mutex_take ::
    "(rat \<Rightarrow> rat) \<Rightarrow> nat \<Rightarrow> clocksym \<Rightarrow> PosixIPCMutexObject \<Rightarrow> posixipc_acquire_opts \<Rightarrow>
     (bool pyres outcome \<times> PosixIPCMutexObject \<times> clocksym) io" where
  "mutex_take fl fuel g m opts = do {
     rc \<leftarrow> posixipc_mutex_trylock (m_lock m);
     if rc \<noteq> EBUSY then do {
       (r, m) \<leftarrow> posixipc_mutex_after_lock m rc;
       ret (Returned r, m, g) }
     else if \<not> blocking opts \<or> (\<not> timeout_none opts \<and> timeout opts = Fin 0)
     then ret (Returned (Inr False), m, g)
     else mutex_block fl fuel g m opts }"

lemma mutex_acquire_take:
  "mutex_acquire fl fuel g m args kws = do {
     st \<leftarrow> posixipc_state_from_obj;
     case st of Some e \<Rightarrow> ret (Returned (Inl e), m, g) | None \<Rightarrow> do {
       p \<leftarrow> mutex_parse m args kws;
       case p of Inl e \<Rightarrow> ret (Returned (Inl e), m, g) | Inr opts \<Rightarrow> mutex_take fl fuel g m opts } }"
  unfolding mutex_acquire_def mutex_take_def ..

text \<open>An open handle parses its arguments as the shared parser does.\<close>

lemma mutex_parse_open: "mutex_check_open m = None \<Longrightarrow> mutex_parse m args kws = posixipc_parse_acquire args kws"
  by (simp add: mutex_parse_def posixipc_parse_acquire_def)

fun to_item :: "PosixIPCMutexArrayItemObject \<Rightarrow> (bool pyres outcome \<times> PosixIPCMutexObject \<times> clocksym) \<times> world \<Rightarrow>
    (bool pyres outcome \<times> PosixIPCMutexArrayItemObject option \<times> clocksym) \<times> world" where
  "to_item it ((r, m, g), w) = ((r, Some (it\<lparr>it_locked := m_locked m\<rparr>), g), w)"

lemma unlocked_idem: "\<not> it_locked it \<Longrightarrow> it\<lparr>it_locked := False\<rparr> = it"
  by simp

lemma array_after_lock_eq:
  assumes "lock_at a i = Some lock" and "\<not> it_locked it"
  shows "run (array_after_lock self a i rc (Some it)) w =
    (case run (posixipc_mutex_after_lock (item_mutex a lock it) rc) w of ((r, m), w') \<Rightarrow>
       ((Returned r, Some (it\<lparr>it_locked := m_locked m\<rparr>)), w'))"
proof -
  obtain st w1 where st: "run posixipc_state_from_obj w = (st, w1)" by fastforce
  show ?thesis
  proof (cases "st = None \<and> rc = EOWNERDEAD")
    case True
    with assms st show ?thesis
      by (cases "ar_on_owner_died a")
        (auto simp: array_after_lock_def posixipc_mutex_after_lock_def run_bind run_ret run_call run_if item_mark_def Let_def unlocked_idem
          split: prod.splits)
  next
    case False
    with assms st show ?thesis
      by (cases st) (auto simp: array_after_lock_def posixipc_mutex_after_lock_def run_bind run_ret run_if item_mark_def unlocked_idem)
  qed
qed

lemma array_block_eq:
  assumes "lock_at a i = Some lock" and "\<not> it_locked it"
  shows "run (array_block fl fuel g self a lock i opts (Some it)) w = to_item it (run (mutex_block fl fuel g (item_mutex a lock it) opts) w)"
proof -
  have cb: "array_lock_until_cb lock = mutex_lock_until_cb lock" by (simp add: array_lock_until_cb_def mutex_lock_until_cb_def)
  let ?pre = "if timeout_none opts then ret (Some (0, None), g)
     else do { (clk, g) \<leftarrow> posixipc_mutex_clock g;
               d \<leftarrow> posixipc_deadline_from_seconds fl clk (timeout opts) (Some deadline0);
               ret (d, g) }"
  obtain d g1 w1 where p: "run ?pre w = ((d, g1), w1)" by (metis prod_cases3 surj_pair)
  show ?thesis
    using assms p
    by (cases d) (auto simp: array_block_def mutex_block_def run_bind run_ret run_if cb array_after_lock_eq unlocked_idem
        split: prod.splits option.splits)
qed

text \<open>
  C12. An item of an array is equivalent to a mutex object: on an open array whose block covers the index, acquiring through an
  item that is not marked locked makes the same calls in the same order as \<^verbatim>\<open>Mutex.acquire\<close> makes after its
  arguments are parsed on a mutex object with that slot's lock, returns the same result, and leaves the
  item marked as that mutex would be; and releasing through the item is \<^verbatim>\<open>Mutex.release\<close>.
\<close>

theorem item_is_mutex:
  assumes "array_check_open a = None" and "i < ar_count a" and "lock_at a i = Some (Some l)" and "\<not> it_locked it"
    and "it_array it = Some p" and "it_index it = i" and "A p = a"
  shows "run (array_lock_index fl fuel g p a i opts (Some it)) w =
      to_item it (run (do {
        st \<leftarrow> posixipc_state_from_obj;
        case st of Some e \<Rightarrow> ret (Returned (Inl e), item_mutex a (Some l) it, g) | None \<Rightarrow> mutex_take fl fuel g (item_mutex a (Some l) it) opts }) w) \<and>
    run (item_release A (it\<lparr>it_locked := b\<rparr>)) w =
      (case run (mutex_release (item_mutex a (Some l) (it\<lparr>it_locked := b\<rparr>))) w of ((r, m), w') \<Rightarrow>
         ((Returned r, it\<lparr>it_locked := m_locked m\<rparr>), w'))"
proof
  obtain st w1 where st: "run posixipc_state_from_obj w = (st, w1)" by fastforce
  have notin: "\<not> ar_count a \<le> i" using assms(2) by simp
  show "run (array_lock_index fl fuel g p a i opts (Some it)) w =
      to_item it (run (do {
        st \<leftarrow> posixipc_state_from_obj;
        case st of Some e \<Rightarrow> ret (Returned (Inl e), item_mutex a (Some l) it, g) | None \<Rightarrow> mutex_take fl fuel g (item_mutex a (Some l) it) opts }) w)"
    using assms st notin
    by (cases st) (auto simp: array_lock_index_def mutex_take_def run_bind run_ret run_if array_after_lock_eq array_block_eq unlocked_idem
        split: prod.splits)
  have opened: "mutex_check_open (item_mutex a (Some l) (it\<lparr>it_locked := b\<rparr>)) = None"
    using assms(1) by (auto simp: mutex_check_open_def array_check_open_def mutex_flags_closed_def split: if_splits)
  show "run (item_release A (it\<lparr>it_locked := b\<rparr>)) w =
      (case run (mutex_release (item_mutex a (Some l) (it\<lparr>it_locked := b\<rparr>))) w of ((r, m), w') \<Rightarrow>
         ((Returned r, it\<lparr>it_locked := m_locked m\<rparr>), w'))"
    using assms st notin opened
    by (cases st) (auto simp: item_release_def array_release_index_def mutex_release_def run_bind run_ret run_if split: prod.splits)
qed

section \<open>The lock is held exactly after a successful acquire\<close>

lemma run_array_block:
  "run (array_block fl fuel g self a lock i opts item) w =
    (case run (lock_code fl fuel g lock opts) w of ((oc, g'), w1) \<Rightarrow>
       (case oc of Undefined \<Rightarrow> ((Undefined, item, g'), w1) | Unfinished \<Rightarrow> ((Unfinished, item, g'), w1)
        | Returned (Inl e) \<Rightarrow> ((Returned (Inl e), item, g'), w1)
        | Returned (Inr rc) \<Rightarrow> (case run (array_after_lock self a i rc item) w1 of ((r, item'), w2) \<Rightarrow> ((r, item', g'), w2))))"
proof -
  have cb: "array_lock_until_cb lock = mutex_lock_until_cb lock" by (simp add: array_lock_until_cb_def mutex_lock_until_cb_def)
  let ?pre = "if timeout_none opts then ret (Some (0, None), g)
     else do { (clk, g) \<leftarrow> posixipc_mutex_clock g;
               d \<leftarrow> posixipc_deadline_from_seconds fl clk (timeout opts) (Some deadline0);
               ret (d, g) }"
  obtain d g1 w1 where p: "run ?pre w = ((d, g1), w1)" by (metis prod_cases3 surj_pair)
  show ?thesis using p
    by (cases d) (auto simp: array_block_def lock_code_def run_bind run_ret run_if cb split: prod.splits option.splits)
qed

text \<open>What a step leaves of the lock \<open>lock\<close>, when \<open>rc\<close> is the code with which it was already obtained.\<close>

definition taken_post :: "rc \<Rightarrow> addr option \<Rightarrow> world \<Rightarrow> bool pyres \<Rightarrow> world \<Rightarrow> bool" where
  "taken_post rc lock w r w' \<longleftrightarrow> env w' = env w \<and>
     (\<forall>q. balance (lock_delta q) w' = balance (lock_delta q) w +
        (if lock = Some q then (if r = Inr True then 1 else 0) - got rc else 0))"

text \<open>Items are marked when the lock is taken, and left alone otherwise.\<close>

definition item_post :: "PosixIPCMutexArrayItemObject option \<Rightarrow> bool pyres \<Rightarrow> PosixIPCMutexArrayItemObject option \<Rightarrow> bool" where
  "item_post item r item' \<longleftrightarrow> item' = (if r = Inr True then item_mark item else item)"

text \<open>Every run of \<open>m\<close> ends with a result that satisfies \<open>P\<close>.\<close>

definition gives :: "('a \<Rightarrow> bool) \<Rightarrow> 'a io \<Rightarrow> bool" where
  "gives P m \<longleftrightarrow> (\<forall>w. P (fst (run m w)))"

lemma gives_ret: "P x \<Longrightarrow> gives P (ret x)"
  by (simp add: gives_def run_ret)

lemma gives_bind: "(\<And>x. gives P (f x)) \<Longrightarrow> gives P (m \<bind> f)"
  by (simp add: gives_def run_bind split_beta)

lemma gives_cases:
  "(b \<Longrightarrow> gives P m) \<Longrightarrow> (\<not> b \<Longrightarrow> gives P m') \<Longrightarrow> gives P (if b then m else m')"
  "(\<And>y. s = Inl y \<Longrightarrow> gives P (f y)) \<Longrightarrow> (\<And>y. s = Inr y \<Longrightarrow> gives P (h y)) \<Longrightarrow> gives P (case s of Inl y \<Rightarrow> f y | Inr y \<Rightarrow> h y)"
  "(o1 = None \<Longrightarrow> gives P m) \<Longrightarrow> (\<And>y. o1 = Some y \<Longrightarrow> gives P (k y)) \<Longrightarrow> gives P (case o1 of None \<Rightarrow> m | Some y \<Rightarrow> k y)"
  by (simp_all split: sum.splits option.splits)

lemmas gives_rules = gives_ret gives_bind gives_cases

lemma keeps_item_new: "lock_like \<delta> \<Longrightarrow> keeps \<delta> (array_item_new self i)"
  unfolding array_item_new_def by (intro keeps_rules keeps_state_from) (simp_all add: lock_likeD)

text \<open>The part of \<^const>\<open>array_after_lock\<close> behind the two checks.\<close>

definition array_settle ::
    "addr \<Rightarrow> PosixIPCMutexArrayObject \<Rightarrow> addr option \<Rightarrow> u32 \<Rightarrow> rc \<Rightarrow> PosixIPCMutexArrayItemObject option \<Rightarrow>
     (bool pyres outcome \<times> PosixIPCMutexArrayItemObject option) io" where
  "array_settle self a lock index rc item =
     (if rc = 0 then ret (Returned (Inr True), item_mark item)
      else if rc = EOWNERDEAD then
        case ar_on_owner_died a of
          None \<Rightarrow> do { _ \<leftarrow> posixipc_mutex_unlock lock; ret (Returned (Inl TypeError), item) }
        | Some fn \<Rightarrow> do {
            cb \<leftarrow> (case item of Some it \<Rightarrow> ret (Inr it) | None \<Rightarrow> array_item_new self index);
            case cb of
              Inl e \<Rightarrow> do { _ \<leftarrow> posixipc_mutex_unlock lock; ret (Returned (Inl e), item) }
            | Inr _ \<Rightarrow> do {
                r \<leftarrow> call (Py (CallOneArg fn));
                if a_ret r < 0 then do { _ \<leftarrow> posixipc_mutex_unlock lock; ret (Returned (Inl Pending), item) }
                else do {
                  urc \<leftarrow> posixipc_mutex_consistent lock;
                  if urc \<noteq> 0 then do { _ \<leftarrow> posixipc_mutex_unlock lock; ret (Returned (Inl (raise_err urc)), item) }
                  else ret (Returned (Inr True), item_mark item) } } }
      else if rc = ENOTRECOVERABLE then ret (Returned (Inl NotRecoverableError), item)
      else if rc = ETIMEDOUT \<or> rc = EBUSY then ret (Returned (Inr False), item)
      else if rc = EDEADLK then ret (Returned (Inl RuntimeError), item)
      else ret (Returned (Inl (raise_err rc)), item))"

lemma run_array_after:
  assumes "module_found w" and "lock_at a i = Some lock"
  shows "run (array_after_lock self a i rc item) w = run (array_settle self a lock i rc item) (after w (Py Type_GetModule))"
  unfolding array_after_lock_def run_bind run_state_from [OF assms(1)] by (simp add: assms(2) array_settle_def)

lemma settle_result:
  "gives (\<lambda>(oc, item'). \<exists>r. oc = Returned r \<and> item_post item r item') (array_settle self a lock i rc item)"
  unfolding array_settle_def by (intro gives_rules) (simp_all add: item_post_def)

lemma settle_effect:
  "effect E (lock_delta q) (\<lambda>x. if lock = Some q then (if fst x = Returned (Inr True) then 1 else 0) - got rc else 0)
     (array_settle self a lock i rc item)"
  unfolding array_settle_def
  by (intro effect_if effect_option effect_sum effect_ret effect_bind [OF effect_mutex_unlock]
      effect_keeps_bind [OF keeps_mutex_consistent] effect_keeps_bind [OF keeps_call] effect_keeps_bind [OF keeps_option]
      keeps_item_new keeps_ret lock_like_delta) (auto simp: got_def)

lemma array_after_post:
  assumes mf: "module_found w" and lock: "lock_at a i = Some lock"
    and run: "run (array_after_lock self a i rc item) w = ((oc, item'), w')"
  shows "\<exists>r. oc = Returned r \<and> taken_post rc lock w r w' \<and> item_post item r item'"
proof -
  have r: "run (array_settle self a lock i rc item) (after w (Py Type_GetModule)) = ((oc, item'), w')"
    using run run_array_after [OF mf lock] by simp
  obtain x where x: "oc = Returned x" "item_post item x item'"
    using settle_result [of item self a lock i rc, unfolded gives_def, THEN spec, of "after w (Py Type_GetModule)"] r by auto
  have "taken_post rc lock w x w'"
    using effectD [OF settle_effect _ r, of "\<lambda>_. True"] x(1) by (simp add: taken_post_def)
  with x show ?thesis by blast
qed

lemma taken_post_seq:
  assumes "env w1 = env w" and "\<And>q. balance (lock_delta q) w1 = balance (lock_delta q) w + (if lock = Some q then got rc else 0)"
    and "taken_post rc lock w1 r w'"
  shows "taken_post EBUSY lock w r w'"
  using assms by (auto simp: taken_post_def got_def)

lemma array_block_post:
  assumes mf: "module_found w" and ce: "clock_errors w" and lock: "lock_at a i = Some lock"
    and run: "run (array_block fl fuel g self a lock i opts item) w = ((Returned r, item', g'), w')"
  shows "taken_post EBUSY lock w r w' \<and> item_post item r item'"
proof -
  obtain oc g1 w1 where c: "run (lock_code fl fuel g lock opts) w = ((oc, g1), w1)" by (metis prod_cases3 surj_pair)
  then obtain x where oc: "oc = Returned x" using run by (cases oc) (simp_all add: run_array_block)
  note post = lock_code_post [OF ce c [unfolded oc]]
  show ?thesis
  proof (cases x)
    case (Inl e)
    with run c oc post show ?thesis by (auto simp: run_array_block got_def taken_post_def item_post_def)
  next
    case (Inr rc)
    with run c oc have al: "run (array_after_lock self a i rc item) w1 = ((Returned r, item'), w')"
      by (auto simp: run_array_block split: prod.splits)
    have "module_found w1" using mf post(1) by (simp add: module_found_def)
    from array_after_post [OF this lock al] taken_post_seq [OF post(1), of lock rc r w'] post(2) Inr show ?thesis by auto
  qed
qed

lemma lock_code_defined:
  "timeout_none opts \<Longrightarrow> run (lock_code fl fuel g lock opts) w = ((oc, g'), w') \<Longrightarrow> oc \<noteq> Undefined"
  by (auto simp: lock_code_def run_bind run_ret run_if split: if_splits prod.splits option.splits)

lemma array_block_defined:
  assumes mf: "module_found w" and ce: "clock_errors w" and lock: "lock_at a i = Some lock" and to: "timeout_none opts"
  shows "run (array_block fl fuel g self a lock i opts item) w \<noteq> ((Undefined, item', g'), w')"
proof
  assume run: "run (array_block fl fuel g self a lock i opts item) w = ((Undefined, item', g'), w')"
  obtain oc g1 w1 where c: "run (lock_code fl fuel g lock opts) w = ((oc, g1), w1)" by (metis prod_cases3 surj_pair)
  have "oc \<noteq> Undefined" using lock_code_defined [OF to c] .
  with run c obtain rc where rc: "oc = Returned (Inr rc)" "run (array_after_lock self a i rc item) w1 = ((Undefined, item'), w')"
    by (auto simp: run_array_block split: outcome.splits sum.splits prod.splits)
  have "env w1 = env w" using lock_code_post(1) [OF ce c [unfolded rc(1)]] .
  then have "module_found w1" using mf by (simp add: module_found_def)
  from array_after_post [OF this lock rc(2)] show False by simp
qed

text \<open>The block of a bound array has one pointer for each of its mutexes, and none is NULL.\<close>

definition array_ok :: "PosixIPCMutexArrayObject \<Rightarrow> bool" where
  "array_ok a \<longleftrightarrow> (case ar_locks a of None \<Rightarrow> True | Some (_, ls) \<Rightarrow> length ls = unat (ar_count a) \<and> list_all (\<lambda>l. l \<noteq> None) ls)"

lemma array_ok_lock:
  assumes "array_ok a" and "array_check_open a = None" and "i < ar_count a"
  shows "\<exists>l. lock_at a i = Some (Some l)"
  using assms by (auto simp: array_ok_def array_check_open_def lock_at_def list_all_length word_less_nat_alt split: if_splits)

text \<open>
  Acquiring a mutex of an array holds its lock exactly when it returns True, through the array as through an item: then the
  thread has taken the lock of that slot once more and the item, if any, is marked; otherwise every lock is held as
  often as before, also when the recovery of a dead owner fails, and the item is unchanged. On an array the bindings
  made, no index reads outside the block.
\<close>

theorem array_acquire_contract:
  assumes mf: "module_found w" and ce: "clock_errors w" and ok: "array_ok a"
    and run: "run (array_lock_index fl fuel g self a i opts item) w = ((oc, item', g'), w')"
  shows "(timeout_none opts \<longrightarrow> oc \<noteq> Undefined) \<and>
    (\<forall>r. oc = Returned r \<longrightarrow>
       balance (lock_delta q) w' = balance (lock_delta q) w + (if lock_at a i = Some (Some q) \<and> r = Inr True then 1 else 0) \<and>
       item' = (if r = Inr True then item_mark item else item) \<and>
       (r = Inr True \<longrightarrow> array_check_open a = None \<and> i < ar_count a))"
proof (cases "array_check_open a = None \<and> i < ar_count a")
  case False
  with run run_state_from [OF mf] show ?thesis
    by (auto simp: array_lock_index_def run_bind run_ret split: option.splits if_splits)
next
  case True
  let ?w1 = "after w (Py Type_GetModule)"
  obtain l where l: "lock_at a i = Some (Some l)" using array_ok_lock [OF ok] True by blast
  obtain rc w2 where tl: "run (posixipc_mutex_trylock (Some l)) ?w1 = (rc, w2)" by fastforce
  note t = mutex_trylock_run [OF tl]
  have env2: "env w2 = env w" and bal2: "balance (lock_delta q) w2 = balance (lock_delta q) w + (if l = q then got rc else 0)" for q
    using t [of q] by simp_all
  have wf: "module_found w2" "clock_errors w2" using mf ce env2 by (simp_all add: module_found_def clock_errors_def)
  have notin: "\<not> ar_count a \<le> i" using True by (simp add: not_le)
  have run2: "run (array_lock_index fl fuel g self a i opts item) w =
      (if rc \<noteq> EBUSY then (case run (array_after_lock self a i rc item) w2 of ((r, item), w) \<Rightarrow> ((r, item, g), w))
       else if \<not> blocking opts \<or> (\<not> timeout_none opts \<and> timeout opts = Fin 0) then ((Returned (Inr False), item, g), w2)
       else run (array_block fl fuel g self a (Some l) i opts item) w2)"
    unfolding array_lock_index_def run_bind run_state_from [OF mf] using True notin l tl by (simp add: run_bind run_ret split: prod.split)
  consider (fast) "run (array_after_lock self a i rc item) w2 = ((oc, item'), w')"
    | (busy) "rc = EBUSY" "oc = Returned (Inr False)" "item' = item" "w' = w2"
    | (block) "rc = EBUSY" "run (array_block fl fuel g self a (Some l) i opts item) w2 = ((oc, item', g'), w')"
    using run unfolding run2 by (auto split: if_splits prod.splits)
  then show ?thesis
  proof cases
    case fast
    from array_after_post [OF wf(1) l this] True l bal2 [of q] show ?thesis
      by (auto simp: taken_post_def item_post_def)
  next
    case busy
    then show ?thesis using bal2 [of q] by (simp add: got_def)
  next
    case block
    have "timeout_none opts \<Longrightarrow> oc \<noteq> Undefined"
      using block(2) array_block_defined [OF wf l] by blast
    moreover have "\<forall>r. oc = Returned r \<longrightarrow> taken_post EBUSY (Some l) w2 r w' \<and> item_post item r item'"
      using block(2) array_block_post [OF wf l] by blast
    ultimately show ?thesis using block(1) True l bal2 [of q] by (auto simp: taken_post_def item_post_def got_def)
  qed
qed

section \<open>Binding and closing\<close>

lemma region_ptr_some:
  "run (region_ptr ob off sz al) w = ((0, p), w') \<Longrightarrow> sh_map (s_core ob) \<noteq> None \<Longrightarrow> p \<noteq> None"
  by (auto simp: region_ptr_def posixipc_shm_offset_ptr_def run_bind run_ret run_call Let_def split: option.splits if_splits)

lemma array_ptrs_result:
  "run (array_ptrs r kind slots first i n) w = (Returned (Inr l), w') \<Longrightarrow>
     length l = n \<and> (sh_map (s_core r) \<noteq> None \<longrightarrow> list_all (\<lambda>p. p \<noteq> None) l)"
proof (induction n arbitrary: i w l w')
  case (Suc n)
  let ?slot = "slots ! unat (first + i)"
  obtain rc ptr w1 where p: "run (region_ptr r (s_offset ?slot) (s_size ?slot) (ucast (s_align ?slot))) w = ((rc, ptr), w1)"
    by (metis prod_cases3 surj_pair)
  obtain ps w2 where ps: "run (array_ptrs r kind slots first (i + 1) n) w1 = (ps, w2)" by fastforce
  obtain l2 where l2: "rc = 0" "ps = Returned (Inr l2)" "l = ptr # l2"
    using Suc.prems p ps by (auto simp: run_bind run_ret Let_def split: if_splits outcome.splits sum.splits)
  from Suc.IH [OF ps [unfolded l2(2)]] region_ptr_some [of r _ _ _ w ptr w1] p l2 show ?case by auto
qed (simp add: run_ret)

lemma keeps_array_ptrs: "(\<And>c a. \<delta> (Mem c) a = 0) \<Longrightarrow> keeps \<delta> (array_ptrs r kind slots first i n)"
proof (induction n arbitrary: i)
  case (Suc n)
  show ?case
    unfolding array_ptrs.simps Let_def using Suc by (intro keeps_rules keeps_region_ptr Suc.IH) simp_all
qed (simp add: keeps_ret)

lemma block_like: "lock_like (block_delta p)"
  using sync_quiet_block by (simp add: sync_quiet_def)

text \<open>Whether an array owns the memory block at \<open>p\<close>.\<close>

definition owns_block :: "addr \<Rightarrow> PosixIPCMutexArrayObject \<Rightarrow> int" where
  "owns_block p a = (case ar_locks a of None \<Rightarrow> 0 | Some (q, _) \<Rightarrow> if q = p then 1 else 0)"

lemma run_free_locks:
  "run (free_locks ls) w = (u, w') \<Longrightarrow> env w' = env w \<and>
     balance (block_delta p) w' = balance (block_delta p) w - (case ls of None \<Rightarrow> 0 | Some (q, _) \<Rightarrow> if q = p then 1 else 0)"
  by (auto simp: free_locks_def run_ret run_call_ignore split: option.splits)

text \<open>
  What binding an array leaves. The three parts are the segments and the array, and its memory.
\<close>

lemma array_bind_post:
  assumes run: "run (posixipc_mutexarray_bind a H r slots first count) w = ((Returned e, a', H'), w')"
  shows "e \<noteq> None \<Longrightarrow> a' = a \<and> H' = H"
    and "e = None \<Longrightarrow> \<not> shm_is_closed (H r) \<and> H' = H(r := (H r)\<lparr>s_pins := s_pins (H r) + 1\<rparr>) \<and> ar_region a' = Some r \<and>
           ar_count a' = count \<and> ar_flags a' = ar_flags a OR (FLAG_BOUND OR FLAG_PROCESS_SHARED) \<and>
           (\<exists>blk l. ar_locks a' = Some (blk, l) \<and> length l = unat count \<and> list_all (\<lambda>p. p \<noteq> None) l)"
    and "balance (block_delta p) w' = balance (block_delta p) w + owns_block p a' - owns_block p a"
proof -
  obtain st w1 where st: "run posixipc_state_from_obj w = (st, w1)" by fastforce
  have b1: "balance (block_delta p) w1 = balance (block_delta p) w"
    using keepsD(3) [OF keeps_state_from [OF block_like] st] .
  obtain m w2 where m: "run (call (Py (PyMem_Calloc (unat count) 8))) w1 = (m, w2)" by fastforce
  obtain ps w3 where ps: "run (array_ptrs (H r) (ar_kind a) slots first 0 (unat count)) w2 = (ps, w3)" by fastforce
  have b3: "balance (block_delta p) w3 = balance (block_delta p) w2"
    using keepsD(3) [OF keeps_array_ptrs ps] by simp
  obtain st2 w4 where st2: "run posixipc_state_from_obj w3 = (st2, w4)" by fastforce
  have b4: "balance (block_delta p) w4 = balance (block_delta p) w3"
    using keepsD(3) [OF keeps_state_from [OF block_like] st2] .
  have mal: "balance (block_delta p) w2 = balance (block_delta p) w1 + (if a_ret m = int p then 1 else 0)"
    using m by (auto simp: run_call)
  let ?free = "Py (PyMem_Free (nat (a_ret m)))" and ?s0 = "slots ! unat first"
  define bnd where "bnd l = a\<lparr>ar_region := Some r, ar_locks := Some (nat (a_ret m), l), ar_first_slot := first, ar_count := count,
      ar_align := s_align ?s0, ar_offset := s_offset ?s0, ar_size := s_size ?s0, ar_init_flags := s_init_flags ?s0,
      ar_flags := ar_flags a OR (FLAG_BOUND OR FLAG_PROCESS_SHARED)\<rparr>" for l
  obtain w5 where fr: "run (free_locks (ar_locks a)) w4 = ((), w5)" by (metis old.unit.exhaust surj_pair)
  have eq: "run (posixipc_mutexarray_bind a H r slots first count) w =
     (case st of Some e \<Rightarrow> ((Returned (Some e), a, H), w1) | None \<Rightarrow>
      if count = 0 \<or> ar_count a \<noteq> count then ((Returned (Some ValueError), a, H), w1)
      else if a_ret m < 0 then ((Returned (Some MemoryError), a, H), w2)
      else case ps of Undefined \<Rightarrow> ((Undefined, a, H), w3) | Unfinished \<Rightarrow> ((Unfinished, a, H), w3)
        | Returned (Inl e) \<Rightarrow> ((Returned (Some e), a, H), after w3 ?free)
        | Returned (Inr l) \<Rightarrow> if shm_is_closed (H r) then ((Returned (Some ClosedError), a, H), after w4 ?free)
            else ((Returned None, bnd l, H(r := (H r)\<lparr>s_pins := s_pins (H r) + 1\<rparr>)), w5))"
  proof (cases "st = None \<and> count \<noteq> 0 \<and> ar_count a = count \<and> 0 \<le> a_ret m")
    case True
    then show ?thesis using st m ps st2 fr
      by (auto simp: posixipc_mutexarray_bind_def bnd_def run_bind run_ret run_call_ignore run_pin_region Let_def
          split: outcome.split sum.split)
  next
    case False
    then show ?thesis using st m
      by (cases st) (auto simp: posixipc_mutexarray_bind_def run_bind run_ret)
  qed
  have split: "(a' = a \<and> H' = H \<and> e \<noteq> None \<and> (w' = w1 \<or> (a_ret m < 0 \<and> w' = w2) \<or>
        (0 \<le> a_ret m \<and> (w' = after w3 ?free \<or> w' = after w4 ?free)))) \<or>
      (e = None \<and> 0 \<le> a_ret m \<and> \<not> shm_is_closed (H r) \<and> w' = w5 \<and> H' = H(r := (H r)\<lparr>s_pins := s_pins (H r) + 1\<rparr>) \<and>
        (\<exists>l. ps = Returned (Inr l) \<and> a' = bnd l))"
  proof (cases ps)
    case (Returned x)
    then show ?thesis using run unfolding eq by (cases st; cases x) (auto split: if_splits)
  qed (use run in \<open>unfold eq, cases st; auto split: if_splits\<close>)+
  show "e \<noteq> None \<Longrightarrow> a' = a \<and> H' = H" using split by blast
  show "e = None \<Longrightarrow> \<not> shm_is_closed (H r) \<and> H' = H(r := (H r)\<lparr>s_pins := s_pins (H r) + 1\<rparr>) \<and> ar_region a' = Some r \<and>
           ar_count a' = count \<and> ar_flags a' = ar_flags a OR (FLAG_BOUND OR FLAG_PROCESS_SHARED) \<and>
           (\<exists>blk l. ar_locks a' = Some (blk, l) \<and> length l = unat count \<and> list_all (\<lambda>p. p \<noteq> None) l)"
    using split array_ptrs_result [of "H r" "ar_kind a" slots first 0 "unat count" w2 _ w3] ps
    by (auto simp: shm_is_closed_def bnd_def)
  show "balance (block_delta p) w' = balance (block_delta p) w + owns_block p a' - owns_block p a"
    using split b1 b3 b4 mal run_free_locks [OF fr, of p] by (auto simp: owns_block_def bnd_def)
qed

lemma array_close_post:
  assumes "run (array_close a H) w = ((a', H'), w')"
  shows "array_is_closed a \<Longrightarrow> a' = a \<and> H' = H \<and> w' = w"
    and "\<not> array_is_closed a \<Longrightarrow> ar_region a' = None \<and> ar_locks a' = None \<and> array_is_closed a' \<and>
           H' = (case ar_region a of None \<Rightarrow> H | Some r \<Rightarrow> unpin_region H r)"
    and "balance (block_delta p) w' = balance (block_delta p) w + owns_block p a' - owns_block p a"
proof -
  obtain w1 where fr: "run (free_locks (ar_locks a)) w = ((), w1)" by (metis old.unit.exhaust surj_pair)
  have eq: "run (array_close a H) w =
      (if array_is_closed a then ((a, H), w)
       else ((a\<lparr>ar_region := None, ar_locks := None, ar_flags := ar_flags a OR FLAG_CLOSED\<rparr>,
              case ar_region a of None \<Rightarrow> H | Some r \<Rightarrow> unpin_region H r), w1))"
    using fr by (cases "ar_region a") (simp_all add: array_close_def run_bind run_ret Let_def)
  show "array_is_closed a \<Longrightarrow> a' = a \<and> H' = H \<and> w' = w"
    and "\<not> array_is_closed a \<Longrightarrow> ar_region a' = None \<and> ar_locks a' = None \<and> array_is_closed a' \<and>
           H' = (case ar_region a of None \<Rightarrow> H | Some r \<Rightarrow> unpin_region H r)"
    using assms unfolding eq by (auto simp: array_is_closed_def flag_set_or flag_set_def)
  show "balance (block_delta p) w' = balance (block_delta p) w + owns_block p a' - owns_block p a"
    using assms run_free_locks [OF fr, of p] unfolding eq by (cases "array_is_closed a") (auto simp: owns_block_def)
qed

text \<open>
  Binding an array is all or nothing, and closing undoes it: when binding fails, at whatever slot or call, the array, the
  segments and the memory are as before; when it succeeds, the segment has one more pin, the new array has a pointer for
  every index it accepts, and the block of an earlier binding is freed. Closing an array that
  was unbound before gives the pin and the block back.
\<close>

theorem array_bind_close:
  assumes b: "run (posixipc_mutexarray_bind a H r slots first count) w = ((Returned e, a1, H1), w1)"
    and c: "run (array_close a1 H1) w1 = ((a2, H2), w2)" and open1: "\<not> array_is_closed a"
  shows "(e \<noteq> None \<longrightarrow> a1 = a \<and> H1 = H \<and> balance (block_delta p) w1 = balance (block_delta p) w) \<and>
    (e = None \<longrightarrow> array_ok a1 \<and> array_check_open a1 = None \<and> s_pins (H1 r) = s_pins (H r) + 1 \<and> H2 = H \<and> array_is_closed a2 \<and>
       balance (block_delta p) w2 = balance (block_delta p) w - owns_block p a)"
proof (cases e)
  case None
  note post = array_bind_post(2) [OF b None] and mem = array_bind_post(3) [OF b, of p]
  have open2: "\<not> array_is_closed a1" using post open1 by (simp add: array_is_closed_def flag_set_or) (simp add: flag_set_def)
  have "array_ok a1" using post by (auto simp: array_ok_def)
  moreover have "flag_set (ar_flags a1) FLAG_BOUND" using post by (simp add: flag_set_or) (simp add: flag_set_def)
  then have "array_check_open a1 = None" using post open2 by (auto simp: array_check_open_def array_is_closed_def)
  moreover have "H2 = H" "array_is_closed a2" "ar_locks a2 = None" using array_close_post(2) [OF c open2] post by auto
  moreover have "owns_block p a2 = 0" using \<open>ar_locks a2 = None\<close> by (simp add: owns_block_def)
  ultimately show ?thesis using None post mem array_close_post(3) [OF c, of p] by simp
next
  case (Some x)
  then show ?thesis using array_bind_post(1) [OF b] array_bind_post(3) [OF b, of p] by simp
qed

text \<open>
  The block is read again after the wait: when another thread closes the array while this one waits for the lock, the
  acquire dereferences NULL, whatever the lock call returned, also after it took the lock or timed out.
\<close>

theorem array_close_races_acquire:
  assumes mf: "module_found w" and c: "run (array_close a H) w0 = ((a', H'), w0')" and open1: "\<not> array_is_closed a"
  shows "fst (run (array_after_lock self a' i rc item) w) = (Undefined, item)"
  using array_close_post(2) [OF c open1] run_state_from [OF mf]
  by (simp add: array_after_lock_def run_bind run_ret lock_at_def)

text \<open>
  The index of \<^verbatim>\<open>acquire\<close>, \<^verbatim>\<open>release\<close> and \<^verbatim>\<open>as_capsule\<close> is cut to 32 bits before it is compared with the count: an index
  \<open>k\<close> at or above \<open>2\<^sup>3\<^sup>2\<close> is accepted as \<open>k mod 2\<^sup>3\<^sup>2\<close>, so it may select a mutex where \<^verbatim>\<open>IndexError\<close> is due.
\<close>

theorem array_index_truncated:
  assumes "a_ret (answer_to w (Py (AsSsize ob))) = k" and "0 \<le> k"
  shows "\<exists>i. fst (run (array_parse_index ob) w) = Inr i \<and> uint i = k mod 2 ^ 32"
  using assms by (simp add: array_parse_index_def run_bind run_call run_ret uint_word_of_int)

section \<open>Examples\<close>

definition demo_array :: PosixIPCMutexArrayObject where
  "demo_array = \<lparr>ar_locks = Some (64, [Some 7, Some 9]), ar_count = 2, ar_first_slot = 0, ar_kind = KIND_MUTEX, ar_align = 8,
     ar_offset = 96, ar_size = 40, ar_init_flags = 0, ar_region = Some 5, ar_on_owner_died = None, ar_flags = FLAG_BOUND\<rparr>"

definition demo_item :: PosixIPCMutexArrayItemObject where
  "demo_item = \<lparr>it_array = Some 3, it_index = 1, it_locked = False\<rparr>"

definition plain_opts :: posixipc_acquire_opts where
  "plain_opts = \<lparr>timeout_none = True, timeout = Fin 0, blocking = True, interruptible = True\<rparr>"

lemma demo_array_open: "array_check_open demo_array = None" "(1 :: u32) < ar_count demo_array" "lock_at demo_array 1 = Some (Some 9)"
  "array_ok demo_array" "\<not> array_is_closed demo_array"
  by (simp_all add: array_check_open_def demo_array_def flag_set_def lock_at_def array_ok_def array_is_closed_def)

lemma demo_item_fresh: "\<not> it_locked demo_item" "it_array demo_item = Some 3" "it_index demo_item = 1"
  by (simp_all add: demo_item_def)

theorem item_is_mutex_witness:
  "\<exists>g' w'. run (array_lock_index (\<lambda>x. x) 1 clocksym0 3 demo_array 1 plain_opts (Some demo_item)) py_world =
     ((Returned (Inr True), Some (demo_item\<lparr>it_locked := True\<rparr>), g'), w')"
  unfolding conjunct1 [OF item_is_mutex [OF demo_array_open(1-3) demo_item_fresh, of "\<lambda>_. demo_array", OF refl]]
  by (simp add: mutex_take_def posixipc_mutex_trylock_def posixipc_mutex_after_lock_def posixipc_state_from_obj_def
        posixipc_state_from_type_def io_simps answer_to_py answer0_def)

theorem array_acquire_contract_witness:
  "\<exists>it g' w'. run (array_lock_index (\<lambda>x. x) 1 clocksym0 3 demo_array 1 plain_opts (Some demo_item)) py_world =
     ((Returned (Inr True), Some it, g'), w') \<and> it_locked it \<and> balance (lock_delta 9) w' = 1"
proof -
  obtain it g' w' where r: "run (array_lock_index (\<lambda>x. x) 1 clocksym0 3 demo_array 1 plain_opts (Some demo_item)) py_world =
      ((Returned (Inr True), Some it, g'), w')"
    using demo_array_open
    by (simp add: array_lock_index_def array_after_lock_def item_mark_def posixipc_mutex_trylock_def posixipc_state_from_obj_def
        posixipc_state_from_type_def io_simps answer_to_py answer0_def not_le [symmetric] del: not_le)
  from array_acquire_contract [OF py_module py_clock demo_array_open(4) r, of 9] r demo_array_open(3) show ?thesis
    by (auto simp: item_mark_def py_world_def balance_def)
qed

definition demo_dir :: "posixipc_slot list" where
  "demo_dir = [demo_slot, demo_slot\<lparr>s_offset := 136\<rparr>]"

theorem array_bind_close_witness:
  "\<exists>a1 H1 w1 a2 H2 w2.
     run (posixipc_mutexarray_bind (demo_array\<lparr>ar_locks := None, ar_region := None, ar_flags := 0\<rparr>) demo_regions 5 demo_dir 0 2) mapped_world =
       ((Returned None, a1, H1), w1) \<and>
     run (array_close a1 H1) w1 = ((a2, H2), w2) \<and> array_ok a1 \<and> s_pins (H1 5) = 1 \<and> H2 = demo_regions"
proof -
  let ?a = "demo_array\<lparr>ar_locks := None, ar_region := None, ar_flags := 0\<rparr>"
  obtain e a1 H1 w1 where b: "run (posixipc_mutexarray_bind ?a demo_regions 5 demo_dir 0 2) mapped_world = ((e, a1, H1), w1)"
    by (metis prod_cases4 surj_pair)
  have two: "unat (2 :: u32) = Suc (Suc 0)" by simp
  have e: "e = Returned None" using b unfolding posixipc_mutexarray_bind_def two
    by (simp add: demo_array_def demo_dir_def demo_slot_def region_ptr_def posixipc_shm_offset_ptr_def demo_segment_def
      demo_regions_def shm_is_closed_def flag_set_def free_locks_def
      posixipc_state_from_obj_def posixipc_state_from_type_def run_pin_region io_simps Let_def answer_to_mapped answer0_def)
  obtain a2 H2 w2 where c: "run (array_close a1 H1) w1 = ((a2, H2), w2)" by (metis prod_cases3 surj_pair)
  have "\<not> array_is_closed ?a" by (simp add: array_is_closed_def flag_set_def)
  from array_bind_close [OF b [unfolded e] c this, of 0] b c e show ?thesis by (simp add: demo_regions_def demo_segment_def)
qed

theorem array_close_races_acquire_witness:
  "\<exists>a' H' w0'. run (array_close demo_array demo_regions) py_world = ((a', H'), w0') \<and>
     fst (run (array_after_lock 3 a' 1 0 None) py_world) = (Undefined, None)"
proof -
  obtain a' H' w' where c: "run (array_close demo_array demo_regions) py_world = ((a', H'), w')" by (metis prod_cases3 surj_pair)
  from array_close_races_acquire [OF py_module c demo_array_open(5), of 3 1 0 None] c show ?thesis by blast
qed

definition big_index_world :: world where
  "big_index_world = \<lparr>env = \<lambda>h c. answer0\<lparr>a_ret := 2 ^ 32 + 1\<rparr>, trace = []\<rparr>"

theorem array_index_truncated_witness:
  "\<exists>i. fst (run (array_parse_index (Obj 2)) big_index_world) = Inr i \<and> uint i = 1"
  using array_index_truncated [of big_index_world "Obj 2" "2 ^ 32 + 1"] by (simp add: answer_to_def big_index_world_def)

end
