(* ===== verification/NmqObj.thy ===== *)
theory NmqObj
  imports ArrayObj
begin

text \<open>
  Named message queues as Python objects (second half of \<^verbatim>\<open>src/src/bindings/py_queue.c\<close>): opening, put and get with
  their waits, notification by signal or by a thread that calls back into Python, closing and destruction. The
  lemmas show that put sends exactly one message when it returns True and none otherwise, that the
  references held for a pending notification balance over every interleaving with the callback thread, and
  that destroying an object that never got a descriptor closes descriptor 0.
\<close>

section \<open>Objects\<close>

text \<open>\<open>nq_refs\<close> counts the references to itself the object holds for a registered notification.\<close>

record PosixIPCNamedMQObject =
  nq_mq :: int
  nq_name :: "(addr \<times> string) option"
  nq_msgsize :: int
  nq_flags :: u32
  nq_armed :: bool
  nq_fn :: "pyobj option"
  nq_arg :: "pyobj option"
  nq_refs :: int

text \<open>\<^verbatim>\<open>tp_alloc\<close> returns zeroed memory, so the descriptor of a new object is 0.\<close>

definition nmq_zero :: PosixIPCNamedMQObject where
  "nmq_zero = \<lparr>nq_mq = 0, nq_name = None, nq_msgsize = 0, nq_flags = 0, nq_armed = False, nq_fn = None, nq_arg = None, nq_refs = 0\<rparr>"

definition nmq_check_open :: "PosixIPCNamedMQObject \<Rightarrow> pyexc option" where
  "nmq_check_open ob =
     (if flag_set (nq_flags ob) FLAG_CLOSED then Some posixipc_raise_closed
      else if nq_mq ob = - 1 then Some posixipc_raise_unbound else None)"

definition nmq_disarm :: "config \<Rightarrow> PosixIPCNamedMQObject \<Rightarrow> PosixIPCNamedMQObject io" where
  "nmq_disarm c ob = do {
     _ \<leftarrow> (if nq_mq ob \<noteq> - 1 then posixipc_mq_notify_cancel c (nq_mq ob) else ret 0);
     ret (if nq_armed ob then ob\<lparr>nq_armed := False, nq_fn := None, nq_arg := None, nq_refs := nq_refs ob - 1\<rparr> else ob) }"

definition nmq_close :: "config \<Rightarrow> PosixIPCNamedMQObject \<Rightarrow> PosixIPCNamedMQObject io" where
  "nmq_close c ob =
     (if flag_set (nq_flags ob) FLAG_CLOSED then ret ob
      else do {
        ob \<leftarrow> nmq_disarm c ob;
        ob \<leftarrow> (if nq_mq ob \<noteq> - 1 then do { _ \<leftarrow> posixipc_mq_close c (nq_mq ob); ret (ob\<lparr>nq_mq := - 1\<rparr>) } else ret ob);
        ret (ob\<lparr>nq_flags := nq_flags ob OR FLAG_CLOSED\<rparr>) })"

definition nmq_clear :: "PosixIPCNamedMQObject \<Rightarrow> PosixIPCNamedMQObject" where
  "nmq_clear ob = ob\<lparr>nq_fn := None, nq_arg := None\<rparr>"

definition nmq_dealloc :: "config \<Rightarrow> PosixIPCNamedMQObject \<Rightarrow> PosixIPCNamedMQObject io" where
  "nmq_dealloc c ob = do {
     ob \<leftarrow> (if \<not> flag_set (nq_flags ob) FLAG_CLOSED then do {
              ob \<leftarrow> nmq_disarm c ob;
              if nq_mq ob \<noteq> - 1 then do { _ \<leftarrow> posixipc_mq_close c (nq_mq ob); ret (ob\<lparr>nq_mq := - 1\<rparr>) } else ret ob }
            else ret ob);
     call_ignore (Free (map_option fst (nq_name ob)));
     ret (ob\<lparr>nq_fn := None, nq_arg := None, nq_name := None\<rparr>) }"

section \<open>Opening\<close>

definition nmq_from_mq :: "config \<Rightarrow> int \<Rightarrow> string \<Rightarrow> PosixIPCNamedMQObject pyres io" where
  "nmq_from_mq c mq name = do {
     t \<leftarrow> call (Py Tp_alloc);
     if a_ret t < 0 then do {
       _ \<leftarrow> posixipc_mq_close c mq;
       ret (Inl Pending) }
     else do {
       (rc, msgsize) \<leftarrow> posixipc_mq_msgsize c mq (Some 0);
       if rc \<noteq> 0 then do {
         _ \<leftarrow> posixipc_mq_close c mq;
         _ \<leftarrow> nmq_dealloc c nmq_zero;
         ret (Inl (raise_err rc)) }
       else do {
         d \<leftarrow> call (Malloc (length name + 1));
         if a_ret d < 0 then do {
           _ \<leftarrow> posixipc_mq_close c mq;
           _ \<leftarrow> nmq_dealloc c nmq_zero;
           ret (Inl MemoryError) }
         else ret (Inr (nmq_zero\<lparr>nq_name := Some (nat (a_ret d), name), nq_mq := mq, nq_msgsize := the msgsize, nq_flags := FLAG_BOUND\<rparr>)) } } }"

text \<open>The parsed arguments are parameters.\<close>

definition nmq_create :: "config \<Rightarrow> string \<Rightarrow> int \<Rightarrow> int \<Rightarrow> PosixIPCNamedMQObject pyres io" where
  "nmq_create c name maxmsg msgsize = do {
     st \<leftarrow> posixipc_state_from_type;
     case st of Some e \<Rightarrow> ret (Inl e) | None \<Rightarrow> do {
       p \<leftarrow> call (Py (ParseTuple ''s|ll:create''));
       if a_ret p = 0 then ret (Inl Pending)
       else if maxmsg < 1 \<or> msgsize < 1 then ret (Inl ValueError)
       else do {
         (rc, mq) \<leftarrow> allow_threads (posixipc_mq_create c (Some name) maxmsg msgsize (Some (- 1)));
         if rc \<noteq> 0 then ret (Inl (raise_err rc)) else nmq_from_mq c (the mq) name } } }"

definition nmq_attach :: "config \<Rightarrow> string \<Rightarrow> PosixIPCNamedMQObject pyres io" where
  "nmq_attach c name = do {
     st \<leftarrow> posixipc_state_from_type;
     case st of Some e \<Rightarrow> ret (Inl e) | None \<Rightarrow> do {
       p \<leftarrow> call (Py (ParseTuple ''s:attach''));
       if a_ret p = 0 then ret (Inl Pending)
       else do {
         (rc, mq) \<leftarrow> allow_threads (posixipc_mq_attach c (Some name) (Some (- 1)));
         if rc \<noteq> 0 then ret (Inl (raise_err rc)) else nmq_from_mq c (the mq) name } } }"

definition nmq_open_or_create :: "config \<Rightarrow> string \<Rightarrow> int \<Rightarrow> int \<Rightarrow> PosixIPCNamedMQObject pyres io" where
  "nmq_open_or_create c name maxmsg msgsize = do {
     st \<leftarrow> posixipc_state_from_type;
     case st of Some e \<Rightarrow> ret (Inl e) | None \<Rightarrow> do {
       p \<leftarrow> call (Py (ParseTuple ''s|ll:open_or_create''));
       if a_ret p = 0 then ret (Inl Pending)
       else if maxmsg < 1 \<or> msgsize < 1 then ret (Inl ValueError)
       else do {
         (rc, mq) \<leftarrow> allow_threads (posixipc_mq_open_or_create c (Some name) maxmsg msgsize (Some (- 1)));
         if rc \<noteq> 0 then ret (Inl (raise_err rc)) else nmq_from_mq c (the mq) name } } }"

definition nmq_unlink_name :: "config \<Rightarrow> string \<Rightarrow> unit pyres io" where
  "nmq_unlink_name c name = do {
     st \<leftarrow> posixipc_state_from_type;
     case st of Some e \<Rightarrow> ret (Inl e) | None \<Rightarrow> do {
       p \<leftarrow> call (Py (ParseTuple ''s:unlink_name''));
       if a_ret p = 0 then ret (Inl Pending)
       else do {
         rc \<leftarrow> posixipc_mq_unlink c (Some name);
         ret (if rc \<noteq> 0 then Inl (raise_err rc) else Inr ()) } } }"

definition nmq_unlink :: "config \<Rightarrow> PosixIPCNamedMQObject \<Rightarrow> unit pyres io" where
  "nmq_unlink c ob = do {
     st \<leftarrow> posixipc_state_from_obj;
     case st of Some e \<Rightarrow> ret (Inl e) | None \<Rightarrow>
       case nq_name ob of None \<Rightarrow> ret (Inl ValueError) | Some (_, nm) \<Rightarrow> do {
         rc \<leftarrow> posixipc_mq_unlink c (Some nm);
         ret (if rc \<noteq> 0 then Inl (raise_err rc) else Inr ()) } }"

definition nmq_get_name :: "PosixIPCNamedMQObject \<Rightarrow> string option pyres io" where
  "nmq_get_name ob =
     (case nq_name ob of None \<Rightarrow> ret (Inr None) | Some (_, nm) \<Rightarrow> do {
        a \<leftarrow> call (Py (UnicodeFrom nm));
        ret (if a_ret a < 0 then Inl Pending else Inr (Some nm)) })"

definition nmq_get_closed :: "PosixIPCNamedMQObject \<Rightarrow> bool" where
  "nmq_get_closed ob = flag_set (nq_flags ob) FLAG_CLOSED"

text \<open>
  \<^verbatim>\<open>NamedMessageQueue()\<close>: the generic constructor makes a zeroed object, its initialiser raises, and the object is destroyed.
\<close>

definition nmq_init :: pyexc where
  "nmq_init = TypeError"

definition nmq_call :: "config \<Rightarrow> unit pyres io" where
  "nmq_call c = do {
     t \<leftarrow> call (Py Tp_alloc);
     if a_ret t < 0 then ret (Inl Pending)
     else do { _ \<leftarrow> nmq_dealloc c nmq_zero; ret (Inl nmq_init) } }"

section \<open>Put and get\<close>

fun nmq_keywords ::
    "nat \<Rightarrow> (string \<times> pyobj) list \<Rightarrow> pyobj \<Rightarrow> bool \<Rightarrow> bool \<Rightarrow> u32 \<Rightarrow> (pyobj \<times> bool \<times> bool \<times> u32) pyres io" where
  "nmq_keywords nargs [] tobj bl it prio = ret (Inr (tobj, bl, it, prio))"
| "nmq_keywords nargs ((key, val) # kws) tobj bl it prio = do {
     k \<leftarrow> call (Py (AsUTF8 key));
     if a_ret k < 0 then ret (Inl Pending)
     else if key = ''timeout'' then
       (if nargs \<ge> 1 then ret (Inl TypeError) else nmq_keywords nargs kws val bl it prio)
     else if key = ''blocking'' then do {
       b \<leftarrow> call (Py (IsTrue val));
       if a_ret b < 0 then ret (Inl Pending) else nmq_keywords nargs kws tobj (a_ret b \<noteq> 0) it prio }
     else if key = ''interruptible'' then do {
       b \<leftarrow> call (Py (IsTrue val));
       if a_ret b < 0 then ret (Inl Pending) else nmq_keywords nargs kws tobj bl (a_ret b \<noteq> 0) prio }
     else if key = ''priority'' then do {
       v \<leftarrow> call (Py (AsULong val));
       e \<leftarrow> call (Py Err_Occurred);
       if a_ret e \<noteq> 0 then ret (Inl Pending) else nmq_keywords nargs kws tobj bl it (ucast (a_u64 v)) }
     else ret (Inl TypeError) }"

definition parse_nmq_put :: "pyobj list \<Rightarrow> (string \<times> pyobj) list \<Rightarrow> (posixipc_acquire_opts \<times> u32) pyres io" where
  "parse_nmq_put args kws =
     (if length args > 1 then ret (Inl TypeError)
      else let tobj = (case args of [] \<Rightarrow> Py_None | a # _ \<Rightarrow> a) in do {
        k \<leftarrow> nmq_keywords (length args) kws tobj True True 0;
        case k of Inl e \<Rightarrow> ret (Inl e) | Inr (tobj, bl, it, prio) \<Rightarrow> do {
          t \<leftarrow> parse_timeout tobj;
          case t of Inl e \<Rightarrow> ret (Inl e) | Inr (none, secs) \<Rightarrow>
            if \<not> bl \<and> \<not> none \<and> dbl_pos secs then ret (Inl ValueError)
            else ret (Inr (\<lparr>timeout_none = none, timeout = secs, blocking = bl, interruptible = it\<rparr>, prio)) } })"

definition nmq_send_cb :: "config \<Rightarrow> int \<Rightarrow> u8 list \<Rightarrow> u32 \<Rightarrow> unit waitfn" where
  "nmq_send_cb c mq bs prio = (\<lambda>s slice. do {
     rc \<leftarrow> posixipc_mq_send_until c mq (Some bs) (unat prio) (Some slice);
     ret (rc, s) })"

text \<open>What the calls left in the buffer and in \<^verbatim>\<open>got\<close>.\<close>

definition nmq_recv_cb :: "config \<Rightarrow> int \<Rightarrow> nat \<Rightarrow> (u8 list \<times> int) waitfn" where
  "nmq_recv_cb c mq len = (\<lambda>(bs, gn) slice. do {
     (rc, bs', _, gn') \<leftarrow> posixipc_mq_receive_until c mq (Some len) (Some 0) (Some gn) (Some slice);
     ret (rc, if rc = 0 then (bs', the gn') else (bs, gn)) })"

text \<open>The part of put that has the buffer of the data.\<close>

definition nmq_put_bytes ::
    "config \<Rightarrow> (rat \<Rightarrow> rat) \<Rightarrow> nat \<Rightarrow> PosixIPCNamedMQObject \<Rightarrow> pyobj \<Rightarrow> u8 list \<Rightarrow> u32 \<Rightarrow> posixipc_acquire_opts \<Rightarrow>
     bool pyres outcome io" where
  "nmq_put_bytes c fl fuel ob data bs prio opts =
     (if \<not> blocking opts then do {
        d \<leftarrow> posixipc_deadline_from_seconds fl CLOCK_REALTIME (Fin 0) (Some deadline0);
        case d of None \<Rightarrow> ret Undefined | Some (rc, user) \<Rightarrow>
          if rc \<noteq> 0 then do {
            call_ignore (Py (ReleaseBuffer data));
            ret (Returned (Inl (raise_err rc))) }
          else do {
            rc \<leftarrow> allow_threads (posixipc_mq_send_until c (nq_mq ob) (Some bs) (unat prio) user);
            call_ignore (Py (ReleaseBuffer data));
            ret (Returned (if rc = ETIMEDOUT \<or> rc = EAGAIN then Inr False
                           else if rc \<noteq> 0 then Inl (raise_err rc) else Inr True)) } }
      else do {
        d \<leftarrow> (if timeout_none opts then ret (Some (0, None))
             else posixipc_deadline_from_seconds fl CLOCK_REALTIME (timeout opts) (Some deadline0));
        case d of None \<Rightarrow> ret Undefined | Some (rc, userp) \<Rightarrow>
          if rc \<noteq> 0 then do {
            call_ignore (Py (ReleaseBuffer data));
            ret (Returned (Inl (raise_err rc))) }
          else do {
            res \<leftarrow> (if \<not> interruptible opts \<and> timeout_none opts then do {
                     rc \<leftarrow> allow_threads (posixipc_mq_send c (nq_mq ob) (Some bs) (unat prio));
                     ret (Some (rc, ())) }
                   else posixipc_blocking_wait fuel (nmq_send_cb c (nq_mq ob) bs prio) userp (interruptible opts) CLOCK_REALTIME ());
            case res of None \<Rightarrow> ret Unfinished | Some (rc, _) \<Rightarrow> do {
              call_ignore (Py (ReleaseBuffer data));
              ret (Returned (if rc = ETIMEDOUT \<or> rc = EAGAIN then Inr False
                             else if rc = POSIXIPC_ERROR_INTERRUPTED then Inl Pending
                             else if rc \<noteq> 0 then Inl (raise_err rc) else Inr True)) } } })"

definition nmq_put ::
    "config \<Rightarrow> (rat \<Rightarrow> rat) \<Rightarrow> nat \<Rightarrow> PosixIPCNamedMQObject \<Rightarrow> pyobj list \<Rightarrow> (string \<times> pyobj) list \<Rightarrow> bool pyres outcome io" where
  "nmq_put c fl fuel ob args kws = do {
     st \<leftarrow> posixipc_state_from_obj;
     case st of Some e \<Rightarrow> ret (Returned (Inl e)) | None \<Rightarrow>
       case nmq_check_open ob of Some e \<Rightarrow> ret (Returned (Inl e)) | None \<Rightarrow>
         case args of [] \<Rightarrow> ret (Returned (Inl TypeError)) | data # rest \<Rightarrow> do {
           p \<leftarrow> parse_nmq_put rest kws;
           case p of Inl e \<Rightarrow> ret (Returned (Inl e)) | Inr (opts, prio) \<Rightarrow> do {
             b \<leftarrow> call (Py (GetBuffer data));
             if a_ret b < 0 then ret (Returned (Inl Pending))
             else if length (a_bytes b) < 1 \<or> int (length (a_bytes b)) > nq_msgsize ob then do {
               call_ignore (Py (ReleaseBuffer data));
               ret (Returned (Inl ValueError)) }
             else nmq_put_bytes c fl fuel ob data (a_bytes b) prio opts } } }"

text \<open>The end of get: the bytes object, and the memory goes back.\<close>

definition nmq_deliver :: "addr \<Rightarrow> u8 list \<Rightarrow> int \<Rightarrow> u8 list option pyres outcome io" where
  "nmq_deliver buf bs gn = do {
     o1 \<leftarrow> call (Py (BytesFromString (take (nat gn) bs)));
     call_ignore (Py (PyMem_Free buf));
     ret (Returned (if a_ret o1 < 0 then Inl Pending else Inr (Some (take (nat gn) bs)))) }"

definition nmq_get_buf ::
    "config \<Rightarrow> (rat \<Rightarrow> rat) \<Rightarrow> nat \<Rightarrow> PosixIPCNamedMQObject \<Rightarrow> addr \<Rightarrow> posixipc_acquire_opts \<Rightarrow> u8 list option pyres outcome io" where
  "nmq_get_buf c fl fuel ob buf opts =
     (let len = nat (nq_msgsize ob); fail = (\<lambda>r. do { call_ignore (Py (PyMem_Free buf)); ret (Returned r) }) in
      if \<not> blocking opts then do {
        d \<leftarrow> posixipc_deadline_from_seconds fl CLOCK_REALTIME (Fin 0) (Some deadline0);
        case d of None \<Rightarrow> ret Undefined | Some (rc, user) \<Rightarrow>
          if rc \<noteq> 0 then fail (Inl (raise_err rc))
          else do {
            (rc, bs, _, gn) \<leftarrow> allow_threads (posixipc_mq_receive_until c (nq_mq ob) (Some len) (Some 0) (Some 0) user);
            if rc = ETIMEDOUT \<or> rc = EAGAIN then fail (Inr None)
            else if rc \<noteq> 0 then fail (Inl (raise_err rc))
            else nmq_deliver buf bs (the gn) } }
      else do {
        d \<leftarrow> (if timeout_none opts then ret (Some (0, None))
             else posixipc_deadline_from_seconds fl CLOCK_REALTIME (timeout opts) (Some deadline0));
        case d of None \<Rightarrow> ret Undefined | Some (rc, userp) \<Rightarrow>
          if rc \<noteq> 0 then fail (Inl (raise_err rc))
          else do {
            res \<leftarrow> (if \<not> interruptible opts \<and> timeout_none opts then do {
                     (rc, bs, _, gn) \<leftarrow> allow_threads (posixipc_mq_receive c (nq_mq ob) (Some len) (Some 0) (Some 0));
                     ret (Some (rc, bs, the gn)) }
                   else posixipc_blocking_wait fuel (nmq_recv_cb c (nq_mq ob) len) userp (interruptible opts) CLOCK_REALTIME ([], 0));
            case res of None \<Rightarrow> ret Unfinished | Some (rc, bs, gn) \<Rightarrow>
              if rc = ETIMEDOUT \<or> rc = EAGAIN then fail (Inr None)
              else if rc = POSIXIPC_ERROR_INTERRUPTED then fail (Inl Pending)
              else if rc \<noteq> 0 then fail (Inl (raise_err rc))
              else nmq_deliver buf bs gn } })"

definition nmq_get ::
    "config \<Rightarrow> (rat \<Rightarrow> rat) \<Rightarrow> nat \<Rightarrow> PosixIPCNamedMQObject \<Rightarrow> pyobj list \<Rightarrow> (string \<times> pyobj) list \<Rightarrow>
     u8 list option pyres outcome io" where
  "nmq_get c fl fuel ob args kws = do {
     st \<leftarrow> posixipc_state_from_obj;
     case st of Some e \<Rightarrow> ret (Returned (Inl e)) | None \<Rightarrow>
       case nmq_check_open ob of Some e \<Rightarrow> ret (Returned (Inl e)) | None \<Rightarrow> do {
         p \<leftarrow> posixipc_parse_acquire args kws;
         case p of Inl e \<Rightarrow> ret (Returned (Inl e)) | Inr opts \<Rightarrow> do {
           m \<leftarrow> call (Py (PyMem_Malloc (nat (nq_msgsize ob))));
           if a_ret m < 0 then ret (Returned (Inl MemoryError))
           else nmq_get_buf c fl fuel ob (nat (a_ret m)) opts } } }"

section \<open>Notification\<close>

text \<open>The argument of \<^verbatim>\<open>request_notification\<close>, as the type checks of the code tell it apart.\<close>

datatype notification = Note_none | Note_signal pyobj | Note_call pyobj "pyobj option"

definition nmq_request_notification ::
    "config \<Rightarrow> addr \<Rightarrow> addr \<Rightarrow> PosixIPCNamedMQObject \<Rightarrow> notification \<Rightarrow> (unit pyres \<times> PosixIPCNamedMQObject) io" where
  "nmq_request_notification c self thread_fn ob note = do {
     st \<leftarrow> posixipc_state_from_obj;
     case st of Some e \<Rightarrow> ret (Inl e, ob) | None \<Rightarrow>
       case nmq_check_open ob of Some e \<Rightarrow> ret (Inl e, ob) | None \<Rightarrow> do {
         p \<leftarrow> call (Py (ParseTuple ''|O:request_notification''));
         if a_ret p = 0 then ret (Inl Pending, ob)
         else do {
           ob \<leftarrow> nmq_disarm c ob;
           case note of
             Note_none \<Rightarrow> ret (Inr (), ob)
           | Note_signal n \<Rightarrow> do {
               s \<leftarrow> call (Py (AsLong n));
               e \<leftarrow> call (Py Err_Occurred);
               if a_ret e \<noteq> 0 then ret (Inl Pending, ob)
               else if a_ret s < 1 then ret (Inl ValueError, ob)
               else do {
                 rc \<leftarrow> posixipc_mq_notify_signal c (nq_mq ob) (sint (word_of_int (a_ret s) :: 32 word));
                 ret (if rc \<noteq> 0 then Inl (raise_err rc) else Inr (), ob) } }
           | Note_call fn arg \<Rightarrow> do {
               k \<leftarrow> call (Py (Callable fn));
               if a_ret k = 0 then ret (Inl TypeError, ob)
               else do {
                 let ob = ob\<lparr>nq_fn := Some fn, nq_arg := arg, nq_armed := True, nq_refs := nq_refs ob + 1\<rparr>;
                 rc \<leftarrow> posixipc_mq_notify_thread c (nq_mq ob) (Some thread_fn) self;
                 ret (if rc \<noteq> 0
                      then (Inl (raise_err rc), ob\<lparr>nq_armed := False, nq_fn := None, nq_arg := None, nq_refs := nq_refs ob - 1\<rparr>)
                      else (Inr (), ob)) } } } } }"

text \<open>\<open>cb\<close> is what the Python callback does to the object; it may register the next notification or close the object.\<close>

definition nmq_notify_thread ::
    "(PosixIPCNamedMQObject \<Rightarrow> PosixIPCNamedMQObject io) \<Rightarrow> PosixIPCNamedMQObject \<Rightarrow> PosixIPCNamedMQObject io" where
  "nmq_notify_thread cb ob = do {
     call_ignore (Py GILState_Ensure);
     if \<not> nq_armed ob then do { call_ignore (Py GILState_Release); ret ob }
     else do {
       let fn = nq_fn ob;
       let arg = nq_arg ob;
       let ob = ob\<lparr>nq_armed := False, nq_fn := None, nq_arg := None\<rparr>;
       ob \<leftarrow> (case fn of
              Some f \<Rightarrow> if \<not> flag_set (nq_flags ob) FLAG_CLOSED
                then do {
                  call_ignore (Py (case arg of Some _ \<Rightarrow> CallOneArg f | None \<Rightarrow> CallNoArgs f));
                  ob \<leftarrow> cb ob;
                  call_ignore (Py Err_Occurred);
                  ret ob }
                else ret ob
            | None \<Rightarrow> ret ob);
       let ob = ob\<lparr>nq_refs := nq_refs ob - 1\<rparr>;
       call_ignore (Py GILState_Release);
       ret ob } }"

text \<open>Registration of both queue types.\<close>

definition posixipc_queue_register :: "config \<Rightarrow> (pyexc option \<times> string list) io" where
  "posixipc_queue_register c = do {
     (e, ts) \<leftarrow> register_type True ''Queue'' [];
     if e \<noteq> None then ret (e, ts) else register_type (HAVE_MQ_OPEN c) ''NamedMessageQueue'' ts }"

section \<open>References of a notification\<close>

text \<open>
  The events of an object: a registration, a closing, and a notification the kernel delivers, whose callback may cause
  further events. A notification may also arrive when none is pending any more.
\<close>

datatype nmq_event = Request notification | Close_queue | Fire "nmq_event list"

fun nmq_act :: "config \<Rightarrow> addr \<Rightarrow> addr \<Rightarrow> nmq_event \<Rightarrow> PosixIPCNamedMQObject \<Rightarrow> PosixIPCNamedMQObject io"
  and nmq_acts :: "config \<Rightarrow> addr \<Rightarrow> addr \<Rightarrow> nmq_event list \<Rightarrow> PosixIPCNamedMQObject \<Rightarrow> PosixIPCNamedMQObject io" where
  "nmq_act c self f (Request note) ob = do { (_, ob) \<leftarrow> nmq_request_notification c self f ob note; ret ob }"
| "nmq_act c self f Close_queue ob = nmq_close c ob"
| "nmq_act c self f (Fire es) ob = nmq_notify_thread (nmq_acts c self f es) ob"
| "nmq_acts c self f [] ob = ret ob"
| "nmq_acts c self f (e # es) ob = do { ob \<leftarrow> nmq_act c self f e ob; nmq_acts c self f es ob }"

definition nmq_ok :: "PosixIPCNamedMQObject \<Rightarrow> bool" where
  "nmq_ok ob \<longleftrightarrow> nq_refs ob = (if nq_armed ob then 1 else 0) \<and> (nq_armed ob \<longrightarrow> nq_fn ob \<noteq> None) \<and>
     (flag_set (nq_flags ob) FLAG_CLOSED \<longrightarrow> \<not> nq_armed ob \<and> nq_mq ob = - 1)"

text \<open>While a callback runs, its thread still has the reference of the registration it serves.\<close>

definition nmq_ok_with :: "int \<Rightarrow> PosixIPCNamedMQObject \<Rightarrow> bool" where
  "nmq_ok_with k ob \<longleftrightarrow> nmq_ok (ob\<lparr>nq_refs := nq_refs ob - k\<rparr>)"

lemma gives_then: "gives Q m \<Longrightarrow> (\<And>x. Q x \<Longrightarrow> gives P (f x)) \<Longrightarrow> gives P (m \<bind> f)"
  by (simp add: gives_def run_bind split_beta)

lemma gives_disarm:
  assumes "nmq_ok_with k ob"
  shows "gives (\<lambda>ob'. nmq_ok_with k ob' \<and> \<not> nq_armed ob' \<and> nq_mq ob' = nq_mq ob \<and> nq_flags ob' = nq_flags ob) (nmq_disarm c ob)"
  unfolding nmq_disarm_def using assms by (intro gives_bind gives_ret) (auto simp: nmq_ok_with_def nmq_ok_def split: if_splits)

lemma gives_close: "nmq_ok_with k ob \<Longrightarrow> gives (nmq_ok_with k) (nmq_close c ob)"
  unfolding nmq_close_def
proof (intro gives_cases gives_ret gives_then [OF gives_disarm], assumption, assumption)
  fix ob1
  assume ob1: "nmq_ok_with k ob1 \<and> \<not> nq_armed ob1 \<and> nq_mq ob1 = nq_mq ob \<and> nq_flags ob1 = nq_flags ob"
  have "gives (\<lambda>ob'. nmq_ok_with k ob' \<and> \<not> nq_armed ob' \<and> nq_mq ob' = - 1)
      (if nq_mq ob1 \<noteq> - 1 then do { _ \<leftarrow> posixipc_mq_close c (nq_mq ob1); ret (ob1\<lparr>nq_mq := - 1\<rparr>) } else ret ob1)"
    using ob1 by (intro gives_rules) (auto simp: nmq_ok_with_def nmq_ok_def)
  then show "gives (nmq_ok_with k) (do {
      ob \<leftarrow> (if nq_mq ob1 \<noteq> - 1 then do { _ \<leftarrow> posixipc_mq_close c (nq_mq ob1); ret (ob1\<lparr>nq_mq := - 1\<rparr>) } else ret ob1);
      ret (ob\<lparr>nq_flags := nq_flags ob OR FLAG_CLOSED\<rparr>) })"
    by (rule gives_then) (auto intro!: gives_ret simp: nmq_ok_with_def nmq_ok_def)
qed

lemma gives_note: "(\<And>n. x = Note_signal n \<Longrightarrow> gives P (f n)) \<Longrightarrow> (x = Note_none \<Longrightarrow> gives P m) \<Longrightarrow> (\<And>g a. x = Note_call g a \<Longrightarrow> gives P (h g a)) \<Longrightarrow>
    gives P (case x of Note_none \<Rightarrow> m | Note_signal n \<Rightarrow> f n | Note_call g a \<Rightarrow> h g a)"
  by (cases x) simp_all

lemma gives_request:
  assumes "nmq_ok_with k ob"
  shows "gives (\<lambda>(r, ob'). nmq_ok_with k ob') (nmq_request_notification c self f ob note)"
proof -
  have arm: "nmq_ok_with k (ob1\<lparr>nq_fn := Some fn, nq_arg := arg, nq_armed := True, nq_refs := nq_refs ob1 + 1\<rparr>)"
    if "nmq_ok_with k ob1" "\<not> nq_armed ob1" "\<not> flag_set (nq_flags ob1) FLAG_CLOSED" for ob1 fn arg
    using that by (simp add: nmq_ok_with_def nmq_ok_def)
  have undo: "nmq_ok_with k (ob1\<lparr>nq_armed := False, nq_fn := None, nq_arg := None\<rparr>)"
    if "nmq_ok_with k ob1" "\<not> nq_armed ob1" for ob1
    using that by (simp add: nmq_ok_with_def nmq_ok_def)
  show ?thesis
  proof (cases "nmq_check_open ob")
    case None
    then have "\<not> flag_set (nq_flags ob) FLAG_CLOSED" by (auto simp: nmq_check_open_def split: if_splits)
    with None show ?thesis
      unfolding nmq_request_notification_def Let_def
      by (intro gives_rules gives_note gives_then [OF gives_disarm [OF assms]]) (simp_all add: assms None arm undo)
  qed (unfold nmq_request_notification_def, intro gives_rules; simp add: assms)
qed

lemma gives_notify:
  assumes ok: "nmq_ok_with k ob" and cb: "\<And>ob. nmq_ok_with (k + 1) ob \<Longrightarrow> gives (nmq_ok_with (k + 1)) (cb ob)"
  shows "gives (nmq_ok_with k) (nmq_notify_thread cb ob)"
proof -
  let ?ob = "ob\<lparr>nq_armed := False, nq_fn := None, nq_arg := None\<rparr>"
  have 1: "nq_armed ob \<Longrightarrow> nmq_ok_with (k + 1) ?ob" using ok by (simp add: nmq_ok_with_def nmq_ok_def)
  have 2: "nmq_ok_with (k + 1) x \<Longrightarrow> nmq_ok_with k (x\<lparr>nq_refs := nq_refs x - 1\<rparr>)" for x
    by (simp add: nmq_ok_with_def nmq_ok_def algebra_simps)
  show ?thesis
  proof (cases "nq_armed ob")
    case True
    let ?body = "case nq_fn ob of
          Some f \<Rightarrow> if \<not> flag_set (nq_flags ob) FLAG_CLOSED
            then do {
              call_ignore (Py (case nq_arg ob of Some _ \<Rightarrow> CallOneArg f | None \<Rightarrow> CallNoArgs f));
              ob \<leftarrow> cb ?ob;
              call_ignore (Py Err_Occurred);
              ret ob }
            else ret ?ob
        | None \<Rightarrow> ret ?ob"
    have called: "gives (nmq_ok_with (k + 1)) (do { call_ignore x; ob \<leftarrow> cb ?ob; call_ignore (Py Err_Occurred); ret ob })" for x
      by (rule gives_bind, rule gives_then [OF cb [OF 1 [OF True]]], rule gives_bind, rule gives_ret)
    have body: "gives (nmq_ok_with (k + 1)) ?body"
      using 1 [OF True] called by (auto split: option.split intro: gives_ret)
    have eq: "nmq_notify_thread cb ob = do {
        call_ignore (Py GILState_Ensure);
        ob \<leftarrow> ?body;
        call_ignore (Py GILState_Release);
        ret (ob\<lparr>nq_refs := nq_refs ob - 1\<rparr>) }"
      by (cases "nq_fn ob") (simp_all add: nmq_notify_thread_def True Let_def)
    show ?thesis unfolding eq by (rule gives_bind, rule gives_then [OF body], rule gives_bind, rule gives_ret, rule 2)
  qed (simp add: nmq_notify_thread_def gives_bind gives_ret ok)
qed

lemma gives_events:
  "nmq_ok_with k ob \<Longrightarrow> gives (nmq_ok_with k) (nmq_act c self f e ob)"
  "nmq_ok_with k ob \<Longrightarrow> gives (nmq_ok_with k) (nmq_acts c self f es ob)"
proof (induction c self f e ob and c self f es ob arbitrary: k and k rule: nmq_act_nmq_acts.induct)
  case (1 c self f n ob)
  show ?case unfolding nmq_act.simps
    by (rule gives_then [OF gives_request [OF 1]]) (auto intro: gives_ret)
next
  case (2 c self f ob)
  then show ?case by (simp add: gives_close)
next
  case (3 c self f es ob)
  then show ?case unfolding nmq_act.simps by (intro gives_notify) simp_all
next
  case (5 c self f e es ob)
  show ?case unfolding nmq_acts.simps by (rule gives_then [OF 5(1) [OF 5(3)]]) (rule 5(2))
qed (simp add: gives_ret)

text \<open>
  C23. The references of notifications balance: from an object that holds one self reference exactly while a notification is armed, every
  sequence of registrations, closings and deliveries, with callbacks that register again or close the
  object, and deliveries that come late, ends in such an object; in particular a closed object holds no
  reference and has no armed notification.
\<close>

theorem nmq_refs_balanced:
  assumes "nmq_ok ob"
  shows "nmq_ok (fst (run (nmq_acts c self f es ob) w))"
  using gives_events(2) [of 0 ob c self f es] assms by (simp add: nmq_ok_with_def gives_def)

section \<open>A put sends one message or none\<close>

text \<open>The rules of \<^const>\<open>end_effect\<close> for operations whose result is the outcome alone.\<close>

definition fin_effect ::
    "((history \<Rightarrow> syscall \<Rightarrow> answer) \<Rightarrow> bool) \<Rightarrow> (syscall \<Rightarrow> answer \<Rightarrow> int) \<Rightarrow> ('a \<Rightarrow> int) \<Rightarrow> 'a outcome io \<Rightarrow> bool" where
  "fin_effect E \<delta> k m \<longleftrightarrow> (\<forall>w x w'. E (env w) \<longrightarrow> run m w = (Returned x, w') \<longrightarrow>
     env w' = env w \<and> balance \<delta> w' = balance \<delta> w + k x)"

lemma fin_effectD:
  assumes "fin_effect E \<delta> k m" and "E (env w)" and "run m w = (Returned x, w')"
  shows "env w' = env w" and "balance \<delta> w' = balance \<delta> w + k x"
  using assms unfolding fin_effect_def by blast+

lemma fin_effect_ret: "k x = 0 \<Longrightarrow> fin_effect E \<delta> k (ret (Returned x))"
  by (simp add: fin_effect_def run_ret)

lemma fin_effect_not: "fin_effect E \<delta> k (ret Undefined)" "fin_effect E \<delta> k (ret Unfinished)"
  by (simp_all add: fin_effect_def run_ret)

lemma fin_effect_bind:
  assumes "effect E \<delta> k1 m" and "\<And>x. fin_effect E \<delta> (\<lambda>y. k y - k1 x) (f x)"
  shows "fin_effect E \<delta> k (m \<bind> f)"
  unfolding fin_effect_def
proof (intro allI impI)
  fix w y w'
  assume e: "E (env w)" and r: "run (m \<bind> f) w = (Returned y, w')"
  obtain x w1 where m: "run m w = (x, w1)" by fastforce
  then have f: "run (f x) w1 = (Returned y, w')" using r by (simp add: run_bind)
  have "env w1 = env w" by (rule effectD(1) [OF assms(1) e m])
  with effectD [OF assms(1) e m] fin_effectD [OF assms(2) _ f] e show "env w' = env w \<and> balance \<delta> w' = balance \<delta> w + k y"
    by simp
qed

lemma fin_effect_keeps_bind: "keeps \<delta> m \<Longrightarrow> (\<And>x. fin_effect E \<delta> k (f x)) \<Longrightarrow> fin_effect E \<delta> k (m \<bind> f)"
  using fin_effect_bind [OF effect_keeps] by force

lemma fin_effect_cases:
  "(b \<Longrightarrow> fin_effect E \<delta> k m) \<Longrightarrow> (\<not> b \<Longrightarrow> fin_effect E \<delta> k m') \<Longrightarrow> fin_effect E \<delta> k (if b then m else m')"
  "(x1 = None \<Longrightarrow> fin_effect E \<delta> k m) \<Longrightarrow> (\<And>y. x1 = Some y \<Longrightarrow> fin_effect E \<delta> k (f1 y)) \<Longrightarrow>
     fin_effect E \<delta> k (case x1 of None \<Rightarrow> m | Some y \<Rightarrow> f1 y)"
  "(\<And>y. x2 = Inl y \<Longrightarrow> fin_effect E \<delta> k (g2 y)) \<Longrightarrow> (\<And>y. x2 = Inr y \<Longrightarrow> fin_effect E \<delta> k (f2 y)) \<Longrightarrow>
     fin_effect E \<delta> k (case x2 of Inl y \<Rightarrow> g2 y | Inr y \<Rightarrow> f2 y)"
  "(\<And>a b. p = (a, b) \<Longrightarrow> fin_effect E \<delta> k (f3 a b)) \<Longrightarrow> fin_effect E \<delta> k (case p of (a, b) \<Rightarrow> f3 a b)"
  "(l = [] \<Longrightarrow> fin_effect E \<delta> k m) \<Longrightarrow> (\<And>y ys. l = y # ys \<Longrightarrow> fin_effect E \<delta> k (f4 y ys)) \<Longrightarrow>
     fin_effect E \<delta> k (case l of [] \<Rightarrow> m | y # ys \<Rightarrow> f4 y ys)"
  by (simp_all split: option.splits sum.splits prod.splits list.splits)

text \<open>A wait that may use up its fuel.\<close>

lemma fin_effect_wait:
  assumes "\<And>w x w'. E (env w) \<Longrightarrow> run m w = (Some x, w') \<Longrightarrow> env w' = env w \<and> balance \<delta> w' = balance \<delta> w + k1 x"
    and "\<And>x. fin_effect E \<delta> (\<lambda>y. k y - k1 x) (f x)"
  shows "fin_effect E \<delta> k (do { r \<leftarrow> m; case r of None \<Rightarrow> ret Unfinished | Some x \<Rightarrow> f x })"
  unfolding fin_effect_def
proof (intro allI impI)
  fix w y w'
  assume e: "E (env w)" and r: "run (do { r \<leftarrow> m; case r of None \<Rightarrow> ret Unfinished | Some x \<Rightarrow> f x }) w = (Returned y, w')"
  obtain z w1 where m: "run m w = (z, w1)" by fastforce
  with r obtain x where z: "z = Some x" by (cases z) (simp_all add: run_bind run_ret)
  then have f: "run (f x) w1 = (Returned y, w')" using r m by (simp add: run_bind)
  from fin_effectD [OF assms(2) _ f] assms(1) [OF e m [unfolded z]] e
  show "env w' = env w \<and> balance \<delta> w' = balance \<delta> w + k y" by simp
qed

text \<open>Messages sent to and received from the queue \<open>q\<close>; a call counts when the wrapper reports success.\<close>

fun sent_delta :: "int \<Rightarrow> syscall \<Rightarrow> answer \<Rightarrow> int" where
  "sent_delta q (Mq (Mq_send m bs p)) a = (if m = q \<and> zero_code a then 1 else 0)"
| "sent_delta q (Mq (Mq_timedsend m bs p ts)) a = (if m = q \<and> zero_code a then 1 else 0)"
| "sent_delta q _ a = 0"

fun received_delta :: "int \<Rightarrow> syscall \<Rightarrow> answer \<Rightarrow> int" where
  "received_delta q (Mq (Mq_receive m n)) a = (if m = q \<and> (0 \<le> a_ret a \<or> a_errno a = 0) then 1 else 0)"
| "received_delta q (Mq (Mq_timedreceive m n ts)) a = (if m = q \<and> (0 \<le> a_ret a \<or> a_errno a = 0) then 1 else 0)"
| "received_delta q _ a = 0"

lemma lock_like_mq: "lock_like (sent_delta q)" "lock_like (received_delta q)"
  by (simp_all add: lock_like_def)

abbreviation (input) one_if :: "bool \<Rightarrow> int" where "one_if b \<equiv> (if b then 1 else 0)"

lemma effect_send:
  "effect E (sent_delta q) (\<lambda>rc. one_if (mq = q \<and> rc = 0)) (posixipc_mq_send c mq (Some bs) prio)"
  "effect E (sent_delta q) (\<lambda>rc. one_if (mq = q \<and> rc = 0)) (posixipc_mq_send_until c mq (Some bs) prio d)"
  unfolding posixipc_mq_send_def posixipc_mq_send_until_def prod.case option.case
  by (intro effect_if effect_option effect_ret effect_errno; simp add: zero_code_def)+

lemma effect_receive:
  "effect E (received_delta q) (\<lambda>x. one_if (mq = q \<and> fst x = 0)) (posixipc_mq_receive c mq (Some n) pr (Some g))"
  "effect E (received_delta q) (\<lambda>x. one_if (mq = q \<and> fst x = 0)) (posixipc_mq_receive_until c mq (Some n) pr (Some g) d)"
  by (auto simp: effect_def posixipc_mq_receive_def posixipc_mq_receive_until_def run_bind run_ret run_call split: if_splits option.splits)

interpretation send_wait: waiter "nmq_send_cb c mq bs prio" "sent_delta q" "\<lambda>rc. one_if (mq = q \<and> rc = 0)" for c mq bs prio q
proof unfold_locales
  fix s d w
  obtain rc w' where r: "run (posixipc_mq_send_until c mq (Some bs) (unat prio) (Some d)) w = (rc, w')" by fastforce
  note e = effectD [OF effect_send(2) TrueI r]
  have "length (trace w) \<le> length (trace w')"
    using r by (auto simp: posixipc_mq_send_until_def run_call_errno run_ret split: if_splits)
  with e(1) e(2) [of q] r show "env (snd (run (nmq_send_cb c mq bs prio s d) w)) = env w"
    and "length (trace w) \<le> length (trace (snd (run (nmq_send_cb c mq bs prio s d) w)))"
    and "balance (sent_delta q) (snd (run (nmq_send_cb c mq bs prio s d) w)) =
      balance (sent_delta q) w + one_if (mq = q \<and> fst (fst (run (nmq_send_cb c mq bs prio s d) w)) = 0)"
    by (simp_all add: nmq_send_cb_def run_bind run_ret)
qed (auto simp: lock_like_mq)

interpretation recv_wait: waiter "nmq_recv_cb c mq n" "received_delta q" "\<lambda>rc. one_if (mq = q \<and> rc = 0)" for c mq n q
proof unfold_locales
  fix s :: "u8 list \<times> int" and d w
  obtain bs g where s: "s = (bs, g)" by fastforce
  obtain rc b2 p2 g2 w' where r: "run (posixipc_mq_receive_until c mq (Some n) (Some 0) (Some g) (Some d)) w = ((rc, b2, p2, g2), w')"
    by (metis prod_cases5 surj_pair)
  note e = effectD [OF effect_receive(2) TrueI r]
  have "length (trace w) \<le> length (trace w')"
    using r by (auto simp: posixipc_mq_receive_until_def run_bind run_call run_ret split: if_splits)
  with e(1) e(2) [of q] r show "env (snd (run (nmq_recv_cb c mq n s d) w)) = env w"
    and "length (trace w) \<le> length (trace (snd (run (nmq_recv_cb c mq n s d) w)))"
    and "balance (received_delta q) (snd (run (nmq_recv_cb c mq n s d) w)) =
      balance (received_delta q) w + one_if (mq = q \<and> fst (fst (run (nmq_recv_cb c mq n s d) w)) = 0)"
    by (simp_all add: nmq_recv_cb_def s run_bind run_ret)
qed (auto simp: lock_like_mq)

lemma keeps_nmq_keywords: "lock_like \<delta> \<Longrightarrow> keeps \<delta> (nmq_keywords nargs kws tobj bl it prio)"
proof (induction kws arbitrary: tobj bl it prio)
  case (Cons kw kws)
  obtain key val where "kw = (key, val)" by fastforce
  then show ?case
    by (simp only: nmq_keywords.simps) (intro keeps_rules Cons.IH Cons.prems lock_likeD(3); simp)
qed (simp add: keeps_ret)

lemma keeps_parse_put: "lock_like \<delta> \<Longrightarrow> keeps \<delta> (parse_nmq_put args kws)"
  unfolding parse_nmq_put_def by (intro keeps_rules keeps_nmq_keywords keeps_timeout)

lemma keeps_user: "lock_like \<delta> \<Longrightarrow> keeps \<delta> (if timeout_none opts then ret (Some (0, None))
    else posixipc_deadline_from_seconds fl clk (timeout opts) (Some deadline0))"
  by (intro keeps_rules keeps_deadline)

text \<open>The two ways to wait, as one step.\<close>

lemma send_step:
  assumes "clock_ok (env w)" and "run (if b then do { rc \<leftarrow> allow_threads (posixipc_mq_send c mq (Some bs) (unat prio)); ret (Some (rc, ())) }
      else posixipc_blocking_wait fuel (nmq_send_cb c mq bs prio) userp intr clk ()) w = (Some x, w')"
  shows "env w' = env w \<and> balance (sent_delta q) w' = balance (sent_delta q) w + one_if (mq = q \<and> fst x = 0)"
proof (cases b)
  case True
  obtain rc w1 where r: "run (allow_threads (posixipc_mq_send c mq (Some bs) (unat prio))) w = (rc, w1)" by fastforce
  from effectD [OF effect_allow_threads [OF lock_like_mq(1) effect_send(1) [where q = q]] TrueI r] assms(2) True r show ?thesis
    by (auto simp: run_bind run_ret)
next
  case False
  then have r: "run (posixipc_blocking_wait fuel (nmq_send_cb c mq bs prio) userp intr clk ()) w = (Some (fst x, ()), w')"
    using assms(2) by (cases x) simp
  from send_wait.blocking_wait_env [OF r] send_wait.blocking_wait_balance [OF clock_okD [OF assms(1)] r, of q] show ?thesis by simp
qed

lemma receive_step:
  assumes "clock_ok (env w)" and "run (if b then do { (rc, bs, _, n) \<leftarrow> allow_threads (posixipc_mq_receive c mq (Some len) (Some 0) (Some 0)); ret (Some (rc, bs, the n)) }
      else posixipc_blocking_wait fuel (nmq_recv_cb c mq len) userp intr clk s) w = (Some x, w')"
  shows "env w' = env w \<and> balance (received_delta q) w' = balance (received_delta q) w + one_if (mq = q \<and> fst x = 0)"
proof (cases b)
  case True
  obtain y w1 where r: "run (allow_threads (posixipc_mq_receive c mq (Some len) (Some 0) (Some 0))) w = (y, w1)" by fastforce
  from effectD [OF effect_allow_threads [OF lock_like_mq(2) effect_receive(1) [where q = q]] TrueI r] assms(2) True r show ?thesis
    by (auto simp: run_bind run_ret split: prod.splits)
next
  case False
  obtain rc y where x: "x = (rc, y)" by (cases x)
  with False assms(2) have r: "run (posixipc_blocking_wait fuel (nmq_recv_cb c mq len) userp intr clk s) w = (Some (rc, y), w')" by simp
  from recv_wait.blocking_wait_env [OF r] recv_wait.blocking_wait_balance [OF clock_okD [OF assms(1)] r, of q] x show ?thesis by simp
qed

lemma put_bytes_effect:
  "fin_effect clock_ok (sent_delta q) (\<lambda>r. one_if (nq_mq ob = q \<and> r = Inr True)) (nmq_put_bytes c fl fuel ob data bs prio opts)"
  unfolding nmq_put_bytes_def
  by (intro fin_effect_cases fin_effect_keeps_bind [OF keeps_user] fin_effect_keeps_bind [OF keeps_deadline] fin_effect_keeps_bind [OF keeps_call_ignore]
      fin_effect_wait [OF send_step [where q = q]] fin_effect_bind [OF effect_allow_threads [OF lock_like_mq(1) effect_send(2)]]
      fin_effect_not fin_effect_ret lock_like_mq)
    auto

lemma put_effect:
  "fin_effect clock_ok (sent_delta q) (\<lambda>r. one_if (nq_mq ob = q \<and> r = Inr True)) (nmq_put c fl fuel ob args kws)"
  unfolding nmq_put_def
  by (intro fin_effect_cases fin_effect_keeps_bind [OF keeps_state_from] fin_effect_keeps_bind [OF keeps_parse_put] fin_effect_keeps_bind [OF keeps_call_ignore]
      fin_effect_keeps_bind [OF keeps_call] put_bytes_effect fin_effect_ret lock_like_mq)
    auto

text \<open>Message queue calls touch neither buffers nor memory.\<close>

definition mq_quiet :: "(syscall \<Rightarrow> answer \<Rightarrow> int) \<Rightarrow> bool" where
  "mq_quiet \<delta> \<longleftrightarrow> lock_like \<delta> \<and> (\<forall>c a. \<delta> (Mq c) a = 0)"

lemma mq_quiet_deltas: "mq_quiet (buffer_delta x)" "mq_quiet (block_delta p)"
  using sync_quietD(1) [OF sync_quiet_buffer] sync_quietD(1) [OF sync_quiet_block] by (simp_all add: mq_quiet_def)

lemma mq_quietD: "mq_quiet \<delta> \<Longrightarrow> lock_like \<delta>" "mq_quiet \<delta> \<Longrightarrow> \<delta> (Mq c) a = 0"
  by (simp_all add: mq_quiet_def)

lemma keeps_mq_io:
  assumes "mq_quiet \<delta>"
  shows "keeps \<delta> (posixipc_mq_send c mq bs prio)" "keeps \<delta> (posixipc_mq_send_until c mq bs prio d)"
    "keeps \<delta> (posixipc_mq_receive c mq n pr g)" "keeps \<delta> (posixipc_mq_receive_until c mq n pr g d)"
    "keeps \<delta> (nmq_send_cb c mq b p s dl)" "keeps \<delta> (nmq_recv_cb c mq k t dl)"
  unfolding posixipc_mq_send_def posixipc_mq_send_until_def posixipc_mq_receive_def posixipc_mq_receive_until_def nmq_send_cb_def nmq_recv_cb_def
  by (auto simp: mq_quietD [OF assms] intro!: keeps_rules split: option.split prod.split)

lemmas keeps_mq = keeps_allow_threads keeps_blocking_wait keeps_mq_io keeps_user keeps_deadline keeps_rules mq_quietD(1)

lemma put_bytes_releases:
  assumes "mq_quiet \<delta>" and rel: "effect E \<delta> (\<lambda>_. R) (call_ignore (Py (ReleaseBuffer data)))"
  shows "fin_effect E \<delta> (\<lambda>_. R) (nmq_put_bytes c fl fuel ob data bs prio opts)"
  unfolding nmq_put_bytes_def
  by (intro fin_effect_cases fin_effect_keeps_bind [OF keeps_user] fin_effect_keeps_bind [OF keeps_deadline] fin_effect_bind [OF rel]
      fin_effect_keeps_bind [OF keeps_if] fin_effect_keeps_bind [OF keeps_allow_threads] keeps_mq fin_effect_not fin_effect_ret assms) simp_all

lemma put_releases: "fin_effect E (buffer_delta x) (\<lambda>_. 0) (nmq_put c fl fuel ob args kws)"
proof -
  note q = mq_quiet_deltas(1) [of x]
  have rel: "effect E (buffer_delta x) (\<lambda>_. - one_if (data = x)) (call_ignore (Py (ReleaseBuffer data)))" for data
    by (simp add: effect_def run_call_ignore)
  have "fin_effect E (buffer_delta x) (\<lambda>_. 0) (do {
      b \<leftarrow> call (Py (GetBuffer data));
      if a_ret b < 0 then ret (Returned (Inl Pending))
      else if length (a_bytes b) < 1 \<or> int (length (a_bytes b)) > nq_msgsize ob then do {
        call_ignore (Py (ReleaseBuffer data));
        ret (Returned (Inl ValueError)) }
      else nmq_put_bytes c fl fuel ob data (a_bytes b) prio opts })" for data prio opts
  proof (rule fin_effect_bind [OF effect_call])
    fix b
    have bytes: "fin_effect E (buffer_delta x) (\<lambda>_. 0 - buffer_delta x (Py (GetBuffer data)) b) (nmq_put_bytes c fl fuel ob data (a_bytes b) prio opts)"
      if "\<not> a_ret b < 0"
      using put_bytes_releases [OF q rel, of data] that by simp
    show "fin_effect E (buffer_delta x) (\<lambda>_. 0 - buffer_delta x (Py (GetBuffer data)) b) (
      if a_ret b < 0 then ret (Returned (Inl Pending))
      else if length (a_bytes b) < 1 \<or> int (length (a_bytes b)) > nq_msgsize ob then do {
        call_ignore (Py (ReleaseBuffer data));
        ret (Returned (Inl ValueError)) }
      else nmq_put_bytes c fl fuel ob data (a_bytes b) prio opts)"
      by (intro fin_effect_cases fin_effect_bind [OF rel] fin_effect_ret bytes) simp_all
  qed
  then show ?thesis
    unfolding nmq_put_def
    by (intro fin_effect_cases fin_effect_keeps_bind [OF keeps_state_from] fin_effect_keeps_bind [OF keeps_parse_put] fin_effect_ret
        mq_quietD(1) [OF q]) simp_all
qed

text \<open>
  C22. \<^verbatim>\<open>NamedMessageQueue.put\<close> sends exactly one message when it returns True, and none when it returns False or raises, in the blocking, timed and
  non-blocking forms, also when it is interrupted or a slice of the wait runs out; and it releases the
  buffer of the data on every path.
\<close>

theorem nmq_put_sends_once:
  assumes "clock_errors w" and "run (nmq_put c fl fuel ob args kws) w = (Returned r, w')"
  shows "balance (sent_delta q) w' = balance (sent_delta q) w + (if nq_mq ob = q \<and> r = Inr True then 1 else 0) \<and>
    balance (buffer_delta x) w' = balance (buffer_delta x) w"
  using fin_effectD(2) [OF put_effect clock_okI [OF assms(1)] assms(2), of q] fin_effectD(2) [OF put_releases [of clock_ok x] clock_okI [OF assms(1)] assms(2)]
  by simp

text \<open>The interpreter can make the bytes object of a received message.\<close>

definition bytes_made :: "(history \<Rightarrow> syscall \<Rightarrow> answer) \<Rightarrow> bool" where
  "bytes_made e \<longleftrightarrow> (\<forall>h bs. 0 \<le> a_ret (e h (Py (BytesFromString bs))))"

lemma deliver_effect:
  "fin_effect (\<lambda>e. clock_ok e \<and> bytes_made e) (received_delta q) (\<lambda>r. one_if (b \<and> (\<exists>bs. r = Inr (Some bs))) - one_if b) (nmq_deliver buf bs n)"
  by (auto simp: fin_effect_def nmq_deliver_def run_bind run_call run_call_ignore run_ret bytes_made_def answer_to_def) (metis linorder_not_le)

lemma get_buf_effect:
  "fin_effect (\<lambda>e. clock_ok e \<and> bytes_made e) (received_delta q) (\<lambda>r. one_if (nq_mq ob = q \<and> (\<exists>bs. r = Inr (Some bs))))
     (nmq_get_buf c fl fuel ob buf opts)"
  unfolding nmq_get_buf_def Let_def
  by (intro fin_effect_cases fin_effect_keeps_bind [OF keeps_user] fin_effect_keeps_bind [OF keeps_deadline] fin_effect_keeps_bind [OF keeps_call_ignore]
      fin_effect_wait [OF receive_step [where q = q]] fin_effect_bind [OF effect_allow_threads [OF lock_like_mq(2) effect_receive(2)]]
      fin_effect_not fin_effect_ret lock_like_mq)
    (auto simp: deliver_effect [where b = True, simplified] deliver_effect [where b = False, simplified])

lemma get_effect:
  "fin_effect (\<lambda>e. clock_ok e \<and> bytes_made e) (received_delta q) (\<lambda>r. one_if (nq_mq ob = q \<and> (\<exists>bs. r = Inr (Some bs))))
     (nmq_get c fl fuel ob args kws)"
  unfolding nmq_get_def
  by (intro fin_effect_cases fin_effect_keeps_bind [OF keeps_state_from] fin_effect_keeps_bind [OF keeps_parse_acquire]
      fin_effect_keeps_bind [OF keeps_call] get_buf_effect fin_effect_ret lock_like_mq)
    auto

lemma get_buf_frees:
  assumes "mq_quiet \<delta>" and rel: "effect E \<delta> (\<lambda>_. R) (call_ignore (Py (PyMem_Free buf)))" and b: "\<And>x a. \<delta> (Py (BytesFromString x)) a = 0"
  shows "fin_effect E \<delta> (\<lambda>_. R) (nmq_get_buf c fl fuel ob buf opts)"
  unfolding nmq_get_buf_def nmq_deliver_def Let_def
  by (intro fin_effect_cases fin_effect_keeps_bind [OF keeps_user] fin_effect_keeps_bind [OF keeps_deadline] fin_effect_bind [OF rel]
      fin_effect_keeps_bind [OF keeps_call]
      fin_effect_keeps_bind [OF keeps_if] fin_effect_keeps_bind [OF keeps_allow_threads] keeps_mq fin_effect_not fin_effect_ret assms)
    (simp_all add: lock_likeD(3) [OF mq_quietD(1) [OF assms(1)]] b)

lemma get_frees: "fin_effect E (block_delta p) (\<lambda>_. 0) (nmq_get c fl fuel ob args kws)"
proof -
  note q = mq_quiet_deltas(2) [of p]
  have rel: "effect E (block_delta p) (\<lambda>_. - one_if (buf = p)) (call_ignore (Py (PyMem_Free buf)))" for buf
    by (simp add: effect_def run_call_ignore)
  have "fin_effect E (block_delta p) (\<lambda>_. 0) (do {
      m \<leftarrow> call (Py (PyMem_Malloc n));
      if a_ret m < 0 then ret (Returned (Inl MemoryError))
      else nmq_get_buf c fl fuel ob (nat (a_ret m)) opts })" for n opts
  proof (rule fin_effect_bind [OF effect_call])
    fix m
    have bytes: "fin_effect E (block_delta p) (\<lambda>_. 0 - block_delta p (Py (PyMem_Malloc n)) m) (nmq_get_buf c fl fuel ob (nat (a_ret m)) opts)"
      if "\<not> a_ret m < 0"
    proof -
      have "(nat (a_ret m) = p) = (a_ret m = int p)" using that by auto
      with get_buf_frees [OF q rel, of "nat (a_ret m)" c fl fuel ob opts] show ?thesis by simp
    qed
    show "fin_effect E (block_delta p) (\<lambda>_. 0 - block_delta p (Py (PyMem_Malloc n)) m)
      (if a_ret m < 0 then ret (Returned (Inl MemoryError)) else nmq_get_buf c fl fuel ob (nat (a_ret m)) opts)"
      by (intro fin_effect_cases fin_effect_ret bytes) simp_all
  qed
  then show ?thesis
    unfolding nmq_get_def
    by (intro fin_effect_cases fin_effect_keeps_bind [OF keeps_state_from] fin_effect_keeps_bind [OF keeps_parse_acquire] fin_effect_ret
        mq_quietD(1) [OF q]) simp_all
qed

text \<open>
  \<^verbatim>\<open>NamedMessageQueue.get\<close> takes exactly one message when it returns bytes, and none when it returns None or raises, provided the interpreter can make
  the bytes object; and it frees its receive buffer on every path.
\<close>

theorem nmq_get_takes_once:
  assumes "clock_errors w" and "bytes_made (env w)" and "run (nmq_get c fl fuel ob args kws) w = (Returned r, w')"
  shows "balance (received_delta q) w' = balance (received_delta q) w + (if nq_mq ob = q \<and> (\<exists>bs. r = Inr (Some bs)) then 1 else 0) \<and>
    balance (block_delta p) w' = balance (block_delta p) w"
  using fin_effectD(2) [OF get_effect conjI [OF clock_okI [OF assms(1)] assms(2)] assms(3), of q]
    fin_effectD(2) [OF get_frees [of clock_ok p] clock_okI [OF assms(1)] assms(3)]
  by simp

section \<open>Descriptors\<close>

fun mqd_delta :: "int \<Rightarrow> syscall \<Rightarrow> answer \<Rightarrow> int" where
  "mqd_delta q (Mq (Mq_open nm fl attr)) a = one_if (a_ret a = q)"
| "mqd_delta q (Mq (Mq_close m)) a = - one_if (m = q)"
| "mqd_delta q _ a = 0"

definition holds_mq :: "int \<Rightarrow> PosixIPCNamedMQObject \<Rightarrow> int" where
  "holds_mq q ob = one_if (nq_mq ob = q \<and> q \<noteq> - 1)"

lemma mqd_quiet: "lock_like (mqd_delta q)"
  by (simp add: lock_like_def)

lemma holds_mq_update [simp]:
  "holds_mq q (ob\<lparr>nq_armed := b\<rparr>) = holds_mq q ob" "holds_mq q (ob\<lparr>nq_fn := x\<rparr>) = holds_mq q ob" "holds_mq q (ob\<lparr>nq_arg := x\<rparr>) = holds_mq q ob"
  "holds_mq q (ob\<lparr>nq_refs := r\<rparr>) = holds_mq q ob" "holds_mq q (ob\<lparr>nq_flags := fl\<rparr>) = holds_mq q ob"
  "holds_mq q (ob\<lparr>nq_name := nm\<rparr>) = holds_mq q ob"
  by (simp_all add: holds_mq_def)

lemma effect_disarm: "effect E (mqd_delta q) (\<lambda>ob'. holds_mq q ob' - holds_mq q ob) (nmq_disarm c ob)"
  unfolding nmq_disarm_def posixipc_mq_notify_cancel_def
  by (intro effect_keeps_bind keeps_rules effect_ret) simp_all

lemma effect_drop_mq:
  assumes "HAVE_MQ_OPEN c"
  shows "effect E (mqd_delta q) (\<lambda>ob'. holds_mq q ob' - holds_mq q ob)
    (if nq_mq ob \<noteq> - 1 then do { _ \<leftarrow> posixipc_mq_close c (nq_mq ob); ret (ob\<lparr>nq_mq := - 1\<rparr>) } else ret ob)"
proof (cases "nq_mq ob = - 1")
  case False
  with assms show ?thesis by (simp add: effect_def posixipc_mq_close_def run_bind run_ret run_call_errno) (simp add: holds_mq_def)
qed (simp add: effect_ret)

lemma effect_nmq_close:
  assumes "HAVE_MQ_OPEN c"
  shows "effect E (mqd_delta q) (\<lambda>ob'. holds_mq q ob' - holds_mq q ob) (nmq_close c ob)"
  unfolding nmq_close_def
  by (rule effect_if, rule effect_ret, simp, rule effect_bind [OF effect_disarm], rule effect_bind [OF effect_drop_mq [OF assms]], rule effect_ret, simp)

lemma effect_nmq_note:
  "(x = Note_none \<Longrightarrow> effect E \<delta> k m) \<Longrightarrow> (\<And>n. x = Note_signal n \<Longrightarrow> effect E \<delta> k (f n)) \<Longrightarrow> (\<And>g a. x = Note_call g a \<Longrightarrow> effect E \<delta> k (h g a)) \<Longrightarrow>
     effect E \<delta> k (case x of Note_none \<Rightarrow> m | Note_signal n \<Rightarrow> f n | Note_call g a \<Rightarrow> h g a)"
  by (cases x) simp_all

lemma effect_request:
  "effect E (mqd_delta q) (\<lambda>(r, ob'). holds_mq q ob' - holds_mq q ob) (nmq_request_notification c self f ob n)"
  unfolding nmq_request_notification_def Let_def posixipc_mq_notify_signal_def posixipc_mq_notify_thread_def option.case
  by (intro effect_keeps_bind [OF keeps_state_from [OF mqd_quiet]] effect_option effect_keeps_bind [OF keeps_call] effect_if effect_ret effect_bind [OF effect_disarm]
      effect_nmq_note effect_keeps_bind [OF keeps_if] keeps_rules) (auto intro!: keeps_rules)

lemma effect_notify:
  assumes "\<And>ob. effect E (mqd_delta q) (\<lambda>ob'. holds_mq q ob' - holds_mq q ob) (cb ob)"
  shows "effect E (mqd_delta q) (\<lambda>ob'. holds_mq q ob' - holds_mq q ob) (nmq_notify_thread cb ob)"
proof -
  have body: "effect E (mqd_delta q) (\<lambda>ob'. holds_mq q ob' - holds_mq q ob1)
      (case fn of Some f \<Rightarrow> if b then do { call_ignore (Py x); ob \<leftarrow> cb ob1; call_ignore (Py Err_Occurred); ret ob } else ret ob1 | None \<Rightarrow> ret ob1)"
    if "plain_py x" for fn :: "pyobj option" and b x ob1
    using that
    by (intro effect_option effect_if effect_ret effect_keeps_bind [OF keeps_call_ignore] effect_bind [OF assms])
      (simp_all add: lock_likeD(3) [OF mqd_quiet])
  have "effect E (mqd_delta q) (\<lambda>ob'. holds_mq q ob' - holds_mq q ob)
      (case nq_fn ob of Some f \<Rightarrow> if b then do { call_ignore (Py (case nq_arg ob of Some _ \<Rightarrow> CallOneArg f | None \<Rightarrow> CallNoArgs f));
         ob \<leftarrow> cb (ob\<lparr>nq_armed := False, nq_fn := None, nq_arg := None\<rparr>); call_ignore (Py Err_Occurred); ret ob }
         else ret (ob\<lparr>nq_armed := False, nq_fn := None, nq_arg := None\<rparr>) | None \<Rightarrow> ret (ob\<lparr>nq_armed := False, nq_fn := None, nq_arg := None\<rparr>))" for b
    using body [where fn = "nq_fn ob" and ?ob1.0 = "ob\<lparr>nq_armed := False, nq_fn := None, nq_arg := None\<rparr>"]
    by (cases "nq_fn ob"; cases "nq_arg ob") (simp_all add: effect_ret)
  then show ?thesis
    unfolding nmq_notify_thread_def Let_def
    by (intro effect_keeps_bind [OF keeps_call_ignore] effect_if effect_ret effect_bind)
      (auto intro!: effect_keeps_bind [OF keeps_call_ignore] effect_ret)
qed

lemma effect_acts:
  assumes "HAVE_MQ_OPEN c"
  shows "effect E (mqd_delta q) (\<lambda>ob'. holds_mq q ob' - holds_mq q ob) (nmq_act c self f e ob)"
    "effect E (mqd_delta q) (\<lambda>ob'. holds_mq q ob' - holds_mq q ob) (nmq_acts c self f es ob)"
  using assms
proof (induction c self f e ob and c self f es ob rule: nmq_act_nmq_acts.induct)
  case (1 c self f n ob)
  show ?case unfolding nmq_act.simps by (rule effect_bind [OF effect_request]) (auto intro!: effect_prod effect_ret)
next
  case (2 c self f ob)
  then show ?case by (simp add: effect_nmq_close)
next
  case (3 c self f es ob)
  then show ?case unfolding nmq_act.simps by (intro effect_notify) simp_all
next
  case (5 c self f e es ob)
  show ?case unfolding nmq_acts.simps
    by (rule effect_bind [OF 5(1) [OF 5(3)]], rule effect_mono [OF 5(2) [OF 5(3)]]) (simp add: fun_eq_iff)
qed (simp add: effect_ret)

text \<open>
  Destroying an object that never got a descriptor closes descriptor 0: \<^verbatim>\<open>NamedMessageQueue()\<close>, which always raises \<^verbatim>\<open>TypeError\<close>, has closed
  descriptor 0 (on Linux, the standard input of the process) when it returns, and so does \<^verbatim>\<open>create\<close> or \<^verbatim>\<open>attach\<close>
  when the size of the messages cannot be read.
\<close>

theorem nmq_call_closes_stdin:
  assumes "HAVE_MQ_OPEN c" and "0 \<le> a_ret (answer_to w (Py Tp_alloc))"
  shows "\<exists>w'. run (nmq_call c) w = (Inl TypeError, w') \<and> balance (mqd_delta 0) w' = balance (mqd_delta 0) w - 1"
  using assms
  by (simp add: nmq_call_def nmq_dealloc_def nmq_disarm_def nmq_zero_def nmq_init_def posixipc_mq_notify_cancel_def posixipc_mq_close_def
      flag_set_def run_bind run_call run_ret run_call_errno run_call_ignore)

text \<open>
  A message queue descriptor is closed exactly once: whatever sequence of registrations, closings and notifications an open object goes
  through, destroying it leaves its descriptor closed once and every other descriptor alone.
\<close>

theorem nmq_closed_once:
  assumes "HAVE_MQ_OPEN c" and "nmq_ok ob" and "run (nmq_acts c self f es ob) w = (ob1, w1)" and "run (nmq_dealloc c ob1) w1 = (ob2, w2)"
  shows "balance (mqd_delta q) w2 = balance (mqd_delta q) w - (if nq_mq ob = q \<and> q \<noteq> - 1 then 1 else 0)"
proof -
  have "nmq_ok ob1" using gives_events(2) [of 0 ob c self f es] assms(2,3) by (auto simp: nmq_ok_with_def gives_def dest: spec [of _ w])
  moreover have b1: "balance (mqd_delta q) w1 = balance (mqd_delta q) w + (holds_mq q ob1 - holds_mq q ob)"
    by (rule effectD(2) [OF effect_acts(2) [OF assms(1)] TrueI assms(3)])
  moreover have inner: "effect (\<lambda>_. True) (mqd_delta q) (\<lambda>ob'. holds_mq q ob' - holds_mq q ob1)
      (if \<not> flag_set (nq_flags ob1) FLAG_CLOSED then do {
         ob \<leftarrow> nmq_disarm c ob1;
         if nq_mq ob \<noteq> - 1 then do { _ \<leftarrow> posixipc_mq_close c (nq_mq ob); ret (ob\<lparr>nq_mq := - 1\<rparr>) } else ret ob }
       else ret ob1)"
    by (rule effect_if, rule effect_bind [OF effect_disarm],
        rule effect_mono [OF effect_drop_mq [OF assms(1)]], simp add: fun_eq_iff, rule effect_ret, simp)
  have "effect (\<lambda>_. True) (mqd_delta q) (\<lambda>ob'. holds_mq q ob' - holds_mq q ob1) (nmq_dealloc c ob1)"
    unfolding nmq_dealloc_def
    by (rule effect_bind [OF inner], rule effect_keeps_bind [OF keeps_call_ignore], simp, rule effect_ret, simp)
  note effectD(2) [OF this TrueI assms(4)]
  moreover have "holds_mq q ob2 = 0"
    using \<open>nmq_ok ob1\<close> assms(4)
    by (auto simp: nmq_dealloc_def nmq_disarm_def run_bind run_ret run_call_ignore holds_mq_def nmq_ok_def split: if_splits prod.splits)
  ultimately show ?thesis by (simp add: holds_mq_def)
qed

section \<open>Examples\<close>

definition demo_mq :: PosixIPCNamedMQObject where
  "demo_mq = nmq_zero\<lparr>nq_mq := 4, nq_msgsize := 16, nq_flags := FLAG_BOUND, nq_name := Some (64, ''/q'')\<rparr>"

lemma demo_mq_ok: "nmq_ok demo_mq" "nmq_check_open demo_mq = None"
  by (simp_all add: demo_mq_def nmq_zero_def nmq_ok_def nmq_check_open_def flag_set_def)

theorem nmq_refs_balanced_witness:
  "nmq_ok (fst (run (nmq_acts glibc_x86_64 1 2 [Request (Note_call (Obj 3) None), Fire [Request (Note_call (Obj 3) None)], Close_queue] demo_mq) py_world))"
  by (rule nmq_refs_balanced [OF demo_mq_ok(1)])

theorem nmq_closed_once_witness:
  "\<exists>ob1 w1 ob2 w2. run (nmq_acts glibc_x86_64 1 2 [Request (Note_call (Obj 3) None), Fire [Close_queue]] demo_mq) py_world = (ob1, w1) \<and>
     run (nmq_dealloc glibc_x86_64 ob1) w1 = (ob2, w2) \<and> balance (mqd_delta 4) w2 = - 1"
proof -
  obtain ob1 w1 where a: "run (nmq_acts glibc_x86_64 1 2 [Request (Note_call (Obj 3) None), Fire [Close_queue]] demo_mq) py_world = (ob1, w1)"
    by fastforce
  obtain ob2 w2 where d: "run (nmq_dealloc glibc_x86_64 ob1) w1 = (ob2, w2)" by fastforce
  have c: "HAVE_MQ_OPEN glibc_x86_64" by (simp add: glibc_x86_64_def)
  have "nq_mq demo_mq = 4" by (simp add: demo_mq_def)
  with nmq_closed_once [OF c demo_mq_ok(1) a d, of 4] a d show ?thesis by (simp add: balance_def py_world_def)
qed

definition mq_world :: world where
  "mq_world = \<lparr>env = \<lambda>h c. answer0\<lparr>a_bytes := [1, 2]\<rparr>, trace = []\<rparr>"

lemma answer_to_mq: "env w = env mq_world \<Longrightarrow> answer_to w c = answer0\<lparr>a_bytes := [1, 2]\<rparr>"
  by (simp add: answer_to_def mq_world_def)

lemma mq_clock: "clock_errors mq_world"
  by (simp add: clock_errors_def mq_world_def answer0_def)

lemma mq_have: "HAVE_MQ_OPEN glibc_x86_64"
  by (simp add: glibc_x86_64_def)

lemmas mq_run = posixipc_mq_send_def posixipc_mq_receive_def posixipc_parse_acquire_def parse_nmq_put_def parse_timeout_def
  allow_threads_def posixipc_state_from_obj_def posixipc_state_from_type_def io_simps answer_to_mq answer0_def mq_have

theorem nmq_put_sends_once_witness:
  "\<exists>w'. run (nmq_put glibc_x86_64 (\<lambda>x. x) 1 demo_mq [Obj 2] [(''interruptible'', Obj 3)]) mq_world = (Returned (Inr True), w') \<and>
     balance (sent_delta 4) w' = 1 \<and> balance (buffer_delta (Obj 2)) w' = 0"
proof -
  obtain w' where r: "run (nmq_put glibc_x86_64 (\<lambda>x. x) 1 demo_mq [Obj 2] [(''interruptible'', Obj 3)]) mq_world = (Returned (Inr True), w')"
    using demo_mq_ok(2) by (simp add: nmq_put_def nmq_put_bytes_def demo_mq_def mq_run)
  have "nq_mq demo_mq = 4" by (simp add: demo_mq_def)
  with nmq_put_sends_once [OF mq_clock r, of 4 "Obj 2"] r show ?thesis by (simp add: balance_def mq_world_def)
qed

theorem nmq_get_takes_once_witness:
  "\<exists>bs w'. run (nmq_get glibc_x86_64 (\<lambda>x. x) 1 demo_mq [] [(''interruptible'', Obj 3)]) mq_world = (Returned (Inr (Some bs)), w') \<and>
     balance (received_delta 4) w' = 1 \<and> balance (block_delta 0) w' = 0"
proof -
  obtain bs w' where r: "run (nmq_get glibc_x86_64 (\<lambda>x. x) 1 demo_mq [] [(''interruptible'', Obj 3)]) mq_world = (Returned (Inr (Some bs)), w')"
    using demo_mq_ok(2) by (simp add: nmq_get_def nmq_get_buf_def nmq_deliver_def demo_mq_def mq_run)
  have "bytes_made (env mq_world)" by (simp add: bytes_made_def mq_world_def answer0_def)
  moreover have "nq_mq demo_mq = 4" by (simp add: demo_mq_def)
  ultimately show ?thesis using nmq_get_takes_once [OF mq_clock _ r, of 4 0] r by (simp add: balance_def mq_world_def)
qed

theorem nmq_call_closes_stdin_witness:
  "\<exists>w'. run (nmq_call glibc_x86_64) py_world = (Inl TypeError, w') \<and> balance (mqd_delta 0) w' = - 1"
  using nmq_call_closes_stdin [OF mq_have, of py_world] by (simp add: answer_to_py answer0_def balance_def py_world_def)

end
