(* ===== verification/LinuxObj.thy ===== *)
theory LinuxObj
  imports Gil LinuxIpc NmqObj
begin

text \<open>
  The first half of \<^verbatim>\<open>src/src/bindings/py_linux.c\<close>: the Python objects of a futex word, an event descriptor and an anonymous
  memory file, and the functions that rebuild the latter two from a duplicated descriptor. The lemmas show that descriptors and
  mappings are given back exactly once, that a memory file stays mapped while a view of it exists, and what a
  wait on a futex word does.
\<close>

section \<open>Futex words\<close>

text \<open>The word lives inside the Python object; \<open>fx_word\<close> is its address.\<close>

record PosixIPCFutexObject =
  fx_word :: addr
  fx_flags :: u32

text \<open>A slice is a deadline, and with a deadline the core makes one call (\<open>futex_wait_one\<close>): fuel 1 is enough.\<close>

definition futex_wait_cb :: "config \<Rightarrow> addr option \<Rightarrow> u32 \<Rightarrow> bool \<Rightarrow> unit waitfn" where
  "futex_wait_cb c word expected process_shared = (\<lambda>_ slice. do {
     rc \<leftarrow> posixipc_futex_wait c 1 word expected (Some slice) process_shared;
     ret (if the rc = EINTR then ETIMEDOUT else the rc, ()) })"

definition futex_is_closed :: "PosixIPCFutexObject \<Rightarrow> bool" where
  "futex_is_closed ob \<longleftrightarrow> flag_set (fx_flags ob) FLAG_CLOSED"

text \<open>\<open>word\<close> is the address the word has in the new object; it is set before the object is shared.\<close>

definition futex_new :: "addr \<Rightarrow> PosixIPCFutexObject pyres io" where
  "futex_new word = do {
     p \<leftarrow> call (Py (ParseTuple '':Futex''));
     if a_ret p = 0 then ret (Inl Pending)
     else do {
       a \<leftarrow> call (Py Tp_alloc);
       if a_ret a < 0 then ret (Inl Pending)
       else do {
         call_ignore (Mem (Futex_word_store word 0));
         ret (Inr \<lparr>fx_word = word, fx_flags = FLAG_BOUND\<rparr>) } } }"

text \<open>An argument that has to fit in 32 bits.\<close>

definition u32_arg :: "pyobj \<Rightarrow> u32 pyres io" where
  "u32_arg ob = do {
     v \<leftarrow> call (Py (AsULong ob));
     e \<leftarrow> call (Py Err_Occurred);
     ret (if a_ret e \<noteq> 0 then Inl Pending
          else if a_u64 v > 0xffffffff then Inl OverflowError else Inr (ucast (a_u64 v))) }"

definition futex_wait ::
    "config \<Rightarrow> (rat \<Rightarrow> rat) \<Rightarrow> nat \<Rightarrow> PosixIPCFutexObject \<Rightarrow> pyobj list \<Rightarrow> (string \<times> pyobj) list \<Rightarrow> bool pyres outcome io" where
  "futex_wait c fl fuel ob args kws = do {
     st \<leftarrow> posixipc_state_from_obj;
     case st of Some e \<Rightarrow> ret (Returned (Inl e)) | None \<Rightarrow>
       if futex_is_closed ob then ret (Returned (Inl posixipc_raise_closed))
       else case args of [] \<Rightarrow> ret (Returned (Inl TypeError)) | a0 # rest \<Rightarrow> do {
         x \<leftarrow> u32_arg a0;
         case x of Inl e \<Rightarrow> ret (Returned (Inl e)) | Inr expected \<Rightarrow> do {
           p \<leftarrow> posixipc_parse_acquire rest kws;
           case p of Inl e \<Rightarrow> ret (Returned (Inl e)) | Inr opts \<Rightarrow>
             if \<not> blocking opts \<or> (\<not> timeout_none opts \<and> timeout opts = Fin 0) then do {
               v \<leftarrow> posixipc_futex_load (fx_word ob);
               ret (Returned (Inr (v \<noteq> expected))) }
             else do {
               d \<leftarrow> (if timeout_none opts then ret (Some (0, None))
                    else posixipc_deadline_from_seconds fl CLOCK_MONOTONIC (timeout opts) (Some deadline0));
               case d of None \<Rightarrow> ret Undefined | Some (rc, userp) \<Rightarrow>
                 if rc \<noteq> 0 then ret (Returned (Inl (raise_err rc)))
                 else do {
                   res \<leftarrow> posixipc_blocking_wait fuel (futex_wait_cb c (Some (fx_word ob)) expected False) userp
                           (interruptible opts) CLOCK_MONOTONIC ();
                   case res of None \<Rightarrow> ret Unfinished | Some (rc, _) \<Rightarrow>
                     ret (Returned (if rc = ETIMEDOUT then Inr False
                                    else if rc \<noteq> 0 then Inl (raise_err rc) else Inr True)) } } } } }"

definition futex_wake :: "config \<Rightarrow> PosixIPCFutexObject \<Rightarrow> pyobj list \<Rightarrow> unit pyres io" where
  "futex_wake c ob args = do {
     st \<leftarrow> posixipc_state_from_obj;
     case st of Some e \<Rightarrow> ret (Inl e) | None \<Rightarrow>
       if futex_is_closed ob then ret (Inl posixipc_raise_closed)
       else if length args > 1 then ret (Inl TypeError)
       else do {
         n \<leftarrow> (case args of [] \<Rightarrow> ret (Inr 1) | a0 # _ \<Rightarrow> do {
                v \<leftarrow> call (Py (AsLong a0));
                e \<leftarrow> call (Py Err_Occurred);
                ret (if a_ret e \<noteq> 0 then Inl Pending
                     else if a_ret v < 0 then Inl ValueError
                     else Inr (if a_ret v > 2147483647 then 2147483647 else a_ret v)) });
         case n of Inl e \<Rightarrow> ret (Inl e) | Inr k \<Rightarrow> do {
           rc \<leftarrow> posixipc_futex_wake c (Some (fx_word ob)) k False;
           ret (if rc \<noteq> 0 then Inl (raise_err rc) else Inr ()) } } }"

definition futex_close :: "PosixIPCFutexObject \<Rightarrow> PosixIPCFutexObject" where
  "futex_close ob = ob\<lparr>fx_flags := fx_flags ob OR FLAG_CLOSED\<rparr>"

definition futex_get_value :: "PosixIPCFutexObject \<Rightarrow> nat pyres io" where
  "futex_get_value ob = do {
     st \<leftarrow> posixipc_state_from_obj;
     case st of Some e \<Rightarrow> ret (Inl e) | None \<Rightarrow>
       if futex_is_closed ob then ret (Inl posixipc_raise_closed)
       else do { v \<leftarrow> posixipc_futex_load (fx_word ob); long_from (unat v) } }"

text \<open>\<^const>\<open>None\<close> is the deletion of the attribute.\<close>

definition futex_set_value :: "PosixIPCFutexObject \<Rightarrow> pyobj option \<Rightarrow> unit pyres io" where
  "futex_set_value ob val = do {
     st \<leftarrow> posixipc_state_from_obj;
     case st of Some e \<Rightarrow> ret (Inl e) | None \<Rightarrow>
       if futex_is_closed ob then ret (Inl posixipc_raise_closed)
       else case val of None \<Rightarrow> ret (Inl TypeError) | Some v \<Rightarrow> do {
         x \<leftarrow> u32_arg v;
         case x of Inl e \<Rightarrow> ret (Inl e) | Inr n \<Rightarrow> do {
           posixipc_futex_store (fx_word ob) n;
           ret (Inr ()) } } }"

definition futex_get_closed :: "PosixIPCFutexObject \<Rightarrow> bool" where
  "futex_get_closed ob = futex_is_closed ob"

section \<open>Event descriptors\<close>

record PosixIPCEventFDObject =
  ev_fd :: fd
  ev_flags :: u32

definition efd_is_closed :: "PosixIPCEventFDObject \<Rightarrow> bool" where
  "efd_is_closed ob \<longleftrightarrow> flag_set (ev_flags ob) FLAG_CLOSED \<or> ev_fd ob < 0"

definition efd_check_open :: "PosixIPCEventFDObject \<Rightarrow> pyexc option" where
  "efd_check_open ob = (if efd_is_closed ob then Some posixipc_raise_closed else None)"

definition efd_from_fd :: "bool \<Rightarrow> fd \<Rightarrow> PosixIPCEventFDObject pyres io" where
  "efd_from_fd type_present f =
     (if \<not> type_present then do {
        _ \<leftarrow> posixipc_eventfd_close f;
        ret (Inl RuntimeError) }
      else do {
        a \<leftarrow> call (Py Tp_alloc);
        if a_ret a < 0 then do {
          _ \<leftarrow> posixipc_eventfd_close f;
          ret (Inl Pending) }
        else ret (Inr \<lparr>ev_fd = f, ev_flags = FLAG_BOUND\<rparr>) })"

text \<open>\<^verbatim>\<open>EFD_CLOEXEC\<close>, \<^verbatim>\<open>EFD_SEMAPHORE\<close> and \<^verbatim>\<open>EFD_NONBLOCK\<close> of Linux.\<close>

definition efd_create_flags :: "config \<Rightarrow> bool \<Rightarrow> bool \<Rightarrow> int" where
  "efd_create_flags c semaphore nonblock =
     (if HAVE_EVENTFD c then 524288 + (if semaphore then 1 else 0) + (if nonblock then 2048 else 0) else 0)"

definition efd_new :: "config \<Rightarrow> bool \<Rightarrow> u64 \<Rightarrow> bool \<Rightarrow> bool \<Rightarrow> PosixIPCEventFDObject pyres io" where
  "efd_new c type_present initval semaphore nonblock = do {
     st \<leftarrow> posixipc_state_from_type;
     case st of Some e \<Rightarrow> ret (Inl e) | None \<Rightarrow> do {
       p \<leftarrow> call (Py (ParseTuple ''|kpp:EventFD''));
       if a_ret p = 0 then ret (Inl Pending)
       else if initval > 0xffffffff then ret (Inl OverflowError)
       else do {
         (rc, f) \<leftarrow> posixipc_eventfd_create c (unat initval) (efd_create_flags c semaphore nonblock) (Some (- 1));
         if rc \<noteq> 0 then ret (Inl (raise_err rc)) else efd_from_fd type_present (the f) } } }"

definition efd_write :: "PosixIPCEventFDObject \<Rightarrow> pyobj list \<Rightarrow> unit pyres io" where
  "efd_write ob args = do {
     st \<leftarrow> posixipc_state_from_obj;
     case st of Some e \<Rightarrow> ret (Inl e) | None \<Rightarrow>
       case efd_check_open ob of Some e \<Rightarrow> ret (Inl e) | None \<Rightarrow>
         if length args > 1 then ret (Inl TypeError)
         else do {
           n \<leftarrow> (case args of [] \<Rightarrow> ret (Inr 1) | a0 # _ \<Rightarrow> do {
                  v \<leftarrow> call (Py (AsULongLong a0));
                  e \<leftarrow> call (Py Err_Occurred);
                  ret (if a_ret e \<noteq> 0 then Inl Pending else if a_u64 v = 0 then Inl ValueError else Inr (a_u64 v)) });
           case n of Inl e \<Rightarrow> ret (Inl e) | Inr k \<Rightarrow> do {
             rc \<leftarrow> allow_threads (posixipc_eventfd_write (ev_fd ob) k);
             ret (if rc \<noteq> 0 then Inl (raise_err rc) else Inr ()) } } }"

definition efd_read :: "PosixIPCEventFDObject \<Rightarrow> nat pyres io" where
  "efd_read ob = do {
     st \<leftarrow> posixipc_state_from_obj;
     case st of Some e \<Rightarrow> ret (Inl e) | None \<Rightarrow>
       case efd_check_open ob of Some e \<Rightarrow> ret (Inl e) | None \<Rightarrow> do {
         (rc, n) \<leftarrow> allow_threads (posixipc_eventfd_read (ev_fd ob) (Some 0));
         if rc \<noteq> 0 then ret (Inl (raise_err rc)) else long_from (unat (the n)) } }"

definition efd_fileno :: "PosixIPCEventFDObject \<Rightarrow> nat pyres io" where
  "efd_fileno ob = do {
     st \<leftarrow> posixipc_state_from_obj;
     case st of Some e \<Rightarrow> ret (Inl e) | None \<Rightarrow>
       case efd_check_open ob of Some e \<Rightarrow> ret (Inl e) | None \<Rightarrow> long_from (nat (ev_fd ob)) }"

definition efd_close :: "PosixIPCEventFDObject \<Rightarrow> PosixIPCEventFDObject io" where
  "efd_close ob =
     (if efd_is_closed ob then ret ob
      else let f = ev_fd ob; ob = ob\<lparr>ev_fd := - 1, ev_flags := ev_flags ob OR FLAG_CLOSED\<rparr> in do {
        _ \<leftarrow> (if f \<ge> 0 then posixipc_eventfd_close f else ret 0);
        ret ob })"

text \<open>
  \<^verbatim>\<open>multiprocessing.reduction.DupFd\<close> on the descriptor; \<open>build\<close> makes the arguments of the
  rebuilding function \<open>fn\<close> of the module. Event descriptors and memory files share these steps.
\<close>

definition reduce_fd :: "string \<Rightarrow> py_call \<Rightarrow> 'a \<Rightarrow> 'a pyres io" where
  "reduce_fd fn build args = do {
     m \<leftarrow> call (Py Type_GetModule);
     if a_ret m < 0 then ret (Inl Pending) else do {
     i \<leftarrow> call (Py (ImportModule ''multiprocessing.reduction''));
     if a_ret i < 0 then ret (Inl Pending) else do {
     d \<leftarrow> call (Py (GetAttr ''DupFd''));
     if a_ret d < 0 then ret (Inl Pending) else do {
     f \<leftarrow> call (Py CallFunction);
     if a_ret f < 0 then ret (Inl Pending) else do {
     g \<leftarrow> call (Py (GetAttr fn));
     if a_ret g < 0 then ret (Inl Pending) else do {
     b \<leftarrow> call (Py build);
     if a_ret b < 0 then ret (Inl Pending) else do {
     t \<leftarrow> call (Py TuplePack);
     ret (if a_ret t < 0 then Inl Pending else Inr args) } } } } } } }"

definition efd_reduce :: "PosixIPCEventFDObject \<Rightarrow> fd pyres io" where
  "efd_reduce ob = do {
     st \<leftarrow> posixipc_state_from_obj;
     case st of Some e \<Rightarrow> ret (Inl e) | None \<Rightarrow>
       case efd_check_open ob of Some e \<Rightarrow> ret (Inl e) | None \<Rightarrow> reduce_fd ''_rebuild_eventfd'' TuplePack (ev_fd ob) }"

definition efd_get_closed :: "PosixIPCEventFDObject \<Rightarrow> bool" where
  "efd_get_closed ob = efd_is_closed ob"

definition efd_finalize :: "PosixIPCEventFDObject \<Rightarrow> unit io" where
  "efd_finalize ob = (if \<not> efd_is_closed ob then call_ignore (Py WarnUnclosed) else ret ())"

definition efd_dealloc :: "PosixIPCEventFDObject \<Rightarrow> PosixIPCEventFDObject io" where
  "efd_dealloc ob = do {
     efd_finalize ob;
     if \<not> efd_is_closed ob then efd_close ob else ret ob }"

text \<open>The descriptor \<^verbatim>\<open>detach\<close> returns is cut to an \<^verbatim>\<open>int\<close>.\<close>

definition detach_fd :: "fd pyres io" where
  "detach_fd = do {
     a \<leftarrow> call (Py (CallMethod ''detach''));
     if a_ret a < 0 then ret (Inl Pending)
     else do {
       v \<leftarrow> call (Py (AsLong (Obj (nat (a_ret a)))));
       e \<leftarrow> call (Py Err_Occurred);
       ret (if a_ret e \<noteq> 0 then Inl Pending
            else if a_ret v < 0 then Inl ValueError
            else Inr (sint (word_of_int (a_ret v) :: 32 word))) } }"

definition mod_rebuild_eventfd :: "bool \<Rightarrow> PosixIPCEventFDObject pyres io" where
  "mod_rebuild_eventfd type_present = do {
     p \<leftarrow> call (Py (ParseTuple ''O:_rebuild_eventfd''));
     if a_ret p = 0 then ret (Inl Pending)
     else do {
       f \<leftarrow> detach_fd;
       case f of Inl e \<Rightarrow> ret (Inl e) | Inr g \<Rightarrow> efd_from_fd type_present g } }"

section \<open>Anonymous memory files\<close>

record PosixIPCMemFDObject =
  mo_core :: posixipc_memfd
  mo_pins :: u32
  mo_flags :: u32

definition memfd_is_closed :: "PosixIPCMemFDObject \<Rightarrow> bool" where
  "memfd_is_closed ob \<longleftrightarrow> flag_set (mo_flags ob) FLAG_CLOSED \<or> mf_map (mo_core ob) = None"

definition memfd_pin :: "PosixIPCMemFDObject \<Rightarrow> (pyexc option \<times> PosixIPCMemFDObject) io" where
  "memfd_pin ob = do {
     _ \<leftarrow> posixipc_state_from_obj;
     let ob = ob\<lparr>mo_pins := mo_pins ob + 1\<rparr>;
     ret (if memfd_is_closed ob then (Some posixipc_raise_closed, ob\<lparr>mo_pins := mo_pins ob - 1\<rparr>) else (None, ob)) }"

definition memfd_unpin :: "PosixIPCMemFDObject \<Rightarrow> PosixIPCMemFDObject" where
  "memfd_unpin ob = ob\<lparr>mo_pins := mo_pins ob - 1\<rparr>"

definition memfd_from_core :: "bool \<Rightarrow> posixipc_memfd \<Rightarrow> PosixIPCMemFDObject pyres io" where
  "memfd_from_core type_present core =
     (if \<not> type_present then do {
        _ \<leftarrow> posixipc_memfd_close (Some core);
        ret (Inl RuntimeError) }
      else do {
        a \<leftarrow> call (Py Tp_alloc);
        if a_ret a < 0 then do {
          _ \<leftarrow> posixipc_memfd_close (Some core);
          ret (Inl Pending) }
        else ret (Inr \<lparr>mo_core = core, mo_pins = 0, mo_flags = FLAG_BOUND\<rparr>) })"

definition memfd_new_core :: posixipc_memfd where
  "memfd_new_core = memfd_zero\<lparr>mf_fd := - 1\<rparr>"

definition memfd_create :: "config \<Rightarrow> bool \<Rightarrow> int \<Rightarrow> string \<Rightarrow> PosixIPCMemFDObject pyres io" where
  "memfd_create c type_present sz name = do {
     st \<leftarrow> posixipc_state_from_type;
     case st of Some e \<Rightarrow> ret (Inl e) | None \<Rightarrow> do {
       p \<leftarrow> call (Py (ParseTuple ''n|s:create''));
       if a_ret p = 0 then ret (Inl Pending)
       else if sz < 1 then ret (Inl ValueError)
       else do {
         (rc, core) \<leftarrow> posixipc_memfd_create c (Some name) (nat sz) (Some memfd_new_core);
         if rc \<noteq> 0 then ret (Inl (raise_err rc)) else memfd_from_core type_present (the core) } } }"

definition memfd_close :: "PosixIPCMemFDObject \<Rightarrow> (unit pyres \<times> PosixIPCMemFDObject) io" where
  "memfd_close ob = do {
     st \<leftarrow> posixipc_state_from_obj;
     case st of Some e \<Rightarrow> ret (Inl e, ob) | None \<Rightarrow>
       if memfd_is_closed ob then ret (Inr (), ob)
       else let ob = ob\<lparr>mo_flags := mo_flags ob OR FLAG_CLOSED\<rparr> in
         if mo_pins ob > 0 then ret (Inl BufferError, ob\<lparr>mo_flags := mo_flags ob AND NOT FLAG_CLOSED\<rparr>)
         else do {
           (rc, core) \<leftarrow> posixipc_memfd_close (Some (mo_core ob));
           let ob = ob\<lparr>mo_core := the core\<rparr>;
           ret (if rc \<noteq> 0 then (Inl (raise_err rc), ob\<lparr>mo_flags := mo_flags ob AND NOT FLAG_CLOSED\<rparr>) else (Inr (), ob)) } }"

definition memfd_fileno :: "PosixIPCMemFDObject \<Rightarrow> nat pyres io" where
  "memfd_fileno ob = do {
     st \<leftarrow> posixipc_state_from_obj;
     case st of Some e \<Rightarrow> ret (Inl e) | None \<Rightarrow>
       if memfd_is_closed ob then ret (Inl posixipc_raise_closed) else long_from (nat (mf_fd (mo_core ob))) }"

definition memfd_get_size :: "PosixIPCMemFDObject \<Rightarrow> nat pyres io" where
  "memfd_get_size ob = long_from (mf_size (mo_core ob))"

definition memfd_get_name :: "PosixIPCMemFDObject \<Rightarrow> string option pyres io" where
  "memfd_get_name ob =
     (case mf_name (mo_core ob) of None \<Rightarrow> ret (Inr None) | Some (_, nm) \<Rightarrow> do {
        a \<leftarrow> call (Py (UnicodeFrom nm));
        ret (if a_ret a < 0 then Inl Pending else Inr (Some nm)) })"

definition memfd_get_closed :: "PosixIPCMemFDObject \<Rightarrow> bool" where
  "memfd_get_closed ob = memfd_is_closed ob"

definition memfd_getbuffer :: "PosixIPCMemFDObject \<Rightarrow> (pyexc option \<times> PosixIPCMemFDObject) io" where
  "memfd_getbuffer ob = do {
     st \<leftarrow> posixipc_state_from_obj;
     case st of Some e \<Rightarrow> ret (Some e, ob) | None \<Rightarrow>
       if memfd_is_closed ob then ret (Some posixipc_raise_closed, ob)
       else do {
         (e, ob) \<leftarrow> memfd_pin ob;
         case e of Some x \<Rightarrow> ret (Some x, ob) | None \<Rightarrow> do {
           a \<leftarrow> call (Py (FillInfo (the (mf_map (mo_core ob))) (mf_size (mo_core ob))));
           ret (if a_ret a < 0 then (Some Pending, memfd_unpin ob) else (None, ob)) } } }"

definition memfd_releasebuffer :: "PosixIPCMemFDObject \<Rightarrow> PosixIPCMemFDObject" where
  "memfd_releasebuffer ob = memfd_unpin ob"

text \<open>\<^verbatim>\<open>PyMemoryView_FromObject\<close> asks for the buffer and gives it back if the view cannot be made.\<close>

definition memfd_get_payload :: "PosixIPCMemFDObject \<Rightarrow> (pyexc option \<times> PosixIPCMemFDObject) io" where
  "memfd_get_payload ob = do {
     (e, ob) \<leftarrow> memfd_getbuffer ob;
     case e of Some x \<Rightarrow> ret (Some x, ob) | None \<Rightarrow> do {
       a \<leftarrow> call (Py MemoryViewFrom);
       ret (if a_ret a < 0 then (Some Pending, memfd_releasebuffer ob) else (None, ob)) } }"

text \<open>The descriptor, the size and the name handed to \<^verbatim>\<open>_rebuild_memfd\<close>.\<close>

definition memfd_reduce :: "PosixIPCMemFDObject \<Rightarrow> (fd \<times> nat \<times> string) pyres io" where
  "memfd_reduce ob = do {
     st \<leftarrow> posixipc_state_from_obj;
     case st of Some e \<Rightarrow> ret (Inl e) | None \<Rightarrow>
       if memfd_is_closed ob then ret (Inl posixipc_raise_closed)
       else reduce_fd ''_rebuild_memfd'' (BuildValue ''(Ons)'')
              (mf_fd (mo_core ob), mf_size (mo_core ob),
               case mf_name (mo_core ob) of None \<Rightarrow> ''posixipc'' | Some (_, nm) \<Rightarrow> nm) }"

definition memfd_tp_new :: pyexc where
  "memfd_tp_new = TypeError"

definition memfd_finalize :: "PosixIPCMemFDObject \<Rightarrow> unit io" where
  "memfd_finalize ob = (if \<not> memfd_is_closed ob then call_ignore (Py WarnUnclosed) else ret ())"

definition memfd_dealloc :: "PosixIPCMemFDObject \<Rightarrow> PosixIPCMemFDObject io" where
  "memfd_dealloc ob = do {
     memfd_finalize ob;
     if \<not> memfd_is_closed ob then do {
       (_, core) \<leftarrow> posixipc_memfd_close (Some (mo_core ob));
       ret (ob\<lparr>mo_pins := 0, mo_core := the core\<rparr>) }
     else ret ob }"

definition mod_rebuild_memfd :: "bool \<Rightarrow> int \<Rightarrow> string \<Rightarrow> PosixIPCMemFDObject pyres io" where
  "mod_rebuild_memfd type_present sz name = do {
     p \<leftarrow> call (Py (ParseTuple ''Ons:_rebuild_memfd''));
     if a_ret p = 0 then ret (Inl Pending)
     else if sz < 1 then ret (Inl ValueError)
     else do {
       f \<leftarrow> detach_fd;
       case f of Inl e \<Rightarrow> ret (Inl e) | Inr g \<Rightarrow> do {
         (rc, core) \<leftarrow> posixipc_memfd_from_fd g (nat sz) (Some name) (Some memfd_new_core);
         if rc \<noteq> 0 then do {
           _ \<leftarrow> posixipc_eventfd_close g;
           ret (Inl (raise_err rc)) }
         else memfd_from_core type_present (the core) } } }"

section \<open>Memory files stay mapped while views exist\<close>

text \<open>What happens to an object while it lives; \<open>n\<close> counts the memory views of it that exist.\<close>

datatype memfd_event = Take_view | Drop_view | Try_close

primrec memfd_act :: "memfd_event \<Rightarrow> PosixIPCMemFDObject \<times> nat \<Rightarrow> (PosixIPCMemFDObject \<times> nat) io" where
  "memfd_act Take_view s = do { (e, ob) \<leftarrow> memfd_get_payload (fst s); ret (ob, if e = None then Suc (snd s) else snd s) }"
| "memfd_act Drop_view s = ret (if snd s = 0 then s else (memfd_releasebuffer (fst s), snd s - 1))"
| "memfd_act Try_close s = do { (_, ob) \<leftarrow> memfd_close (fst s); ret (ob, snd s) }"

primrec memfd_acts :: "memfd_event list \<Rightarrow> PosixIPCMemFDObject \<times> nat \<Rightarrow> (PosixIPCMemFDObject \<times> nat) io" where
  "memfd_acts [] s = ret s"
| "memfd_acts (e # es) s = do { s \<leftarrow> memfd_act e s; memfd_acts es s }"

text \<open>An open memory file owns its descriptor and one mapping of its size.\<close>

definition memfd_owned :: "world \<Rightarrow> posixipc_memfd \<Rightarrow> world \<Rightarrow> bool" where
  "memfd_owned w0 core w \<longleftrightarrow> (\<exists>p. mf_map core = Some p \<and> 0 < mf_size core \<and> 0 \<le> mf_fd core \<and>
     gained w0 w (Some (mf_fd core)) (Some (p, mf_size core)))"

definition memfd_inv :: "world \<Rightarrow> posixipc_memfd \<Rightarrow> PosixIPCMemFDObject \<times> nat \<Rightarrow> world \<Rightarrow> bool" where
  "memfd_inv w0 core s w \<longleftrightarrow> unat (mo_pins (fst s)) = snd s \<and>
     (if mo_core (fst s) = core then memfd_owned w0 core w \<and> \<not> flag_set (mo_flags (fst s)) FLAG_CLOSED
      else snd s = 0 \<and> mf_map (mo_core (fst s)) = None \<and> gained w0 w None None)"

lemma memfd_owned_neutral: "memfd_owned w0 core w \<Longrightarrow> neutral m \<Longrightarrow> run m w = (r, w') \<Longrightarrow> memfd_owned w0 core w'"
  unfolding memfd_owned_def by (auto intro: gained_neutral)

lemma memfd_owned_map: "memfd_owned w0 core w \<Longrightarrow> mf_map core \<noteq> None"
  by (auto simp: memfd_owned_def)

lemma memfd_inv_neutral: "memfd_inv w0 core s w \<Longrightarrow> neutral m \<Longrightarrow> run m w = (r, w') \<Longrightarrow> memfd_inv w0 core s w'"
  using memfd_owned_neutral [of w0 core w m r w'] gained_neutral [of w0 w None None m r w'] unfolding memfd_inv_def by argo

lemma memfd_core_closed:
  assumes "memfd_owned w0 core w" and "run (posixipc_memfd_close (Some core)) w = ((rc, out), w')"
  shows "out = Some \<lparr>mf_map = None, mf_size = 0, mf_fd = - 1, mf_name = None\<rparr>" and "gained w0 w' None None"
proof -
  obtain p where p: "mf_map core = Some p" "0 < mf_size core" "0 \<le> mf_fd core"
    and g: "gained w0 w (Some (mf_fd core)) (Some (p, mf_size core))" using assms(1) unfolding memfd_owned_def by blast
  have "gained w0 (after (after (after w (Munmap p (mf_size core))) (syscall.Close (mf_fd core))) (Free (map_option fst (mf_name core)))) None None"
    by (rule gained_call [OF gained_close [OF gained_munmap [OF g]]]) simp
  with assms(2) p show "out = Some \<lparr>mf_map = None, mf_size = 0, mf_fd = - 1, mf_name = None\<rparr>" "gained w0 w' None None"
    by (auto simp: posixipc_memfd_close_def io_simps Let_def)
qed

text \<open>Asking for a view: either one more pin or no change, and no call that holds anything.\<close>

lemma neutral_state_obj: "neutral posixipc_state_from_obj"
  unfolding posixipc_state_from_obj_def by (rule neutral_state_from)

lemma neutral_payload: "neutral (memfd_get_payload ob)"
  unfolding memfd_get_payload_def memfd_getbuffer_def memfd_pin_def
  by (intro neutral_rules neutral_state_obj)

lemma run_memfd_getbuffer:
  assumes "run (memfd_getbuffer ob) w = ((e, ob'), w')"
  shows "ob' = (if e = None then ob\<lparr>mo_pins := mo_pins ob + 1\<rparr> else ob) \<and> (e = None \<longrightarrow> \<not> memfd_is_closed ob)"
  using assms
  by (auto simp: memfd_getbuffer_def memfd_pin_def memfd_unpin_def memfd_is_closed_def io_simps Let_def
      split: if_splits prod.splits option.splits)

lemma run_payload:
  assumes "run (memfd_get_payload ob) w = ((e, ob'), w')"
  shows "ob' = (if e = None then ob\<lparr>mo_pins := mo_pins ob + 1\<rparr> else ob) \<and> (e = None \<longrightarrow> \<not> memfd_is_closed ob)"
  using assms
  by (auto simp: memfd_get_payload_def memfd_releasebuffer_def memfd_unpin_def io_simps dest!: run_memfd_getbuffer
      split: if_splits prod.splits option.splits)

lemma memfd_inv_take:
  assumes "memfd_inv w0 core s w" and "Suc (snd s) < 2 ^ 32" and "run (memfd_act Take_view s) w = (s', w')"
  shows "memfd_inv w0 core s' w'"
proof -
  obtain e ob where r: "run (memfd_get_payload (fst s)) w = ((e, ob), w')"
    and s': "s' = (ob, if e = None then Suc (snd s) else snd s)"
    using assms(3) by (auto simp: io_simps split: prod.splits)
  note i = memfd_inv_neutral [OF assms(1) neutral_payload r] and rp = run_payload [OF r]
  show ?thesis
  proof (cases "e = None")
    case True
    then have "mo_core (fst s) = core" using rp i by (auto simp: memfd_inv_def memfd_is_closed_def split: if_splits)
    moreover have "unat (mo_pins (fst s) + 1) = Suc (snd s)"
      using i assms(2) unat_add_no_wrap [of "mo_pins (fst s)" 1] by (simp add: memfd_inv_def)
    ultimately show ?thesis using True rp i s' by (simp add: memfd_inv_def)
  next
    case False
    with rp i s' show ?thesis by (cases s) auto
  qed
qed

lemma memfd_inv_drop:
  assumes "memfd_inv w0 core s w"
  shows "memfd_inv w0 core (if snd s = 0 then s else (memfd_releasebuffer (fst s), snd s - 1)) w"
proof (cases "snd s = 0")
  case False
  then have "1 \<le> mo_pins (fst s)" using assms unfolding memfd_inv_def by (simp add: word_le_nat_alt)
  then have "unat (mo_pins (fst s) - 1) = snd s - 1" using assms by (simp add: unat_sub memfd_inv_def)
  with False assms show ?thesis by (simp add: memfd_inv_def memfd_releasebuffer_def memfd_unpin_def split: if_splits)
qed (use assms in simp)

lemma memfd_inv_close:
  assumes "memfd_inv w0 core s w" and "run (memfd_act Try_close s) w = (s', w')"
  shows "memfd_inv w0 core s' w'"
proof -
  obtain ob n where s: "s = (ob, n)" by fastforce
  obtain st w1 where st: "run posixipc_state_from_obj w = (st, w1)" by fastforce
  obtain rc out w2 where cl: "run (posixipc_memfd_close (Some (mo_core ob))) w1 = ((rc, out), w2)"
    by (metis prod_cases3 surj_pair)
  note i = memfd_inv_neutral [OF assms(1)[unfolded s] neutral_state_obj st]
  have r: "run (memfd_act Try_close s) w =
    (if st \<noteq> None \<or> memfd_is_closed ob then ((ob, n), w1)
     else if mo_pins ob > 0 then ((ob\<lparr>mo_flags := (mo_flags ob OR FLAG_CLOSED) AND NOT FLAG_CLOSED\<rparr>, n), w1)
     else ((ob\<lparr>mo_core := the out, mo_flags := (if rc \<noteq> 0 then (mo_flags ob OR FLAG_CLOSED) AND NOT FLAG_CLOSED
                                            else mo_flags ob OR FLAG_CLOSED)\<rparr>, n), w2))"
    using st cl by (simp add: s memfd_close_def io_simps Let_def split: option.split)
  consider "s' = (ob, n)" "w' = w1"
    | "\<not> memfd_is_closed ob" "s' = (ob\<lparr>mo_flags := (mo_flags ob OR FLAG_CLOSED) AND NOT FLAG_CLOSED\<rparr>, n)" "w' = w1"
    | fl where "\<not> memfd_is_closed ob" "mo_pins ob = 0" "s' = (ob\<lparr>mo_core := the out, mo_flags := fl\<rparr>, n)" "w' = w2"
    using r assms(2) by (auto simp: word_gt_0 split: if_splits)
  then show ?thesis
  proof cases
    case 1
    with i show ?thesis by simp
  next
    case 2
    then have "(mo_flags ob OR FLAG_CLOSED) AND NOT FLAG_CLOSED = mo_flags ob"
      by (intro closed_flag_roundtrip) (simp add: memfd_is_closed_def)
    with 2 i show ?thesis by simp
  next
    case 3
    then have o: "mo_core ob = core" "memfd_owned w0 core w1" "n = 0"
      using i by (auto simp: memfd_inv_def memfd_is_closed_def split: if_splits)
    note c = memfd_core_closed [OF o(2) cl [unfolded o(1)]]
    have "mf_map core \<noteq> None" by (rule memfd_owned_map [OF o(2)])
    then have "the out \<noteq> core" using c(1) by auto
    with 3 c o i show ?thesis by (simp add: memfd_inv_def)
  qed
qed

lemma memfd_inv_acts:
  assumes "memfd_inv w0 core s w" and "snd s + length es < 2 ^ 32" and "run (memfd_acts es s) w = (s', w')"
  shows "memfd_inv w0 core s' w'"
  using assms
proof (induction es arbitrary: s w)
  case (Cons e es)
  obtain s1 w1 where r: "run (memfd_act e s) w = (s1, w1)" and r2: "run (memfd_acts es s1) w1 = (s', w')"
    using Cons.prems(3) by (auto simp: io_simps split: prod.splits)
  have le: "snd s1 \<le> Suc (snd s)" using r by (cases e) (auto simp: io_simps split: prod.splits if_splits)
  have "memfd_inv w0 core s1 w1"
  proof (cases e)
    case Take_view
    with r Cons.prems(1,2) memfd_inv_take [of w0 core s w s1 w1] show ?thesis by simp
  next
    case Drop_view
    with r memfd_inv_drop [OF Cons.prems(1)] show ?thesis by (simp add: io_simps)
  next
    case Try_close
    with r memfd_inv_close [OF Cons.prems(1)] show ?thesis by simp
  qed
  with Cons.IH r2 le Cons.prems(2) show ?case by simp
qed (simp add: io_simps)

lemma memfd_inv_dealloc:
  assumes "memfd_inv w0 core (ob, n) w"
  shows "gained w0 (snd (run (memfd_dealloc ob) w)) None None"
proof -
  obtain w1 where f: "run (memfd_finalize ob) w = ((), w1)" by (metis old.unit.exhaust surj_pair)
  have "neutral (memfd_finalize ob)" unfolding memfd_finalize_def by (intro neutral_rules)
  note i = memfd_inv_neutral [OF assms this f]
  obtain rc out w2 where cl: "run (posixipc_memfd_close (Some (mo_core ob))) w1 = ((rc, out), w2)"
    by (metis prod_cases3 surj_pair)
  have r: "snd (run (memfd_dealloc ob) w) = (if memfd_is_closed ob then w1 else w2)"
    using f cl by (simp add: memfd_dealloc_def io_simps)
  show ?thesis
  proof (cases "memfd_is_closed ob")
    case True
    then have "mo_core ob \<noteq> core" using i memfd_owned_map [of w0 core w1] by (auto simp: memfd_inv_def memfd_is_closed_def)
    with True r i show ?thesis by (simp add: memfd_inv_def)
  next
    case False
    then have "mo_core ob = core" using i by (auto simp: memfd_inv_def memfd_is_closed_def split: if_splits)
    with i have "memfd_owned w0 (mo_core ob) w1" by (simp add: memfd_inv_def)
    from memfd_core_closed(2) [OF this cl] False r show ?thesis by simp
  qed
qed

text \<open>Making the object: it owns what the core opened, or everything is closed again.\<close>

lemma memfd_from_core_post:
  assumes "memfd_owned w0 core w" and "run (memfd_from_core tp core) w = (r, w')"
  shows "case r of Inl _ \<Rightarrow> gained w0 w' None None | Inr ob \<Rightarrow> mo_core ob = core \<and> memfd_inv w0 core (ob, 0) w'"
proof -
  let ?w1 = "after w (Py Tp_alloc)"
  have "neutral (call (Py Tp_alloc))" by (intro neutral_rules)
  then have o1: "memfd_owned w0 core ?w1" by (rule memfd_owned_neutral [OF assms(1)]) (rule run_call)
  have cl: "gained w0 (snd (run (posixipc_memfd_close (Some core)) w2)) None None" if "memfd_owned w0 core w2" for w2
    using memfd_core_closed(2) [OF that] by (metis prod.collapse)
  have "run (memfd_from_core tp core) w =
    (if \<not> tp then (Inl RuntimeError, snd (run (posixipc_memfd_close (Some core)) w))
     else if a_ret (answer_to w (Py Tp_alloc)) < 0 then (Inl Pending, snd (run (posixipc_memfd_close (Some core)) ?w1))
     else (Inr \<lparr>mo_core = core, mo_pins = 0, mo_flags = FLAG_BOUND\<rparr>, ?w1))"
    by (simp add: memfd_from_core_def io_simps split: prod.split)
  with assms(2) cl [OF assms(1)] cl [OF o1] o1 show ?thesis
    by (auto simp: memfd_inv_def flag_set_def split: if_splits)
qed

lemma core_create_post:
  assumes es: "errno_set w" and g: "gained w wb None None" and sz: "0 < sz"
    and cr: "run (posixipc_memfd_create c (Some name) sz (Some memfd_new_core)) wb = ((rc, out), wc)"
  shows "rc \<noteq> 0 \<and> gained w wc None None \<or> rc = 0 \<and> mf_size (the out) = sz \<and> memfd_owned w (the out) wc"
proof (cases "HAVE_MEMFD_CREATE c")
  case True
  show ?thesis
    using memfd_create_contract [OF errno_set_gained [OF es g] cr True sz] gained_trans [OF g] sz
    by (auto simp: memfd_owned_def)
next
  case False
  with cr g show ?thesis by (auto simp: posixipc_memfd_create_def io_simps)
qed

lemma memfd_create_post:
  assumes es: "errno_set w" and r: "run (memfd_create c tp sz name) w = (r, w1)"
  shows "case r of Inl e \<Rightarrow> gained w w1 None None
    | Inr ob \<Rightarrow> mf_size (mo_core ob) = nat sz \<and> memfd_inv w (mo_core ob) (ob, 0) w1"
proof -
  let ?pc = "Py (ParseTuple ''n|s:create'')"
  obtain st wa where st: "run posixipc_state_from_type w = (st, wa)" by fastforce
  note ga = gained_neutral [OF gained_refl neutral_state_from st]
  let ?wb = "after wa ?pc"
  have gb: "gained w ?wb None None" by (rule gained_call [OF ga]) simp
  obtain rc out wc where cr: "run (posixipc_memfd_create c (Some name) (nat sz) (Some memfd_new_core)) ?wb = ((rc, out), wc)"
    by (metis prod_cases3 surj_pair)
  obtain x wd where fc: "run (memfd_from_core tp (the out)) wc = (x, wd)" by fastforce
  have run: "run (memfd_create c tp sz name) w =
    (case st of Some e \<Rightarrow> (Inl e, wa) | None \<Rightarrow>
       if a_ret (answer_to wa ?pc) = 0 then (Inl Pending, ?wb)
       else if sz < 1 then (Inl ValueError, ?wb)
       else if rc \<noteq> 0 then (Inl (raise_err rc), wc) else (x, wd))"
    using st cr fc by (simp add: memfd_create_def io_simps split: option.split)
  have core: "rc \<noteq> 0 \<and> gained w wc None None \<or> rc = 0 \<and> mf_size (the out) = nat sz \<and> memfd_owned w (the out) wc"
    if "\<not> sz < 1" by (rule core_create_post [OF es gb _ cr]) (use that in simp)
  show ?thesis
  proof (cases "st = None \<and> a_ret (answer_to wa ?pc) \<noteq> 0 \<and> \<not> sz < 1 \<and> rc = 0")
    case False
    then show ?thesis using r run ga gb core by (auto split: option.splits if_splits)
  next
    case True
    then have "r = x" "w1 = wd" using r run by auto
    with True core memfd_from_core_post [OF _ fc] show ?thesis by (auto split: sum.splits)
  qed
qed

text \<open>
  The life of a \<^verbatim>\<open>MemFD\<close>. A failing \<^verbatim>\<open>create\<close> leaves neither a descriptor nor a mapping behind. Otherwise, over any
  sequence of views taken and dropped and attempts to close, the descriptor and the mapping of the whole
  file stay in place while a view exists, and after the object is destroyed both have been given back exactly once.
\<close>

theorem memfd_lifecycle:
  assumes "errno_set w" and "run (memfd_create c tp sz name) w = (r, w1)"
  shows "case r of
      Inl e \<Rightarrow> gained w w1 None None
    | Inr ob \<Rightarrow> mf_size (mo_core ob) = nat sz \<and>
        (\<forall>evs ob' n w2. length evs < 2 ^ 32 \<longrightarrow> run (memfd_acts evs (ob, 0)) w1 = ((ob', n), w2) \<longrightarrow>
           (0 < n \<longrightarrow> mo_core ob' = mo_core ob \<and> memfd_owned w (mo_core ob) w2) \<and>
           gained w (snd (run (memfd_dealloc ob') w2)) None None)"
proof (cases r)
  case (Inr ob)
  with memfd_create_post [OF assms] have s: "mf_size (mo_core ob) = nat sz" and i: "memfd_inv w (mo_core ob) (ob, 0) w1" by auto
  have "(0 < n \<longrightarrow> mo_core ob' = mo_core ob \<and> memfd_owned w (mo_core ob) w2) \<and> gained w (snd (run (memfd_dealloc ob') w2)) None None"
    if "length evs < 2 ^ 32" "run (memfd_acts evs (ob, 0)) w1 = ((ob', n), w2)" for evs ob' n w2
  proof -
    have i2: "memfd_inv w (mo_core ob) (ob', n) w2" using memfd_inv_acts [OF i _ that(2)] that(1) by simp
    then have "0 < n \<longrightarrow> mo_core ob' = mo_core ob \<and> memfd_owned w (mo_core ob) w2"
      unfolding memfd_inv_def fst_conv snd_conv by (cases "mo_core ob' = mo_core ob") simp_all
    with memfd_inv_dealloc [OF i2] show ?thesis by blast
  qed
  then have "\<forall>evs ob' n w2. length evs < 2 ^ 32 \<longrightarrow> run (memfd_acts evs (ob, 0)) w1 = ((ob', n), w2) \<longrightarrow>
      (0 < n \<longrightarrow> mo_core ob' = mo_core ob \<and> memfd_owned w (mo_core ob) w2) \<and>
      gained w (snd (run (memfd_dealloc ob') w2)) None None" by blast
  with s show ?thesis unfolding Inr sum.case by blast
qed (use memfd_create_post [OF assms] in simp)

section \<open>Event descriptors are closed once\<close>

lemma eventfd_closed: "gained w0 w (Some f) m \<Longrightarrow> 0 \<le> f \<Longrightarrow> gained w0 (snd (run (posixipc_eventfd_close f) w)) None m"
  by (simp add: posixipc_eventfd_close_def io_simps gained_close)

definition efd_inv :: "world \<Rightarrow> PosixIPCEventFDObject \<Rightarrow> world \<Rightarrow> bool" where
  "efd_inv w0 ob w \<longleftrightarrow> (if efd_is_closed ob then gained w0 w None None else gained w0 w (Some (ev_fd ob)) None)"

lemma efd_inv_close:
  assumes "efd_inv w0 ob w" and "run (efd_close ob) w = (ob', w')"
  shows "efd_inv w0 ob' w'" and "efd_is_closed ob'"
proof -
  have c: "gained w0 (snd (run (posixipc_eventfd_close (ev_fd ob)) w)) None None" if "\<not> efd_is_closed ob"
    using assms(1) that by (intro eventfd_closed) (simp_all add: efd_inv_def efd_is_closed_def)
  have "run (efd_close ob) w =
    (if efd_is_closed ob then (ob, w)
     else (ob\<lparr>ev_fd := - 1, ev_flags := ev_flags ob OR FLAG_CLOSED\<rparr>, snd (run (posixipc_eventfd_close (ev_fd ob)) w)))"
    by (simp add: efd_close_def efd_is_closed_def io_simps Let_def split: prod.split)
  with assms(2) have r: "if efd_is_closed ob then ob' = ob \<and> w' = w
      else ob' = ob\<lparr>ev_fd := - 1, ev_flags := ev_flags ob OR FLAG_CLOSED\<rparr> \<and> w' = snd (run (posixipc_eventfd_close (ev_fd ob)) w)"
    by (simp split: if_splits)
  then show x: "efd_is_closed ob'" by (auto simp: efd_is_closed_def split: if_splits)
  with r assms(1) c show "efd_inv w0 ob' w'" by (cases "efd_is_closed ob") (simp_all add: efd_inv_def)
qed

lemma efd_dealloc_gained:
  assumes "efd_inv w0 ob w"
  shows "gained w0 (snd (run (efd_dealloc ob) w)) None None"
proof -
  obtain w1 where f: "run (efd_finalize ob) w = ((), w1)" by (metis old.unit.exhaust surj_pair)
  have n: "neutral (efd_finalize ob)" unfolding efd_finalize_def by (intro neutral_rules)
  have i: "efd_inv w0 ob w1" using assms gained_neutral [OF _ n f] by (simp add: efd_inv_def split: if_splits)
  obtain ob' w2 where c: "run (efd_close ob) w1 = (ob', w2)" by fastforce
  from efd_inv_close [OF i c] have "gained w0 w2 None None" by (simp add: efd_inv_def)
  then show ?thesis using i f c by (auto simp: efd_dealloc_def efd_inv_def io_simps)
qed

lemma efd_from_fd_post:
  assumes "gained w0 w (Some f) None" and "0 \<le> f" and "run (efd_from_fd tp f) w = (r, w')"
  shows "case r of Inl _ \<Rightarrow> gained w0 w' None None | Inr ob \<Rightarrow> ev_fd ob = f \<and> efd_inv w0 ob w'"
proof -
  have g: "gained w0 (after w (Py Tp_alloc)) (Some f) None" by (rule gained_call [OF assms(1)]) simp
  have "run (efd_from_fd tp f) w =
    (if \<not> tp then (Inl RuntimeError, snd (run (posixipc_eventfd_close f) w))
     else if a_ret (answer_to w (Py Tp_alloc)) < 0 then (Inl Pending, snd (run (posixipc_eventfd_close f) (after w (Py Tp_alloc))))
     else (Inr \<lparr>ev_fd = f, ev_flags = FLAG_BOUND\<rparr>, after w (Py Tp_alloc)))"
    by (simp add: efd_from_fd_def io_simps split: prod.split)
  with assms g eventfd_closed [OF assms(1,2)] eventfd_closed [OF g assms(2)] show ?thesis
    by (auto simp: efd_inv_def efd_is_closed_def flag_set_def split: if_splits)
qed

theorem memfd_lifecycle_witness:
  "\<exists>ob w1 ob' w2. run (memfd_create glibc_x86_64 True 64 ''x'') py_world = (Inr ob, w1) \<and>
     run (memfd_acts [Take_view, Try_close] (ob, 0)) w1 = ((ob', 1), w2) \<and> memfd_owned py_world (mo_core ob) w2 \<and>
     gained py_world (snd (run (memfd_dealloc ob') w2)) None None"
proof -
  let ?r = "run (memfd_create glibc_x86_64 True 64 ''x'') py_world"
  obtain ob w1 where r: "?r = (Inr ob, w1)" and ob: "\<not> memfd_is_closed ob" "mo_pins ob = 0" and e: "env w1 = env py_world"
    by (simp add: memfd_create_def posixipc_memfd_create_def posixipc_memfd_from_fd_def memfd_map_def memfd_from_core_def
        glibc_x86_64_def io_simps Let_def posixipc_state_from_type_def answer_to_py answer0_def memfd_is_closed_def flag_set_def)
  obtain ob' w2 where a: "run (memfd_acts [Take_view, Try_close] (ob, 0)) w1 = ((ob', 1), w2)"
    using ob e by (auto simp: memfd_get_payload_def memfd_getbuffer_def memfd_pin_def memfd_close_def memfd_is_closed_def io_simps Let_def
        posixipc_state_from_obj_def posixipc_state_from_type_def answer_to_py answer0_def)
  have "(0 < (1::nat) \<longrightarrow> mo_core ob' = mo_core ob \<and> memfd_owned py_world (mo_core ob) w2) \<and>
      gained py_world (snd (run (memfd_dealloc ob') w2)) None None"
    by (rule memfd_lifecycle [OF py_errno r, unfolded sum.case, THEN conjunct2, rule_format, OF _ a]) simp
  then have "memfd_owned py_world (mo_core ob) w2 \<and> gained py_world (snd (run (memfd_dealloc ob') w2)) None None" by simp
  with r a show ?thesis by blast
qed

text \<open>
  The life of an \<^verbatim>\<open>EventFD\<close>: a failing constructor leaves no descriptor open; otherwise closing the object and destroying it, in any
  state, closes its descriptor exactly once.
\<close>

lemma eventfd_create_post:
  assumes "errno_set w" and "run (posixipc_eventfd_create c iv flags (Some x)) w = ((rc, f), w')"
  shows "if rc = 0 then \<exists>g. f = Some g \<and> 0 \<le> g \<and> gained w w' (Some g) None else gained w w' None None"
  using assms(2) errno_setD [OF assms(1), of "Linux (Eventfd iv flags)"]
  by (auto simp: posixipc_eventfd_create_def io_simps gained_def map_delta_def split: if_splits)

lemma efd_lifecycle:
  assumes es: "errno_set w" and r: "run (efd_new c tp initval sem nb) w = (r, w1)"
  shows "case r of Inl _ \<Rightarrow> gained w w1 None None
    | Inr ob \<Rightarrow> gained w w1 (Some (ev_fd ob)) None \<and> gained w (snd (run (efd_dealloc ob) w1)) None None \<and>
        gained w (snd (run (efd_close ob) w1)) None None \<and>
        gained w (snd (run (do { ob \<leftarrow> efd_close ob; efd_dealloc ob }) w1)) None None"
proof -
  let ?pc = "Py (ParseTuple ''|kpp:EventFD'')"
  let ?fl = "efd_create_flags c sem nb"
  obtain st wa where st: "run posixipc_state_from_type w = (st, wa)" by fastforce
  note ga = gained_neutral [OF gained_refl neutral_state_from st]
  have gb: "gained w (after wa ?pc) None None" by (rule gained_call [OF ga]) simp
  obtain rc f wc where cr: "run (posixipc_eventfd_create c (unat initval) ?fl (Some (- 1))) (after wa ?pc) = ((rc, f), wc)"
    by (metis prod_cases3 surj_pair)
  obtain x wd where fc: "run (efd_from_fd tp (the f)) wc = (x, wd)" by fastforce
  have run: "run (efd_new c tp initval sem nb) w =
    (case st of Some e \<Rightarrow> (Inl e, wa) | None \<Rightarrow>
       if a_ret (answer_to wa ?pc) = 0 then (Inl Pending, after wa ?pc)
       else if initval > 0xffffffff then (Inl OverflowError, after wa ?pc)
       else if rc \<noteq> 0 then (Inl (raise_err rc), wc) else (x, wd))"
    using st cr fc by (simp add: efd_new_def io_simps Let_def split: option.split)
  have core: "if rc = 0 then \<exists>g. f = Some g \<and> 0 \<le> g \<and> gained w wc (Some g) None else gained w wc None None"
    using eventfd_create_post [OF errno_set_gained [OF es gb] cr] gained_trans [OF gb] by (auto split: if_splits)
  have life: "gained w (snd (run (efd_dealloc ob) wd)) None None \<and> gained w (snd (run (efd_close ob) wd)) None None \<and>
      gained w (snd (run (do { ob \<leftarrow> efd_close ob; efd_dealloc ob }) wd)) None None" if i: "efd_inv w ob wd" for ob
  proof -
    obtain ob' w2 where c: "run (efd_close ob) wd = (ob', w2)" by fastforce
    note e = efd_inv_close [OF i c]
    then show ?thesis using efd_dealloc_gained [OF i] efd_dealloc_gained [OF e(1)] c by (simp add: run_bind efd_inv_def)
  qed
  show ?thesis
  proof (cases "st = None \<and> a_ret (answer_to wa ?pc) \<noteq> 0 \<and> \<not> initval > 0xffffffff \<and> rc = 0")
    case False
    then show ?thesis using r run ga gb core by (auto split: option.splits if_splits)
  next
    case True
    then have rx: "r = x" "w1 = wd" using r run by auto
    from True core obtain g where "f = Some g" "0 \<le> g" "gained w wc (Some g) None" by auto
    with efd_from_fd_post [of w wc "the f" tp x wd] fc have p: "case x of Inl _ \<Rightarrow> gained w wd None None | Inr ob \<Rightarrow> ev_fd ob = g \<and> efd_inv w ob wd"
      by (cases x) simp_all
    show ?thesis
    proof (cases x)
      case (Inr ob)
      with fc have "\<not> efd_is_closed ob \<or> ev_fd ob < 0"
        by (auto simp: efd_from_fd_def efd_is_closed_def flag_set_def io_simps split: if_splits prod.splits)
      with Inr p \<open>0 \<le> g\<close> have "gained w wd (Some g) None" by (auto simp: efd_inv_def)
      with Inr p life rx show ?thesis by simp
    qed (use p rx in simp)
  qed
qed

section \<open>What a wait on a word reports\<close>

lemma fin_effect_fact_bind:
  assumes "keeps \<delta> m" and "yields E Q m" and "\<And>x. Q x \<Longrightarrow> fin_effect E \<delta> k (f x)"
  shows "fin_effect E \<delta> k (m \<bind> f)"
  unfolding fin_effect_def
proof (intro allI impI)
  fix w y w'
  assume e: "E (env w)" and r: "run (m \<bind> f) w = (Returned y, w')"
  obtain x w1 where m: "run m w = (x, w1)" by fastforce
  note k = keepsD [OF assms(1) m] and q = yieldsD [OF assms(2) e m]
  have f: "run (f x) w1 = (Returned y, w')" using r m by (simp add: run_bind)
  from fin_effectD [OF assms(3) [OF q(2)] _ f] e k show "env w' = env w \<and> balance \<delta> w' = balance \<delta> w + k y" by simp
qed

text \<open>
  The word at \<open>p\<close> was seen to differ from \<open>v\<close>: a load found another value, or the kernel ended a wait for
  \<open>v\<close> with a wake-up or because the word had changed. (A failing call never leaves \<^verbatim>\<open>errno\<close> 0.)
\<close>

fun woken_delta :: "addr \<Rightarrow> u32 \<Rightarrow> syscall \<Rightarrow> answer \<Rightarrow> int" where
  "woken_delta p v (Linux (Futex_wait_bitset q s x t)) a = (if q = p \<and> x = v \<and> (a_ret a = 0 \<or> a_errno a \<in> {0, EAGAIN}) then 1 else 0)"
| "woken_delta p v (Mem (Futex_word_load q)) a = (if q = p \<and> a_word a \<noteq> v then 1 else 0)"
| "woken_delta p v _ a = 0"

lemma lock_like_woken: "lock_like (woken_delta p v)"
  by (simp add: lock_like_def)

lemma futex_wait_one:
  "run (posixipc_futex_wait c 1 word x (Some d) s) w = (rc, w') \<Longrightarrow> rc \<noteq> None \<and> env w' = env w \<and> length (trace w) \<le> length (trace w')"
  by (auto simp: posixipc_futex_wait_def io_simps split: option.splits if_splits)

interpretation futex_sleep: waiter "futex_wait_cb c (Some p) v s" "woken_delta p v" "\<lambda>rc. one_if (rc = 0)" for c p v s
proof unfold_locales
  fix u d w
  obtain rc w' where r: "run (posixipc_futex_wait c 1 (Some p) v (Some d) s) w = (rc, w')" by fastforce
  have b: "balance (woken_delta p v) w' = balance (woken_delta p v) w + one_if (rc = Some 0)"
    using r by (auto simp: posixipc_futex_wait_def io_simps split: if_splits)
  show "env (snd (run (futex_wait_cb c (Some p) v s u d) w)) = env w"
    and "length (trace w) \<le> length (trace (snd (run (futex_wait_cb c (Some p) v s u d) w)))"
    and "balance (woken_delta p v) (snd (run (futex_wait_cb c (Some p) v s u d) w)) =
      balance (woken_delta p v) w + one_if (fst (fst (run (futex_wait_cb c (Some p) v s u d) w)) = 0)"
    using r b futex_wait_one [OF r] by (auto simp: futex_wait_cb_def io_simps)
qed (auto simp: lock_like_woken)

lemma keeps_u32_arg: "lock_like \<delta> \<Longrightarrow> keeps \<delta> (u32_arg ob)"
  unfolding u32_arg_def by (intro keeps_rules lock_likeD(3)) simp_all

definition arg_is :: "pyobj \<Rightarrow> u32 \<Rightarrow> (history \<Rightarrow> syscall \<Rightarrow> answer) \<Rightarrow> bool" where
  "arg_is ob v e \<longleftrightarrow> clock_ok e \<and> (\<forall>h. ucast (a_u64 (e h (Py (AsULong ob)))) = v)"

lemma yields_u32_arg: "yields (arg_is ob v) (\<lambda>r. \<forall>x. r = Inr x \<longrightarrow> x = v) (u32_arg ob)"
  by (auto simp: yields_def u32_arg_def io_simps arg_is_def answer_to_def)

lemma futex_wait_effect:
  "fin_effect (arg_is a0 v) (woken_delta (fx_word ob) v) (\<lambda>r. one_if (r = Inr True)) (futex_wait c fl fuel ob (a0 # rest) kws)"
proof -
  note q = lock_like_woken [of "fx_word ob" v]
  have nb: "fin_effect (arg_is a0 v) (woken_delta (fx_word ob) v) (\<lambda>r. one_if (r = Inr True))
      (do { x \<leftarrow> posixipc_futex_load (fx_word ob); ret (Returned (Inr (x \<noteq> v))) })"
    by (auto simp: fin_effect_def posixipc_futex_load_def io_simps)
  have bl: "fin_effect (arg_is a0 v) (woken_delta (fx_word ob) v) (\<lambda>r. one_if (r = Inr True))
      (do { res \<leftarrow> posixipc_blocking_wait fuel (futex_wait_cb c (Some (fx_word ob)) v False) user it CLOCK_MONOTONIC ();
            case res of None \<Rightarrow> ret Unfinished | Some (rc, _) \<Rightarrow>
              ret (Returned (if rc = ETIMEDOUT then Inr False else if rc \<noteq> 0 then Inl (raise_err rc) else Inr True)) })" for user it
  proof (rule fin_effect_wait [where ?k1.0 = "\<lambda>x. one_if (fst x = 0)"], goal_cases)
    case (1 w x w')
    then have r: "run (posixipc_blocking_wait fuel (futex_wait_cb c (Some (fx_word ob)) v False) user it CLOCK_MONOTONIC ()) w
        = (Some (fst x, ()), w')" by (cases x) simp
    from 1 futex_sleep.blocking_wait_env [OF r] futex_sleep.blocking_wait_balance [OF clock_okD r]
    show ?case by (simp add: arg_is_def)
  qed (auto intro: fin_effect_ret split: prod.split)
  show ?thesis
    unfolding futex_wait_def list.case
    by (intro fin_effect_cases fin_effect_keeps_bind [OF keeps_state_from] fin_effect_keeps_bind [OF keeps_parse]
        fin_effect_keeps_bind [OF keeps_user] fin_effect_fact_bind [OF keeps_u32_arg yields_u32_arg] fin_effect_not fin_effect_ret q)
      (auto simp: nb bl)
qed

text \<open>
  \<^verbatim>\<open>Futex.wait(expected)\<close> returns True exactly when the word was seen to differ from \<open>expected\<close> or the kernel woke the caller, once;
  False, an exception and a timeout mean that no such thing was observed. This holds for waits with and
  without a timeout, interruptible or not, and for the variant that does not block.
\<close>

theorem futex_wait_contract:
  assumes "clock_errors w" and "\<forall>h. ucast (a_u64 (env w h (Py (AsULong a0)))) = v"
    and "run (futex_wait c fl fuel ob (a0 # rest) kws) w = (Returned r, w')"
  shows "balance (woken_delta (fx_word ob) v) w' = balance (woken_delta (fx_word ob) v) w + (if r = Inr True then 1 else 0)"
  by (rule fin_effectD(2) [OF futex_wait_effect _ assms(3)]) (simp add: arg_is_def clock_okI [OF assms(1)] assms(2))

fun futex_answer :: "syscall \<Rightarrow> answer" where
  "futex_answer (Py (AsULong ob)) = answer0\<lparr>a_u64 := 7\<rparr>"
| "futex_answer c = answer0"

definition futex_world :: world where
  "futex_world = \<lparr>env = \<lambda>h. futex_answer, trace = []\<rparr>"

lemma answer_to_futex: "env w = env futex_world \<Longrightarrow> answer_to w c = futex_answer c"
  by (simp add: answer_to_def futex_world_def)

theorem futex_wait_contract_witness:
  "\<exists>w'. run (futex_wait glibc_x86_64 (\<lambda>x. x) 1 \<lparr>fx_word = 64, fx_flags = FLAG_BOUND\<rparr> [Obj 1] []) futex_world = (Returned (Inr True), w') \<and>
     balance (woken_delta 64 7) w' = 1"
proof -
  have "fst (run (futex_wait glibc_x86_64 (\<lambda>x. x) 1 \<lparr>fx_word = 64, fx_flags = FLAG_BOUND\<rparr> [Obj 1] []) futex_world) = Returned (Inr True)"
    by (simp add: futex_wait_def u32_arg_def futex_is_closed_def flag_set_def posixipc_parse_acquire_def parse_timeout_def
        posixipc_blocking_wait_def futex_wait_cb_def posixipc_futex_wait_def glibc_x86_64_def io_simps Let_def
        posixipc_state_from_obj_def posixipc_state_from_type_def answer_to_futex answer0_def word_less_nat_alt)
  then obtain w' where r: "run (futex_wait glibc_x86_64 (\<lambda>x. x) 1 \<lparr>fx_word = 64, fx_flags = FLAG_BOUND\<rparr> [Obj 1] []) futex_world
      = (Returned (Inr True), w')" by (metis prod.collapse)
  have "clock_errors futex_world" by (simp add: clock_errors_def futex_world_def answer0_def)
  from futex_wait_contract [OF this _ r, of 7] r show ?thesis by (simp add: futex_world_def balance_def)
qed

end
