(* ===== verification/FutexQObj.thy ===== *)
theory FutexQObj
  imports LinuxObj
begin

text \<open>
  Futex queue objects (the second half of \<^verbatim>\<open>src/src/bindings/py_linux.c\<close>): the ring buffer of a segment under its robust
  mutex, with two futex words a full or an empty queue waits on. The ring and the other processes are those of
  theory \<^verbatim>\<open>QueueObj\<close>. The lemmas show that put and get move one item exactly when they say so and give buffers and memory back, that
  the lock is given back where taking it again after a wait succeeds, and that a put that waits blocks with
  the interpreter lock held.
\<close>

section \<open>Objects and locking\<close>

record PosixIPCFutexQueueObject =
  fo_put_lock :: "addr option"
  fo_get_lock :: "addr option"
  fo_region :: "addr option"
  fo_first_slot :: u32
  fo_depth :: u32
  fo_item_size :: u32
  fo_view :: posixipc_futexq_view
  fo_flags :: u32

definition fq_is_closed :: "PosixIPCFutexQueueObject \<Rightarrow> bool" where
  "fq_is_closed q \<longleftrightarrow> flag_set (fo_flags q) FLAG_CLOSED"

definition fq_check_open :: "PosixIPCFutexQueueObject \<Rightarrow> pyexc option" where
  "fq_check_open q =
     (if flag_set (fo_flags q) FLAG_CLOSED then Some posixipc_raise_closed
      else if \<not> flag_set (fo_flags q) FLAG_BOUND \<or> fo_put_lock q = None \<or> fo_region q = None
      then Some posixipc_raise_unbound
      else None)"

text \<open>The ring of an open queue is mapped, so its futex words are not NULL.\<close>

abbreviation (input) word_not_full :: "PosixIPCFutexQueueObject \<Rightarrow> addr" where "word_not_full q \<equiv> the (fq_not_full (fo_view q))"
abbreviation (input) word_not_empty :: "PosixIPCFutexQueueObject \<Rightarrow> addr" where "word_not_empty q \<equiv> the (fq_not_empty (fo_view q))"

abbreviation (input) INT_MAX :: int where "INT_MAX \<equiv> 2147483647"

definition fq_lock :: "config \<Rightarrow> others \<Rightarrow> PosixIPCFutexQueueObject \<Rightarrow> addr option \<Rightarrow> ring \<Rightarrow> (rc \<times> ring) io" where
  "fq_lock c others q lock m = do {
     rc \<leftarrow> posixipc_mutex_lock lock;
     m \<leftarrow> meanwhile others m;
     if rc = EOWNERDEAD then
       (case posixipc_queue_recover (Some (fq_view (fo_view q))) m of (rc, m) \<Rightarrow>
          if rc \<noteq> 0 then do { _ \<leftarrow> posixipc_mutex_unlock lock; ret (rc, m) }
          else do {
            rc \<leftarrow> posixipc_mutex_consistent lock;
            if rc \<noteq> 0 then do { _ \<leftarrow> posixipc_mutex_unlock lock; ret (rc, m) }
            else do {
              _ \<leftarrow> posixipc_futex_add (word_not_full q) 1;
              _ \<leftarrow> posixipc_futex_add (word_not_empty q) 1;
              _ \<leftarrow> posixipc_futex_wake c (fq_not_full (fo_view q)) INT_MAX True;
              _ \<leftarrow> posixipc_futex_wake c (fq_not_empty (fo_view q)) INT_MAX True;
              ret (0, m) } })
     else ret (rc, m) }"

text \<open>
  Called with the lock held: the word is read, the lock given up, the word waited for, the lock taken
  again. The interpreter lock is released during the wait only.
\<close>

definition fq_wait_word ::
    "config \<Rightarrow> others \<Rightarrow> (rat \<Rightarrow> rat) \<Rightarrow> nat \<Rightarrow> PosixIPCFutexQueueObject \<Rightarrow> addr \<Rightarrow> posixipc_acquire_opts \<Rightarrow> ring \<Rightarrow>
     (rc outcome \<times> ring) io" where
  "fq_wait_word c others fl fuel q word opts m = do {
     expected \<leftarrow> posixipc_futex_load word;
     rc \<leftarrow> posixipc_mutex_unlock (fo_put_lock q);
     if rc \<noteq> 0 then ret (Returned rc, m)
     else do {
       d \<leftarrow> (if timeout_none opts then ret (Some (0, None))
            else posixipc_deadline_from_seconds fl CLOCK_MONOTONIC (timeout opts) (Some deadline0));
       case d of None \<Rightarrow> ret (Undefined, m) | Some (rc, userp) \<Rightarrow>
         if rc \<noteq> 0 then do {
           (lrc, m) \<leftarrow> fq_lock c others q (fo_put_lock q) m;
           ret (Returned (if lrc \<noteq> 0 then lrc else rc), m) }
         else do {
           res \<leftarrow> posixipc_blocking_wait fuel (futex_wait_cb c (Some word) expected True) userp (interruptible opts) CLOCK_MONOTONIC ();
           case res of None \<Rightarrow> ret (Unfinished, m) | Some (rc, _) \<Rightarrow> do {
             (lrc, m) \<leftarrow> fq_lock c others q (fo_put_lock q) m;
             ret (Returned (if lrc \<noteq> 0 then lrc else rc), m) } } } }"

section \<open>Put and get\<close>

text \<open>The loop of put and get, as in \<^verbatim>\<open>queue_await\<close>: \<open>Inr True\<close> when the queue is ready; otherwise the unlock has been done.\<close>

primrec fq_await ::
    "nat \<Rightarrow> config \<Rightarrow> others \<Rightarrow> (rat \<Rightarrow> rat) \<Rightarrow> nat \<Rightarrow> PosixIPCFutexQueueObject \<Rightarrow> (u32 \<Rightarrow> bool) \<Rightarrow> addr \<Rightarrow> posixipc_acquire_opts \<Rightarrow>
     ring \<Rightarrow> (bool pyres outcome \<times> ring) io" where
  "fq_await 0 c others fl fuel q ready word opts m = ret (Unfinished, m)"
| "fq_await (Suc n) c others fl fuel q ready word opts m =
     (case posixipc_queue_qsize (Some (fq_view (fo_view q))) m (Some 0) of (rc, num) \<Rightarrow>
        if rc \<noteq> 0 then do {
          _ \<leftarrow> posixipc_mutex_unlock (fo_put_lock q);
          ret (Returned (Inl (raise_err EINVAL)), m) }
        else if ready (the num) then ret (Returned (Inr True), m)
        else if \<not> blocking opts \<or> (\<not> timeout_none opts \<and> timeout opts = Fin 0) then do {
          _ \<leftarrow> posixipc_mutex_unlock (fo_put_lock q);
          ret (Returned (Inr False), m) }
        else do {
          (oc, m) \<leftarrow> fq_wait_word c others fl fuel q word opts m;
          case oc of Undefined \<Rightarrow> ret (Undefined, m) | Unfinished \<Rightarrow> ret (Unfinished, m) | Returned rc \<Rightarrow>
            if rc = ETIMEDOUT then do {
              _ \<leftarrow> posixipc_mutex_unlock (fo_put_lock q);
              ret (Returned (Inr False), m) }
            else if rc \<noteq> 0 then do {
              _ \<leftarrow> posixipc_mutex_unlock (fo_put_lock q);
              ret (Returned (Inl (raise_err rc)), m) }
            else fq_await n c others fl fuel q ready word opts m })"

definition fq_put_locked ::
    "config \<Rightarrow> others \<Rightarrow> (rat \<Rightarrow> rat) \<Rightarrow> nat \<Rightarrow> PosixIPCFutexQueueObject \<Rightarrow> pyobj \<Rightarrow> u8 list \<Rightarrow> posixipc_acquire_opts \<Rightarrow> ring \<Rightarrow>
     (bool pyres outcome \<times> ring) io" where
  "fq_put_locked c others fl fuel q data bytes opts m = do {
     (rc, m) \<leftarrow> allow_threads (fq_lock c others q (fo_put_lock q) m);
     if rc \<noteq> 0 then do {
       call_ignore (Py (ReleaseBuffer data));
       ret (Returned (Inl (lock_error rc)), m) }
     else do {
       (oc, m) \<leftarrow> fq_await fuel c others fl fuel q (\<lambda>n. n < fo_depth q) (word_not_full q) opts m;
       case oc of Undefined \<Rightarrow> ret (Undefined, m) | Unfinished \<Rightarrow> ret (Unfinished, m) | Returned r \<Rightarrow>
         if r = Inr True then
           (case posixipc_queue_put (Some (fq_view (fo_view q))) m (Some bytes) of (rc, m) \<Rightarrow> do {
              _ \<leftarrow> posixipc_futex_add (word_not_empty q) 1;
              _ \<leftarrow> posixipc_mutex_unlock (fo_put_lock q);
              call_ignore (Py (ReleaseBuffer data));
              if rc \<noteq> 0 then ret (Returned (Inl (raise_err rc)), m)
              else do {
                _ \<leftarrow> posixipc_futex_wake c (fq_not_empty (fo_view q)) 1 True;
                ret (Returned (Inr True), m) } })
         else do {
           call_ignore (Py (ReleaseBuffer data));
           ret (Returned r, m) } } }"

definition fq_put ::
    "config \<Rightarrow> others \<Rightarrow> (rat \<Rightarrow> rat) \<Rightarrow> nat \<Rightarrow> PosixIPCFutexQueueObject \<Rightarrow> pyobj list \<Rightarrow> (string \<times> pyobj) list \<Rightarrow> ring \<Rightarrow>
     (bool pyres outcome \<times> ring) io" where
  "fq_put c others fl fuel q args kws m = do {
     st \<leftarrow> posixipc_state_from_obj;
     case st of Some e \<Rightarrow> ret (Returned (Inl e), m) | None \<Rightarrow>
       case fq_check_open q of Some e \<Rightarrow> ret (Returned (Inl e), m) | None \<Rightarrow>
         case args of [] \<Rightarrow> ret (Returned (Inl TypeError), m) | data # rest \<Rightarrow> do {
           p \<leftarrow> posixipc_parse_acquire rest kws;
           case p of Inl e \<Rightarrow> ret (Returned (Inl e), m) | Inr opts \<Rightarrow> do {
             b \<leftarrow> call (Py (GetBuffer data));
             if a_ret b < 0 then ret (Returned (Inl Pending), m)
             else if length (a_bytes b) \<noteq> unat (fo_item_size q) then do {
               call_ignore (Py (ReleaseBuffer data));
               ret (Returned (Inl ValueError), m) }
             else fq_put_locked c others fl fuel q data (a_bytes b) opts m } } }"

definition fq_get_locked ::
    "config \<Rightarrow> others \<Rightarrow> (rat \<Rightarrow> rat) \<Rightarrow> nat \<Rightarrow> PosixIPCFutexQueueObject \<Rightarrow> addr \<Rightarrow> posixipc_acquire_opts \<Rightarrow> ring \<Rightarrow>
     (u8 list option pyres outcome \<times> ring) io" where
  "fq_get_locked c others fl fuel q buf opts m = do {
     (rc, m) \<leftarrow> allow_threads (fq_lock c others q (fo_put_lock q) m);
     if rc \<noteq> 0 then do {
       call_ignore (Py (PyMem_Free buf));
       ret (Returned (Inl (lock_error rc)), m) }
     else do {
       (oc, m) \<leftarrow> fq_await fuel c others fl fuel q (\<lambda>n. n > 0) (word_not_empty q) opts m;
       case oc of Undefined \<Rightarrow> ret (Undefined, m) | Unfinished \<Rightarrow> ret (Unfinished, m) | Returned r \<Rightarrow>
         if r = Inr True then
           (case posixipc_queue_get (Some (fq_view (fo_view q))) m (Some (replicate (unat (fo_item_size q)) 0)) of (rc, m, out) \<Rightarrow> do {
              _ \<leftarrow> posixipc_futex_add (word_not_full q) 1;
              _ \<leftarrow> posixipc_mutex_unlock (fo_put_lock q);
              if rc \<noteq> 0 then do {
                call_ignore (Py (PyMem_Free buf));
                ret (Returned (Inl (raise_err rc)), m) }
              else do {
                _ \<leftarrow> posixipc_futex_wake c (fq_not_full (fo_view q)) 1 True;
                o1 \<leftarrow> call (Py (BytesFromString (the out)));
                call_ignore (Py (PyMem_Free buf));
                ret (Returned (if a_ret o1 < 0 then Inl Pending else Inr out), m) } })
         else do {
           call_ignore (Py (PyMem_Free buf));
           ret (Returned (case r of Inl e \<Rightarrow> Inl e | Inr _ \<Rightarrow> Inr None), m) } } }"

definition fq_get ::
    "config \<Rightarrow> others \<Rightarrow> (rat \<Rightarrow> rat) \<Rightarrow> nat \<Rightarrow> PosixIPCFutexQueueObject \<Rightarrow> pyobj list \<Rightarrow> (string \<times> pyobj) list \<Rightarrow> ring \<Rightarrow>
     (u8 list option pyres outcome \<times> ring) io" where
  "fq_get c others fl fuel q args kws m = do {
     st \<leftarrow> posixipc_state_from_obj;
     case st of Some e \<Rightarrow> ret (Returned (Inl e), m) | None \<Rightarrow>
       case fq_check_open q of Some e \<Rightarrow> ret (Returned (Inl e), m) | None \<Rightarrow> do {
         p \<leftarrow> posixipc_parse_acquire args kws;
         case p of Inl e \<Rightarrow> ret (Returned (Inl e), m) | Inr opts \<Rightarrow> do {
           b \<leftarrow> call (Py (PyMem_Malloc (unat (fo_item_size q))));
           if a_ret b < 0 then ret (Returned (Inl MemoryError), m)
           else fq_get_locked c others fl fuel q (nat (a_ret b)) opts m } } }"

definition fq_put_nowait ::
    "pyobj \<Rightarrow> config \<Rightarrow> others \<Rightarrow> (rat \<Rightarrow> rat) \<Rightarrow> nat \<Rightarrow> PosixIPCFutexQueueObject \<Rightarrow> pyobj \<Rightarrow> ring \<Rightarrow> (bool pyres outcome \<times> ring) io" where
  "fq_put_nowait py_false c others fl fuel q data m = do {
     names \<leftarrow> nowait_names py_false;
     case names of Inl e \<Rightarrow> ret (Returned (Inl e), m) | Inr kws \<Rightarrow> fq_put c others fl fuel q [data] kws m }"

definition fq_get_nowait ::
    "pyobj \<Rightarrow> config \<Rightarrow> others \<Rightarrow> (rat \<Rightarrow> rat) \<Rightarrow> nat \<Rightarrow> PosixIPCFutexQueueObject \<Rightarrow> ring \<Rightarrow> (u8 list option pyres outcome \<times> ring) io" where
  "fq_get_nowait py_false c others fl fuel q m = do {
     names \<leftarrow> nowait_names py_false;
     case names of Inl e \<Rightarrow> ret (Returned (Inl e), m) | Inr kws \<Rightarrow> fq_get c others fl fuel q [] kws m }"

definition fq_qsize :: "config \<Rightarrow> others \<Rightarrow> PosixIPCFutexQueueObject \<Rightarrow> ring \<Rightarrow> (nat pyres \<times> ring) io" where
  "fq_qsize c others q m = do {
     st \<leftarrow> posixipc_state_from_obj;
     case st of Some e \<Rightarrow> ret (Inl e, m) | None \<Rightarrow>
       case fq_check_open q of Some e \<Rightarrow> ret (Inl e, m) | None \<Rightarrow> do {
         (rc, m) \<leftarrow> allow_threads (fq_lock c others q (fo_put_lock q) m);
         if rc \<noteq> 0 then ret (Inl (lock_error rc), m)
         else do {
           let (rc, n) = posixipc_queue_qsize (Some (fq_view (fo_view q))) m (Some 0);
           _ \<leftarrow> posixipc_mutex_unlock (fo_put_lock q);
           if rc \<noteq> 0 then ret (Inl (raise_err EINVAL), m)
           else do { l \<leftarrow> long_from (unat (the n)); ret (l, m) } } } }"

section \<open>Closing, pickling, accessors\<close>

definition fq_close :: "PosixIPCFutexQueueObject \<Rightarrow> regions \<Rightarrow> PosixIPCFutexQueueObject \<times> regions" where
  "fq_close q H =
     (if fq_is_closed q then (q, H)
      else let (q, H) = (case fo_region q of None \<Rightarrow> (q, H) | Some r \<Rightarrow> (q\<lparr>fo_region := None\<rparr>, unpin_region H r))
        in (q\<lparr>fo_put_lock := None, fo_get_lock := None, fo_flags := fo_flags q OR FLAG_CLOSED\<rparr>, H))"

definition fq_copy :: pyexc where
  "fq_copy = TypeError"

text \<open>The arguments of \<^verbatim>\<open>_attach_futex_queue\<close>: name, first slot, depth, item size, digest.\<close>

definition fq_reduce :: "PosixIPCFutexQueueObject \<Rightarrow> regions \<Rightarrow> (string \<times> u32 \<times> u32 \<times> u32 \<times> u32) pyres io" where
  "fq_reduce q H = do {
     st \<leftarrow> posixipc_state_from_obj;
     case st of Some e \<Rightarrow> ret (Inl e) | None \<Rightarrow>
       if fq_is_closed q then ret (Inl posixipc_raise_closed)
       else if \<not> flag_set (fo_flags q) FLAG_BOUND \<or> fo_region q = None then ret (Inl TypeError)
       else let core = s_core (H (the (fo_region q))) in
         case (sh_hdr core, sh_name core) of
           (Some p, Some (_, nm)) \<Rightarrow> do {
             a \<leftarrow> call (Py Type_GetModule);
             if a_ret a < 0 then ret (Inl Pending)
             else do {
               f \<leftarrow> call (Py (GetAttr ''_attach_futex_queue''));
               if a_ret f < 0 then ret (Inl Pending)
               else do {
                 h \<leftarrow> call (Mem (Load_header p));
                 b \<leftarrow> call (Py (BuildValue ''(sIIII)''));
                 if a_ret b < 0 then ret (Inl Pending)
                 else do {
                   t \<leftarrow> call (Py TuplePack);
                   ret (if a_ret t < 0 then Inl Pending
                        else Inr (nm, fo_first_slot q, fo_depth q, fo_item_size q, h_layout_digest (a_hdr h))) } } } }
         | _ \<Rightarrow> ret (Inl posixipc_raise_closed) }"

definition fq_get_bound :: "PosixIPCFutexQueueObject \<Rightarrow> bool" where
  "fq_get_bound q = flag_set (fo_flags q) FLAG_BOUND"

definition fq_get_closed :: "PosixIPCFutexQueueObject \<Rightarrow> bool" where
  "fq_get_closed q = fq_is_closed q"

definition fq_get_region :: "PosixIPCFutexQueueObject \<Rightarrow> pyobj" where
  "fq_get_region q = (case fo_region q of None \<Rightarrow> Py_None | Some r \<Rightarrow> Obj r)"

definition fq_get_slot :: "PosixIPCFutexQueueObject \<Rightarrow> nat pyres io" where
  "fq_get_slot q = long_from (unat (fo_first_slot q))"

definition fq_get_depth :: "PosixIPCFutexQueueObject \<Rightarrow> nat pyres io" where
  "fq_get_depth q = long_from (unat (fo_depth q))"

definition fq_get_item_size :: "PosixIPCFutexQueueObject \<Rightarrow> nat pyres io" where
  "fq_get_item_size q = long_from (unat (fo_item_size q))"

definition fq_init :: pyexc where
  "fq_init = TypeError"

definition fq_dealloc :: "PosixIPCFutexQueueObject \<Rightarrow> regions \<Rightarrow> PosixIPCFutexQueueObject \<times> regions" where
  "fq_dealloc q H =
     (let (q, H) = (if \<not> fq_is_closed q then fq_close q H else (q, H)) in (q\<lparr>fo_region := None\<rparr>, H))"

section \<open>Construction and binding\<close>

definition posixipc_futexq_new_unbound :: "bool \<Rightarrow> u32 \<Rightarrow> u32 \<Rightarrow> u32 \<Rightarrow> PosixIPCFutexQueueObject pyres io" where
  "posixipc_futexq_new_unbound type_present depth item_size first_slot =
     (if \<not> type_present then ret (Inl RuntimeError)
      else do {
        a \<leftarrow> call (Py Tp_alloc);
        ret (if a_ret a < 0 then Inl Pending
             else Inr \<lparr>fo_put_lock = None, fo_get_lock = None, fo_region = None, fo_first_slot = first_slot, fo_depth = depth,
                       fo_item_size = item_size, fo_view = futexq_view_zero, fo_flags = FLAG_PROCESS_SHARED\<rparr>) })"

definition posixipc_futexq_init_on_shm ::
    "config \<Rightarrow> posixipc_shm \<Rightarrow> posixipc_slot \<Rightarrow> u32 \<Rightarrow> u32 \<Rightarrow> ring \<Rightarrow> (rc \<times> ring) io" where
  "posixipc_futexq_init_on_shm c core bytes_slot depth item_size m = do {
     (rc, ptr) \<leftarrow> region_ptr \<lparr>s_core = core, s_pins = 0, s_flags = 0, s_created = True\<rparr>
                   (s_offset bytes_slot) (s_size bytes_slot) (ucast (s_align bytes_slot));
     if rc \<noteq> 0 then ret (rc, m)
     else case posixipc_futexq_map c ptr (s_size bytes_slot) depth item_size (Some futexq_view_zero) of (rc, v) \<Rightarrow>
       if rc \<noteq> 0 then ret (rc, m) else posixipc_futexq_init v m }"

text \<open>A failing map leaves what it wrote into the view of the handle.\<close>

definition fq_pointers ::
    "config \<Rightarrow> PosixIPCFutexQueueObject \<Rightarrow> PosixIPCSharedMemoryObject \<Rightarrow> posixipc_slot list \<Rightarrow> u32 \<Rightarrow> ring \<Rightarrow>
     (pyexc option \<times> PosixIPCFutexQueueObject) io" where
  "fq_pointers c q ob slots first m =
     bind_ptr ob (slots ! unat first) (\<lambda>p. fo_put_lock_update (\<lambda>_. p)) q (\<lambda>q.
     bind_ptr ob (slots ! unat (first + 1)) (\<lambda>p. fo_get_lock_update (\<lambda>_. p)) q (\<lambda>q. do {
       (rc, ptr) \<leftarrow> region_ptr ob (s_offset (slots ! unat (first + 2))) (s_size (slots ! unat (first + 2)))
                     (ucast (s_align (slots ! unat (first + 2))));
       if rc \<noteq> 0 then ret (Some (raise_err rc), q)
       else case posixipc_futexq_map c ptr (s_size (slots ! unat (first + 2))) (fo_depth q) (fo_item_size q) (Some (fo_view q)) of
         (rc, v) \<Rightarrow>
           let q = q\<lparr>fo_view := the v\<rparr> in
             if rc \<noteq> 0 then ret (Some (raise_err rc), q)
             else if c_depth (r_ctrl m) \<noteq> fo_depth q \<or> c_item_size (r_ctrl m) \<noteq> fo_item_size q
             then ret (Some LayoutMismatchError, q)
             else ret (None, q) }))"

definition posixipc_futexq_bind ::
    "config \<Rightarrow> PosixIPCFutexQueueObject \<Rightarrow> regions \<Rightarrow> addr \<Rightarrow> posixipc_slot list \<Rightarrow> u32 \<Rightarrow> ring \<Rightarrow>
     (pyexc option \<times> PosixIPCFutexQueueObject \<times> regions) io" where
  "posixipc_futexq_bind c q H r slots first m = do {
     st \<leftarrow> posixipc_state_from_obj;
     case st of Some e \<Rightarrow> ret (Some e, q, H) | None \<Rightarrow>
       if map (\<lambda>i. s_kind (slots ! unat (first + i))) [0, 1, 2] \<noteq> [KIND_ROBUST_MUTEX, KIND_ROBUST_MUTEX, KIND_BYTES]
       then ret (Some LayoutMismatchError, q, H)
       else do {
         (e, q) \<leftarrow> fq_pointers c q (H r) slots first m;
         case e of Some x \<Rightarrow> ret (Some x, q, H) | None \<Rightarrow> do {
           (e, H) \<leftarrow> pin_region H r;
           case e of Some x \<Rightarrow> ret (Some x, q, H) | None \<Rightarrow>
             ret (None, q\<lparr>fo_region := Some r, fo_first_slot := first,
                          fo_flags := fo_flags q OR (FLAG_BOUND OR FLAG_PROCESS_SHARED)\<rparr>, H) } } }"

text \<open>The two functions of the module, and the registration of the four types.\<close>

definition add_function :: "string \<Rightarrow> pyexc option io" where
  "add_function name = do {
     f \<leftarrow> call (Py (CFunction_New name));
     if a_ret f < 0 then ret (Some Pending)
     else do {
       a \<leftarrow> call (Py (AddObject name));
       ret (if a_ret a < 0 then Some Pending else None) } }"

definition posixipc_linux_register :: "(pyexc option \<times> string list) io" where
  "posixipc_linux_register = do {
     (e, ts) \<leftarrow> register_type True ''Futex'' [];
     if e \<noteq> None then ret (e, ts) else do {
     (e, ts) \<leftarrow> register_type True ''EventFD'' ts;
     if e \<noteq> None then ret (e, ts) else do {
     (e, ts) \<leftarrow> register_type True ''MemFD'' ts;
     if e \<noteq> None then ret (e, ts) else do {
     (e, ts) \<leftarrow> register_type True ''FutexQueue'' ts;
     if e \<noteq> None then ret (e, ts) else do {
     e \<leftarrow> add_function ''_rebuild_eventfd'';
     if e \<noteq> None then ret (e, ts) else do {
     e \<leftarrow> add_function ''_rebuild_memfd'';
     ret (e, ts) } } } } } }"

section \<open>Exactly one item\<close>

text \<open>Futex calls touch neither locks nor buffers nor memory.\<close>

definition futex_quiet :: "(syscall \<Rightarrow> answer \<Rightarrow> int) \<Rightarrow> bool" where
  "futex_quiet \<delta> \<longleftrightarrow> lock_like \<delta> \<and> (\<forall>c a. \<delta> (Mem c) a = 0) \<and> (\<forall>c a. \<delta> (Linux c) a = 0)"

lemma futex_quietD:
  assumes "futex_quiet \<delta>"
  shows "lock_like \<delta>" and "\<delta> (Mem c) a = 0" and "\<delta> (Linux l) a = 0"
  using assms by (simp_all add: futex_quiet_def)

lemma futex_quiet_deltas:
  "futex_quiet (\<lambda>_ _. 0)" "futex_quiet (lock_delta p)" "futex_quiet (buffer_delta ob)" "futex_quiet (block_delta b)"
  using lock_like_zero lock_like_delta sync_quietD(1) [OF sync_quiet_buffer] sync_quietD(1) [OF sync_quiet_block]
  by (simp_all add: futex_quiet_def)

lemma keeps_futex:
  assumes "futex_quiet \<delta>"
  shows "keeps \<delta> (posixipc_futex_load p)" and "keeps \<delta> (posixipc_futex_add p n)" and "keeps \<delta> (posixipc_futex_wake c w k s)"
  unfolding posixipc_futex_load_def posixipc_futex_add_def posixipc_futex_wake_def
  by (intro keeps_rules futex_quietD [OF assms])+

lemma keeps_futex_sleep:
  assumes "futex_quiet \<delta>"
  shows "keeps \<delta> (posixipc_blocking_wait fuel (futex_wait_cb c w x s) user it clk u)"
proof -
  have "keeps \<delta> (futex_wait_loop n p s x d)" for n p d
    by (induction n) (auto intro!: keeps_rules futex_quietD [OF assms])
  then show ?thesis
    unfolding futex_wait_cb_def posixipc_futex_wait_def
    by (intro keeps_blocking_wait keeps_rules futex_quietD [OF assms])
qed

lemmas keeps_fq_zero = keeps_zero keeps_futex [OF futex_quiet_deltas(1)] keeps_futex_sleep [OF futex_quiet_deltas(1)]

abbreviation (input) ring_view :: "PosixIPCFutexQueueObject \<Rightarrow> posixipc_queue_view" where "ring_view q \<equiv> fq_view (fo_view q)"

lemma yields_fq_lock:
  assumes "idle others (ring_view q) m0 m"
  shows "yields E (\<lambda>(rc, m'). idle others (ring_view q) m0 m') (fq_lock c others q lo m)"
proof -
  have mw: "yields E (idle others (ring_view q) m0) (meanwhile others m)"
    by (rule yields_meanwhile) (rule idle_others [OF assms])
  have rec: "idle others (ring_view q) m0 m3"
    if "idle others (ring_view q) m0 m2" "posixipc_queue_recover (Some (ring_view q)) m2 = (rc, m3)" for m2 rc m3
    using idle_recover [OF that(1)] that(2) by simp
  show ?thesis
    unfolding fq_lock_def posixipc_mutex_lock_def
    by (rule yields_any_bind, intro keeps_rules refl, rule yields_bind [OF mw])
      (intro yields_if yields_prod yields_any_bind keeps_fq_zero yields_ret; simp add: rec)
qed

lemma yields_fq_wait:
  assumes "idle others (ring_view q) m0 m"
  shows "yields E (\<lambda>(oc, m'). idle others (ring_view q) m0 m') (fq_wait_word c others fl fuel q word opts m)"
proof -
  have relock: "yields E (\<lambda>(oc, m'). idle others (ring_view q) m0 m')
      (do { (lrc, m) \<leftarrow> fq_lock c others q (fo_put_lock q) m; ret (Returned (if lrc \<noteq> 0 then lrc else rc), m) })" for rc
    by (rule yields_bind [OF yields_fq_lock [OF assms]]) (auto intro: yields_ret)
  show ?thesis
    unfolding fq_wait_word_def
    by (intro yields_any_bind keeps_fq_zero keeps_if keeps_ret yields_if yields_option yields_prod relock yields_ret; simp add: assms)
qed

lemma yields_fq_await:
  assumes "idle others (ring_view q) m0 m"
  shows "yields E (\<lambda>(oc, m'). idle others (ring_view q) m0 m') (fq_await n c others fl fuel q ready word opts m)"
  using assms
proof (induction n arbitrary: m)
  case (Suc n)
  note i = Suc.prems
  show ?case
    unfolding fq_await.simps
    apply (intro yields_prod yields_if yields_any_bind [OF keeps_mutex_unlock [OF refl]] yields_ret)
       apply (simp_all add: i del: split_paired_All)
    apply (rule yields_bind [OF yields_fq_wait [OF i]])
    apply (intro yields_rules yields_any_bind [OF keeps_mutex_unlock [OF refl]] yields_ret Suc.IH)
        apply auto
    done
qed (simp add: yields_ret)

lemma yields_fq_put_locked:
  "yields E (put_post others (ring_view q) m data) (fq_put_locked c others fl fuel q ob data opts m)"
  unfolding fq_put_locked_def
  apply (rule yields_bind [OF yields_allow_threads [OF yields_fq_lock [OF idle_refl]]])
  apply (rule yields_prod, rule yields_if)
   apply (intro yields_any_bind [OF keeps_call_ignore [OF refl]] yields_ret put_post_idle, simp, simp)
  apply (rule yields_bind [OF yields_fq_await], simp)
  apply (intro yields_rules yields_any_bind keeps_fq_zero)
      apply (rule yields_ret, (auto simp: put_post_def dest: core_put_failed)[1])+
  done

lemma yields_fq_get_locked:
  "yields E (get_post others (ring_view q) (fo_item_size q) m) (fq_get_locked c others fl fuel q buf opts m)"
  unfolding fq_get_locked_def
  apply (rule yields_bind [OF yields_allow_threads [OF yields_fq_lock [OF idle_refl]]])
  apply (rule yields_prod, rule yields_if)
   apply (intro yields_any_bind [OF keeps_call_ignore [OF refl]] yields_ret get_post_idle, simp, simp)
  apply (rule yields_bind [OF yields_fq_await], simp)
  apply (intro yields_rules yields_any_bind keeps_fq_zero)
      apply (rule yields_ret, (auto simp: get_post_def dest: core_get_failed)[1])
     apply (rule yields_ret, (auto intro: get_post_took)[1])
    apply (rule yields_ret, (auto simp: get_post_def split: sum.splits)[1])+
  done

lemma yields_fq_put:
  "yields (\<lambda>e. e = e0)
     (\<lambda>r. \<exists>h data. (fst r = Returned (Inr True) \<longrightarrow> args \<noteq> [] \<and> data = a_bytes (e0 h (Py (GetBuffer (hd args)))) \<and>
                     length data = unat (fo_item_size q)) \<and>
                  put_post others (ring_view q) m data r)
     (fq_put c others fl fuel q args kws m)"
  (is "yields ?E ?Q _")
proof -
  have early: "yields ?E ?Q (ret (Returned (Inl e), m))" for e
    by (rule yields_ret) (auto intro!: put_post_idle idle_refl)
  have late: "yields ?E ?Q (fq_put_locked c others fl fuel q ob data opts m)"
    if "args = ob # rest" "data = a_bytes (e0 h (Py (GetBuffer ob)))" "length data = unat (fo_item_size q)"
    for ob rest data opts h
    by (rule yields_mono [OF yields_fq_put_locked]) (use that in auto)
  show ?thesis
    unfolding fq_put_def
    apply (rule yields_any_bind [OF keeps_state_from [OF lock_like_zero]])
    apply (intro yields_option yields_list early)
    apply (rule yields_any_bind [OF keeps_parse_acquire [OF lock_like_zero]])
    apply (intro yields_sum early)
    subgoal for st ob rest p opts
      apply (rule yields_bind [where ?Q1.0 = "\<lambda>b. \<exists>h. b = e0 h (Py (GetBuffer ob))"])
       apply (rule yields_call, auto simp: answer_to_def)[1]
      apply (intro yields_if early yields_any_bind [OF keeps_call_ignore [OF refl]])
      apply (elim exE, rule late, assumption, simp_all)
      done
    done
qed

definition fq_fits :: "PosixIPCFutexQueueObject \<Rightarrow> bool" where
  "fq_fits q \<longleftrightarrow> q_depth (ring_view q) = fo_depth q \<and> q_item_size (ring_view q) = fo_item_size q"

text \<open>
  C13. \<^verbatim>\<open>FutexQueue.put\<close> stores its item exactly once, and exactly when it returns True, in every environment: the ring at the
  end is the one other processes and recovery left (\<open>m1\<close>), with one put of the exported bytes on it if the
  call returned True and unchanged otherwise.
\<close>

theorem fq_put_stores_once:
  assumes "fq_fits q" and "run (fq_put c others fl fuel q args kws m) w = ((Returned r, m'), w')"
  shows "\<exists>m1. idle others (ring_view q) m m1 \<and>
    (if r = Inr True
     then \<exists>h data. args \<noteq> [] \<and> data = a_bytes (env w h (Py (GetBuffer (hd args)))) \<and>
            posixipc_queue_put (Some (ring_view q)) m1 (Some data) = (0, m') \<and>
            (ring_inv (ring_view q) m1 \<longrightarrow>
               ring_inv (ring_view q) m' \<and> ring_list (ring_view q) m' = ring_list (ring_view q) m1 @ [data])
     else m' = m1)"
proof -
  obtain h data m1 where *: "r = Inr True \<longrightarrow> args \<noteq> [] \<and> data = a_bytes (env w h (Py (GetBuffer (hd args)))) \<and>
        length data = unat (fo_item_size q)"
    and i: "idle others (ring_view q) m m1"
    and p: "if r = Inr True then posixipc_queue_put (Some (ring_view q)) m1 (Some data) = (0, m') else m' = m1"
    using yieldsD(2) [OF yields_fq_put _ assms(2), of "env w"] unfolding put_post_def by auto
  have "ring_inv (ring_view q) m' \<and> ring_list (ring_view q) m' = ring_list (ring_view q) m1 @ [data]"
    if "r = Inr True" "ring_inv (ring_view q) m1"
    using rq.put_keeps [OF that(2), of data 0 m'] that * p assms(1)
    by (auto simp: ring_put_def fq_fits_def split: if_splits)
  with * i p show ?thesis by (intro exI [of _ m1]) auto
qed

text \<open>
  \<^verbatim>\<open>FutexQueue.get\<close> removes the oldest item exactly once when it returns one, and nothing when it returns None. When it raises, the
  ring is as it was found, but for the case that the bytes object cannot be built after the item was removed.
\<close>

theorem fq_get_takes_once:
  assumes "fq_fits q" and "run (fq_get c others fl fuel q args kws m) w = ((Returned r, m'), w')"
  shows "\<exists>m1. idle others (ring_view q) m m1 \<and>
    (case r of
       Inr (Some x) \<Rightarrow> ring_get (ring_view q) m1 = (0, m', Some x) \<and>
         (ring_inv (ring_view q) m1 \<longrightarrow> ring_inv (ring_view q) m' \<and> ring_list (ring_view q) m1 = x # ring_list (ring_view q) m')
     | Inr None \<Rightarrow> m' = m1
     | Inl e \<Rightarrow> m' = m1 \<or> e = Pending \<and> (\<exists>x. ring_get (ring_view q) m1 = (0, m', Some x)))"
proof -
  let ?E = "\<lambda>_. True"
  have early: "yields ?E (get_post others (ring_view q) (fo_item_size q) m) (ret (Returned (Inl e), m))" for e
    by (rule yields_ret) (auto intro!: get_post_idle idle_refl)
  have "yields ?E (get_post others (ring_view q) (fo_item_size q) m) (fq_get c others fl fuel q args kws m)"
    unfolding fq_get_def
    by (intro yields_any_bind [OF keeps_state_from [OF lock_like_zero]] yields_option early yields_sum yields_if
        yields_any_bind [OF keeps_parse_acquire [OF lock_like_zero]] yields_any_bind [OF keeps_call [OF refl]] yields_fq_get_locked)
  from yieldsD(2) [OF this _ assms(2)]
  obtain m1 where i: "idle others (ring_view q) m m1" and
    p: "case r of Inr (Some x) \<Rightarrow> ring_get (ring_view q) m1 = (0, m', Some x) | Inr None \<Rightarrow> m' = m1
      | Inl e \<Rightarrow> m' = m1 \<or> e = Pending \<and> (\<exists>x. ring_get (ring_view q) m1 = (0, m', Some x))"
    using assms(1) by (cases r) (auto simp: get_post_def ring_get_def fq_fits_def split: option.splits)
  have "ring_inv (ring_view q) m' \<and> ring_list (ring_view q) m1 = x # ring_list (ring_view q) m'"
    if "ring_get (ring_view q) m1 = (0, m', Some x)" "ring_inv (ring_view q) m1" for x
    using rq.get_keeps [OF that(2,1)] by (auto split: list.splits if_splits)
  with i p show ?thesis by (intro exI [of _ m1]) (auto split: sum.splits option.splits)
qed

section \<open>Locks, buffers and memory are given back\<close>

text \<open>
  The mutex of the queue can always be taken, repaired and given back. Where taking it again after a wait fails, the code
  unlocks a mutex it does not hold.
\<close>

definition lock_sound :: "PosixIPCFutexQueueObject \<Rightarrow> (history \<Rightarrow> syscall \<Rightarrow> answer) \<Rightarrow> bool" where
  "lock_sound q e \<longleftrightarrow> q_ctrl (ring_view q) \<noteq> None \<and> q_state (ring_view q) \<noteq> None \<and>
     (\<exists>p. fo_put_lock q = Some p \<and>
       (\<forall>h. a_ret (e h (Mutex (Mutex_lock p))) \<in> {0, EOWNERDEAD} \<and> a_ret (e h (Mutex (Mutex_unlock p))) = 0 \<and>
            a_ret (e h (Mutex (Mutex_consistent p))) = 0))"

lemma effect_fq_lock:
  "effect E (lock_delta p) (\<lambda>(rc, m). if lo = Some p \<and> rc = 0 then 1 else 0) (fq_lock c others q lo m)"
  unfolding fq_lock_def
  apply (rule effect_bind [OF effect_mutex_lock])
  apply (rule effect_keeps_bind [OF keeps_meanwhile])
  apply (intro effect_if effect_prod)
    apply (rule effect_bind [OF effect_mutex_unlock], rule effect_ret, simp add: got_def)
   apply (rule effect_keeps_bind, rule keeps_mutex_consistent, simp)
   apply (rule effect_if)
    apply (rule effect_bind [OF effect_mutex_unlock], rule effect_ret, simp add: got_def)
   apply (intro effect_keeps_bind keeps_futex [OF futex_quiet_deltas(2)] effect_ret)
   apply (simp add: got_def)
  apply (auto simp: got_def intro: effect_ret)
  done

lemma fq_lock_succeeds:
  assumes "lock_sound q (env w)" and "run (fq_lock c others q (fo_put_lock q) m) w = ((rc, m'), w')"
  shows "rc = 0"
proof -
  have "fst (posixipc_queue_recover (Some (ring_view q)) m) = 0" for m
    using assms(1) by (auto simp: lock_sound_def posixipc_queue_recover_def Let_def split: prod.split)
  then have "rc = 0" if "posixipc_queue_recover (Some (ring_view q)) m = (rc, m')" for m rc m' by (metis fst_conv that)
  moreover obtain p where "fo_put_lock q = Some p" "\<And>h. a_ret (env w h (Mutex (Mutex_lock p))) \<in> {0, EOWNERDEAD}"
    "\<And>h. a_ret (env w h (Mutex (Mutex_consistent p))) = 0" using assms(1) by (auto simp: lock_sound_def)
  ultimately show ?thesis
    using assms(2)
    by (auto simp: fq_lock_def posixipc_mutex_lock_def posixipc_mutex_consistent_def run_bind run_call_rc run_meanwhile run_ret answer_to_def
        split: if_splits prod.splits)
qed

lemma effect_relock:
  "effect (lock_sound q) (lock_delta p) (\<lambda>_. if fo_put_lock q = Some p then 1 else 0) (fq_lock c others q (fo_put_lock q) m)"
  unfolding effect_def
proof (intro allI impI)
  fix w x w'
  assume e: "lock_sound q (env w)" and r: "run (fq_lock c others q (fo_put_lock q) m) w = (x, w')"
  obtain rc m2 where x: "x = (rc, m2)" by fastforce
  from effectD [OF effect_fq_lock [where p = p] TrueI r] fq_lock_succeeds [OF e r [unfolded x]] x
  show "env w' = env w \<and> balance (lock_delta p) w' = balance (lock_delta p) w + (if fo_put_lock q = Some p then 1 else 0)" by simp
qed

lemma end_effect_fq_wait:
  "end_effect (lock_sound q) (lock_delta p) (\<lambda>_. 0) (fq_wait_word c others fl fuel q word opts m)"
proof -
  let ?L = "if fo_put_lock q = Some p then 1 else 0 :: int"
  note fk = futex_quiet_deltas(2) [of p]
  have relock: "end_effect (lock_sound q) (lock_delta p) (\<lambda>_. ?L)
      (do { (lrc, m) \<leftarrow> fq_lock c others q (fo_put_lock q) m; ret (Returned (if lrc \<noteq> 0 then lrc else rc), m) })" for rc m
    by (rule end_effect_bind [OF effect_relock]) (auto intro!: end_effect_ret split: prod.split)
  have ul: "end_effect (lock_sound q) (lock_delta p) (\<lambda>_. 0)
      (do { rc \<leftarrow> posixipc_mutex_unlock (fo_put_lock q); if rc \<noteq> 0 then ret (Returned rc, m) else K })"
    if "end_effect (lock_sound q) (lock_delta p) (\<lambda>_. ?L) K" for K :: "(rc outcome \<times> ring) io"
    unfolding end_effect_def
  proof (intro allI impI)
    fix w y s w'
    assume e: "lock_sound q (env w)"
      and r: "run (do { rc \<leftarrow> posixipc_mutex_unlock (fo_put_lock q); if rc \<noteq> 0 then ret (Returned rc, m) else K }) w = ((Returned y, s), w')"
    obtain l where l: "fo_put_lock q = Some l" "a_ret (answer_to w (Mutex (Mutex_unlock l))) = 0"
      using e by (auto simp: lock_sound_def answer_to_def)
    then have k: "run K (after w (Mutex (Mutex_unlock l))) = ((Returned y, s), w')"
      using r by (simp add: posixipc_mutex_unlock_def io_simps)
    from end_effectD [OF that _ k] e l show "env w' = env w \<and> balance (lock_delta p) w' = balance (lock_delta p) w + 0" by simp
  qed
  show ?thesis
    unfolding fq_wait_word_def
    by (rule end_effect_keeps_bind [OF keeps_futex(1) [OF fk]], rule ul, rule end_effect_keeps_bind)
      (intro keeps_rules keeps_deadline lock_like_delta end_effect_rules relock end_effect_ret
        end_effect_keeps_bind [OF keeps_futex_sleep [OF fk]]; simp)+
qed

lemma end_effect_fq_unlock:
  "k y = (if lo = Some p then - 1 else 0) \<Longrightarrow>
   end_effect E (lock_delta p) k (do { _ \<leftarrow> posixipc_mutex_unlock lo; ret (Returned y, m) })"
  by (rule end_effect_bind [OF effect_mutex_unlock], rule end_effect_ret) auto

lemma end_effect_fq_await:
  "end_effect (lock_sound q) (lock_delta p) (\<lambda>r. if fo_put_lock q = Some p \<and> r \<noteq> Inr True then - 1 else 0)
     (fq_await n c others fl fuel q ready word opts m)"
proof (induction n arbitrary: m)
  case (Suc n)
  show ?case
    unfolding fq_await.simps
    apply (intro end_effect_prod end_effect_if end_effect_fq_unlock end_effect_ret)
        apply (simp_all)
    apply (rule end_effect_then [OF end_effect_fq_wait, simplified])
    apply (intro end_effect_if end_effect_fq_unlock)
      apply (simp_all add: Suc.IH)
    done
qed (auto intro: end_effect_ret)

lemma keeps_fq_lock:
  assumes "sync_quiet \<delta>" and "futex_quiet \<delta>"
  shows "keeps \<delta> (fq_lock c others q lo m)"
  unfolding fq_lock_def posixipc_mutex_lock_def
  by (intro keeps_rules keeps_meanwhile keeps_mutex_unlock keeps_mutex_consistent keeps_futex assms sync_quietD [OF assms(1)])

lemma keeps_fq_wait:
  assumes "sync_quiet \<delta>" and "futex_quiet \<delta>"
  shows "keeps \<delta> (fq_wait_word c others fl fuel q word opts m)"
  unfolding fq_wait_word_def
  by (intro keeps_rules keeps_futex keeps_futex_sleep keeps_mutex_unlock keeps_deadline keeps_fq_lock assms sync_quietD [OF assms(1)])

lemma keeps_fq_await:
  assumes "sync_quiet \<delta>" and "futex_quiet \<delta>"
  shows "keeps \<delta> (fq_await n c others fl fuel q ready word opts m)"
proof (induction n arbitrary: m)
  case (Suc n)
  show ?case
    unfolding fq_await.simps
    by (intro keeps_rules keeps_outcome keeps_fq_wait keeps_mutex_unlock sync_quietD assms Suc.IH)
qed (simp add: keeps_ret)

text \<open>The lock contributes \<open>L\<close> while it is held.\<close>

definition fq_frame :: "((history \<Rightarrow> syscall \<Rightarrow> answer) \<Rightarrow> bool) \<Rightarrow> (syscall \<Rightarrow> answer \<Rightarrow> int) \<Rightarrow> PosixIPCFutexQueueObject \<Rightarrow> int \<Rightarrow> bool" where
  "fq_frame E \<delta> q L \<longleftrightarrow> futex_quiet \<delta> \<and>
     (\<forall>c others m. effect E \<delta> (\<lambda>(rc, m). if rc = 0 then L else 0) (allow_threads (fq_lock c others q (fo_put_lock q) m))) \<and>
     (\<forall>n c others fl fuel ready word opts m.
        end_effect E \<delta> (\<lambda>r. if r = Inr True then 0 else - L) (fq_await n c others fl fuel q ready word opts m)) \<and>
     effect E \<delta> (\<lambda>_. - L) (posixipc_mutex_unlock (fo_put_lock q))"

lemma fq_frameD:
  assumes "fq_frame E \<delta> q L"
  shows "effect E \<delta> (\<lambda>(rc, m). if rc = 0 then L else 0) (allow_threads (fq_lock c others q (fo_put_lock q) m))"
    and "end_effect E \<delta> (\<lambda>r. if r = Inr True then 0 else - L) (fq_await n c others fl fuel q ready word opts m)"
    and "effect E \<delta> (\<lambda>_. - L) (posixipc_mutex_unlock (fo_put_lock q))" and "futex_quiet \<delta>"
  using assms unfolding fq_frame_def by blast+

lemma fq_frame_lock: "fq_frame (lock_sound q) (lock_delta p) q (if fo_put_lock q = Some p then 1 else 0)"
  unfolding fq_frame_def
proof (intro conjI allI futex_quiet_deltas)
  show "effect (lock_sound q) (lock_delta p) (\<lambda>(rc, m). if rc = 0 then if fo_put_lock q = Some p then 1 else 0 else 0)
      (allow_threads (fq_lock c others q (fo_put_lock q) m))" for c others m
    by (rule effect_mono [OF effect_allow_threads [OF lock_like_delta effect_fq_lock]]) auto
  show "end_effect (lock_sound q) (lock_delta p) (\<lambda>r. if r = Inr True then 0 else - (if fo_put_lock q = Some p then 1 else 0))
      (fq_await n c others fl fuel q ready word opts m)" for n c others fl fuel ready word opts m
    by (rule end_effect_mono [OF end_effect_fq_await]) auto
  show "effect (lock_sound q) (lock_delta p) (\<lambda>_. - (if fo_put_lock q = Some p then 1 else 0)) (posixipc_mutex_unlock (fo_put_lock q))"
    by (rule effect_mono [OF effect_mutex_unlock]) auto
qed

lemma fq_frame_quiet:
  assumes "sync_quiet \<delta>" and "futex_quiet \<delta>"
  shows "fq_frame E \<delta> q 0"
  unfolding fq_frame_def
proof (intro conjI allI assms)
  note q = sync_quietD [OF assms(1)]
  show "effect E \<delta> (\<lambda>(rc, m). if rc = 0 then 0 else 0) (allow_threads (fq_lock c others q (fo_put_lock q) m))" for c others m
    by (rule effect_mono [OF effect_keeps [OF keeps_allow_threads [OF q(1) keeps_fq_lock [OF assms]]]]) auto
  show "end_effect E \<delta> (\<lambda>r. if r = Inr True then 0 else - 0) (fq_await n c others fl fuel q ready word opts m)"
    for n c others fl fuel ready word opts m
    by (rule end_effect_mono [OF end_effect_keeps [OF keeps_fq_await [OF assms]]]) auto
  show "effect E \<delta> (\<lambda>_. - 0) (posixipc_mutex_unlock (fo_put_lock q))"
    by (rule effect_mono [OF effect_keeps [OF keeps_mutex_unlock]]) (auto simp: q)
qed

lemma end_effect_fq_put_locked:
  assumes fr: "fq_frame E \<delta> q L" and rel: "effect E \<delta> (\<lambda>_. R) (call_ignore (Py (ReleaseBuffer data)))"
  shows "end_effect E \<delta> (\<lambda>_. R) (fq_put_locked c others fl fuel q data bytes opts m)"
proof -
  note fk = keeps_futex [OF fq_frameD(4) [OF fr]]
  show ?thesis
    unfolding fq_put_locked_def
    apply (rule end_effect_bind [OF fq_frameD(1) [OF fr]])
    apply (rule end_effect_prod, rule end_effect_if)
     apply (rule end_effect_bind [OF rel], rule end_effect_ret, simp)
    apply (rule end_effect_then [OF fq_frameD(2) [OF fr]])
    apply (rule end_effect_if)
     apply (rule end_effect_prod, rule end_effect_keeps_bind [OF fk(2)], rule end_effect_bind [OF fq_frameD(3) [OF fr]], rule end_effect_bind [OF rel])
     apply (intro end_effect_keeps_bind [OF fk(3)] end_effect_if end_effect_ret, simp, simp)
    apply (rule end_effect_bind [OF rel], rule end_effect_ret, simp)
    done
qed

lemma end_effect_fq_get_locked:
  assumes fr: "fq_frame E \<delta> q L" and rel: "effect E \<delta> (\<lambda>_. R) (call_ignore (Py (PyMem_Free buf)))"
    and b: "\<And>x. keeps \<delta> (call (Py (BytesFromString x)))"
  shows "end_effect E \<delta> (\<lambda>_. R) (fq_get_locked c others fl fuel q buf opts m)"
proof -
  note fk = keeps_futex [OF fq_frameD(4) [OF fr]]
  show ?thesis
    unfolding fq_get_locked_def
    apply (rule end_effect_bind [OF fq_frameD(1) [OF fr]])
    apply (rule end_effect_prod, rule end_effect_if)
     apply (rule end_effect_bind [OF rel], rule end_effect_ret, simp)
    apply (rule end_effect_then [OF fq_frameD(2) [OF fr]])
    apply (rule end_effect_if)
     apply (intro end_effect_prod, rule end_effect_keeps_bind [OF fk(2)], rule end_effect_bind [OF fq_frameD(3) [OF fr]], rule end_effect_if)
      apply (rule end_effect_bind [OF rel], rule end_effect_ret, simp)
     apply (rule end_effect_keeps_bind [OF fk(3)], rule end_effect_keeps_bind [OF b])
     apply (rule end_effect_bind [OF rel], rule end_effect_ret, simp)
    apply (rule end_effect_bind [OF rel], rule end_effect_ret, simp)
    done
qed

lemma end_effect_fq_put:
  assumes fr: "fq_frame E \<delta> q L"
    and gb: "\<And>data. effect E \<delta> (\<lambda>b. if a_ret b < 0 then 0 else - R data) (call (Py (GetBuffer data)))"
    and rel: "\<And>data. effect E \<delta> (\<lambda>_. R data) (call_ignore (Py (ReleaseBuffer data)))"
  shows "end_effect E \<delta> (\<lambda>_. 0) (fq_put c others fl fuel q args kws m)"
proof -
  note ll = futex_quietD(1) [OF fq_frameD(4) [OF fr]]
  show ?thesis
    unfolding fq_put_def
    apply (rule end_effect_keeps_bind [OF keeps_state_from [OF ll]])
    apply (intro end_effect_rules end_effect_ret, simp_all)
    apply (rule end_effect_keeps_bind [OF keeps_parse_acquire [OF ll]])
    apply (intro end_effect_sum end_effect_ret, simp)
    apply (rule end_effect_bind [OF gb])
    apply (rule end_effect_if, rule end_effect_ret, simp)
    apply (rule end_effect_if)
     apply (rule end_effect_bind [OF rel], rule end_effect_ret, simp)
    apply (rule end_effect_mono [OF end_effect_fq_put_locked [OF fr rel]])
    apply simp
    done
qed

lemma end_effect_fq_get:
  assumes fr: "fq_frame E \<delta> q L"
    and gb: "effect E \<delta> (\<lambda>b. if a_ret b < 0 then 0 else - R (nat (a_ret b))) (call (Py (PyMem_Malloc (unat (fo_item_size q)))))"
    and rel: "\<And>p. effect E \<delta> (\<lambda>_. R p) (call_ignore (Py (PyMem_Free p)))" and b: "\<And>x a. \<delta> (Py (BytesFromString x)) a = 0"
  shows "end_effect E \<delta> (\<lambda>_. 0) (fq_get c others fl fuel q args kws m)"
proof -
  note ll = futex_quietD(1) [OF fq_frameD(4) [OF fr]]
  show ?thesis
    unfolding fq_get_def
    apply (rule end_effect_keeps_bind [OF keeps_state_from [OF ll]])
    apply (intro end_effect_rules end_effect_ret, simp_all)
    apply (rule end_effect_keeps_bind [OF keeps_parse_acquire [OF ll]])
    apply (intro end_effect_sum end_effect_ret, simp)
    apply (rule end_effect_bind [OF gb])
    apply (rule end_effect_if, rule end_effect_ret, simp)
    apply (rule end_effect_mono [OF end_effect_fq_get_locked [OF fr rel]])
     apply (rule keeps_call, rule b)
    apply simp
    done
qed

lemma fq_put_balanced:
  "end_effect (lock_sound q) (lock_delta p) (\<lambda>_. 0) (fq_put c others fl fuel q args kws m)"
  "end_effect E (buffer_delta ob) (\<lambda>_. 0) (fq_put c others fl fuel q args kws m)"
  by (rule end_effect_fq_put [where R = "\<lambda>_. 0", OF fq_frame_lock], simp_all add: effect_def run_call run_call_ignore)
    (rule end_effect_fq_put [where R = "\<lambda>x. if x = ob then - 1 else 0", OF fq_frame_quiet [OF sync_quiet_buffer futex_quiet_deltas(3)]],
      simp_all add: effect_def run_call run_call_ignore)

lemma fq_get_balanced:
  "end_effect (lock_sound q) (lock_delta p) (\<lambda>_. 0) (fq_get c others fl fuel q args kws m)"
  "end_effect E (block_delta b) (\<lambda>_. 0) (fq_get c others fl fuel q args kws m)"
  by (rule end_effect_fq_get [where R = "\<lambda>_. 0", OF fq_frame_lock], simp_all add: effect_def run_call run_call_ignore)
    (rule end_effect_fq_get [where R = "\<lambda>x. if x = b then - 1 else 0", OF fq_frame_quiet [OF sync_quiet_block futex_quiet_deltas(4)]],
      auto simp: effect_def run_call run_call_ignore)

text \<open>
  Put and get of a futex queue give everything back: the exported buffer and the scratch memory on every path and in every
  environment; the mutex where it can always be taken again after a wait.
\<close>

theorem fq_ops_give_back:
  assumes "run (fq_put c others fl fuel q args kws m) w = ((Returned r, m1), w1)"
    and "run (fq_get c others fl fuel q args2 kws2 m1) w1 = ((Returned x, m2), w2)"
  shows "balance (buffer_delta ob) w1 = balance (buffer_delta ob) w \<and> balance (block_delta b) w2 = balance (block_delta b) w1 \<and>
    (lock_sound q (env w) \<longrightarrow> balance (lock_delta p) w1 = balance (lock_delta p) w \<and> balance (lock_delta p) w2 = balance (lock_delta p) w)"
proof -
  note b = end_effectD [OF fq_put_balanced(2) TrueI assms(1)] end_effectD [OF fq_get_balanced(2) TrueI assms(2)]
  have "balance (lock_delta p) w1 = balance (lock_delta p) w \<and> balance (lock_delta p) w2 = balance (lock_delta p) w"
    if e: "lock_sound q (env w)"
  proof -
    note l = end_effectD [OF fq_put_balanced(1) e assms(1)]
    have "lock_sound q (env w1)" using e l(1) by simp
    from end_effectD [OF fq_get_balanced(1) this assms(2)] l show ?thesis by simp
  qed
  with b show ?thesis by simp
qed

section \<open>A wait blocks with the interpreter lock\<close>

lemma only_any_meanwhile: "only Q (meanwhile others m)"
  by (simp add: only_def run_meanwhile)

lemma fq_lock_gil: "\<exists>t. trace (snd (run (fq_lock c others q (Some p) m) w)) = trace w @ t \<and> gil_run True t = None"
proof -
  define K where "K rc = do {
     m \<leftarrow> meanwhile others m;
     if rc = EOWNERDEAD then
       (case posixipc_queue_recover (Some (ring_view q)) m of (rc, m) \<Rightarrow>
          if rc \<noteq> 0 then do { _ \<leftarrow> posixipc_mutex_unlock (Some p); ret (rc, m) }
          else do {
            rc \<leftarrow> posixipc_mutex_consistent (Some p);
            if rc \<noteq> 0 then do { _ \<leftarrow> posixipc_mutex_unlock (Some p); ret (rc, m) }
            else do {
              _ \<leftarrow> posixipc_futex_add (word_not_full q) 1;
              _ \<leftarrow> posixipc_futex_add (word_not_empty q) 1;
              _ \<leftarrow> posixipc_futex_wake c (fq_not_full (fo_view q)) INT_MAX True;
              _ \<leftarrow> posixipc_futex_wake c (fq_not_empty (fo_view q)) INT_MAX True;
              ret (0, m) } })
     else ret (rc, m) }" for rc
  have "only (\<lambda>_. True) (K rc)" for rc
    unfolding K_def posixipc_mutex_unlock_def posixipc_mutex_consistent_def posixipc_futex_add_def posixipc_futex_wake_def
    by (intro only_rules only_any_meanwhile only_call_rc TrueI)
  then obtain t where t: "trace (snd (run (K (a_ret (answer_to w (Mutex (Mutex_lock p))))) (after w (Mutex (Mutex_lock p))))) =
      trace (after w (Mutex (Mutex_lock p))) @ t" unfolding only_def by blast
  have "run (fq_lock c others q (Some p) m) w = run (K (a_ret (answer_to w (Mutex (Mutex_lock p))))) (after w (Mutex (Mutex_lock p)))"
    by (simp add: fq_lock_def K_def posixipc_mutex_lock_def run_bind run_call_rc)
  with t show ?thesis by (intro exI [of _ "(Mutex (Mutex_lock p), answer_to w (Mutex (Mutex_lock p))) # t"]) simp
qed

lemma only_native_futex: "only native (futex_wait_cb c w x s u d)"
proof -
  have "only native (futex_wait_loop n p s x dl)" for n p dl by (induction n) (auto intro!: only_rules)
  then show ?thesis unfolding futex_wait_cb_def posixipc_futex_wait_def by (intro only_rules)
qed

text \<open>
  Whenever a wait of a futex queue ends (with a wake-up, a timeout, a signal or an error), the thread has called
  \<^verbatim>\<open>pthread_mutex_lock\<close> with the interpreter lock held, which no other operation does (\<^verbatim>\<open>blocking_releases_gil\<close>).
\<close>

lemma fq_wait_breaks_gil:
  assumes "run (fq_wait_word c others fl fuel q word opts m) w = ((Returned rc, m'), w')" and "fo_put_lock q = Some p"
    and "a_ret (answer_to (after w (Mem (Futex_word_load word))) (Mutex (Mutex_unlock p))) = 0"
  shows "\<exists>t. trace w' = trace w @ t \<and> gil_run True t = None"
proof -
  define pre where "pre x = do {
      d \<leftarrow> (if timeout_none opts then ret (Some (0, None))
            else posixipc_deadline_from_seconds fl CLOCK_MONOTONIC (timeout opts) (Some deadline0));
      case d of None \<Rightarrow> ret None | Some (rc, userp) \<Rightarrow>
        if rc \<noteq> 0 then ret (Some rc)
        else do {
          res \<leftarrow> posixipc_blocking_wait fuel (futex_wait_cb c (Some word) x True) userp (interruptible opts) CLOCK_MONOTONIC ();
          ret (map_option fst res) } }" for x
  let ?w1 = "after w (Mem (Futex_word_load word))"
  let ?w2 = "after ?w1 (Mutex (Mutex_unlock p))" and ?x = "a_word (answer_to w (Mem (Futex_word_load word)))"
  obtain r w3 where r: "run (pre ?x) ?w2 = (r, w3)" by fastforce
  have "polite (pre ?x)"
    unfolding pre_def by (intro polite_rules polite_time polite_blocking_wait only_native_futex)
  then obtain t where t: "trace w3 = trace ?w2 @ t" "gil_run True t = Some True" unfolding polite_def using r by (metis snd_conv)
  have "w' = snd (run (fq_lock c others q (Some p) m) w3)"
    using assms r
    by (auto simp: fq_wait_word_def pre_def posixipc_futex_load_def posixipc_mutex_unlock_def run_bind run_call run_call_rc run_ret run_if
        split: prod.splits option.splits if_splits)
  with fq_lock_gil [of c others q p m w3] t show ?thesis
    by (fastforce simp: gil_run_append gil_run_plain)
qed

section \<open>Two threads of one process\<close>

text \<open>
  The calls of two threads (\<open>False\<close> and \<open>True\<close>), as far as they wait for each other: the owner of the interpreter lock and of the mutex at
  \<open>p\<close>. A call that cannot be made yet blocks its thread.
\<close>

fun sched_call :: "addr \<Rightarrow> bool \<Rightarrow> syscall \<Rightarrow> bool option \<times> bool option \<Rightarrow> (bool option \<times> bool option) option" where
  "sched_call p i (Py SaveThread) (g, l) = Some (None, l)"
| "sched_call p i (Py RestoreThread) (g, l) = (if g = None then Some (Some i, l) else None)"
| "sched_call p i (Mutex (Mutex_lock x)) (g, l) = (if x \<noteq> p then Some (g, l) else if l = None then Some (g, Some i) else None)"
| "sched_call p i (Mutex (Mutex_unlock x)) (g, l) = Some (g, if x = p then None else l)"
| "sched_call p i c s = Some s"

type_synonym two_threads = "syscall list \<times> syscall list \<times> bool option \<times> bool option"

inductive sched_step :: "addr \<Rightarrow> two_threads \<Rightarrow> two_threads \<Rightarrow> bool" for p where
  first_steps: "sched_call p False c s = Some s' \<Longrightarrow> sched_step p (c # a, b, s) (a, b, s')"
| second_steps: "sched_call p True c s = Some s' \<Longrightarrow> sched_step p (a, c # b, s) (a, b, s')"

definition deadlocked :: "addr \<Rightarrow> two_threads \<Rightarrow> bool" where
  "deadlocked p st \<longleftrightarrow> fst st \<noteq> [] \<and> fst (snd st) \<noteq> [] \<and> (\<forall>st'. \<not> sched_step p st st')"

fun run_sched :: "addr \<Rightarrow> bool list \<Rightarrow> two_threads \<Rightarrow> two_threads option" where
  "run_sched p [] st = Some st"
| "run_sched p (False # is) (c # a, b, s) = (case sched_call p False c s of None \<Rightarrow> None | Some s' \<Rightarrow> run_sched p is (a, b, s'))"
| "run_sched p (True # is) (a, c # b, s) = (case sched_call p True c s of None \<Rightarrow> None | Some s' \<Rightarrow> run_sched p is (a, b, s'))"
| "run_sched p is st = None"

lemma run_sched_reaches: "run_sched p is st = Some st' \<Longrightarrow> (sched_step p)\<^sup>*\<^sup>* st st'"
proof (induction p "is" st rule: run_sched.induct)
  case (2 p "is" c a b s)
  then show ?case
    by (auto split: option.splits) (rule converse_rtranclp_into_rtranclp, rule first_steps, assumption, assumption)
next
  case (3 p "is" a c b s)
  then show ?case
    by (auto split: option.splits) (rule converse_rtranclp_into_rtranclp, rule second_steps, assumption, assumption)
qed simp_all

lemma deadlockedI:
  assumes "sched_call p False c s = None" and "sched_call p True d s = None"
  shows "deadlocked p (c # a, d # b, s)"
  using assms by (auto simp: deadlocked_def elim: sched_step.cases)

section \<open>Concrete runs\<close>

definition demo_fq :: PosixIPCFutexQueueObject where
  "demo_fq = \<lparr>fo_put_lock = Some 1, fo_get_lock = Some 2, fo_region = Some 5, fo_first_slot = 0, fo_depth = 3, fo_item_size = 1,
     fo_view = \<lparr>fq_not_full = Some 3, fq_not_empty = Some 4, fq_view = demo_view\<rparr>, fo_flags = FLAG_BOUND\<rparr>"

text \<open>While a put waits for a full queue, somebody takes an item.\<close>

fun is_futex_wait :: "syscall \<Rightarrow> bool" where
  "is_futex_wait (Linux (Futex_wait_bitset p s v t)) = True"
| "is_futex_wait _ = False"

definition drained_ring :: ring where
  "drained_ring = \<lparr>r_ctrl = \<lparr>c_head = 1, c_tail = 0, c_count = 2, c_flags = 0, c_depth = 3, c_item_size = 1\<rparr>,
                   r_state = [0, 3, 3], r_payload = [10, 20, 30]\<rparr>"

definition drained :: others where
  "drained h m = (if \<exists>x \<in> set h. is_futex_wait (fst x) then drained_ring else m)"

lemma demo_fq_fits: "fq_fits demo_fq" "ring_view demo_fq = demo_view"
  by (simp_all add: fq_fits_def demo_fq_def demo_view_def)

lemma demo_fq_sound: "lock_sound demo_fq (env queue_world)"
  by (simp add: lock_sound_def demo_fq_def demo_view_def queue_world_def answer0_def)

lemmas run_fq_defs = fq_lock_def fq_check_open_def flag_set_def posixipc_mutex_lock_def posixipc_mutex_unlock_def posixipc_futex_add_def
  posixipc_futex_load_def posixipc_futex_wake_def posixipc_state_from_obj_def posixipc_state_from_type_def posixipc_parse_acquire_def
  parse_timeout_def posixipc_queue_qsize_def

lemma demo_fq_put:
  "\<exists>w'. run (fq_put glibc_x86_64 alone (\<lambda>x. x) 1 demo_fq [Obj 1] [] demo_ring0) queue_world =
     ((Returned (Inr True), snd (ring_put demo_view demo_ring0 [30])), w') \<and> env w' = env queue_world"
  by (simp add: fq_put_def fq_put_locked_def run_fq_defs io_simps answer_to_queue answer0_def alone_def glibc_x86_64_def
      demo_fq_def demo_view_def demo_ring0_def ring_put_def posixipc_queue_put_def Let_def word_le_nat_alt word_less_nat_alt)

theorem fq_put_stores_once_witness:
  "\<exists>m1 m' w'. run (fq_put glibc_x86_64 alone (\<lambda>x. x) 1 demo_fq [Obj 1] [] demo_ring0) queue_world = ((Returned (Inr True), m'), w') \<and>
     idle alone demo_view demo_ring0 m1 \<and> posixipc_queue_put (Some demo_view) m1 (Some [30]) = (0, m')"
proof -
  obtain m' w' where p: "run (fq_put glibc_x86_64 alone (\<lambda>x. x) 1 demo_fq [Obj 1] [] demo_ring0) queue_world = ((Returned (Inr True), m'), w')"
    using demo_fq_put by auto
  have "a_bytes (env queue_world h (Py (GetBuffer (hd [Obj 1])))) = [30]" for h
    by (simp add: queue_world_def)
  with fq_put_stores_once [OF demo_fq_fits(1) p] p show ?thesis by (auto simp: demo_fq_fits)
qed

lemma demo_fq_get:
  assumes "env w = env queue_world" and "c_count (r_ctrl m) > 0" and "ring_inv demo_view m"
  shows "\<exists>m' x w'. run (fq_get glibc_x86_64 alone (\<lambda>x. x) 1 demo_fq [] [] m) w = ((Returned (Inr (Some x)), m'), w')"
proof -
  obtain x xs where "ring_list demo_view m = x # xs"
    using items_of_count [OF assms(2), of demo_view] by (cases "ring_list demo_view m") auto
  with rq.get_some [OF assms(3)] obtain m' where "ring_get demo_view m = (0, m', Some x)" by blast
  then have "posixipc_queue_get (Some demo_view) m (Some (replicate (unat (q_item_size demo_view)) 0)) = (0, m', Some x)"
    by (auto simp: ring_get_def split: prod.splits if_splits)
  then have "posixipc_queue_get (Some demo_view) m (Some [0]) = (0, m', Some x)" by (simp add: demo_view_def)
  then show ?thesis using assms
    by (simp add: fq_get_def fq_get_locked_def run_fq_defs io_simps answer_to_queue answer0_def alone_def glibc_x86_64_def
        demo_fq_def demo_view_def Let_def)
qed

theorem fq_get_takes_once_witness:
  "\<exists>x m1 m' w'. run (fq_get glibc_x86_64 alone (\<lambda>x. x) 1 demo_fq [] [] demo_ring) queue_world = ((Returned (Inr (Some x)), m'), w') \<and>
     idle alone demo_view demo_ring m1 \<and> ring_get demo_view m1 = (0, m', Some x)"
proof -
  have "c_count (r_ctrl demo_ring) > 0" by (simp add: demo_ring_def word_gt_0)
  then obtain x m' w' where g: "run (fq_get glibc_x86_64 alone (\<lambda>x. x) 1 demo_fq [] [] demo_ring) queue_world = ((Returned (Inr (Some x)), m'), w')"
    using demo_fq_get [of queue_world demo_ring] demo_ring_inv by blast
  with fq_get_takes_once [OF demo_fq_fits(1) g] show ?thesis by (auto simp: demo_fq_fits)
qed

theorem fq_ops_give_back_witness:
  "\<exists>m1 w1 m2 w2 x. run (fq_put glibc_x86_64 alone (\<lambda>x. x) 1 demo_fq [Obj 1] [] demo_ring0) queue_world = ((Returned (Inr True), m1), w1) \<and>
     run (fq_get glibc_x86_64 alone (\<lambda>x. x) 1 demo_fq [] [] m1) w1 = ((Returned x, m2), w2) \<and>
     balance (lock_delta 1) w2 = 0 \<and> balance (buffer_delta (Obj 1)) w1 = 0"
proof -
  let ?m1 = "snd (ring_put demo_view demo_ring0 [30])"
  obtain w1 where p: "run (fq_put glibc_x86_64 alone (\<lambda>x. x) 1 demo_fq [Obj 1] [] demo_ring0) queue_world = ((Returned (Inr True), ?m1), w1)"
    and e: "env w1 = env queue_world" using demo_fq_put by auto
  have k: "ring_inv demo_view ?m1" "ring_list demo_view ?m1 = ring_list demo_view demo_ring0 @ [[30]]"
    using rq.put_room [OF demo_ring0_inv, of "[30]"] length_ring_list [of demo_view demo_ring0]
    by (auto simp: demo_view_def demo_ring0_def)
  from demo_fq_get [OF e count_of_items [OF disjI2 [OF k(2)]] k(1)] obtain x m2 w2 where
    g: "run (fq_get glibc_x86_64 alone (\<lambda>x. x) 1 demo_fq [] [] ?m1) w1 = ((Returned (Inr (Some x)), m2), w2)" by blast
  have "balance (lock_delta 1) queue_world = 0" "balance (buffer_delta (Obj 1)) queue_world = 0"
    by (simp_all add: balance_def queue_world_def)
  with fq_ops_give_back [OF p g, of "Obj 1" 0 1] demo_fq_sound p g show ?thesis by auto
qed

lemma trace_queue_world: "trace queue_world = []"
  by (simp add: queue_world_def)

lemma full_put_calls:
  "\<exists>m w. run (fq_put glibc_x86_64 drained (\<lambda>x. x) (Suc (Suc 0)) demo_fq [Obj 1] [] full_ring) queue_world = ((Returned (Inr True), m), w) \<and>
     map fst (trace w) =
       [Py Type_GetModule, Py (GetBuffer (Obj 1)), Py SaveThread, Mutex (Mutex_lock 1), Py RestoreThread,
        Mem (Futex_word_load 3), Mutex (Mutex_unlock 1), Clock_gettime CLOCK_MONOTONIC, Py SaveThread,
        Linux (Futex_wait_bitset 3 True 0 (Some \<lparr>tv_sec = 101, tv_nsec = 49999999\<rparr>)), Py RestoreThread, Mutex (Mutex_lock 1),
        Mem (Futex_word_add 4 1), Mutex (Mutex_unlock 1), Py (ReleaseBuffer (Obj 1)), Linux (Futex_wake 4 True 1)]"
  by (simp add: fq_put_def fq_put_locked_def fq_wait_word_def posixipc_blocking_wait_def futex_wait_cb_def posixipc_futex_wait_def
      run_fq_defs trace_queue_world io_simps answer_to_queue answer0_def drained_def glibc_x86_64_def add_ns_def
      demo_fq_def demo_view_def full_ring_def drained_ring_def posixipc_queue_put_def copy_at_def slot_data_def Let_def word_le_nat_alt word_less_nat_alt)

lemma full_get_calls:
  "\<exists>x m w. run (fq_get glibc_x86_64 alone (\<lambda>x. x) 1 demo_fq [] [] full_ring) queue_world = ((Returned (Inr (Some x)), m), w) \<and>
     map fst (trace w) =
       [Py Type_GetModule, Py (PyMem_Malloc 1), Py SaveThread, Mutex (Mutex_lock 1), Py RestoreThread,
        Mem (Futex_word_add 3 1), Mutex (Mutex_unlock 1), Linux (Futex_wake 3 True 1), Py (BytesFromString [10]), Py (PyMem_Free 0)]"
  by (simp add: fq_get_def fq_get_locked_def run_fq_defs trace_queue_world io_simps answer_to_queue answer0_def alone_def glibc_x86_64_def
      demo_fq_def demo_view_def full_ring_def posixipc_queue_get_def copy_at_def slot_data_def Let_def word_le_nat_alt word_less_nat_alt)

text \<open>
  C14. A put that waits for room and a get in another thread of the same process can stop each other for ever. The calls are
  those of two complete runs of the code on a full queue; they are interleaved with one interpreter lock and one mutex. The put
  gives up the interpreter lock during its futex wait; the get runs, takes the mutex and waits for the interpreter
  lock; the put comes back, holds the interpreter lock and waits for the mutex.
\<close>

theorem fq_put_deadlocks:
  "\<exists>ma wa x mb wb st.
     run (fq_put glibc_x86_64 drained (\<lambda>x. x) (Suc (Suc 0)) demo_fq [Obj 1] [] full_ring) queue_world = ((Returned (Inr True), ma), wa) \<and>
     run (fq_get glibc_x86_64 alone (\<lambda>x. x) 1 demo_fq [] [] full_ring) queue_world = ((Returned (Inr (Some x)), mb), wb) \<and>
     (sched_step 1)\<^sup>*\<^sup>* (map fst (trace wa), Py RestoreThread # map fst (trace wb), Some False, None) st \<and> deadlocked 1 st"
proof -
  obtain ma wa where a: "run (fq_put glibc_x86_64 drained (\<lambda>x. x) (Suc (Suc 0)) demo_fq [Obj 1] [] full_ring) queue_world = ((Returned (Inr True), ma), wa)"
    and ca: "map fst (trace wa) =
       [Py Type_GetModule, Py (GetBuffer (Obj 1)), Py SaveThread, Mutex (Mutex_lock 1), Py RestoreThread,
        Mem (Futex_word_load 3), Mutex (Mutex_unlock 1), Clock_gettime CLOCK_MONOTONIC, Py SaveThread,
        Linux (Futex_wait_bitset 3 True 0 (Some \<lparr>tv_sec = 101, tv_nsec = 49999999\<rparr>)), Py RestoreThread, Mutex (Mutex_lock 1),
        Mem (Futex_word_add 4 1), Mutex (Mutex_unlock 1), Py (ReleaseBuffer (Obj 1)), Linux (Futex_wake 4 True 1)]"
    using full_put_calls by (elim exE conjE)
  obtain x mb wb where b: "run (fq_get glibc_x86_64 alone (\<lambda>x. x) 1 demo_fq [] [] full_ring) queue_world = ((Returned (Inr (Some x)), mb), wb)"
    and cb: "map fst (trace wb) =
       [Py Type_GetModule, Py (PyMem_Malloc 1), Py SaveThread, Mutex (Mutex_lock 1), Py RestoreThread,
        Mem (Futex_word_add 3 1), Mutex (Mutex_unlock 1), Linux (Futex_wake 3 True 1), Py (BytesFromString [10]), Py (PyMem_Free 0)]"
    using full_get_calls by (elim exE conjE)
  let ?schedule = "replicate 9 False @ replicate 5 True @ replicate 2 False"
  let ?sa = "[Mutex (Mutex_lock 1), Mem (Futex_word_add 4 1), Mutex (Mutex_unlock 1), Py (ReleaseBuffer (Obj 1)), Linux (Futex_wake 4 True 1)]"
  let ?sb = "[Py RestoreThread, Mem (Futex_word_add 3 1), Mutex (Mutex_unlock 1), Linux (Futex_wake 3 True 1), Py (BytesFromString [10]), Py (PyMem_Free 0)]"
  have "run_sched 1 ?schedule (map fst (trace wa), Py RestoreThread # map fst (trace wb), Some False, None) = Some (?sa, ?sb, Some False, Some True)"
    unfolding ca cb by (simp add: numeral_eq_Suc)
  note reach = run_sched_reaches [OF this]
  have "deadlocked 1 (?sa, ?sb, Some False, Some True)" by (rule deadlockedI) simp_all
  with a b reach show ?thesis by blast
qed

end
