(* ===== verification/LayoutObj.thy ===== *)
theory LayoutObj
  imports FutexQObj
begin

text \<open>
  Layout objects (the larger part of \<^verbatim>\<open>src/src/bindings/py_layout.c\<close>): the list of handles a program asks for and
  the slots behind them, growing the slot array, adding handles of every kind, creating, attaching and open-or-create with the
  initialisation of the primitives and the binding of all handles, and the module functions that rebuild pickled handles. The lemmas show
  that the handles always partition the slots and have slots of their kinds, that a failing add changes nothing, that
  binding counts pins exactly, and where the checks of pickled positions overflow.
\<close>

section \<open>Layouts and their handles\<close>

text \<open>A handle of one of the ten types; \<open>LOther\<close> stands for an object of any other type.\<close>

datatype layout_handle =
    LMutex PosixIPCMutexObject | LArray PosixIPCMutexArrayObject | LBytes PosixIPCBytesObject | LRWLock PosixIPCRWLockObject
  | LCond PosixIPCConditionObject | LSem PosixIPCSemaphoreObject | LBarrier PosixIPCBarrierObject | LSpin PosixIPCSpinLockObject
  | LQueue PosixIPCQueueObject | LFutexQueue PosixIPCFutexQueueObject | LOther

text \<open>
  The handles are kept with their addresses, which are their identities. The slot array has \<open>ly_cap\<close> entries; those from \<open>ly_nslots\<close> on are
  written before they are read, and stand at zero here until then. An initialised layout has a list.
\<close>

record PosixIPCLayoutObject =
  ly_handles :: "(addr \<times> layout_handle) list"
  ly_slots :: "posixipc_slot list"
  ly_nslots :: u16
  ly_cap :: u16
  ly_sealed :: bool

definition slot_zero :: posixipc_slot where
  "slot_zero = \<lparr>s_kind = 0, s_align = 0, s_offset = 0, s_size = 0, s_init_flags = 0\<rparr>"

abbreviation (input) QUEUE_SLOTS :: u32 where "QUEUE_SLOTS \<equiv> 5"
abbreviation (input) FUTEX_QUEUE_SLOTS :: u32 where "FUTEX_QUEUE_SLOTS \<equiv> 3"

definition aux_flags :: "u32 \<Rightarrow> u32" where
  "aux_flags v = push_bit 16 v"

text \<open>The doubling loop; the product is cut to 16 bits, and a step that does not grow ends at the maximum.\<close>

function grow_cap :: "u16 \<Rightarrow> u32 \<Rightarrow> u16" where
  "grow_cap ncap need =
     (if ucast ncap < need then
        (let next = ucast ((ucast ncap :: u32) * 2) in if next \<le> ncap then 0xffff else grow_cap next need)
      else ncap)"
  by pat_completeness auto
termination
  by (relation "measure (\<lambda>(ncap, need). 65536 - unat ncap)")
    (auto simp: not_le word_less_nat_alt intro!: diff_less_mono2 unat_u16_less [simplified])

definition layout_ensure :: "PosixIPCLayoutObject \<Rightarrow> u32 \<Rightarrow> (pyexc option \<times> PosixIPCLayoutObject) io" where
  "layout_ensure l need =
     (if need > 0xffff then ret (Some OverflowError, l)
      else if ucast (ly_cap l) \<ge> need then ret (None, l)
      else let ncap = grow_cap (if ly_cap l = 0 then 4 else ly_cap l) need in do {
        a \<leftarrow> call (Py (PyMem_Realloc (unat ncap * 16)));
        ret (if a_ret a < 0 then (Some MemoryError, l)
             else (None, l\<lparr>ly_slots := ly_slots l @ replicate (unat ncap - length (ly_slots l)) slot_zero, ly_cap := ncap\<rparr>)) })"

definition layout_reserve :: "PosixIPCLayoutObject \<Rightarrow> (pyexc option \<times> PosixIPCLayoutObject) io" where
  "layout_reserve l = layout_ensure l (ucast (ly_nslots l) + 1)"

fun layout_handle_span :: "layout_handle \<Rightarrow> (u32 \<times> u32) pyres" where
  "layout_handle_span (LArray a) = Inr (ar_first_slot a, ar_count a)"
| "layout_handle_span (LMutex m) = Inr (m_slot m, 1)"
| "layout_handle_span (LBytes b) = Inr (x_slot b, 1)"
| "layout_handle_span (LRWLock ob) = Inr (x_slot ob, 1)"
| "layout_handle_span (LCond ob) = Inr (x_slot ob, 1)"
| "layout_handle_span (LSem ob) = Inr (x_slot ob, 1)"
| "layout_handle_span (LBarrier ob) = Inr (x_slot ob, 1)"
| "layout_handle_span (LSpin ob) = Inr (x_slot ob, 1)"
| "layout_handle_span (LQueue q) = Inr (qo_first_slot q, QUEUE_SLOTS)"
| "layout_handle_span (LFutexQueue q) = Inr (fo_first_slot q, FUTEX_QUEUE_SLOTS)"
| "layout_handle_span LOther = Inl TypeError"

definition slot_meta :: "posixipc_slot \<Rightarrow> 'a handle_scheme \<Rightarrow> 'a handle_scheme" where
  "slot_meta s ob = ob\<lparr>x_align := s_align s, x_offset := s_offset s, x_size := s_size s\<rparr>"

fun layout_apply_slot_meta :: "layout_handle \<Rightarrow> posixipc_slot \<Rightarrow> layout_handle" where
  "layout_apply_slot_meta (LArray a) s = LArray (a\<lparr>ar_align := s_align s, ar_offset := s_offset s, ar_size := s_size s\<rparr>)"
| "layout_apply_slot_meta (LMutex m) s = LMutex (m\<lparr>m_align := s_align s, m_offset := s_offset s, m_size := s_size s\<rparr>)"
| "layout_apply_slot_meta (LBytes b) s = LBytes (slot_meta s b)"
| "layout_apply_slot_meta (LRWLock ob) s = LRWLock (slot_meta s ob)"
| "layout_apply_slot_meta (LCond ob) s = LCond (slot_meta s ob)"
| "layout_apply_slot_meta (LSem ob) s = LSem (slot_meta s ob)"
| "layout_apply_slot_meta (LBarrier ob) s = LBarrier (slot_meta s ob)"
| "layout_apply_slot_meta (LSpin ob) s = LSpin (slot_meta s ob)"
| "layout_apply_slot_meta h s = h"

text \<open>The loop over the handles; the first one that is out of range ends it.\<close>

fun sync_handles :: "posixipc_slot list \<Rightarrow> u16 \<Rightarrow> (addr \<times> layout_handle) list \<Rightarrow> pyexc option \<times> (addr \<times> layout_handle) list" where
  "sync_handles slots n [] = (None, [])"
| "sync_handles slots n ((p, h) # hs) =
     (case layout_handle_span h of
        Inl e \<Rightarrow> (Some e, (p, h) # hs)
      | Inr (first, count) \<Rightarrow>
          if count = 0 \<or> first \<ge> ucast n \<or> first + count > ucast n then (Some RuntimeError, (p, h) # hs)
          else case sync_handles slots n hs of
            (e, hs') \<Rightarrow> (e, (p, layout_apply_slot_meta h (slots ! unat first)) # hs'))"

text \<open>The array pointer is NULL as long as nothing has been reserved. The expectation on the stack is written by the core.\<close>

definition layout_build_of :: "config \<Rightarrow> PosixIPCLayoutObject \<Rightarrow> rc \<times> PosixIPCLayoutObject \<times> posixipc_shm_expect" where
  "layout_build_of c l =
     (case posixipc_layout_build c (if ly_cap l = 0 then None else Some (ly_slots l)) (ly_nslots l) (Some expect0) of
        (rc, slots, e) \<Rightarrow> (rc, l\<lparr>ly_slots := (case slots of None \<Rightarrow> [] | Some xs \<Rightarrow> xs)\<rparr>, the e))"

text \<open>The caller has found the module; the lookup here gives the same answer.\<close>

definition layout_sync :: "config \<Rightarrow> PosixIPCLayoutObject \<Rightarrow> (pyexc option \<times> PosixIPCLayoutObject) io" where
  "layout_sync c l = do {
     _ \<leftarrow> posixipc_state_from_obj;
     ret (case layout_build_of c l of (rc, l, _) \<Rightarrow>
            if rc \<noteq> 0 then (Some (raise_err rc), l)
            else case sync_handles (ly_slots l) (ly_nslots l) (ly_handles l) of (e, hs) \<Rightarrow> (e, l\<lparr>ly_handles := hs\<rparr>)) }"

section \<open>Adding handles\<close>

text \<open>
  \<open>p\<close> is the address of the new handle. A handle that is dropped again is unbound and has nothing to give back.
  After a failing synchronisation the handle and its slots are taken back.
\<close>

definition commit_slots :: "config \<Rightarrow> PosixIPCLayoutObject \<Rightarrow> addr \<Rightarrow> layout_handle \<Rightarrow> u16 \<Rightarrow> (addr pyres \<times> PosixIPCLayoutObject) io" where
  "commit_slots c l p h n = do {
     a \<leftarrow> call (Py ListAppend);
     if a_ret a < 0 then ret (Inl Pending, l)
     else do {
       (e, l1) \<leftarrow> layout_sync c (l\<lparr>ly_handles := ly_handles l @ [(p, h)], ly_nslots := ly_nslots l + n\<rparr>);
       ret (case e of None \<Rightarrow> (Inr p, l1)
            | Some x \<Rightarrow> (Inl x, l1\<lparr>ly_handles := butlast (ly_handles l1), ly_nslots := ly_nslots l\<rparr>)) } }"

definition layout_commit :: "config \<Rightarrow> PosixIPCLayoutObject \<Rightarrow> addr \<Rightarrow> layout_handle \<Rightarrow> (addr pyres \<times> PosixIPCLayoutObject) io" where
  "layout_commit c l p h = commit_slots c l p h 1"

definition layout_commit_span ::
    "config \<Rightarrow> PosixIPCLayoutObject \<Rightarrow> addr \<Rightarrow> layout_handle \<Rightarrow> u16 \<Rightarrow> (addr pyres \<times> PosixIPCLayoutObject) io" where
  "layout_commit_span c l p h n = (if n = 0 then ret (Inl ValueError, l) else commit_slots c l p h n)"

text \<open>Copies the first slot of the span to the others, after the handle was appended.\<close>

definition copy_slot :: "posixipc_slot list \<Rightarrow> nat \<Rightarrow> nat \<Rightarrow> posixipc_slot list" where
  "copy_slot slots start n = take (Suc start) slots @ replicate (n - 1) (slots ! start) @ drop (start + n) slots"

definition layout_commit_n ::
    "config \<Rightarrow> PosixIPCLayoutObject \<Rightarrow> addr \<Rightarrow> layout_handle \<Rightarrow> u16 \<Rightarrow> (addr pyres \<times> PosixIPCLayoutObject) io" where
  "layout_commit_n c l p h n =
     (if n = 0 then ret (Inl ValueError, l)
      else do {
        a \<leftarrow> call (Py ListAppend);
        if a_ret a < 0 then ret (Inl Pending, l)
        else do {
          (e, l1) \<leftarrow> layout_sync c (l\<lparr>ly_handles := ly_handles l @ [(p, h)],
            ly_slots := copy_slot (ly_slots l) (unat (ly_nslots l)) (unat n), ly_nslots := ly_nslots l + n\<rparr>);
          ret (case e of None \<Rightarrow> (Inr p, l1)
               | Some x \<Rightarrow> (Inl x, l1\<lparr>ly_handles := butlast (ly_handles l1), ly_nslots := ly_nslots l\<rparr>)) } })"

text \<open>The position of a mutex that is a handle of this very layout.\<close>

definition layout_mutex_index :: "PosixIPCLayoutObject \<Rightarrow> addr \<Rightarrow> u32 option" where
  "layout_mutex_index l p = (case map_of (ly_handles l) p of Some (LMutex m) \<Rightarrow> Some (m_slot m) | _ \<Rightarrow> None)"

definition put_slots :: "PosixIPCLayoutObject \<Rightarrow> posixipc_slot list \<Rightarrow> PosixIPCLayoutObject" where
  "put_slots l ss = l\<lparr>ly_slots := take (unat (ly_nslots l)) (ly_slots l) @ ss @ drop (unat (ly_nslots l) + length ss) (ly_slots l)\<rparr>"

definition mutex_slot_of :: "u16 \<Rightarrow> u32 \<Rightarrow> posixipc_slot" where
  "mutex_slot_of kind flags = slot_zero\<lparr>s_kind := kind, s_init_flags := flags\<rparr>"

definition bytes_slot_of :: "config \<Rightarrow> u32 \<Rightarrow> u32 \<Rightarrow> posixipc_slot" where
  "bytes_slot_of c sz flags = slot_zero\<lparr>s_kind := KIND_BYTES, s_align := ucast (posixipc_kind_align c KIND_BYTES), s_size := sz,
     s_init_flags := flags\<rparr>"

definition queue_range :: "int \<Rightarrow> int \<Rightarrow> bool" where
  "queue_range depth item_size \<longleftrightarrow> \<not> (depth < 1 \<or> item_size < 1 \<or> depth > 0xffffffff \<or> item_size > 0xffffffff)"

definition nonzero_flags :: "u32 \<Rightarrow> u32" where
  "nonzero_flags f = (if f = 0 then 1 else f)"

text \<open>\<open>died\<close>: \<^verbatim>\<open>on_owner_died\<close> was given and is not None.\<close>

definition layout_add_queue ::
    "config \<Rightarrow> PosixIPCLayoutObject \<Rightarrow> addr \<Rightarrow> int \<Rightarrow> int \<Rightarrow> bool \<Rightarrow> (addr pyres \<times> PosixIPCLayoutObject) io" where
  "layout_add_queue c l p depth item_size died =
     (if died then ret (Inl TypeError, l)
      else if \<not> queue_range depth item_size then ret (Inl ValueError, l)
      else let d = word_of_int depth; k = word_of_int item_size;
               nbytes = posixipc_queue_bytes_size c d k;
               padded = posixipc_kind_size c KIND_BYTES nbytes
        in if nbytes = 0 \<or> padded = 0 then ret (Inl ValueError, l)
        else do {
          (e, l) \<leftarrow> layout_ensure l (ucast (ly_nslots l) + QUEUE_SLOTS);
          case e of Some x \<Rightarrow> ret (Inl x, l) | None \<Rightarrow>
            let first = ucast (ly_nslots l);
                mutex_flags = FLAG_PROCESS_SHARED OR FLAG_ROBUST;
                mono = (if HAVE_PTHREAD_CONDATTR_SETCLOCK c then FLAG_MONOTONIC else 0);
                cond0 = FLAG_PROCESS_SHARED OR aux_flags first OR mono;
                cond1 = FLAG_PROCESS_SHARED OR aux_flags (first + 1) OR mono;
                l = put_slots l [mutex_slot_of KIND_ROBUST_MUTEX mutex_flags, mutex_slot_of KIND_ROBUST_MUTEX mutex_flags,
                      mutex_slot_of KIND_COND cond0, mutex_slot_of KIND_COND cond1,
                      bytes_slot_of c padded (nonzero_flags ((d * 0x9e3779b1) XOR (k * 0x85ebca77)))]
            in do {
              h \<leftarrow> posixipc_queue_new_unbound c True d k first;
              case h of Inl x \<Rightarrow> ret (Inl x, l) | Inr q \<Rightarrow> layout_commit_span c l p (LQueue q) 5 } })"

definition layout_add_futex_queue ::
    "config \<Rightarrow> PosixIPCLayoutObject \<Rightarrow> addr \<Rightarrow> int \<Rightarrow> int \<Rightarrow> bool \<Rightarrow> (addr pyres \<times> PosixIPCLayoutObject) io" where
  "layout_add_futex_queue c l p depth item_size died =
     (if died then ret (Inl TypeError, l)
      else if \<not> queue_range depth item_size then ret (Inl ValueError, l)
      else let d = word_of_int depth; k = word_of_int item_size;
               nbytes = posixipc_futexq_bytes_size c d k;
               padded = posixipc_kind_size c KIND_BYTES nbytes
        in if nbytes = 0 \<or> padded = 0 then ret (Inl ValueError, l)
        else do {
          (e, l) \<leftarrow> layout_ensure l (ucast (ly_nslots l) + FUTEX_QUEUE_SLOTS);
          case e of Some x \<Rightarrow> ret (Inl x, l) | None \<Rightarrow>
            let first = ucast (ly_nslots l);
                mutex_flags = FLAG_PROCESS_SHARED OR FLAG_ROBUST;
                l = put_slots l [mutex_slot_of KIND_ROBUST_MUTEX mutex_flags, mutex_slot_of KIND_ROBUST_MUTEX mutex_flags,
                      bytes_slot_of c padded (nonzero_flags ((d * 0x9e3779b1) XOR (k * 0x85ebca77) XOR 0x46555121))]
            in do {
              h \<leftarrow> posixipc_futexq_new_unbound True d k first;
              case h of Inl x \<Rightarrow> ret (Inl x, l) | Inr q \<Rightarrow> layout_commit_span c l p (LFutexQueue q) 3 } })"

text \<open>What the type tests of the code tell apart; the two mutex kinds include their subclasses.\<close>

datatype add_kind =
    K_Mutex | K_RobustMutex | K_RWLock | K_Condition | K_Semaphore | K_Barrier | K_SpinLock | K_Queue | K_FutexQueue
  | K_Futex | K_EventFD | K_MemFD | K_NamedMessageQueue | K_other

datatype mutex_arg = No_mutex | Not_a_mutex | A_mutex addr

record add_args =
  aa_on_owner_died :: "pyobj option"
  aa_prio_inherit :: bool
  aa_process_shared :: bool
  aa_mutex :: mutex_arg
  aa_value :: int
  aa_parties :: int
  aa_depth :: int
  aa_item_size :: int

definition given :: "pyobj option \<Rightarrow> bool" where
  "given ob \<longleftrightarrow> ob \<noteq> None \<and> ob \<noteq> Some Py_None"

definition mutex_flags :: "bool \<Rightarrow> bool \<Rightarrow> u32" where
  "mutex_flags robust inherit =
     FLAG_PROCESS_SHARED OR (if robust then FLAG_ROBUST else 0) OR (if inherit then FLAG_PRIORITY_INHERIT else 0)"

text \<open>The checks on the recovery callback of the two mutex kinds; the callback the new object gets.\<close>

definition owner_died_arg :: "bool \<Rightarrow> pyobj option \<Rightarrow> pyobj option pyres io" where
  "owner_died_arg robust died =
     (if \<not> robust then ret (if given died then Inl TypeError else Inr None)
      else if \<not> given died then ret (Inl TypeError)
      else do {
        k \<leftarrow> call (Py (Callable (the died)));
        ret (if a_ret k = 0 then Inl TypeError else Inr died) })"

text \<open>One slot: it is written, the handle made, and both are committed.\<close>

definition add_single ::
    "config \<Rightarrow> PosixIPCLayoutObject \<Rightarrow> addr \<Rightarrow> u16 \<Rightarrow> u32 \<Rightarrow> layout_handle pyres io \<Rightarrow> (addr pyres \<times> PosixIPCLayoutObject) io" where
  "add_single c l p kind flags new =
     (let l = put_slots l [mutex_slot_of kind flags] in do {
        h \<leftarrow> new;
        case h of Inl x \<Rightarrow> ret (Inl x, l) | Inr ob \<Rightarrow> layout_commit c l p ob })"

definition made :: "('o \<Rightarrow> layout_handle) \<Rightarrow> 'o pyres io \<Rightarrow> layout_handle pyres io" where
  "made con m = do { x \<leftarrow> m; ret (case x of Inl e \<Rightarrow> Inl e | Inr ob \<Rightarrow> Inr (con ob)) }"

text \<open>\<open>storage\<close> is the inline storage of the new object.\<close>

definition add_slot_kind ::
    "config \<Rightarrow> PosixIPCLayoutObject \<Rightarrow> addr \<Rightarrow> addr \<Rightarrow> add_kind \<Rightarrow> add_args \<Rightarrow> (addr pyres \<times> PosixIPCLayoutObject) io" where
  "add_slot_kind c l p storage kind args =
     (let slot = ucast (ly_nslots l) in
      case kind of
        K_Mutex \<Rightarrow> do {
          d \<leftarrow> owner_died_arg False (aa_on_owner_died args);
          case d of Inl e \<Rightarrow> ret (Inl e, l) | Inr fn \<Rightarrow>
            let fl = mutex_flags False (aa_prio_inherit args) in
            add_single c l p KIND_MUTEX fl (made LMutex (posixipc_mutex_new_unbound c KIND_MUTEX fl fn slot storage)) }
      | K_RobustMutex \<Rightarrow> do {
          d \<leftarrow> owner_died_arg True (aa_on_owner_died args);
          case d of Inl e \<Rightarrow> ret (Inl e, l) | Inr fn \<Rightarrow>
            let fl = mutex_flags True (aa_prio_inherit args) in
            add_single c l p KIND_ROBUST_MUTEX fl (made LMutex (posixipc_mutex_new_unbound c KIND_ROBUST_MUTEX fl fn slot storage)) }
      | K_RWLock \<Rightarrow> add_single c l p KIND_RWLOCK FLAG_PROCESS_SHARED
          (made LRWLock (posixipc_rwlock_new_unbound c FLAG_PROCESS_SHARED slot storage))
      | K_Condition \<Rightarrow>
          (case aa_mutex args of
             No_mutex \<Rightarrow> ret (Inl TypeError, l)
           | Not_a_mutex \<Rightarrow> ret (Inl TypeError, l)
           | A_mutex m \<Rightarrow>
               (case layout_mutex_index l m of None \<Rightarrow> ret (Inl ValueError, l) | Some i \<Rightarrow>
                  let fl = FLAG_PROCESS_SHARED OR aux_flags i OR (if HAVE_PTHREAD_CONDATTR_SETCLOCK c then FLAG_MONOTONIC else 0) in
                  add_single c l p KIND_COND fl (made LCond (posixipc_cond_new_unbound c fl slot (Some m) storage))))
      | K_Semaphore \<Rightarrow>
          if aa_value args < 0 \<or> aa_value args > 0xffff then ret (Inl ValueError, l)
          else let fl = FLAG_PROCESS_SHARED OR aux_flags (word_of_int (aa_value args)) in
            add_single c l p KIND_SEM fl (made LSem (posixipc_sem_new_unbound c fl (nat (aa_value args)) slot storage))
      | K_Barrier \<Rightarrow>
          if aa_parties args < 1 \<or> aa_parties args > 0xffff then ret (Inl TypeError, l)
          else let fl = FLAG_PROCESS_SHARED OR aux_flags (word_of_int (aa_parties args)) in
            add_single c l p KIND_BARRIER fl (made LBarrier (posixipc_barrier_new_unbound c fl (nat (aa_parties args)) slot storage))
      | K_SpinLock \<Rightarrow> add_single c l p KIND_SPIN FLAG_PROCESS_SHARED
          (made LSpin (posixipc_spin_new_unbound c FLAG_PROCESS_SHARED slot storage))
      | _ \<Rightarrow> ret (Inl TypeError, l))"

text \<open>Kinds that are refused before a slot is reserved.\<close>

definition not_a_kind :: "add_kind \<Rightarrow> bool" where
  "not_a_kind k \<longleftrightarrow> k \<in> {K_Futex, K_EventFD, K_MemFD, K_NamedMessageQueue}"

definition layout_add ::
    "config \<Rightarrow> PosixIPCLayoutObject \<Rightarrow> addr \<Rightarrow> addr \<Rightarrow> add_kind \<Rightarrow> add_args \<Rightarrow> (addr pyres \<times> PosixIPCLayoutObject) io" where
  "layout_add c l p storage kind args = do {
     st \<leftarrow> posixipc_state_from_obj;
     case st of Some e \<Rightarrow> ret (Inl e, l) | None \<Rightarrow>
       if ly_sealed l then ret (Inl RuntimeError, l)
       else do {
         a \<leftarrow> call (Py (ParseTuple ''O|$OppOnnnn:add''));
         if a_ret a = 0 then ret (Inl Pending, l)
         else if \<not> aa_process_shared args then ret (Inl ValueError, l)
         else if kind = K_Queue then layout_add_queue c l p (aa_depth args) (aa_item_size args) (given (aa_on_owner_died args))
         else if kind = K_FutexQueue then layout_add_futex_queue c l p (aa_depth args) (aa_item_size args) (given (aa_on_owner_died args))
         else if not_a_kind kind then ret (Inl TypeError, l)
         else do {
           (e, l) \<leftarrow> layout_reserve l;
           case e of Some x \<Rightarrow> ret (Inl x, l) | None \<Rightarrow> add_slot_kind c (put_slots l [slot_zero]) p storage kind args } } }"

definition layout_add_bytes :: "config \<Rightarrow> PosixIPCLayoutObject \<Rightarrow> addr \<Rightarrow> int \<Rightarrow> (addr pyres \<times> PosixIPCLayoutObject) io" where
  "layout_add_bytes c l p sz = do {
     st \<leftarrow> posixipc_state_from_obj;
     case st of Some e \<Rightarrow> ret (Inl e, l) | None \<Rightarrow>
       if ly_sealed l then ret (Inl RuntimeError, l)
       else do {
         a \<leftarrow> call (Py (ParseTuple ''n:add_bytes''));
         if a_ret a = 0 then ret (Inl Pending, l)
         else if sz \<le> 0 \<or> sz > 0xffffffff then ret (Inl ValueError, l)
         else let padded = posixipc_kind_size c KIND_BYTES (word_of_int sz) in
           if padded = 0 then ret (Inl ValueError, l)
           else do {
             (e, l) \<leftarrow> layout_reserve l;
             case e of Some x \<Rightarrow> ret (Inl x, l) | None \<Rightarrow>
               let l = put_slots l [bytes_slot_of c padded 0] in do {
                 h \<leftarrow> posixipc_bytes_new_unbound c padded (ucast (ly_nslots l));
                 case h of Inl x \<Rightarrow> ret (Inl x, l) | Inr b \<Rightarrow> layout_commit c l p (LBytes b) } } } }"

definition layout_add_array ::
    "config \<Rightarrow> PosixIPCLayoutObject \<Rightarrow> addr \<Rightarrow> add_kind \<Rightarrow> int \<Rightarrow> add_args \<Rightarrow> (addr pyres \<times> PosixIPCLayoutObject) io" where
  "layout_add_array c l p kind count args = do {
     st \<leftarrow> posixipc_state_from_obj;
     case st of Some e \<Rightarrow> ret (Inl e, l) | None \<Rightarrow>
       if ly_sealed l then ret (Inl RuntimeError, l)
       else do {
         a \<leftarrow> call (Py (ParseTuple ''On|$Opp:add_array''));
         if a_ret a = 0 then ret (Inl Pending, l)
         else if \<not> aa_process_shared args then ret (Inl ValueError, l)
         else if count < 1 \<or> count > 0xffff then ret (Inl ValueError, l)
         else if kind \<noteq> K_Mutex \<and> kind \<noteq> K_RobustMutex then ret (Inl TypeError, l)
         else do {
           d \<leftarrow> owner_died_arg (kind = K_RobustMutex) (aa_on_owner_died args);
           case d of Inl e \<Rightarrow> ret (Inl e, l) | Inr fn \<Rightarrow>
             let fl = mutex_flags (kind = K_RobustMutex) (aa_prio_inherit args);
                 code = (if kind = K_RobustMutex then KIND_ROBUST_MUTEX else KIND_MUTEX)
             in do {
               (e, l) \<leftarrow> layout_ensure l (ucast (ly_nslots l) + word_of_int count);
               case e of Some x \<Rightarrow> ret (Inl x, l) | None \<Rightarrow>
                 let l = put_slots l [mutex_slot_of code fl] in do {
                   h \<leftarrow> posixipc_mutexarray_new_unbound c code fl fn (ucast (ly_nslots l)) (word_of_int count);
                   case h of Inl x \<Rightarrow> ret (Inl x, l) | Inr ob \<Rightarrow> layout_commit_n c l p (LArray ob) (word_of_int count) } } } } }"

text \<open>\<^const>\<open>None\<close> is an object that has no list of handles yet.\<close>

definition layout_init :: "PosixIPCLayoutObject option \<Rightarrow> (pyexc option \<times> PosixIPCLayoutObject option) io" where
  "layout_init l = do {
     a \<leftarrow> call (Py (ParseTuple ''|:Layout''));
     if a_ret a = 0 then ret (Some Pending, l)
     else if l \<noteq> None then ret (Some RuntimeError, l)
     else do {
       hs \<leftarrow> call (Py (ListNew 0));
       ret (if a_ret hs < 0 then (Some Pending, l)
            else (None, Some \<lparr>ly_handles = [], ly_slots = [], ly_nslots = 0, ly_cap = 0, ly_sealed = False\<rparr>)) } }"

section \<open>Creating and attaching\<close>

text \<open>The memory behind the byte slots that hold rings, by slot.\<close>

type_synonym rings = "u32 \<Rightarrow> ring"

definition core_ptr :: "posixipc_shm \<Rightarrow> posixipc_slot \<Rightarrow> (rc \<times> addr option) io" where
  "core_ptr core s = region_ptr \<lparr>s_core = core, s_pins = 0, s_flags = 0, s_created = True\<rparr> (s_offset s) (s_size s) (ucast (s_align s))"

definition init_slot :: "config \<Rightarrow> posixipc_slot \<Rightarrow> addr option \<Rightarrow> rc io" where
  "init_slot c s ptr =
     (let fl = s_init_flags s; aux = unat (drop_bit 16 (s_init_flags s)) in
      if s_kind s = KIND_MUTEX \<or> s_kind s = KIND_ROBUST_MUTEX then posixipc_mutex_init ptr (Some fl)
      else if s_kind s = KIND_RWLOCK then posixipc_rwlock_init ptr (Some fl)
      else if s_kind s = KIND_COND then posixipc_cond_init c ptr (Some fl)
      else if s_kind s = KIND_SEM then posixipc_sem_init ptr (Some (fl, aux))
      else if s_kind s = KIND_BARRIER then posixipc_barrier_init c ptr (Some (fl, aux))
      else if s_kind s = KIND_SPIN then posixipc_spin_init c ptr (Some fl)
      else ret 0)"

fun init_slots :: "config \<Rightarrow> posixipc_shm \<Rightarrow> posixipc_slot list \<Rightarrow> pyexc option io" where
  "init_slots c core [] = ret None"
| "init_slots c core (s # ss) = do {
     (rc, ptr) \<leftarrow> core_ptr core s;
     if rc \<noteq> 0 then ret (Some (raise_err rc))
     else do {
       rc \<leftarrow> init_slot c s ptr;
       if rc \<noteq> 0 then ret (Some (raise_err rc)) else init_slots c core ss } }"

definition layout_init_primitives :: "config \<Rightarrow> PosixIPCLayoutObject \<Rightarrow> posixipc_shm \<Rightarrow> pyexc option io" where
  "layout_init_primitives c l core = do {
     _ \<leftarrow> posixipc_state_from_obj;
     init_slots c core (take (unat (ly_nslots l)) (ly_slots l)) }"

text \<open>Two passes over the handles: first the queues, then the futex queues.\<close>

fun init_queues ::
    "config \<Rightarrow> posixipc_shm \<Rightarrow> posixipc_slot list \<Rightarrow> u16 \<Rightarrow> (addr \<times> layout_handle) list \<Rightarrow> rings \<Rightarrow> (pyexc option \<times> rings) io" where
  "init_queues c core slots n [] M = ret (None, M)"
| "init_queues c core slots n ((p, LQueue q) # hs) M =
     (let first = qo_first_slot q in
      if first + QUEUE_SLOTS > ucast n then ret (Some RuntimeError, M)
      else do {
        (rc, m) \<leftarrow> posixipc_queue_init_on_shm c core (slots ! unat (first + 4)) (qo_depth q) (qo_item_size q) (M (first + 4));
        if rc \<noteq> 0 then ret (Some (raise_err rc), M(first + 4 := m))
        else init_queues c core slots n hs (M(first + 4 := m)) })"
| "init_queues c core slots n (_ # hs) M = init_queues c core slots n hs M"

fun init_futex_queues ::
    "config \<Rightarrow> posixipc_shm \<Rightarrow> posixipc_slot list \<Rightarrow> u16 \<Rightarrow> (addr \<times> layout_handle) list \<Rightarrow> rings \<Rightarrow> (pyexc option \<times> rings) io" where
  "init_futex_queues c core slots n [] M = ret (None, M)"
| "init_futex_queues c core slots n ((p, LFutexQueue q) # hs) M =
     (let first = fo_first_slot q in
      if first + FUTEX_QUEUE_SLOTS > ucast n then ret (Some RuntimeError, M)
      else do {
        (rc, m) \<leftarrow> posixipc_futexq_init_on_shm c core (slots ! unat (first + 2)) (fo_depth q) (fo_item_size q) (M (first + 2));
        if rc \<noteq> 0 then ret (Some (raise_err rc), M(first + 2 := m))
        else init_futex_queues c core slots n hs (M(first + 2 := m)) })"
| "init_futex_queues c core slots n (_ # hs) M = init_futex_queues c core slots n hs M"

definition layout_init_queue_ctrls :: "config \<Rightarrow> PosixIPCLayoutObject \<Rightarrow> posixipc_shm \<Rightarrow> rings \<Rightarrow> (pyexc option \<times> rings) io" where
  "layout_init_queue_ctrls c l core M = do {
     st \<leftarrow> posixipc_state_from_obj;
     if st \<noteq> None then ret (None, M)
     else do {
       (e, M) \<leftarrow> init_queues c core (ly_slots l) (ly_nslots l) (ly_handles l) M;
       if e \<noteq> None then ret (e, M) else init_futex_queues c core (ly_slots l) (ly_nslots l) (ly_handles l) M } }"

text \<open>One handle is bound; those that cannot read outside the slots return.\<close>

definition bound_as :: "('o \<Rightarrow> layout_handle) \<Rightarrow> (pyexc option \<times> 'o \<times> regions) io \<Rightarrow> (pyexc option outcome \<times> layout_handle \<times> regions) io" where
  "bound_as con m = do { (e, ob, H) \<leftarrow> m; ret (Returned e, con ob, H) }"

fun bind_handle ::
    "config \<Rightarrow> rings \<Rightarrow> posixipc_slot list \<Rightarrow> addr \<Rightarrow> layout_handle \<Rightarrow> regions \<Rightarrow>
     (pyexc option outcome \<times> layout_handle \<times> regions) io" where
  "bind_handle c M slots r (LArray a) H = do {
     (e, a, H) \<leftarrow> posixipc_mutexarray_bind a H r slots (ar_first_slot a) (ar_count a);
     ret (e, LArray a, H) }"
| "bind_handle c M slots r (LMutex m) H = bound_as LMutex (posixipc_mutex_bind m H r (slots ! unat (m_slot m)) (m_slot m) False)"
| "bind_handle c M slots r (LBytes b) H = bound_as LBytes (posixipc_bytes_bind b H r (slots ! unat (x_slot b)) (x_slot b))"
| "bind_handle c M slots r (LRWLock ob) H = bound_as LRWLock (posixipc_rwlock_bind ob H r (slots ! unat (x_slot ob)) (x_slot ob))"
| "bind_handle c M slots r (LCond ob) H = bound_as LCond (posixipc_cond_bind ob H r (slots ! unat (x_slot ob)) (x_slot ob))"
| "bind_handle c M slots r (LSem ob) H = bound_as LSem (posixipc_sem_bind ob H r (slots ! unat (x_slot ob)) (x_slot ob))"
| "bind_handle c M slots r (LBarrier ob) H = bound_as LBarrier (posixipc_barrier_bind c ob H r (slots ! unat (x_slot ob)) (x_slot ob))"
| "bind_handle c M slots r (LSpin ob) H = bound_as LSpin (posixipc_spin_bind c ob H r (slots ! unat (x_slot ob)) (x_slot ob))"
| "bind_handle c M slots r (LQueue q) H =
     bound_as LQueue (posixipc_queue_bind c q H r slots (qo_first_slot q) (M (qo_first_slot q + 4)))"
| "bind_handle c M slots r (LFutexQueue q) H =
     bound_as LFutexQueue (posixipc_futexq_bind c q H r slots (fo_first_slot q) (M (fo_first_slot q + 2)))"
| "bind_handle c M slots r LOther H = ret (Returned (Some TypeError), LOther, H)"

fun bind_handles ::
    "config \<Rightarrow> rings \<Rightarrow> posixipc_slot list \<Rightarrow> addr \<Rightarrow> (addr \<times> layout_handle) list \<Rightarrow> regions \<Rightarrow>
     (pyexc option outcome \<times> (addr \<times> layout_handle) list \<times> regions) io" where
  "bind_handles c M slots r [] H = ret (Returned None, [], H)"
| "bind_handles c M slots r ((p, h) # hs) H = do {
     (oc, h, H) \<leftarrow> bind_handle c M slots r h H;
     if oc \<noteq> Returned None then ret (oc, (p, h) # hs, H)
     else do {
       (oc, hs, H) \<leftarrow> bind_handles c M slots r hs H;
       ret (oc, (p, h) # hs, H) } }"

definition layout_bind_all ::
    "config \<Rightarrow> rings \<Rightarrow> PosixIPCLayoutObject \<Rightarrow> addr \<Rightarrow> regions \<Rightarrow> (pyexc option outcome \<times> PosixIPCLayoutObject \<times> regions) io" where
  "layout_bind_all c M l r H = do {
     _ \<leftarrow> posixipc_state_from_obj;
     (oc, hs, H) \<leftarrow> bind_handles c M (ly_slots l) r (ly_handles l) H;
     ret (oc, l\<lparr>ly_handles := hs\<rparr>, H) }"

definition parse_attach_timeout :: "(rat \<Rightarrow> rat) \<Rightarrow> pyobj option \<Rightarrow> posixipc_deadline option pyres outcome io" where
  "parse_attach_timeout fl tobj =
     (if tobj = Some Py_None then ret (Returned (Inr None))
      else do {
        t \<leftarrow> (case tobj of None \<Rightarrow> ret (Inr (Fin 5)) | Some ob \<Rightarrow> do {
               a \<leftarrow> call (Py (AsDouble ob));
               e \<leftarrow> call (Py Err_Occurred);
               ret (if a_ret e \<noteq> 0 then Inl Pending
                    else if a_dbl a = NaN \<or> dbl_neg (a_dbl a) then Inl ValueError else Inr (a_dbl a)) });
        case t of Inl e \<Rightarrow> ret (Returned (Inl e)) | Inr seconds \<Rightarrow> do {
          d \<leftarrow> posixipc_deadline_from_seconds fl CLOCK_MONOTONIC seconds (Some deadline0);
          case d of None \<Rightarrow> ret Undefined
          | Some (rc, dl) \<Rightarrow> ret (Returned (if rc \<noteq> 0 then Inl (OSError rc) else Inr dl)) } })"

definition fail_created_shm :: "posixipc_shm \<Rightarrow> string \<Rightarrow> unit io" where
  "fail_created_shm core name = do {
     _ \<leftarrow> posixipc_shm_mark_broken (Some core);
     _ \<leftarrow> posixipc_shm_close (Some core);
     _ \<leftarrow> posixipc_shm_unlink (Some name);
     ret () }"

fun handle_region_of :: "layout_handle \<Rightarrow> addr option" where
  "handle_region_of (LArray a) = ar_region a"
| "handle_region_of (LMutex m) = m_region m"
| "handle_region_of (LBytes b) = x_region b"
| "handle_region_of (LRWLock ob) = x_region ob"
| "handle_region_of (LCond ob) = x_region ob"
| "handle_region_of (LSem ob) = x_region ob"
| "handle_region_of (LBarrier ob) = x_region ob"
| "handle_region_of (LSpin ob) = x_region ob"
| "handle_region_of (LQueue q) = qo_region q"
| "handle_region_of (LFutexQueue q) = fo_region q"
| "handle_region_of LOther = None"

text \<open>The caller drops its reference to the segment object; handles that are bound to it keep it alive.\<close>

definition drop_region :: "(addr \<times> layout_handle) list \<Rightarrow> addr \<Rightarrow> regions \<Rightarrow> regions io" where
  "drop_region hs r H =
     (if Some r \<in> (handle_region_of \<circ> snd) ` set hs then ret H
      else do { ob \<leftarrow> shm_dealloc (H r); ret (H(r := ob)) })"

text \<open>
  From the object on: all handles are bound to the segment at \<open>r\<close>, the address of the new segment object, and the layout is sealed.
\<close>

definition bind_created ::
    "config \<Rightarrow> rings \<Rightarrow> PosixIPCLayoutObject \<Rightarrow> addr \<Rightarrow> regions \<Rightarrow> PosixIPCSharedMemoryObject \<Rightarrow>
     (addr pyres outcome \<times> PosixIPCLayoutObject \<times> regions) io" where
  "bind_created c M l r H ob = do {
     (oc, l, H) \<leftarrow> layout_bind_all c M l r (H(r := ob));
     case oc of
       Undefined \<Rightarrow> ret (Undefined, l, H)
     | Unfinished \<Rightarrow> ret (Unfinished, l, H)
     | Returned (Some e) \<Rightarrow> do {
         H \<leftarrow> drop_region (ly_handles l) r H;
         ret (Returned (Inl e), l, H) }
     | Returned None \<Rightarrow> ret (Returned (Inr r), l\<lparr>ly_sealed := True\<rparr>, H) }"

text \<open>The initialisation of a segment this process has created: the primitives, the rings, the publication.\<close>

definition init_created :: "config \<Rightarrow> PosixIPCLayoutObject \<Rightarrow> posixipc_shm \<Rightarrow> string \<Rightarrow> rings \<Rightarrow> (pyexc option \<times> rings) io" where
  "init_created c l core name M = do {
     e \<leftarrow> layout_init_primitives c l core;
     if e \<noteq> None then do { fail_created_shm core name; ret (e, M) }
     else do {
       (e, M) \<leftarrow> layout_init_queue_ctrls c l core M;
       if e \<noteq> None then do { fail_created_shm core name; ret (e, M) }
       else do {
         rc \<leftarrow> posixipc_shm_publish (Some core);
         if rc \<noteq> 0 then do { fail_created_shm core name; ret (Some (raise_err rc), M) }
         else ret (None, M) } } }"

definition layout_create ::
    "config \<Rightarrow> PosixIPCLayoutObject \<Rightarrow> string \<Rightarrow> addr \<Rightarrow> rings \<Rightarrow> regions \<Rightarrow>
     (addr pyres outcome \<times> PosixIPCLayoutObject \<times> rings \<times> regions) io" where
  "layout_create c l name r M H = do {
     st \<leftarrow> posixipc_state_from_obj;
     case st of Some e \<Rightarrow> ret (Returned (Inl e), l, M, H) | None \<Rightarrow> do {
     a \<leftarrow> call (Py (ParseTuple ''s:create''));
     if a_ret a = 0 then ret (Returned (Inl Pending), l, M, H) else do {
     (e, l) \<leftarrow> layout_sync c l;
     case e of Some x \<Rightarrow> ret (Returned (Inl x), l, M, H) | None \<Rightarrow>
     case layout_build_of c l of (rc, l, expect) \<Rightarrow>
     if rc \<noteq> 0 then ret (Returned (Inl (raise_err rc)), l, M, H) else do {
     (rc, core) \<leftarrow> allow_threads (posixipc_shm_create c (Some name) (Some expect) (Some reset_handle));
     if rc \<noteq> 0 then ret (Returned (Inl (raise_err rc)), l, M, H) else do {
     (e, M) \<leftarrow> init_created c l (the core) name M;
     case e of Some x \<Rightarrow> ret (Returned (Inl x), l, M, H) | None \<Rightarrow> do {
     ob \<leftarrow> posixipc_shmobj_from_core (the core) True;
     case ob of
       Inl x \<Rightarrow> do { _ \<leftarrow> posixipc_shm_unlink (Some name); ret (Returned (Inl x), l, M, H) }
     | Inr ob \<Rightarrow> do {
         (oc, l, H) \<leftarrow> bind_created c M l r H ob;
         ret (oc, l, M, H) } } } } } } }"

definition layout_attach ::
    "config \<Rightarrow> (rat \<Rightarrow> rat) \<Rightarrow> nat \<Rightarrow> PosixIPCLayoutObject \<Rightarrow> string \<Rightarrow> pyobj option \<Rightarrow> addr \<Rightarrow> rings \<Rightarrow> regions \<Rightarrow>
     (addr pyres outcome \<times> PosixIPCLayoutObject \<times> regions) io" where
  "layout_attach c fl fuel l name tobj r M H = do {
     st \<leftarrow> posixipc_state_from_obj;
     case st of Some e \<Rightarrow> ret (Returned (Inl e), l, H) | None \<Rightarrow> do {
     a \<leftarrow> call (Py (ParseTuple ''s|O:attach''));
     if a_ret a = 0 then ret (Returned (Inl Pending), l, H) else do {
     (e, l) \<leftarrow> layout_sync c l;
     case e of Some x \<Rightarrow> ret (Returned (Inl x), l, H) | None \<Rightarrow>
     case layout_build_of c l of (rc, l, expect) \<Rightarrow>
     if rc \<noteq> 0 then ret (Returned (Inl (raise_err rc)), l, H) else do {
     d \<leftarrow> parse_attach_timeout fl tobj;
     case d of Undefined \<Rightarrow> ret (Undefined, l, H) | Unfinished \<Rightarrow> ret (Unfinished, l, H) | Returned (Inl x) \<Rightarrow> ret (Returned (Inl x), l, H)
     | Returned (Inr dlp) \<Rightarrow> do {
       res \<leftarrow> allow_threads (posixipc_shm_attach c fuel (Some name) (Some expect) dlp (Some reset_handle));
       case res of None \<Rightarrow> ret (Unfinished, l, H) | Some (rc, core) \<Rightarrow>
         if rc \<noteq> 0 then ret (Returned (Inl (raise_err rc)), l, H) else do {
         ob \<leftarrow> posixipc_shmobj_from_core (the core) False;
         case ob of Inl x \<Rightarrow> ret (Returned (Inl x), l, H) | Inr ob \<Rightarrow> bind_created c M l r H ob } } } } } }"

definition layout_open_or_create ::
    "config \<Rightarrow> (rat \<Rightarrow> rat) \<Rightarrow> nat \<Rightarrow> PosixIPCLayoutObject \<Rightarrow> string \<Rightarrow> pyobj option \<Rightarrow> addr \<Rightarrow> rings \<Rightarrow> regions \<Rightarrow>
     (addr pyres outcome \<times> PosixIPCLayoutObject \<times> rings \<times> regions) io" where
  "layout_open_or_create c fl fuel l name tobj r M H = do {
     st \<leftarrow> posixipc_state_from_obj;
     case st of Some e \<Rightarrow> ret (Returned (Inl e), l, M, H) | None \<Rightarrow> do {
     a \<leftarrow> call (Py (ParseTuple ''s|O:open_or_create''));
     if a_ret a = 0 then ret (Returned (Inl Pending), l, M, H) else do {
     (e, l) \<leftarrow> layout_sync c l;
     case e of Some x \<Rightarrow> ret (Returned (Inl x), l, M, H) | None \<Rightarrow>
     case layout_build_of c l of (rc, l, expect) \<Rightarrow>
     if rc \<noteq> 0 then ret (Returned (Inl (raise_err rc)), l, M, H) else do {
     d \<leftarrow> parse_attach_timeout fl tobj;
     case d of Undefined \<Rightarrow> ret (Undefined, l, M, H) | Unfinished \<Rightarrow> ret (Unfinished, l, M, H)
     | Returned (Inl x) \<Rightarrow> ret (Returned (Inl x), l, M, H)
     | Returned (Inr dlp) \<Rightarrow> do {
       res \<leftarrow> allow_threads (posixipc_shm_open_or_create c fuel (Some name) (Some expect) dlp (Some reset_handle));
       case res of None \<Rightarrow> ret (Unfinished, l, M, H) | Some (rc, core) \<Rightarrow>
         if rc \<noteq> 0 then ret (Returned (Inl (raise_err rc)), l, M, H) else do {
         s \<leftarrow> call (Mem (Load_state (the (sh_hdr (the core)))));
         let created = (a_word s = STATE_INITIALIZING);
         (e, M) \<leftarrow> (if created then init_created c l (the core) name M else ret (None, M));
         case e of Some x \<Rightarrow> ret (Returned (Inl x), l, M, H) | None \<Rightarrow> do {
         ob \<leftarrow> posixipc_shmobj_from_core (the core) created;
         case ob of
           Inl x \<Rightarrow> do {
             _ \<leftarrow> (if created then posixipc_shm_unlink (Some name) else ret 0);
             ret (Returned (Inl x), l, M, H) }
         | Inr ob \<Rightarrow> do {
             (oc, l, H) \<leftarrow> bind_created c M l r H ob;
             ret (oc, l, M, H) } } } } } } } }"

section \<open>Attributes and the end of a layout\<close>

definition layout_get_digest :: "config \<Rightarrow> PosixIPCLayoutObject \<Rightarrow> (nat pyres \<times> PosixIPCLayoutObject) io" where
  "layout_get_digest c l = do {
     _ \<leftarrow> posixipc_state_from_obj;
     case layout_build_of c l of (rc, l, expect) \<Rightarrow>
       if rc \<noteq> 0 then ret (Inl (raise_err rc), l)
       else do { n \<leftarrow> long_from (unat (e_layout_digest expect)); ret (n, l) } }"

text \<open>The tuples of the list are given by the slots themselves.\<close>

fun slot_tuples :: "posixipc_slot list \<Rightarrow> posixipc_slot list pyres io" where
  "slot_tuples [] = ret (Inr [])"
| "slot_tuples (s # ss) = do {
     a \<leftarrow> call (Py (BuildValue ''(HHIII)''));
     if a_ret a < 0 then ret (Inl Pending)
     else do { r \<leftarrow> slot_tuples ss; ret (case r of Inl e \<Rightarrow> Inl e | Inr ts \<Rightarrow> Inr (s # ts)) } }"

definition layout_get_slots :: "config \<Rightarrow> PosixIPCLayoutObject \<Rightarrow> (posixipc_slot list pyres \<times> PosixIPCLayoutObject) io" where
  "layout_get_slots c l = do {
     _ \<leftarrow> posixipc_state_from_obj;
     (e, l) \<leftarrow> layout_sync c l;
     case e of Some x \<Rightarrow> ret (Inl x, l) | None \<Rightarrow> do {
       a \<leftarrow> call (Py (ListNew (unat (ly_nslots l))));
       if a_ret a < 0 then ret (Inl Pending, l)
       else do { r \<leftarrow> slot_tuples (take (unat (ly_nslots l)) (ly_slots l)); ret (r, l) } } }"

definition layout_clear :: "PosixIPCLayoutObject \<Rightarrow> PosixIPCLayoutObject" where
  "layout_clear l = l\<lparr>ly_handles := []\<rparr>"

text \<open>\<open>slots\<close> is the address of the array, if there is one. The handles live on in the hands of the program.\<close>

definition layout_dealloc :: "PosixIPCLayoutObject \<Rightarrow> addr option \<Rightarrow> PosixIPCLayoutObject io" where
  "layout_dealloc l slots = do {
     (case slots of None \<Rightarrow> ret () | Some p \<Rightarrow> call_ignore (Py (PyMem_Free p)));
     ret ((layout_clear l)\<lparr>ly_slots := []\<rparr>) }"

section \<open>Handles rebuilt from a pickle\<close>

text \<open>The steps the four functions share: five seconds to attach to the segment, whatever its layout.\<close>

definition attach_pickled :: "config \<Rightarrow> (rat \<Rightarrow> rat) \<Rightarrow> nat \<Rightarrow> string \<Rightarrow> posixipc_shm pyres outcome io" where
  "attach_pickled c fl fuel name = do {
     d \<leftarrow> posixipc_deadline_from_seconds fl CLOCK_MONOTONIC (Fin 5) (Some deadline0);
     case d of None \<Rightarrow> ret Undefined | Some (rc, dl) \<Rightarrow>
       if rc \<noteq> 0 then ret (Returned (Inl (raise_err rc)))
       else do {
         a \<leftarrow> allow_threads (posixipc_shm_attach c fuel (Some name) None dl (Some reset_handle));
         ret (case a of None \<Rightarrow> Unfinished
              | Some (rc, core) \<Rightarrow> Returned (if rc \<noteq> 0 then Inl (raise_err rc) else Inr (the core))) } }"

definition refuse_segment :: "posixipc_shm \<Rightarrow> regions \<Rightarrow> ('a pyres outcome \<times> regions) io" where
  "refuse_segment core H = do {
     _ \<leftarrow> posixipc_shm_close (Some core);
     ret (Returned (Inl LayoutMismatchError), H) }"

text \<open>
  The digest and the position are compared with the header; then the directory is looked at. It is read once here, where the code
  reads entries as it needs them.
\<close>

definition with_directory ::
    "posixipc_shm \<Rightarrow> u32 \<Rightarrow> (u32 \<Rightarrow> bool) \<Rightarrow> regions \<Rightarrow> (posixipc_slot list \<Rightarrow> ('a pyres outcome \<times> regions) io) \<Rightarrow>
     ('a pyres outcome \<times> regions) io" where
  "with_directory core digest fits H k =
     (case sh_hdr core of None \<Rightarrow> refuse_segment core H | Some p \<Rightarrow> do {
        h \<leftarrow> call (Mem (Load_header p));
        if h_layout_digest (a_hdr h) \<noteq> digest \<or> \<not> fits (ucast (h_slot_count (a_hdr h))) then refuse_segment core H
        else case posixipc_shm_directory (Some core) (a_hdr h) of None \<Rightarrow> refuse_segment core H | Some d \<Rightarrow> do {
          a \<leftarrow> call (Mem (Load_directory d (unat (h_slot_count (a_hdr h)))));
          k (a_dir a) } })"

text \<open>The kinds of consecutive entries, compared in order; \<^const>\<open>None\<close>: an entry behind the end of the directory is read.\<close>

fun kinds_at :: "posixipc_slot list \<Rightarrow> u32 \<Rightarrow> u32 list \<Rightarrow> bool option" where
  "kinds_at dir i [] = Some True"
| "kinds_at dir i (k # ks) =
     (if length dir \<le> unat i then None
      else if ucast (s_kind (dir ! unat i)) \<noteq> k then Some False
      else kinds_at dir (i + 1) ks)"

definition check_kinds ::
    "posixipc_shm \<Rightarrow> posixipc_slot list \<Rightarrow> u32 \<Rightarrow> u32 list \<Rightarrow> regions \<Rightarrow> ('a pyres outcome \<times> regions) io \<Rightarrow>
     ('a pyres outcome \<times> regions) io" where
  "check_kinds core dir i ks H k =
     (case kinds_at dir i ks of None \<Rightarrow> ret (Undefined, H) | Some False \<Rightarrow> refuse_segment core H | Some True \<Rightarrow> k)"

fun handle_dealloc :: "config \<Rightarrow> layout_handle \<Rightarrow> regions \<Rightarrow> regions io" where
  "handle_dealloc c (LArray a) H = do { (_, H) \<leftarrow> array_dealloc a H; ret H }"
| "handle_dealloc c (LMutex m) H = do { (_, H) \<leftarrow> mutex_dealloc m H; ret H }"
| "handle_dealloc c (LBytes b) H = ret (snd (bytes_dealloc b H))"
| "handle_dealloc c (LRWLock ob) H = do { (_, H) \<leftarrow> rwlock_dealloc ob H; ret H }"
| "handle_dealloc c (LCond ob) H = do { (_, H) \<leftarrow> cond_dealloc ob H; ret H }"
| "handle_dealloc c (LSem ob) H = do { (_, H) \<leftarrow> sem_dealloc ob H; ret H }"
| "handle_dealloc c (LBarrier ob) H = do { (_, H) \<leftarrow> bar_dealloc c ob H; ret H }"
| "handle_dealloc c (LSpin ob) H = do { (_, H) \<leftarrow> spin_dealloc c ob H; ret H }"
| "handle_dealloc c (LQueue q) H = ret (snd (queue_dealloc q H))"
| "handle_dealloc c (LFutexQueue q) H = ret (snd (fq_dealloc q H))"
| "handle_dealloc c LOther H = ret H"

text \<open>
  From the directory on: the segment object at \<open>r\<close>, the handle at \<open>p\<close>, the binding. The objects made are the result. A failure
  drops the handle, what it holds (\<open>held\<close>), and the segment object.
\<close>

definition drop_made :: "config \<Rightarrow> layout_handle list \<Rightarrow> addr \<Rightarrow> pyexc \<Rightarrow> regions \<Rightarrow> ((addr \<times> layout_handle) list pyres outcome \<times> regions) io" where
  "drop_made c hs r e H = do {
     H \<leftarrow> (case hs of [] \<Rightarrow> ret H | h # _ \<Rightarrow> handle_dealloc c h H);
     H \<leftarrow> (case hs of _ # h # _ \<Rightarrow> handle_dealloc c h H | _ \<Rightarrow> ret H);
     H \<leftarrow> drop_region [] r H;
     ret (Returned (Inl e), H) }"

definition attach_as ::
    "config \<Rightarrow> rings \<Rightarrow> posixipc_slot list \<Rightarrow> addr \<Rightarrow> addr \<Rightarrow> (addr \<times> layout_handle) list \<Rightarrow> layout_handle pyres io \<Rightarrow> regions \<Rightarrow>
     ((addr \<times> layout_handle) list pyres outcome \<times> regions) io" where
  "attach_as c M dir r p held new H = do {
     h \<leftarrow> new;
     case h of Inl e \<Rightarrow> drop_made c (map snd held) r e H | Inr h \<Rightarrow> do {
       (oc, h, H) \<leftarrow> bind_handle c M dir r h H;
       case oc of
         Undefined \<Rightarrow> ret (Undefined, H)
       | Unfinished \<Rightarrow> ret (Unfinished, H)
       | Returned (Some e) \<Rightarrow> drop_made c (h # map snd held) r e H
       | Returned None \<Rightarrow> ret (Returned (Inr ((p, h) # held)), H) } }"

text \<open>A condition needs its mutex, at the slot its flags name; the mutex gets a handle of its own at \<open>pm\<close>.\<close>

definition attach_cond ::
    "config \<Rightarrow> rings \<Rightarrow> posixipc_slot list \<Rightarrow> u32 \<Rightarrow> addr \<Rightarrow> addr \<Rightarrow> addr \<Rightarrow> addr \<Rightarrow> addr \<Rightarrow> regions \<Rightarrow>
     ((addr \<times> layout_handle) list pyres outcome \<times> regions) io" where
  "attach_cond c M dir slot r p storage pm mstorage H =
     (let s = dir ! unat slot; mutex_slot = drop_bit 16 (s_init_flags s) in
      if length dir \<le> unat mutex_slot \<or>
         s_kind (dir ! unat mutex_slot) \<noteq> KIND_MUTEX \<and> s_kind (dir ! unat mutex_slot) \<noteq> KIND_ROBUST_MUTEX
      then drop_made c [] r LayoutMismatchError H
      else let ms = dir ! unat mutex_slot in do {
        m \<leftarrow> made LMutex (posixipc_mutex_new_unbound c (s_kind ms) (s_init_flags ms) None mutex_slot mstorage);
        case m of Inl e \<Rightarrow> drop_made c [] r e H | Inr m \<Rightarrow> do {
          (oc, m, H) \<leftarrow> bind_handle c M dir r m H;
          case oc of
            Undefined \<Rightarrow> ret (Undefined, H)
          | Unfinished \<Rightarrow> ret (Unfinished, H)
          | Returned (Some e) \<Rightarrow> drop_made c [m] r e H
          | Returned None \<Rightarrow>
              attach_as c M dir r p [(pm, m)]
                (made LCond (posixipc_cond_new_unbound c (s_init_flags s) slot (Some pm) storage)) H } })"

text \<open>\<open>p\<close> and \<open>storage\<close> belong to the new handle, \<open>pm\<close> and \<open>mstorage\<close> to the mutex of a condition.\<close>

definition attach_kind ::
    "config \<Rightarrow> rings \<Rightarrow> posixipc_slot list \<Rightarrow> u32 \<Rightarrow> u32 \<Rightarrow> addr \<Rightarrow> addr \<Rightarrow> addr \<Rightarrow> addr \<Rightarrow> addr \<Rightarrow> regions \<Rightarrow>
     ((addr \<times> layout_handle) list pyres outcome \<times> regions) io" where
  "attach_kind c M dir slot kind r p storage pm mstorage H =
     (let s = dir ! unat slot; fl = s_init_flags s; aux = unat (drop_bit 16 (s_init_flags s)) in
      if kind = ucast KIND_MUTEX \<or> kind = ucast KIND_ROBUST_MUTEX
      then attach_as c M dir r p [] (made LMutex (posixipc_mutex_new_unbound c (ucast kind) fl None slot storage)) H
      else if kind = ucast KIND_BYTES then attach_as c M dir r p [] (made LBytes (posixipc_bytes_new_unbound c (s_size s) slot)) H
      else if kind = ucast KIND_RWLOCK then attach_as c M dir r p [] (made LRWLock (posixipc_rwlock_new_unbound c fl slot storage)) H
      else if kind = ucast KIND_COND then attach_cond c M dir slot r p storage pm mstorage H
      else if kind = ucast KIND_SEM then attach_as c M dir r p [] (made LSem (posixipc_sem_new_unbound c fl aux slot storage)) H
      else if kind = ucast KIND_BARRIER \<and> HAVE_PTHREAD_BARRIER_WAIT c
      then attach_as c M dir r p [] (made LBarrier (posixipc_barrier_new_unbound c fl aux slot storage)) H
      else if kind = ucast KIND_SPIN \<and> HAVE_PTHREAD_SPIN_TRYLOCK c
      then attach_as c M dir r p [] (made LSpin (posixipc_spin_new_unbound c fl slot storage)) H
      else drop_made c [] r TypeError H)"

text \<open>The object made for the segment; when that fails the segment has been closed.\<close>

definition with_region ::
    "posixipc_shm \<Rightarrow> addr \<Rightarrow> regions \<Rightarrow> (regions \<Rightarrow> ('a pyres outcome \<times> regions) io) \<Rightarrow> ('a pyres outcome \<times> regions) io" where
  "with_region core r H k = do {
     ob \<leftarrow> posixipc_shmobj_from_core core False;
     case ob of Inl e \<Rightarrow> ret (Returned (Inl e), H) | Inr ob \<Rightarrow> k (H(r := ob)) }"

definition with_pickled ::
    "config \<Rightarrow> (rat \<Rightarrow> rat) \<Rightarrow> nat \<Rightarrow> string \<Rightarrow> regions \<Rightarrow> (posixipc_shm \<Rightarrow> ('a pyres outcome \<times> regions) io) \<Rightarrow> ('a pyres outcome \<times> regions) io" where
  "with_pickled c fl fuel name H k = do {
     a \<leftarrow> attach_pickled c fl fuel name;
     case a of Undefined \<Rightarrow> ret (Undefined, H) | Unfinished \<Rightarrow> ret (Unfinished, H)
     | Returned (Inl e) \<Rightarrow> ret (Returned (Inl e), H)
     | Returned (Inr core) \<Rightarrow> k core }"

definition mod_attach_slot ::
    "config \<Rightarrow> (rat \<Rightarrow> rat) \<Rightarrow> nat \<Rightarrow> rings \<Rightarrow> string \<Rightarrow> u32 \<Rightarrow> u32 \<Rightarrow> u32 \<Rightarrow> addr \<Rightarrow> addr \<Rightarrow> addr \<Rightarrow> addr \<Rightarrow> addr \<Rightarrow> regions \<Rightarrow>
     ((addr \<times> layout_handle) list pyres outcome \<times> regions) io" where
  "mod_attach_slot c fl fuel M name slot kind digest r p storage pm mstorage H = do {
     a \<leftarrow> call (Py (ParseTuple ''sIII:_attach_slot''));
     if a_ret a = 0 then ret (Returned (Inl Pending), H)
     else with_pickled c fl fuel name H (\<lambda>core.
       with_directory core digest (\<lambda>n. slot < n) H (\<lambda>dir.
         check_kinds core dir slot [kind] H
           (with_region core r H (attach_kind c M dir slot kind r p storage pm mstorage)))) }"

definition mod_attach_array ::
    "config \<Rightarrow> (rat \<Rightarrow> rat) \<Rightarrow> nat \<Rightarrow> rings \<Rightarrow> string \<Rightarrow> u32 \<Rightarrow> u32 \<Rightarrow> u32 \<Rightarrow> u32 \<Rightarrow> addr \<Rightarrow> addr \<Rightarrow> regions \<Rightarrow>
     ((addr \<times> layout_handle) list pyres outcome \<times> regions) io" where
  "mod_attach_array c fl fuel M name slot count kind digest r p H = do {
     a \<leftarrow> call (Py (ParseTuple ''sIIII:_attach_array''));
     if a_ret a = 0 then ret (Returned (Inl Pending), H)
     else if count < 1 then ret (Returned (Inl ValueError), H)
     else with_pickled c fl fuel name H (\<lambda>core.
       with_directory core digest (\<lambda>n. slot < n \<and> slot + count \<le> n) H (\<lambda>dir.
         check_kinds core dir slot (replicate (unat count) kind) H
           (with_region core r H (attach_as c M dir r p []
              (made LArray (posixipc_mutexarray_new_unbound c (ucast kind) (s_init_flags (dir ! unat slot)) None slot count)))))) }"

text \<open>\<open>need\<close> is compared with the size of the byte slot, the last of the span.\<close>

definition attach_ring ::
    "config \<Rightarrow> (rat \<Rightarrow> rat) \<Rightarrow> nat \<Rightarrow> rings \<Rightarrow> string \<Rightarrow> u32 \<Rightarrow> u32 list \<Rightarrow> u32 \<Rightarrow> u32 \<Rightarrow> layout_handle pyres io \<Rightarrow> addr \<Rightarrow> addr \<Rightarrow> regions \<Rightarrow>
     ((addr \<times> layout_handle) list pyres outcome \<times> regions) io" where
  "attach_ring c fl fuel M name first kinds need digest new r p H =
     with_pickled c fl fuel name H (\<lambda>core.
       with_directory core digest (\<lambda>n. first + of_nat (length kinds) \<le> n) H (\<lambda>dir.
         check_kinds core dir first kinds H
           (if need = 0 \<or> s_size (dir ! unat (first + of_nat (length kinds - 1))) < need then refuse_segment core H
            else with_region core r H (attach_as c M dir r p [] new))))"

definition mod_attach_queue ::
    "config \<Rightarrow> (rat \<Rightarrow> rat) \<Rightarrow> nat \<Rightarrow> rings \<Rightarrow> bool \<Rightarrow> string \<Rightarrow> u32 \<Rightarrow> u32 \<Rightarrow> u32 \<Rightarrow> u32 \<Rightarrow> addr \<Rightarrow> addr \<Rightarrow> regions \<Rightarrow>
     ((addr \<times> layout_handle) list pyres outcome \<times> regions) io" where
  "mod_attach_queue c fl fuel M type_present name first depth item_size digest r p H =
     (if \<not> type_present then ret (Returned (Inl RuntimeError), H)
      else do {
        a \<leftarrow> call (Py (ParseTuple ''sIIII:_attach_queue''));
        if a_ret a = 0 then ret (Returned (Inl Pending), H)
        else if depth < 1 \<or> item_size < 1 then ret (Returned (Inl ValueError), H)
        else attach_ring c fl fuel M name first
          [ucast KIND_ROBUST_MUTEX, ucast KIND_ROBUST_MUTEX, ucast KIND_COND, ucast KIND_COND, ucast KIND_BYTES]
          (posixipc_queue_bytes_size c depth item_size) digest
          (made LQueue (posixipc_queue_new_unbound c type_present depth item_size first)) r p H })"

definition mod_attach_futex_queue ::
    "config \<Rightarrow> (rat \<Rightarrow> rat) \<Rightarrow> nat \<Rightarrow> rings \<Rightarrow> bool \<Rightarrow> string \<Rightarrow> u32 \<Rightarrow> u32 \<Rightarrow> u32 \<Rightarrow> u32 \<Rightarrow> addr \<Rightarrow> addr \<Rightarrow> regions \<Rightarrow>
     ((addr \<times> layout_handle) list pyres outcome \<times> regions) io" where
  "mod_attach_futex_queue c fl fuel M type_present name first depth item_size digest r p H =
     (if \<not> type_present then ret (Returned (Inl RuntimeError), H)
      else do {
        a \<leftarrow> call (Py (ParseTuple ''sIIII:_attach_futex_queue''));
        if a_ret a = 0 then ret (Returned (Inl Pending), H)
        else if depth < 1 \<or> item_size < 1 then ret (Returned (Inl ValueError), H)
        else attach_ring c fl fuel M name first [ucast KIND_ROBUST_MUTEX, ucast KIND_ROBUST_MUTEX, ucast KIND_BYTES]
          (posixipc_futexq_bytes_size c depth item_size) digest
          (made LFutexQueue (posixipc_futexq_new_unbound type_present depth item_size first)) r p H })"

section \<open>The digest function and the registration\<close>

text \<open>\<open>tuple\<close> gives the four numbers of an item that parses.\<close>

fun digest_slots :: "(pyobj \<Rightarrow> u32 \<times> u32 \<times> u32 \<times> u32) \<Rightarrow> pyobj \<Rightarrow> nat \<Rightarrow> nat \<Rightarrow> posixipc_slot list pyres io" where
  "digest_slots tuple seq i 0 = ret (Inr [])"
| "digest_slots tuple seq i (Suc n) = do {
     it \<leftarrow> call (Py (SequenceItem seq i));
     if a_ret it < 0 then ret (Inl Pending)
     else do {
       a \<leftarrow> call (Py (ParseTuple ''IIII''));
       if a_ret a = 0 then ret (Inl Pending)
       else case tuple (Obj (nat (a_ret it))) of (kind, al, sz, fl) \<Rightarrow> do {
         r \<leftarrow> digest_slots tuple seq (Suc i) n;
         ret (case r of Inl e \<Rightarrow> Inl e
              | Inr ss \<Rightarrow> Inr (\<lparr>s_kind = ucast kind, s_align = ucast al, s_offset = 0, s_size = sz, s_init_flags = fl\<rparr> # ss)) } } }"

definition mod_layout_digest :: "config \<Rightarrow> (pyobj \<Rightarrow> u32 \<times> u32 \<times> u32 \<times> u32) \<Rightarrow> u32 \<Rightarrow> u32 \<Rightarrow> pyobj \<Rightarrow> nat pyres io" where
  "mod_layout_digest c tuple version tag seq = do {
     a \<leftarrow> call (Py (ParseTuple ''IIO:_layout_digest''));
     if a_ret a = 0 then ret (Inl Pending)
     else do {
       n \<leftarrow> call (Py (SequenceSize seq));
       if a_ret n < 0 then ret (Inl Pending)
       else if a_ret n > 0xffff then ret (Inl OverflowError)
       else do {
         b \<leftarrow> call (Py (PyMem_Calloc (nat (a_ret n)) 16));
         if a_ret b < 0 \<and> a_ret n \<noteq> 0 then ret (Inl MemoryError)
         else do {
           ss \<leftarrow> digest_slots tuple seq 0 (nat (a_ret n));
           call_ignore (Py (PyMem_Free (nat (a_ret b))));
           case ss of Inl e \<Rightarrow> ret (Inl e)
           | Inr slots \<Rightarrow> long_from (unat (posixipc_layout_digest c (ucast version) tag slots (word_of_int (a_ret n)))) } } } }"

definition posixipc_bytes_register :: "(pyexc option \<times> string list) io" where
  "posixipc_bytes_register = register_type True ''SharedBytes'' []"

fun add_constants :: "(string \<times> int) list \<Rightarrow> pyexc option io" where
  "add_constants [] = ret None"
| "add_constants ((name, v) # vs) = do {
     a \<leftarrow> call (Py (AddIntConstant name v));
     if a_ret a < 0 then ret (Some Pending) else add_constants vs }"

fun add_functions :: "string list \<Rightarrow> pyexc option io" where
  "add_functions [] = ret None"
| "add_functions (f # fs) = do { e \<leftarrow> add_function f; if e \<noteq> None then ret e else add_functions fs }"

definition layout_constants :: "config \<Rightarrow> (string \<times> int) list" where
  "layout_constants c =
     [(''LAYOUT_VERSION'', uint LAYOUT_VERSION), (''CACHELINE_BYTES'', uint (CACHELINE_BYTES c)), (''KIND_BYTES'', uint KIND_BYTES),
      (''KIND_MUTEX'', uint KIND_MUTEX), (''KIND_ROBUST_MUTEX'', uint KIND_ROBUST_MUTEX), (''KIND_RWLOCK'', uint KIND_RWLOCK),
      (''KIND_COND'', uint KIND_COND), (''KIND_SEM'', uint KIND_SEM), (''KIND_BARRIER'', uint KIND_BARRIER),
      (''KIND_SPIN'', uint KIND_SPIN), (''abi_tag'', uint (posixipc_abi_tag c))]"

definition posixipc_layout_register :: "config \<Rightarrow> (pyexc option \<times> string list) io" where
  "posixipc_layout_register c = do {
     (e, ts) \<leftarrow> posixipc_bytes_register;
     if e \<noteq> None then ret (e, ts) else do {
     (e, ts) \<leftarrow> register_type True ''Layout'' ts;
     if e \<noteq> None then ret (e, ts) else do {
     e \<leftarrow> add_constants (layout_constants c);
     if e \<noteq> None then ret (e, ts) else do {
     e \<leftarrow> add_functions [''_attach_slot'', ''_attach_array'', ''_attach_queue'', ''_attach_futex_queue'', ''_layout_digest''];
     ret (e, ts) } } } }"

end
