(* ===== verification/GilOps.thy ===== *)
theory GilOps
  imports LayoutObj
begin

text \<open>
  The interpreter lock in the operations of the remaining types (mutex arrays, message queues, futexes,
  event descriptors, layouts), and the theorem about all operations that may block.
\<close>

section \<open>Native code\<close>

lemma native_array: "only native (array_lock_until_cb lo g d)"
  using native_callbacks(1) [of lo g d] by (simp add: array_lock_until_cb_def mutex_lock_until_cb_def)

lemma native_mq:
  "only native (posixipc_mq_send c q bs n)" "only native (posixipc_mq_send_until c q bs n d)"
  "only native (posixipc_mq_receive c q len pr gn)" "only native (posixipc_mq_receive_until c q len pr gn d)"
  unfolding posixipc_mq_send_def posixipc_mq_send_until_def posixipc_mq_receive_def posixipc_mq_receive_until_def
  by (intro native_rules; simp)+

lemma native_mq_callbacks: "only native (nmq_send_cb c q bs prio u d)" "only native (nmq_recv_cb c q len s d)"
  by (simp only: nmq_send_cb_def, intro native_rules native_mq)
    (cases s, simp only: nmq_recv_cb_def prod.case, intro native_rules native_mq)

lemma native_eventfd: "only native (posixipc_eventfd_write f k)" "only native (posixipc_eventfd_read f out)"
  unfolding posixipc_eventfd_write_def posixipc_eventfd_read_def by (intro native_rules; simp)+

lemma native_fq_lock: "only native (fq_lock c others q lo m)"
proof -
  have "only native (meanwhile others m)" for m by (simp add: only_def meanwhile_def run_def)
  then show ?thesis unfolding fq_lock_def posixipc_futex_add_def posixipc_futex_wake_def by (intro native_rules native_locks; simp)
qed

section \<open>Array items, message queues, futexes, event descriptors\<close>

lemma polite_long: "polite (long_from n)"
  unfolding long_from_def by (intro polite_rules; simp)

lemma polite_array_after: "polite (array_after_lock self a index rc item)"
  unfolding array_after_lock_def array_item_new_def by (intro polite_rules polite_prims polite_state; simp)

lemma polite_array: "polite (array_lock_index fl fuel g self a index opts item)"
  unfolding array_lock_index_def array_block_def
  by (intro polite_rules polite_prims polite_state polite_array_after polite_time polite_clocks
      polite_allow_threads polite_blocking_wait native_locks native_array)

lemma polite_array_acquire: "polite (array_acquire fl fuel g self a args kws)"
  unfolding array_acquire_def array_parse_index_def by (intro polite_rules polite_array polite_parse; simp)

lemma polite_item_acquire: "polite (item_acquire fl fuel g a it args kws)"
  unfolding item_acquire_def by (intro polite_rules polite_array polite_parse polite_state; simp)

lemma polite_nmq_keywords: "polite (nmq_keywords n kws tobj bl it prio)"
proof (induction kws arbitrary: tobj bl it prio)
  case (Cons kw kws)
  obtain key val where "kw = (key, val)" by fastforce
  then show ?case by (simp only: nmq_keywords.simps) (intro polite_rules Cons.IH; simp)
qed (simp add: polite_ret)

lemma polite_nmq: "polite (nmq_put c fl fuel nq args kws)" "polite (nmq_get c fl fuel nq args kws)"
  unfolding nmq_put_def nmq_get_def parse_nmq_put_def parse_timeout_def nmq_put_bytes_def nmq_get_buf_def nmq_deliver_def Let_def
  by (intro polite_rules polite_state polite_parse polite_nmq_keywords polite_time polite_allow_threads polite_blocking_wait
      native_mq native_mq_callbacks; simp)+

lemma polite_futex: "polite (futex_wait c fl fuel fx args kws)"
  unfolding futex_wait_def u32_arg_def posixipc_futex_load_def
  by (intro polite_rules polite_state polite_parse polite_time polite_blocking_wait only_native_futex; simp)

lemma polite_eventfd: "polite (efd_write ef args)" "polite (efd_read ef)"
  unfolding efd_write_def efd_read_def by (intro polite_rules polite_state polite_long polite_allow_threads native_eventfd; simp)+

lemma polite_qsize: "polite (queue_qsize others q m)" "polite (fq_qsize c others fq m)"
  unfolding queue_qsize_def fq_qsize_def Let_def
  by (intro polite_rules polite_state polite_prims polite_long polite_allow_threads native_queue_lock native_fq_lock)+

section \<open>Layouts\<close>

lemma polite_region_ptr: "polite (region_ptr ob off sz al)"
  unfolding region_ptr_def by (intro polite_rules; simp)

lemma polite_pin: "polite (pin_region H r)"
  unfolding pin_region_def posixipc_shmobj_pin_def by (intro polite_rules polite_state)

lemma polite_step_if: "plain c \<Longrightarrow> polite (step_if b c rc)"
  unfolding step_if_def by (intro polite_rules)

lemma polite_inits:
  "polite (posixipc_mutex_init p fl)" "polite (posixipc_rwlock_init p fl)" "polite (posixipc_cond_init c p fl)"
  "polite (posixipc_sem_init p v)" "polite (posixipc_barrier_init c p v)" "polite (posixipc_spin_init c p fl)"
  unfolding posixipc_mutex_init_def posixipc_rwlock_init_def posixipc_cond_init_def posixipc_sem_init_def posixipc_barrier_init_def
    posixipc_spin_init_def
  by (intro polite_rules polite_step_if; simp add: plain_def)+

lemma polite_init_slots: "polite (init_slots c core ss)"
proof (induction ss)
  case (Cons s ss)
  show ?case unfolding init_slots.simps core_ptr_def init_slot_def Let_def by (intro polite_rules polite_region_ptr polite_inits Cons.IH)
qed (simp add: polite_ret)

lemma polite_init_on_shm: "polite (posixipc_queue_init_on_shm c core s d n m)" "polite (posixipc_futexq_init_on_shm c core s d n m)"
  unfolding posixipc_queue_init_on_shm_def posixipc_futexq_init_on_shm_def posixipc_futexq_init_def posixipc_futex_store_def
  by (intro polite_rules polite_region_ptr; simp)+

lemma polite_init_queues: "polite (init_queues c core slots n hs M)"
proof (induction hs arbitrary: M)
  case (Cons ph hs)
  obtain p h where ph: "ph = (p, h)" by fastforce
  show ?case unfolding ph by (cases h; simp only: init_queues.simps Let_def; intro polite_rules polite_init_on_shm Cons.IH)
qed (simp add: polite_ret)

lemma polite_init_futex_queues: "polite (init_futex_queues c core slots n hs M)"
proof (induction hs arbitrary: M)
  case (Cons ph hs)
  obtain p h where ph: "ph = (p, h)" by fastforce
  show ?case unfolding ph by (cases h; simp only: init_futex_queues.simps Let_def; intro polite_rules polite_init_on_shm Cons.IH)
qed (simp add: polite_ret)

lemma polite_fail_created: "polite (fail_created_shm core name)"
  unfolding fail_created_shm_def posixipc_shm_mark_broken_def posixipc_shm_close_def posixipc_shm_unlink_def by (intro polite_rules; simp)

lemma polite_init_created: "polite (init_created c l core name M)"
  unfolding init_created_def layout_init_primitives_def layout_init_queue_ctrls_def posixipc_shm_publish_def
  by (intro polite_rules polite_state polite_init_slots polite_init_queues polite_init_futex_queues polite_fail_created; simp)

lemma polite_bind_slot: "polite (bind_slot H r slot)"
  unfolding bind_slot_def by (intro polite_rules polite_state polite_region_ptr polite_pin)

lemma polite_array_ptrs: "polite (array_ptrs ob k slots first i n)"
  by (induction n arbitrary: i) (simp_all only: array_ptrs.simps, (intro polite_rules polite_region_ptr)+)

lemma polite_bind_handle: "polite (bind_handle c M slots r h H)"
  by (cases h; simp only: bind_handle.simps bound_as_def posixipc_mutexarray_bind_def posixipc_mutex_bind_def posixipc_bytes_bind_def
      posixipc_rwlock_bind_def posixipc_cond_bind_def posixipc_sem_bind_def posixipc_barrier_bind_def posixipc_spin_bind_def
      posixipc_queue_bind_def posixipc_futexq_bind_def queue_pointers_def fq_pointers_def bind_ptr_def free_locks_def;
      intro polite_rules polite_state polite_region_ptr polite_pin polite_bind_slot polite_array_ptrs polite_inits; simp)

lemma polite_bind_handles: "polite (bind_handles c M slots r hs H)"
proof (induction hs arbitrary: H)
  case (Cons ph hs)
  obtain p h where "ph = (p, h)" by fastforce
  then show ?case by (simp only: bind_handles.simps) (intro polite_rules polite_bind_handle Cons.IH)
qed (simp add: polite_ret)

lemma polite_drop_region: "polite (drop_region hs r H)"
  unfolding drop_region_def shm_dealloc_def shm_finalize_def posixipc_shmobj_close_def posixipc_shm_close_def
  by (intro polite_rules polite_state; simp)

lemma polite_bind_created: "polite (bind_created c M l r H ob)"
  unfolding bind_created_def layout_bind_all_def by (intro polite_rules polite_state polite_bind_handles polite_drop_region)

lemma polite_layout:
  "polite (layout_create c l name r M H)" "polite (layout_attach c fl fuel l name tobj r M H)"
  "polite (layout_open_or_create c fl fuel l name tobj r M H)" "polite (attach_pickled c fl fuel name)"
  unfolding layout_create_def layout_attach_def layout_open_or_create_def attach_pickled_def layout_sync_def parse_attach_timeout_def
    posixipc_shm_unlink_def Let_def
  by (intro polite_rules polite_state polite_time polite_allow_threads native_create native_attach native_open_or_create
      polite_made polite_init_created polite_bind_created; simp)+

section \<open>All operations that may block\<close>

text \<open>
  C10. These operations wait without blocking the interpreter (\<^verbatim>\<open>FutexQueue.put\<close> and \<^verbatim>\<open>FutexQueue.get\<close> are not among them, they do block it): acquiring a mutex, an item of a mutex
  array, a read-write lock, a semaphore, a named semaphore or a spin lock, waiting on a condition, at a barrier or on a futex, putting
  to and getting from a queue or a named message queue, the length of both kinds of queue, writing and reading an event descriptor, and creating,
  attaching or opening a segment, also by a layout or for an unpickled handle, make every call that may block (a lock, a wait, a sleep, a
  yield) with the interpreter lock released, make no call of the Python API without it, and return with it held, whatever the
  environment answers and also when they raise.
\<close>

theorem blocking_releases_gil:
  "gil_kept (mutex_acquire fl fuel g m args kws) w \<and>
   gil_kept (array_acquire fl fuel g self a args kws) w \<and>
   gil_kept (item_acquire fl fuel g A it args kws) w \<and>
   gil_kept (rwlock_acquire_read fl fuel g rw args kws) w \<and>
   gil_kept (rwlock_acquire_write fl fuel g rw args kws) w \<and>
   gil_kept (cond_wait fl fuel cv M args kws) w \<and>
   gil_kept (sem_acquire fl fuel g se args kws) w \<and>
   gil_kept (nsem_acquire fl fuel g ns args kws) w \<and>
   gil_kept (spin_acquire fuel c sp args kws) w \<and>
   gil_kept (bar_wait c ba) w \<and>
   gil_kept (futex_wait c fl fuel fx args kws) w \<and>
   gil_kept (queue_put others fl fuel q args kws r) w \<and>
   gil_kept (queue_get others fl fuel q args kws r) w \<and>
   gil_kept (queue_qsize others q r) w \<and>
   gil_kept (fq_qsize c others fq r) w \<and>
   gil_kept (nmq_put c fl fuel nq args kws) w \<and>
   gil_kept (nmq_get c fl fuel nq args kws) w \<and>
   gil_kept (efd_write ef args) w \<and>
   gil_kept (efd_read ef) w \<and>
   gil_kept (shm_create c name sz) w \<and>
   gil_kept (shm_attach_unchecked c fl fuel name tobj) w \<and>
   gil_kept (shm_open_or_create c fl fuel name sz tobj) w \<and>
   gil_kept (layout_create c l name seg R H) w \<and>
   gil_kept (layout_attach c fl fuel l name tobj seg R H) w \<and>
   gil_kept (layout_open_or_create c fl fuel l name tobj seg R H) w \<and>
   gil_kept (attach_pickled c fl fuel name) w"
  by (intro conjI polite_kept polite_mutex polite_array_acquire polite_item_acquire polite_rwlock polite_cond polite_sem polite_nsem
      polite_spin polite_barrier polite_futex polite_queue polite_qsize polite_nmq polite_eventfd polite_segments polite_layout)

end
