(* ===== verification/LayoutInv.thy ===== *)
theory LayoutInv
  imports LayoutObj
begin

text \<open>
  Properties of layouts: whatever a program does with a layout, its handles tile the slots in order and the slots have the
  kinds of the handles; a failing add leaves no trace; synchronising never meets an invalid slot and binding never reads outside the slots;
  binding counts the pins of the segment exactly, and binding a second time leaves the first segment pinned.
\<close>

section \<open>Handles and the slots behind them\<close>

text \<open>The kinds of the slots of a handle, in order.\<close>

fun handle_kinds :: "layout_handle \<Rightarrow> u16 list" where
  "handle_kinds (LArray a) = replicate (unat (ar_count a)) (ar_kind a)"
| "handle_kinds (LMutex m) = [m_kind m]"
| "handle_kinds (LBytes b) = [KIND_BYTES]"
| "handle_kinds (LRWLock ob) = [KIND_RWLOCK]"
| "handle_kinds (LCond ob) = [KIND_COND]"
| "handle_kinds (LSem ob) = [KIND_SEM]"
| "handle_kinds (LBarrier ob) = [KIND_BARRIER]"
| "handle_kinds (LSpin ob) = [KIND_SPIN]"
| "handle_kinds (LQueue q) = [KIND_ROBUST_MUTEX, KIND_ROBUST_MUTEX, KIND_COND, KIND_COND, KIND_BYTES]"
| "handle_kinds (LFutexQueue q) = [KIND_ROBUST_MUTEX, KIND_ROBUST_MUTEX, KIND_BYTES]"
| "handle_kinds LOther = []"

text \<open>The handle covers \<open>n\<close> slots from \<open>i\<close> on.\<close>

definition covers :: "layout_handle \<Rightarrow> nat \<Rightarrow> nat \<Rightarrow> bool" where
  "covers h i n \<longleftrightarrow> layout_handle_span h = Inr (word_of_nat i, word_of_nat n) \<and> length (handle_kinds h) = n \<and> 0 < n"

text \<open>The handles follow each other without gaps, from slot \<open>i\<close> to slot \<open>n\<close>.\<close>

fun tiles :: "nat \<Rightarrow> (addr \<times> layout_handle) list \<Rightarrow> nat \<Rightarrow> bool" where
  "tiles i [] n \<longleftrightarrow> i = n"
| "tiles i ((p, h) # hs) n \<longleftrightarrow> covers h i (length (handle_kinds h)) \<and> tiles (i + length (handle_kinds h)) hs n"

definition slot_kinds :: "(addr \<times> layout_handle) list \<Rightarrow> u16 list" where
  "slot_kinds hs = concat (map (handle_kinds \<circ> snd) hs)"

definition layout_wf :: "PosixIPCLayoutObject \<Rightarrow> bool" where
  "layout_wf l \<longleftrightarrow>
     length (ly_slots l) = unat (ly_cap l) \<and> ly_nslots l \<le> ly_cap l \<and> tiles 0 (ly_handles l) (unat (ly_nslots l)) \<and>
     take (unat (ly_nslots l)) (map s_kind (ly_slots l)) = slot_kinds (ly_handles l)"

lemma slot_kinds_simps [simp]:
  "slot_kinds [] = []"
  "slot_kinds (x # hs) = handle_kinds (snd x) @ slot_kinds hs"
  "slot_kinds (hs @ ys) = slot_kinds hs @ slot_kinds ys"
  by (simp_all add: slot_kinds_def)

lemma tiles_length: "tiles i hs n \<Longrightarrow> n = i + length (slot_kinds hs)"
  by (induction i hs n rule: tiles.induct) auto

lemma tiles_length_le: "tiles i hs n \<Longrightarrow> length hs \<le> length (slot_kinds hs)"
  by (induction i hs n rule: tiles.induct) (auto simp: covers_def Suc_le_eq add_strict_increasing)

lemma tiles_snoc: "tiles i hs m \<Longrightarrow> covers h m k \<Longrightarrow> tiles i (hs @ [(p, h)]) (m + k)"
  by (induction i hs m rule: tiles.induct) (auto simp: covers_def)

lemma covers_meta [simp]: "covers (layout_apply_slot_meta h s) i n = covers h i n"
  by (cases h) (simp_all add: covers_def slot_meta_def)

lemma kinds_meta [simp]: "handle_kinds (layout_apply_slot_meta h s) = handle_kinds h"
  by (cases h) (simp_all add: slot_meta_def)

text \<open>Synchronising handles that tile the slots meets no invalid slot, and keeps the tiling.\<close>

lemma sync_tiles:
  assumes "tiles i hs n" and "n \<le> unat nn"
  shows "\<exists>hs'. sync_handles slots nn hs = (None, hs') \<and> tiles i hs' n \<and> map fst hs' = map fst hs \<and>
           map (handle_kinds \<circ> snd) hs' = map (handle_kinds \<circ> snd) hs"
  using assms
proof (induction i hs n rule: tiles.induct)
  case (2 i p h hs n)
  let ?k = "length (handle_kinds h)"
  from 2 have c: "covers h i ?k" and t: "tiles (i + ?k) hs n" by simp_all
  from 2 t have "\<exists>hs'. sync_handles slots nn hs = (None, hs') \<and> tiles (i + ?k) hs' n \<and> map fst hs' = map fst hs \<and>
      map (handle_kinds \<circ> snd) hs' = map (handle_kinds \<circ> snd) hs" by blast
  then obtain hs' where hs': "sync_handles slots nn hs = (None, hs')" "tiles (i + ?k) hs' n" "map fst hs' = map fst hs"
      "map (handle_kinds \<circ> snd) hs' = map (handle_kinds \<circ> snd) hs" by blast
  have le: "i + ?k \<le> unat nn" "unat nn < 65536" using tiles_length [OF t] 2 unat_u16_less [of nn] by simp_all
  moreover have "unat (word_of_nat i + word_of_nat ?k :: u32) = i + ?k"
    using le by (simp add: unat_add_no_wrap)
  moreover have "i < unat nn" using c le(1) by (cases "handle_kinds h") (auto simp: covers_def)
  moreover have "layout_handle_span h = Inr (word_of_nat i, word_of_nat ?k)" using c by (simp add: covers_def)
  moreover have "covers (layout_apply_slot_meta h (slots ! i)) i ?k" using c by simp
  ultimately show ?case
    using hs' c by (auto simp: covers_def [where n = 0] word_less_nat_alt word_le_nat_alt word_unat_eq_iff comp_def not_le)
qed simp

section \<open>Building keeps the kinds\<close>

lemma layout_step_kind: "layout_step c cur s = (rc, s', cur') \<Longrightarrow> s_kind s' = s_kind s"
  by (auto simp: layout_step_def Let_def split: if_splits)

lemma layout_loop_kinds: "layout_loop c cur ss = (rc, ss', cur') \<Longrightarrow> map s_kind ss' = map s_kind ss"
  by (induction c cur ss arbitrary: rc ss' cur' rule: layout_loop.induct)
    (auto dest: layout_step_kind split: prod.splits if_splits)

lemma layout_build_kinds:
  assumes "posixipc_layout_build c (Some arr) n (Some e0) = (rc, slots, e)"
  shows "\<exists>arr'. slots = Some arr' \<and> map s_kind arr' = map s_kind arr"
proof -
  obtain rc1 front cur where l: "layout_loop c (HEADER_BYTES + ucast n * 16) (take (unat n) arr) = (rc1, front, cur)"
    by (metis prod_cases3)
  have "map s_kind (front @ drop (unat n) arr) = map s_kind arr"
    by (metis append_take_drop_id layout_loop_kinds [OF l] map_append)
  with assms l show ?thesis by (auto simp: posixipc_layout_build_def Let_def split: if_splits)
qed

lemma layout_build_of_wf:
  assumes "layout_wf l" and "layout_build_of c l = (rc, l', e)"
  shows "layout_wf l'" and "ly_handles l' = ly_handles l" and "ly_nslots l' = ly_nslots l" and "ly_cap l' = ly_cap l"
    and "ly_sealed l' = ly_sealed l"
proof -
  show f: "ly_handles l' = ly_handles l" "ly_nslots l' = ly_nslots l" "ly_cap l' = ly_cap l" "ly_sealed l' = ly_sealed l"
    using assms(2) by (auto simp: layout_build_of_def split: prod.splits)
  have "map s_kind (ly_slots l') = map s_kind (ly_slots l)"
  proof (cases "ly_cap l = 0")
    case True
    then show ?thesis using assms
      by (auto simp: layout_build_of_def layout_wf_def posixipc_layout_build_def Let_def split: prod.splits if_splits option.splits)
  next
    case False
    then show ?thesis using assms(2) by (auto simp: layout_build_of_def split: prod.splits dest!: layout_build_kinds)
  qed
  then show "layout_wf l'" using assms(1) f map_eq_imp_length_eq [of s_kind "ly_slots l'" s_kind "ly_slots l"]
    by (simp add: layout_wf_def)
qed


section \<open>Operations that keep the handles in place\<close>

text \<open>Every result of an operation, whatever the environment answers.\<close>

definition results :: "('a \<Rightarrow> bool) \<Rightarrow> 'a io \<Rightarrow> bool" where
  "results P m \<longleftrightarrow> (\<forall>w. P (fst (run m w)))"

lemma results_ret [simp]: "results P (ret x) = P x"
  by (simp add: results_def run_ret)

lemma results_any [simp]: "results (\<lambda>_. True) m"
  by (simp add: results_def)

lemma results_bind: "results Q m \<Longrightarrow> (\<And>x. Q x \<Longrightarrow> results P (f x)) \<Longrightarrow> results P (m \<bind> f)"
  unfolding results_def run_bind by (metis (no_types, lifting) case_prod_beta)

lemma results_bind2:
  "results (\<lambda>(a, b). Q a b) m \<Longrightarrow> (\<And>a b. Q a b \<Longrightarrow> results P (f a b)) \<Longrightarrow> results P (m \<bind> (\<lambda>(a, b). f a b))"
  by (erule results_bind) (auto split: prod.splits)

lemma results_skip: "(\<And>x. results P (f x)) \<Longrightarrow> results P (m \<bind> f)"
  by (rule results_bind [OF results_any])

lemma results_skip2: "(\<And>a b. results P (f a b)) \<Longrightarrow> results P (m \<bind> (\<lambda>(a, b). f a b))"
  by (rule results_skip) (simp add: split_beta)

lemma results_call: "(\<And>a. results P (f a)) \<Longrightarrow> results P (call s \<bind> f)"
  by (rule results_skip)

lemma results_if: "(b \<Longrightarrow> results P m) \<Longrightarrow> (\<not> b \<Longrightarrow> results P m') \<Longrightarrow> results P (if b then m else m')"
  by simp

lemma results_mono: "results Q m \<Longrightarrow> (\<And>x. Q x \<Longrightarrow> P x) \<Longrightarrow> results P m"
  by (simp add: results_def)

lemma results_run: "results P m \<Longrightarrow> run m w = (x, w') \<Longrightarrow> P x"
  by (metis fst_conv results_def)

text \<open>The handles of \<open>l'\<close> are those of \<open>l\<close>, with the same slots and kinds.\<close>

definition same_handles :: "PosixIPCLayoutObject \<Rightarrow> PosixIPCLayoutObject \<Rightarrow> bool" where
  "same_handles l l' \<longleftrightarrow> ly_nslots l' = ly_nslots l \<and> map fst (ly_handles l') = map fst (ly_handles l) \<and>
     map (handle_kinds \<circ> snd) (ly_handles l') = map (handle_kinds \<circ> snd) (ly_handles l)"

lemma layout_sync_results:
  assumes "layout_wf l"
  shows "results (\<lambda>(e, l'). layout_wf l' \<and> same_handles l l' \<and> ly_sealed l' = ly_sealed l \<and> ly_cap l' = ly_cap l \<and>
           (e = None \<or> ly_handles l' = ly_handles l \<and> (\<exists>rc. rc \<noteq> 0 \<and> e = Some (raise_err rc)))) (layout_sync c l)"
  unfolding layout_sync_def
proof (rule results_skip)
  fix x :: "pyexc option"
  obtain rc l1 e where b: "layout_build_of c l = (rc, l1, e)" by (metis prod_cases3)
  note k = layout_build_of_wf [OF assms b]
  from k(1) have t: "tiles 0 (ly_handles l1) (unat (ly_nslots l1))" by (simp add: layout_wf_def)
  obtain hs where h: "sync_handles (ly_slots l1) (ly_nslots l1) (ly_handles l1) = (None, hs)"
      "tiles 0 hs (unat (ly_nslots l1))" "map fst hs = map fst (ly_handles l1)"
      "map (handle_kinds \<circ> snd) hs = map (handle_kinds \<circ> snd) (ly_handles l1)"
    using sync_tiles [OF t order_refl] by blast
  have "layout_wf (l1\<lparr>ly_handles := hs\<rparr>)" using k(1) h(2,4) by (simp add: layout_wf_def slot_kinds_def)
  then show "results (\<lambda>(e, l'). layout_wf l' \<and> same_handles l l' \<and> ly_sealed l' = ly_sealed l \<and> ly_cap l' = ly_cap l \<and>
      (e = None \<or> ly_handles l' = ly_handles l \<and> (\<exists>rc. rc \<noteq> 0 \<and> e = Some (raise_err rc))))
    (ret (case layout_build_of c l of (rc, l, _) \<Rightarrow>
        if rc \<noteq> 0 then (Some (raise_err rc), l)
        else case sync_handles (ly_slots l) (ly_nslots l) (ly_handles l) of (e, hs) \<Rightarrow> (e, l\<lparr>ly_handles := hs\<rparr>)))"
    using b h k by (auto simp: same_handles_def)
qed

declare grow_cap.simps [simp del]

lemma grow_cap_enough: "need \<le> 0xffff \<Longrightarrow> need \<le> ucast (grow_cap ncap need)"
proof (induction ncap need rule: grow_cap.induct)
  case (1 ncap need)
  show ?case
  proof (cases "ucast ncap < need \<and> ucast ((ucast ncap :: u32) * 2) > ncap")
    case True
    then have "grow_cap ncap need = grow_cap (ucast ((ucast ncap :: u32) * 2)) need" by (subst grow_cap.simps) (simp add: Let_def not_le [symmetric])
    then show ?thesis using 1 True by (auto simp: not_le)
  next
    case False
    then show ?thesis using 1(2) by (subst grow_cap.simps) (auto simp: Let_def not_less)
  qed
qed

lemma layout_ensure_results:
  assumes "layout_wf l"
  shows "results (\<lambda>(e, l'). layout_wf l' \<and> ly_handles l' = ly_handles l \<and> ly_nslots l' = ly_nslots l \<and> ly_sealed l' = ly_sealed l \<and>
           (e = None \<longrightarrow> unat need \<le> unat (ly_cap l'))) (layout_ensure l need)"
proof (cases "need > 0xffff \<or> ucast (ly_cap l) \<ge> need")
  case True
  then show ?thesis using assms by (auto simp: layout_ensure_def word_le_nat_alt)
next
  case False
  define ncap where "ncap = grow_cap (if ly_cap l = 0 then 4 else ly_cap l) need"
  have e: "unat need \<le> unat ncap" using grow_cap_enough [of need "if ly_cap l = 0 then 4 else ly_cap l"] False
    unfolding ncap_def [symmetric] by (simp add: word_le_nat_alt word_less_nat_alt)
  moreover have g: "unat (ly_cap l) \<le> unat ncap" using e False by (simp add: word_le_nat_alt)
  moreover have "unat (ly_nslots l) \<le> length (ly_slots l)" "length (ly_slots l) = unat (ly_cap l)"
    using assms by (simp_all add: layout_wf_def word_le_nat_alt)
  ultimately show ?thesis using assms False
    by (auto simp: layout_ensure_def Let_def ncap_def [symmetric] layout_wf_def word_le_nat_alt intro!: results_skip)
qed


section \<open>Adding\<close>

text \<open>
  What every way of adding does: the layout stays well-formed; on success there is one more handle at the end, at the address
  returned; on failure handles and slots are as before.
\<close>

definition added :: "PosixIPCLayoutObject \<Rightarrow> addr \<Rightarrow> addr pyres \<times> PosixIPCLayoutObject \<Rightarrow> bool" where
  "added l p = (\<lambda>(x, l'). layout_wf l' \<and> ly_sealed l' = ly_sealed l \<and>
     (case x of
        Inl _ \<Rightarrow> ly_handles l' = ly_handles l \<and> ly_nslots l' = ly_nslots l
      | Inr q \<Rightarrow> q = p \<and> map fst (ly_handles l') = map fst (ly_handles l) @ [p] \<and>
          map (handle_kinds \<circ> snd) (butlast (ly_handles l')) = map (handle_kinds \<circ> snd) (ly_handles l)))"

text \<open>The layout differs from \<open>l\<close> at most in slots behind those in use; \<open>ks\<close> are the kinds of the first of them.\<close>

definition staged :: "PosixIPCLayoutObject \<Rightarrow> u16 list \<Rightarrow> PosixIPCLayoutObject \<Rightarrow> bool" where
  "staged l ks l' \<longleftrightarrow> layout_wf l' \<and> ly_handles l' = ly_handles l \<and> ly_nslots l' = ly_nslots l \<and> ly_sealed l' = ly_sealed l \<and>
     unat (ly_nslots l) + length ks \<le> unat (ly_cap l') \<and>
     take (length ks) (drop (unat (ly_nslots l)) (map s_kind (ly_slots l'))) = ks"

lemma stagedD:
  assumes "staged l ks l'"
  shows "layout_wf l'" and "ly_handles l' = ly_handles l" and "ly_nslots l' = ly_nslots l" and "ly_sealed l' = ly_sealed l"
    and "unat (ly_nslots l) + length ks \<le> unat (ly_cap l')"
    and "take (length ks) (drop (unat (ly_nslots l)) (map s_kind (ly_slots l'))) = ks"
    and "length (ly_slots l') = unat (ly_cap l')"
    and "take (unat (ly_nslots l)) (map s_kind (ly_slots l')) = slot_kinds (ly_handles l)"
    and "ly_nslots l \<le> ly_cap l'" and "tiles 0 (ly_handles l) (unat (ly_nslots l))"
  using assms by (auto simp: staged_def layout_wf_def)

lemma staged_error: "staged l ks l' \<Longrightarrow> added l p (Inl e, l')"
  by (simp add: staged_def added_def)

lemma added_same: "layout_wf l \<Longrightarrow> added l p (Inl e, l)"
  by (simp add: added_def)

lemma commit_wf:
  assumes "staged l (handle_kinds h) l1" and "covers h (unat (ly_nslots l)) (unat n)"
  shows "layout_wf (l1\<lparr>ly_handles := ly_handles l1 @ [(p, h)], ly_nslots := ly_nslots l1 + n\<rparr>)"
proof -
  let ?m = "unat (ly_nslots l1)"
  have k: "length (handle_kinds h) = unat n" using assms(2) by (simp add: covers_def)
  then have s: "?m + unat n \<le> unat (ly_cap l1)" using assms(1) by (simp add: staged_def)
  then have u: "unat (ly_nslots l1 + n) = ?m + unat n"
    using unat_u16_less [of "ly_cap l1"] by (simp add: unat_plus_if')
  note d = stagedD [OF assms(1)]
  have "take (?m + unat n) (map s_kind (ly_slots l1)) = slot_kinds (ly_handles l1) @ handle_kinds h"
    unfolding take_add using d k by simp
  moreover have "tiles 0 (ly_handles l1 @ [(p, h)]) (?m + unat n)"
    using assms(2) d by (intro tiles_snoc) simp_all
  ultimately show ?thesis
    using d(7) u s by (simp add: layout_wf_def word_le_nat_alt)
qed

text \<open>Taking the last handle and its slots back.\<close>

lemma uncommit_wf:
  assumes "layout_wf l" and "layout_wf l2" and "ly_handles l2 = ly_handles l @ [(p, h)]" and "ly_nslots l \<le> ly_cap l2"
  shows "layout_wf (l2\<lparr>ly_handles := ly_handles l, ly_nslots := ly_nslots l\<rparr>)"
proof -
  have t: "tiles 0 (ly_handles l) (unat (ly_nslots l))" using assms(1) by (simp add: layout_wf_def)
  note n = tiles_length [OF t, simplified]
  have k: "take (unat (ly_nslots l2)) (map s_kind (ly_slots l2)) = slot_kinds (ly_handles l) @ handle_kinds h"
    using assms(2,3) by (simp add: layout_wf_def)
  have "length (take (unat (ly_nslots l2)) (map s_kind (ly_slots l2))) = length (slot_kinds (ly_handles l) @ handle_kinds h)" by (simp only: k)
  then have "unat (ly_nslots l) \<le> unat (ly_nslots l2)" using n by simp
  then have "take (unat (ly_nslots l)) (map s_kind (ly_slots l2)) = take (unat (ly_nslots l)) (slot_kinds (ly_handles l) @ handle_kinds h)"
    unfolding k [symmetric] by (simp add: min_def)
  then show ?thesis using assms t n by (simp add: layout_wf_def)
qed

lemma commit_sync_added:
  assumes st: "staged l (handle_kinds h) l1" and "covers h (unat (ly_nslots l)) (unat n)" and wf: "layout_wf l"
  shows "results (added l p) (layout_sync c (l1\<lparr>ly_handles := ly_handles l1 @ [(p, h)], ly_nslots := ly_nslots l1 + n\<rparr>) \<bind>
     (\<lambda>(e, l1'). ret (case e of None \<Rightarrow> (Inr p, l1')
      | Some x \<Rightarrow> (Inl x, l1'\<lparr>ly_handles := butlast (ly_handles l1'), ly_nslots := ly_nslots l\<rparr>))))"
proof -
  let ?l = "l1\<lparr>ly_handles := ly_handles l1 @ [(p, h)], ly_nslots := ly_nslots l1 + n\<rparr>"
  note l1 = stagedD(2-4,9) [OF st]
  show ?thesis
  proof (rule results_bind [OF layout_sync_results [OF commit_wf [OF assms(1,2)]]], clarify)
    fix e l2
    assume s: "layout_wf l2" "same_handles ?l l2" "ly_sealed l2 = ly_sealed ?l" "ly_cap l2 = ly_cap ?l"
      and e: "e = None \<or> ly_handles l2 = ly_handles ?l \<and> (\<exists>rc. rc \<noteq> 0 \<and> e = Some (raise_err rc))"
    show "results (added l p) (ret (case e of None \<Rightarrow> (Inr p, l2)
        | Some x \<Rightarrow> (Inl x, l2\<lparr>ly_handles := butlast (ly_handles l2), ly_nslots := ly_nslots l\<rparr>)))"
    proof (cases e)
      case None
      then show ?thesis using s l1 by (simp add: added_def same_handles_def map_butlast)
    next
      case (Some x)
      then have h: "ly_handles l2 = ly_handles l @ [(p, h)]" using e l1 by simp
      have "layout_wf (l2\<lparr>ly_handles := ly_handles l, ly_nslots := ly_nslots l\<rparr>)"
        by (rule uncommit_wf [OF wf s(1) h]) (use s(4) l1(4) in simp)
      with Some h s(3) l1(3) show ?thesis by (simp add: added_def)
    qed
  qed
qed

lemma commit_slots_added:
  assumes "staged l (handle_kinds h) l1" and "covers h (unat (ly_nslots l)) (unat n)" and "layout_wf l"
  shows "results (added l p) (commit_slots c l1 p h n)"
proof -
  have "ly_nslots l1 = ly_nslots l" using assms(1) by (simp add: staged_def)
  note n = this
  show ?thesis
    unfolding commit_slots_def n
    by (rule results_call, rule results_if) (use commit_sync_added [OF assms, of p c] in \<open>simp_all add: n staged_error [OF assms(1)]\<close>)
qed

lemma put_slots_staged:
  assumes "layout_wf l" and "unat (ly_nslots l) + length ss \<le> unat (ly_cap l)"
  shows "staged l (map s_kind ss) (put_slots l ss)"
proof -
  let ?m = "unat (ly_nslots l)"
  have len: "length (ly_slots l) = unat (ly_cap l)" and k: "take ?m (map s_kind (ly_slots l)) = slot_kinds (ly_handles l)"
    and t: "tiles 0 (ly_handles l) ?m" and "ly_nslots l \<le> ly_cap l"
    using assms(1) by (simp_all add: layout_wf_def)
  moreover have "length (slot_kinds (ly_handles l)) = ?m" using tiles_length [OF t] by simp
  moreover have "map s_kind (ly_slots (put_slots l ss)) = slot_kinds (ly_handles l) @ map s_kind ss @ drop (?m + length ss) (map s_kind (ly_slots l))"
    by (simp add: put_slots_def drop_map flip: k take_map)
  moreover have "length (ly_slots (put_slots l ss)) = length (ly_slots l)"
    using assms(2) len by (simp add: put_slots_def)
  ultimately show ?thesis using assms(2) by (simp add: staged_def layout_wf_def put_slots_def)
qed

text \<open>Staging again replaces what was staged before.\<close>

lemma put_slots_again:
  assumes "staged l ks l1" and "length ss \<le> length ks"
  shows "staged l (map s_kind ss) (put_slots l1 ss)"
  using put_slots_staged [of l1 ss] assms by (auto simp: staged_def)

lemma copy_slot_staged:
  assumes "staged l [k] l1" and "0 < n" and "unat (ly_nslots l) + n \<le> unat (ly_cap l1)"
  shows "staged l (replicate n k) (l1\<lparr>ly_slots := copy_slot (ly_slots l1) (unat (ly_nslots l)) n\<rparr>)"
proof -
  let ?m = "unat (ly_nslots l)" and ?s = "ly_slots l1"
  note d = stagedD [OF assms(1)]
  have m: "?m < length ?s" using d(5,7) by simp
  have at: "s_kind (?s ! ?m) = k"
    using d(6) m by (simp add: take_Suc hd_drop_conv_nth split: if_splits)
  have "take (Suc ?m) ?s = take ?m ?s @ [?s ! ?m]" by (rule take_Suc_conv_app_nth [OF m])
  then have c: "map s_kind (copy_slot ?s ?m n) = take ?m (map s_kind ?s) @ replicate n k @ drop (?m + n) (map s_kind ?s)"
    using assms(2) at by (cases n) (simp_all add: copy_slot_def take_map drop_map)
  have "length (copy_slot ?s ?m n) = length ?s"
    using assms(2,3) d(7) m by (simp add: copy_slot_def)
  moreover have "length (slot_kinds (ly_handles l)) = ?m" using tiles_length [OF d(10)] by simp
  ultimately show ?thesis using c d m assms(3) by (simp add: staged_def layout_wf_def)
qed


lemma layout_commit_n_added:
  assumes st: "staged l [k] l1" and "handle_kinds h = replicate (unat n) k" and "covers h (unat (ly_nslots l)) (unat n)"
    and "unat (ly_nslots l) + unat n \<le> unat (ly_cap l1)" and "layout_wf l"
  shows "results (added l p) (layout_commit_n c l1 p h n)"
proof -
  let ?l = "l1\<lparr>ly_slots := copy_slot (ly_slots l1) (unat (ly_nslots l)) (unat n)\<rparr>"
  have n: "0 < unat n" using assms(3) by (simp add: covers_def)
  have "staged l (handle_kinds h) ?l"
    unfolding assms(2) by (rule copy_slot_staged [OF st n assms(4)])
  note cs = commit_sync_added [OF this assms(3,5), of p c]
  have r: "l1\<lparr>ly_handles := hs, ly_slots := s, ly_nslots := m\<rparr> = l1\<lparr>ly_slots := s, ly_handles := hs, ly_nslots := m\<rparr>" for hs s m
    by simp
  have "n \<noteq> 0" using n by auto
  then show ?thesis
    unfolding layout_commit_n_def stagedD(3) [OF st] r using cs stagedD(3) [OF st]
    by (auto simp: staged_error [OF st] intro!: results_call)
qed

text \<open>A handle that covers one slot, made and committed.\<close>

lemma add_single_added:
  assumes wf: "layout_wf l" and st: "staged l [k0] l1"
    and new: "results (\<lambda>x. \<forall>h. x = Inr h \<longrightarrow> covers h (unat (ly_nslots l)) 1 \<and> handle_kinds h = [kind]) new"
  shows "results (added l p) (add_single c l1 p kind flags new)"
proof -
  have s: "staged l [kind] (put_slots l1 [mutex_slot_of kind flags])"
    using put_slots_again [OF st, of "[mutex_slot_of kind flags]"] by (simp add: mutex_slot_of_def)
  show ?thesis unfolding add_single_def Let_def
  proof (rule results_bind [OF new])
    fix x :: "layout_handle pyres"
    assume "\<forall>h. x = Inr h \<longrightarrow> covers h (unat (ly_nslots l)) 1 \<and> handle_kinds h = [kind]"
    then show "results (added l p) (case x of Inl y \<Rightarrow> ret (Inl y, put_slots l1 [mutex_slot_of kind flags])
        | Inr ob \<Rightarrow> layout_commit c (put_slots l1 [mutex_slot_of kind flags]) p ob)"
      using commit_slots_added [of l _ "put_slots l1 [mutex_slot_of kind flags]" 1] s wf
      by (cases x) (simp_all add: staged_error layout_commit_def)
  qed
qed

lemma word_nat_ucast [simp]: "word_of_nat (unat (n :: u16)) = (ucast n :: u32)"
  by (rule word_unat_eq_iff [THEN iffD2]) (use unat_u16_less [of n] in simp)

text \<open>The new handles cover the slot they are made for.\<close>

lemma made_unbound:
  "results (\<lambda>x. \<forall>h. x = Inr h \<longrightarrow> layout_handle_span h = Inr (slot, 1) \<and> handle_kinds h = [k])
     (made LMutex (posixipc_mutex_new_unbound c k fl fn slot storage))"
  "results (\<lambda>x. \<forall>h. x = Inr h \<longrightarrow> layout_handle_span h = Inr (slot, 1) \<and> handle_kinds h = [KIND_RWLOCK])
     (made LRWLock (posixipc_rwlock_new_unbound c fl slot storage))"
  "results (\<lambda>x. \<forall>h. x = Inr h \<longrightarrow> layout_handle_span h = Inr (slot, 1) \<and> handle_kinds h = [KIND_COND])
     (made LCond (posixipc_cond_new_unbound c fl slot m storage))"
  "results (\<lambda>x. \<forall>h. x = Inr h \<longrightarrow> layout_handle_span h = Inr (slot, 1) \<and> handle_kinds h = [KIND_SEM])
     (made LSem (posixipc_sem_new_unbound c fl v slot storage))"
  "results (\<lambda>x. \<forall>h. x = Inr h \<longrightarrow> layout_handle_span h = Inr (slot, 1) \<and> handle_kinds h = [KIND_BARRIER])
     (made LBarrier (posixipc_barrier_new_unbound c fl v slot storage))"
  "results (\<lambda>x. \<forall>h. x = Inr h \<longrightarrow> layout_handle_span h = Inr (slot, 1) \<and> handle_kinds h = [KIND_SPIN])
     (made LSpin (posixipc_spin_new_unbound c fl slot storage))"
  by (simp_all add: made_def results_def io_simps posixipc_mutex_new_unbound_def posixipc_rwlock_new_unbound_def
      posixipc_cond_new_unbound_def posixipc_sem_new_unbound_def posixipc_barrier_new_unbound_def posixipc_spin_new_unbound_def
      unbound_handle_def handle.extend_def)

lemma add_slot_kind_added:
  assumes wf: "layout_wf l" and st: "staged l [k0] l1"
  shows "results (added l p) (add_slot_kind c l1 p storage kind args)"
proof -
  note n = stagedD(3) [OF st]
  have single: "results (added l p) (add_single c l1 p k fl new)"
    if "results (\<lambda>x. \<forall>h. x = Inr h \<longrightarrow> layout_handle_span h = Inr (ucast (ly_nslots l), 1) \<and> handle_kinds h = [k]) new" for k fl new
    using add_single_added [OF wf st results_mono [OF that]] by (simp add: covers_def)
  note ss = single [OF made_unbound(1)] single [OF made_unbound(2)] single [OF made_unbound(3)] single [OF made_unbound(4)]
    single [OF made_unbound(5)] single [OF made_unbound(6)]
  show ?thesis
    unfolding add_slot_kind_def Let_def n
    by (cases kind) (auto simp: staged_error [OF st] intro!: ss results_skip [where m = "owner_died_arg b x" for b x]
        split: sum.split mutex_arg.split option.split)
qed


text \<open>After a successful reservation of as many slots as are staged.\<close>

lemma ensure_then:
  assumes wf: "layout_wf l" and n: "unat (ly_nslots l) + k < 65536 + 65536"
    and need: "need = ucast (ly_nslots l) + word_of_nat k"
    and ok: "\<And>l1. layout_wf l1 \<Longrightarrow> (\<And>ss. length ss \<le> k \<Longrightarrow> staged l (map s_kind ss) (put_slots l1 ss)) \<Longrightarrow> ly_nslots l1 = ly_nslots l \<Longrightarrow>
          unat (ly_nslots l) + k \<le> unat (ly_cap l1) \<Longrightarrow> results (added l p) (f l1)"
  shows "results (added l p) (layout_ensure l need \<bind> (\<lambda>(e, l1). case e of Some x \<Rightarrow> ret (Inl x, l1) | None \<Rightarrow> f l1))"
proof (rule results_bind [OF layout_ensure_results [OF wf]], clarify)
  fix e :: "pyexc option" and l1
  assume l1: "layout_wf l1" "ly_handles l1 = ly_handles l" "ly_nslots l1 = ly_nslots l" "ly_sealed l1 = ly_sealed l"
    and c: "e = None \<longrightarrow> unat need \<le> unat (ly_cap l1)"
  have u: "unat need = unat (ly_nslots l) + k" unfolding need using n by (simp add: unat_add_no_wrap)
  have st: "staged l (map s_kind ss) (put_slots l1 ss)" if "e = None" "length ss \<le> k" for ss
    using put_slots_staged [OF l1(1), of ss] l1 that c u by (auto simp: staged_def)
  show "results (added l p) (case e of Some x \<Rightarrow> ret (Inl x, l1) | None \<Rightarrow> f l1)"
    using ok [OF l1(1) st l1(3)] c u l1 by (cases e) (auto simp: added_def)
qed

lemma staged_put:
  "(\<And>ss. length ss \<le> k \<Longrightarrow> staged l (map s_kind ss) (put_slots l1 ss)) \<Longrightarrow> length ss \<le> k \<Longrightarrow> map s_kind ss = ks \<Longrightarrow>
     staged l ks (put_slots l1 ss)"
  by blast

lemma made_ring:
  "results (\<lambda>x. \<forall>q. x = Inr q \<longrightarrow> qo_first_slot q = first) (posixipc_queue_new_unbound c b d k first)"
  "results (\<lambda>x. \<forall>q. x = Inr q \<longrightarrow> fo_first_slot q = first) (posixipc_futexq_new_unbound b d k first)"
  "results (\<lambda>x. \<forall>ob. x = Inr ob \<longrightarrow> x_slot ob = first) (posixipc_bytes_new_unbound c sz first)"
  "results (\<lambda>x. \<forall>ob. x = Inr ob \<longrightarrow> ar_first_slot ob = first \<and> ar_count ob = n \<and> ar_kind ob = kd)
     (posixipc_mutexarray_new_unbound c kd fl fn first n)"
  by (simp_all add: results_def io_simps posixipc_queue_new_unbound_def posixipc_futexq_new_unbound_def posixipc_bytes_new_unbound_def
      posixipc_mutexarray_new_unbound_def unbound_handle_def handle.extend_def)

lemma layout_add_queue_added:
  assumes wf: "layout_wf l"
  shows "results (added l p) (layout_add_queue c l p depth item_size died)"
proof -
  have put: "results (added l p) (posixipc_queue_new_unbound c True d k (ucast (ly_nslots l)) \<bind>
      (\<lambda>h. case h of Inl x \<Rightarrow> ret (Inl x, l2) | Inr q \<Rightarrow> layout_commit_span c l2 p (LQueue q) 5))"
    if "staged l [KIND_ROBUST_MUTEX, KIND_ROBUST_MUTEX, KIND_COND, KIND_COND, KIND_BYTES] l2" for d k l2
    by (rule results_bind [OF made_ring(1)])
      (auto simp: layout_commit_span_def covers_def staged_error [OF that] that wf split: sum.split intro!: commit_slots_added)
  show ?thesis
    unfolding layout_add_queue_def Let_def
    apply (rule results_if, simp add: added_same [OF wf])+
    apply (rule ensure_then [OF wf, where k = 5])
      apply (use unat_u16_less [of "ly_nslots l"] in simp, simp)
    subgoal premises h for l1 unfolding h(6)
      by (rule put, rule staged_put, erule h(5)) (simp_all add: mutex_slot_of_def bytes_slot_of_def)
    done
qed

lemma layout_add_futex_queue_added:
  assumes wf: "layout_wf l"
  shows "results (added l p) (layout_add_futex_queue c l p depth item_size died)"
proof -
  have put: "results (added l p) (posixipc_futexq_new_unbound True d k (ucast (ly_nslots l)) \<bind>
      (\<lambda>h. case h of Inl x \<Rightarrow> ret (Inl x, l2) | Inr q \<Rightarrow> layout_commit_span c l2 p (LFutexQueue q) 3))"
    if "staged l [KIND_ROBUST_MUTEX, KIND_ROBUST_MUTEX, KIND_BYTES] l2" for d k l2
    by (rule results_bind [OF made_ring(2)])
      (auto simp: layout_commit_span_def covers_def staged_error [OF that] that wf split: sum.split intro!: commit_slots_added)
  show ?thesis
    unfolding layout_add_futex_queue_def Let_def
    apply (rule results_if, simp add: added_same [OF wf])+
    apply (rule ensure_then [OF wf, where k = 3])
      apply (use unat_u16_less [of "ly_nslots l"] in simp, simp)
    subgoal premises h for l1 unfolding h(6)
      by (rule put, rule staged_put, erule h(5)) (simp_all add: mutex_slot_of_def bytes_slot_of_def)
    done
qed

lemma layout_add_added:
  assumes wf: "layout_wf l"
  shows "results (added l p) (layout_add c l p storage kind args)"
proof -
  have kind: "results (added l p) (layout_reserve l \<bind> (\<lambda>(e, l1). case e of Some x \<Rightarrow> ret (Inl x, l1) | None \<Rightarrow>
      add_slot_kind c (put_slots l1 [slot_zero]) p storage kind args))"
    unfolding layout_reserve_def
    apply (rule ensure_then [OF wf, where k = 1])
      apply (use unat_u16_less [of "ly_nslots l"] in simp, simp)
    subgoal premises h for l1 by (rule add_slot_kind_added [OF wf h(2) [of "[slot_zero]", simplified]])
    done
  show ?thesis
    unfolding layout_add_def
    by (rule results_skip)
      (auto simp: added_same [OF wf] split: option.split intro!: results_call kind layout_add_queue_added [OF wf] layout_add_futex_queue_added [OF wf])
qed

lemma layout_add_bytes_added:
  assumes wf: "layout_wf l"
  shows "results (added l p) (layout_add_bytes c l p sz)"
proof -
  let ?b = "posixipc_kind_size c KIND_BYTES (word_of_int sz)"
  have put: "results (added l p) (posixipc_bytes_new_unbound c sz' (ucast (ly_nslots l)) \<bind>
      (\<lambda>h. case h of Inl x \<Rightarrow> ret (Inl x, l2) | Inr b \<Rightarrow> layout_commit c l2 p (LBytes b)))"
    if "staged l [KIND_BYTES] l2" for sz' l2
    by (rule results_bind [OF made_ring(3)])
      (auto simp: layout_commit_def covers_def staged_error [OF that] that wf split: sum.split intro!: commit_slots_added)
  have res: "results (added l p) (layout_reserve l \<bind> (\<lambda>(e, l1). case e of Some x \<Rightarrow> ret (Inl x, l1) | None \<Rightarrow>
      posixipc_bytes_new_unbound c ?b (ucast (ly_nslots (put_slots l1 [bytes_slot_of c ?b 0]))) \<bind>
      (\<lambda>h. case h of Inl x \<Rightarrow> ret (Inl x, put_slots l1 [bytes_slot_of c ?b 0])
         | Inr b \<Rightarrow> layout_commit c (put_slots l1 [bytes_slot_of c ?b 0]) p (LBytes b))))"
    unfolding layout_reserve_def
    apply (rule ensure_then [OF wf, where k = 1])
      apply (use unat_u16_less [of "ly_nslots l"] in simp, simp)
    subgoal premises h for l1
    proof -
      have st: "staged l [KIND_BYTES] (put_slots l1 [bytes_slot_of c ?b 0])" using h(2) [of "[bytes_slot_of c ?b 0]"] by (simp add: bytes_slot_of_def)
      show ?thesis unfolding stagedD(3) [OF st] by (rule put [OF st])
    qed
    done
  show ?thesis
    unfolding layout_add_bytes_def Let_def
    by (rule results_skip) (auto simp: added_same [OF wf] split: option.split intro!: results_call res)
qed


lemma layout_add_array_added:
  assumes wf: "layout_wf l"
  shows "results (added l p) (layout_add_array c l p kind count args)"
proof -
  have put: "results (added l p) (posixipc_mutexarray_new_unbound c kd fl fn (ucast (ly_nslots l)) (word_of_int count) \<bind>
      (\<lambda>h. case h of Inl x \<Rightarrow> ret (Inl x, l2) | Inr ob \<Rightarrow> layout_commit_n c l2 p (LArray ob) (word_of_int count)))"
    if "staged l [kd] l2" "1 \<le> count" "count \<le> 65535" "unat (ly_nslots l) + nat count \<le> unat (ly_cap l2)" for kd fl fn l2
  proof -
    have u: "unat (word_of_int count :: u16) = nat count" "unat (word_of_int count :: u32) = nat count"
      "word_of_nat (nat count) = (word_of_int count :: u32)"
      using that(2,3) by (simp_all add: unsigned_of_int take_bit_int_eq_self)
    show ?thesis
      by (rule results_bind [OF made_ring(4)])
        (use that in \<open>auto simp: covers_def staged_error wf u split: sum.split intro!: layout_commit_n_added\<close>)
  qed
  have res: "results (added l p) (layout_ensure l (ucast (ly_nslots l) + word_of_int count) \<bind> (\<lambda>(e, l1). case e of Some x \<Rightarrow> ret (Inl x, l1) | None \<Rightarrow>
      posixipc_mutexarray_new_unbound c kd fl fn (ucast (ly_nslots (put_slots l1 [mutex_slot_of kd fl]))) (word_of_int count) \<bind>
      (\<lambda>h. case h of Inl x \<Rightarrow> ret (Inl x, put_slots l1 [mutex_slot_of kd fl])
         | Inr ob \<Rightarrow> layout_commit_n c (put_slots l1 [mutex_slot_of kd fl]) p (LArray ob) (word_of_int count))))"
    if "1 \<le> count" "count \<le> 65535" for kd fl fn
    apply (rule ensure_then [OF wf, where k = "nat count"])
      apply (use unat_u16_less [of "ly_nslots l"] that in simp)
     apply (use that in simp)
    subgoal premises h for l1
    proof -
      have st: "staged l [kd] (put_slots l1 [mutex_slot_of kd fl])"
        by (rule staged_put, erule h(2)) (use that in \<open>simp_all add: mutex_slot_of_def nat_le_iff Suc_le_eq\<close>)
      show ?thesis unfolding stagedD(3) [OF st] by (rule put [OF st that]) (use h(4) in \<open>simp add: put_slots_def\<close>)
    qed
    done
  show ?thesis
    unfolding layout_add_array_def Let_def
    apply (rule results_skip)
    subgoal for st
      by (cases st) (auto simp: added_same [OF wf] split: option.split sum.split
          intro!: results_call results_skip [where m = "owner_died_arg b x" for b x] res)
    done
qed


section \<open>Binding\<close>

definition pinned :: "addr \<Rightarrow> nat \<Rightarrow> regions \<Rightarrow> regions" where
  "pinned r k H = H(r := (H r)\<lparr>s_pins := s_pins (H r) + word_of_nat k\<rparr>)"

lemma pinned_0 [simp]: "pinned r 0 H = H"
  by (simp add: pinned_def)

lemma pinned_add [simp]: "pinned r j (pinned r k H) = pinned r (k + j) H"
  by (simp add: pinned_def add.assoc)

text \<open>What binding a handle to the segment at \<open>r\<close> leaves: one more pin, or nothing changed in the store.\<close>

definition bind_post :: "layout_handle \<Rightarrow> nat \<Rightarrow> addr \<Rightarrow> regions \<Rightarrow> pyexc option outcome \<times> layout_handle \<times> regions \<Rightarrow> bool" where
  "bind_post h i r H = (\<lambda>(oc, h', H'). covers h' i (length (handle_kinds h)) \<and> handle_kinds h' = handle_kinds h \<and>
     (oc = Returned None \<and> handle_region_of h' = Some r \<and> H' = pinned r 1 H \<or>
      (\<exists>e. oc = Returned (Some e)) \<and> handle_region_of h' = handle_region_of h \<and> H' = H))"

lemma pin_region_results: "results (\<lambda>(e, H'). H' = (case e of None \<Rightarrow> pinned r 1 H | Some _ \<Rightarrow> H)) (pin_region H r)"
  by (auto simp: results_def run_pin_region pinned_def split: prod.splits)

lemma bind_slot_results: "results (\<lambda>(p, H'). H' = (case p of Inl _ \<Rightarrow> H | Inr _ \<Rightarrow> pinned r 1 H)) (bind_slot H r slot)"
proof (unfold results_def, intro allI)
  fix w
  obtain p H' w' where b: "run (bind_slot H r slot) w = ((p, H'), w')" by (metis surj_pair)
  from run_bind_slot [OF b] b show "case fst (run (bind_slot H r slot) w) of (p, H') \<Rightarrow> H' = (case p of Inl _ \<Rightarrow> H | Inr _ \<Rightarrow> pinned r 1 H)"
    by (auto simp: pinned_def split: sum.splits)
qed

lemma bound_as_results:
  "results (\<lambda>(e, ob, H'). bind_post h i r H (Returned e, con ob, H')) m \<Longrightarrow> results (bind_post h i r H) (bound_as con m)"
  unfolding bound_as_def by (erule results_bind) auto

lemma slot_then:
  assumes "\<And>e. bind_post h i r H (Returned (Some e), con ob, H)" and "\<And>ptr. bind_post h i r H (Returned None, con (f ptr), pinned r 1 H)"
  shows "results (\<lambda>(e, ob, H'). bind_post h i r H (Returned e, con ob, H'))
    (bind_slot H r slot \<bind> (\<lambda>(p, H). ret (case p of Inl e \<Rightarrow> (Some e, ob, H) | Inr ptr \<Rightarrow> (None, f ptr, H))))"
  using assms by (intro results_bind [OF bind_slot_results]) (auto split: sum.splits)

lemma pin_then:
  assumes "\<And>e. bind_post h i r H (Returned (Some e), con ob, H)" and "bind_post h i r H (Returned None, con ob', pinned r 1 H)"
  shows "results (\<lambda>(e, ob, H'). bind_post h i r H (Returned e, con ob, H'))
    (pin_region H r \<bind> (\<lambda>(e, H). case e of Some x \<Rightarrow> ret (Some x, ob, H) | None \<Rightarrow> ret (None, ob', H)))"
  using assms by (intro results_bind [OF pin_region_results]) (auto split: option.splits)

lemma bind_one_results:
  assumes "covers h i 1" and "h \<in> {LBytes b, LRWLock w, LCond cn, LSem se, LBarrier ba, LSpin sp}"
  shows "results (bind_post h i r H) (bind_handle c M slots r h H)"
  using assms
  apply (auto simp: posixipc_bytes_bind_def posixipc_rwlock_bind_def posixipc_cond_bind_def posixipc_sem_bind_def posixipc_barrier_bind_def
      posixipc_spin_bind_def simp del: One_nat_def intro!: bound_as_results results_if slot_then)
               apply (simp_all add: bind_post_def covers_def bound_to_def)
  done


lemma bind_mutex_results:
  assumes "covers (LMutex m) i 1" and "s_kind (slots ! unat (m_slot m)) = m_kind m"
  shows "results (bind_post (LMutex m) i r H) (bind_handle c M slots r (LMutex m) H)"
proof -
  have e: "bind_post (LMutex m) i r H (Returned (Some x), LMutex m, H)" for x using assms(1) by (simp add: bind_post_def)
  show ?thesis
    unfolding bind_handle.simps posixipc_mutex_bind_def
    apply (rule bound_as_results, rule results_skip)
    subgoal for st
      apply (cases st)
       apply (auto simp: e intro!: results_skip [where m = "region_ptr ob a b d" for ob a b d] results_skip [where m = "ret x" for x] pin_then)
      using assms apply (simp add: bind_post_def covers_def)
      done
    done
qed

text \<open>The pointers of a ring change neither position nor segment of the handle.\<close>

lemma queue_pointers_results:
  "results (\<lambda>(e, q'). qo_first_slot q' = qo_first_slot q \<and> qo_region q' = qo_region q) (queue_pointers c q ob slots first m)"
  unfolding queue_pointers_def bind_ptr_def
  by (auto simp: Let_def intro!: results_skip [where m = "region_ptr ob a b d" for ob a b d] split: prod.split)

lemma fq_pointers_results:
  "results (\<lambda>(e, q'). fo_first_slot q' = fo_first_slot q \<and> fo_region q' = fo_region q) (fq_pointers c q ob slots first m)"
  unfolding fq_pointers_def bind_ptr_def
  by (auto simp: Let_def intro!: results_skip [where m = "region_ptr ob a b d" for ob a b d] split: prod.split)

lemma bind_queue_results:
  assumes "covers (LQueue q) i 5"
  shows "results (bind_post (LQueue q) i r H) (bind_handle c M slots r (LQueue q) H)"
proof -
  have e: "bind_post (LQueue q) i r H (Returned (Some x), LQueue q', H)" if "qo_first_slot q' = qo_first_slot q" "qo_region q' = qo_region q" for x q'
    using assms that by (simp add: bind_post_def covers_def)
  show ?thesis
    unfolding bind_handle.simps posixipc_queue_bind_def
    apply (rule bound_as_results, rule results_skip)
    subgoal for st
      apply (cases st)
       apply (simp_all only: option.case results_ret prod.case e)
      apply (rule results_if, simp add: e)
      apply (rule results_bind2 [OF queue_pointers_results])
      subgoal for x q'
        apply (cases x)
         apply (simp_all only: option.case prod.case results_ret)
         apply (rule pin_then)
          apply (simp add: e)
         apply (use assms in \<open>simp add: bind_post_def covers_def\<close>)
        apply (simp add: e)
        done
      done
    done
qed

lemma bind_fq_results:
  assumes "covers (LFutexQueue q) i 3"
  shows "results (bind_post (LFutexQueue q) i r H) (bind_handle c M slots r (LFutexQueue q) H)"
proof -
  have e: "bind_post (LFutexQueue q) i r H (Returned (Some x), LFutexQueue q', H)" if "fo_first_slot q' = fo_first_slot q" "fo_region q' = fo_region q" for x q'
    using assms that by (simp add: bind_post_def covers_def)
  show ?thesis
    unfolding bind_handle.simps posixipc_futexq_bind_def
    apply (rule bound_as_results, rule results_skip)
    subgoal for st
      apply (cases st)
       apply (simp_all only: option.case results_ret prod.case e)
      apply (rule results_if, simp add: e)
      apply (rule results_bind2 [OF fq_pointers_results])
      subgoal for x q'
        apply (cases x)
         apply (simp_all only: option.case prod.case results_ret)
         apply (rule pin_then)
          apply (simp add: e)
         apply (use assms in \<open>simp add: bind_post_def covers_def\<close>)
        apply (simp add: e)
        done
      done
    done
qed

text \<open>All the slots an array asks for are there, so that it never reads behind them.\<close>

lemma array_ptrs_results:
  assumes "\<And>j. j < n \<Longrightarrow> unat (first + k + word_of_nat j) < length slots"
  shows "results (\<lambda>x. x \<noteq> Undefined \<and> x \<noteq> Unfinished) (array_ptrs ob kind slots first k n)"
  using assms
proof (induction n arbitrary: k kind)
  case (Suc n)
  have "unat (first + (k + 1) + word_of_nat j) < length slots" if "j < n" for j
    using Suc.prems [of "Suc j"] that by (simp add: ac_simps)
  note ih = Suc.IH [OF this]
  show ?case
    using Suc.prems [of 0]
    apply (auto simp: Let_def intro!: results_skip [where m = "region_ptr ob a b d" for ob a b d] split: prod.split)
    apply (rule results_bind [OF ih])
     apply (auto split: outcome.splits sum.splits)
    done
qed simp

lemma bind_array_results:
  assumes c: "covers (LArray a) i n" and n: "i + n \<le> length slots" "i + n \<le> 65536"
  shows "results (bind_post (LArray a) i r H) (bind_handle c M slots r (LArray a) H)"
proof -
  have f: "ar_first_slot a = word_of_nat i" "ar_count a = word_of_nat n" "unat (ar_count a) = n" and z: "ar_count a \<noteq> 0"
    using c by (auto simp: covers_def)
  have "unat (ar_first_slot a + 0 + word_of_nat j) < length slots" if "j < unat (ar_count a)" for j
    using that f n by (simp add: unat_add_no_wrap)
  note ptrs = array_ptrs_results [OF this]
  have e: "bind_post (LArray a) i r H (Returned (Some x), LArray a, H)" for x using c f(3) by (simp add: bind_post_def)
  show ?thesis
    unfolding bind_handle.simps
    apply (rule results_bind [where Q = "\<lambda>(oc, a', H'). bind_post (LArray a) i r H (oc, LArray a', H')"])
     apply (unfold posixipc_mutexarray_bind_def)
     apply (rule results_skip)
    subgoal for st
      apply (cases st)
       apply (simp_all only: option.case prod.case results_ret e)
      apply (rule results_if, simp add: e)
      apply (rule results_call, rule results_if, simp add: e)
      apply (simp only: Let_def)
      apply (rule results_bind [OF ptrs])
       apply assumption
      subgoal for m ps
        apply (cases ps)
          apply simp_all
        subgoal for x
          apply (cases x)
           apply (auto simp: e intro!: results_skip [where m = "call_ignore s" for s])[1]
          apply simp
          apply (rule results_bind2 [OF pin_region_results])
          subgoal for l ea Ha
            apply (cases ea)
             apply (auto simp: e intro!: results_skip)
            apply (use c f(3) in \<open>simp add: bind_post_def covers_def\<close>)
            done
          done
        done
      done
    apply auto
    done
qed

text \<open>Any handle.\<close>

lemma bind_handle_results:
  assumes c: "covers h i (length (handle_kinds h))" and n: "i + length (handle_kinds h) \<le> length slots" "i + length (handle_kinds h) \<le> 65536"
    and k: "take (length (handle_kinds h)) (drop i (map s_kind slots)) = handle_kinds h"
  shows "results (bind_post h i r H) (bind_handle c M slots r h H)"
proof (cases h)
  case (LMutex m)
  have "m_slot m = word_of_nat i" "i < length slots" using c n LMutex by (simp_all add: covers_def)
  moreover have "s_kind (slots ! i) = m_kind m" using k LMutex \<open>i < length slots\<close> by (simp add: take_Suc hd_drop_conv_nth split: if_splits)
  ultimately show ?thesis using c n(2) unfolding LMutex by (intro bind_mutex_results) simp_all
next
  case (LArray a)
  show ?thesis unfolding LArray by (intro bind_array_results) (use c n LArray in simp_all)
next
  case (LQueue q)
  show ?thesis unfolding LQueue by (rule bind_queue_results) (use c LQueue in \<open>simp add: eval_nat_numeral\<close>)
next
  case (LFutexQueue q)
  show ?thesis unfolding LFutexQueue by (rule bind_fq_results) (use c LFutexQueue in \<open>simp add: eval_nat_numeral\<close>)
next
  case LOther
  with c show ?thesis by (simp add: covers_def)
qed (rule bind_one_results, use c in simp, blast)+


text \<open>
  All handles: those bound are a prefix of the list, and the segment has one pin more for each of them.
\<close>

definition bound_prefix ::
    "(addr \<times> layout_handle) list \<Rightarrow> addr \<Rightarrow> regions \<Rightarrow> pyexc option outcome \<Rightarrow> (addr \<times> layout_handle) list \<Rightarrow> regions \<Rightarrow> bool" where
  "bound_prefix hs r H oc hs' H' \<longleftrightarrow>
     (\<exists>k \<le> length hs. H' = pinned r k H \<and>
        map (handle_region_of \<circ> snd) hs' = replicate k (Some r) @ map (handle_region_of \<circ> snd) (drop k hs) \<and>
        (oc = Returned None \<and> k = length hs \<or> (\<exists>e. oc = Returned (Some e)) \<and> k < length hs))"

definition same_list :: "(addr \<times> layout_handle) list \<Rightarrow> (addr \<times> layout_handle) list \<Rightarrow> bool" where
  "same_list hs hs' \<longleftrightarrow> map fst hs' = map fst hs \<and> map (handle_kinds \<circ> snd) hs' = map (handle_kinds \<circ> snd) hs"

lemma bind_handles_results:
  assumes "tiles i hs n" and "n \<le> length slots" and "n \<le> 65536" and "take (n - i) (drop i (map s_kind slots)) = slot_kinds hs"
  shows "results (\<lambda>(oc, hs', H'). tiles i hs' n \<and> same_list hs hs' \<and> bound_prefix hs r H oc hs' H') (bind_handles c M slots r hs H)"
  using assms
proof (induction hs arbitrary: i H)
  case Nil
  then show ?case by (simp add: bound_prefix_def same_list_def)
next
  case (Cons x hs)
  obtain p h where x: "x = (p, h)" by (cases x)
  let ?k = "length (handle_kinds h)"
  have cv: "covers h i ?k" and t: "tiles (i + ?k) hs n" using Cons.prems(1) x by simp_all
  have n: "n = i + ?k + length (slot_kinds hs)" using tiles_length [OF t] .
  have split: "take (n - i) (drop i (map s_kind slots)) = take ?k (drop i (map s_kind slots)) @ take (n - (i + ?k)) (drop (i + ?k) (map s_kind slots))"
    using n take_add [of ?k "length (slot_kinds hs)" "drop i (map s_kind slots)"] by (simp add: add.commute)
  have kk: "take ?k (drop i (map s_kind slots)) = handle_kinds h" "take (n - (i + ?k)) (drop (i + ?k) (map s_kind slots)) = slot_kinds hs"
    using Cons.prems(2,4) x n unfolding split by (simp_all add: append_eq_append_conv)
  have b: "results (bind_post h i r H) (bind_handle c M slots r h H)"
    by (rule bind_handle_results [OF cv _ _ kk(1)]) (use n Cons.prems in simp_all)
  show ?case
    unfolding x bind_handles.simps
  proof (rule results_bind [OF b], clarify)
    fix oc h' H1
    assume p: "bind_post h i r H (oc, h', H1)"
    show "results (\<lambda>(oc, hs', H'). tiles i hs' n \<and> same_list ((p, h) # hs) hs' \<and> bound_prefix ((p, h) # hs) r H oc hs' H')
      (if oc \<noteq> Returned None then ret (oc, (p, h') # hs, H1)
       else bind_handles c M slots r hs H1 \<bind> (\<lambda>(oc, hs, H). ret (oc, (p, h') # hs, H)))"
    proof (cases "oc = Returned None")
      case False
      then show ?thesis using p t
        by (auto simp: bind_post_def bound_prefix_def same_list_def intro!: exI [of _ 0])
    next
      case True
      then have H1: "H1 = pinned r 1 H" using p by (auto simp: bind_post_def)
      show ?thesis
        using True p Cons.IH [OF t Cons.prems(2,3) kk(2), of H1]
        apply (simp add: H1)
        apply (erule results_bind)
        apply (auto simp: bind_post_def bound_prefix_def same_list_def)
        subgoal for hs1 k by (rule exI [of _ "Suc k"]) simp
        done
    qed
  qed
qed


lemma layout_bind_all_results:
  assumes wf: "layout_wf l"
  shows "results (\<lambda>(oc, l', H'). layout_wf l' \<and> same_handles l l' \<and> ly_sealed l' = ly_sealed l \<and>
           bound_prefix (ly_handles l) r H oc (ly_handles l') H') (layout_bind_all c M l r H)"
proof -
  let ?n = "unat (ly_nslots l)"
  have t: "tiles 0 (ly_handles l) ?n" and n: "?n \<le> length (ly_slots l)" "?n \<le> 65536"
    and k: "take ?n (map s_kind (ly_slots l)) = slot_kinds (ly_handles l)"
    using wf unat_u16_less [of "ly_nslots l"] by (simp_all add: layout_wf_def word_le_nat_alt)
  have w: "layout_wf (l\<lparr>ly_handles := hs\<rparr>)" if "tiles 0 hs ?n" "same_list (ly_handles l) hs" for hs
    using that wf by (simp add: layout_wf_def slot_kinds_def same_list_def)
  show ?thesis
    unfolding layout_bind_all_def
    apply (rule results_skip)
    apply (rule results_bind [OF bind_handles_results [OF t n]])
     apply (use k in simp)
    apply (auto simp: w same_handles_def same_list_def)
    done
qed

text \<open>The segments the handles are bound to, and a layout that differs from \<open>l\<close> only in what synchronising and building write.\<close>

definition regions_of :: "PosixIPCLayoutObject \<Rightarrow> addr option list" where
  "regions_of l = map (handle_region_of \<circ> snd) (ly_handles l)"

definition same_state :: "PosixIPCLayoutObject \<Rightarrow> PosixIPCLayoutObject \<Rightarrow> bool" where
  "same_state l l' \<longleftrightarrow> same_handles l l' \<and> regions_of l' = regions_of l \<and> ly_sealed l' = ly_sealed l"

lemma region_meta [simp]: "handle_region_of (layout_apply_slot_meta h s) = handle_region_of h"
  by (cases h) (simp_all add: slot_meta_def)

lemma sync_handles_regions:
  "sync_handles slots n hs = (e, hs') \<Longrightarrow> map (handle_region_of \<circ> snd) hs' = map (handle_region_of \<circ> snd) hs"
  by (induction slots n hs arbitrary: e hs' rule: sync_handles.induct) (auto split: sum.splits if_splits prod.splits)

lemma sync_same_state:
  assumes "layout_wf l"
  shows "results (\<lambda>(e, l'). layout_wf l' \<and> same_state l l') (layout_sync c l)"
proof -
  have "results (\<lambda>(e, l'). regions_of l' = regions_of l) (layout_sync c l)"
    unfolding layout_sync_def
    by (rule results_skip) (auto simp: regions_of_def layout_build_of_def dest!: sync_handles_regions split: prod.splits)
  with layout_sync_results [OF assms, of c] show ?thesis by (auto simp: results_def same_state_def split: prod.splits)
qed

text \<open>
  What binding a layout to the new segment object \<open>ob\<close> leaves; the parts that do not depend on the outcome first. On failure
  the first \<open>k\<close> handles are bound to the segment, which is pinned for each of them, and the others are bound as before.
\<close>

definition created_post ::
    "PosixIPCLayoutObject \<Rightarrow> addr \<Rightarrow> regions \<Rightarrow> addr pyres outcome \<Rightarrow> PosixIPCLayoutObject \<Rightarrow> regions \<Rightarrow> bool" where
  "created_post l r H oc l' H' \<longleftrightarrow> layout_wf l' \<and> same_handles l l' \<and> (\<forall>r'. r' \<noteq> r \<longrightarrow> H' r' = H r') \<and>
     (\<forall>q. oc = Returned (Inr q) \<longrightarrow> q = r \<and> ly_sealed l' \<and> list_all (\<lambda>(p, h). handle_region_of h = Some r) (ly_handles l') \<and>
        s_pins (H' r) = word_of_nat (length (ly_handles l'))) \<and>
     ((\<forall>q. oc \<noteq> Returned (Inr q)) \<longrightarrow> ly_sealed l' = ly_sealed l \<and>
        (\<exists>k. (k = 0 \<or> k < length (ly_handles l)) \<and> regions_of l' = replicate k (Some r) @ drop k (regions_of l) \<and>
           (s_pins (H' r) = word_of_nat k \<or> k = 0 \<and> H' = H)))"

lemma created_post_same: "layout_wf l' \<Longrightarrow> same_state l l' \<Longrightarrow> (\<forall>q. oc \<noteq> Returned (Inr q)) \<Longrightarrow> created_post l r H oc l' H"
  by (auto simp: created_post_def same_state_def intro!: exI [of _ 0])

lemma created_post_error: "layout_wf l' \<Longrightarrow> same_state l l' \<Longrightarrow> created_post l r H (Returned (Inl e)) l' H"
  by (rule created_post_same) simp_all

lemma created_post_from:
  assumes "same_state l l1" and "created_post l1 r H oc l' H'"
  shows "created_post l r H oc l' H'"
proof -
  have "length (regions_of l1) = length (regions_of l)" using assms(1) by (simp add: same_state_def)
  then have "length (ly_handles l1) = length (ly_handles l)" by (simp add: regions_of_def)
  with assms show ?thesis by (simp add: created_post_def same_state_def same_handles_def) auto
qed

lemma dealloc_pins: "results (\<lambda>ob'. s_pins ob' = s_pins ob) (shm_dealloc ob)"
  unfolding shm_dealloc_def
  by (auto simp: results_def run_bind run_ret posixipc_shmobj_close_def run_if Let_def split: prod.splits if_splits)

lemma drop_region_results:
  "results (\<lambda>H'. (\<forall>r'. r' \<noteq> r \<longrightarrow> H' r' = H r') \<and> s_pins (H' r) = s_pins (H r)) (drop_region hs r H)"
  unfolding drop_region_def by (auto intro!: results_bind [OF dealloc_pins])

lemma bind_created_results:
  assumes wf: "layout_wf l" and ob: "s_pins ob = 0"
  shows "results (\<lambda>(oc, l', H'). oc \<noteq> Undefined \<and> oc \<noteq> Unfinished \<and> created_post l r H oc l' H') (bind_created c M l r H ob)"
  unfolding bind_created_def
proof (rule results_bind [OF layout_bind_all_results [OF wf]], clarify)
  fix oc l1 H1
  assume l1: "layout_wf l1" "same_handles l l1" "ly_sealed l1 = ly_sealed l"
    and p: "bound_prefix (ly_handles l) r (H(r := ob)) oc (ly_handles l1) H1"
  have len: "length (ly_handles l1) = length (ly_handles l)"
    using l1(2) by (metis length_map same_handles_def)
  from p obtain k where k: "H1 = pinned r k (H(r := ob))"
    and cases: "oc = Returned None \<and> k = length (ly_handles l) \<or> (\<exists>e. oc = Returned (Some e)) \<and> k < length (ly_handles l)"
    and reg: "map (handle_region_of \<circ> snd) (ly_handles l1) = replicate k (Some r) @ map (handle_region_of \<circ> snd) (drop k (ly_handles l))"
    by (auto simp: bound_prefix_def)
  have other: "\<forall>r'. r' \<noteq> r \<longrightarrow> H1 r' = H r'" and pins: "s_pins (H1 r) = word_of_nat k" using k ob by (simp_all add: pinned_def)
  show "results (\<lambda>(oc, l', H'). oc \<noteq> Undefined \<and> oc \<noteq> Unfinished \<and> created_post l r H oc l' H')
    (case oc of Undefined \<Rightarrow> ret (Undefined, l1, H1) | Unfinished \<Rightarrow> ret (Unfinished, l1, H1)
     | Returned (Some e) \<Rightarrow> drop_region (ly_handles l1) r H1 \<bind> (\<lambda>H. ret (Returned (Inl e), l1, H))
     | Returned None \<Rightarrow> ret (Returned (Inr r), l1\<lparr>ly_sealed := True\<rparr>, H1))"
  proof (cases "oc = Returned None")
    case True
    have "handle_region_of (snd x) = Some r" if "x \<in> set (ly_handles l1)" for x
    proof -
      have "handle_region_of (snd x) \<in> set (map (handle_region_of \<circ> snd) (ly_handles l1))" using that by auto
      then show ?thesis unfolding reg using True cases by (auto split: if_splits)
    qed
    moreover have "layout_wf (l1\<lparr>ly_sealed := True\<rparr>)" "same_handles l (l1\<lparr>ly_sealed := True\<rparr>)"
      using l1 by (simp_all add: layout_wf_def same_handles_def)
    ultimately show ?thesis using True cases other pins len by (auto simp: created_post_def list_all_iff)
  next
    case False
    with cases obtain e where e: "oc = Returned (Some e)" "k < length (ly_handles l)" by blast
    have "regions_of l1 = replicate k (Some r) @ drop k (regions_of l)" using reg by (simp add: regions_of_def drop_map)
    with e show ?thesis
      using other pins l1 by (auto simp: created_post_def intro!: results_bind [OF drop_region_results] exI [of _ k])
  qed
qed


lemma same_handles_refl [simp]: "same_handles l l"
  by (simp add: same_handles_def)

lemma same_state_refl [simp]: "same_state l l"
  by (simp add: same_state_def)

lemma same_handles_trans: "same_handles l l1 \<Longrightarrow> same_handles l1 l2 \<Longrightarrow> same_handles l l2"
  by (simp add: same_handles_def)

lemma from_core_results: "results (\<lambda>x. \<forall>ob. x = Inr ob \<longrightarrow> s_pins ob = 0) (posixipc_shmobj_from_core core b)"
  by (auto simp: posixipc_shmobj_from_core_def results_def run_bind run_ret split: prod.splits)

text \<open>The synchronisation and the build every constructor begins with.\<close>

lemma sync_build_then:
  assumes wf: "layout_wf l"
    and fail: "\<And>x l1. layout_wf l1 \<Longrightarrow> same_state l l1 \<Longrightarrow> results P (fail x l1)"
    and ok: "\<And>l1 e. layout_wf l1 \<Longrightarrow> same_state l l1 \<Longrightarrow> results P (k l1 e)"
  shows "results P (layout_sync c l \<bind> (\<lambda>(e, l1). case e of Some x \<Rightarrow> fail x l1 | None \<Rightarrow>
     case layout_build_of c l1 of (rc, l2, expect) \<Rightarrow> if rc \<noteq> 0 then fail (raise_err rc) l2 else k l2 expect))"
proof (rule results_bind [OF sync_same_state [OF wf]], clarify)
  fix e l1
  assume l1: "layout_wf l1" "same_state l l1"
  obtain rc l2 x where b: "layout_build_of c l1 = (rc, l2, x)" by (metis prod_cases3)
  have "layout_wf l2" "same_state l l2" using layout_build_of_wf [OF l1(1) b] l1(2) by (simp_all add: same_state_def same_handles_def regions_of_def)
  then show "results P (case e of Some x \<Rightarrow> fail x l1 | None \<Rightarrow>
      case layout_build_of c l1 of (rc, l2, expect) \<Rightarrow> if rc \<noteq> 0 then fail (raise_err rc) l2 else k l2 expect)"
    using fail ok l1 b by (cases e) simp_all
qed

text \<open>Binding a layout that differs from \<open>l\<close> only in what building writes.\<close>

lemma bind_created_then:
  assumes "layout_wf l1" and "same_state l l1" and "s_pins ob = 0"
    and "\<And>oc l' H'. oc \<noteq> Undefined \<Longrightarrow> oc \<noteq> Unfinished \<Longrightarrow> created_post l r H oc l' H' \<Longrightarrow> P (f oc l' H')"
  shows "results P (bind_created c M l1 r H ob \<bind> (\<lambda>(oc, l', H'). ret (f oc l' H')))"
  by (rule results_bind [OF bind_created_results [OF assms(1,3)]])
    (auto intro!: assms(4) created_post_from [OF assms(2)])

lemma object_then:
  assumes "layout_wf l1" and "same_state l l1"
  shows "results (\<lambda>(oc, l', M', H'). oc \<noteq> Undefined \<and> oc \<noteq> Unfinished \<and> created_post l r H oc l' H')
    (posixipc_shmobj_from_core core b \<bind> (\<lambda>ob. case ob of
       Inl x \<Rightarrow> u \<bind> (\<lambda>_. ret (Returned (Inl x), l1, M, H))
     | Inr ob \<Rightarrow> bind_created c M l1 r H ob \<bind> (\<lambda>(oc, l, H). ret (oc, l, M, H))))"
proof (rule results_bind [OF from_core_results])
  fix x :: "PosixIPCSharedMemoryObject pyres"
  assume "\<forall>ob. x = Inr ob \<longrightarrow> s_pins ob = 0"
  then show "results (\<lambda>(oc, l', M', H'). oc \<noteq> Undefined \<and> oc \<noteq> Unfinished \<and> created_post l r H oc l' H') (case x of
       Inl x \<Rightarrow> u \<bind> (\<lambda>_. ret (Returned (Inl x), l1, M, H))
     | Inr ob \<Rightarrow> bind_created c M l1 r H ob \<bind> (\<lambda>(oc, l, H). ret (oc, l, M, H)))"
    using assms by (cases x) (auto simp: created_post_error intro!: results_skip [where m = u] bind_created_then)
qed

lemma layout_create_results:
  assumes wf: "layout_wf l"
  shows "results (\<lambda>(oc, l', M', H'). oc \<noteq> Undefined \<and> oc \<noteq> Unfinished \<and> created_post l r H oc l' H') (layout_create c l name r M H)"
  unfolding layout_create_def
  apply (rule results_skip)
  subgoal for st
    apply (cases st)
     apply (simp_all only: option.case results_ret)
     apply (rule results_call, rule results_if)
      apply (simp add: created_post_error wf)
     apply (rule sync_build_then [OF wf])
      apply (simp add: created_post_error)
     apply (rule results_skip2, rule results_if, simp add: created_post_error)
     apply (rule results_skip2)
    subgoal for a l1 e rc core ea M1
      by (cases ea) (simp_all only: option.case object_then, simp add: created_post_error)
    apply (simp add: created_post_error wf)
    done
  done

lemma layout_open_or_create_results:
  assumes wf: "layout_wf l"
  shows "results (\<lambda>(oc, l', M', H'). created_post l r H oc l' H') (layout_open_or_create c fl fuel l name tobj r M H)"
proof -
  have e: "created_post l r H oc l1 H" if "layout_wf l1" "same_state l l1" "\<forall>q. oc \<noteq> Returned (Inr q)" for oc l1
    using that by (rule created_post_same)
  show ?thesis
    unfolding layout_open_or_create_def Let_def
    apply (rule results_skip)
    subgoal for st
      apply (cases st)
       apply (simp_all only: option.case results_ret)
       apply (rule results_call, rule results_if)
        apply (simp add: created_post_error wf)
       apply (rule sync_build_then [OF wf])
        apply (simp add: created_post_error)
       apply (rule results_skip)
      subgoal for a l1 ex d
        apply (cases d)
          apply (simp_all add: e)
        subgoal for x
          apply (cases x)
           apply (simp_all add: e)
          apply (rule results_skip)
          subgoal for dlp y
            apply (cases y)
             apply (simp_all add: e split: prod.split)
            apply (intro allI impI results_call results_skip2)
            subgoal for \<dots> ea M1
              apply (cases ea)
               apply (simp_all only: option.case)
               apply (rule results_mono [OF object_then])
                 apply (auto simp: e)
              done
            done
          done
        done
      apply (simp add: created_post_error wf)
      done
    done
qed

lemma layout_attach_results:
  assumes wf: "layout_wf l"
  shows "results (\<lambda>(oc, l', H'). created_post l r H oc l' H') (layout_attach c fl fuel l name tobj r M H)"
proof -
  have e: "created_post l r H oc l1 H" if "layout_wf l1" "same_state l l1" "\<forall>q. oc \<noteq> Returned (Inr q)" for oc l1
    using that by (rule created_post_same)
  have b: "results (\<lambda>(oc, l', H'). created_post l r H oc l' H') (bind_created c M l1 r H ob)"
    if "layout_wf l1" "same_state l l1" "s_pins ob = 0" for l1 ob
    by (rule results_mono [OF bind_created_results [OF that(1,3)]])
      (auto intro!: created_post_from [OF that(2)])
  show ?thesis
    unfolding layout_attach_def
    apply (rule results_skip)
    subgoal for st
      apply (cases st)
       apply (simp_all only: option.case results_ret)
       apply (rule results_call, rule results_if)
        apply (simp add: created_post_error wf)
       apply (rule sync_build_then [OF wf])
        apply (simp add: created_post_error)
       apply (rule results_skip)
      subgoal for a l1 ex d
        apply (cases d)
          apply (simp_all add: e)
        subgoal for x
          apply (cases x)
           apply (simp_all add: e)
          apply (rule results_skip)
          subgoal for dlp y
            apply (cases y)
             apply (simp_all add: e split: prod.split)
            apply (intro allI impI)
            apply (rule results_bind [OF from_core_results])
            subgoal for \<dots> ob by (cases ob) (simp_all add: e b)
            done
          done
        done
      apply (simp add: created_post_error wf)
      done
    done
qed

lemma layout_get_slots_results:
  assumes wf: "layout_wf l"
  shows "results (\<lambda>(x, l'). layout_wf l' \<and> same_handles l l') (layout_get_slots c l)"
  unfolding layout_get_slots_def
  apply (rule results_skip)
  apply (rule results_bind [OF layout_sync_results [OF wf]], clarify)
  subgoal for st e l1 by (cases e) (auto intro!: results_call results_skip [where m = "slot_tuples ss" for ss])
  done

lemma layout_get_digest_results:
  assumes wf: "layout_wf l"
  shows "results (\<lambda>(x, l'). layout_wf l' \<and> same_handles l l') (layout_get_digest c l)"
proof -
  obtain rc l1 e where b: "layout_build_of c l = (rc, l1, e)" by (metis prod_cases3)
  then have "layout_wf l1" "same_handles l l1" using layout_build_of_wf [OF wf b] by (simp_all add: same_handles_def)
  then show ?thesis
    unfolding layout_get_digest_def by (auto simp: b intro!: results_skip)
qed

section \<open>The layouts a program can have\<close>

text \<open>Every object of the program, whatever the arguments, the other processes and the environment.\<close>

inductive layout_reachable :: "config \<Rightarrow> PosixIPCLayoutObject \<Rightarrow> bool" for c where
  new: "run (layout_init None) w = ((None, Some l), w') \<Longrightarrow> layout_reachable c l"
| add: "layout_reachable c l \<Longrightarrow> run (layout_add c l p storage kind args) w = ((x, l'), w') \<Longrightarrow> layout_reachable c l'"
| add_bytes: "layout_reachable c l \<Longrightarrow> run (layout_add_bytes c l p sz) w = ((x, l'), w') \<Longrightarrow> layout_reachable c l'"
| add_array: "layout_reachable c l \<Longrightarrow> run (layout_add_array c l p kind count args) w = ((x, l'), w') \<Longrightarrow> layout_reachable c l'"
| get_slots: "layout_reachable c l \<Longrightarrow> run (layout_get_slots c l) w = ((ss, l'), w') \<Longrightarrow> layout_reachable c l'"
| get_digest: "layout_reachable c l \<Longrightarrow> run (layout_get_digest c l) w = ((n, l'), w') \<Longrightarrow> layout_reachable c l'"
| create: "layout_reachable c l \<Longrightarrow> run (layout_create c l name r M H) w = ((oc, l', M', H'), w') \<Longrightarrow> layout_reachable c l'"
| attach: "layout_reachable c l \<Longrightarrow> run (layout_attach c fl fuel l name tobj r M H) w = ((oc, l', H'), w') \<Longrightarrow> layout_reachable c l'"
| open_or_create: "layout_reachable c l \<Longrightarrow> run (layout_open_or_create c fl fuel l name tobj r M H) w = ((oc, l', M', H'), w') \<Longrightarrow>
    layout_reachable c l'"

lemma layout_reachable_wf: "layout_reachable c l \<Longrightarrow> layout_wf l"
proof (induction rule: layout_reachable.induct)
  case (new w l w')
  then show ?case by (auto simp: layout_init_def layout_wf_def io_simps split: if_splits)
next
  case (add l p storage kind args w x l' w')
  then show ?case using results_run [OF layout_add_added] by (force simp: added_def)
next
  case (add_bytes l p sz w x l' w')
  then show ?case using results_run [OF layout_add_bytes_added] by (force simp: added_def)
next
  case (add_array l p kind count args w x l' w')
  then show ?case using results_run [OF layout_add_array_added] by (force simp: added_def)
next
  case (get_slots l w ss l' w')
  then show ?case using results_run [OF layout_get_slots_results] by force
next
  case (get_digest l w n l' w')
  then show ?case using results_run [OF layout_get_digest_results] by force
next
  case (create l name r M H w oc l' M' H' w')
  then show ?case using results_run [OF layout_create_results] by (force simp: created_post_def)
next
  case (attach l fl fuel name tobj r M H w oc l' H' w')
  then show ?case using results_run [OF layout_attach_results] by (force simp: created_post_def)
next
  case (open_or_create l fl fuel name tobj r M H w oc l' M' H' w')
  then show ?case using results_run [OF layout_open_or_create_results] by (force simp: created_post_def)
qed

section \<open>Properties of layouts\<close>

text \<open>
  C5. Whatever a program does with a layout, and however the calls end, its handles tile the slots: they follow each other without gap or
  overlap in the order they were added, every slot in use has the kind of its handle, and the slot array is large enough.
  Synchronising therefore never raises the error for an invalid slot; it fails only when the segment would be too large.
\<close>

theorem layout_handles_tile:
  assumes "layout_reachable c l" and "run (layout_sync c l) w = ((e, l'), w')"
  shows "layout_wf l \<and> layout_wf l' \<and> (e = None \<or> (\<exists>rc. rc \<noteq> 0 \<and> e = Some (raise_err rc)))"
  using layout_reachable_wf [OF assms(1)] results_run [OF layout_sync_results [OF layout_reachable_wf [OF assms(1)]] assms(2)] by auto

text \<open>
  C6. Adding is all or nothing, for each of the three ways to add: on success the layout has one handle more, the one returned, at the
  end of the list; a call that raises, at whatever point, leaves the handles and the number of slots as they were. Either way the
  layout stays well-formed.
\<close>

theorem layout_add_all_or_nothing:
  assumes "layout_reachable c l"
    and "run (layout_add c l p storage kind args) w = ((x, l'), w') \<or> run (layout_add_bytes c l p sz) w = ((x, l'), w') \<or>
         run (layout_add_array c l p kind count args) w = ((x, l'), w')"
  shows "layout_wf l' \<and> ly_sealed l' = ly_sealed l \<and>
         (case x of
            Inl _ \<Rightarrow> ly_handles l' = ly_handles l \<and> ly_nslots l' = ly_nslots l
          | Inr q \<Rightarrow> q = p \<and> map fst (ly_handles l') = map fst (ly_handles l) @ [p])"
proof -
  note wf = layout_reachable_wf [OF assms(1)]
  have "added l p (x, l')"
    using assms(2) results_run [OF layout_add_added [OF wf, of p c storage kind args], of w] results_run [OF layout_add_bytes_added [OF wf, of p c sz], of w]
      results_run [OF layout_add_array_added [OF wf, of p c kind count args], of w] by auto
  then show ?thesis by (auto simp: added_def split: sum.splits)
qed

text \<open>
  C7. Creating a segment for a layout never reads outside its slots and, once its system calls are answered, returns. When it (or attaching, or open-or-create)
  succeeds, every handle is bound to the new segment object, which is pinned once for each of them, the layout is sealed and
  no other segment object has changed. When it fails no other segment object has changed either, the handles keep their slots, the
  layout is not sealed by the call, and a prefix of the handles, not all of them, is bound to the new segment object, which has one pin for each
  of these, while the others are bound as before; the prefix is empty when the failure came before the binding.
\<close>

theorem layout_create_binds_all:
  assumes "layout_reachable c l"
  shows "(run (layout_create c l name r M H) w = ((oc, l', M', H'), w') \<longrightarrow>
            oc \<noteq> Undefined \<and> oc \<noteq> Unfinished \<and> created_post l r H oc l' H') \<and>
         (run (layout_open_or_create c fl fuel l name tobj r M H) w = ((oc, l', M', H'), w') \<longrightarrow> created_post l r H oc l' H') \<and>
         (run (layout_attach c fl fuel l name tobj r M H) w = ((oc, l', H'), w') \<longrightarrow> created_post l r H oc l' H')"
proof -
  note wf = layout_reachable_wf [OF assms]
  show ?thesis
    using results_run [OF layout_create_results [OF wf, of r H c name M], of w]
      results_run [OF layout_open_or_create_results [OF wf, of r H c fl fuel name tobj M], of w]
      results_run [OF layout_attach_results [OF wf, of r H c fl fuel name tobj M], of w]
    by fastforce
qed

definition no_args :: add_args where
  "no_args = \<lparr>aa_on_owner_died = None, aa_prio_inherit = False, aa_process_shared = True, aa_mutex = No_mutex, aa_value = 1,
     aa_parties = - 1, aa_depth = - 1, aa_item_size = - 1\<rparr>"

definition layout0 :: PosixIPCLayoutObject where
  "layout0 = \<lparr>ly_handles = [], ly_slots = [], ly_nslots = 0, ly_cap = 0, ly_sealed = False\<rparr>"

lemma layout0_reachable: "layout_reachable c layout0"
  by (rule layout_reachable.new [of py_world _ "snd (run (layout_init None) py_world)"])
    (simp add: layout_init_def layout0_def io_simps answer_to_py answer0_def)

text \<open>One mutex in a layout, not bound (\<^const>\<open>None\<close>) or bound to the segment object at an address.\<close>

definition one_mutex :: "addr option \<Rightarrow> PosixIPCLayoutObject" where
  "one_mutex r = \<lparr>ly_handles = [(7, LMutex \<lparr>m_lock = (if r = None then None else Some 80), m_region = r, m_slot = 0, m_kind = KIND_MUTEX,
       m_align = 8, m_offset = 80, m_size = 64, m_init_flags = 2, m_flags = (if r = None then 2 else 18), m_locked = False,
       m_inline_storage = 70, m_on_owner_died = None\<rparr>)],
     ly_slots = \<lparr>s_kind = KIND_MUTEX, s_align = 8, s_offset = 80, s_size = 64, s_init_flags = 2\<rparr> # replicate 3 slot_zero,
     ly_nslots = 1, ly_cap = 4, ly_sealed = (r \<noteq> None)\<rparr>"

lemma layout0_add:
  "\<exists>w'. run (layout_add glibc_x86_64 layout0 7 70 K_Mutex no_args) py_world = ((Inr 7, one_mutex None), w')"
  by (simp add: layout_add_def layout_reserve_def layout_ensure_def grow_cap.simps add_slot_kind_def owner_died_arg_def given_def
      no_args_def layout0_def add_single_def made_def posixipc_mutex_new_unbound_def layout_commit_def commit_slots_def layout_sync_def
      layout_build_of_def posixipc_layout_build_def put_slots_def mutex_slot_of_def slot_zero_def layout_step_def posixipc_kind_align_def
      posixipc_kind_size_def layout_align_up_def glibc_x86_64_def posixipc_state_from_obj_def posixipc_state_from_type_def
      not_a_kind_def mutex_flags_def io_simps Let_def answer_to_py answer0_def word_le_nat_alt word_less_nat_alt one_mutex_def)

lemma one_mutex_reachable: "layout_reachable glibc_x86_64 (one_mutex None)"
  using layout0_add layout_reachable.add [OF layout0_reachable] by blast

fun layout_answer :: "syscall \<Rightarrow> answer" where
  "layout_answer (Py (ParseTuple f)) = answer0\<lparr>a_ret := 1\<rparr>"
| "layout_answer (Mem (Load_header p)) = answer0\<lparr>a_hdr := (a_hdr answer0)\<lparr>h_total_size := 144, h_directory_bytes := 16\<rparr>\<rparr>"
| "layout_answer c = answer0"

definition layout_world :: world where
  "layout_world = \<lparr>env = \<lambda>h. layout_answer, trace = []\<rparr>"

lemma answer_to_layout: "env w = env layout_world \<Longrightarrow> answer_to w c = layout_answer c"
  by (simp add: answer_to_def layout_world_def)

definition one_segment :: PosixIPCSharedMemoryObject where
  "one_segment = \<lparr>s_core = \<lparr>sh_map = Some 0, sh_map_len = 144, sh_hdr = Some 0, sh_name = Some (0, ''/q'')\<rparr>, s_pins = 1, s_flags = 0,
     s_created = True\<rparr>"

lemma create_one:
  "\<exists>w'. run (layout_create glibc_x86_64 (one_mutex r0) ''/q'' r M H) layout_world = ((Returned (Inr r), one_mutex (Some r), M, H(r := one_segment)), w')"
  by (simp add: layout_create_def one_mutex_def one_segment_def layout_sync_def layout_build_of_def posixipc_layout_build_def layout_step_def
      posixipc_kind_align_def posixipc_kind_size_def layout_align_up_def glibc_x86_64_def posixipc_state_from_obj_def
      posixipc_state_from_type_def posixipc_shm_create_def posixipc_shm_validate_name_def
      posixipc_shm_stat_permitted_def create_mapped_def write_directory_def dup_name_def init_created_def layout_init_primitives_def
      core_ptr_def region_ptr_def posixipc_shm_offset_ptr_def init_slot_def posixipc_mutex_init_def step_if_def
      layout_init_queue_ctrls_def posixipc_shm_publish_def posixipc_shmobj_from_core_def bind_created_def layout_bind_all_def
      bound_as_def posixipc_mutex_bind_def run_pin_region shm_is_closed_def flag_set_def io_simps Let_def answer_to_layout answer0_def
      word_le_nat_alt word_less_nat_alt)

theorem layout_handles_tile_witness:
  "\<exists>e l' w'. run (layout_sync glibc_x86_64 (one_mutex None)) py_world = ((e, l'), w') \<and> layout_wf l' \<and> tiles 0 (ly_handles (one_mutex None)) 1"
proof -
  obtain e l' w' where r: "run (layout_sync glibc_x86_64 (one_mutex None)) py_world = ((e, l'), w')" by (metis surj_pair)
  from layout_handles_tile [OF one_mutex_reachable r] r show ?thesis by (auto simp: layout_wf_def one_mutex_def)
qed

theorem layout_add_all_or_nothing_witness:
  "\<exists>l' w'. run (layout_add glibc_x86_64 layout0 7 70 K_Mutex no_args) py_world = ((Inr 7, l'), w') \<and> map fst (ly_handles l') = [7]"
proof -
  obtain w' where r: "run (layout_add glibc_x86_64 layout0 7 70 K_Mutex no_args) py_world = ((Inr 7, one_mutex None), w')"
    using layout0_add by blast
  from layout_add_all_or_nothing [OF layout0_reachable, of glibc_x86_64 7 70 K_Mutex no_args py_world "Inr 7" "one_mutex None" w' 0 0] r
  show ?thesis by (auto simp: layout0_def)
qed

theorem layout_create_binds_all_witness:
  "\<exists>l' M H' w'. run (layout_create glibc_x86_64 (one_mutex None) ''/q'' 5 (\<lambda>_. demo_ring0) demo_regions) layout_world = ((Returned (Inr 5), l', M, H'), w') \<and>
     s_pins (H' 5) = 1 \<and> ly_sealed l'"
proof -
  obtain w' where r: "run (layout_create glibc_x86_64 (one_mutex None) ''/q'' 5 (\<lambda>_. demo_ring0) demo_regions) layout_world =
      ((Returned (Inr 5), one_mutex (Some 5), (\<lambda>_. demo_ring0), demo_regions(5 := one_segment)), w')" using create_one by blast
  from layout_create_binds_all [OF one_mutex_reachable, of "''/q''" 5 "\<lambda>_. demo_ring0" demo_regions layout_world "Returned (Inr 5)" "one_mutex (Some 5)" "\<lambda>_. demo_ring0"
      "demo_regions(5 := one_segment)" w' id 0 None] r
  show ?thesis by (auto simp: created_post_def one_mutex_def)
qed

text \<open>The \<^verbatim>\<open>close\<close> method of a handle of any type, and of every handle of a list.\<close>

fun handle_close :: "config \<Rightarrow> layout_handle \<Rightarrow> regions \<Rightarrow> regions io" where
  "handle_close c (LArray a) H = do { (_, H) \<leftarrow> array_close a H; ret H }"
| "handle_close c (LMutex m) H = do { (_, _, H) \<leftarrow> mutex_close m H; ret H }"
| "handle_close c (LBytes b) H = ret (snd (bytes_close b H))"
| "handle_close c (LRWLock ob) H = do { (_, H) \<leftarrow> rwlock_close ob H; ret H }"
| "handle_close c (LCond ob) H = do { (_, H) \<leftarrow> cond_close ob H; ret H }"
| "handle_close c (LSem ob) H = do { (_, H) \<leftarrow> semobj_close ob H; ret H }"
| "handle_close c (LBarrier ob) H = do { (_, H) \<leftarrow> bar_close c ob H; ret H }"
| "handle_close c (LSpin ob) H = do { (_, H) \<leftarrow> spin_close c ob H; ret H }"
| "handle_close c (LQueue q) H = ret (snd (queue_close q H))"
| "handle_close c (LFutexQueue q) H = ret (snd (fq_close q H))"
| "handle_close c LOther H = ret H"

fun close_handles :: "config \<Rightarrow> (addr \<times> layout_handle) list \<Rightarrow> regions \<Rightarrow> regions io" where
  "close_handles c [] H = ret H"
| "close_handles c ((p, h) # hs) H = do { H \<leftarrow> handle_close c h H; close_handles c hs H }"

lemma handle_close_results:
  assumes "handle_region_of h \<noteq> Some a"
  shows "results (\<lambda>H'. H' a = H a) (handle_close c h H)"
proof -
  have u: "unpin_region H r a = H a" if "r \<noteq> a" for r using that by (simp add: unpin_region_def)
  have e: "snd (close_handle ob H) a = H a" if "x_region ob \<noteq> Some a" for ob :: "'b handle_scheme"
    using that by (auto simp: close_handle_def u split: option.splits)
  show ?thesis
    using assms
    by (cases h) (auto simp: results_def run_bind run_ret run_if array_close_def mutex_close_def bytes_close_def rwlock_close_def cond_close_def
        semobj_close_def bar_close_def spin_close_def queue_close_def fq_close_def Let_def u
        dest!: e split: prod.splits option.splits if_splits)
qed

lemma close_handles_results:
  assumes "list_all (\<lambda>(p, h). handle_region_of h \<noteq> Some a) hs"
  shows "results (\<lambda>H'. H' a = H a) (close_handles c hs H)"
  using assms
proof (induction hs arbitrary: H)
  case (Cons ph hs)
  obtain p h where ph: "ph = (p, h)" by fastforce
  show ?case
    unfolding ph close_handles.simps
    by (rule results_bind [OF handle_close_results [of h a H c]]) (use Cons ph in \<open>auto simp: results_def\<close>)
qed simp

text \<open>
  C19. Creating a second time is not refused: it binds all handles to the second segment and never takes back the pins of the first.
  No handle refers to the first segment object any more, and also after every handle of the layout has been closed its pins are what they
  were, so that \<^verbatim>\<open>close\<close> on it raises \<^verbatim>\<open>BufferError\<close>; only the forced close when that object is deallocated unmaps it.
\<close>

theorem layout_second_create_leaks:
  assumes "layout_reachable c l" and "list_all (\<lambda>(p, h). handle_region_of h = Some r1) (ly_handles l)" and "ly_handles l \<noteq> []"
    and "s_pins (H r1) = word_of_nat (length (ly_handles l))" and "\<not> shm_is_closed (H r1)" and "r2 \<noteq> r1"
    and "run (layout_create c l name r2 M H) w = ((Returned (Inr q), l', M', H'), w')"
    and "run (close_handles c (ly_handles l') H') w1 = (H2, w2)"
  shows "list_all (\<lambda>(p, h). handle_region_of h = Some r2) (ly_handles l') \<and> H' r1 = H r1 \<and> H2 r1 = H r1 \<and>
         fst (fst (run (shm_close (H' r1)) w3)) = Inl BufferError \<and> fst (fst (run (shm_close (H2 r1)) w3)) = Inl BufferError"
proof -
  note wf = layout_reachable_wf [OF assms(1)]
  from results_run [OF layout_create_results [OF wf] assms(7)]
  have p: "created_post l r2 H (Returned (Inr q)) l' H'" by simp
  then have same: "H' r1 = H r1" and b: "list_all (\<lambda>(p, h). handle_region_of h = Some r2) (ly_handles l')"
    using assms(6) by (auto simp: created_post_def)
  have "list_all (\<lambda>(p, h). handle_region_of h \<noteq> Some r1) (ly_handles l')" using b assms(6) by (auto simp: list_all_iff)
  from results_run [OF close_handles_results [OF this] assms(8)] have same2: "H2 r1 = H r1" using same by simp
  have t: "tiles 0 (ly_handles l) (unat (ly_nslots l))" using wf by (simp add: layout_wf_def)
  have "length (ly_handles l) < 65536"
    using tiles_length [OF t] tiles_length_le [OF t] unat_u16_less [of "ly_nslots l"] by simp
  then have "s_pins (H r1) > 0" using assms(3,4) by (simp add: word_less_nat_alt)
  then have "fst (fst (run (shm_close (H r1)) w3)) = Inl BufferError"
    using assms(5) by (auto simp: shm_close_def posixipc_shmobj_close_def shm_is_closed_def run_bind run_ret Let_def split: prod.split)
  with same same2 b show ?thesis by simp
qed

theorem layout_second_create_leaks_witness:
  "\<exists>l' M H' w'. run (layout_create glibc_x86_64 (one_mutex (Some 5)) ''/q'' 6 (\<lambda>_. demo_ring0) (demo_regions(5 := one_segment))) layout_world =
     ((Returned (Inr 6), l', M, H'), w') \<and>
     fst (fst (run (shm_close (fst (run (close_handles glibc_x86_64 (ly_handles l') H') w') 5)) py_world)) = Inl BufferError"
proof -
  let ?H = "demo_regions(5 := one_segment)" and ?M = "\<lambda>_. demo_ring0"
  obtain w1 where "run (layout_create glibc_x86_64 (one_mutex None) ''/q'' 5 ?M demo_regions) layout_world =
      ((Returned (Inr 5), one_mutex (Some 5), ?M, ?H), w1)" using create_one by blast
  from layout_reachable.create [OF one_mutex_reachable this] have lr: "layout_reachable glibc_x86_64 (one_mutex (Some 5))" .
  obtain w2 where r: "run (layout_create glibc_x86_64 (one_mutex (Some 5)) ''/q'' 6 ?M ?H) layout_world =
      ((Returned (Inr 6), one_mutex (Some 6), ?M, ?H(6 := one_segment)), w2)" using create_one by blast
  obtain H2 w3 where cl: "run (close_handles glibc_x86_64 (ly_handles (one_mutex (Some 6))) (?H(6 := one_segment))) w2 = (H2, w3)" by fastforce
  have "fst (fst (run (shm_close (H2 5)) py_world)) = Inl BufferError"
    using layout_second_create_leaks [OF lr _ _ _ _ _ r cl, of 5 py_world]
    by (simp add: one_mutex_def one_segment_def shm_is_closed_def flag_set_def)
  then have "fst (fst (run (shm_close (fst (run (close_handles glibc_x86_64 (ly_handles (one_mutex (Some 6))) (?H(6 := one_segment))) w2) 5)) py_world)) =
      Inl BufferError" unfolding cl by simp
  with r show ?thesis by blast
qed

end
