(* ===== verification/Pickle.thy ===== *)
theory Pickle
  imports LayoutInv
begin

text \<open>
  Handles rebuilt from a pickle in another process (the module functions at the end of \<^verbatim>\<open>src/src/bindings/py_layout.c\<close>, together with
  the \<^verbatim>\<open>__reduce__\<close> methods of the handles): the rebuilt handle covers the slots of the pickled one, is bound to the segment
  the function attached to and holds its only pins; the check of the position overflows for positions at the end of the 32-bit range;
  the digest a program computes from the slots it can see is the digest of the layout.
\<close>

section \<open>Rebuilding a handle\<close>

text \<open>Depth and item size of a ring; binding changes neither.\<close>

fun ring_shape :: "layout_handle \<Rightarrow> (bool \<times> u32 \<times> u32) option" where
  "ring_shape (LQueue q) = Some (True, qo_depth q, qo_item_size q)"
| "ring_shape (LFutexQueue q) = Some (False, fo_depth q, fo_item_size q)"
| "ring_shape h = None"

lemma bound_as_shape:
  "results (\<lambda>(e, ob, H'). ring_shape (con ob) = s) m \<Longrightarrow> results (\<lambda>(oc, h', H'). ring_shape h' = s) (bound_as con m)"
  unfolding bound_as_def by (erule results_bind) auto

lemma results_any3 [simp]: "results (\<lambda>(a, b, d). True) m"
  by (simp add: results_def split_beta)

lemma pointers_shape:
  "results (\<lambda>(e, q'). qo_depth q' = qo_depth q \<and> qo_item_size q' = qo_item_size q) (queue_pointers c q ob slots first m)"
  "results (\<lambda>(e, q'). fo_depth q' = fo_depth f \<and> fo_item_size q' = fo_item_size f) (fq_pointers c f ob slots first m)"
  unfolding queue_pointers_def fq_pointers_def bind_ptr_def
  by (auto simp: Let_def intro!: results_skip [where m = "region_ptr ob a b d" for ob a b d] split: prod.split)

lemma bind_shape: "results (\<lambda>(oc, h', H'). ring_shape h' = ring_shape h) (bind_handle c M slots r h H)"
proof (cases h)
  case (LQueue q)
  show ?thesis
    unfolding LQueue bind_handle.simps posixipc_queue_bind_def
    apply (rule bound_as_shape, rule results_skip)
    subgoal for st
      apply (cases st)
       apply (simp_all only: option.case results_ret prod.case)
      apply (rule results_if, simp)
      apply (rule results_bind2 [OF pointers_shape(1)])
      subgoal for e q' by (cases e) (auto intro!: results_skip2 split: option.split)
      done
    done
next
  case (LFutexQueue q)
  show ?thesis
    unfolding LFutexQueue bind_handle.simps posixipc_futexq_bind_def
    apply (rule bound_as_shape, rule results_skip)
    subgoal for st
      apply (cases st)
       apply (simp_all only: option.case results_ret prod.case)
      apply (rule results_if, simp)
      apply (rule results_bind2 [OF pointers_shape(2)])
      subgoal for e q' by (cases e) (auto intro!: results_skip2 split: option.split)
      done
    done
qed (auto simp: split_beta intro!: bound_as_shape results_skip)

text \<open>A successful binding: one pin, the segment remembered, slots and kinds as they were.\<close>

definition bound_ok :: "layout_handle \<Rightarrow> addr \<Rightarrow> regions \<Rightarrow> pyexc option outcome \<times> layout_handle \<times> regions \<Rightarrow> bool" where
  "bound_ok h r H = (\<lambda>(oc, h', H'). oc = Returned None \<longrightarrow> layout_handle_span h' = layout_handle_span h \<and> handle_kinds h' = handle_kinds h \<and>
     ring_shape h' = ring_shape h \<and> handle_region_of h' = Some r \<and> H' = pinned r 1 H)"

lemma results_conj: "results P m \<Longrightarrow> results Q m \<Longrightarrow> results (\<lambda>x. P x \<and> Q x) m"
  by (simp add: results_def)

lemma bind_post_ok:
  "bind_post h i r H x \<Longrightarrow> ring_shape (fst (snd x)) = ring_shape h \<Longrightarrow> covers h i (length (handle_kinds h)) \<Longrightarrow> bound_ok h r H x"
  by (cases x) (auto simp: bind_post_def bound_ok_def covers_def)

lemma bind_array_ok: "results (bound_ok (LArray a) r H) (bind_handle c M slots r (LArray a) H)"
  unfolding bind_handle.simps
  apply (rule results_bind [where Q = "\<lambda>(oc, a', H'). bound_ok (LArray a) r H (oc, LArray a', H')"])
   apply (unfold posixipc_mutexarray_bind_def Let_def)
   apply (rule results_skip)
  subgoal for st
    apply (cases st)
     apply (simp_all add: bound_ok_def)
    apply (intro impI results_call results_if)
     apply simp
    apply (rule results_skip)
    subgoal for m ps
      apply (cases ps)
        apply simp_all
      subgoal for x
        apply (cases x)
         apply (auto intro!: results_skip [where m = "call_ignore s" for s])[1]
        apply simp
        apply (rule results_bind2 [OF pin_region_results])
        subgoal for l e H1 by (cases e) (auto intro!: results_skip)
        done
      done
    done
  apply auto
  done

text \<open>The handle covers the slots it was made for; a mutex needs its slot to have its kind.\<close>

lemma bind_handle_ok:
  assumes "layout_handle_span h = Inr (slot, word_of_nat n)" and "length (handle_kinds h) = n" and "0 < n"
    and "\<And>m. h = LMutex m \<Longrightarrow> s_kind (dir ! unat slot) = m_kind m"
  shows "results (bound_ok h r H) (bind_handle c M dir r h H)"
proof -
  have c: "covers h (unat slot) n" using assms by (simp add: covers_def)
  have ok: "results (bound_ok h r H) (bind_handle c M dir r h H)" if "results (bind_post h (unat slot) r H) (bind_handle c M dir r h H)"
    by (rule results_mono [OF results_conj [OF that bind_shape]]) (use c assms(2) in \<open>auto intro!: bind_post_ok\<close>)
  show ?thesis
  proof (cases h)
    case (LMutex m)
    with assms c show ?thesis by (intro ok) (simp only: LMutex, rule bind_mutex_results, auto)
  next
    case (LArray a)
    then show ?thesis using bind_array_ok by simp
  next
    case (LQueue q)
    show ?thesis using c assms(2) unfolding LQueue by (intro ok [unfolded LQueue] bind_queue_results) (simp add: eval_nat_numeral)
  next
    case (LFutexQueue q)
    show ?thesis using c assms(2) unfolding LFutexQueue by (intro ok [unfolded LFutexQueue] bind_fq_results) (simp add: eval_nat_numeral)
  next
    case LOther
    with assms show ?thesis by simp
  qed (intro ok bind_one_results, use c assms(2) in simp, blast)+
qed

text \<open>The objects made: the handle for the pickled slots first, all bound to the segment at \<open>r\<close>, which has a pin for each of them.\<close>

definition rebuilt ::
    "(layout_handle \<Rightarrow> bool) \<Rightarrow> addr \<Rightarrow> addr \<Rightarrow> regions \<Rightarrow> (addr \<times> layout_handle) list pyres outcome \<times> regions \<Rightarrow> bool" where
  "rebuilt Q p r H = (\<lambda>(oc, H'). \<forall>hs. oc = Returned (Inr hs) \<longrightarrow>
     (\<exists>h rest. hs = (p, h) # rest \<and> Q h \<and> (rest \<noteq> [] \<longrightarrow> handle_kinds h = [KIND_COND])) \<and> list_all (\<lambda>(p, h). handle_region_of h = Some r) hs \<and> H' = pinned r (length hs) H)"

text \<open>What is known of the handle before it is bound and kept by the binding.\<close>

definition handle_for :: "u32 \<Rightarrow> u16 list \<Rightarrow> layout_handle \<Rightarrow> bool" where
  "handle_for slot ks h \<longleftrightarrow> layout_handle_span h = Inr (slot, word_of_nat (length ks)) \<and> handle_kinds h = ks"

lemma rebuilt_no_result [simp]: "rebuilt Q p r H0 (Undefined, H)" "rebuilt Q p r H0 (Unfinished, H)" "rebuilt Q p r H0 (Returned (Inl e), H)"
  by (simp_all add: rebuilt_def)

lemma drop_made_rebuilt: "results (rebuilt Q p r H0) (drop_made c hs r e H)"
  unfolding drop_made_def by (intro results_skip) (simp add: rebuilt_def)

lemma attach_as_rebuilt:
  assumes new: "results (\<lambda>x. \<forall>h. x = Inr h \<longrightarrow> Q h) new" and "\<And>h. Q h \<Longrightarrow> handle_for slot ks h" and "ks \<noteq> []"
    and k: "\<And>m h. Q h \<Longrightarrow> h = LMutex m \<Longrightarrow> s_kind (dir ! unat slot) = m_kind m"
    and keep: "\<And>h oc h' H'. Q h \<Longrightarrow> bound_ok h r H (Returned None, h', H') \<Longrightarrow> Q' h'"
    and held: "list_all (\<lambda>(p, h). handle_region_of h = Some r) held" "H = pinned r (length held) H0" "held \<noteq> [] \<Longrightarrow> ks = [KIND_COND]"
  shows "results (rebuilt Q' p r H0) (attach_as c M dir r p held new H)"
  unfolding attach_as_def
proof (rule results_bind [OF new])
  fix x :: "layout_handle pyres"
  assume q: "\<forall>h. x = Inr h \<longrightarrow> Q h"
  show "results (rebuilt Q' p r H0) (case x of Inl e \<Rightarrow> drop_made c (map snd held) r e H | Inr h \<Rightarrow> bind_handle c M dir r h H \<bind>
      (\<lambda>(oc, h, H). case oc of Undefined \<Rightarrow> ret (Undefined, H) | Unfinished \<Rightarrow> ret (Unfinished, H)
       | Returned (Some e) \<Rightarrow> drop_made c (h # map snd held) r e H | Returned None \<Rightarrow> ret (Returned (Inr ((p, h) # held)), H)))"
  proof (cases x)
    case (Inr h)
    with q have h: "Q h" by simp
    then have f: "layout_handle_span h = Inr (slot, word_of_nat (length ks))" "length (handle_kinds h) = length ks" "0 < length ks"
      using assms(2) [OF h] assms(3) by (simp_all add: handle_for_def)
    have b: "results (bound_ok h r H) (bind_handle c M dir r h H)"
      by (rule bind_handle_ok [OF f]) (use k h in blast)
    show ?thesis
      unfolding Inr sum.case
    proof (rule results_bind [OF b], clarify)
      fix oc h' H'
      assume o: "bound_ok h r H (oc, h', H')"
      show "results (rebuilt Q' p r H0) (case oc of Undefined \<Rightarrow> ret (Undefined, H') | Unfinished \<Rightarrow> ret (Unfinished, H')
       | Returned (Some e) \<Rightarrow> drop_made c (h' # map snd held) r e H' | Returned None \<Rightarrow> ret (Returned (Inr ((p, h') # held)), H'))"
      proof (cases "oc = Returned None")
        case True
        have "Q' h'" using keep [OF h] o True by auto
        moreover have "handle_kinds h' = ks" using o True assms(2) [OF h] by (simp add: bound_ok_def handle_for_def)
        ultimately show ?thesis using True o held by (auto simp: rebuilt_def bound_ok_def)
      next
        case False
        then show ?thesis by (auto simp: drop_made_rebuilt split: outcome.split option.split)
      qed
    qed
  qed (simp add: drop_made_rebuilt)
qed

text \<open>Handles of which only slots and kinds matter.\<close>

lemma attach_as_slot:
  assumes new: "results (\<lambda>x. \<forall>h. x = Inr h \<longrightarrow> layout_handle_span h = Inr (slot, 1) \<and> handle_kinds h = [k]) new"
    and "s_kind (dir ! unat slot) = k"
    and "list_all (\<lambda>(p, h). handle_region_of h = Some r) held" "H = pinned r (length held) H0" "held \<noteq> [] \<Longrightarrow> k = KIND_COND"
  shows "results (rebuilt (handle_for slot [k]) p r H0) (attach_as c M dir r p held new H)"
  by (rule attach_as_rebuilt [where Q = "handle_for slot [k]" and ks = "[k]", OF results_mono [OF new]])
    (use assms(2-) in \<open>auto simp: handle_for_def bound_ok_def\<close>)

lemma made_bytes:
  "results (\<lambda>x. \<forall>h. x = Inr h \<longrightarrow> layout_handle_span h = Inr (slot, 1) \<and> handle_kinds h = [KIND_BYTES])
     (made LBytes (posixipc_bytes_new_unbound c sz slot))"
  by (simp add: made_def results_def io_simps posixipc_bytes_new_unbound_def)

lemma attach_cond_rebuilt:
  assumes "s_kind (dir ! unat slot) = KIND_COND"
  shows "results (rebuilt (handle_for slot [KIND_COND]) p r H) (attach_cond c M dir slot r p storage pm mstorage H)"
proof -
  let ?ms = "drop_bit 16 (s_init_flags (dir ! unat slot))"
  show ?thesis
    unfolding attach_cond_def Let_def
    apply (rule results_if, rule drop_made_rebuilt)
    apply (rule results_bind [OF made_unbound(1)])
    subgoal for x
      apply (cases x)
       apply (simp_all add: drop_made_rebuilt)
      subgoal for m
        apply (rule results_bind [OF bind_handle_ok [where slot = ?ms and n = 1]])
            apply auto[4]
        apply (clarsimp)
        subgoal for oc m' H'
          apply (cases "oc = Returned None")
           apply simp
           apply (rule attach_as_slot [OF made_unbound(3) assms])
            apply (simp_all add: bound_ok_def)[3]
          apply (auto simp: drop_made_rebuilt split: outcome.split option.split)
          done
        done
      done
    done
qed

lemma ucast_kind [simp]: "ucast (ucast (k :: u16) :: u32) = k"
  by (rule bit_word_eqI) (simp add: bit_ucast_iff)

lemma attach_kind_rebuilt:
  assumes "s_kind (dir ! unat slot) = ucast kind"
  shows "results (rebuilt (handle_for slot [ucast kind]) p r H) (attach_kind c M dir slot kind r p storage pm mstorage H)"
proof -
  have single: "results (rebuilt (handle_for slot [k]) p r H) (attach_as c M dir r p [] new H)"
    if "results (\<lambda>x. \<forall>h. x = Inr h \<longrightarrow> layout_handle_span h = Inr (slot, 1) \<and> handle_kinds h = [k]) new" "ucast kind = k" for k new
    using attach_as_slot [OF that(1), of dir r "[]" H H] assms that(2) by simp
  show ?thesis
    unfolding attach_kind_def Let_def
    apply (intro results_if)
           apply (rule single [OF made_unbound(1)], simp)
          apply (use single [OF made_bytes] in simp)
         apply (use single [OF made_unbound(2)] in simp)
        apply (use attach_cond_rebuilt [of dir slot] assms in simp)
       apply (use single [OF made_unbound(4)] in simp)
      apply (use single [OF made_unbound(5)] in simp)
     apply (use single [OF made_unbound(6)] in simp)
    apply (rule drop_made_rebuilt)
    done
qed

text \<open>From the start: the segment object is new, so all its pins are those of the handles made.\<close>

definition rebuilt_handle ::
    "(layout_handle \<Rightarrow> bool) \<Rightarrow> addr \<Rightarrow> addr \<Rightarrow> regions \<Rightarrow> (addr \<times> layout_handle) list pyres outcome \<times> regions \<Rightarrow> bool" where
  "rebuilt_handle Q p r H = (\<lambda>(oc, H'). \<forall>hs. oc = Returned (Inr hs) \<longrightarrow>
     (\<exists>h rest. hs = (p, h) # rest \<and> Q h \<and> (rest \<noteq> [] \<longrightarrow> handle_kinds h = [KIND_COND])) \<and> list_all (\<lambda>(p, h). handle_region_of h = Some r) hs \<and>
     (\<forall>r'. r' \<noteq> r \<longrightarrow> H' r' = H r') \<and> s_pins (H' r) = word_of_nat (length hs))"

lemma rebuilt_handle_no_result [simp]:
  "rebuilt_handle Q p r H (Undefined, H')" "rebuilt_handle Q p r H (Unfinished, H')" "rebuilt_handle Q p r H (Returned (Inl e), H')"
  by (simp_all add: rebuilt_handle_def)

lemma rebuilt_fresh: "rebuilt Q p r (H(r := ob)) x \<Longrightarrow> s_pins ob = 0 \<Longrightarrow> rebuilt_handle Q p r H x"
  by (cases x) (auto simp: rebuilt_def rebuilt_handle_def pinned_def)

lemma refuse_rebuilt: "results (rebuilt_handle Q p r H) (refuse_segment core H')"
  unfolding refuse_segment_def by (rule results_skip) simp

lemma with_region_rebuilt:
  assumes "\<And>ob. results (rebuilt Q p r (H(r := ob))) (k (H(r := ob)))"
  shows "results (rebuilt_handle Q p r H) (with_region core r H k)"
  unfolding with_region_def
proof (rule results_bind [OF from_core_results])
  fix x :: "PosixIPCSharedMemoryObject pyres"
  assume "\<forall>ob. x = Inr ob \<longrightarrow> s_pins ob = 0"
  then show "results (rebuilt_handle Q p r H) (case x of Inl e \<Rightarrow> ret (Returned (Inl e), H) | Inr ob \<Rightarrow> k (H(r := ob)))"
    by (cases x) (auto intro: results_mono [OF assms] rebuilt_fresh)
qed

lemma with_directory_rebuilt:
  assumes "\<And>dir. results (rebuilt_handle Q p r H) (k dir)"
  shows "results (rebuilt_handle Q p r H) (with_directory core digest fits H k)"
  unfolding with_directory_def
  by (auto intro!: results_call assms refuse_rebuilt split: option.split)

lemma check_kinds_rebuilt:
  assumes "kinds_at dir i ks = Some True \<Longrightarrow> results (rebuilt_handle Q p r H) k"
  shows "results (rebuilt_handle Q p r H) (check_kinds core dir i ks H k)"
  unfolding check_kinds_def using assms by (auto intro: refuse_rebuilt split: option.split bool.split)

lemma with_pickled_rebuilt:
  assumes "\<And>core. results (rebuilt_handle Q p r H) (k core)"
  shows "results (rebuilt_handle Q p r H) (with_pickled c fl fuel name H k)"
  unfolding with_pickled_def
  by (rule results_skip) (auto intro!: assms split: outcome.split sum.split)

lemmas rebuilt_rules = with_pickled_rebuilt with_directory_rebuilt check_kinds_rebuilt with_region_rebuilt

lemma mod_attach_slot_results:
  "results (rebuilt_handle (handle_for slot [ucast kind]) p r H)
     (mod_attach_slot c fl fuel M name slot kind digest r p storage pm mstorage H)"
  unfolding mod_attach_slot_def
  apply (intro results_call results_if rebuilt_rules)
   apply simp
  apply (rule attach_kind_rebuilt)
  apply (auto split: if_splits)
  done

lemma made_array:
  "results (\<lambda>x. \<forall>h. x = Inr h \<longrightarrow> (\<exists>a. h = LArray a) \<and> handle_for slot (replicate (unat n) k) h)
     (made LArray (posixipc_mutexarray_new_unbound c k fl fn slot n))"
  by (simp add: made_def results_def io_simps posixipc_mutexarray_new_unbound_def handle_for_def)

lemma mod_attach_array_results:
  "results (rebuilt_handle (handle_for slot (replicate (unat n) (ucast kind))) p r H) (mod_attach_array c fl fuel M name slot n kind digest r p H)"
proof -
  have "results (rebuilt (handle_for slot (replicate (unat n) (ucast kind))) p r H1)
      (attach_as c M dir r p [] (made LArray (posixipc_mutexarray_new_unbound c (ucast kind) fl fn slot n)) H1)" if "\<not> n < 1" for H1 dir fl fn
    by (rule attach_as_rebuilt [OF made_array]) (use that in \<open>auto simp: handle_for_def bound_ok_def not_less unsigned_eq_0_iff\<close>)
  then show ?thesis
    unfolding mod_attach_array_def by (intro results_call results_if rebuilt_rules) simp_all
qed

text \<open>Of a ring the depth and the item size matter as well.\<close>

definition ring_for :: "bool \<Rightarrow> u32 \<Rightarrow> u32 \<Rightarrow> u32 \<Rightarrow> u16 list \<Rightarrow> layout_handle \<Rightarrow> bool" where
  "ring_for b first d k ks h \<longleftrightarrow> ring_shape h = Some (b, d, k) \<and> handle_for first ks h"

lemma made_rings:
  "results (\<lambda>x. \<forall>h. x = Inr h \<longrightarrow> ring_for True first d k [KIND_ROBUST_MUTEX, KIND_ROBUST_MUTEX, KIND_COND, KIND_COND, KIND_BYTES] h)
     (made LQueue (posixipc_queue_new_unbound c b d k first))"
  "results (\<lambda>x. \<forall>h. x = Inr h \<longrightarrow> ring_for False first d k [KIND_ROBUST_MUTEX, KIND_ROBUST_MUTEX, KIND_BYTES] h)
     (made LFutexQueue (posixipc_futexq_new_unbound b d k first))"
  by (simp_all add: made_def results_def io_simps posixipc_queue_new_unbound_def posixipc_futexq_new_unbound_def ring_for_def handle_for_def)

lemma attach_ring_rebuilt:
  assumes "results (\<lambda>x. \<forall>h. x = Inr h \<longrightarrow> ring_for b first d k ks h) new" and "ks \<noteq> []"
  shows "results (rebuilt_handle (ring_for b first d k ks) p r H) (attach_ring c fl fuel M name first kinds need digest new r p H)"
proof -
  have "results (rebuilt (ring_for b first d k ks) p r H1) (attach_as c M dir r p [] new H1)" for H1 dir
    by (rule attach_as_rebuilt [OF assms(1)]) (use assms(2) in \<open>auto simp: ring_for_def handle_for_def bound_ok_def\<close>)
  then show ?thesis
    unfolding attach_ring_def by (intro rebuilt_rules results_if refuse_rebuilt)
qed

lemma mod_attach_queue_results:
  "results (rebuilt_handle (ring_for True first d k [KIND_ROBUST_MUTEX, KIND_ROBUST_MUTEX, KIND_COND, KIND_COND, KIND_BYTES]) p r H)
     (mod_attach_queue c fl fuel M b name first d k digest r p H)"
  unfolding mod_attach_queue_def by (auto intro!: results_call attach_ring_rebuilt made_rings)

lemma mod_attach_futex_queue_results:
  "results (rebuilt_handle (ring_for False first d k [KIND_ROBUST_MUTEX, KIND_ROBUST_MUTEX, KIND_BYTES]) p r H)
     (mod_attach_futex_queue c fl fuel M b name first d k digest r p H)"
  unfolding mod_attach_futex_queue_def by (auto intro!: results_call attach_ring_rebuilt made_rings)

section \<open>Properties\<close>

text \<open>A world with a ready segment that holds one queue.\<close>

definition queue_header :: posixipc_shm_header where
  "queue_header = (write_header glibc_x86_64 expect64)\<lparr>h_total_size := 4096, h_slot_count := 5, h_layout_digest := 9\<rparr>"

fun pickle_answer :: "syscall \<Rightarrow> answer" where
  "pickle_answer (Py (ParseTuple f)) = answer0\<lparr>a_ret := 1\<rparr>"
| "pickle_answer (Fstat f) = answer0\<lparr>a_stat := \<lparr>st_uid = 0, st_mode = 0x180, st_size = 4096\<rparr>\<rparr>"
| "pickle_answer (Mem (Load_state p)) = answer0\<lparr>a_word := STATE_READY\<rparr>"
| "pickle_answer (Mem (Load_total_size p)) = answer0\<lparr>a_word := 4096\<rparr>"
| "pickle_answer (Mem (Load_header p)) = answer0\<lparr>a_hdr := queue_header\<rparr>"
| "pickle_answer (Mem (Load_directory p n)) = answer0\<lparr>a_dir := demo_queue_slots\<rparr>"
| "pickle_answer c = answer0"

definition pickle_world :: world where
  "pickle_world = \<lparr>env = \<lambda>h. pickle_answer, trace = []\<rparr>"

lemma answer_to_pickle: "env w = env pickle_world \<Longrightarrow> answer_to w c = pickle_answer c"
  by (simp add: answer_to_def pickle_world_def)

lemma five_seconds: "add_seconds (\<lambda>x. x) \<lparr>tv_sec = 100, tv_nsec = n\<rparr> (Fin 5) =
    Some (0, if n \<ge> 1000000000 then \<lparr>tv_sec = 106, tv_nsec = n - 1000000000\<rparr> else \<lparr>tv_sec = 105, tv_nsec = n\<rparr>)"
  by (simp add: add_seconds_def to_time_t_def trunc_to_zero_def Let_def)

lemma pickle_attach:
  assumes "env w = env pickle_world"
  shows "\<exists>w'. run (attach_pickled glibc_x86_64 (\<lambda>x. x) 1 ''/q'') w =
     (Returned (Inr \<lparr>sh_map = Some 0, sh_map_len = 4096, sh_hdr = Some 0, sh_name = Some (0, ''/q'')\<rparr>), w') \<and> env w' = env pickle_world"
  using assms
  by (simp add: attach_pickled_def posixipc_deadline_from_seconds_def posixipc_now_def five_seconds dbl_neg_def deadline0_def
        posixipc_shm_attach_def posixipc_shm_validate_name_def posixipc_shm_stat_permitted_def
        attach_ready_def attach_map_def compare_expect_def write_header_def queue_header_def posixipc_deadline_expired_def
        dup_name_def io_simps Let_def answer_to_pickle answer0_def expect64_def expect0_def)

lemma pickle_queue:
  "\<exists>q H' w'. run (mod_attach_queue glibc_x86_64 (\<lambda>x. x) 1 (\<lambda>_. blank_ring) True ''/q'' 0 2 100 9 5 8 demo_regions) pickle_world =
     ((Returned (Inr [(8, LQueue q)]), H'), w')"
proof -
  have "env (after pickle_world c) = env pickle_world" for c by simp
  from pickle_attach [OF this, of "Py (ParseTuple ''sIIII:_attach_queue'')"] obtain w' where
    p: "run (attach_pickled glibc_x86_64 (\<lambda>x. x) 1 ''/q'') (after pickle_world (Py (ParseTuple ''sIIII:_attach_queue''))) =
       (Returned (Inr \<lparr>sh_map = Some 0, sh_map_len = 4096, sh_hdr = Some 0, sh_name = Some (0, ''/q'')\<rparr>), w')" and e: "env w' = env pickle_world"
    by blast
  have n: "posixipc_queue_bytes_size glibc_x86_64 2 100 = 384"
    by (simp add: posixipc_queue_bytes_size_def ctrl_bytes_def state_bytes_def queue_align_up_def glibc_x86_64_def Let_def word_le_nat_alt)
  show ?thesis
    using p e
    by (simp add: mod_attach_queue_def attach_ring_def with_pickled_def with_directory_def check_kinds_def with_region_def attach_as_def made_def
        posixipc_shm_directory_def posixipc_shmobj_from_core_def posixipc_queue_new_unbound_def bound_as_def posixipc_queue_bind_def
        queue_pointers_def bind_ptr_def demo_queue_slots_def slot_at_def region_ptr_def posixipc_shm_offset_ptr_def queue_header_def
        write_header_def expect64_def expect0_def posixipc_state_from_obj_def posixipc_state_from_type_def n demo_map blank_ring_def
        run_pin_region shm_is_closed_def flag_set_def io_simps Let_def answer_to_pickle answer0_def word_le_nat_alt word_less_nat_alt)
qed

text \<open>
  C16. A handle rebuilt from a pickled position (\<^verbatim>\<open>_attach_slot\<close> for single slots, \<^verbatim>\<open>_attach_array\<close> for arrays) covers exactly the pickled
  slots with the pickled kind and is bound to the segment object the function made for it, whose only pins are those of the objects
  returned (the handle, and for a condition its mutex); no other segment object changes.
\<close>

theorem attach_rebuilds_handle:
  assumes "run (mod_attach_slot c fl fuel M name slot kind digest r p storage pm mstorage H) w = ((Returned (Inr hs), H'), w') \<and> n = 1 \<or>
           run (mod_attach_array c fl fuel M name slot (word_of_nat n) kind digest r p H) w = ((Returned (Inr hs), H'), w') \<and> n < 2 ^ 32"
  shows "\<exists>h rest. hs = (p, h) # rest \<and> layout_handle_span h = Inr (slot, word_of_nat n) \<and> handle_kinds h = replicate n (ucast kind) \<and>
           (rest \<noteq> [] \<longrightarrow> ucast kind = KIND_COND) \<and> list_all (\<lambda>(p, h). handle_region_of h = Some r) hs \<and>
           (\<forall>r'. r' \<noteq> r \<longrightarrow> H' r' = H r') \<and> s_pins (H' r) = word_of_nat (length hs)"
proof -
  have "rebuilt_handle (handle_for slot (replicate n (ucast kind))) p r H (Returned (Inr hs), H')"
    using assms
  proof
    assume "run (mod_attach_slot c fl fuel M name slot kind digest r p storage pm mstorage H) w = ((Returned (Inr hs), H'), w') \<and> n = 1"
    then show ?thesis using results_run [OF mod_attach_slot_results, of c fl fuel M name slot kind digest r p storage pm mstorage H w] by simp
  next
    assume "run (mod_attach_array c fl fuel M name slot (word_of_nat n) kind digest r p H) w = ((Returned (Inr hs), H'), w') \<and> n < 2 ^ 32"
    then show ?thesis using results_run [OF mod_attach_array_results, of c fl fuel M name slot "word_of_nat n" kind digest r p H w] by simp
  qed
  then show ?thesis by (cases n) (auto simp: rebuilt_handle_def handle_for_def)
qed

text \<open>
  C15. Round trip: a queue handle pickled by one process and rebuilt by another stands for the same five slots, the same depth and the
  same item size; it is the only object made, bound to the new segment object and holding its only pin.
\<close>

theorem queue_pickle_roundtrip:
  assumes "run (queue_reduce q H0) w0 = (Inr (name, first, d, k, digest), w1)"
    and "run (mod_attach_queue c fl fuel M b name first d k digest r p H) w = ((Returned (Inr hs), H'), w')"
  shows "\<exists>q'. hs = [(p, LQueue q')] \<and> qo_first_slot q' = qo_first_slot q \<and> qo_depth q' = qo_depth q \<and> qo_item_size q' = qo_item_size q \<and>
           qo_region q' = Some r \<and> s_pins (H' r) = 1 \<and> (\<forall>r'. r' \<noteq> r \<longrightarrow> H' r' = H r')"
proof -
  have r: "first = qo_first_slot q \<and> d = qo_depth q \<and> k = qo_item_size q"
    using assms(1) by (auto simp: queue_reduce_def run_bind run_ret run_if Let_def split: option.splits prod.splits if_splits)
  from results_run [OF mod_attach_queue_results assms(2)]
  obtain h rest where h: "hs = (p, h) # rest" "ring_shape h = Some (True, d, k)" "layout_handle_span h = Inr (first, 5)"
      "length (handle_kinds h) = 5" "rest \<noteq> [] \<longrightarrow> handle_kinds h = [KIND_COND]" "handle_region_of h = Some r"
      "\<forall>r'. r' \<noteq> r \<longrightarrow> H' r' = H r'" "s_pins (H' r) = word_of_nat (length hs)"
    by (auto simp: rebuilt_handle_def ring_for_def handle_for_def)
  from h(4,5) have "rest = []" by auto
  then show ?thesis using h r by (cases h) auto
qed

definition named_segment :: PosixIPCSharedMemoryObject where
  "named_segment = \<lparr>s_core = \<lparr>sh_map = Some 0, sh_map_len = 4096, sh_hdr = Some 0, sh_name = Some (0, ''/q'')\<rparr>, s_pins = 1, s_flags = 0,
     s_created = True\<rparr>"

theorem queue_pickle_roundtrip_witness:
  "\<exists>w1 hs H' w'. run (queue_reduce (fresh_queue\<lparr>qo_region := Some 3, qo_flags := FLAG_BOUND\<rparr>) (\<lambda>_. named_segment)) pickle_world =
       (Inr (''/q'', 0, 2, 100, 9), w1) \<and>
     run (mod_attach_queue glibc_x86_64 (\<lambda>x. x) 1 (\<lambda>_. blank_ring) True ''/q'' 0 2 100 9 5 8 demo_regions) pickle_world = ((Returned (Inr hs), H'), w') \<and>
     s_pins (H' 5) = 1"
proof -
  obtain w1 where r: "run (queue_reduce (fresh_queue\<lparr>qo_region := Some 3, qo_flags := FLAG_BOUND\<rparr>) (\<lambda>_. named_segment)) pickle_world =
       (Inr (''/q'', 0, 2, 100, 9), w1)"
    by (simp add: queue_reduce_def fresh_queue_def demo_queue_def named_segment_def queue_is_closed_def flag_set_def posixipc_state_from_obj_def
        posixipc_state_from_type_def io_simps Let_def answer_to_pickle answer0_def queue_header_def)
  obtain q H' w' where a: "run (mod_attach_queue glibc_x86_64 (\<lambda>x. x) 1 (\<lambda>_. blank_ring) True ''/q'' 0 2 100 9 5 8 demo_regions) pickle_world =
     ((Returned (Inr [(8, LQueue q)]), H'), w')" using pickle_queue by blast
  from queue_pickle_roundtrip [OF r a] r a show ?thesis by blast
qed

lemma pickle_slot:
  "\<exists>hs H' w'. run (mod_attach_slot glibc_x86_64 (\<lambda>x. x) 1 (\<lambda>_. blank_ring) ''/q'' 0 3 9 5 8 80 0 0 demo_regions) pickle_world =
     ((Returned (Inr hs), H'), w')"
proof -
  have "env (after pickle_world c) = env pickle_world" for c by simp
  from pickle_attach [OF this, of "Py (ParseTuple ''sIII:_attach_slot'')"] obtain w' where
    p: "run (attach_pickled glibc_x86_64 (\<lambda>x. x) 1 ''/q'') (after pickle_world (Py (ParseTuple ''sIII:_attach_slot''))) =
       (Returned (Inr \<lparr>sh_map = Some 0, sh_map_len = 4096, sh_hdr = Some 0, sh_name = Some (0, ''/q'')\<rparr>), w')" and e: "env w' = env pickle_world"
    by blast
  show ?thesis
    using p e
    by (simp add: mod_attach_slot_def with_pickled_def with_directory_def check_kinds_def with_region_def attach_kind_def attach_as_def made_def
        posixipc_shm_directory_def posixipc_shmobj_from_core_def posixipc_mutex_new_unbound_def bound_as_def posixipc_mutex_bind_def
        demo_queue_slots_def slot_at_def region_ptr_def posixipc_shm_offset_ptr_def queue_header_def
        write_header_def expect64_def expect0_def posixipc_state_from_obj_def posixipc_state_from_type_def
        run_pin_region shm_is_closed_def flag_set_def io_simps Let_def answer_to_pickle answer0_def word_le_nat_alt word_less_nat_alt)
qed

theorem attach_rebuilds_handle_witness:
  "\<exists>hs H' w'. run (mod_attach_slot glibc_x86_64 (\<lambda>x. x) 1 (\<lambda>_. blank_ring) ''/q'' 0 3 9 5 8 80 0 0 demo_regions) pickle_world =
     ((Returned (Inr hs), H'), w') \<and> length hs = 1 \<and> s_pins (H' 5) = 1"
proof -
  obtain hs H' w' where r: "run (mod_attach_slot glibc_x86_64 (\<lambda>x. x) 1 (\<lambda>_. blank_ring) ''/q'' 0 3 9 5 8 80 0 0 demo_regions) pickle_world =
     ((Returned (Inr hs), H'), w')" using pickle_slot by blast
  from attach_rebuilds_handle [of glibc_x86_64 "\<lambda>x. x" 1 "\<lambda>_. blank_ring" "''/q''" 0 3 9 5 8 80 0 0 demo_regions pickle_world hs H' w' 1] r
  show ?thesis by auto
qed

section \<open>Positions at the end of the range\<close>

lemma kinds_at_inside: "unat i + length ks \<le> length dir \<Longrightarrow> length dir < 2 ^ 32 \<Longrightarrow> kinds_at dir i ks \<noteq> None"
proof (induction ks arbitrary: i)
  case (Cons k ks)
  have "ks = [] \<or> unat (i + 1) = unat i + 1" using Cons.prems by (cases ks) (auto simp: unat_add_no_wrap)
  then show ?case using Cons by auto
qed simp

lemma bound_as_returns: "results (\<lambda>(oc, h, H). oc \<noteq> Undefined \<and> oc \<noteq> Unfinished) (bound_as con m)"
  unfolding bound_as_def by (rule results_skip) auto

lemma drop_made_returns: "results (\<lambda>(oc, H). oc \<noteq> Undefined) (drop_made c hs r e H)"
  unfolding drop_made_def by (intro results_skip) simp

lemma attach_queue_returns:
  "results (\<lambda>(oc, H). oc \<noteq> Undefined) (attach_as c M dir r p [] (made LQueue (posixipc_queue_new_unbound c b d k first)) H)"
proof -
  have n: "results (\<lambda>x. \<forall>h. x = Inr h \<longrightarrow> (\<exists>q. h = LQueue q)) (made LQueue (posixipc_queue_new_unbound c b d k first))"
    unfolding made_def by (rule results_skip) (auto split: sum.splits)
  show ?thesis
    unfolding attach_as_def
    apply (rule results_bind [OF n])
    subgoal for x
      apply (cases x)
       apply (simp add: drop_made_returns)
      apply (clarsimp simp del: bind_handle.simps)
      apply (simp only: bind_handle.simps)
      apply (rule results_bind [OF bound_as_returns])
      apply (auto simp: drop_made_returns split: outcome.split option.split)
      done
    done
qed

definition queue_kinds :: "u32 list" where
  "queue_kinds = [ucast KIND_ROBUST_MUTEX, ucast KIND_ROBUST_MUTEX, ucast KIND_COND, ucast KIND_COND, ucast KIND_BYTES]"

lemma refuse_defined: "results (\<lambda>(oc, H). oc \<noteq> Undefined) (refuse_segment core H :: ((addr \<times> layout_handle) list pyres outcome \<times> regions) io)"
  unfolding refuse_segment_def by (intro results_skip) simp

lemma check_kinds_undefined:
  fixes cont :: "((addr \<times> layout_handle) list pyres outcome \<times> regions) io"
  assumes "results (\<lambda>(oc, H). oc \<noteq> Undefined) cont"
  shows "fst (fst (run (check_kinds core dir first ks H cont) w)) = Undefined \<longleftrightarrow> kinds_at dir first ks = None"
  using assms refuse_defined [of core H] by (auto simp: check_kinds_def results_def run_ret split_beta split: option.split bool.split)

text \<open>Where the comparison in 32 bits lets a position through, the directory is left exactly when the sum wraps.\<close>

lemma queue_position:
  assumes "length dir = unat n" and "5 \<le> n" and "first + 5 \<le> (ucast (n :: u16) :: u32)"
  shows "kinds_at dir first queue_kinds = None \<longleftrightarrow> 2 ^ 32 \<le> unat first + 5"
proof (cases "2 ^ 32 \<le> unat first + 5")
  case True
  then show ?thesis using assms(1) unat_u16_less [of n] by (simp add: queue_kinds_def)
next
  case False
  then have "unat (first + 5) = unat first + 5" by (simp add: unat_add_no_wrap)
  with assms have "kinds_at dir first queue_kinds \<noteq> None"
    using unat_u16_less [of n] by (intro kinds_at_inside) (simp_all add: word_le_nat_alt queue_kinds_def)
  with False show ?thesis by simp
qed

text \<open>Rebuilding a queue once the segment is attached: the position is compared, then the kinds are read.\<close>

lemma run_attached_queue:
  assumes "a_ret (answer_to w (Py (ParseTuple ''sIIII:_attach_queue''))) \<noteq> 0" and "0 < d" and "0 < k"
    and "run (attach_pickled c fl fuel name) (after w (Py (ParseTuple ''sIIII:_attach_queue''))) = (Returned (Inr core), w2)"
    and "sh_hdr core = Some hp" and "sh_map core = Some m" and "h = a_hdr (answer_to w2 (Mem (Load_header hp)))"
    and "h_layout_digest h = digest" and "5 \<le> h_slot_count h"
    and "dir = a_dir (answer_to (after w2 (Mem (Load_header hp))) (Mem (Load_directory (m + 64) (unat (h_slot_count h)))))"
  shows "\<exists>cont w3 w4. results (\<lambda>(oc, H). oc \<noteq> Undefined) cont \<and> run (mod_attach_queue c fl fuel M True name first d k digest r p H) w =
     (if first + 5 \<le> ucast (h_slot_count h) then run (check_kinds core dir first queue_kinds H cont) w4 else run (refuse_segment core H) w3)"
proof -
  let ?w3 = "after w2 (Mem (Load_header hp))" and ?ld = "Mem (Load_directory (m + 64) (unat (h_slot_count h)))"
  define cont where "cont dir = (if posixipc_queue_bytes_size c d k = 0 \<or>
      s_size (dir ! unat (first + of_nat (length queue_kinds - 1))) < posixipc_queue_bytes_size c d k
      then refuse_segment core H
      else with_region core r H (attach_as c M dir r p [] (made LQueue (posixipc_queue_new_unbound c True d k first))))" for dir
  have "d \<noteq> 0" "k \<noteq> 0" using assms(2,3) by auto
  then have "run (mod_attach_queue c fl fuel M True name first d k digest r p H) w =
      run (with_directory core digest (\<lambda>n. first + of_nat (length queue_kinds) \<le> n) H (\<lambda>dir. check_kinds core dir first queue_kinds H (cont dir))) w2"
    using assms(1,4) unfolding mod_attach_queue_def attach_ring_def queue_kinds_def [symmetric] cont_def
    by (simp add: with_pickled_def run_bind run_call)
  also have "\<dots> = (if first + 5 \<le> ucast (h_slot_count h) then run (check_kinds core dir first queue_kinds H (cont dir)) (after ?w3 ?ld)
      else run (refuse_segment core H) ?w3)"
  proof -
    have "posixipc_shm_directory (Some core) h = Some (m + 64)" using assms(5,6,9) by (auto simp: posixipc_shm_directory_def)
    moreover have "(of_nat (length queue_kinds) :: u32) = 5" by (simp add: queue_kinds_def)
    ultimately show ?thesis using assms(5,7,8,10) by (simp add: with_directory_def run_bind run_call)
  qed
  finally show ?thesis
  proof (intro exI conjI)
    show "results (\<lambda>(oc, H). oc \<noteq> Undefined) (cont dir)"
      unfolding cont_def refuse_segment_def with_region_def by (auto intro!: results_skip attach_queue_returns split: sum.split)
  qed
qed

text \<open>
  C17. The position of a pickled queue is checked by adding five to it in 32 bits. Once the segment is attached, its digest agrees and it
  has at least five slots, rebuilding the queue reads outside the directory exactly when that sum wraps around: every smaller
  position is either inside or refused, and each of the five largest positions is accepted and then used.
\<close>

theorem attach_queue_position_wraps:
  assumes "a_ret (answer_to w (Py (ParseTuple ''sIIII:_attach_queue''))) \<noteq> 0" and "0 < d" and "0 < k"
    and "run (attach_pickled c fl fuel name) (after w (Py (ParseTuple ''sIIII:_attach_queue''))) = (Returned (Inr core), w2)"
    and "sh_hdr core = Some hp" and "sh_map core = Some m" and "h = a_hdr (answer_to w2 (Mem (Load_header hp)))"
    and "h_layout_digest h = digest" and "5 \<le> h_slot_count h"
    and "length (a_dir (answer_to (after w2 (Mem (Load_header hp))) (Mem (Load_directory (m + 64) (unat (h_slot_count h)))))) = unat (h_slot_count h)"
  shows "fst (fst (run (mod_attach_queue c fl fuel M True name first d k digest r p H) w)) = Undefined \<longleftrightarrow> 2 ^ 32 \<le> unat first + 5"
proof -
  define dir where "dir = a_dir (answer_to (after w2 (Mem (Load_header hp))) (Mem (Load_directory (m + 64) (unat (h_slot_count h)))))"
  from run_attached_queue [OF assms(1-9) dir_def] obtain cont w3 w4 where cont: "results (\<lambda>(oc, H). oc \<noteq> Undefined) cont"
    and run: "run (mod_attach_queue c fl fuel M True name first d k digest r p H) w =
      (if first + 5 \<le> ucast (h_slot_count h) then run (check_kinds core dir first queue_kinds H cont) w4 else run (refuse_segment core H) w3)"
    by blast
  have len: "length dir = unat (h_slot_count h)" using assms(10) by (simp add: dir_def)
  show ?thesis
  proof (cases "first + 5 \<le> (ucast (h_slot_count h) :: u32)")
    case True
    then show ?thesis using queue_position [OF len assms(9) True] by (simp add: run check_kinds_undefined [OF cont])
  next
    case False
    have "2 ^ 32 \<le> unat first + 5 \<Longrightarrow> unat (first + 5) = unat first + 5 - 2 ^ 32"
      using unat_u32_less [of first] by (simp add: unat_plus_if')
    then have "\<not> 2 ^ 32 \<le> unat first + 5" using False assms(9) unat_u32_less [of first] by (auto simp: word_le_nat_alt)
    then show ?thesis using False refuse_defined [of core H] by (auto simp: run results_def split_beta)
  qed
qed

theorem attach_queue_position_wraps_witness:
  "fst (fst (run (mod_attach_queue glibc_x86_64 (\<lambda>x. x) 1 (\<lambda>_. blank_ring) True ''/q'' 0xffffffff 2 100 9 5 8 demo_regions) pickle_world)) = Undefined"
proof -
  let ?pt = "Py (ParseTuple ''sIIII:_attach_queue'')"
  obtain w' where p: "run (attach_pickled glibc_x86_64 (\<lambda>x. x) 1 ''/q'') (after pickle_world ?pt) =
       (Returned (Inr \<lparr>sh_map = Some 0, sh_map_len = 4096, sh_hdr = Some 0, sh_name = Some (0, ''/q'')\<rparr>), w')" and e: "env w' = env pickle_world"
    using pickle_attach [of "after pickle_world ?pt"] by auto
  have "fst (fst (run (mod_attach_queue glibc_x86_64 (\<lambda>x. x) 1 (\<lambda>_. blank_ring) True ''/q'' 0xffffffff 2 100 9 5 8 demo_regions) pickle_world)) = Undefined
     \<longleftrightarrow> 2 ^ 32 \<le> unat (0xffffffff :: u32) + 5"
    by (rule attach_queue_position_wraps [OF _ _ _ p _ _ refl, where hp = 0 and m = 0])
      (use e in \<open>simp_all add: answer_to_pickle answer0_def queue_header_def write_header_def demo_queue_slots_def word_le_nat_alt\<close>)
  then show ?thesis by simp
qed

section \<open>The digest of the slots a program sees\<close>

text \<open>What the tuples of \<^verbatim>\<open>Layout.slots\<close> without the offset say about a slot; these four numbers are what the digest is made of.\<close>

definition slot_fields :: "posixipc_slot \<Rightarrow> u32 \<times> u32 \<times> u32 \<times> u32" where
  "slot_fields s = (ucast (s_kind s), ucast (s_align s), s_size s, s_init_flags s)"

lemma slot_fields_eq:
  "slot_fields s = slot_fields t \<longleftrightarrow> s_kind s = s_kind t \<and> s_align s = s_align t \<and> s_size s = s_size t \<and> s_init_flags s = s_init_flags t"
  using ucast_kind by (metis (no_types, lifting) prod.inject slot_fields_def)

lemma feed_slots_fields: "map slot_fields ss = map slot_fields ts \<Longrightarrow> foldl feed_slot h ss = foldl feed_slot h ts"
proof (induction ss arbitrary: ts h)
  case (Cons s ss)
  then obtain t ts' where "ts = t # ts'" "slot_fields s = slot_fields t" "map slot_fields ss = map slot_fields ts'" by (cases ts) auto
  then show ?case using Cons.IH [of ts'] by (simp add: feed_slot_def slot_fields_eq)
qed simp

lemma digest_slots_fields:
  assumes "run (digest_slots tuple seq i n) w = (Inr ss, w')"
    and "\<And>h j. j < n \<Longrightarrow> tuple (Obj (nat (a_ret (env w h (Py (SequenceItem seq (i + j))))))) = slot_fields (slots ! (i + j))"
  shows "map slot_fields ss = map slot_fields (map (\<lambda>j. slots ! (i + j)) [0..<n])"
  using assms
proof (induction n arbitrary: i w ss w')
  case 0
  then show ?case by (simp add: run_ret)
next
  case (Suc n)
  let ?it = "Py (SequenceItem seq i)" and ?pt = "Py (ParseTuple ''IIII'')"
  let ?w = "after (after w ?it) ?pt"
  obtain k al sz fl where t: "tuple (Obj (nat (a_ret (answer_to w ?it)))) = (k, al, sz, fl)" by (metis prod_cases4)
  obtain x w1 where x: "run (digest_slots tuple seq (Suc i) n) ?w = (x, w1)" by fastforce
  from Suc.prems(1) x t obtain ts where ts: "x = Inr ts"
      "ss = \<lparr>s_kind = ucast k, s_align = ucast al, s_offset = 0, s_size = sz, s_init_flags = fl\<rparr> # ts"
    by (auto simp: run_bind run_call run_ret split: if_splits sum.splits)
  have "map slot_fields ts = map slot_fields (map (\<lambda>j. slots ! (Suc i + j)) [0..<n])"
    using Suc.IH [of "Suc i" ?w ts w1] x ts(1) Suc.prems(2) [of "Suc j" for j] by simp
  moreover have "slot_fields (hd ss) = slot_fields (slots ! i)"
    using Suc.prems(2) [of 0 "trace w"] t ts(2) by (auto simp: answer_to_def slot_fields_def)
  ultimately show ?case using ts(2) by (simp add: upt_conv_Cons comp_def del: upt_Suc flip: map_Suc_upt)
qed

lemma layout_build_digest:
  assumes "posixipc_layout_build c slots n (Some e0) = (0, slots', Some e)"
  shows "e_layout_digest e = posixipc_layout_digest c LAYOUT_VERSION (posixipc_abi_tag c) (case slots' of None \<Rightarrow> [] | Some xs \<Rightarrow> xs) n"
  using assms by (auto simp: posixipc_layout_build_def Let_def split: if_splits option.splits prod.splits)

text \<open>
  C18. The digest a program computes from the slots of a layout with \<^verbatim>\<open>_layout_digest\<close>, given the version, the ABI tag and the four
  numbers of each slot, is the digest the layout itself reports and stores in the header of its segments.
\<close>

theorem layout_digest_agrees:
  assumes "layout_reachable c l" and "run (layout_get_digest c l) w = ((Inr n, l'), w')"
    and "run (mod_layout_digest c tuple (ucast LAYOUT_VERSION) (posixipc_abi_tag c) seq) w2 = (Inr n2, w3)"
    and "\<forall>h. a_ret (env w2 h (Py (SequenceSize seq))) = int (unat (ly_nslots l'))"
    and "\<forall>h. \<forall>j < unat (ly_nslots l'). tuple (Obj (nat (a_ret (env w2 h (Py (SequenceItem seq j)))))) = slot_fields (ly_slots l' ! j)"
  shows "n2 = n"
proof -
  obtain rc l1 e where b: "layout_build_of c l = (rc, l1, e)" by (metis prod_cases3)
  have g: "rc = 0" "l' = l1" "n = unat (e_layout_digest e)"
    using assms(2) by (auto simp: layout_get_digest_def b long_from_def run_bind run_ret run_call split: prod.splits if_splits)
  obtain s0 s1 eo where lb: "posixipc_layout_build c s0 (ly_nslots l) (Some expect0) = (0, s1, Some eo)" "e = eo"
      "ly_slots l1 = (case s1 of None \<Rightarrow> [] | Some xs \<Rightarrow> xs)"
  proof -
    obtain rc' s1 eo where x: "posixipc_layout_build c (if ly_cap l = 0 then None else Some (ly_slots l)) (ly_nslots l) (Some expect0) = (rc', s1, eo)"
      by (metis prod_cases3)
    with b g(1) have "rc' = 0" "e = the eo" "ly_slots l1 = (case s1 of None \<Rightarrow> [] | Some xs \<Rightarrow> xs)" by (auto simp: layout_build_of_def)
    moreover have "eo \<noteq> None" using x by (auto simp: posixipc_layout_build_def Let_def split: if_splits option.splits prod.splits)
    ultimately show thesis using that x by auto
  qed
  note wf = layout_build_of_wf [OF layout_reachable_wf [OF assms(1)] b]
  have len: "unat (ly_nslots l1) \<le> length (ly_slots l1)" using wf(1) by (simp add: layout_wf_def word_le_nat_alt)
  let ?n = "unat (ly_nslots l1)"
  obtain ss where ss: "map slot_fields ss = map slot_fields (map (\<lambda>j. ly_slots l1 ! (0 + j)) [0..<?n])"
      "n2 = unat (posixipc_layout_digest c LAYOUT_VERSION (posixipc_abi_tag c) ss (ly_nslots l1))"
  proof -
    let ?w = "after (after (after w2 (Py (ParseTuple ''IIO:_layout_digest''))) (Py (SequenceSize seq))) (Py (PyMem_Calloc ?n 16))"
    have sz: "a_ret (answer_to w' (Py (SequenceSize seq))) = int ?n" if "env w' = env w2" for w'
      using assms(4) that g(2) by (simp add: answer_to_def)
    obtain x w5 where x: "run (digest_slots tuple seq 0 ?n) ?w = (x, w5)" by fastforce
    have "?n \<le> 65535" using unat_u16_less [of "ly_nslots l1"] by simp
    then obtain ss where "x = Inr ss" "n2 = unat (posixipc_layout_digest c LAYOUT_VERSION (posixipc_abi_tag c) ss (ly_nslots l1))"
      using assms(3) x
      by (auto simp: mod_layout_digest_def run_bind run_call run_call_ignore run_ret sz long_from_def split: if_splits sum.splits)
    moreover have "map slot_fields ss = map slot_fields (map (\<lambda>j. ly_slots l1 ! (0 + j)) [0..<?n])"
      by (rule digest_slots_fields) (use x \<open>x = Inr ss\<close> assms(5) g(2) in auto)
    ultimately show thesis using that by blast
  qed
  have "map (\<lambda>j. ly_slots l1 ! (0 + j)) [0..<?n] = take ?n (ly_slots l1)" using len by (simp add: list_eq_iff_nth_eq)
  then have m: "map slot_fields ss = map slot_fields (take ?n (ly_slots l1))" using ss(1) by simp
  moreover have "length ss = ?n" using arg_cong [OF m, of length] len by simp
  ultimately have "map slot_fields (take ?n ss) = map slot_fields (take ?n (ly_slots l1))" by simp
  note f = feed_slots_fields [OF this]
  have "n = unat (posixipc_layout_digest c LAYOUT_VERSION (posixipc_abi_tag c) (ly_slots l1) (ly_nslots l1))"
    using g(3) lb(2,3) wf(3) layout_build_digest [OF lb(1)] by simp
  then show ?thesis unfolding ss(2) posixipc_layout_digest_def f by simp
qed

text \<open>A sequence of one item.\<close>

fun item_answer :: "syscall \<Rightarrow> answer" where
  "item_answer (Py (ParseTuple f)) = answer0\<lparr>a_ret := 1\<rparr>"
| "item_answer (Py (SequenceSize ob)) = answer0\<lparr>a_ret := 1\<rparr>"
| "item_answer c = answer0"

definition item_world :: world where
  "item_world = \<lparr>env = \<lambda>h. item_answer, trace = []\<rparr>"

lemma answer_to_item: "env w = env item_world \<Longrightarrow> answer_to w c = item_answer c"
  by (simp add: answer_to_def item_world_def)

theorem layout_digest_agrees_witness:
  "\<exists>n w' w3. run (layout_get_digest glibc_x86_64 (one_mutex None)) py_world = ((Inr n, one_mutex None), w') \<and>
     run (mod_layout_digest glibc_x86_64 (\<lambda>_. (2, 8, 64, 2)) 1 (posixipc_abi_tag glibc_x86_64) (Obj 0)) item_world = (Inr n, w3)"
proof -
  obtain n w' where d: "run (layout_get_digest glibc_x86_64 (one_mutex None)) py_world = ((Inr n, one_mutex None), w')"
    by (simp add: layout_get_digest_def one_mutex_def layout_build_of_def posixipc_layout_build_def layout_step_def posixipc_kind_align_def
        posixipc_kind_size_def layout_align_up_def glibc_x86_64_def posixipc_state_from_obj_def posixipc_state_from_type_def long_from_def
        io_simps Let_def answer_to_py answer0_def word_le_nat_alt)
  obtain n2 w3 where m: "run (mod_layout_digest glibc_x86_64 (\<lambda>_. (2, 8, 64, 2)) 1 (posixipc_abi_tag glibc_x86_64) (Obj 0)) item_world = (Inr n2, w3)"
    by (simp add: mod_layout_digest_def long_from_def io_simps answer_to_item answer0_def)
  have "n2 = n"
    by (rule layout_digest_agrees [OF one_mutex_reachable d, where tuple = "\<lambda>_. (2, 8, 64, 2)" and seq = "Obj 0" and ?w2.0 = item_world and ?w3.0 = w3])
      (use m in \<open>simp_all add: item_world_def answer0_def one_mutex_def slot_fields_def\<close>)
  with d m show ?thesis by blast
qed

end
