(* ===== verification/Module.thy ===== *)
theory Module
  imports Pickle "HOL-Library.Sublist"
begin

text \<open>
  The module (\<^verbatim>\<open>src/src/bindings/module.c\<close>): its state, the two dictionaries that describe the build, the registration functions of
  the segment, mutex and synchronisation types (\<^verbatim>\<open>py_shm.c\<close>, \<^verbatim>\<open>py_mutex.c\<close>, \<^verbatim>\<open>py_sync.c\<close>; those of the other types stand with
  their objects) and the function that runs when the module is imported. The theorems say that an import that succeeds
  registers exactly the types of the build, that one that fails leaves a prefix of them, and that the dictionaries agree with the
  types and with the clocks the waiting functions use.
\<close>

section \<open>Dictionaries\<close>

datatype dict_value = DBool bool | DULong nat | DStr string

type_synonym dict = "string \<rightharpoonup> dict_value"

text \<open>\<^verbatim>\<open>PyDict_SetItemString\<close>.\<close>

definition dict_set :: "dict \<Rightarrow> string \<Rightarrow> dict_value \<Rightarrow> (pyexc option \<times> dict) io" where
  "dict_set d key v = do {
     a \<leftarrow> call (Py (DictSetItem key));
     ret (if a_ret a < 0 then (Some Pending, d) else (None, d(key \<mapsto> v))) }"

definition posixipc_dict_set_bool :: "dict \<Rightarrow> string \<Rightarrow> bool \<Rightarrow> (pyexc option \<times> dict) io" where
  "posixipc_dict_set_bool d key v = dict_set d key (DBool v)"

definition posixipc_dict_set_ulong :: "dict \<Rightarrow> string \<Rightarrow> nat \<Rightarrow> (pyexc option \<times> dict) io" where
  "posixipc_dict_set_ulong d key v = do {
     ob \<leftarrow> call (Py (LongFrom v));
     if a_ret ob < 0 then ret (Some Pending, d) else dict_set d key (DULong v) }"

definition posixipc_dict_set_string :: "dict \<Rightarrow> string \<Rightarrow> string \<Rightarrow> (pyexc option \<times> dict) io" where
  "posixipc_dict_set_string d key v = do {
     ob \<leftarrow> call (Py (UnicodeFrom v));
     if a_ret ob < 0 then ret (Some Pending, d) else dict_set d key (DStr v) }"

text \<open>A chain of calls joined by \<^verbatim>\<open>||\<close>: the first that fails ends it.\<close>

fun set_all :: "(string \<times> dict_value) list \<Rightarrow> dict \<Rightarrow> (pyexc option \<times> dict) io" where
  "set_all [] d = ret (None, d)"
| "set_all ((key, v) # kvs) d = do {
     (e, d) \<leftarrow> (case v of DBool b \<Rightarrow> posixipc_dict_set_bool d key b | DULong n \<Rightarrow> posixipc_dict_set_ulong d key n
                | DStr s \<Rightarrow> posixipc_dict_set_string d key s);
     if e \<noteq> None then ret (e, d) else set_all kvs d }"

text \<open>The switches of \<^verbatim>\<open>posixipc_config.h\<close> that only \<^verbatim>\<open>__build_info__\<close> reports.\<close>

record probes =
  HAVE_PTHREAD_MUTEXATTR_SETROBUST :: bool
  HAVE_PTHREAD_MUTEXATTR_SETPSHARED :: bool
  HAVE_PTHREAD_MUTEXATTR_SETPROTOCOL :: bool
  HAVE_PTHREAD_MUTEX_CLOCKLOCK :: bool
  HAVE_PTHREAD_RWLOCK_CLOCKRDLOCK :: bool
  HAVE_SEM_CLOCKWAIT :: bool
  HAVE_SHM_OPEN :: bool
  HAVE_FUTEX :: bool

definition build_entries :: "config \<Rightarrow> probes \<Rightarrow> (string \<times> dict_value) list" where
  "build_entries c b =
     [(''have_robust_mutex'', DBool (HAVE_PTHREAD_MUTEXATTR_SETROBUST b)),
      (''have_process_shared'', DBool (HAVE_PTHREAD_MUTEXATTR_SETPSHARED b)),
      (''have_prio_inherit'', DBool (HAVE_PTHREAD_MUTEXATTR_SETPROTOCOL b)),
      (''have_barrier'', DBool (HAVE_PTHREAD_BARRIER_WAIT c)),
      (''have_spinlock'', DBool (HAVE_PTHREAD_SPIN_TRYLOCK c)),
      (''have_named_semaphore'', DBool (HAVE_SEM_OPEN c)),
      (''have_cond_monotonic'', DBool (HAVE_PTHREAD_CONDATTR_SETCLOCK c)),
      (''have_memfd'', DBool (HAVE_MEMFD_CREATE c)),
      (''have_eventfd'', DBool (HAVE_EVENTFD c)),
      (''have_futex'', DBool (HAVE_FUTEX b)),
      (''have_mq'', DBool (HAVE_MQ_OPEN c)),
      (''have_mutex_clocklock'', DBool (HAVE_PTHREAD_MUTEX_CLOCKLOCK b)),
      (''have_rwlock_clocklock'', DBool (HAVE_PTHREAD_RWLOCK_CLOCKRDLOCK b)),
      (''have_sem_clockwait'', DBool (HAVE_SEM_CLOCKWAIT b)),
      (''have_shm_open'', DBool (HAVE_SHM_OPEN b)),
      (''sizeof_pthread_mutex_t'', DULong (unat (SIZEOF_PTHREAD_MUTEX_T c))),
      (''sizeof_pthread_rwlock_t'', DULong (unat (SIZEOF_PTHREAD_RWLOCK_T c))),
      (''sizeof_pthread_cond_t'', DULong (unat (SIZEOF_PTHREAD_COND_T c))),
      (''sizeof_pthread_barrier_t'', DULong (unat (SIZEOF_PTHREAD_BARRIER_T c))),
      (''sizeof_pthread_spinlock_t'', DULong (unat (SIZEOF_PTHREAD_SPINLOCK_T c))),
      (''sizeof_sem_t'', DULong (unat (SIZEOF_SEM_T c))),
      (''cacheline_bytes'', DULong (unat (CACHELINE_BYTES c))),
      (''abi_tag_seed'', DULong (unat (ABI_TAG_SEED c))),
      (''libc_family'', DULong (unat (LIBC_FAMILY c)))]"

definition posixipc_make_build_info :: "config \<Rightarrow> probes \<Rightarrow> dict pyres io" where
  "posixipc_make_build_info c b = do {
     a \<leftarrow> call (Py DictNew);
     if a_ret a < 0 then ret (Inl Pending)
     else do {
       (e, info) \<leftarrow> set_all (build_entries c b) Map.empty;
       case e of Some x \<Rightarrow> ret (Inl x) | None \<Rightarrow> do {
         (e, info) \<leftarrow> posixipc_dict_set_string info ''libc''
           (if LIBC_FAMILY c = 1 then ''glibc'' else if LIBC_FAMILY c = 2 then ''musl'' else ''other'');
         ret (case e of Some x \<Rightarrow> Inl x | None \<Rightarrow> Inr info) } } }"

definition posixipc_make_monotonic_timeouts :: "config \<Rightarrow> clocksym \<Rightarrow> (dict pyres \<times> clocksym) io" where
  "posixipc_make_monotonic_timeouts c g = do {
     a \<leftarrow> call (Py DictNew);
     if a_ret a < 0 then ret (Inl Pending, g)
     else do {
       (b, g) \<leftarrow> posixipc_have_mutex_clocklock g;
       (e, d) \<leftarrow> posixipc_dict_set_bool Map.empty ''mutex'' b;
       case e of Some x \<Rightarrow> ret (Inl x, g) | None \<Rightarrow> do {
         (b, g) \<leftarrow> posixipc_have_rwlock_clocklock g;
         (e, d) \<leftarrow> posixipc_dict_set_bool d ''rwlock'' b;
         case e of Some x \<Rightarrow> ret (Inl x, g) | None \<Rightarrow> do {
           (b, g) \<leftarrow> posixipc_have_sem_clockwait g;
           (e, d) \<leftarrow> posixipc_dict_set_bool d ''semaphore'' b;
           case e of Some x \<Rightarrow> ret (Inl x, g) | None \<Rightarrow> do {
             (e, d) \<leftarrow> posixipc_dict_set_bool d ''condition'' (HAVE_PTHREAD_CONDATTR_SETCLOCK c);
             ret (case e of Some x \<Rightarrow> Inl x | None \<Rightarrow> Inr d, g) } } } } }"

definition posixipc_empty_call :: "pyobj io" where
  "posixipc_empty_call = ret Py_None"

section \<open>Registration\<close>

definition posixipc_get_state :: "bool io" where
  "posixipc_get_state = do { a \<leftarrow> call (Py Module_GetState); ret (a_ret a \<ge> 0) }"

definition mod_attach_unchecked ::
    "config \<Rightarrow> (rat \<Rightarrow> rat) \<Rightarrow> nat \<Rightarrow> string \<Rightarrow> pyobj option \<Rightarrow> PosixIPCSharedMemoryObject pyres outcome io" where
  "mod_attach_unchecked c fl fuel name tobj = do {
     st \<leftarrow> posixipc_get_state;
     if \<not> st then ret (Returned (Inl Pending)) else shm_attach_unchecked c fl fuel name tobj }"

definition posixipc_shm_register :: "(pyexc option \<times> string list) io" where
  "posixipc_shm_register = do {
     (e, ts) \<leftarrow> register_type True ''SharedMemory'' [];
     if e \<noteq> None then ret (e, ts)
     else do { e \<leftarrow> add_functions [''_attach_unchecked'']; ret (e, ts) } }"

definition MUTEX_CAPSULE_NAME :: string where
  "MUTEX_CAPSULE_NAME = ''posixipc.mutex.v1''"

definition posixipc_mutex_register :: "(pyexc option \<times> string list) io" where
  "posixipc_mutex_register = do {
     (e, ts) \<leftarrow> register_type True ''Mutex'' [];
     if e \<noteq> None then ret (e, ts)
     else do {
       bases \<leftarrow> call (Py TuplePack);
       if a_ret bases < 0 then ret (Some Pending, ts)
       else do {
         (e, ts) \<leftarrow> register_type True ''RobustMutex'' ts;
         if e \<noteq> None then ret (e, ts)
         else do {
           a \<leftarrow> call (Py (AddStringConstant ''MUTEX_CAPSULE_NAME'' MUTEX_CAPSULE_NAME));
           ret (if a_ret a < 0 then Some Pending else None, ts) } } } }"

text \<open>The context manager type is kept in the state only, not in the module.\<close>

definition register_cm :: "string list \<Rightarrow> (pyexc option \<times> string list) io" where
  "register_cm ts = do {
     t \<leftarrow> call (Py (TypeFromSpec ''RWLockCM''));
     ret (if a_ret t < 0 then (Some Pending, ts) else (None, ts @ [''RWLockCM''])) }"

definition posixipc_sync_register :: "(pyexc option \<times> string list) io" where
  "posixipc_sync_register = do {
     (e, ts) \<leftarrow> register_type True ''RWLock'' [];
     if e \<noteq> None then ret (e, ts)
     else do {
       (e, ts) \<leftarrow> register_cm ts;
       if e \<noteq> None then ret (e, ts)
       else do {
         (e, ts) \<leftarrow> register_type True ''Condition'' ts;
         if e \<noteq> None then ret (e, ts) else register_type True ''Semaphore'' ts } } }"

section \<open>Importing and clearing the module\<close>

text \<open>
  \<^verbatim>\<open>posixipc_state\<close>: the type fields that are set are the list of their names, in the order in which they were set.
\<close>

record posixipc_state =
  st_build_info :: "dict option"
  st_monotonic_timeouts :: "dict option"
  st_exc_PosixIPCError :: "addr option"
  st_exc_NotRecoverableError :: "addr option"
  st_exc_ClosedError :: "addr option"
  st_exc_LayoutMismatchError :: "addr option"
  st_types :: "string list"

text \<open>The registrations one after the other, up to the first that fails.\<close>

fun register_all :: "(pyexc option \<times> string list) io list \<Rightarrow> string list \<Rightarrow> (pyexc option \<times> string list) io" where
  "register_all [] ts = ret (None, ts)"
| "register_all (m # ms) ts = do {
     (e, us) \<leftarrow> m;
     if e \<noteq> None then ret (e, ts @ us) else register_all ms (ts @ us) }"

definition attribute :: "string \<Rightarrow> addr option io" where
  "attribute name = do { a \<leftarrow> call (Py (GetAttr name)); ret (if a_ret a < 0 then None else Some (nat (a_ret a))) }"

definition load_exceptions :: "posixipc_state \<Rightarrow> (pyexc option \<times> posixipc_state) io" where
  "load_exceptions st = do {
     m \<leftarrow> call (Py (ImportModule ''posixipc.exceptions''));
     if a_ret m < 0 then ret (Some Pending, st)
     else do {
       e1 \<leftarrow> attribute ''PosixIPCError'';
       e2 \<leftarrow> attribute ''NotRecoverableError'';
       e3 \<leftarrow> attribute ''ClosedError'';
       e4 \<leftarrow> attribute ''LayoutMismatchError'';
       ret (if e1 = None \<or> e2 = None \<or> e3 = None \<or> e4 = None then Some Pending else None,
            st\<lparr>st_exc_PosixIPCError := e1, st_exc_NotRecoverableError := e2, st_exc_ClosedError := e3,
               st_exc_LayoutMismatchError := e4\<rparr>) } }"

definition register_types :: "config \<Rightarrow> posixipc_state \<Rightarrow> (pyexc option \<times> posixipc_state) io" where
  "register_types c st = do {
     (e, ts) \<leftarrow> register_all [posixipc_shm_register, posixipc_mutex_register, posixipc_sync_register, posixipc_m3_register c,
       posixipc_array_register, posixipc_queue_register c, posixipc_linux_register, posixipc_layout_register c] (st_types st);
     ret (e, st\<lparr>st_types := ts\<rparr>) }"

text \<open>The rest of the import from the registration of the types, from \<^verbatim>\<open>_monotonic_timeouts\<close> and from \<^verbatim>\<open>__build_info__\<close> on.\<close>

definition exec_types :: "config \<Rightarrow> clocksym \<Rightarrow> posixipc_state \<Rightarrow> (pyexc option \<times> posixipc_state \<times> clocksym) io" where
  "exec_types c g st = do {
     (e, st) \<leftarrow> register_types c st;
     if e \<noteq> None then ret (e, st, g)
     else do { e \<leftarrow> add_function ''_empty_call''; ret (e, st, g) } }"

definition exec_timeouts :: "config \<Rightarrow> clocksym \<Rightarrow> posixipc_state \<Rightarrow> (pyexc option \<times> posixipc_state \<times> clocksym) io" where
  "exec_timeouts c g st = do {
     (d, g) \<leftarrow> posixipc_make_monotonic_timeouts c g;
     case d of Inl x \<Rightarrow> ret (Some x, st\<lparr>st_monotonic_timeouts := None\<rparr>, g) | Inr d \<Rightarrow> do {
       a \<leftarrow> call (Py (AddObjectRef ''_monotonic_timeouts''));
       if a_ret a < 0 then ret (Some Pending, st\<lparr>st_monotonic_timeouts := Some d\<rparr>, g)
       else exec_types c g (st\<lparr>st_monotonic_timeouts := Some d\<rparr>) } }"

definition exec_build_info :: "config \<Rightarrow> probes \<Rightarrow> clocksym \<Rightarrow> posixipc_state \<Rightarrow> (pyexc option \<times> posixipc_state \<times> clocksym) io" where
  "exec_build_info c b g st = do {
     info \<leftarrow> posixipc_make_build_info c b;
     case info of Inl x \<Rightarrow> ret (Some x, st\<lparr>st_build_info := None\<rparr>, g) | Inr info \<Rightarrow> do {
       a \<leftarrow> call (Py (AddObjectRef ''__build_info__''));
       if a_ret a < 0 then ret (Some Pending, st\<lparr>st_build_info := Some info\<rparr>, g)
       else exec_timeouts c g (st\<lparr>st_build_info := Some info\<rparr>) } }"

definition posixipc_mod_exec ::
    "config \<Rightarrow> probes \<Rightarrow> clocksym \<Rightarrow> posixipc_state \<Rightarrow> (pyexc option \<times> posixipc_state \<times> clocksym) io" where
  "posixipc_mod_exec c b g st = do {
     present \<leftarrow> posixipc_get_state;
     if \<not> present then ret (Some Pending, st, g)
     else do {
       g \<leftarrow> posixipc_clocksym_init g;
       (e, st) \<leftarrow> load_exceptions st;
       if e \<noteq> None then ret (e, st, g) else exec_build_info c b g st } }"

definition empty_state :: posixipc_state where
  "empty_state = \<lparr>st_build_info = None, st_monotonic_timeouts = None, st_exc_PosixIPCError = None, st_exc_NotRecoverableError = None,
     st_exc_ClosedError = None, st_exc_LayoutMismatchError = None, st_types = []\<rparr>"

definition posixipc_mod_clear :: "posixipc_state \<Rightarrow> posixipc_state io" where
  "posixipc_mod_clear st = do {
     present \<leftarrow> posixipc_get_state;
     ret (if present then empty_state else st) }"

definition posixipc_mod_free :: "posixipc_state \<Rightarrow> posixipc_state io" where
  "posixipc_mod_free st = posixipc_mod_clear st"

section \<open>What an import registers\<close>

text \<open>A registration that starts with the types \<open>ts\<close> adds the types \<open>L\<close> in order: all of them, or some and an exception.\<close>

definition registers :: "string list \<Rightarrow> string list \<Rightarrow> (pyexc option \<times> string list) io \<Rightarrow> bool" where
  "registers ts L m \<longleftrightarrow> results (\<lambda>(e, us). prefix us (ts @ L) \<and> (e = None \<longrightarrow> us = ts @ L)) m"

lemma registers_type: "registers ts (if b then [n] else []) (register_type b n ts)"
  unfolding registers_def register_type_def by (auto intro!: results_call)

lemma registers_more: "registers ts [] (m \<bind> (\<lambda>e. ret (e, ts)))"
  unfolding registers_def by (rule results_skip) simp

lemma registers_cm: "registers ts [''RWLockCM''] (register_cm ts)"
  unfolding registers_def register_cm_def by (auto intro!: results_call)

lemma registers_seq:
  assumes "registers ts L m" and "registers (ts @ L) L' (f (ts @ L))"
  shows "registers ts (L @ L') (m \<bind> (\<lambda>(e, us). if e \<noteq> None then ret (e, us) else f us))"
  unfolding registers_def
proof (rule results_bind2 [OF assms(1) [unfolded registers_def]])
  fix e :: "pyexc option" and us assume "prefix us (ts @ L) \<and> (e = None \<longrightarrow> us = ts @ L)"
  then show "results (\<lambda>(e, us). prefix us (ts @ L @ L') \<and> (e = None \<longrightarrow> us = ts @ L @ L')) (if e \<noteq> None then ret (e, us) else f us)"
    using assms(2) unfolding registers_def by (auto elim: prefix_order.trans)
qed

lemma registers_all_Nil: "registers ts [] (register_all [] ts)"
  by (simp add: registers_def)

lemma registers_all_Cons:
  assumes "registers [] L m" and "registers (ts @ L) L' (register_all ms (ts @ L))"
  shows "registers ts (L @ L') (register_all (m # ms) ts)"
proof -
  have "registers ts L (m \<bind> (\<lambda>(e, us). ret (e, ts @ us)))"
    unfolding registers_def by (rule results_bind2 [OF assms(1) [unfolded registers_def]]) auto
  then have "registers ts (L @ L') ((m \<bind> (\<lambda>(e, us). ret (e, ts @ us))) \<bind> (\<lambda>(e, us). if e \<noteq> None then ret (e, us) else register_all ms us))"
    using assms(2) by (rule registers_seq)
  also have "((m \<bind> (\<lambda>(e, us). ret (e, ts @ us))) \<bind> (\<lambda>(e, us). if e \<noteq> None then ret (e, us) else register_all ms us)) = register_all (m # ms) ts"
    by (rule io_eqI) (simp add: io_simps split_beta)
  finally show ?thesis .
qed

definition module_types :: "config \<Rightarrow> string list" where
  "module_types c =
     [''SharedMemory'', ''Mutex'', ''RobustMutex'', ''RWLock'', ''RWLockCM'', ''Condition'', ''Semaphore''] @
     (if HAVE_PTHREAD_BARRIER_WAIT c then [''Barrier''] else []) @ (if HAVE_PTHREAD_SPIN_TRYLOCK c then [''SpinLock''] else []) @
     (if HAVE_SEM_OPEN c then [''NamedSemaphore''] else []) @ [''MutexArray'', ''MutexArrayItem'', ''Queue''] @
     (if HAVE_MQ_OPEN c then [''NamedMessageQueue''] else []) @
     [''Futex'', ''EventFD'', ''MemFD'', ''FutexQueue'', ''SharedBytes'', ''Layout'']"

lemmas register_defs = posixipc_shm_register_def posixipc_mutex_register_def posixipc_sync_register_def posixipc_m3_register_def
  posixipc_array_register_def posixipc_queue_register_def posixipc_linux_register_def posixipc_layout_register_def posixipc_bytes_register_def

lemma registers_seqI:
  "registers ts L m \<Longrightarrow> registers (ts @ L) L' (f (ts @ L)) \<Longrightarrow> K = L @ L' \<Longrightarrow>
   registers ts K (m \<bind> (\<lambda>(e, us). if e \<noteq> None then ret (e, us) else f us))"
  using registers_seq by blast

lemma registers_call: "(\<And>x. registers ts L (f x)) \<Longrightarrow> registers ts L (call s \<bind> f)"
  unfolding registers_def by (rule results_skip)

lemma registers_done: "registers ts [] (ret (e, ts))"
  by (simp add: registers_def)

lemma registers_or_fail: "registers ts L m \<Longrightarrow> registers ts L (if b then ret (Some x, ts) else m)"
  by (simp add: registers_def)

lemma registers_step: "registers ts L m' \<Longrightarrow> registers ts L (m \<bind> (\<lambda>e. if e \<noteq> None then ret (e, ts) else m'))"
  unfolding registers_def by (rule results_skip) auto

lemma registers_all_ConsI:
  "registers [] L m \<Longrightarrow> registers (ts @ L) L' (register_all ms (ts @ L)) \<Longrightarrow> K = L @ L' \<Longrightarrow> registers ts K (register_all (m # ms) ts)"
  using registers_all_Cons by blast

lemmas registers_intro = registers_seqI registers_type registers_cm registers_more registers_call registers_or_fail registers_done registers_step

lemma registers_core:
  "registers [] [''SharedMemory''] posixipc_shm_register"
  "registers [] [''Mutex'', ''RobustMutex''] posixipc_mutex_register"
  "registers [] [''RWLock'', ''RWLockCM'', ''Condition'', ''Semaphore''] posixipc_sync_register"
  "registers [] [''MutexArray'', ''MutexArrayItem''] posixipc_array_register"
  "registers [] [''Futex'', ''EventFD'', ''MemFD'', ''FutexQueue''] posixipc_linux_register"
  "registers [] [''SharedBytes'', ''Layout''] (posixipc_layout_register c)"
  unfolding register_defs by (rule registers_intro refl | simp)+

lemma registers_optional:
  "registers [] ((if HAVE_PTHREAD_BARRIER_WAIT c then [''Barrier''] else []) @ (if HAVE_PTHREAD_SPIN_TRYLOCK c then [''SpinLock''] else []) @
     (if HAVE_SEM_OPEN c then [''NamedSemaphore''] else [])) (posixipc_m3_register c)"
  "registers [] (''Queue'' # (if HAVE_MQ_OPEN c then [''NamedMessageQueue''] else [])) (posixipc_queue_register c)"
  unfolding register_defs by (rule registers_intro refl | simp)+

lemma register_types_results:
  "results (\<lambda>(e, st'). prefix (st_types st') (st_types st @ module_types c) \<and> (e = None \<longrightarrow> st_types st' = st_types st @ module_types c) \<and>
     st' = st\<lparr>st_types := st_types st'\<rparr>) (register_types c st)"
proof -
  have "registers (st_types st) (module_types c) (register_all [posixipc_shm_register, posixipc_mutex_register, posixipc_sync_register,
     posixipc_m3_register c, posixipc_array_register, posixipc_queue_register c, posixipc_linux_register, posixipc_layout_register c] (st_types st))"
    by (rule registers_all_ConsI registers_all_Nil registers_core registers_optional refl | simp add: module_types_def)+
  then show ?thesis unfolding register_types_def registers_def by (rule results_bind) auto
qed

section \<open>What the dictionaries say\<close>

lemma dict_set_results: "results (\<lambda>(e, d'). e = None \<longrightarrow> d' = d(k \<mapsto> v)) (dict_set d k v)"
  unfolding dict_set_def by (rule results_call) simp

lemma set_all_results: "results (\<lambda>(e, d'). e = None \<longrightarrow> d' = d ++ map_of (rev kvs)) (set_all kvs d)"
proof (induction kvs d rule: set_all.induct)
  case (2 key v kvs d)
  have one: "results (\<lambda>(e, d'). e = None \<longrightarrow> d' = d(key \<mapsto> v)) (case v of DBool b \<Rightarrow> posixipc_dict_set_bool d key b
      | DULong n \<Rightarrow> posixipc_dict_set_ulong d key n | DStr s \<Rightarrow> posixipc_dict_set_string d key s)"
    by (cases v) (auto simp: posixipc_dict_set_bool_def posixipc_dict_set_ulong_def posixipc_dict_set_string_def dict_set_results intro: results_call)
  show ?case unfolding set_all.simps
    by (rule results_bind2 [OF one]) (use 2 in \<open>auto simp: map_add_assoc\<close>)
qed simp

lemma ret_bind [simp]: "ret x \<bind> f = f x"
  by (rule io_eqI) (simp add: io_simps)

lemma map_of_rev_keys: "distinct (map fst xs) \<Longrightarrow> map_of (rev xs) = map_of xs"
  by (induction xs) (auto simp: map_add_def fun_eq_iff image_iff split: option.split dest: map_of_SomeD)

definition build_dict :: "config \<Rightarrow> probes \<Rightarrow> dict" where
  "build_dict c b = (map_of (build_entries c b))(''libc'' \<mapsto>
     DStr (if LIBC_FAMILY c = 1 then ''glibc'' else if LIBC_FAMILY c = 2 then ''musl'' else ''other''))"

lemma build_info_results: "results (\<lambda>r. r = Inl (projl r) \<or> r = Inr (build_dict c b)) (posixipc_make_build_info c b)"
proof -
  have "distinct (map fst (build_entries c b))" by (simp add: build_entries_def)
  note keys = map_of_rev_keys [OF this]
  show ?thesis
    unfolding posixipc_make_build_info_def posixipc_dict_set_string_def
    by (intro results_call results_if results_bind2 [OF set_all_results])
      (auto simp: keys build_dict_def split: option.splits intro!: results_call results_bind2 [OF dict_set_results])
qed

lemma clocksym_init_results: "results g_inited (posixipc_clocksym_init g)"
  unfolding posixipc_clocksym_init_def dlsym_def by (auto intro!: results_skip)

lemma monotonic_results:
  assumes "g_inited g"
  shows "results (\<lambda>(r, g'). g' = g \<and> (\<forall>d. r = Inr d \<longrightarrow>
           d ''mutex'' = Some (DBool (g_mutex_clocklock g \<noteq> None)) \<and>
           d ''rwlock'' = Some (DBool (g_rwlock_clockrdlock g \<noteq> None \<and> g_rwlock_clockwrlock g \<noteq> None)) \<and>
           d ''semaphore'' = Some (DBool (g_sem_clockwait g \<noteq> None)) \<and>
           d ''condition'' = Some (DBool (HAVE_PTHREAD_CONDATTR_SETCLOCK c)))) (posixipc_make_monotonic_timeouts c g)"
proof -
  note have_it = posixipc_have_mutex_clocklock_def posixipc_have_rwlock_clocklock_def posixipc_have_sem_clockwait_def
    posixipc_clocksym_init_def posixipc_dict_set_bool_def
  show ?thesis
    using assms unfolding posixipc_make_monotonic_timeouts_def have_it
    by (auto simp: ret_bind split: option.splits intro!: results_call results_bind2 [OF dict_set_results])
qed

section \<open>The import\<close>

lemma load_exceptions_results:
  "results (\<lambda>(e, st'). st_types st' = st_types st \<and> (e = None \<longrightarrow> st_exc_PosixIPCError st' \<noteq> None \<and> st_exc_NotRecoverableError st' \<noteq> None \<and>
     st_exc_ClosedError st' \<noteq> None \<and> st_exc_LayoutMismatchError st' \<noteq> None)) (load_exceptions st)"
  unfolding load_exceptions_def by (auto intro!: results_skip)

text \<open>
  What the clock functions answer after the import is what \<^verbatim>\<open>_monotonic_timeouts\<close> says.
\<close>

definition clocks_agree :: "clocksym \<Rightarrow> dict \<Rightarrow> bool" where
  "clocks_agree g d \<longleftrightarrow> (\<forall>w.
     d ''mutex'' = Some (DBool (fst (fst (run (posixipc_mutex_clock g) w)) = CLOCK_MONOTONIC)) \<and>
     d ''rwlock'' = Some (DBool (fst (fst (run (posixipc_rwlock_clock g) w)) = CLOCK_MONOTONIC)) \<and>
     d ''semaphore'' = Some (DBool (fst (fst (run (posixipc_sem_clock g) w)) = CLOCK_MONOTONIC)))"

lemma clocks_agreeI:
  assumes "g_inited g" and "d ''mutex'' = Some (DBool (g_mutex_clocklock g \<noteq> None))"
    and "d ''rwlock'' = Some (DBool (g_rwlock_clockrdlock g \<noteq> None \<and> g_rwlock_clockwrlock g \<noteq> None))"
    and "d ''semaphore'' = Some (DBool (g_sem_clockwait g \<noteq> None))"
  shows "clocks_agree g d"
  using assms unfolding clocks_agree_def posixipc_mutex_clock_def posixipc_rwlock_clock_def posixipc_sem_clock_def posixipc_have_mutex_clocklock_def
    posixipc_have_rwlock_clocklock_def posixipc_have_sem_clockwait_def posixipc_clocksym_init_def
  by (auto simp: io_simps)

text \<open>
  The same for condition variables, whose clock is fixed when they are initialised: that of a private \<^verbatim>\<open>Condition\<close> and of the two
  conditions of a \<^verbatim>\<open>Queue\<close>.
\<close>

definition condition_agrees :: "config \<Rightarrow> dict \<Rightarrow> bool" where
  "condition_agrees c d \<longleftrightarrow>
     (\<forall>ob mutex im ps w ob' w'. run (cond_init c ob mutex im ps) w = ((None, ob'), w') \<longrightarrow>
        d ''condition'' = Some (DBool (posixipc_cond_clock (x_init_flags ob') = CLOCK_MONOTONIC))) \<and>
     (\<forall>t dep k first w q w'. run (posixipc_queue_new_unbound c t dep k first) w = (Inr q, w') \<longrightarrow>
        d ''condition'' = Some (DBool (posixipc_cond_clock (qo_cond_flags q) = CLOCK_MONOTONIC)))"

lemma cond_init_flags:
  "run (cond_init c ob mutex im ps) w = ((None, ob'), w') \<Longrightarrow>
   x_init_flags ob' = (if HAVE_PTHREAD_CONDATTR_SETCLOCK c then FLAG_MONOTONIC else 0) OR FLAG_OWNS_STORAGE"
  by (auto simp: cond_init_def run_bind run_ret run_if Let_def split: prod.splits option.splits if_splits)

lemma condition_agreesI:
  assumes "d ''condition'' = Some (DBool (HAVE_PTHREAD_CONDATTR_SETCLOCK c))"
  shows "condition_agrees c d"
  using assms unfolding condition_agrees_def
  by (auto simp: posixipc_cond_clock_def flag_set_def posixipc_queue_new_unbound_def run_bind run_ret run_call
      dest!: cond_init_flags split: if_splits)

definition imported :: "config \<Rightarrow> probes \<Rightarrow> clocksym \<Rightarrow> posixipc_state \<Rightarrow> bool" where
  "imported c b g st \<longleftrightarrow> st_types st = module_types c \<and> st_build_info st = Some (build_dict c b) \<and>
     st_exc_PosixIPCError st \<noteq> None \<and> st_exc_NotRecoverableError st \<noteq> None \<and> st_exc_ClosedError st \<noteq> None \<and> st_exc_LayoutMismatchError st \<noteq> None \<and>
     (\<exists>d. st_monotonic_timeouts st = Some d \<and> clocks_agree g d \<and> d ''condition'' = Some (DBool (HAVE_PTHREAD_CONDATTR_SETCLOCK c)))"

definition import_post :: "config \<Rightarrow> probes \<Rightarrow> pyexc option \<times> posixipc_state \<times> clocksym \<Rightarrow> bool" where
  "import_post c b = (\<lambda>(e, st, g). prefix (st_types st) (module_types c) \<and> (e = None \<longrightarrow> imported c b g st))"

lemma import_post_failed [simp]: "st_types st = [] \<Longrightarrow> import_post c b (Some x, st, g)"
  by (simp add: import_post_def)

text \<open>What holds before the dictionaries are made.\<close>

definition exec_ready :: "clocksym \<Rightarrow> posixipc_state \<Rightarrow> bool" where
  "exec_ready g st \<longleftrightarrow> g_inited g \<and> st_types st = [] \<and> st_exc_PosixIPCError st \<noteq> None \<and> st_exc_NotRecoverableError st \<noteq> None \<and>
     st_exc_ClosedError st \<noteq> None \<and> st_exc_LayoutMismatchError st \<noteq> None"

lemma exec_types_results:
  assumes "st_types st = []" and "imported c b g (st\<lparr>st_types := module_types c\<rparr>)"
  shows "results (import_post c b) (exec_types c g st)"
  unfolding exec_types_def
proof (rule results_bind2 [OF register_types_results])
  fix e :: "pyexc option" and st' assume "prefix (st_types st') (st_types st @ module_types c) \<and>
    (e = None \<longrightarrow> st_types st' = st_types st @ module_types c) \<and> st' = st\<lparr>st_types := st_types st'\<rparr>"
  with assms have "prefix (st_types st') (module_types c) \<and> (e = None \<longrightarrow> imported c b g st')" by auto
  then show "results (import_post c b) (if e \<noteq> None then ret (e, st', g) else add_function ''_empty_call'' \<bind> (\<lambda>e. ret (e, st', g)))"
    by (auto simp: import_post_def intro!: results_skip)
qed

lemma exec_timeouts_results:
  assumes "exec_ready g st" and "st_build_info st = Some (build_dict c b)"
  shows "results (import_post c b) (exec_timeouts c g st)"
  unfolding exec_timeouts_def using assms
  by (intro results_bind2 [OF monotonic_results])
    (auto split: sum.split intro!: results_call results_if exec_types_results clocks_agreeI simp: imported_def exec_ready_def)

lemma exec_build_info_results: "exec_ready g st \<Longrightarrow> results (import_post c b) (exec_build_info c b g st)"
  unfolding exec_build_info_def
proof (rule results_bind [OF build_info_results])
  fix info :: "dict pyres" assume "exec_ready g st" and "info = Inl (projl info) \<or> info = Inr (build_dict c b)"
  then show "results (import_post c b) (case info of Inl x \<Rightarrow> ret (Some x, st\<lparr>st_build_info := None\<rparr>, g)
      | Inr info \<Rightarrow> call (Py (AddObjectRef ''__build_info__'')) \<bind> (\<lambda>a. if a_ret a < 0 then ret (Some Pending, st\<lparr>st_build_info := Some info\<rparr>, g)
          else exec_timeouts c g (st\<lparr>st_build_info := Some info\<rparr>)))"
    by (cases info; simp add: exec_ready_def; intro results_call results_if exec_timeouts_results) (simp_all add: exec_ready_def)
qed

lemma mod_exec_results:
  assumes "st_types st = []" shows "results (import_post c b) (posixipc_mod_exec c b g st)"
  unfolding posixipc_mod_exec_def
proof (rule results_skip, rule results_if)
  fix present
  show "results (import_post c b) (posixipc_clocksym_init g \<bind> (\<lambda>g. load_exceptions st \<bind> (\<lambda>(e, st).
      if e \<noteq> None then ret (e, st, g) else exec_build_info c b g st)))"
    using assms by (intro results_bind [OF clocksym_init_results] results_bind2 [OF load_exceptions_results])
      (auto simp: exec_ready_def intro!: exec_build_info_results)
qed (simp add: assms)

lemma module_types_optional:
  "''Barrier'' \<in> set (module_types c) \<longleftrightarrow> HAVE_PTHREAD_BARRIER_WAIT c" "''SpinLock'' \<in> set (module_types c) \<longleftrightarrow> HAVE_PTHREAD_SPIN_TRYLOCK c"
  "''NamedSemaphore'' \<in> set (module_types c) \<longleftrightarrow> HAVE_SEM_OPEN c" "''NamedMessageQueue'' \<in> set (module_types c) \<longleftrightarrow> HAVE_MQ_OPEN c"
  "distinct (module_types c)"
  by (simp_all add: module_types_def)


text \<open>An interpreter in which every call succeeds, and a C library with the clock functions except the one for semaphores.\<close>

definition import_answer :: "syscall \<Rightarrow> answer" where
  "import_answer s = answer0\<lparr>a_ret := (if s = Dlsym ''sem_clockwait'' then -1 else 0)\<rparr>"

definition import_world :: world where
  "import_world = \<lparr>env = \<lambda>h. import_answer, trace = []\<rparr>"

lemma answer_to_import: "env w = env import_world \<Longrightarrow> a_ret (answer_to w s) = (if s = Dlsym ''sem_clockwait'' then -1 else 0)"
  by (simp add: answer_to_def import_world_def import_answer_def)

definition all_probes :: probes where
  "all_probes = \<lparr>HAVE_PTHREAD_MUTEXATTR_SETROBUST = True, HAVE_PTHREAD_MUTEXATTR_SETPSHARED = True, HAVE_PTHREAD_MUTEXATTR_SETPROTOCOL = True,
     HAVE_PTHREAD_MUTEX_CLOCKLOCK = True, HAVE_PTHREAD_RWLOCK_CLOCKRDLOCK = True, HAVE_SEM_CLOCKWAIT = False, HAVE_SHM_OPEN = True, HAVE_FUTEX = True\<rparr>"

definition no_clocksym :: clocksym where
  "no_clocksym = \<lparr>g_mutex_clocklock = None, g_rwlock_clockrdlock = None, g_rwlock_clockwrlock = None, g_sem_clockwait = None, g_inited = False\<rparr>"

text \<open>An operation that ends without exception there.\<close>

definition import_ok :: "(pyexc option \<times> 'a) io \<Rightarrow> bool" where
  "import_ok m \<longleftrightarrow> (\<forall>w. env w = env import_world \<longrightarrow> (\<exists>x w'. run m w = ((None, x), w') \<and> env w' = env import_world))"

lemma import_okD: "import_ok m \<Longrightarrow> env w = env import_world \<Longrightarrow> \<exists>x w'. run m w = ((None, x), w') \<and> env w' = env import_world"
  by (simp add: import_ok_def)

lemma import_ok_result: "import_ok m \<Longrightarrow> env w = env import_world \<Longrightarrow> \<exists>a b w'. run m w = ((None, a, b), w')"
  by (fastforce dest: import_okD)

lemma import_ok_bind: "import_ok m \<Longrightarrow> (\<And>x. import_ok (f (None, x))) \<Longrightarrow> import_ok (m \<bind> f)"
  unfolding import_ok_def run_bind by fastforce

lemma import_ok_ret: "import_ok (ret (None, x))"
  by (simp add: import_ok_def io_simps)

lemma import_ok_call: "s \<noteq> Dlsym ''sem_clockwait'' \<Longrightarrow> (\<And>a. a_ret a = 0 \<Longrightarrow> import_ok (f a)) \<Longrightarrow> import_ok (call s \<bind> f)"
  unfolding import_ok_def by (auto simp: io_simps answer_to_import)

lemma import_ok_if: "\<not> b \<Longrightarrow> import_ok m' \<Longrightarrow> import_ok (if b then m else m')"
  by simp

lemma import_ok_type: "import_ok (register_type b n ts)"
  unfolding register_type_def by (auto intro!: import_ok_call simp: import_ok_ret)

lemma import_ok_cm: "import_ok (register_cm ts)"
  unfolding register_cm_def by (rule import_ok_call) (simp_all add: import_ok_ret)

lemma run_add_function: "env w = env import_world \<Longrightarrow> \<exists>w'. run (add_function n) w = (None, w') \<and> env w' = env import_world"
  by (simp add: add_function_def io_simps answer_to_import)

lemma run_add_functions: "env w = env import_world \<Longrightarrow> \<exists>w'. run (add_functions ns) w = (None, w') \<and> env w' = env import_world"
proof (induction ns arbitrary: w)
  case (Cons n ns)
  obtain w1 where "run (add_function n) w = (None, w1)" "env w1 = env import_world" using run_add_function [OF Cons.prems] by blast
  then show ?case using Cons.IH by (simp add: io_simps)
qed (simp add: io_simps)

lemma run_add_constants: "env w = env import_world \<Longrightarrow> \<exists>w'. run (add_constants vs) w = (None, w') \<and> env w' = env import_world"
proof (induction vs arbitrary: w)
  case (Cons v vs)
  then show ?case by (cases v) (simp add: io_simps answer_to_import)
qed (simp add: io_simps)

lemma import_ok_adds:
  "import_ok (f None) \<Longrightarrow> import_ok (add_function n \<bind> f)" "import_ok (f None) \<Longrightarrow> import_ok (add_functions ns \<bind> f)"
  "import_ok (f None) \<Longrightarrow> import_ok (add_constants vs \<bind> f)"
  unfolding import_ok_def run_bind by (metis (no_types, lifting) old.prod.case run_add_function run_add_functions run_add_constants)+

lemma import_ok_registers:
  "import_ok posixipc_shm_register" "import_ok posixipc_mutex_register" "import_ok posixipc_sync_register"
  "import_ok (posixipc_m3_register c)" "import_ok posixipc_array_register" "import_ok (posixipc_queue_register c)"
  "import_ok posixipc_linux_register" "import_ok (posixipc_layout_register c)"
  unfolding register_defs
  by (rule import_ok_type import_ok_cm import_ok_adds import_ok_call import_ok_bind import_ok_if import_ok_ret | simp add: import_ok_ret import_ok_type)+

lemma import_ok_all: "list_all import_ok ms \<Longrightarrow> import_ok (register_all ms ts)"
  by (induction ms arbitrary: ts) (auto intro!: import_ok_ret import_ok_bind)

lemma import_ok_set: "import_ok (set_all kvs d)"
proof (induction kvs d rule: set_all.induct)
  case (2 key v kvs d)
  have "import_ok (case v of DBool b \<Rightarrow> posixipc_dict_set_bool d key b | DULong n \<Rightarrow> posixipc_dict_set_ulong d key n
      | DStr s \<Rightarrow> posixipc_dict_set_string d key s)"
    by (cases v) (auto simp: posixipc_dict_set_bool_def posixipc_dict_set_ulong_def posixipc_dict_set_string_def dict_set_def import_ok_ret
        intro!: import_ok_call)
  then show ?case using 2 by (auto intro!: import_ok_bind)
qed (simp add: import_ok_ret)

lemma import_succeeds: "\<exists>st g w'. run (posixipc_mod_exec glibc_x86_64 all_probes no_clocksym empty_state) import_world = ((None, st, g), w')"
proof -
  have types: "import_ok (exec_types c g st)" for c g st
    unfolding exec_types_def register_types_def
    by (intro import_ok_bind import_ok_all) (simp_all add: import_ok_registers import_ok_ret import_ok_adds)
  have timeouts: "import_ok (exec_timeouts c g st)" if "g_inited g" for c g st
    using that unfolding exec_timeouts_def posixipc_make_monotonic_timeouts_def posixipc_have_mutex_clocklock_def posixipc_have_rwlock_clocklock_def
      posixipc_have_sem_clockwait_def posixipc_clocksym_init_def posixipc_dict_set_bool_def dict_set_def import_ok_def
    by (simp add: io_simps answer_to_import) (use import_okD [OF types] in fastforce)
  have info: "import_ok (exec_build_info c b g st)" if "g_inited g" for c b g st
    unfolding import_ok_def
  proof (intro allI impI)
    fix w :: world assume w: "env w = env import_world"
    then have "env (after w (Py DictNew)) = env import_world" by simp
    from import_okD [OF import_ok_set this, of "build_entries c b" Map.empty] obtain d w1
      where "run (set_all (build_entries c b) Map.empty) (after w (Py DictNew)) = ((None, d), w1)" "env w1 = env import_world" by blast
    with w that show "\<exists>x w'. run (exec_build_info c b g st) w = ((None, x), w') \<and> env w' = env import_world"
      by (simp add: exec_build_info_def posixipc_make_build_info_def posixipc_dict_set_string_def dict_set_def io_simps answer_to_import)
        (use import_okD [OF timeouts] in fastforce)
  qed
  have "\<exists>x w'. run (posixipc_mod_exec glibc_x86_64 all_probes no_clocksym empty_state) import_world = ((None, x), w')"
    by (simp add: posixipc_mod_exec_def posixipc_get_state_def posixipc_clocksym_init_def no_clocksym_def dlsym_def load_exceptions_def attribute_def
        io_simps answer_to_import) (rule import_ok_result [OF info], simp_all)
  then show ?thesis by fast
qed


end
