(* ===== verification/Capsule.thy ===== *)
theory Capsule
  imports MutexObj
begin

text \<open>
  The public C header (\<^verbatim>\<open>src/src/posixipc/posixipc.h\<close>, installed as \<^verbatim>\<open>src/include/posixipc.h\<close>): the functions with which another
  extension takes the lock out of a capsule made by \<^verbatim>\<open>as_capsule()\<close> and keeps the segment mapped while it uses the lock. The theorem
  says that the lock it gets is that of the mutex object and stays mapped while the mutex object is bound or the capsule exists,
  whatever the other parties close; a retained use alone holds a pin but no reference, and does not keep the segment from being deallocated.
\<close>

section \<open>The interface of a capsule\<close>

text \<open>\<^verbatim>\<open>posixipc_mutex_capsule\<close>: the struct a capsule points to. The function pointers are the functions; NULL is \<^const>\<open>None\<close>.\<close>

record posixipc_mutex_capsule =
  mc_version :: u32
  mc_mutex :: "addr option"
  mc_retain :: "(regions \<Rightarrow> (pyexc option \<times> regions) io) option"
  mc_release :: "(regions \<Rightarrow> (pyexc option \<times> regions) io) option"

text \<open>The public part of a capsule as \<^verbatim>\<open>posixipc_mutex_capsule_new\<close> fills it in.\<close>

definition capsule_pub :: "posixipc_mutex_capsule_impl \<Rightarrow> posixipc_mutex_capsule" where
  "capsule_pub impl = \<lparr>mc_version = cap_version impl, mc_mutex = Some (cap_mutex impl), mc_retain = Some (capsule_retain impl),
     mc_release = Some (\<lambda>H. ret (capsule_release impl H))\<rparr>"

definition posixipc_mutex_capsule_get :: "posixipc_mutex_capsule \<Rightarrow> posixipc_mutex_capsule pyres io" where
  "posixipc_mutex_capsule_get ctx = do {
     a \<leftarrow> call (Py (Capsule_GetPointer ''posixipc.mutex.v1''));
     ret (if a_ret a < 0 then Inl Pending
          else if mc_version ctx \<noteq> 1 \<or> mc_mutex ctx = None \<or> mc_retain ctx = None \<or> mc_release ctx = None then Inl ValueError
          else Inr ctx) }"

definition posixipc_mutex_from_capsule :: "posixipc_mutex_capsule \<Rightarrow> addr pyres io" where
  "posixipc_mutex_from_capsule ctx = do {
     r \<leftarrow> posixipc_mutex_capsule_get ctx;
     ret (case r of Inl e \<Rightarrow> Inl e | Inr ctx \<Rightarrow> Inr (the (mc_mutex ctx))) }"

definition posixipc_mutex_capsule_retain :: "posixipc_mutex_capsule \<Rightarrow> regions \<Rightarrow> (pyexc option \<times> regions) io" where
  "posixipc_mutex_capsule_retain ctx H = do {
     r \<leftarrow> posixipc_mutex_capsule_get ctx;
     case r of Inl e \<Rightarrow> ret (Some e, H) | Inr ctx \<Rightarrow> the (mc_retain ctx) H }"

definition posixipc_mutex_capsule_release :: "posixipc_mutex_capsule \<Rightarrow> regions \<Rightarrow> (pyexc option \<times> regions) io" where
  "posixipc_mutex_capsule_release ctx H = do {
     r \<leftarrow> posixipc_mutex_capsule_get ctx;
     case r of Inl e \<Rightarrow> ret (Some e, H) | Inr ctx \<Rightarrow> the (mc_release ctx) H }"

section \<open>The parties\<close>

text \<open>
  What can happen once a capsule exists: its user retains and releases the lock (only while it has the capsule, and never more releases
  than retains), drops the capsule, the Python program closes the mutex object, tries to close the segment, or drops its reference to
  the segment object. The state is the mutex object, whether the capsule exists, the number of retains, whether the program refers to the
  segment object, and the segments.
\<close>

datatype capsule_act = Retain | Release | DropCapsule | CloseMutex | CloseSegment | DropSegment

type_synonym capsule_state = "PosixIPCMutexObject \<times> bool \<times> nat \<times> bool \<times> regions"

text \<open>
  References to the segment object: the program has one, the mutex object while it is bound, the capsule, and each of the \<open>others\<close>, the
  other handles bound to it. A retain pins the segment and takes no reference. When the last reference goes, the object is deallocated,
  which closes the segment by force.
\<close>

definition referenced :: "nat \<Rightarrow> capsule_state \<Rightarrow> bool" where
  "referenced others = (\<lambda>(m, alive, n, prog, H). 0 < others \<or> m_region m \<noteq> None \<or> alive \<or> prog)"

definition unref_segment :: "nat \<Rightarrow> addr \<Rightarrow> capsule_state \<Rightarrow> capsule_state io" where
  "unref_segment others r s =
     (if referenced others s then ret s
      else case s of (m, alive, n, prog, H) \<Rightarrow> do { ob \<leftarrow> shm_dealloc (H r); ret (m, alive, n, prog, H(r := ob)) })"

fun capsule_step :: "nat \<Rightarrow> addr \<Rightarrow> posixipc_mutex_capsule_impl \<Rightarrow> addr \<Rightarrow> capsule_act \<Rightarrow> capsule_state \<Rightarrow> capsule_state io" where
  "capsule_step others p impl r Retain (m, alive, n, prog, H) =
     (if \<not> alive then ret (m, alive, n, prog, H)
      else do { (e, H) \<leftarrow> posixipc_mutex_capsule_retain (capsule_pub impl) H; ret (m, alive, if e = None then n + 1 else n, prog, H) })"
| "capsule_step others p impl r Release (m, alive, n, prog, H) =
     (if \<not> alive \<or> n = 0 then ret (m, alive, n, prog, H)
      else do { (e, H) \<leftarrow> posixipc_mutex_capsule_release (capsule_pub impl) H; ret (m, alive, if e = None then n - 1 else n, prog, H) })"
| "capsule_step others p impl r DropCapsule (m, alive, n, prog, H) =
     (if \<not> alive then ret (m, alive, n, prog, H)
      else do { H \<leftarrow> capsule_destructor (Some (p, impl)) H; unref_segment others r (m, False, n, prog, H) })"
| "capsule_step others p impl r CloseMutex (m, alive, n, prog, H) = do {
     (x, m', H) \<leftarrow> mutex_close m H;
     if m_region m' = m_region m then ret (m', alive, n, prog, H) else unref_segment others r (m', alive, n, prog, H) }"
| "capsule_step others p impl r CloseSegment (m, alive, n, prog, H) =
     (if \<not> prog then ret (m, alive, n, prog, H)
      else do { (x, ob) \<leftarrow> shm_close (H r); ret (m, alive, n, prog, H(r := ob)) })"
| "capsule_step others p impl r DropSegment (m, alive, n, prog, H) =
     (if \<not> prog then ret (m, alive, n, prog, H) else unref_segment others r (m, alive, n, False, H))"

fun capsule_steps ::
    "nat \<Rightarrow> addr \<Rightarrow> posixipc_mutex_capsule_impl \<Rightarrow> addr \<Rightarrow> capsule_act list \<Rightarrow> capsule_state \<Rightarrow> capsule_state io" where
  "capsule_steps others p impl r [] s = ret s"
| "capsule_steps others p impl r (a # as) s = do { s \<leftarrow> capsule_step others p impl r a s; capsule_steps others p impl r as s }"

section \<open>The invariant\<close>

text \<open>
  The pins of the segment are those of the other handles, one of the mutex object while it is bound, one of the capsule and one for
  each retain; while there is any and the segment object is referenced, the segment is open and mapped where it was. \<open>K\<close> bounds the
  number of retains.
\<close>

definition capsule_inv :: "addr \<Rightarrow> posixipc_shm \<Rightarrow> nat \<Rightarrow> nat \<Rightarrow> regions \<Rightarrow> capsule_state \<Rightarrow> bool" where
  "capsule_inv r core others K H0 = (\<lambda>(m, alive, n, prog, H).
     (m_region m = None \<or> m_region m = Some r) \<and> n \<le> K \<and>
     unat (s_pins (H r)) = others + of_bool (m_region m \<noteq> None) + of_bool alive + n \<and>
     (referenced others (m, alive, n, prog, H) \<and> s_pins (H r) \<noteq> 0 \<longrightarrow> \<not> shm_is_closed (H r) \<and> s_core (H r) = core) \<and>
     (\<forall>r'. r' \<noteq> r \<longrightarrow> H r' = H0 r'))"

lemma referenced_simp [simp]:
  "referenced others (m, alive, n, prog, H) \<longleftrightarrow> 0 < others \<or> m_region m \<noteq> None \<or> alive \<or> prog"
  by (simp add: referenced_def)

lemma run_capsule_get:
  assumes "cap_version impl = 1"
  shows "run (posixipc_mutex_capsule_get (capsule_pub impl)) w =
    (if a_ret (answer_to w (Py (Capsule_GetPointer ''posixipc.mutex.v1''))) < 0 then Inl Pending else Inr (capsule_pub impl),
     after w (Py (Capsule_GetPointer ''posixipc.mutex.v1'')))"
  using assms by (simp add: posixipc_mutex_capsule_get_def capsule_pub_def io_simps)

lemma capsule_pub_fields [simp]:
  "mc_retain (capsule_pub impl) = Some (capsule_retain impl)" "mc_release (capsule_pub impl) = Some (\<lambda>H. ret (capsule_release impl H))"
  "mc_mutex (capsule_pub impl) = Some (cap_mutex impl)"
  by (simp_all add: capsule_pub_def)

lemma pinned_close:
  assumes "\<not> shm_is_closed ob" and "0 < s_pins ob" and "run (shm_close ob) w = ((x, ob'), w')"
  shows "ob' = ob"
proof -
  obtain st w1 where "run posixipc_state_from_obj w = (st, w1)" by fastforce
  with assms show ?thesis
    by (auto simp: shm_close_def posixipc_shmobj_close_def shm_is_closed_def io_simps Let_def closed_flag_roundtrip [simplified])
qed

lemma close_keeps_pins: "run (shm_close ob) w = ((x, ob'), w') \<Longrightarrow> s_pins ob' = s_pins ob"
  by (auto simp: shm_close_def posixipc_shmobj_close_def io_simps Let_def split: prod.splits if_splits)

lemma dealloc_keeps_pins: "run (shm_dealloc ob) w = (ob', w') \<Longrightarrow> s_pins ob' = s_pins ob"
  by (auto simp: shm_dealloc_def posixipc_shmobj_close_def io_simps Let_def split: prod.splits if_splits)

lemma capsule_inv_mono: "capsule_inv r core others K H0 s \<Longrightarrow> capsule_inv r core others (Suc K) H0 s"
  by (auto simp: capsule_inv_def)

text \<open>One more retain, and one pin less of the mutex object, the capsule or a retain.\<close>

lemma capsule_inv_pin:
  assumes "capsule_inv r core others K H0 (m, True, n, prog, H)" and "others + K + 3 < 2 ^ 32"
  shows "capsule_inv r core others (Suc K) H0 (m, True, Suc n, prog, H(r := (H r)\<lparr>s_pins := s_pins (H r) + 1\<rparr>))"
proof -
  have pins: "unat (s_pins (H r)) = others + of_bool (m_region m \<noteq> None) + 1 + n" and "n \<le> K"
    and pos: "s_pins (H r) \<noteq> 0" using assms(1) by (auto simp: capsule_inv_def)
  then have "unat (s_pins (H r)) + unat (1 :: u32) < 2 ^ 32" using assms(2) by (simp add: of_bool_def split: if_splits)
  from unat_add_no_wrap [OF this] have "unat (s_pins (H r) + 1) = unat (s_pins (H r)) + 1" by simp
  with assms(1) pos show ?thesis by (auto simp: capsule_inv_def)
qed

lemma capsule_inv_unpin:
  assumes "capsule_inv r core others K H0 (m, alive, n, prog, H)"
    and "of_bool (m_region m \<noteq> None) + of_bool alive + n = Suc (of_bool (m_region m' \<noteq> None) + of_bool alive' + n')"
    and "m_region m' = None \<or> m_region m' = Some r" and "n' \<le> n" and "m_region m \<noteq> None \<or> alive"
  shows "capsule_inv r core others (Suc K) H0 (m', alive', n', prog, unpin_region H r)"
proof -
  have pins: "unat (s_pins (H r)) = Suc (others + of_bool (m_region m' \<noteq> None) + of_bool alive' + n')"
    using assms(1,2) by (simp add: capsule_inv_def)
  then have pos: "s_pins (H r) \<noteq> 0" by auto
  then have "unat (s_pins (H r) - 1) = unat (s_pins (H r)) - 1" by (simp add: unat_minus_one)
  with pos pins assms(1,3,4,5) show ?thesis by (auto simp: capsule_inv_def unpin_region_def posixipc_shmobj_unpin_def)
qed

lemma capsule_inv_close:
  assumes "capsule_inv r core others K H0 (m, alive, n, True, H)" and "run (shm_close (H r)) w = ((x, ob), w')"
  shows "capsule_inv r core others K H0 (m, alive, n, True, H(r := ob))"
proof (cases "s_pins (H r) = 0")
  case True
  then show ?thesis using assms(1) close_keeps_pins [OF assms(2)] by (auto simp: capsule_inv_def)
next
  case False
  then have "ob = H r" using assms by (intro pinned_close [OF _ _ assms(2)]) (auto simp: capsule_inv_def word_neq_0_conv)
  then show ?thesis using assms(1) by simp
qed

lemma capsule_inv_unref:
  assumes "capsule_inv r core others K H0 s" and "run (unref_segment others r s) w = (s', w')"
  shows "capsule_inv r core others K H0 s'"
proof (cases "referenced others s")
  case True
  then show ?thesis using assms by (simp add: unref_segment_def run_ret)
next
  case False
  obtain m alive n prog H where s: "s = (m, alive, n, prog, H)" by (metis prod_cases5)
  obtain ob w1 where d: "run (shm_dealloc (H r)) w = (ob, w1)" by fastforce
  then have "s' = (m, alive, n, prog, H(r := ob))" using False assms(2) s by (simp add: unref_segment_def run_bind run_ret)
  then show ?thesis using False assms(1) s dealloc_keeps_pins [OF d] by (auto simp: capsule_inv_def)
qed

lemma mutex_close_cases:
  assumes "run (mutex_close m H) w = ((x, m', H'), w')"
  shows "m_region m' = m_region m \<and> H' = H \<or> (\<exists>r. m_region m = Some r \<and> m_region m' = None \<and> H' = unpin_region H r)"
  using assms
  by (cases "m_region m") (auto simp: mutex_close_def io_simps Let_def split: prod.splits if_splits option.splits)

lemma capsule_inv_step:
  assumes "capsule_inv r core others K H0 s" and "cap_version impl = 1" and "cap_region impl = Some r" and "others + K + 3 < 2 ^ 32"
    and "run (capsule_step others p impl r a s) w = (s', w')"
  shows "capsule_inv r core others (Suc K) H0 s'"
proof -
  obtain m alive n prog H where s: "s = (m, alive, n, prog, H)" by (metis prod_cases5)
  note inv = assms(1) [unfolded s]
  note same = capsule_inv_mono [OF inv]
  have open_r: "\<not> shm_is_closed (H r)" if "alive" using inv that by (auto simp: capsule_inv_def)
  show ?thesis
  proof (cases a)
    case Retain
    then show ?thesis using assms(2-) same open_r capsule_inv_pin [of r core others K H0 m n prog H] inv unfolding s
      by (cases alive) (auto simp: posixipc_mutex_capsule_retain_def run_capsule_get capsule_retain_def run_pin_region io_simps
          split: prod.splits if_splits)
  next
    case Release
    have "capsule_inv r core others (Suc K) H0 (m, True, n - 1, prog, unpin_region H r)" if "alive" "n \<noteq> 0"
      using inv that by (intro capsule_inv_unpin [OF inv]) (auto simp: capsule_inv_def)
    with Release show ?thesis using assms(2,3,5) same unfolding s
      by (cases alive) (auto simp: posixipc_mutex_capsule_release_def run_capsule_get capsule_release_def io_simps split: prod.splits if_splits)
  next
    case DropCapsule
    have "capsule_inv r core others (Suc K) H0 (m, False, n, prog, unpin_region H r)" if "alive"
      using inv that by (intro capsule_inv_unpin [OF inv]) (auto simp: capsule_inv_def)
    with DropCapsule show ?thesis using assms(2,3,5) same unfolding s
      by (cases alive) (auto simp: capsule_destructor_def io_simps intro: capsule_inv_unref)
  next
    case CloseMutex
    obtain x m' H' w1 where c: "run (mutex_close m H) w = ((x, m', H'), w1)" by (metis prod_cases4 surj_pair)
    have i: "capsule_inv r core others (Suc K) H0 (m', alive, n, prog, H')" using mutex_close_cases [OF c]
    proof
      assume "m_region m' = m_region m \<and> H' = H"
      then show ?thesis using same by (simp add: capsule_inv_def)
    next
      assume "\<exists>r. m_region m = Some r \<and> m_region m' = None \<and> H' = unpin_region H r"
      moreover have "m_region m = None \<or> m_region m = Some r" using inv by (simp add: capsule_inv_def)
      ultimately have "m_region m = Some r" "m_region m' = None" "H' = unpin_region H r" by auto
      then show ?thesis using capsule_inv_unpin [OF inv, of m' alive n] by simp
    qed
    with c CloseMutex show ?thesis using assms(5) capsule_inv_unref [OF i] unfolding s by (auto simp: io_simps split: if_splits)
  next
    case CloseSegment
    obtain x ob w1 where c: "run (shm_close (H r)) w = ((x, ob), w1)" by (metis surj_pair)
    show ?thesis
    proof (cases prog)
      case True
      then have "capsule_inv r core others K H0 (m, alive, n, True, H)" using inv by simp
      from capsule_inv_mono [OF capsule_inv_close [OF this c]] show ?thesis
        using CloseSegment True c assms(5) unfolding s by (auto simp: io_simps)
    next
      case False
      then show ?thesis using CloseSegment assms(5) same unfolding s by (simp add: io_simps)
    qed
  next
    case DropSegment
    have "capsule_inv r core others (Suc K) H0 (m, alive, n, False, H)" using same by (auto simp: capsule_inv_def)
    with DropSegment show ?thesis using assms(5) same capsule_inv_unref unfolding s by (auto simp: io_simps split: if_splits)
  qed
qed

lemma capsule_inv_steps:
  assumes "capsule_inv r core others K H0 s" and "cap_version impl = 1" and "cap_region impl = Some r" and "others + K + length as + 2 < 2 ^ 32"
    and "run (capsule_steps others p impl r as s) w = (s', w')"
  shows "capsule_inv r core others (K + length as) H0 s'"
  using assms
proof (induction as arbitrary: s w K)
  case (Cons a as)
  obtain s1 w1 where st: "run (capsule_step others p impl r a s) w = (s1, w1)" by fastforce
  have "capsule_inv r core others (Suc K) H0 s1" by (rule capsule_inv_step [OF Cons.prems(1-3) _ st]) (use Cons.prems(4) in simp)
  from Cons.IH [OF this Cons.prems(2,3)] Cons.prems(4,5) st show ?case by (simp add: io_simps)
qed (simp add: io_simps)

lemma as_capsule_post:
  assumes "run (mutex_as_capsule m H) w = ((Inr (p, impl), H1), w')"
  shows "\<exists>r l. m_region m = Some r \<and> m_lock m = Some l \<and> \<not> shm_is_closed (H r) \<and> impl = \<lparr>cap_version = 1, cap_mutex = l, cap_region = Some r\<rparr> \<and>
           H1 = H(r := (H r)\<lparr>s_pins := s_pins (H r) + 1\<rparr>)"
  using assms
  by (auto simp: mutex_as_capsule_def posixipc_mutex_capsule_new_def run_pin_region io_simps Let_def split: prod.splits if_splits option.splits)

text \<open>
  C20. The lock in a capsule. Another extension gets from the capsule exactly the lock of the mutex object, and whatever order the
  parties act in (the extension retaining, releasing and dropping the capsule, the program closing the mutex object, trying to close
  the segment and dropping its reference to it), the pins of the segment count the parties exactly, no other segment changes, and the segment is open and
  mapped where it was, so that the pointer is good, while the mutex object is bound or the capsule exists; and while a use is
  retained, as long as the program or another handle refers to the segment object. A retained use alone does not keep it: see the run below.
\<close>

theorem capsule_keeps_lock_mapped:
  assumes "run (mutex_as_capsule m H) w = ((Inr (p, impl), H1), w1)" and "m_region m = Some r" and "unat (s_pins (H r)) = Suc others"
    and "others + length as + 2 < 2 ^ 32" and "run (capsule_steps others p impl r as (m, True, 0, True, H1)) w1 = ((m', alive, n, prog, H'), w2)"
  shows "fst (run (posixipc_mutex_from_capsule (capsule_pub impl)) w3) \<in> {Inl Pending, Inr (the (m_lock m))} \<and>
         unat (s_pins (H' r)) = others + of_bool (m_region m' \<noteq> None) + of_bool alive + n \<and> (\<forall>r'. r' \<noteq> r \<longrightarrow> H' r' = H r') \<and>
         (m_region m' \<noteq> None \<or> alive \<or> 0 < n \<and> (prog \<or> 0 < others) \<longrightarrow> \<not> shm_is_closed (H' r) \<and> s_core (H' r) = s_core (H r))"
proof -
  obtain l where l: "m_lock m = Some l" "\<not> shm_is_closed (H r)" "impl = \<lparr>cap_version = 1, cap_mutex = l, cap_region = Some r\<rparr>"
    "H1 = H(r := (H r)\<lparr>s_pins := s_pins (H r) + 1\<rparr>)"
    using as_capsule_post [OF assms(1)] assms(2) by auto
  have "unat (s_pins (H r)) + unat (1 :: u32) < 2 ^ 32" using assms(3,4) by simp
  from unat_add_no_wrap [OF this] have "unat (s_pins (H r) + 1) = Suc (Suc others)" using assms(3) by simp
  then have "capsule_inv r (s_core (H r)) others 0 H (m, True, 0, True, H1)" using l assms(2) by (auto simp: capsule_inv_def)
  from capsule_inv_steps [OF this _ _ _ assms(5)] l assms(4)
  have inv: "capsule_inv r (s_core (H r)) others (length as) H (m', alive, n, prog, H')" by simp
  then have "m_region m' \<noteq> None \<or> alive \<or> 0 < n \<Longrightarrow> s_pins (H' r) \<noteq> 0" by (auto simp: capsule_inv_def)
  with inv l show ?thesis
    by (auto simp: capsule_inv_def posixipc_mutex_from_capsule_def run_capsule_get io_simps)
qed

text \<open>The user retains the lock; then the program closes the mutex object and fails to close the segment.\<close>

definition shared_mutex :: PosixIPCMutexObject where
  "shared_mutex = demo_mutex\<lparr>m_region := Some 5\<rparr>"

definition one_pin :: regions where
  "one_pin = demo_regions(5 := demo_segment\<lparr>s_pins := 1\<rparr>)"

lemma demo_capsule:
  "run (mutex_as_capsule shared_mutex one_pin) mapped_world =
     ((Inr (0, \<lparr>cap_version = 1, cap_mutex = 7, cap_region = Some 5\<rparr>), one_pin(5 := demo_segment\<lparr>s_pins := 2\<rparr>)),
      after (after (after (after mapped_world (Py Type_GetModule)) (Py Type_GetModule)) (Py (PyMem_Calloc 1 40))) (Py Capsule_New))"
  by (simp add: mutex_as_capsule_def posixipc_mutex_capsule_new_def run_pin_region shared_mutex_def demo_mutex_def one_pin_def demo_segment_def
      mutex_check_open_def mutex_flags_closed_def flag_set_def shm_is_closed_def posixipc_state_from_obj_def posixipc_state_from_type_def
      io_simps Let_def answer_to_mapped answer0_def)

theorem capsule_keeps_lock_mapped_witness:
  "\<exists>p impl H1 w1 m' alive n prog H' w2.
     run (mutex_as_capsule shared_mutex one_pin) mapped_world = ((Inr (p, impl), H1), w1) \<and>
     run (capsule_steps 0 p impl 5 [Retain, CloseMutex, CloseSegment, DropSegment] (shared_mutex, True, 0, True, H1)) w1 = ((m', alive, n, prog, H'), w2) \<and>
     unat (s_pins (H' 5)) = of_bool (m_region m' \<noteq> None) + of_bool alive + n \<and>
     (alive \<longrightarrow> \<not> shm_is_closed (H' 5) \<and> s_core (H' 5) = s_core demo_segment)"
proof -
  let ?as = "[Retain, CloseMutex, CloseSegment, DropSegment]"
  obtain p impl H1 w1 where c: "run (mutex_as_capsule shared_mutex one_pin) mapped_world = ((Inr (p, impl), H1), w1)"
    by (rule that [OF demo_capsule])
  obtain t w2 where "run (capsule_steps 0 p impl 5 ?as (shared_mutex, True, 0, True, H1)) w1 = (t, w2)"
    by (rule prod.exhaust)
  moreover obtain m' alive n prog H' where "t = (m', alive, n, prog, H')" by (rule prod_cases5)
  ultimately have s: "run (capsule_steps 0 p impl 5 ?as (shared_mutex, True, 0, True, H1)) w1 = ((m', alive, n, prog, H'), w2)"
    by simp
  have "m_region shared_mutex = Some 5" "unat (s_pins (one_pin 5)) = Suc 0" "s_core (one_pin 5) = s_core demo_segment"
    by (simp_all add: shared_mutex_def one_pin_def)
  note core = this(3)
  from capsule_keeps_lock_mapped [OF c \<open>m_region shared_mutex = Some 5\<close> \<open>unat (s_pins (one_pin 5)) = Suc 0\<close> _ s]
  have "unat (s_pins (H' 5)) = of_bool (m_region m' \<noteq> None) + of_bool alive + n"
    "alive \<longrightarrow> \<not> shm_is_closed (H' 5) \<and> s_core (H' 5) = s_core demo_segment" using core by auto
  note fin = this
  show ?thesis by (intro exI conjI, rule c, rule s, rule fin(1), rule fin(2))
qed

text \<open>
  A retain is a pin and not a reference: when the mutex object is closed, the program drops the segment object and the capsule goes while
  a use is still retained, the object is deallocated and the segment unmapped under the pointer.
\<close>

lemma retained_use_unmapped:
  "\<exists>m' H' w2. run (capsule_steps 0 0 \<lparr>cap_version = 1, cap_mutex = 7, cap_region = Some 5\<rparr> 5 [Retain, CloseMutex, DropSegment, DropCapsule]
       (shared_mutex, True, 0, True, one_pin(5 := demo_segment\<lparr>s_pins := 2\<rparr>))) mapped_world = ((m', False, 1, False, H'), w2) \<and>
     s_pins (H' 5) = 1 \<and> shm_is_closed (H' 5) \<and> sh_map (s_core (H' 5)) = None"
  by (simp add: unref_segment_def posixipc_mutex_capsule_retain_def run_capsule_get capsule_retain_def run_pin_region mutex_close_def
      capsule_destructor_def shm_dealloc_def shm_finalize_def posixipc_shmobj_close_def posixipc_shm_close_def unpin_region_def
      posixipc_shmobj_unpin_def shared_mutex_def demo_mutex_def one_pin_def demo_segment_def mutex_flags_closed_def flag_set_def shm_is_closed_def
      posixipc_state_from_obj_def posixipc_state_from_type_def io_simps Let_def answer_to_mapped answer0_def reset_handle_def)

end
